(* ===== verification/Py_Prelude.thy ===== *)
theory Py_Prelude
  imports Complex_Main "HOL-Library.AList" "HOL-Library.Multiset"
begin

text \<open>
  What every component shares: the exceptions of the program as values, the result type
  of a fallible operation with its sequencing, dictionaries as association lists in
  insertion order, and Python's \<open>min\<close> and \<open>sorted\<close> with a key. The locale
  \<open>key_order\<close> states what \<open>min\<close> and \<open>sorted\<close> need of the key's comparison;
  the routing and compaction theories interpret it on the keys the code uses.
\<close>

named_theorems validator_simps \<open>unfolding rules of the field validators\<close>
named_theorems guard_simps \<open>unfolding rules of guarded operations\<close>

section \<open>Errors and results\<close>

text \<open>
  One constructor per exception class the modelled code raises: the built-in ones, the
  aggregate the data models raise, and the classes of \<^verbatim>\<open>errors.py\<close>.
\<close>

datatype py_error =
    ValueError string
  | TypeError string
  | KeyError string
  | IndexError
  | OverflowError
  | ZeroDivisionError
  | RuntimeError string
  | ValidationError "string list"
  | PolicyError string
  | BudgetError string
  | RoutingError string
  | CompactionError string
  | IntegrationError string
  | WorkflowBudgetError string
  | SerializationError string
  | AttributeError string

text \<open>\<^verbatim>\<open>type(exc).__name__\<close>\<close>

fun exception_name :: "py_error \<Rightarrow> string" where
  "exception_name (ValueError m) = ''ValueError''"
| "exception_name (TypeError m) = ''TypeError''"
| "exception_name (KeyError m) = ''KeyError''"
| "exception_name IndexError = ''IndexError''"
| "exception_name OverflowError = ''OverflowError''"
| "exception_name ZeroDivisionError = ''ZeroDivisionError''"
| "exception_name (RuntimeError m) = ''RuntimeError''"
| "exception_name (ValidationError ms) = ''ValidationError''"
| "exception_name (PolicyError m) = ''PolicyError''"
| "exception_name (BudgetError m) = ''BudgetError''"
| "exception_name (RoutingError m) = ''RoutingError''"
| "exception_name (CompactionError m) = ''CompactionError''"
| "exception_name (IntegrationError m) = ''IntegrationError''"
| "exception_name (WorkflowBudgetError m) = ''WorkflowBudgetError''"
| "exception_name (SerializationError m) = ''SerializationError''"
| "exception_name (AttributeError m) = ''AttributeError''"

type_synonym 'a result = "py_error + 'a"

fun rbind :: "'e + 'a \<Rightarrow> ('a \<Rightarrow> 'e + 'b) \<Rightarrow> 'e + 'b" where
  "rbind (Inl e) f = Inl e"
| "rbind (Inr x) f = f x"

fun is_ok :: "'e + 'a \<Rightarrow> bool" where
  "is_ok (Inl e) = False"
| "is_ok (Inr x) = True"

lemma rbind_Inr_iff [simp]: "rbind m f = Inr y \<longleftrightarrow> (\<exists>x. m = Inr x \<and> f x = Inr y)"
  by (cases m) auto

lemma rbind_Inl_iff: "rbind m f = Inl e \<longleftrightarrow> m = Inl e \<or> (\<exists>x. m = Inr x \<and> f x = Inl e)"
  by (cases m) auto

lemma is_ok_iff: "is_ok m \<longleftrightarrow> (\<exists>x. m = Inr x)"
  by (cases m) auto

lemma rbind_cong [fundef_cong]:
  "m = n \<Longrightarrow> (\<And>x. n = Inr x \<Longrightarrow> f x = g x) \<Longrightarrow> rbind m f = rbind n g"
  by (cases n) auto

text \<open>A comprehension whose body may raise stops at the first error.\<close>

fun rmap :: "('a \<Rightarrow> 'e + 'b) \<Rightarrow> 'a list \<Rightarrow> 'e + 'b list" where
  "rmap f [] = Inr []"
| "rmap f (x # xs) = rbind (f x) (\<lambda>y. rbind (rmap f xs) (\<lambda>ys. Inr (y # ys)))"

lemma rmap_Inr: "rmap f xs = Inr ys \<longleftrightarrow> list_all2 (\<lambda>x y. f x = Inr y) xs ys"
proof (induction xs arbitrary: ys)
  case (Cons x xs)
  then show ?case by (cases ys) auto
qed auto

lemma rmap_length: "rmap f xs = Inr ys \<Longrightarrow> length ys = length xs"
  by (auto simp: rmap_Inr dest: list_all2_lengthD)

lemma rmap_set: "rmap f xs = Inr ys \<Longrightarrow> y \<in> set ys \<Longrightarrow> \<exists>x\<in>set xs. f x = Inr y"
  by (induction xs arbitrary: ys) auto

lemma rmap_ok: "(\<And>x. x \<in> set xs \<Longrightarrow> f x = Inr (g x)) \<Longrightarrow> rmap f xs = Inr (map g xs)"
  by (induction xs) auto

lemma rmap_map:
  "rmap f xs = Inr ys \<Longrightarrow> (\<And>x y. x \<in> set xs \<Longrightarrow> f x = Inr y \<Longrightarrow> y = g x) \<Longrightarrow> ys = map g xs"
  by (induction xs arbitrary: ys) auto

section \<open>Dictionaries in insertion order\<close>

type_synonym ('k, 'v) dict = "('k \<times> 'v) list"

abbreviation dict_get :: "('k, 'v) dict \<Rightarrow> 'k \<Rightarrow> 'v option" where
  "dict_get \<equiv> map_of"

abbreviation dict_set :: "'k \<Rightarrow> 'v \<Rightarrow> ('k, 'v) dict \<Rightarrow> ('k, 'v) dict" where
  "dict_set \<equiv> AList.update"

abbreviation dict_pop :: "'k \<Rightarrow> ('k, 'v) dict \<Rightarrow> ('k, 'v) dict" where
  "dict_pop \<equiv> AList.delete"

definition dict_ok :: "('k, 'v) dict \<Rightarrow> bool" where
  "dict_ok d \<longleftrightarrow> distinct (map fst d)"

text \<open>A comprehension \<open>{k: v for ...}\<close> or \<open>dict(pairs)\<close>: later pairs overwrite.\<close>

definition dict_of :: "('k \<times> 'v) list \<Rightarrow> ('k, 'v) dict" where
  "dict_of ps = fold (\<lambda>(k, v). dict_set k v) ps []"

lemma dict_ok_set [simp]: "dict_ok d \<Longrightarrow> dict_ok (dict_set k v d)"
  by (simp add: dict_ok_def distinct_update)

lemma dict_ok_pop [simp]: "dict_ok d \<Longrightarrow> dict_ok (dict_pop k d)"
  by (simp add: dict_ok_def distinct_delete)

lemma dict_ok_Nil [simp]: "dict_ok []"
  by (simp add: dict_ok_def)

lemma dict_get_set: "dict_get (dict_set k v d) = (dict_get d)(k \<mapsto> v)"
  by (rule update_conv')

lemma dict_get_pop: "dict_get (dict_pop k d) = (dict_get d)(k := None)"
  by (rule delete_conv')

lemma dict_of_fold:
  "dict_get (fold (\<lambda>(k, v). dict_set k v) ps d) = dict_get d ++ map_of (rev ps)"
proof (induction ps arbitrary: d)
  case (Cons p ps)
  obtain k v where p: "p = (k, v)" by (cases p)
  show ?case by (simp add: p Cons.IH dict_get_set map_add_def fun_eq_iff split: option.splits)
qed simp

lemma dict_get_of: "dict_get (dict_of ps) = map_of (rev ps)"
  by (simp add: dict_of_def dict_of_fold)

lemma dict_ok_of [simp]: "dict_ok (dict_of ps)"
proof -
  have "dict_ok d \<Longrightarrow> dict_ok (fold (\<lambda>(k, v). dict_set k v) ps d)" for d
    by (induction ps arbitrary: d) auto
  then show ?thesis by (simp add: dict_of_def)
qed

lemma dict_pop_length: "dict_get d k = Some v \<Longrightarrow> dict_ok d \<Longrightarrow> Suc (length (dict_pop k d)) = length d"
proof (induction d)
  case (Cons p d)
  then show ?case by (cases p) (auto simp: dict_ok_def delete_idem)
qed simp

lemma dict_set_length_new: "dict_get d k = None \<Longrightarrow> length (dict_set k v d) = Suc (length d)"
  by (induction d) (auto split: if_splits)

lemma dict_pop_subset: "set (dict_pop k d) \<subseteq> set d"
  by (induction d) auto

lemma dict_set_subset: "set (dict_set k v d) \<subseteq> insert (k, v) (set d)"
  by (induction d) auto

section \<open>Python's min and sorted\<close>

text \<open>
  \<open>min(xs, key=f)\<close> scans from the left and replaces its candidate only by a strictly
  smaller key, so the first of several minima is returned.
\<close>

fun min_from :: "('k \<Rightarrow> 'k \<Rightarrow> bool) \<Rightarrow> ('a \<Rightarrow> 'k) \<Rightarrow> 'a \<Rightarrow> 'a list \<Rightarrow> 'a" where
  "min_from lt key best [] = best"
| "min_from lt key best (x # xs) =
     min_from lt key (if lt (key x) (key best) then x else best) xs"

definition min_by :: "('k \<Rightarrow> 'k \<Rightarrow> bool) \<Rightarrow> ('a \<Rightarrow> 'k) \<Rightarrow> 'a list \<Rightarrow> 'a result" where
  "min_by lt key xs = (case xs of [] \<Rightarrow> Inl (ValueError ''min() arg is an empty sequence'')
                       | x # ys \<Rightarrow> Inr (min_from lt key x ys))"

text \<open>
  \<open>sorted(xs, key=f)\<close> is stable: an element goes before those that follow it in the
  input and are not strictly smaller. \<open>reverse=True\<close> is the same with the comparison
  turned round (it keeps the order of equal keys as well).
\<close>

fun insert_by :: "('k \<Rightarrow> 'k \<Rightarrow> bool) \<Rightarrow> ('a \<Rightarrow> 'k) \<Rightarrow> 'a \<Rightarrow> 'a list \<Rightarrow> 'a list" where
  "insert_by lt key x [] = [x]"
| "insert_by lt key x (y # ys) =
     (if lt (key y) (key x) then y # insert_by lt key x ys else x # y # ys)"

fun sort_by :: "('k \<Rightarrow> 'k \<Rightarrow> bool) \<Rightarrow> ('a \<Rightarrow> 'k) \<Rightarrow> 'a list \<Rightarrow> 'a list" where
  "sort_by lt key [] = []"
| "sort_by lt key (x # xs) = insert_by lt key x (sort_by lt key xs)"

definition rev_lt :: "('k \<Rightarrow> 'k \<Rightarrow> bool) \<Rightarrow> 'k \<Rightarrow> 'k \<Rightarrow> bool" where
  "rev_lt lt a b = lt b a"

lemma min_from_in: "min_from lt key b xs \<in> set (b # xs)"
proof (induction xs arbitrary: b)
  case (Cons x xs)
  show ?case using Cons.IH [of "if lt (key x) (key b) then x else b"] by (auto split: if_splits)
qed simp

lemma min_by_in: "min_by lt key xs = Inr m \<Longrightarrow> m \<in> set xs"
  using min_from_in [of lt key "hd xs" "tl xs"] by (cases xs) (auto simp: min_by_def)

lemma min_by_ok: "xs \<noteq> [] \<Longrightarrow> \<exists>m. min_by lt key xs = Inr m"
  by (cases xs) (auto simp: min_by_def)

lemma mset_insert_by: "mset (insert_by lt key x xs) = {#x#} + mset xs"
  by (induction xs) auto

lemma mset_sort_by [simp]: "mset (sort_by lt key xs) = mset xs"
  by (induction xs) (auto simp: mset_insert_by)

lemma set_sort_by [simp]: "set (sort_by lt key xs) = set xs"
  by (metis mset_sort_by set_mset_mset)

lemma length_sort_by [simp]: "length (sort_by lt key xs) = length xs"
  by (metis mset_sort_by size_mset)

lemma distinct_sort_by [simp]: "distinct (sort_by lt key xs) = distinct xs"
  by (metis mset_eq_imp_distinct_iff mset_sort_by)

text \<open>
  What a comparison must satisfy on the keys that occur (\<open>ok\<close>) for \<open>min\<close> to return
  a minimum and \<open>sorted\<close> to return a sorted list: a strict weak order.
\<close>

locale key_order =
  fixes lt :: "'k \<Rightarrow> 'k \<Rightarrow> bool"
    and ok :: "'k \<Rightarrow> bool"
  assumes lt_irrefl: "ok a \<Longrightarrow> \<not> lt a a"
    and lt_trans: "ok a \<Longrightarrow> ok b \<Longrightarrow> ok c \<Longrightarrow> lt a b \<Longrightarrow> lt b c \<Longrightarrow> lt a c"
    and le_trans: "ok a \<Longrightarrow> ok b \<Longrightarrow> ok c \<Longrightarrow> \<not> lt b a \<Longrightarrow> \<not> lt c b \<Longrightarrow> \<not> lt c a"
begin

lemma lt_asym: "ok a \<Longrightarrow> ok b \<Longrightarrow> lt a b \<Longrightarrow> \<not> lt b a"
  using lt_irrefl lt_trans by blast

lemma lt_le_trans: "ok a \<Longrightarrow> ok b \<Longrightarrow> ok c \<Longrightarrow> lt a b \<Longrightarrow> \<not> lt c b \<Longrightarrow> lt a c"
  using le_trans lt_asym by blast

lemma min_from_least:
  assumes "\<forall>x\<in>set (b # xs). ok (key x)" "y \<in> set (b # xs)"
  shows "\<not> lt (key y) (key (min_from lt key b xs))"
  using assms
proof (induction xs arbitrary: b y)
  case Nil
  then show ?case using lt_irrefl by auto
next
  case (Cons x xs)
  define b' where "b' = (if lt (key x) (key b) then x else b)"
  have okb: "\<forall>z\<in>set (b' # xs). ok (key z)" using Cons.prems(1) by (auto simp: b'_def)
  have m: "ok (key (min_from lt key b' xs))"
    using min_from_in [of lt key b' xs] okb by blast
  have b': "\<not> lt (key b') (key (min_from lt key b' xs))" by (rule Cons.IH [OF okb]) simp
  have le: "\<not> lt (key b) (key b')" "\<not> lt (key x) (key b')"
    using Cons.prems(1) lt_irrefl lt_asym by (auto simp: b'_def)
  have "\<not> lt (key y) (key (min_from lt key b' xs))"
  proof (cases "y \<in> set xs")
    case True
    then show ?thesis by (intro Cons.IH [OF okb]) simp
  next
    case False
    then have "y = b \<or> y = x" using Cons.prems(2) by auto
    then show ?thesis
      using le_trans [OF m _ _ b'] le Cons.prems(1) okb by auto
  qed
  then show ?case by (simp add: b'_def)
qed

lemma min_by_least:
  "min_by lt key xs = Inr m \<Longrightarrow> \<forall>x\<in>set xs. ok (key x) \<Longrightarrow> y \<in> set xs \<Longrightarrow> \<not> lt (key y) (key m)"
proof (cases xs)
  case (Cons b ys)
  assume "min_by lt key xs = Inr m" "\<forall>x\<in>set xs. ok (key x)" "y \<in> set xs"
  with Cons min_from_least [where b = b and xs = ys and key = key and y = y] show ?thesis
    by (auto simp: min_by_def)
qed simp

lemma sorted_insert_by:
  assumes "sorted_wrt (\<lambda>a b. \<not> lt (key b) (key a)) xs" "\<forall>y\<in>set (x # xs). ok (key y)"
  shows "sorted_wrt (\<lambda>a b. \<not> lt (key b) (key a)) (insert_by lt key x xs)"
  using assms
proof (induction xs)
  case (Cons y ys)
  have s: "set (insert_by lt key x ys) = insert x (set ys)"
    by (metis insert_is_Un mset_insert_by set_mset_add_mset_insert set_mset_mset add_mset_add_single
        union_commute)
  have "\<not> lt (key z) (key x)" if "\<not> lt (key y) (key x)" "z \<in> set ys" for z
    using le_trans [of "key x" "key y" "key z"] that Cons.prems by auto
  with Cons s show ?case by (auto dest: lt_asym)
qed simp

lemma sorted_sort_by:
  "\<forall>x\<in>set xs. ok (key x) \<Longrightarrow> sorted_wrt (\<lambda>a b. \<not> lt (key b) (key a)) (sort_by lt key xs)"
proof (induction xs)
  case (Cons x xs)
  then show ?case by (simp add: sorted_insert_by)
qed simp

text \<open>Turning the comparison round gives a key order again, the one of \<open>reverse=True\<close>.\<close>

lemma rev_key_order: "key_order (rev_lt lt) ok"
proof unfold_locales
  fix a b c
  show "ok a \<Longrightarrow> \<not> rev_lt lt a a" by (simp add: rev_lt_def lt_irrefl)
  assume "ok a" "ok b" "ok c"
  then show "rev_lt lt a b \<Longrightarrow> rev_lt lt b c \<Longrightarrow> rev_lt lt a c"
    and "\<not> rev_lt lt b a \<Longrightarrow> \<not> rev_lt lt c b \<Longrightarrow> \<not> rev_lt lt c a"
    unfolding rev_lt_def using lt_trans [of c b a] le_trans [of c b a] by blast+
qed

end

text \<open>Python compares tuples at the first component where they differ.\<close>

definition tuple_lt :: "('a \<Rightarrow> 'a \<Rightarrow> bool) \<Rightarrow> ('a \<Rightarrow> 'a \<Rightarrow> bool) \<Rightarrow> ('b \<Rightarrow> 'b \<Rightarrow> bool) \<Rightarrow> 'a \<times> 'b \<Rightarrow> 'a \<times> 'b \<Rightarrow> bool" where
  "tuple_lt eq lt1 lt2 k l = (if \<not> eq (fst k) (fst l) then lt1 (fst k) (fst l) else lt2 (snd k) (snd l))"

lemma key_order_tuple:
  assumes o1: "key_order lt1 ok1" and o2: "key_order lt2 ok2"
    and eq: "\<And>a b. ok1 a \<Longrightarrow> ok1 b \<Longrightarrow> eq a b \<longleftrightarrow> \<not> lt1 a b \<and> \<not> lt1 b a"
  shows "key_order (tuple_lt eq lt1 lt2) (\<lambda>k. ok1 (fst k) \<and> ok2 (snd k))"
proof unfold_locales
  fix a b c
  show "ok1 (fst a) \<and> ok2 (snd a) \<Longrightarrow> \<not> tuple_lt eq lt1 lt2 a a"
    using key_order.lt_irrefl [OF o1] key_order.lt_irrefl [OF o2] by (auto simp: tuple_lt_def eq)
  assume "ok1 (fst a) \<and> ok2 (snd a)" "ok1 (fst b) \<and> ok2 (snd b)" "ok1 (fst c) \<and> ok2 (snd c)"
  then have ok: "ok1 (fst a)" "ok1 (fst b)" "ok1 (fst c)" "ok2 (snd a)" "ok2 (snd b)" "ok2 (snd c)" by auto
  have lt: "tuple_lt eq lt1 lt2 k l \<longleftrightarrow>
      lt1 (fst k) (fst l) \<or> \<not> lt1 (fst l) (fst k) \<and> lt2 (snd k) (snd l)"
    if "ok1 (fst k)" "ok1 (fst l)" for k l
    using key_order.lt_asym [OF o1 that] by (auto simp: tuple_lt_def eq that)
  note lts = lt [OF ok(1,2)] lt [OF ok(2,3)] lt [OF ok(1,3)] lt [OF ok(2,1)] lt [OF ok(3,2)] lt [OF ok(3,1)]
  note le = key_order.le_trans [OF o1]
  show "tuple_lt eq lt1 lt2 a b \<Longrightarrow> tuple_lt eq lt1 lt2 b c \<Longrightarrow> tuple_lt eq lt1 lt2 a c"
    using key_order.lt_trans [OF o2 ok(4-6)] key_order.lt_trans [OF o1 ok(1-3)]
      key_order.lt_asym [OF o1 ok(1,2)] key_order.lt_asym [OF o1 ok(2,3)]
      le [OF ok(1-3)] le [OF ok(2,3,1)] le [OF ok(3,1,2)]
    unfolding lts by blast
  show "\<not> tuple_lt eq lt1 lt2 b a \<Longrightarrow> \<not> tuple_lt eq lt1 lt2 c b \<Longrightarrow> \<not> tuple_lt eq lt1 lt2 c a"
    using key_order.le_trans [OF o2 ok(4-6)] le [OF ok(1-3)]
      le [OF ok(2,3,1)] le [OF ok(3,1,2)]
    unfolding lts by blast
qed

lemma key_order_linorder: "key_order ((<) :: 'a::linorder \<Rightarrow> 'a \<Rightarrow> bool) (\<lambda>_. True)"
  by unfold_locales auto

lemma linorder_eq_iff: "a = b \<longleftrightarrow> \<not> a < b \<and> \<not> b < a" for a :: "'a::linorder"
  by auto

section \<open>Small facts about lists\<close>

lemma sum_list_nonneg_int: "\<forall>x\<in>set xs. 0 \<le> x \<Longrightarrow> (0::int) \<le> sum_list xs"
  by (induction xs) auto

lemma sum_list_map_le: "(\<And>x. x \<in> set xs \<Longrightarrow> f x \<le> g x) \<Longrightarrow> sum_list (map f xs) \<le> (sum_list (map g xs) :: int)"
  by (induction xs) (auto intro: add_mono)

text \<open>\<open>next((x for x in xs if p(x)), None)\<close> is \<open>find\<close>.\<close>

lemma find_Some_in: "find p xs = Some x \<Longrightarrow> x \<in> set xs \<and> p x"
  by (auto simp: find_Some_iff)

lemma find_None_all: "find p xs = None \<longleftrightarrow> (\<forall>x\<in>set xs. \<not> p x)"
  by (auto simp: find_None_iff)

end
