(* ===== verification/Py_Float.thy ===== *)
theory Py_Float
  imports Py_Prelude
begin

text \<open>
  Python's \<open>float\<close> as the program uses it: IEEE 754 binary64 with rounding to nearest,
  ties to even. A finite float is the rational it denotes; infinities and NaN are
  constructors of their own. The model has one zero: the sign of a zero is observable in
  the program only through division by zero, which Python refuses with
  \<^verbatim>\<open>ZeroDivisionError\<close> for both zeros. The lemmas show that rounding is
  monotone, exact on the values a double can hold, and idempotent; the components use
  nothing else about it.
\<close>

section \<open>Rounding of a rational to a double\<close>

fun blen :: "nat \<Rightarrow> nat" where
  "blen n = (if n = 0 then 0 else Suc (blen (n div 2)))"

declare blen.simps [simp del]

definition scale2 :: "int \<Rightarrow> rat" where
  "scale2 e = (if 0 \<le> e then 2 ^ nat e else inverse (2 ^ nat (- e)))"

definition ilog2 :: "rat \<Rightarrow> int" where
  "ilog2 x = (if 1 \<le> x then int (blen (nat \<lfloor>x\<rfloor>)) - 1
              else - int (blen (nat (\<lceil>inverse x\<rceil> - 1))))"

text \<open>The same length on integers, so that evaluation does not count in unary.\<close>

function iblen :: "int \<Rightarrow> int" where
  "iblen n = (if n \<le> 0 then 0 else 1 + iblen (n div 2))"
  by pat_completeness auto
termination by (relation "measure nat") auto

declare iblen.simps [simp del]

lemma iblen_blen: "iblen n = int (blen (nat n))"
proof (induction n rule: iblen.induct)
  case (1 n)
  have "nat n div 2 = nat (n div 2)" by (simp add: nat_div_distrib)
  then show ?case using 1 by (simp add: iblen.simps [of n] blen.simps [of "nat n"])
qed

lemma ilog2_code [code]:
  "ilog2 x = (if 1 \<le> x then iblen \<lfloor>x\<rfloor> - 1 else - iblen (\<lceil>inverse x\<rceil> - 1))"
  by (simp add: ilog2_def iblen_blen)

definition ulp_exp :: "rat \<Rightarrow> int" where
  "ulp_exp x = max (ilog2 x) (- 1022) - 52"

definition round_even :: "rat \<Rightarrow> int" where
  "round_even q = (let n = \<lfloor>q\<rfloor>; d = q - of_int n in
     if d < 1 / 2 then n else if 1 / 2 < d then n + 1 else if even n then n else n + 1)"

definition rnd_pos :: "rat \<Rightarrow> rat" where
  "rnd_pos x = (let s = scale2 (ulp_exp x) in of_int (round_even (x / s)) * s)"

definition rnd :: "rat \<Rightarrow> rat" where
  "rnd x = (if x = 0 then 0 else if 0 < x then rnd_pos x else - rnd_pos (- x))"

subsection \<open>Powers of two\<close>

lemma scale2_powi: "scale2 e = 2 powi e"
  by (simp add: scale2_def power_int_def power_inverse [symmetric])

lemma scale2_pos [simp]: "0 < scale2 e"
  by (simp add: scale2_powi)

lemma scale2_nz [simp]: "scale2 e \<noteq> 0"
  by (simp add: scale2_powi)

lemma scale2_add: "scale2 (a + b) = scale2 a * scale2 b"
  by (simp add: scale2_powi power_int_add)

lemma scale2_diff: "scale2 (a - b) = scale2 a / scale2 b"
  by (simp add: scale2_powi power_int_diff)

lemma scale2_mono: "a \<le> b \<Longrightarrow> scale2 a \<le> scale2 b"
  by (simp add: scale2_powi power_int_increasing)

lemma scale2_strict: "a < b \<Longrightarrow> scale2 a < scale2 b"
  by (simp add: scale2_powi power_int_strict_increasing)

lemma scale2_less_iff [simp]: "scale2 a < scale2 b \<longleftrightarrow> a < b"
  using scale2_strict [of a b] scale2_mono [of b a] by (meson linorder_not_less)

lemma scale2_le_iff [simp]: "scale2 a \<le> scale2 b \<longleftrightarrow> a \<le> b"
  by (meson linorder_not_less scale2_less_iff)

lemma scale2_nat: "scale2 (int n) = 2 ^ n"
  by (simp add: scale2_def)

lemma scale2_0 [simp]: "scale2 0 = 1"
  by (simp add: scale2_def)

lemma scale2_Ints: "0 \<le> e \<Longrightarrow> scale2 e = of_int (2 ^ nat e)"
  by (simp add: scale2_def)

subsection \<open>The binary exponent\<close>

lemma blen_lower: "0 < n \<Longrightarrow> 2 ^ (blen n - 1) \<le> n"
proof (induction n rule: blen.induct)
  case (1 n)
  show ?case
  proof (cases "n div 2 = 0")
    case True
    with "1.prems" show ?thesis
      by (simp add: blen.simps [of n] blen.simps [of 0])
  next
    case False
    then obtain k where k: "blen (n div 2) = Suc k"
      by (auto simp: blen.simps [of "n div 2"])
    with "1.IH" "1.prems" False have "2 ^ k \<le> n div 2" by simp
    then have "2 * 2 ^ k \<le> n" by linarith
    with k "1.prems" show ?thesis by (simp add: blen.simps [of n])
  qed
qed

lemma blen_upper: "n < 2 ^ blen n"
proof (induction n rule: blen.induct)
  case (1 n)
  show ?case
  proof (cases "n = 0")
    case False
    with "1.IH" have "n div 2 < 2 ^ blen (n div 2)" by simp
    then have "n < 2 * 2 ^ blen (n div 2)" by linarith
    with False show ?thesis by (simp add: blen.simps [of n])
  qed simp
qed

lemma blen_pos: "0 < n \<Longrightarrow> 0 < blen n"
  by (simp add: blen.simps [of n])

lemma ilog2_ge1:
  assumes "1 \<le> x"
  shows "scale2 (ilog2 x) \<le> x \<and> x < scale2 (ilog2 x + 1)"
proof -
  let ?n = "nat \<lfloor>x\<rfloor>" and ?b = "blen (nat \<lfloor>x\<rfloor>)"
  have n: "0 < ?n" using assms by (simp add: le_floor_iff)
  have e: "ilog2 x = int (?b - 1)" using assms blen_pos [OF n]
    by (simp add: ilog2_def of_nat_diff)
  have nx: "of_nat ?n = (of_int \<lfloor>x\<rfloor> :: rat)" using assms
    by (simp add: of_nat_nat)
  have "(2::rat) ^ (?b - 1) \<le> of_nat ?n"
    using blen_lower [OF n] by (metis numeral_power_le_of_nat_cancel_iff)
  then have lo: "(2::rat) ^ (?b - 1) \<le> x" unfolding nx by linarith
  have "of_nat (Suc ?n) \<le> (2::rat) ^ ?b"
    using blen_upper [of ?n] by (metis Suc_leI of_nat_le_numeral_power_cancel_iff)
  then have hi: "x < 2 ^ ?b" unfolding of_nat_Suc nx by linarith
  have "ilog2 x + 1 = int ?b" using e blen_pos [OF n] by simp
  with lo hi show ?thesis unfolding e by (metis scale2_nat e)
qed

lemma ilog2_lt1:
  assumes "0 < x" "x < 1"
  shows "scale2 (ilog2 x) \<le> x \<and> x < scale2 (ilog2 x + 1)"
proof -
  let ?m = "nat (\<lceil>inverse x\<rceil> - 1)"
  let ?b = "blen ?m"
  have inv: "1 < inverse x" using assms by (simp add: one_less_inverse)
  then have c: "1 < \<lceil>inverse x\<rceil>" by (simp add: less_ceiling_iff)
  then have m: "0 < ?m" by simp
  have mc: "(of_nat ?m :: rat) = of_int \<lceil>inverse x\<rceil> - 1"
  proof -
    have "0 \<le> \<lceil>inverse x\<rceil> - 1" using c by linarith
    then show ?thesis by (simp only: of_nat_nat of_int_diff of_int_1)
  qed
  have e: "ilog2 x = - int ?b" using assms by (simp add: ilog2_def)
  have "of_nat (Suc ?m) \<le> (2::rat) ^ ?b"
    using blen_upper [of ?m] by (metis Suc_leI of_nat_le_numeral_power_cancel_iff)
  then have "inverse x \<le> 2 ^ ?b" unfolding of_nat_Suc mc by linarith
  then have "inverse (2 ^ ?b) \<le> inverse (inverse x)"
    using inv assms by (intro le_imp_inverse_le) auto
  then have lo: "inverse (2 ^ ?b) \<le> x" by simp
  have "(2::rat) ^ (?b - 1) \<le> of_nat ?m"
    using blen_lower [OF m] by (metis numeral_power_le_of_nat_cancel_iff)
  then have "2 ^ (?b - 1) < inverse x" unfolding mc by linarith
  then have "inverse (inverse x) < inverse (2 ^ (?b - 1))"
    by (intro less_imp_inverse_less) auto
  then have hi: "x < inverse (2 ^ (?b - 1))" by simp
  have e1: "ilog2 x + 1 = - int (?b - 1)" using e blen_pos [OF m] by simp
  have s: "scale2 (- int k) = inverse (2 ^ k)" for k
    by (simp add: scale2_powi power_int_minus)
  show ?thesis unfolding e1 using lo hi by (simp only: e s)
qed

lemma ilog2_bounds: "0 < x \<Longrightarrow> scale2 (ilog2 x) \<le> x \<and> x < scale2 (ilog2 x + 1)"
  using ilog2_ge1 [of x] ilog2_lt1 [of x] by (cases "1 \<le> x") auto

lemma ilog2_le: "0 < x \<Longrightarrow> x < scale2 (e + 1) \<Longrightarrow> ilog2 x \<le> e"
  using ilog2_bounds [of x] by (metis le_less_trans scale2_less_iff zless_add1_eq nless_le
      linorder_not_less)

lemma ilog2_mono: "0 < x \<Longrightarrow> x \<le> y \<Longrightarrow> ilog2 x \<le> ilog2 y"
  by (rule ilog2_le) (use ilog2_bounds [of y] in auto)

subsection \<open>Rounding to an integer\<close>

lemma round_even_of_int [simp]: "round_even (of_int k) = k"
  by (simp add: round_even_def)

lemma round_even_mono:
  assumes "x \<le> y"
  shows "round_even x \<le> round_even y"
proof (cases "\<lfloor>x\<rfloor> = \<lfloor>y\<rfloor>")
  case True
  with assms show ?thesis by (auto simp: round_even_def Let_def)
next
  case False
  then have "\<lfloor>x\<rfloor> + 1 \<le> \<lfloor>y\<rfloor>" using floor_mono [OF assms] by simp
  then show ?thesis by (auto simp: round_even_def Let_def)
qed

lemma round_even_lower: "of_int k \<le> x \<Longrightarrow> k \<le> round_even x"
  using round_even_mono [of "of_int k" x] by simp

lemma round_even_upper: "x \<le> of_int k \<Longrightarrow> round_even x \<le> k"
  using round_even_mono [of x "of_int k"] by simp


subsection \<open>Rounding to a double\<close>

definition is_double :: "rat \<Rightarrow> bool" where
  "is_double x \<longleftrightarrow> rnd x = x"

lemma rnd_0 [simp]: "rnd 0 = 0"
  by (simp add: rnd_def)

lemma rnd_neg: "rnd (- x) = - rnd x"
  by (simp add: rnd_def)

lemma rnd_pos_ge: "0 < x \<Longrightarrow> of_int k * scale2 (ulp_exp x) \<le> x \<Longrightarrow> of_int k * scale2 (ulp_exp x) \<le> rnd_pos x"
  by (simp add: rnd_pos_def Let_def round_even_lower pos_le_divide_eq)

lemma rnd_pos_le: "0 < x \<Longrightarrow> x \<le> of_int k * scale2 (ulp_exp x) \<Longrightarrow> rnd_pos x \<le> of_int k * scale2 (ulp_exp x)"
  by (simp add: rnd_pos_def Let_def round_even_upper pos_divide_le_eq)

lemma rnd_pos_nonneg: "0 < x \<Longrightarrow> 0 \<le> rnd_pos x"
  using rnd_pos_ge [of x 0] by simp

lemma rnd_pos_mono:
  assumes "0 < x" "x \<le> y"
  shows "rnd_pos x \<le> rnd_pos y"
proof (cases "ulp_exp x = ulp_exp y")
  case True
  have "x / scale2 (ulp_exp y) \<le> y / scale2 (ulp_exp y)"
    by (rule divide_right_mono) (use assms less_imp_le [OF scale2_pos] in auto)
  with True show ?thesis
    by (simp add: rnd_pos_def Let_def round_even_mono)
next
  case False
  have l: "ilog2 x \<le> ilog2 y" using assms by (rule ilog2_mono)
  define g where "g = max (ilog2 x) (- 1022) + 1"
  have g: "g \<le> ilog2 y" and uy: "ulp_exp y = ilog2 y - 52" and ux: "ulp_exp x = g - 53"
    using False l by (auto simp: g_def ulp_exp_def)
  have pow: "scale2 (e + int k) = of_int (2 ^ k) * scale2 e" for e k
    by (simp add: scale2_add scale2_nat)
  have gx: "scale2 g = of_int (2 ^ 53) * scale2 (ulp_exp x)"
    using pow [of "g - 53" 53] ux by simp
  have gy: "scale2 (ilog2 y) = of_int (2 ^ 52) * scale2 (ulp_exp y)"
    using pow [of "ilog2 y - 52" 52] uy by simp
  have "x < scale2 (ilog2 x + 1)" using ilog2_bounds assms(1) by blast
  moreover have "scale2 (ilog2 x + 1) \<le> scale2 g" by (simp add: g_def)
  ultimately have "x \<le> scale2 g" by linarith
  then have "rnd_pos x \<le> scale2 g" unfolding gx using assms(1) by (rule rnd_pos_le [rotated])
  also have "\<dots> \<le> scale2 (ilog2 y)" using g by simp
  also have "\<dots> \<le> rnd_pos y" unfolding gy
    by (rule rnd_pos_ge) (use assms ilog2_bounds [of y] gy in auto)
  finally show ?thesis .
qed

lemma rnd_mono: "x \<le> y \<Longrightarrow> rnd x \<le> rnd y"
proof -
  assume le: "x \<le> y"
  consider "0 < x" | "x = 0" | "x < 0" "0 < y" | "x < 0" "y = 0" | "y < 0" using le by linarith
  then show ?thesis
  proof cases
    case 3
    then have "0 \<le> rnd_pos (- x)" "0 \<le> rnd_pos y" by (auto intro: rnd_pos_nonneg)
    with 3 show ?thesis by (simp add: rnd_def)
  next
    case 5
    then have "rnd_pos (- y) \<le> rnd_pos (- x)" using le by (intro rnd_pos_mono) auto
    with 5 le show ?thesis by (simp add: rnd_def)
  qed (use le in \<open>auto simp: rnd_def intro: rnd_pos_mono rnd_pos_nonneg order_trans [of _ 0]\<close>)
qed

lemma rnd_nonneg: "0 \<le> x \<Longrightarrow> 0 \<le> rnd x"
  using rnd_mono [of 0 x] by simp

lemma rnd_nonpos: "x \<le> 0 \<Longrightarrow> rnd x \<le> 0"
  using rnd_mono [of x 0] by simp

lemma rnd_pos_exact:
  assumes "0 < k" "k < 2 ^ 53" "- 1074 \<le> e"
  shows "rnd_pos (of_int k * scale2 e) = of_int k * scale2 e"
proof -
  let ?x = "of_int k * scale2 e"
  have x: "0 < ?x" using assms by simp
  have "(of_int k :: rat) < of_int (2 ^ 53)" using assms(2) of_int_less_iff by blast
  then have "?x < of_int (2 ^ 53) * scale2 e" by simp
  also have "\<dots> = scale2 ((e + 52) + 1)" using scale2_add [of e 53]
    by (simp add: scale2_def add.assoc)
  finally have "ilog2 ?x \<le> e + 52" by (rule ilog2_le [OF x])
  then have u: "ulp_exp ?x \<le> e" using assms(3) by (simp add: ulp_exp_def)
  define d where "d = nat (e - ulp_exp ?x)"
  have "e = ulp_exp ?x + int d" using u by (simp add: d_def)
  then have se: "scale2 e = of_int (2 ^ d) * scale2 (ulp_exp ?x)"
    using scale2_add [of "ulp_exp ?x" "int d"] by (simp add: scale2_nat mult.commute)
  define s where "s = scale2 (ulp_exp ?x)"
  have s: "s \<noteq> 0" and x_s: "?x = of_int (k * 2 ^ d) * s" using se by (auto simp: s_def)
  have "rnd_pos ?x = of_int (round_even (?x / s)) * s" by (simp add: rnd_pos_def s_def Let_def)
  also have "?x / s = of_int (k * 2 ^ d)" unfolding x_s using s by simp
  finally show ?thesis unfolding round_even_of_int x_s .
qed

lemma rnd_exact:
  assumes "\<bar>k\<bar> \<le> 2 ^ 53" "- 1074 \<le> e"
  shows "rnd (of_int k * scale2 e) = of_int k * scale2 e"
proof -
  have half: "of_int (2 ^ 53) * scale2 e = of_int (2 ^ 52) * scale2 (e + 1)"
    by (simp add: scale2_add scale2_def [of 1])
  have pos: "rnd_pos (of_int j * scale2 e) = of_int j * scale2 e" if "0 < j" "j \<le> 2 ^ 53" for j
  proof (cases "j = 2 ^ 53")
    case True
    have "rnd_pos (of_int (2 ^ 52) * scale2 (e + 1)) = of_int (2 ^ 52) * scale2 (e + 1)"
      by (rule rnd_pos_exact) (use assms in auto)
    with True half show ?thesis by (simp only: of_int_power of_int_numeral)
  next
    case False
    with that assms show ?thesis by (intro rnd_pos_exact) auto
  qed
  consider "k = 0" | "0 < k" | "k < 0" by linarith
  then show ?thesis
  proof cases
    case 2
    with pos [of k] assms show ?thesis by (simp add: rnd_def)
  next
    case 3
    then have "of_int k * scale2 e < 0" by (simp add: mult_neg_pos)
    with 3 pos [of "- k"] assms show ?thesis by (simp add: rnd_def)
  qed simp
qed

lemma rnd_of_int: "\<bar>k\<bar> \<le> 2 ^ 53 \<Longrightarrow> rnd (of_int k) = of_int k"
  using rnd_exact [of k 0] by simp

text \<open>Evaluation skips the rounding of an exact multiple of 1/64.\<close>

definition exact_fraction :: "rat \<Rightarrow> bool" where
  "exact_fraction x = (\<bar>x\<bar> \<le> 70368744177664 \<and> of_int \<lfloor>x * 64\<rfloor> = x * 64)"

lemma rnd_code [code]:
  "rnd x = (if exact_fraction x then x else if 0 < x then rnd_pos x else - rnd_pos (- x))"
proof (cases "exact_fraction x")
  case True
  define k where "k = \<lfloor>x * 64\<rfloor>"
  have k: "of_int k = x * 64" and x: "\<bar>x\<bar> \<le> 70368744177664"
    using True by (simp_all add: exact_fraction_def k_def)
  then have "\<bar>of_int k :: rat\<bar> \<le> of_int (2 ^ 53)" by (simp add: abs_mult)
  then have "\<bar>k\<bar> \<le> 2 ^ 53" by (simp only: of_int_abs [symmetric] of_int_le_iff)
  then have "rnd (of_int k * scale2 (- 6)) = of_int k * scale2 (- 6)" by (rule rnd_exact) simp
  moreover have "of_int k * scale2 (- 6) = x" using k by (simp add: scale2_def)
  ultimately show ?thesis using True by simp
next
  case False
  then have "x \<noteq> 0" by (auto simp: exact_fraction_def)
  with False show ?thesis by (simp add: rnd_def)
qed

lemma is_double_of_int: "\<bar>k\<bar> \<le> 2 ^ 53 \<Longrightarrow> is_double (of_int k)"
  by (simp add: is_double_def rnd_of_int)

lemma is_double_0 [simp]: "is_double 0"
  by (simp add: is_double_def)

lemma rnd_pos_shape:
  assumes "0 < x"
  shows "\<exists>k e. 0 \<le> k \<and> k \<le> 2 ^ 53 \<and> - 1074 \<le> e \<and> rnd_pos x = of_int k * scale2 e"
proof -
  let ?e = "ulp_exp x"
  let ?k = "round_even (x / scale2 ?e)"
  have e: "- 1074 \<le> ?e" by (simp add: ulp_exp_def)
  have "x < scale2 (ilog2 x + 1)" using ilog2_bounds assms by blast
  also have "\<dots> \<le> scale2 (?e + 53)" by (simp add: ulp_exp_def)
  also have "\<dots> = of_int (2 ^ 53) * scale2 ?e" by (simp add: scale2_add scale2_def [of 53])
  finally have "x / scale2 ?e \<le> of_int (2 ^ 53)" by (simp add: pos_divide_le_eq)
  then have "?k \<le> 2 ^ 53" by (rule round_even_upper)
  moreover have "0 \<le> ?k" using assms less_imp_le [OF scale2_pos]
    by (intro round_even_lower) simp
  ultimately show ?thesis using e by (metis rnd_pos_def)
qed

lemma rnd_idem [simp]: "rnd (rnd x) = rnd x"
proof -
  have pos: "rnd (rnd_pos y) = rnd_pos y" if y: "0 < y" for y
  proof -
    obtain k e where "0 \<le> k" "k \<le> 2 ^ 53" "- 1074 \<le> e" "rnd_pos y = of_int k * scale2 e"
      using rnd_pos_shape [OF y] by blast
    then show ?thesis using rnd_exact [of k e] by simp
  qed
  consider "x = 0" | "0 < x" | "x < 0" by linarith
  then show ?thesis
  proof cases
    case 2
    then have "rnd x = rnd_pos x" by (simp add: rnd_def)
    with pos 2 show ?thesis by simp
  next
    case 3
    then have "rnd x = - rnd_pos (- x)" by (simp add: rnd_def)
    with pos [of "- x"] 3 show ?thesis by (simp add: rnd_neg)
  qed simp
qed

lemma is_double_rnd [simp]: "is_double (rnd x)"
  by (simp add: is_double_def)

lemma rnd_ge: "is_double a \<Longrightarrow> a \<le> x \<Longrightarrow> a \<le> rnd x"
  using rnd_mono [of a x] by (simp add: is_double_def)

lemma rnd_le: "is_double b \<Longrightarrow> x \<le> b \<Longrightarrow> rnd x \<le> b"
  using rnd_mono [of x b] by (simp add: is_double_def)


section \<open>The float type and its operations\<close>

datatype pyfloat = Fin rat | PInf | NInf | NaN

definition fl :: "rat \<Rightarrow> pyfloat" where
  "fl x = (let r = rnd x in
     if r < 2 ^ 1024 then if - (2 ^ 1024) < r then Fin r else NInf else PInf)"

text \<open>Evaluation compares with the largest double only when the value is large.\<close>

definition fl_range :: "rat \<Rightarrow> pyfloat" where
  "fl_range r = (if \<bar>r\<bar> \<le> 18446744073709551616 then Fin r
     else if r < 2 ^ 1024 then if - (2 ^ 1024) < r then Fin r else NInf else PInf)"

lemma fl_code [code]: "fl x = fl_range (rnd x)"
proof -
  have "(18446744073709551616 :: rat) < 2 ^ 1024" by simp
  then show ?thesis unfolding fl_def fl_range_def Let_def abs_le_iff by auto
qed

definition fl_of_int :: "int \<Rightarrow> pyfloat" where
  "fl_of_int i = fl (of_int i)"

fun fadd :: "pyfloat \<Rightarrow> pyfloat \<Rightarrow> pyfloat" where
  "fadd (Fin a) (Fin b) = fl (a + b)"
| "fadd NaN y = NaN"
| "fadd PInf y = (if y = NaN \<or> y = NInf then NaN else PInf)"
| "fadd NInf y = (if y = NaN \<or> y = PInf then NaN else NInf)"
| "fadd (Fin a) y = y"

fun fneg :: "pyfloat \<Rightarrow> pyfloat" where
  "fneg (Fin a) = Fin (- a)"
| "fneg PInf = NInf"
| "fneg NInf = PInf"
| "fneg NaN = NaN"

definition finf :: "bool \<Rightarrow> pyfloat" where
  "finf neg = (if neg then NInf else PInf)"

fun fmul :: "pyfloat \<Rightarrow> pyfloat \<Rightarrow> pyfloat" where
  "fmul (Fin a) (Fin b) = fl (a * b)"
| "fmul NaN y = NaN"
| "fmul x NaN = NaN"
| "fmul (Fin a) PInf = (if a = 0 then NaN else finf (a < 0))"
| "fmul (Fin a) NInf = (if a = 0 then NaN else finf (0 < a))"
| "fmul PInf (Fin b) = (if b = 0 then NaN else finf (b < 0))"
| "fmul NInf (Fin b) = (if b = 0 then NaN else finf (0 < b))"
| "fmul x y = finf (x \<noteq> y)"

text \<open>
  Division of two floats. The Python operator raises for a zero divisor; every division of
  the program has a divisor that its own guard keeps away from zero, and the model's
  value for a zero divisor (NaN) is never used.
\<close>

fun fdiv :: "pyfloat \<Rightarrow> pyfloat \<Rightarrow> pyfloat" where
  "fdiv (Fin a) (Fin b) = (if b = 0 then NaN else fl (a / b))"
| "fdiv NaN y = NaN"
| "fdiv x NaN = NaN"
| "fdiv (Fin a) y = Fin 0"
| "fdiv PInf (Fin b) = finf (b < 0)"
| "fdiv NInf (Fin b) = finf (0 \<le> b)"
| "fdiv x y = NaN"

fun fless :: "pyfloat \<Rightarrow> pyfloat \<Rightarrow> bool" where
  "fless (Fin a) (Fin b) = (a < b)"
| "fless NaN y = False"
| "fless x NaN = False"
| "fless NInf y = (y \<noteq> NInf)"
| "fless PInf y = False"
| "fless (Fin a) y = (y = PInf)"

definition feq :: "pyfloat \<Rightarrow> pyfloat \<Rightarrow> bool" where
  "feq x y = (x = y \<and> x \<noteq> NaN)"

instantiation pyfloat :: "{ord, plus, minus, uminus, times}"
begin

definition less_pyfloat :: "pyfloat \<Rightarrow> pyfloat \<Rightarrow> bool" where
  "less_pyfloat = fless"

definition less_eq_pyfloat :: "pyfloat \<Rightarrow> pyfloat \<Rightarrow> bool" where
  "less_eq_pyfloat x y = (fless x y \<or> feq x y)"

definition plus_pyfloat :: "pyfloat \<Rightarrow> pyfloat \<Rightarrow> pyfloat" where
  "plus_pyfloat = fadd"

definition minus_pyfloat :: "pyfloat \<Rightarrow> pyfloat \<Rightarrow> pyfloat" where
  "minus_pyfloat x y = fadd x (fneg y)"

definition uminus_pyfloat :: "pyfloat \<Rightarrow> pyfloat" where
  "uminus_pyfloat = fneg"

definition times_pyfloat :: "pyfloat \<Rightarrow> pyfloat \<Rightarrow> pyfloat" where
  "times_pyfloat = fmul"

instance ..

end

definition isfinite :: "pyfloat \<Rightarrow> bool" where
  "isfinite x = (case x of Fin _ \<Rightarrow> True | _ \<Rightarrow> False)"

text \<open>
  Python's two-argument \<open>max\<close> and \<open>min\<close>: the second argument wins only when it is
  strictly larger (smaller), so a NaN in second place is ignored.
\<close>

definition pmax :: "'a::ord \<Rightarrow> 'a \<Rightarrow> 'a" where
  "pmax x y = (if x < y then y else x)"

definition pmin :: "'a::ord \<Rightarrow> 'a \<Rightarrow> 'a" where
  "pmin x y = (if y < x then y else x)"

text \<open>
  Comparison of a Python \<open>int\<close> with a float is exact, and the sum of floats is a left
  fold that starts at zero.
\<close>

definition fsum :: "pyfloat list \<Rightarrow> pyfloat" where
  "fsum xs = foldl (+) (Fin 0) xs"

subsection \<open>Lemmas about finite values\<close>

lemma Fin_less [simp]: "Fin a < Fin b \<longleftrightarrow> a < b"
  by (simp add: less_pyfloat_def)

lemma Fin_le [simp]: "Fin a \<le> Fin b \<longleftrightarrow> a \<le> b"
  by (auto simp: less_eq_pyfloat_def feq_def)

lemma NaN_less [simp]: "\<not> NaN < x" "\<not> x < NaN" "\<not> NaN \<le> x" "\<not> x \<le> NaN"
  by (cases x; simp add: less_eq_pyfloat_def less_pyfloat_def feq_def)+

lemma Inf_less [simp]: "\<not> PInf < x" "\<not> x < NInf" "Fin a < PInf" "NInf < Fin a" "NInf < PInf"
    "Fin a \<le> PInf" "NInf \<le> Fin a" "NInf \<le> PInf" "PInf \<le> PInf" "NInf \<le> NInf"
    "\<not> PInf \<le> Fin a" "\<not> Fin a \<le> NInf" "\<not> PInf \<le> NInf"
  by (cases x; simp add: less_eq_pyfloat_def less_pyfloat_def feq_def)+

lemma fl_cases: "fl x = Fin (rnd x) \<or> fl x = PInf \<or> fl x = NInf"
  by (simp add: fl_def Let_def)

lemma fl_neq_NaN [simp]: "fl x \<noteq> NaN"
  using fl_cases [of x] by auto

lemma fl_Fin: "fl x = Fin r \<Longrightarrow> r = rnd x"
  using fl_cases [of x] by auto

lemma Fin_add: "Fin a + Fin b = fl (a + b)"
  by (simp add: plus_pyfloat_def)

lemma Fin_sub: "Fin a - Fin b = fl (a - b)"
  by (simp add: minus_pyfloat_def)

lemma Fin_mul: "Fin a * Fin b = fl (a * b)"
  by (simp add: times_pyfloat_def)

lemma Fin_uminus: "- Fin a = Fin (- a)"
  by (simp add: uminus_pyfloat_def)

lemmas fin_arith = Fin_add Fin_sub Fin_mul Fin_uminus

lemma isfinite_Fin [simp]: "isfinite (Fin r)"
  by (simp add: isfinite_def)

lemma isfinite_iff: "isfinite x \<longleftrightarrow> (\<exists>r. x = Fin r)"
  by (cases x) (auto simp: isfinite_def)

lemma isfiniteE: "isfinite x \<Longrightarrow> (\<And>r. x = Fin r \<Longrightarrow> P) \<Longrightarrow> P"
  by (auto simp: isfinite_iff)

lemma fl_le_iff: "fl x \<le> fl y" if "x \<le> y"
  using rnd_mono [OF that] by (auto simp: fl_def Let_def)

lemma fl_double: "is_double x \<Longrightarrow> \<bar>x\<bar> < 2 ^ 1024 \<Longrightarrow> fl x = Fin x"
  by (auto simp: fl_def is_double_def abs_less_iff)

lemma fl_of_int_small: "\<bar>i\<bar> \<le> 2 ^ 53 \<Longrightarrow> fl_of_int i = Fin (of_int i)"
proof -
  assume i: "\<bar>i\<bar> \<le> 2 ^ 53"
  then have "\<bar>of_int i :: rat\<bar> \<le> of_int (2 ^ 53)" by (simp only: of_int_abs [symmetric] of_int_le_iff)
  also have "\<dots> < (2::rat) ^ 1024" by simp
  finally show ?thesis unfolding fl_of_int_def
    by (rule fl_double [OF is_double_of_int [OF i]])
qed

lemma fl_nonneg: "0 \<le> x \<Longrightarrow> Fin 0 \<le> fl x"
  using rnd_nonneg [of x] by (auto simp: fl_def Let_def)

lemma fl_ge: "is_double a \<Longrightarrow> a \<le> x \<Longrightarrow> fl x = Fin r \<Longrightarrow> a \<le> r"
  using rnd_ge [of a x] fl_Fin by blast

lemma fl_le: "is_double b \<Longrightarrow> x \<le> b \<Longrightarrow> fl x = Fin r \<Longrightarrow> r \<le> b"
  using rnd_le [of b x] fl_Fin by blast

lemma fl_within:
  assumes "0 \<le> x" "x \<le> of_int k" "k \<le> 2 ^ 53"
  shows "\<exists>r. fl x = Fin r \<and> 0 \<le> r \<and> r \<le> of_int k"
proof -
  have k: "0 \<le> k" using assms(1,2) by (metis of_int_0_le_iff order_trans)
  have "rnd x \<le> of_int k" by (rule rnd_le) (use assms k in \<open>auto intro: is_double_of_int\<close>)
  moreover have "0 \<le> rnd x" using assms(1) by (rule rnd_nonneg)
  moreover have "of_int k < (2::rat) ^ 1024"
  proof -
    have "(of_int k :: rat) \<le> of_int (2 ^ 53)" using assms(3) by (simp only: of_int_le_iff)
    also have "\<dots> < 2 ^ 1024" by simp
    finally show ?thesis .
  qed
  ultimately show ?thesis by (auto simp: fl_def Let_def)
qed

lemmas fl_unit = fl_within [where k = 1, simplified]

lemma is_double_pow2: "is_double (2 ^ k)"
proof -
  have "rnd (of_int 1 * scale2 (int k)) = of_int 1 * scale2 (int k)" by (rule rnd_exact) auto
  then show ?thesis by (simp add: is_double_def scale2_nat)
qed

lemma fl_upto:
  assumes "0 \<le> x" "x \<le> 2 ^ k" "k \<le> 1000"
  shows "\<exists>r. fl x = Fin r \<and> 0 \<le> r \<and> r \<le> 2 ^ k"
proof -
  have "rnd x \<le> 2 ^ k" by (rule rnd_le [OF is_double_pow2 assms(2)])
  moreover have "0 \<le> rnd x" using assms(1) by (rule rnd_nonneg)
  moreover have "(2::rat) ^ k < 2 ^ 1024" using assms(3) by (intro power_strict_increasing) auto
  ultimately show ?thesis by (auto simp: fl_def Let_def)
qed

text \<open>Away from NaN the float order is a linear order.\<close>

lemma pyfloat_linear: "x \<noteq> NaN \<Longrightarrow> y \<noteq> NaN \<Longrightarrow> x \<le> y \<or> y < x" for x y :: pyfloat
  by (cases x; cases y) auto

lemma pyfloat_trans: "x \<le> y \<Longrightarrow> y \<le> z \<Longrightarrow> x \<le> z" for x y z :: pyfloat
  by (cases x; cases y; cases z) auto

lemma pyfloat_less_le: "x < y \<Longrightarrow> x \<le> y" for x y :: pyfloat
  by (simp add: less_eq_pyfloat_def less_pyfloat_def)

lemma pyfloat_not_less: "x \<noteq> NaN \<Longrightarrow> y \<noteq> NaN \<Longrightarrow> \<not> x < y \<longleftrightarrow> y \<le> x" for x y :: pyfloat
  by (cases x; cases y) auto

lemma pyfloat_less_irrefl [simp]: "\<not> x < x" for x :: pyfloat
  by (cases x) auto

lemma pyfloat_refl: "x \<noteq> NaN \<Longrightarrow> x \<le> x" for x :: pyfloat
  by (cases x) auto

lemma key_order_pyfloat: "key_order ((<) :: pyfloat \<Rightarrow> pyfloat \<Rightarrow> bool) (\<lambda>x. x \<noteq> NaN)"
proof unfold_locales
  fix a b c :: pyfloat
  show "\<not> a < a" by simp
  show "a < b \<Longrightarrow> b < c \<Longrightarrow> a < c" by (cases a; cases b; cases c) auto
  assume "a \<noteq> NaN" "b \<noteq> NaN" "c \<noteq> NaN"
  then show "\<not> b < a \<Longrightarrow> \<not> c < b \<Longrightarrow> \<not> c < a" by (cases a; cases b; cases c) auto
qed

lemma feq_iff_not_less: "x \<noteq> NaN \<Longrightarrow> y \<noteq> NaN \<Longrightarrow> feq x y \<longleftrightarrow> \<not> x < y \<and> \<not> y < x"
  by (cases x; cases y) (auto simp: feq_def)

lemma pmin_int [simp]: "pmin a b = min a b" for a b :: int
  by (simp add: pmin_def min_def)

lemma pmax_int [simp]: "pmax a b = max a b" for a b :: int
  by (simp add: pmax_def max_def)

text \<open>\<open>math.floor\<close> and \<open>math.ceil\<close> of a float; NaN and the infinities raise.\<close>

fun py_floor :: "pyfloat \<Rightarrow> int result" where
  "py_floor (Fin r) = Inr \<lfloor>r\<rfloor>"
| "py_floor NaN = Inl (ValueError ''cannot convert float NaN to integer'')"
| "py_floor x = Inl OverflowError"

fun py_ceil :: "pyfloat \<Rightarrow> int result" where
  "py_ceil (Fin r) = Inr \<lceil>r\<rceil>"
| "py_ceil NaN = Inl (ValueError ''cannot convert float NaN to integer'')"
| "py_ceil x = Inl OverflowError"

end
