(* ===== verification/Py_Str.thy ===== *)
theory Py_Str
  imports Py_Float "HOL-Library.Char_ord" "HOL-Library.List_Lexorder"
begin

text \<open>
  Python's \<open>str\<close> operations, regular-expression search and JSON text as the program uses
  them. A string is a list of \<open>char\<close>, each one code point below 256; text outside that
  range is not represented. \<open>lower\<close> and \<open>casefold\<close> map the upper-case letters of that
  range (\<open>casefold\<close> also writes the sharp s as \<open>ss\<close>; the micro sign, whose case
  folding leaves the range, is kept). UTF-8 takes two bytes for a code point from 128 on.
\<close>

section \<open>Characters\<close>

abbreviation code :: "char \<Rightarrow> nat" where
  "code c \<equiv> of_char c"

definition is_space :: "char \<Rightarrow> bool" where
  "is_space c = (let n = code c in
     (9 \<le> n \<and> n \<le> 13) \<or> (28 \<le> n \<and> n \<le> 32) \<or> n = 133 \<or> n = 160)"

definition is_upper :: "char \<Rightarrow> bool" where
  "is_upper c = (let n = code c in
     (65 \<le> n \<and> n \<le> 90) \<or> (192 \<le> n \<and> n \<le> 222 \<and> n \<noteq> 215))"

definition lower_char :: "char \<Rightarrow> char" where
  "lower_char c = (if is_upper c then char_of (code c + 32) else c)"

definition is_digit :: "char \<Rightarrow> bool" where
  "is_digit c = (48 \<le> code c \<and> code c \<le> 57)"

definition is_ascii_letter :: "char \<Rightarrow> bool" where
  "is_ascii_letter c = (let n = code c in (65 \<le> n \<and> n \<le> 90) \<or> (97 \<le> n \<and> n \<le> 122))"

text \<open>The class \<^verbatim>\<open>\w\<close> of a \<open>str\<close> pattern: letters, digits, underscore.\<close>

definition is_word :: "char \<Rightarrow> bool" where
  "is_word c = (let n = code c in is_digit c \<or> is_ascii_letter c \<or> n = 95 \<or> n = 170 \<or> n = 181 \<or>
     n = 178 \<or> n = 179 \<or> n = 185 \<or> n = 186 \<or> n = 188 \<or> n = 189 \<or> n = 190 \<or>
     (192 \<le> n \<and> n \<noteq> 215 \<and> n \<noteq> 247))"

section \<open>String operations\<close>

definition lower :: "string \<Rightarrow> string" where
  "lower s = map lower_char s"

definition casefold :: "string \<Rightarrow> string" where
  "casefold s = concat (map (\<lambda>c. if code c = 223 then ''ss'' else [lower_char c]) s)"

definition lstrip :: "string \<Rightarrow> string" where
  "lstrip s = dropWhile is_space s"

definition rstrip :: "string \<Rightarrow> string" where
  "rstrip s = rev (dropWhile is_space (rev s))"

definition strip :: "string \<Rightarrow> string" where
  "strip s = rstrip (lstrip s)"

fun is_prefix :: "'a list \<Rightarrow> 'a list \<Rightarrow> bool" where
  "is_prefix [] ys = True"
| "is_prefix (x # xs) [] = False"
| "is_prefix (x # xs) (y # ys) = (x = y \<and> is_prefix xs ys)"

definition is_suffix :: "'a list \<Rightarrow> 'a list \<Rightarrow> bool" where
  "is_suffix xs ys = is_prefix (rev xs) (rev ys)"

text \<open>\<open>sub in s\<close>\<close>

fun contains :: "'a list \<Rightarrow> 'a list \<Rightarrow> bool" where
  "contains sub [] = (sub = [])"
| "contains sub (y # ys) = (is_prefix sub (y # ys) \<or> contains sub ys)"

definition replace_char :: "char \<Rightarrow> string \<Rightarrow> string \<Rightarrow> string" where
  "replace_char c new s = concat (map (\<lambda>d. if d = c then new else [d]) s)"

text \<open>\<open>sep.join(parts)\<close>\<close>

fun join :: "string \<Rightarrow> string list \<Rightarrow> string" where
  "join sep [] = []"
| "join sep [x] = x"
| "join sep (x # y # xs) = x @ sep @ join sep (y # xs)"

text \<open>\<open>s.split()\<close>: maximal runs of non-space characters, here and for other classes.\<close>

fun runs :: "(char \<Rightarrow> bool) \<Rightarrow> string \<Rightarrow> string \<Rightarrow> string list" where
  "runs p cur [] = (if cur = [] then [] else [rev cur])"
| "runs p cur (c # cs) =
     (if p c then runs p (c # cur) cs
      else if cur = [] then runs p [] cs else rev cur # runs p [] cs)"

definition split_ws :: "string \<Rightarrow> string list" where
  "split_ws s = runs (\<lambda>c. \<not> is_space c) [] s"

text \<open>\<open>s.split(c)\<close> keeps empty fields.\<close>

fun split_on :: "char \<Rightarrow> string \<Rightarrow> string \<Rightarrow> string list" where
  "split_on c cur [] = [rev cur]"
| "split_on c cur (d # ds) = (if d = c then rev cur # split_on c [] ds else split_on c (d # cur) ds)"

definition split_char :: "char \<Rightarrow> string \<Rightarrow> string list" where
  "split_char c s = split_on c [] s"

definition is_linebreak :: "char \<Rightarrow> bool" where
  "is_linebreak c = (let n = code c in (10 \<le> n \<and> n \<le> 13) \<or> (28 \<le> n \<and> n \<le> 30) \<or> n = 133)"

fun split_lines_from :: "string \<Rightarrow> string \<Rightarrow> string list" where
  "split_lines_from cur [] = (if cur = [] then [] else [rev cur])"
| "split_lines_from cur [c] = (if is_linebreak c then [rev cur] else [rev (c # cur)])"
| "split_lines_from cur (c # d # cs) =
     (if c = CHR 0x0D \<and> d = CHR 0x0A then rev cur # split_lines_from [] cs
      else if is_linebreak c then rev cur # split_lines_from [] (d # cs)
      else split_lines_from (c # cur) (d # cs))"

definition splitlines :: "string \<Rightarrow> string list" where
  "splitlines s = split_lines_from [] s"

definition utf8_len :: "string \<Rightarrow> int" where
  "utf8_len s = sum_list (map (\<lambda>c. if code c < 128 then 1 else 2) s)"

text \<open>\<open>s.encode("utf-8")\<close>, one \<open>char\<close> per byte.\<close>

definition utf8_encode :: "string \<Rightarrow> string" where
  "utf8_encode s = concat (map (\<lambda>c. if code c < 128 then [c]
     else [char_of (192 + code c div 64), char_of (128 + code c mod 64)]) s)"

fun show_nat :: "nat \<Rightarrow> string" where
  "show_nat n = (if n < 10 then [char_of (48 + n)] else show_nat (n div 10) @ [char_of (48 + n mod 10)])"

declare show_nat.simps [simp del]

definition show_int :: "int \<Rightarrow> string" where
  "show_int i = (if i < 0 then CHR ''-'' # show_nat (nat (- i)) else show_nat (nat i))"

definition hex_digit :: "nat \<Rightarrow> char" where
  "hex_digit n = (if n < 10 then char_of (48 + n) else char_of (87 + n))"

text \<open>The truth value of a text or \<open>None\<close>.\<close>

definition present :: "string option \<Rightarrow> bool" where
  "present a = (case a of None \<Rightarrow> False | Some s \<Rightarrow> s \<noteq> [])"

text \<open>Slices \<open>s[:n]\<close> and \<open>s[-n:]\<close> for \<open>n > 0\<close>.\<close>

definition slice_head :: "int \<Rightarrow> 'a list \<Rightarrow> 'a list" where
  "slice_head n s = (if 0 \<le> n then take (nat n) s else take (nat (int (length s) + n)) s)"

definition slice_tail :: "int \<Rightarrow> 'a list \<Rightarrow> 'a list" where
  "slice_tail n s = drop (length s - nat n) s"

section \<open>Regular-expression search\<close>

text \<open>
  Enough of \<^verbatim>\<open>re\<close> for the program's patterns: a single-character class, its closure,
  sequence, alternatives, the line start and the word boundary. \<open>ends r s i\<close> lists the
  positions where a match of \<open>r\<close> that starts at \<open>i\<close> may end, whatever the order in which
  the engine tries them; a search succeeds when some position has one.
\<close>

datatype re =
    Cls "char \<Rightarrow> bool"
  | Many "char \<Rightarrow> bool"
  | Seq re re
  | Alt re re
  | Eps
  | LineStart
  | TextStart
  | WordB

fun lit :: "(char \<Rightarrow> char \<Rightarrow> bool) \<Rightarrow> string \<Rightarrow> re" where
  "lit eq [] = Eps"
| "lit eq (c # cs) = Seq (Cls (eq c)) (lit eq cs)"

definition word_at :: "string \<Rightarrow> nat \<Rightarrow> bool" where
  "word_at s i = (i < length s \<and> is_word (s ! i))"

definition boundary_at :: "string \<Rightarrow> nat \<Rightarrow> bool" where
  "boundary_at s i = ((0 < i \<and> word_at s (i - 1)) \<noteq> word_at s i)"

fun many_ends :: "(char \<Rightarrow> bool) \<Rightarrow> string \<Rightarrow> nat \<Rightarrow> nat list" where
  "many_ends p [] i = [i]"
| "many_ends p (c # cs) i = (if p c then i # many_ends p cs (Suc i) else [i])"

primrec ends :: "re \<Rightarrow> string \<Rightarrow> nat \<Rightarrow> nat list" where
  "ends (Cls p) s i = (if i < length s \<and> p (s ! i) then [Suc i] else [])"
| "ends (Many p) s i = many_ends p (drop i s) i"
| "ends (Seq q r) s i = concat (map (ends r s) (ends q s i))"
| "ends (Alt q r) s i = ends q s i @ ends r s i"
| "ends Eps s i = [i]"
| "ends LineStart s i = (if i = 0 \<or> (i \<le> length s \<and> s ! (i - 1) = CHR 0x0A) then [i] else [])"
| "ends TextStart s i = (if i = 0 then [i] else [])"
| "ends WordB s i = (if boundary_at s i then [i] else [])"

definition re_search :: "re \<Rightarrow> string \<Rightarrow> bool" where
  "re_search r s = list_ex (\<lambda>i. ends r s i \<noteq> []) [0..<Suc (length s)]"

fun alts :: "re list \<Rightarrow> re" where
  "alts [] = Cls (\<lambda>_. False)"
| "alts [r] = r"
| "alts (r # q # rs) = Alt r (alts (q # rs))"

definition same_char :: "char \<Rightarrow> char \<Rightarrow> bool" where
  "same_char a b = (a = b)"

text \<open>\<^verbatim>\<open>(?i)\<close>: characters are compared after lowering.\<close>

definition same_char_i :: "char \<Rightarrow> char \<Rightarrow> bool" where
  "same_char_i a b = (lower_char a = lower_char b)"

section \<open>Lemmas\<close>

lemma length_strip: "length (strip s) \<le> length s"
  by (metis strip_def rstrip_def lstrip_def length_dropWhile_le length_rev order_trans)

lemma rstrip_length: "length (rstrip s) \<le> length s"
  by (metis rstrip_def length_dropWhile_le length_rev)

lemma lstrip_length: "length (lstrip s) \<le> length s"
  by (simp add: lstrip_def length_dropWhile_le)

lemma utf8_len_nonneg: "0 \<le> utf8_len s"
  unfolding utf8_len_def by (rule sum_list_nonneg_int) auto

lemma utf8_len_ge: "int (length s) \<le> utf8_len s"
  by (induction s) (auto simp: utf8_len_def)

lemma utf8_len_append [simp]: "utf8_len (a @ b) = utf8_len a + utf8_len b"
  by (simp add: utf8_len_def)

lemma is_prefix_iff: "is_prefix xs ys \<longleftrightarrow> (\<exists>zs. ys = xs @ zs)"
  by (induction xs ys rule: is_prefix.induct) auto

lemma contains_iff: "contains sub s \<longleftrightarrow> (\<exists>a b. s = a @ sub @ b)"
proof (induction s)
  case (Cons y ys)
  have "(\<exists>a b. y # ys = a @ sub @ b) \<longleftrightarrow> (\<exists>b. y # ys = sub @ b) \<or> (\<exists>a b. ys = a @ sub @ b)"
    by (metis append_Cons append_Nil list.exhaust list.sel(3))
  with Cons show ?case by (auto simp: is_prefix_iff)
qed simp

lemma slice_head_length: "0 \<le> n \<Longrightarrow> int (length (slice_head n s)) \<le> n"
  by (auto simp: slice_head_def)

lemma slice_tail_length: "0 \<le> n \<Longrightarrow> int (length (slice_tail n s)) \<le> n"
  by (simp add: slice_tail_def)

lemma lower_char_space [simp]: "is_space (lower_char c) = is_space c"
proof -
  have "code (lower_char c) = (if is_upper c then code c + 32 else code c)"
  proof (cases "is_upper c")
    case True
    then have "code c + 32 < 256" by (auto simp: is_upper_def Let_def)
    with True show ?thesis by (simp add: lower_char_def)
  qed (simp add: lower_char_def)
  then show ?thesis by (auto simp: is_space_def is_upper_def Let_def split: if_splits)
qed

lemma code_lower_char: "code (lower_char c) = (if is_upper c then code c + 32 else code c)"
proof (cases "is_upper c")
  case True
  then have "code c + 32 < 256" by (auto simp: is_upper_def Let_def)
  with True show ?thesis by (simp add: lower_char_def)
qed (simp add: lower_char_def)

lemma not_upper_lower_char [simp]: "\<not> is_upper (lower_char c)"
  using code_lower_char [of c] by (auto simp: is_upper_def Let_def split: if_splits)

lemma lower_lower [simp]: "lower (lower s) = lower s"
  by (simp add: lower_def lower_char_def [of "lower_char _"])

lemma code_lower_neq_223: "code c \<noteq> 223 \<Longrightarrow> code (lower_char c) \<noteq> 223"
  using code_lower_char [of c] by (auto simp: is_upper_def Let_def split: if_splits)

lemma casefold_Cons: "casefold (c # s) = (if code c = 223 then ''ss'' else [lower_char c]) @ casefold s"
  by (simp add: casefold_def)

lemma casefold_casefold [simp]: "casefold (casefold s) = casefold s"
proof (induction s)
  case (Cons c s)
  have ss: "casefold (''ss'' @ t) = ''ss'' @ casefold t" for t
    by (simp add: casefold_def lower_char_def is_upper_def)
  show ?case
  proof (cases "code c = 223")
    case True
    then show ?thesis using Cons ss by (simp add: casefold_Cons)
  next
    case False
    with Cons code_lower_neq_223 [OF False] show ?thesis
      by (simp add: casefold_Cons lower_char_def [of "lower_char c"])
  qed
qed (simp add: casefold_def)

lemma utf8_len_encode: "utf8_len s = int (length (utf8_encode s))"
  by (induction s) (auto simp: utf8_len_def utf8_encode_def)

end
