(* ===== verification/Py_Json.thy ===== *)
theory Py_Json
  imports Py_Str
begin

text \<open>
  JSON values as Python's \<^verbatim>\<open>json\<close> module sees them, the compact text with sorted
  keys that the program hashes and measures (\<^verbatim>\<open>canonical_json\<close> of
  \<^verbatim>\<open>cache.py\<close>), Python's truth value of such a value and its \<open>str\<close>.
\<close>

section \<open>Values\<close>

datatype json =
    JNull
  | JBool bool
  | JInt int
  | JFloat pyfloat
  | JStr string
  | JArr "json list"
  | JObj "(string \<times> json) list"

fun truthy :: "json \<Rightarrow> bool" where
  "truthy JNull = False"
| "truthy (JBool b) = b"
| "truthy (JInt i) = (i \<noteq> 0)"
| "truthy (JFloat x) = (x \<noteq> Fin 0)"
| "truthy (JStr s) = (s \<noteq> [])"
| "truthy (JArr xs) = (xs \<noteq> [])"
| "truthy (JObj kvs) = (kvs \<noteq> [])"

text \<open>\<open>d.get(key)\<close> with the missing key as \<open>None\<close>.\<close>

fun jget :: "json \<Rightarrow> string \<Rightarrow> json" where
  "jget (JObj kvs) k = (case map_of kvs k of None \<Rightarrow> JNull | Some v \<Rightarrow> v)"
| "jget _ k = JNull"

text \<open>\<open>a or b\<close>\<close>

definition jor :: "json \<Rightarrow> json \<Rightarrow> json" where
  "jor a b = (if truthy a then a else b)"

section \<open>Text of a float\<close>

text \<open>
  \<open>repr\<close> of a float: the shortest decimal that rounds back to it. \<open>dec_exp\<close> is the
  decimal exponent, \<open>short_digits\<close> tries 1 to 17 significant digits.
\<close>

definition scale10 :: "int \<Rightarrow> rat" where
  "scale10 e = (if 0 \<le> e then 10 ^ nat e else inverse (10 ^ nat (- e)))"

definition dec_exp :: "rat \<Rightarrow> int" where
  "dec_exp x = (if 1 \<le> x then int (length (show_nat (nat \<lfloor>x\<rfloor>))) - 1
                else let m = nat (\<lceil>inverse x\<rceil> - 1) in if m = 0 then 0 else - int (length (show_nat m)))"

fun short_digits :: "nat \<Rightarrow> nat \<Rightarrow> rat \<Rightarrow> int \<times> int" where
  "short_digits 0 n x = (let e = dec_exp x - int n + 1 in (round_even (x / scale10 e), e))"
| "short_digits (Suc fuel) n x =
     (let e = dec_exp x - int n + 1; m = round_even (x / scale10 e) in
      if rnd (of_int m * scale10 e) = x then (m, e) else short_digits fuel (Suc n) x)"

definition float_repr_pos :: "rat \<Rightarrow> string" where
  "float_repr_pos x =
     (let (m, e) = short_digits 16 1 x;
          ds0 = show_nat (nat m);
          point = int (length ds0) + e;
          ds = rev (dropWhile (\<lambda>c. c = CHR ''0'') (rev ds0));
          k = int (length ds)
      in if - 4 < point \<and> point \<le> 16 then
           (if point \<le> 0 then ''0.'' @ replicate (nat (- point)) (CHR ''0'') @ ds
            else if k \<le> point then ds @ replicate (nat (point - k)) (CHR ''0'') @ ''.0''
            else take (nat point) ds @ ''.'' @ drop (nat point) ds)
         else
           (let ex = point - 1; ed = show_nat (nat \<bar>ex\<bar>)
            in (if k = 1 then ds else take 1 ds @ ''.'' @ drop 1 ds) @ ''e'' @
               (if ex < 0 then ''-'' else ''+'') @ (if length ed < 2 then ''0'' @ ed else ed)))"

fun float_repr :: "pyfloat \<Rightarrow> string" where
  "float_repr (Fin r) = (if r = 0 then ''0.0'' else if 0 < r then float_repr_pos r
                         else ''-'' @ float_repr_pos (- r))"
| "float_repr PInf = ''inf''"
| "float_repr NInf = ''-inf''"
| "float_repr NaN = ''nan''"

text \<open>The format \<open>{x:.nf}\<close>: the exact value rounded to \<open>n\<close> decimals, ties to even.\<close>

definition fixed_pos :: "nat \<Rightarrow> rat \<Rightarrow> string" where
  "fixed_pos n r = (let m = nat (round_even (r * 10 ^ n)); ds = show_nat (m mod 10 ^ n)
     in show_nat (m div 10 ^ n) @ (if n = 0 then [] else
        ''.'' @ replicate (n - length ds) (CHR ''0'') @ ds))"

fun fixed_repr :: "nat \<Rightarrow> pyfloat \<Rightarrow> string" where
  "fixed_repr n (Fin r) = (if r < 0 then ''-'' @ fixed_pos n (- r) else fixed_pos n r)"
| "fixed_repr n x = float_repr x"

section \<open>Canonical JSON text\<close>

definition json_char :: "char \<Rightarrow> string" where
  "json_char c =
     (if c = CHR 0x22 then [CHR 0x5C, CHR 0x22]
      else if c = CHR 0x5C then [CHR 0x5C, CHR 0x5C]
      else if c = CHR 0x0A then [CHR 0x5C, CHR ''n'']
      else if c = CHR 0x0D then [CHR 0x5C, CHR ''r'']
      else if c = CHR 0x09 then [CHR 0x5C, CHR ''t'']
      else if c = CHR 0x0C then [CHR 0x5C, CHR ''f'']
      else if c = CHR 0x08 then [CHR 0x5C, CHR ''b'']
      else if code c < 32 then [CHR 0x5C, CHR ''u'', CHR ''0'', CHR ''0'',
                                hex_digit (code c div 16), hex_digit (code c mod 16)]
      else [c])"

definition json_string :: "string \<Rightarrow> string" where
  "json_string s = [CHR 0x22] @ concat (map json_char s) @ [CHR 0x22]"

primrec json_text :: "json \<Rightarrow> string" where
  "json_text JNull = ''null''"
| "json_text (JBool b) = (if b then ''true'' else ''false'')"
| "json_text (JInt i) = show_int i"
| "json_text (JFloat x) = float_repr x"
| "json_text (JStr s) = json_string s"
| "json_text (JArr xs) = ''['' @ join '','' (map json_text xs) @ '']''"
| "json_text (JObj kvs) =
     (let parts = map (map_prod id json_text) kvs
      in ''{'' @ join '','' (map (\<lambda>(k, t). json_string k @ '':'' @ t) (sort_by (<) fst parts)) @ ''}'')"

text \<open>\<^verbatim>\<open>allow_nan=False\<close>: a NaN or an infinity anywhere raises.\<close>

primrec json_finite :: "json \<Rightarrow> bool" where
  "json_finite JNull = True"
| "json_finite (JBool b) = True"
| "json_finite (JInt i) = True"
| "json_finite (JFloat x) = isfinite x"
| "json_finite (JStr s) = True"
| "json_finite (JArr xs) = list_all id (map json_finite xs)"
| "json_finite (JObj kvs) = list_all snd (map (map_prod id json_finite) kvs)"

definition canonical_json :: "json \<Rightarrow> string result" where
  "canonical_json v = (if json_finite v then Inr (json_text v)
     else Inl (ValueError ''Out of range float values are not JSON compliant''))"

section \<open>Python's str of a value\<close>

definition quote_for :: "string \<Rightarrow> char" where
  "quote_for s = (if CHR 0x27 \<in> set s \<and> CHR 0x22 \<notin> set s then CHR 0x22 else CHR 0x27)"

definition repr_char :: "char \<Rightarrow> char \<Rightarrow> string" where
  "repr_char q c =
     (if c = q \<or> c = CHR 0x5C then [CHR 0x5C, c]
      else if c = CHR 0x0A then [CHR 0x5C, CHR ''n'']
      else if c = CHR 0x0D then [CHR 0x5C, CHR ''r'']
      else if c = CHR 0x09 then [CHR 0x5C, CHR ''t'']
      else if code c < 32 \<or> (127 \<le> code c \<and> code c \<le> 160) \<or> code c = 173
        then [CHR 0x5C, CHR ''x'', hex_digit (code c div 16), hex_digit (code c mod 16)]
      else [c])"

definition str_repr :: "string \<Rightarrow> string" where
  "str_repr s = (let q = quote_for s in [q] @ concat (map (repr_char q) s) @ [q])"

primrec py_repr :: "json \<Rightarrow> string" where
  "py_repr JNull = ''None''"
| "py_repr (JBool b) = (if b then ''True'' else ''False'')"
| "py_repr (JInt i) = show_int i"
| "py_repr (JFloat x) = float_repr x"
| "py_repr (JStr s) = str_repr s"
| "py_repr (JArr xs) = ''['' @ join '', '' (map py_repr xs) @ '']''"
| "py_repr (JObj kvs) =
     ''{'' @ join '', '' (map (\<lambda>(k, t). str_repr k @ '': '' @ t) (map (map_prod id py_repr) kvs)) @ ''}''"

fun py_str :: "json \<Rightarrow> string" where
  "py_str (JStr s) = s"
| "py_str v = py_repr v"

section \<open>Lemmas\<close>

lemma canonical_json_ok: "json_finite v \<Longrightarrow> canonical_json v = Inr (json_text v)"
  by (simp add: canonical_json_def)

lemma canonical_json_Inr: "canonical_json v = Inr t \<longleftrightarrow> json_finite v \<and> t = json_text v"
  by (auto simp: canonical_json_def)

lemma json_finite_str [simp]: "json_finite (JStr s)"
  by simp

end
