(* ===== verification/Models.thy ===== *)
theory Models
  imports Py_Json
begin

text \<open>
  The typed contracts of \<^verbatim>\<open>src/promptrail/models.py\<close>: one record per data model,
  with the field names of the source behind a short prefix, and one \<open>validate_\<dots>\<close>
  function per model that has validators. A validator takes the values as typed by the
  data-model library, checks and normalises each field as the source's validator does, and
  collects the messages of all failing fields before the whole-model check runs. The
  lemmas show what a validated value satisfies and that validation is idempotent.
\<close>

section \<open>Validation\<close>

fun messages_of :: "'a result \<Rightarrow> string list" where
  "messages_of (Inr x) = []"
| "messages_of (Inl (ValueError m)) = [m]"
| "messages_of (Inl e) = ['''']"

definition value_of :: "'a result \<Rightarrow> 'a \<Rightarrow> 'a" where
  "value_of m d = (case m of Inl e \<Rightarrow> d | Inr x \<Rightarrow> x)"

definition checked :: "string list list \<Rightarrow> 'a \<Rightarrow> 'a result" where
  "checked ess x = (case concat ess of [] \<Rightarrow> Inr x | es \<Rightarrow> Inl (ValidationError es))"

lemma messages_of_Nil [simp]: "messages_of m = [] \<longleftrightarrow> (\<exists>x. m = Inr x)"
proof (cases m)
  case (Inl e)
  then show ?thesis by (cases e) auto
qed auto

lemma value_of_Inr [simp]: "value_of (Inr x) d = x"
  by (simp add: value_of_def)

lemma checked_Inr [simp]: "checked ess x = Inr y \<longleftrightarrow> (\<forall>es\<in>set ess. es = []) \<and> x = y"
  by (cases "concat ess") (auto simp: checked_def simp flip: concat_eq_Nil_conv)

definition finite_min :: "pyfloat \<Rightarrow> string \<Rightarrow> pyfloat \<Rightarrow> pyfloat result" where
  "finite_min value name minimum =
     (if \<not> isfinite value \<or> value < minimum
      then Inl (ValueError (name @ '' must be finite and >= '' @ float_repr minimum))
      else Inr value)"

definition non_blank :: "string \<Rightarrow> string \<Rightarrow> string result" where
  "non_blank msg value = (if strip value = [] then Inl (ValueError msg) else Inr (strip value))"

definition positive_int :: "string \<Rightarrow> int \<Rightarrow> int result" where
  "positive_int msg value = (if value \<le> 0 then Inl (ValueError msg) else Inr value)"

definition nonnegative_int :: "string \<Rightarrow> int \<Rightarrow> int result" where
  "nonnegative_int msg value = (if value < 0 then Inl (ValueError msg) else Inr value)"

definition optional :: "('a \<Rightarrow> 'a result) \<Rightarrow> 'a option \<Rightarrow> 'a option result" where
  "optional f value = (case value of None \<Rightarrow> Inr None | Some x \<Rightarrow> rbind (f x) (\<lambda>y. Inr (Some y)))"

definition bounded_text :: "string \<Rightarrow> int \<Rightarrow> string \<Rightarrow> string \<Rightarrow> string result" where
  "bounded_text empty_msg n long_msg value =
     (let normalized = strip value in
      if normalized = [] then Inl (ValueError empty_msg)
      else if n < int (length normalized) then Inl (ValueError long_msg) else Inr normalized)"

definition unit_fraction :: "string \<Rightarrow> string \<Rightarrow> pyfloat \<Rightarrow> pyfloat result" where
  "unit_fraction name msg value = rbind (finite_min value name (Fin 0)) (\<lambda>number.
     if Fin 1 < number then Inl (ValueError msg) else Inr number)"

text \<open>The constraint \<^verbatim>\<open>Field(ge=lo, le=hi)\<close>.\<close>

definition in_range :: "pyfloat \<Rightarrow> pyfloat \<Rightarrow> pyfloat \<Rightarrow> pyfloat result" where
  "in_range lo hi x = (if \<not> lo \<le> x then Inl (ValueError ''Input should be greater than or equal to the lower bound'')
     else if \<not> x \<le> hi then Inl (ValueError ''Input should be less than or equal to the upper bound'') else Inr x)"

lemmas field_validators = finite_min_def non_blank_def positive_int_def nonnegative_int_def
  bounded_text_def unit_fraction_def in_range_def

text \<open>A validator only normalises once: it accepts its own output and returns it.\<close>

definition idempotent :: "('a \<Rightarrow> 'a result) \<Rightarrow> bool" where
  "idempotent f \<longleftrightarrow> (\<forall>x y. f x = Inr y \<longrightarrow> f y = Inr y)"

lemma dropWhile_rev_dropWhile:
  "dropWhile p (rev (dropWhile p (rev (dropWhile p s)))) = rev (dropWhile p (rev (dropWhile p s)))"
proof (induction s)
  case (Cons c s)
  show ?case
  proof (cases "p c")
    case False
    let ?t = "rev (dropWhile p (rev (c # s)))"
    have "\<exists>u. ?t = c # u"
    proof -
      have "dropWhile p (rev s @ [c]) = dropWhile p (rev s) @ [c]"
        using False by (induction "rev s" rule: rev_induct; simp add: dropWhile_append)
      then show ?thesis by simp
    qed
    with False show ?thesis by auto
  qed (use Cons in simp)
qed simp

lemma strip_strip [simp]: "strip (strip s) = strip s"
proof -
  let ?t = "dropWhile is_space s"
  have "lstrip (rstrip (lstrip s)) = rstrip (lstrip s)"
    by (simp add: lstrip_def rstrip_def dropWhile_rev_dropWhile)
  then show ?thesis by (simp add: strip_def rstrip_def)
qed

lemma idem_non_blank: "idempotent (non_blank msg)"
  by (auto simp: idempotent_def non_blank_def split: if_splits)

lemma idem_finite_min: "idempotent (\<lambda>x. finite_min x name lo)"
  by (auto simp: idempotent_def finite_min_def split: if_splits)

lemma idem_positive_int: "idempotent (positive_int msg)"
  by (auto simp: idempotent_def positive_int_def split: if_splits)

lemma idem_nonnegative_int: "idempotent (nonnegative_int msg)"
  by (auto simp: idempotent_def nonnegative_int_def split: if_splits)

lemma idem_unit_fraction: "idempotent (unit_fraction name msg)"
  by (auto simp: idempotent_def unit_fraction_def finite_min_def split: if_splits)

lemma idem_bounded_text: "idempotent (bounded_text m1 n m2)"
  by (auto simp: idempotent_def bounded_text_def Let_def split: if_splits)

lemma idem_in_range: "idempotent (in_range lo hi)"
  by (auto simp: idempotent_def in_range_def split: if_splits)

lemma idem_optional: "idempotent f \<Longrightarrow> idempotent (optional f)"
  by (auto simp: idempotent_def optional_def split: option.splits)

lemmas idem_intros = idem_non_blank idem_finite_min idem_positive_int idem_nonnegative_int
  idem_unit_fraction idem_bounded_text idem_in_range idem_optional


section \<open>Policy\<close>

record task_rule =
  tr_name :: string
  tr_match_terms :: "string list"
  tr_cost_weight :: pyfloat
  tr_latency_weight :: pyfloat
  tr_minimum_quality :: "pyfloat option"

text \<open>\<open>dict.fromkeys\<close> keeps the first of equal keys.\<close>

definition unique_first :: "'a list \<Rightarrow> 'a list" where
  "unique_first xs = rev (remdups (rev xs))"

definition normalize_terms :: "string list \<Rightarrow> string list" where
  "normalize_terms value =
     unique_first (map (\<lambda>term. casefold (strip term)) (filter (\<lambda>term. strip term \<noteq> []) value))"

definition validate_task_rule :: "task_rule \<Rightarrow> task_rule result" where
  "validate_task_rule r =
     (let name = non_blank ''task rule name cannot be empty'' (tr_name r);
          cost = finite_min (tr_cost_weight r) ''task weight'' (fl (5 / 100));
          latency = finite_min (tr_latency_weight r) ''task weight'' (fl (5 / 100));
          quality = optional (unit_fraction ''minimum_quality'' ''minimum_quality must be <= 1'')
                      (tr_minimum_quality r)
      in checked [messages_of name, messages_of cost, messages_of latency, messages_of quality]
           (r\<lparr>tr_name := value_of name [], tr_match_terms := normalize_terms (tr_match_terms r)\<rparr>))"

record operating_policy =
  pol_analytics_insight :: string
  pol_hard_agent_cost_limit_usd :: "pyfloat option"
  pol_hard_agent_latency_limit_ms :: "int option"
  pol_hard_call_cost_limit_usd :: "pyfloat option"
  pol_hard_call_latency_limit_ms :: "int option"
  pol_cost_priority :: pyfloat
  pol_latency_priority :: pyfloat
  pol_quality_priority :: pyfloat
  pol_cache_priority :: pyfloat
  pol_minimum_quality :: pyfloat
  pol_provider_exploration_fraction :: pyfloat
  pol_maximum_provider_exploration_ms :: int
  pol_controller_reserve_ms :: int
  pol_compaction_reserve_ms :: int
  pol_latency_safety_margin_ms :: int
  pol_task_rules :: "task_rule list"
  pol_source_digest :: "string option"

definition validate_optional_cost :: "pyfloat option \<Rightarrow> pyfloat option result" where
  "validate_optional_cost =
     optional (\<lambda>v. finite_min v ''hard cost limit'' (fl (1 / 1000000)))"

definition validate_optional_latency :: "int option \<Rightarrow> int option result" where
  "validate_optional_latency =
     optional (positive_int ''hard latency limits must be positive integers'')"

definition policy_ms :: "int \<Rightarrow> int result" where
  "policy_ms = nonnegative_int ''latency allocation values must be non-negative integers''"

definition policy_fraction :: "pyfloat \<Rightarrow> pyfloat result" where
  "policy_fraction = unit_fraction ''policy fraction'' ''policy fractions must be <= 1''"

definition policy_priority :: "pyfloat \<Rightarrow> pyfloat result" where
  "policy_priority v = finite_min v ''policy priority'' (Fin 0)"

definition policy_insight :: "string \<Rightarrow> string result" where
  "policy_insight = bounded_text ''analytics insight cannot be empty'' 8000
     ''analytics insight exceeds 8,000 characters''"

definition validate_operating_policy :: "operating_policy \<Rightarrow> operating_policy result" where
  "validate_operating_policy p =
     (let insight = policy_insight (pol_analytics_insight p);
          rules = map validate_task_rule (pol_task_rules p)
      in checked
           [messages_of insight,
            messages_of (validate_optional_cost (pol_hard_agent_cost_limit_usd p)),
            messages_of (validate_optional_latency (pol_hard_agent_latency_limit_ms p)),
            messages_of (validate_optional_cost (pol_hard_call_cost_limit_usd p)),
            messages_of (validate_optional_latency (pol_hard_call_latency_limit_ms p)),
            messages_of (policy_priority (pol_cost_priority p)),
            messages_of (policy_priority (pol_latency_priority p)),
            messages_of (policy_priority (pol_quality_priority p)),
            messages_of (policy_priority (pol_cache_priority p)),
            messages_of (policy_fraction (pol_minimum_quality p)),
            messages_of (policy_fraction (pol_provider_exploration_fraction p)),
            messages_of (policy_ms (pol_maximum_provider_exploration_ms p)),
            messages_of (policy_ms (pol_controller_reserve_ms p)),
            messages_of (policy_ms (pol_compaction_reserve_ms p)),
            messages_of (policy_ms (pol_latency_safety_margin_ms p)),
            concat (map messages_of rules)]
           (p\<lparr>pol_analytics_insight := value_of insight [],
              pol_task_rules := map (\<lambda>r. value_of (validate_task_rule r) r) (pol_task_rules p)\<rparr>))"

section \<open>Candidates and calls\<close>

record provider_route =
  rt_route_id :: string
  rt_provider :: string
  rt_native_model_id :: string
  rt_input_price_per_million :: pyfloat
  rt_output_price_per_million :: pyfloat
  rt_cache_read_price_per_million :: "pyfloat option"
  rt_cache_write_price_per_million :: "pyfloat option"
  rt_p95_ttft_ms :: int
  rt_p95_total_latency_ms :: int
  rt_guaranteed :: bool
  rt_cache_supported :: bool
  rt_cache_automatic :: bool
  rt_cache_ttl_seconds :: int
  rt_capabilities :: "string set"

definition route_identifier :: "string \<Rightarrow> string result" where
  "route_identifier = non_blank ''route identifiers cannot be empty''"

definition route_price :: "pyfloat \<Rightarrow> pyfloat result" where
  "route_price v = finite_min v ''provider price'' (Fin 0)"

definition route_duration :: "int \<Rightarrow> int result" where
  "route_duration = positive_int ''route durations must be positive integers''"

definition validate_latency_order :: "provider_route \<Rightarrow> provider_route result" where
  "validate_latency_order r =
     (if rt_p95_total_latency_ms r < rt_p95_ttft_ms r
      then Inl (ValidationError [''p95_total_latency_ms cannot be smaller than p95_ttft_ms''])
      else Inr r)"

definition validate_provider_route :: "provider_route \<Rightarrow> provider_route result" where
  "validate_provider_route r =
     (let rid = route_identifier (rt_route_id r);
          prov = route_identifier (rt_provider r);
          native = route_identifier (rt_native_model_id r)
      in rbind (checked
           [messages_of rid, messages_of prov, messages_of native,
            messages_of (route_price (rt_input_price_per_million r)),
            messages_of (route_price (rt_output_price_per_million r)),
            messages_of (optional route_price (rt_cache_read_price_per_million r)),
            messages_of (optional route_price (rt_cache_write_price_per_million r)),
            messages_of (route_duration (rt_p95_ttft_ms r)),
            messages_of (route_duration (rt_p95_total_latency_ms r)),
            messages_of (route_duration (rt_cache_ttl_seconds r))]
           (r\<lparr>rt_route_id := value_of rid [], rt_provider := value_of prov [],
              rt_native_model_id := value_of native []\<rparr>))
         validate_latency_order)"

record model_candidate =
  mc_model_id :: string
  mc_quality :: pyfloat
  mc_context_window_tokens :: int
  mc_strengths :: "string set"
  mc_capabilities :: "string set"
  mc_router_score :: "pyfloat option"
  mc_router_payload :: json
  mc_routes :: "provider_route list"

definition validate_score :: "pyfloat \<Rightarrow> pyfloat result" where
  "validate_score = unit_fraction ''model score'' ''model scores must be <= 1''"

definition validate_routes :: "model_candidate \<Rightarrow> model_candidate result" where
  "validate_routes c =
     (if mc_routes c = []
      then Inl (ValidationError [''a model candidate requires at least one provider route''])
      else if card (set (map rt_route_id (mc_routes c))) \<noteq> length (mc_routes c)
      then Inl (ValidationError [''provider route IDs must be unique within a model''])
      else Inr c)"

definition validate_model_candidate :: "model_candidate \<Rightarrow> model_candidate result" where
  "validate_model_candidate c =
     (let mid = non_blank ''model_id cannot be empty'' (mc_model_id c);
          routes = map validate_provider_route (mc_routes c)
      in rbind (checked
           [messages_of mid, messages_of (validate_score (mc_quality c)),
            messages_of (positive_int ''context_window_tokens must be positive''
                           (mc_context_window_tokens c)),
            messages_of (optional validate_score (mc_router_score c)),
            concat (map messages_of routes)]
           (c\<lparr>mc_model_id := value_of mid [],
              mc_routes := map (\<lambda>r. value_of (validate_provider_route r) r) (mc_routes c)\<rparr>))
         validate_routes)"

record call_intent =
  ci_session_id :: string
  ci_task :: string
  ci_messages :: "json list"
  ci_tools :: "json list"
  ci_required_capabilities :: "string set"
  ci_predicted_output_tokens :: "int option"
  ci_max_output_tokens :: "int option"
  ci_priority :: pyfloat

definition validate_call_intent :: "call_intent \<Rightarrow> call_intent result" where
  "validate_call_intent c =
     (let sid = non_blank ''session_id and task cannot be empty'' (ci_session_id c);
          task = non_blank ''session_id and task cannot be empty'' (ci_task c)
      in checked
           [messages_of sid, messages_of task,
            messages_of (optional (positive_int ''output token values must be positive'')
                           (ci_predicted_output_tokens c)),
            messages_of (optional (positive_int ''output token values must be positive'')
                           (ci_max_output_tokens c)),
            messages_of (finite_min (ci_priority c) ''call priority'' (fl (5 / 100)))]
           (c\<lparr>ci_session_id := value_of sid [], ci_task := value_of task []\<rparr>))"

section \<open>Context blocks and Gemma's decision\<close>

datatype block_type = Protocol | UserBlock | AssistantBlock | ToolBlock | TestBlock | PatchBlock | Generic

fun block_type_name :: "block_type \<Rightarrow> string" where
  "block_type_name Protocol = ''protocol''"
| "block_type_name UserBlock = ''user''"
| "block_type_name AssistantBlock = ''assistant''"
| "block_type_name ToolBlock = ''tool''"
| "block_type_name TestBlock = ''test''"
| "block_type_name PatchBlock = ''patch''"
| "block_type_name Generic = ''generic''"

record context_block =
  cb_block_id :: string
  cb_message_indices :: "nat list"
  cb_block_type :: block_type
  cb_tokens :: int
  cb_age :: int
  cb_cached :: bool
  cb_task_overlap :: pyfloat
  cb_redundancy :: pyfloat
  cb_cache_invalidation_cost :: pyfloat
  cb_importance :: pyfloat
  cb_structurally_immutable :: bool

definition at_least_zero :: "pyfloat \<Rightarrow> pyfloat result" where
  "at_least_zero x = (if \<not> Fin 0 \<le> x then Inl (ValueError ''Input should be greater than or equal to 0'')
     else Inr x)"

definition validate_context_block :: "context_block \<Rightarrow> context_block result" where
  "validate_context_block b = checked
     [messages_of (in_range (Fin 0) (Fin 1) (cb_task_overlap b)),
      messages_of (in_range (Fin 0) (Fin 1) (cb_redundancy b)),
      messages_of (at_least_zero (cb_cache_invalidation_cost b)),
      messages_of (in_range (Fin 0) (Fin 1) (cb_importance b))] b"

record importance_override =
  io_block_id :: string
  io_importance :: pyfloat

definition validate_importance_override :: "importance_override \<Rightarrow> importance_override result" where
  "validate_importance_override v = checked
     [messages_of (in_range (Fin 0) (Fin 1) (io_importance v))] v"

record output_length_prediction =
  olp_predicted_tokens :: int
  olp_raw_predicted_tokens :: pyfloat
  olp_latency_ms :: int
  olp_model_id :: string

definition validate_output_length_prediction ::
    "output_length_prediction \<Rightarrow> output_length_prediction result" where
  "validate_output_length_prediction p = checked
     [messages_of (positive_int ''predicted_tokens must be a positive integer'' (olp_predicted_tokens p)),
      messages_of (finite_min (olp_raw_predicted_tokens p) ''raw_predicted_tokens'' (fl (1 / 1000000))),
      messages_of (nonnegative_int ''prediction latency must be a non-negative integer'' (olp_latency_ms p))] p"

record budget_allocation_decision =
  dec_cost_usd :: pyfloat
  dec_latency_ms :: int
  dec_input_cost_fraction :: pyfloat
  dec_required_context_tokens :: int
  dec_importance_overrides :: "importance_override list"
  dec_reason :: string

definition decision_overrides :: "importance_override list \<Rightarrow> importance_override list result" where
  "decision_overrides value =
     (if 12 < length value
      then Inl (ValueError ''Gemma may override at most 12 ambiguous context blocks'')
      else if card (set (map io_block_id value)) \<noteq> length value
      then Inl (ValueError ''importance override block IDs must be unique'')
      else Inr value)"

definition decision_input_fraction :: "pyfloat \<Rightarrow> pyfloat result" where
  "decision_input_fraction value =
     rbind (finite_min value ''input_cost_fraction'' (fl (1 / 1000000))) (\<lambda>number.
       if Fin 1 \<le> number then Inl (ValueError ''input_cost_fraction must be < 1'') else Inr number)"

definition validate_budget_allocation_decision ::
    "budget_allocation_decision \<Rightarrow> budget_allocation_decision result" where
  "validate_budget_allocation_decision d =
     (let reason = bounded_text ''budget allocation reason cannot be empty'' 1000
                     ''budget allocation reason exceeds 1,000 characters'' (dec_reason d)
      in checked
           [messages_of (finite_min (dec_cost_usd d) ''allocated call cost'' (fl (1 / 1000000))),
            messages_of (positive_int ''allocated call latency must be a positive integer''
                           (dec_latency_ms d)),
            messages_of (decision_input_fraction (dec_input_cost_fraction d)),
            messages_of (positive_int ''required_context_tokens must be positive''
                           (dec_required_context_tokens d)),
            concat (map (\<lambda>v. messages_of (validate_importance_override v)) (dec_importance_overrides d)),
            messages_of (decision_overrides (dec_importance_overrides d)),
            messages_of reason]
           (d\<lparr>dec_reason := value_of reason []\<rparr>))"

record call_budget =
  bud_run_id :: string
  bud_call_id :: string
  bud_sequence :: int
  bud_cost_usd :: pyfloat
  bud_input_cost_usd :: pyfloat
  bud_output_cost_usd :: pyfloat
  bud_latency_ms :: int
  bud_allocator_model_id :: string
  bud_allocator_reason :: string
  bud_required_context_tokens :: int
  bud_importance_overrides :: "importance_override list"
  bud_created_at :: int

section \<open>Cache analysis\<close>

record cache_value =
  cv_model_id :: string
  cv_provider :: "string option"
  cv_exact_reuse :: bool
  cv_cached_tokens :: int
  cv_input_cost_usd :: pyfloat
  cv_retained_value_usd :: pyfloat
  cv_switch_cost_usd :: pyfloat

record cache_analysis =
  ca_total_tokens :: int
  ca_tool_tokens :: int
  ca_message_tokens :: "int list"
  ca_prefix_hash :: "string option"
  ca_cacheable_message_indices :: "nat list"
  ca_protected_message_indices :: "nat list"
  ca_compactable_message_indices :: "nat list"
  ca_cacheable_tokens :: int
  ca_protected_dynamic_tokens :: int
  ca_compactable_tokens :: int
  ca_last_model_id :: "string option"
  ca_last_provider :: "string option"
  ca_values :: "(string, cache_value) dict"
  ca_context_blocks :: "context_block list"

section \<open>The allocation request\<close>

record budget_candidate_option =
  bo_model_id :: string
  bo_quality :: pyfloat
  bo_context_fits :: bool
  bo_required_capabilities_supported :: bool
  bo_cheapest_predicted_cost_usd :: pyfloat
  bo_cheapest_input_cost_fraction :: pyfloat
  bo_fastest_predicted_latency_ms :: int
  bo_exact_cache_reuse :: bool
  bo_cached_tokens :: int

record budget_allocation_request =
  req_run_id :: string
  req_session_id :: string
  req_call_id :: string
  req_sequence :: int
  req_analytics_insight :: string
  req_source_digest :: "string option"
  req_task_rules :: "task_rule list"
  req_cost_priority :: pyfloat
  req_latency_priority :: pyfloat
  req_quality_priority :: pyfloat
  req_cache_priority :: pyfloat
  req_task :: string
  req_input_tokens :: int
  req_predicted_output_tokens :: int
  req_priority :: pyfloat
  req_required_capabilities :: "string list"
  req_completed_calls :: int
  req_tool_calls :: int
  req_elapsed_agent_ms :: int
  req_spent_cost_usd :: pyfloat
  req_spent_latency_ms :: int
  req_reserved_cost_usd :: pyfloat
  req_reserved_latency_ms :: int
  req_hard_agent_cost_limit_usd :: "pyfloat option"
  req_hard_agent_latency_limit_ms :: "int option"
  req_hard_call_cost_limit_usd :: "pyfloat option"
  req_hard_call_latency_limit_ms :: "int option"
  req_remaining_hard_cost_usd :: "pyfloat option"
  req_remaining_hard_latency_ms :: "int option"
  req_cacheable_tokens :: int
  req_compactable_tokens :: int
  req_last_model_id :: "string option"
  req_last_provider :: "string option"
  req_cache_input_cost_usd_by_model :: "(string, pyfloat) dict"
  req_exact_cache_models :: "string list"
  req_candidate_options :: "budget_candidate_option list"
  req_context_blocks :: "context_block list"

section \<open>Routing, compaction, prepared calls, usage\<close>

record model_decision =
  md_candidate :: model_candidate
  md_route :: provider_route
  md_score :: pyfloat
  md_base_router_score :: pyfloat
  md_predicted_cost_usd :: pyfloat
  md_predicted_input_cost_usd :: pyfloat
  md_predicted_output_tokens :: int
  md_predicted_latency_ms :: int
  md_cache_value :: cache_value
  md_reasons :: "string list"

datatype provider_routing_mode = STICKY | DEADLINE | DIRECT

record provider_routing_plan =
  pp_mode :: provider_routing_mode
  pp_model_id :: string
  pp_routes :: "provider_route list"
  pp_start_within_ms :: int
  pp_total_timeout_ms :: int
  pp_latency_budget_ms :: int
  pp_reason :: string

record compaction_plan =
  cp_input_budget_usd :: pyfloat
  cp_estimated_input_cost_usd :: pyfloat
  cp_target_tokens :: int
  cp_required_reduction_tokens :: int
  cp_compactable_message_indices :: "nat list"
  cp_importance_by_message_index :: "(nat, pyfloat) dict"

record compaction_record =
  cr_message_index :: nat
  cr_original_hash :: string
  cr_tokens_before :: int
  cr_tokens_after :: int
  cr_block_type :: block_type
  cr_importance :: pyfloat

record compaction_result =
  cres_messages :: "json list"
  cres_tokens_before :: int
  cres_tokens_after :: int
  cres_target_tokens :: int
  cres_target_met :: bool
  cres_records :: "compaction_record list"

record prepared_call =
  pc_intent :: call_intent
  pc_budget :: call_budget
  pc_cache :: cache_analysis
  pc_model :: model_decision
  pc_provider :: provider_routing_plan
  pc_compaction :: compaction_result
  pc_model_alternatives :: "model_decision list"
  pc_preparation_latency_ms :: int
  pc_predicted_output_tokens :: int
  pc_output_prediction_ms :: int
  pc_context_analysis_ms :: int
  pc_gemma_allocation_ms :: int
  pc_semantic_ranking_ms :: int
  pc_candidate_feasibility_ms :: int
  pc_compaction_ms :: int
  pc_provider_planning_ms :: int
  pc_control_plane_total_ms :: int

record model_usage =
  mu_input_tokens :: int
  mu_output_tokens :: int
  mu_latency_ms :: int
  mu_provider :: string
  mu_model_id :: string
  mu_cache_read_tokens :: int
  mu_cache_write_tokens :: int
  mu_cost_usd :: "pyfloat option"

definition usage_count :: "int \<Rightarrow> int result" where
  "usage_count = nonnegative_int ''usage counts must be non-negative integers''"

definition validate_model_usage :: "model_usage \<Rightarrow> model_usage result" where
  "validate_model_usage u = checked
     [messages_of (usage_count (mu_input_tokens u)), messages_of (usage_count (mu_output_tokens u)),
      messages_of (usage_count (mu_latency_ms u)), messages_of (usage_count (mu_cache_read_tokens u)),
      messages_of (usage_count (mu_cache_write_tokens u))] u"

datatype run_status = ACTIVE | COMPLETED | FAILED

fun run_status_value :: "run_status \<Rightarrow> string" where
  "run_status_value ACTIVE = ''active''"
| "run_status_value COMPLETED = ''completed''"
| "run_status_value FAILED = ''failed''"

record run_snapshot =
  rs_run_id :: string
  rs_session_id :: string
  rs_status :: run_status
  rs_completed_calls :: int
  rs_spent_cost_usd :: pyfloat
  rs_spent_model_latency_ms :: int
  rs_reserved_cost_usd :: pyfloat
  rs_reserved_latency_ms :: int
  rs_tool_calls :: int
  rs_started_at :: int
  rs_finished_at :: "int option"

section \<open>What a validated value satisfies\<close>

definition nonneg :: "pyfloat \<Rightarrow> bool" where
  "nonneg x = (case x of Fin r \<Rightarrow> 0 \<le> r | _ \<Rightarrow> False)"

definition unit_interval :: "pyfloat \<Rightarrow> bool" where
  "unit_interval x = (case x of Fin r \<Rightarrow> 0 \<le> r \<and> r \<le> 1 | _ \<Rightarrow> False)"

definition route_wf :: "provider_route \<Rightarrow> bool" where
  "route_wf r \<longleftrightarrow> strip (rt_route_id r) \<noteq> [] \<and> strip (rt_provider r) \<noteq> [] \<and>
     nonneg (rt_input_price_per_million r) \<and> nonneg (rt_output_price_per_million r) \<and>
     (case rt_cache_read_price_per_million r of None \<Rightarrow> True | Some x \<Rightarrow> nonneg x) \<and>
     (case rt_cache_write_price_per_million r of None \<Rightarrow> True | Some x \<Rightarrow> nonneg x) \<and>
     0 < rt_p95_ttft_ms r \<and> rt_p95_ttft_ms r \<le> rt_p95_total_latency_ms r \<and>
     0 < rt_cache_ttl_seconds r"

definition candidate_wf :: "model_candidate \<Rightarrow> bool" where
  "candidate_wf c \<longleftrightarrow> strip (mc_model_id c) \<noteq> [] \<and> unit_interval (mc_quality c) \<and>
     0 < mc_context_window_tokens c \<and> mc_routes c \<noteq> [] \<and>
     distinct (map rt_route_id (mc_routes c)) \<and> list_all route_wf (mc_routes c)"

definition policy_wf :: "operating_policy \<Rightarrow> bool" where
  "policy_wf p \<longleftrightarrow>
     strip (pol_analytics_insight p) = pol_analytics_insight p \<and> pol_analytics_insight p \<noteq> [] \<and>
     int (length (pol_analytics_insight p)) \<le> 8000 \<and>
     unit_interval (pol_minimum_quality p) \<and> unit_interval (pol_provider_exploration_fraction p) \<and>
     nonneg (pol_cost_priority p) \<and> nonneg (pol_latency_priority p) \<and>
     nonneg (pol_quality_priority p) \<and> nonneg (pol_cache_priority p) \<and>
     0 \<le> pol_maximum_provider_exploration_ms p \<and> 0 \<le> pol_controller_reserve_ms p \<and>
     0 \<le> pol_compaction_reserve_ms p \<and> 0 \<le> pol_latency_safety_margin_ms p \<and>
     (case pol_hard_call_latency_limit_ms p of None \<Rightarrow> True | Some n \<Rightarrow> 0 < n) \<and>
     (case pol_hard_agent_latency_limit_ms p of None \<Rightarrow> True | Some n \<Rightarrow> 0 < n) \<and>
     (case pol_hard_call_cost_limit_usd p of None \<Rightarrow> True | Some x \<Rightarrow> nonneg x) \<and>
     (case pol_hard_agent_cost_limit_usd p of None \<Rightarrow> True | Some x \<Rightarrow> nonneg x)"

lemma nonneg_Fin [simp]: "nonneg (Fin r) \<longleftrightarrow> 0 \<le> r"
  by (simp add: nonneg_def)

lemma nonnegE: "nonneg x \<Longrightarrow> (\<And>r. x = Fin r \<Longrightarrow> 0 \<le> r \<Longrightarrow> P) \<Longrightarrow> P"
  by (cases x) (auto simp: nonneg_def)

lemma unit_intervalE: "unit_interval x \<Longrightarrow> (\<And>r. x = Fin r \<Longrightarrow> 0 \<le> r \<Longrightarrow> r \<le> 1 \<Longrightarrow> P) \<Longrightarrow> P"
  by (cases x) (auto simp: unit_interval_def)

lemma finite_min_nonneg [validator_simps]: "finite_min x name (Fin 0) = Inr y \<longleftrightarrow> nonneg x \<and> x = y"
  by (cases x) (auto simp: finite_min_def nonneg_def isfinite_def)

lemma fl_small_nonneg: "fl (1 / 1000000) = Fin (rnd (1 / 1000000))"
proof -
  have "rnd (1 / 1000000) \<le> 1" by (rule rnd_le) (use is_double_of_int [of 1] in auto)
  moreover have "0 \<le> rnd (1 / 1000000)" by (rule rnd_nonneg) simp
  ultimately show ?thesis by (simp add: fl_def Let_def)
qed

lemma finite_min_micro [validator_simps]: "finite_min x name (fl (1 / 1000000)) = Inr y \<Longrightarrow> nonneg y \<and> x = y"
proof -
  have "0 \<le> rnd (1 / 1000000)" by (rule rnd_nonneg) simp
  then show "finite_min x name (fl (1 / 1000000)) = Inr y \<Longrightarrow> nonneg y \<and> x = y"
    by (cases x) (auto simp: finite_min_def nonneg_def isfinite_def fl_small_nonneg split: if_splits)
qed

lemma unit_fraction_unit [validator_simps]:
  "unit_fraction name msg x = Inr y \<longleftrightarrow> unit_interval x \<and> x = y"
  by (cases x) (auto simp: unit_fraction_def finite_min_nonneg unit_interval_def nonneg_def
      split: if_splits)

lemma optional_Inr [validator_simps]:
  "optional f v = Inr w \<longleftrightarrow> (case v of None \<Rightarrow> w = None | Some x \<Rightarrow> \<exists>y. f x = Inr y \<and> w = Some y)"
  by (auto simp: optional_def split: option.splits)

lemma positive_int_Inr [validator_simps]: "positive_int msg n = Inr m \<longleftrightarrow> 0 < n \<and> n = m"
  by (auto simp: positive_int_def)

lemma nonnegative_int_Inr [validator_simps]: "nonnegative_int msg n = Inr m \<longleftrightarrow> 0 \<le> n \<and> n = m"
  by (auto simp: nonnegative_int_def)

lemma non_blank_Inr [validator_simps]: "non_blank msg s = Inr t \<longleftrightarrow> strip s \<noteq> [] \<and> t = strip s"
  by (auto simp: non_blank_def)

lemma bounded_text_Inr [validator_simps]: "bounded_text m1 n m2 s = Inr t \<longleftrightarrow>
    strip s \<noteq> [] \<and> int (length (strip s)) \<le> n \<and> t = strip s"
  by (auto simp: bounded_text_def Let_def)

lemma in_range_Inr [validator_simps]: "in_range lo hi x = Inr y \<longleftrightarrow> lo \<le> x \<and> x \<le> hi \<and> x = y"
  by (auto simp: in_range_def)

lemma card_eq_distinct: "card (f ` set xs) = length xs \<longleftrightarrow> distinct (map f xs)"
  by (metis card_distinct distinct_card length_map set_map)

lemma value_of_non_blank [validator_simps]:
  "value_of (non_blank msg s) d = (if strip s = [] then d else strip s)"
  by (simp add: non_blank_def value_of_def)

lemma value_of_bounded_text [validator_simps]:
  "strip s \<noteq> [] \<Longrightarrow> int (length (strip s)) \<le> n \<Longrightarrow> value_of (bounded_text m1 n m2 s) d = strip s"
  by (simp add: bounded_text_def value_of_def Let_def)

lemma validate_provider_route_wf:
  assumes "validate_provider_route r = Inr q"
  shows "route_wf q"
  using assms
  by (auto simp: validate_provider_route_def validate_latency_order_def route_wf_def Let_def
      route_identifier_def route_price_def route_duration_def validator_simps
      split: if_splits option.splits)

lemma value_of_validate_route:
  "messages_of (validate_provider_route r) = [] \<Longrightarrow> route_wf (value_of (validate_provider_route r) r)"
  using validate_provider_route_wf by auto

lemma validate_model_candidate_wf:
  assumes "validate_model_candidate c = Inr d"
  shows "candidate_wf d"
proof -
  define ok where "ok = (\<lambda>r. \<exists>y. validate_provider_route r = Inr y)"
  have wf: "route_wf (value_of (validate_provider_route r) r)" if "ok r" for r
    using that validate_provider_route_wf by (auto simp: ok_def)
  have ok: "(\<exists>y. validate_provider_route r = Inr y) = ok r" for r
    by (simp add: ok_def)
  from assms show ?thesis
    unfolding validate_model_candidate_def validate_routes_def candidate_wf_def Let_def
      validate_score_def
    by (auto simp: validator_simps card_eq_distinct list_all_iff ok o_def wf split: if_splits)
qed

lemma validate_optional_cost_ok:
  "\<exists>w. validate_optional_cost v = Inr w \<Longrightarrow> (case v of None \<Rightarrow> True | Some x \<Rightarrow> nonneg x)"
  by (auto simp: validate_optional_cost_def optional_def split: option.splits dest!: finite_min_micro)

lemma validate_optional_latency_ok:
  "\<exists>w. validate_optional_latency v = Inr w \<Longrightarrow> (case v of None \<Rightarrow> True | Some n \<Rightarrow> 0 < n)"
  by (auto simp: validate_optional_latency_def optional_def positive_int_Inr split: option.splits)

lemma validate_operating_policy_Inr:
  assumes "validate_operating_policy p = Inr q"
  shows "q = p\<lparr>pol_analytics_insight := strip (pol_analytics_insight p),
      pol_task_rules := map (\<lambda>r. value_of (validate_task_rule r) r) (pol_task_rules p)\<rparr>"
    and "strip (pol_analytics_insight p) \<noteq> [] \<and> int (length (strip (pol_analytics_insight p))) \<le> 8000"
    and "\<exists>w. validate_optional_cost (pol_hard_agent_cost_limit_usd p) = Inr w"
    and "\<exists>w. validate_optional_cost (pol_hard_call_cost_limit_usd p) = Inr w"
    and "\<exists>w. validate_optional_latency (pol_hard_agent_latency_limit_ms p) = Inr w"
    and "\<exists>w. validate_optional_latency (pol_hard_call_latency_limit_ms p) = Inr w"
    and "nonneg (pol_cost_priority p) \<and> nonneg (pol_latency_priority p) \<and>
      nonneg (pol_quality_priority p) \<and> nonneg (pol_cache_priority p)"
    and "unit_interval (pol_minimum_quality p) \<and> unit_interval (pol_provider_exploration_fraction p)"
    and "0 \<le> pol_maximum_provider_exploration_ms p \<and> 0 \<le> pol_controller_reserve_ms p \<and>
      0 \<le> pol_compaction_reserve_ms p \<and> 0 \<le> pol_latency_safety_margin_ms p"
    and "\<forall>r\<in>set (pol_task_rules p). \<exists>s. validate_task_rule r = Inr s"
  using assms
  by (auto simp: validate_operating_policy_def Let_def policy_insight_def policy_priority_def
      policy_fraction_def policy_ms_def validator_simps)

lemma validate_operating_policy_wf:
  assumes "validate_operating_policy p = Inr q"
  shows "policy_wf q"
proof -
  note v = validate_operating_policy_Inr [OF assms]
  note [simp] = v(3,4) [THEN validate_optional_cost_ok] v(5,6) [THEN validate_optional_latency_ok]
  show ?thesis unfolding policy_wf_def using v(1,2,7-9) by simp
qed

section \<open>Validation is idempotent\<close>

lemma strip_idI: "s = [] \<or> \<not> is_space (hd s) \<and> \<not> is_space (last s) \<Longrightarrow> strip s = s"
proof -
  assume a: "s = [] \<or> \<not> is_space (hd s) \<and> \<not> is_space (last s)"
  have "dropWhile is_space t = t" if "t = [] \<or> \<not> is_space (hd t)" for t
    using that by (cases t) auto
  from this [of s] this [of "rev s"] a show ?thesis
    by (cases "s = []") (auto simp: strip_def lstrip_def rstrip_def hd_rev)
qed

lemma strip_ends: "strip s \<noteq> [] \<Longrightarrow> \<not> is_space (hd (strip s)) \<and> \<not> is_space (last (strip s))"
proof -
  assume ne: "strip s \<noteq> []"
  have d: "\<not> is_space (hd (dropWhile is_space t))" if "dropWhile is_space t \<noteq> []" for t
    using that by (induction t) auto
  have "strip s = rev (dropWhile is_space (rev (lstrip s)))"
    by (simp add: strip_def rstrip_def)
  then have "\<not> is_space (last (strip s))" using d [of "rev (lstrip s)"] ne by (simp add: last_rev)
  moreover have "lstrip (strip s) = strip s" 
    by (simp add: strip_def lstrip_def rstrip_def dropWhile_rev_dropWhile)
  then have "\<not> is_space (hd (strip s))" using d [of "strip s"] ne by (simp add: lstrip_def)
  ultimately show ?thesis by simp
qed

lemma casefold_ends:
  assumes "s \<noteq> []"
  shows "casefold s \<noteq> []" "is_space (hd (casefold s)) = is_space (hd s)"
    "is_space (last (casefold s)) = is_space (last s)"
proof -
  have 223: "\<not> is_space CHR ''s''" "code c = 223 \<Longrightarrow> \<not> is_space c" for c
    by (auto simp: is_space_def)
  obtain c t where s: "s = c # t" using assms by (cases s) auto
  show "casefold s \<noteq> []" by (simp add: s casefold_Cons)
  show "is_space (hd (casefold s)) = is_space (hd s)"
    using 223 by (simp add: s casefold_Cons)
  obtain t' d where s': "s = t' @ [d]" using assms by (cases s rule: rev_cases) auto
  show "is_space (last (casefold s)) = is_space (last s)"
    using 223 by (simp add: s' casefold_def)
qed

lemma strip_casefold_strip [simp]: "strip (casefold (strip s)) = casefold (strip s)"
proof (cases "strip s = []")
  case True
  show ?thesis unfolding True by (simp add: casefold_def strip_def lstrip_def rstrip_def)
next
  case False
  with casefold_ends [OF False] strip_ends [OF False] show ?thesis by (intro strip_idI) auto
qed

lemma unique_first_distinct [simp]: "distinct (unique_first xs)"
  by (simp add: unique_first_def)

lemma unique_first_id: "distinct xs \<Longrightarrow> unique_first xs = xs"
  by (simp add: unique_first_def distinct_remdups_id)

lemma set_unique_first [simp]: "set (unique_first xs) = set xs"
  by (simp add: unique_first_def)

lemma normalize_terms_idem: "normalize_terms (normalize_terms ts) = normalize_terms ts"
proof -
  let ?g = "\<lambda>t. casefold (strip t)"
  define ns where "ns = normalize_terms ts"
  have d: "distinct ns" by (simp add: ns_def normalize_terms_def)
  have "strip t = t \<and> t \<noteq> [] \<and> casefold t = t" if "t \<in> set ns" for t
  proof -
    from that obtain u where u: "t = casefold (strip u)" "strip u \<noteq> []"
      by (auto simp: ns_def normalize_terms_def)
    then show ?thesis using casefold_ends(1) [OF u(2)] by simp
  qed
  then have "filter (\<lambda>t. strip t \<noteq> []) ns = ns" "map ?g ns = ns"
    by (auto simp: filter_id_conv map_idI)
  then show ?thesis using d unfolding ns_def [symmetric]
    by (simp add: normalize_terms_def unique_first_id)
qed

lemma validate_task_rule_idem:
  assumes "validate_task_rule r = Inr s"
  shows "validate_task_rule s = Inr s"
  using assms by (auto simp: validate_task_rule_def Let_def validator_simps normalize_terms_idem)

lemma validate_provider_route_idem:
  assumes "validate_provider_route r = Inr s"
  shows "validate_provider_route s = Inr s"
  using assms by (auto simp: validate_provider_route_def Let_def route_identifier_def
      validate_latency_order_def validator_simps split: if_splits)

lemma map_value_of_fixed:
  "(\<And>x. x \<in> set xs \<Longrightarrow> \<exists>y. f x = Inr y) \<Longrightarrow> (\<And>x y. f x = Inr y \<Longrightarrow> f y = Inr y) \<Longrightarrow>
   map (\<lambda>r. value_of (f r) r) (map (\<lambda>r. value_of (f r) r) xs) = map (\<lambda>r. value_of (f r) r) xs \<and>
   (\<forall>x\<in>set (map (\<lambda>r. value_of (f r) r) xs). f x = Inr x)"
proof -
  assume ok: "\<And>x. x \<in> set xs \<Longrightarrow> \<exists>y. f x = Inr y" and idem: "\<And>x y. f x = Inr y \<Longrightarrow> f y = Inr y"
  have c: "f (value_of (f x) x) = Inr (value_of (f x) x)" if x: "x \<in> set xs" for x
    using ok [OF x] idem [of x] by (auto simp: value_of_def)
  then show ?thesis by auto
qed

lemma validate_operating_policy_idem:
  assumes "validate_operating_policy p = Inr q"
  shows "validate_operating_policy q = Inr q"
proof -
  note v = validate_operating_policy_Inr [OF assms]
  define ts where "ts = map (\<lambda>r. value_of (validate_task_rule r) r) (pol_task_rules p)"
  have "map (\<lambda>r. value_of (validate_task_rule r) r) ts = ts \<and> (\<forall>x\<in>set ts. validate_task_rule x = Inr x)"
    unfolding ts_def
    by (rule map_value_of_fixed) (use v(10) validate_task_rule_idem in blast)+
  then have m: "map (\<lambda>r. value_of (validate_task_rule r) r) ts = ts"
    "\<forall>x\<in>set ts. validate_task_rule x = Inr x" by blast+
  have "validate_task_rule x = Inr x" if "x \<in> set ts" for x using m(2) that by blast
  then show ?thesis unfolding v(1) ts_def [symmetric] validate_operating_policy_def Let_def
      policy_insight_def policy_priority_def policy_fraction_def policy_ms_def
    using v(2-9) m(1)
    by (simp add: validator_simps)
qed
end
