(* ===== verification/Samples.thy ===== *)
theory Samples
  imports Models
begin

text \<open>
  Concrete values on which the properties are applied: provider routes, candidate models and a
  short agent conversation. They model nothing of the program.
\<close>

definition sample_route :: "string \<Rightarrow> string \<Rightarrow> rat \<Rightarrow> int \<Rightarrow> bool \<Rightarrow> provider_route" where
  "sample_route rid prov price p95 guaranteed = \<lparr>rt_route_id = rid, rt_provider = prov,
     rt_native_model_id = ''native'', rt_input_price_per_million = Fin price,
     rt_output_price_per_million = Fin (4 * price), rt_cache_read_price_per_million = Some (Fin (price / 2)),
     rt_cache_write_price_per_million = None, rt_p95_ttft_ms = 200, rt_p95_total_latency_ms = p95,
     rt_guaranteed = guaranteed, rt_cache_supported = True, rt_cache_automatic = True,
     rt_cache_ttl_seconds = 300, rt_capabilities = {}\<rparr>"

definition sample_candidate :: "string \<Rightarrow> rat \<Rightarrow> provider_route list \<Rightarrow> model_candidate" where
  "sample_candidate mid quality routes = \<lparr>mc_model_id = mid, mc_quality = Fin quality,
     mc_context_window_tokens = 100000, mc_strengths = {}, mc_capabilities = {},
     mc_router_score = None, mc_router_payload = JObj [], mc_routes = routes\<rparr>"

definition cheap_route :: provider_route where
  "cheap_route = sample_route ''r1'' ''alpha'' 2000000 900 False"

definition firm_route :: provider_route where
  "firm_route = sample_route ''r2'' ''beta'' 4000000 600 True"

definition small_model :: model_candidate where
  "small_model = sample_candidate ''small'' (1 / 2) [cheap_route, firm_route]"

definition system_message :: json where
  "system_message = JObj [(''role'', JStr ''system''), (''content'', JStr ''be brief'')]"

definition user_message :: json where
  "user_message = JObj [(''role'', JStr ''user''), (''content'', JStr ''fix it'')]"

definition tool_output :: json where
  "tool_output = JObj [(''role'', JStr ''tool''), (''tool_call_id'', JStr ''c1''), (''content'', JStr ''log line'')]"

definition call_message :: json where
  "call_message = JObj [(''role'', JStr ''assistant''),
     (''tool_calls'', JArr [JObj [(''id'', JStr ''c2'')]])]"

definition conversation :: "json list" where
  "conversation = [system_message, tool_output, user_message, call_message]"

definition sample_policy :: operating_policy where
  "sample_policy = \<lparr>pol_analytics_insight = ''steady'', pol_hard_agent_cost_limit_usd = None,
     pol_hard_agent_latency_limit_ms = None, pol_hard_call_cost_limit_usd = None,
     pol_hard_call_latency_limit_ms = Some 4000, pol_cost_priority = Fin 1, pol_latency_priority = Fin 1,
     pol_quality_priority = Fin 1, pol_cache_priority = Fin 1, pol_minimum_quality = Fin 0,
     pol_provider_exploration_fraction = Fin (1 / 2), pol_maximum_provider_exploration_ms = 2000,
     pol_controller_reserve_ms = 25, pol_compaction_reserve_ms = 75,
     pol_latency_safety_margin_ms = 50, pol_task_rules = [], pol_source_digest = None\<rparr>"

definition sample_intent :: call_intent where
  "sample_intent = \<lparr>ci_session_id = ''s'', ci_task = ''fix'', ci_messages = conversation, ci_tools = [],
     ci_required_capabilities = {}, ci_predicted_output_tokens = Some 100,
     ci_max_output_tokens = Some 200, ci_priority = Fin 1\<rparr>"

definition sample_budget :: call_budget where
  "sample_budget = \<lparr>bud_run_id = ''run'', bud_call_id = ''call'', bud_sequence = 1, bud_cost_usd = Fin 64,
     bud_input_cost_usd = Fin 32, bud_output_cost_usd = Fin 32, bud_latency_ms = 3360,
     bud_allocator_model_id = ''gemma'', bud_allocator_reason = ''steady'',
     bud_required_context_tokens = 45, bud_importance_overrides = [], bud_created_at = 0\<rparr>"

definition sample_value :: cache_value where
  "sample_value = \<lparr>cv_model_id = ''small'', cv_provider = Some ''alpha'', cv_exact_reuse = False,
     cv_cached_tokens = 0, cv_input_cost_usd = Fin 90, cv_retained_value_usd = Fin 0,
     cv_switch_cost_usd = Fin 0\<rparr>"

definition sample_cache :: cache_analysis where
  "sample_cache = \<lparr>ca_total_tokens = 45, ca_tool_tokens = 0, ca_message_tokens = [10, 14, 9, 12],
     ca_prefix_hash = Some ''h'', ca_cacheable_message_indices = [],
     ca_protected_message_indices = [0, 2, 3], ca_compactable_message_indices = [1],
     ca_cacheable_tokens = 0, ca_protected_dynamic_tokens = 31, ca_compactable_tokens = 14,
     ca_last_model_id = None, ca_last_provider = None, ca_values = [(''small'', sample_value)],
     ca_context_blocks = []\<rparr>"

definition long_output :: json where
  "long_output = JObj [(''role'', JStr ''tool''), (''tool_call_id'', JStr ''c1''),
     (''content'', JStr (concat (replicate 30 ''word '')))]"

definition long_conversation :: "json list" where
  "long_conversation = [system_message, long_output, user_message]"

definition long_cache :: cache_analysis where
  "long_cache = sample_cache\<lparr>ca_total_tokens := 69, ca_message_tokens := [10, 50, 9],
     ca_protected_message_indices := [0, 2], ca_compactable_tokens := 50,
     ca_protected_dynamic_tokens := 19\<rparr>"

definition long_plan :: compaction_plan where
  "long_plan = \<lparr>cp_input_budget_usd = Fin 32, cp_estimated_input_cost_usd = Fin 1,
     cp_target_tokens = 40, cp_required_reduction_tokens = 29,
     cp_compactable_message_indices = [1], cp_importance_by_message_index = []\<rparr>"

end
