(* ===== verification/Policy_Agent.thy ===== *)
theory Policy_Agent
  imports Models Samples
begin

text \<open>
  Enterprise JSON ingestion and the two agents that turn it into a policy
  (\<^verbatim>\<open>src/promptrail/policy.py\<close>), and the boundary to the pinned budget model
  (\<^verbatim>\<open>src/promptrail/budgeting.py\<close>). The file system, the JSON parser, the digest,
  the policy and budget generators and the data-model library's coercion of a mapping are
  arguments; the checks the code makes around them are modelled branch by branch.
\<close>

section \<open>Loading enterprise JSON\<close>

text \<open>
  A path as the loop meets it: the resolved path, its last component, the size that
  \<open>stat\<close> reports and the bytes that \<open>read_bytes\<close> returns, \<open>None\<close> for an
  \<^verbatim>\<open>OSError\<close>.
\<close>

record enterprise_file =
  ef_path :: string
  ef_name :: string
  ef_size :: "int option"
  ef_bytes :: "string option"

definition MAX_DOCUMENT_BYTES :: int where
  "MAX_DOCUMENT_BYTES = 4 * 1024 * 1024"

definition MAX_TOTAL_BYTES :: int where
  "MAX_TOTAL_BYTES = 16 * 1024 * 1024"

text \<open>\<open>Path.suffix\<close>: from the last dot of the name, unless it leads or ends it.\<close>

definition path_suffix :: "string \<Rightarrow> string" where
  "path_suffix name =
     (let ext = takeWhile (\<lambda>c. c \<noteq> CHR ''.'') (rev name); n = length ext in
      if n = length name \<or> n = 0 \<or> Suc n = length name then [] else CHR ''.'' # rev ext)"

fun json_root_ok :: "json \<Rightarrow> bool" where
  "json_root_ok (JObj kvs) = True"
| "json_root_ok (JArr xs) = True"
| "json_root_ok _ = False"

text \<open>
  One pass of the loop over the paths: \<open>docs\<close> and \<open>total_bytes\<close> are the dictionary and the
  running size, \<open>hashed\<close> the bytes given to the digest so far.
\<close>

fun load_enterprise_files :: "(string \<Rightarrow> json option) \<Rightarrow> (string, json) dict \<Rightarrow> int \<Rightarrow> string \<Rightarrow>
    enterprise_file list \<Rightarrow> ((string, json) dict \<times> string) result" where
  "load_enterprise_files loads docs total_bytes hashed [] = Inr (docs, hashed)"
| "load_enterprise_files loads docs total_bytes hashed (f # fs) =
     (if casefold (path_suffix (ef_name f)) \<noteq> ''.json''
      then Inl (PolicyError (''enterprise data must be JSON: '' @ ef_path f))
      else case ef_size f of
        None \<Rightarrow> Inl (PolicyError (''cannot read enterprise data: '' @ ef_path f))
      | Some sz \<Rightarrow>
        if MAX_DOCUMENT_BYTES < sz
        then Inl (PolicyError (''enterprise JSON exceeds '' @ show_int MAX_DOCUMENT_BYTES @
               '' bytes: '' @ ef_name f))
        else if MAX_TOTAL_BYTES < total_bytes + sz
        then Inl (PolicyError (''enterprise JSON set exceeds '' @ show_int MAX_TOTAL_BYTES @ '' bytes''))
        else case ef_bytes f of
          None \<Rightarrow> Inl (PolicyError (''invalid enterprise JSON: '' @ ef_name f))
        | Some payload \<Rightarrow>
          (case loads payload of
             None \<Rightarrow> Inl (PolicyError (''invalid enterprise JSON: '' @ ef_name f))
           | Some parsed \<Rightarrow>
             if \<not> json_root_ok parsed
             then Inl (PolicyError (''enterprise JSON root must be an object or array: '' @ ef_name f))
             else if dict_get docs (ef_name f) \<noteq> None
             then Inl (PolicyError (''enterprise JSON filenames must be unique: '' @ ef_name f))
             else load_enterprise_files loads (dict_set (ef_name f) parsed docs) (total_bytes + sz)
                    (hashed @ utf8_encode (ef_name f) @ [CHR 0x00] @ payload @ [CHR 0x00]) fs))"

definition load_enterprise_json :: "(string \<Rightarrow> json option) \<Rightarrow> (string \<Rightarrow> string) \<Rightarrow>
    enterprise_file list \<Rightarrow> ((string, json) dict \<times> string) result" where
  "load_enterprise_json loads sha256 paths =
     (if paths = [] then Inl (PolicyError ''at least one enterprise JSON file is required'')
      else rbind (load_enterprise_files loads [] 0 [] paths)
             (\<lambda>(docs, hashed). Inr (docs, sha256 hashed)))"

section \<open>The policy agents\<close>

fun policy_error_of :: "py_error \<Rightarrow> py_error" where
  "policy_error_of (ValidationError ms) =
     PolicyError (''policy agent returned an invalid policy: '' @ join ''; '' ms)"
| "policy_error_of e = e"

text \<open>
  \<open>generate\<close> is the model-backed generator, \<open>coerce\<close> the data-model library's reading
  of a mapping into the policy's typed fields (before the policy's own validators).
\<close>

definition enterprise_synthesize :: "(string \<Rightarrow> json option) \<Rightarrow> (string \<Rightarrow> string) \<Rightarrow>
    ((string, json) dict \<Rightarrow> json) \<Rightarrow> ((string, json) dict \<Rightarrow> operating_policy result) \<Rightarrow>
    enterprise_file list \<Rightarrow> operating_policy result" where
  "enterprise_synthesize loads sha256 generate coerce paths =
     rbind (load_enterprise_json loads sha256 paths) (\<lambda>(enterprise_data, source_digest).
       case generate enterprise_data of
         JObj payload \<Rightarrow>
           (let returned_digest = jget (JObj payload) ''source_digest'' in
            if returned_digest \<noteq> JNull \<and> returned_digest \<noteq> JStr source_digest
            then Inl (PolicyError ''policy agent returned a mismatched source digest'')
            else case rbind (coerce (dict_set ''source_digest'' (JStr source_digest) payload))
                        validate_operating_policy of
                   Inl e \<Rightarrow> Inl (policy_error_of e)
                 | Inr p \<Rightarrow> Inr p)
       | _ \<Rightarrow> Inl (PolicyError ''policy agent returned a non-object result''))"

text \<open>The supplied agent validates its policy when it is built and binds it to the digest.\<close>

definition supplied_init :: "operating_policy \<Rightarrow> operating_policy result" where
  "supplied_init policy = validate_operating_policy policy"

definition supplied_synthesize :: "(string \<Rightarrow> json option) \<Rightarrow> (string \<Rightarrow> string) \<Rightarrow>
    operating_policy \<Rightarrow> enterprise_file list \<Rightarrow> operating_policy result" where
  "supplied_synthesize loads sha256 policy paths =
     rbind (load_enterprise_json loads sha256 paths) (\<lambda>(_, source_digest).
       if pol_source_digest policy \<noteq> None \<and> pol_source_digest policy \<noteq> Some source_digest
       then Inl (PolicyError ''supplied policy does not match the enterprise JSON digest'')
       else Inr (policy\<lparr>pol_source_digest := Some source_digest\<rparr>))"

section \<open>The Gemma allocator boundary\<close>

definition GEMMA_12B_MODEL_ID :: string where
  "GEMMA_12B_MODEL_ID = ''google/gemma-4-12B''"

record budget_model_response =
  bmr_payload :: json
  bmr_model_id :: string

definition gemma_init :: "string \<Rightarrow> string result" where
  "gemma_init model_id =
     (let normalized = strip model_id in
      if normalized \<noteq> GEMMA_12B_MODEL_ID
      then Inl (ValueError (''budget allocator must use '' @ GEMMA_12B_MODEL_ID @ '', got '' @
             str_repr normalized))
      else Inr normalized)"

fun budget_error_of :: "py_error \<Rightarrow> py_error" where
  "budget_error_of (ValidationError ms) =
     BudgetError (''Gemma returned an invalid call allocation: '' @ join ''; '' ms)"
| "budget_error_of e = e"

definition gemma_allocate :: "string \<Rightarrow> (string \<Rightarrow> budget_allocation_request \<Rightarrow> budget_model_response result) \<Rightarrow>
    ((string, json) dict \<Rightarrow> budget_allocation_decision result) \<Rightarrow>
    budget_allocation_request \<Rightarrow> budget_allocation_decision result" where
  "gemma_allocate model_id generate_budget coerce request =
     rbind (generate_budget model_id request) (\<lambda>response.
       if strip (bmr_model_id response) \<noteq> model_id
       then Inl (BudgetError (''budget endpoint did not attest the required Gemma 12B model: expected '' @
              str_repr model_id @ '', got '' @ str_repr (bmr_model_id response)))
       else case bmr_payload response of
         JObj payload \<Rightarrow>
           (case rbind (coerce payload) validate_budget_allocation_decision of
              Inl e \<Rightarrow> Inl (budget_error_of e)
            | Inr d \<Rightarrow> Inr d)
       | _ \<Rightarrow> Inl (BudgetError ''Gemma budget endpoint returned a non-object allocation''))"

section \<open>Properties\<close>

definition file_entry :: "enterprise_file \<Rightarrow> string" where
  "file_entry f = utf8_encode (ef_name f) @ [CHR 0x00] @ the (ef_bytes f) @ [CHR 0x00]"

definition file_loaded :: "(string \<Rightarrow> json option) \<Rightarrow> enterprise_file \<Rightarrow> bool" where
  "file_loaded loads f \<longleftrightarrow>
     casefold (path_suffix (ef_name f)) = ''.json'' \<and>
     (\<exists>n. ef_size f = Some n \<and> n \<le> MAX_DOCUMENT_BYTES) \<and>
     (\<exists>b v. ef_bytes f = Some b \<and> loads b = Some v \<and> json_root_ok v)"

lemma load_enterprise_files_Inr:
  assumes "load_enterprise_files loads docs n hashed fs = Inr (docs', hashed')"
    and "n \<le> MAX_TOTAL_BYTES"
  shows "map fst docs' = map fst docs @ map ef_name fs
    \<and> hashed' = hashed @ concat (map file_entry fs)
    \<and> (\<forall>f\<in>set fs. file_loaded loads f)
    \<and> n + sum_list (map (\<lambda>f. the (ef_size f)) fs) \<le> MAX_TOTAL_BYTES
    \<and> (distinct (map fst docs) \<longrightarrow> distinct (map fst docs'))"
  using assms
proof (induction loads docs n hashed fs rule: load_enterprise_files.induct)
  case (2 loads docs n hashed f fs)
  from "2.prems" obtain sz payload v where f:
    "casefold (path_suffix (ef_name f)) = ''.json''" "ef_size f = Some sz"
    "sz \<le> MAX_DOCUMENT_BYTES" "n + sz \<le> MAX_TOTAL_BYTES" "ef_bytes f = Some payload"
    "loads payload = Some v" "json_root_ok v" "dict_get docs (ef_name f) = None"
    "load_enterprise_files loads (dict_set (ef_name f) v docs) (n + sz)
       (hashed @ utf8_encode (ef_name f) @ [CHR 0x00] @ payload @ [CHR 0x00]) fs = Inr (docs', hashed')"
    by (simp split: if_splits option.splits)
  have new: "ef_name f \<notin> set (map fst docs)" using f(8) by (simp add: map_of_eq_None_iff)
  have keys: "map fst (dict_set (ef_name f) v docs) = map fst docs @ [ef_name f]"
    using new by (simp add: update_keys)
  have IH: "map fst docs' = map fst (dict_set (ef_name f) v docs) @ map ef_name fs
    \<and> hashed' = (hashed @ utf8_encode (ef_name f) @ [CHR 0x00] @ payload @ [CHR 0x00]) @ concat (map file_entry fs)
    \<and> (\<forall>f\<in>set fs. file_loaded loads f)
    \<and> n + sz + sum_list (map (\<lambda>f. the (ef_size f)) fs) \<le> MAX_TOTAL_BYTES
    \<and> (distinct (map fst (dict_set (ef_name f) v docs)) \<longrightarrow> distinct (map fst docs'))"
    by (rule "2.IH") (use f in auto)
  then have "distinct (map fst docs) \<longrightarrow> distinct (map fst docs')"
    using distinct_update [of docs "ef_name f" v] by blast
  with IH f show ?case by (simp add: keys file_entry_def [of f] file_loaded_def [of _ f] del: map_append)
qed simp

lemma load_enterprise_json_Inr:
  assumes "load_enterprise_json loads sha256 fs = Inr (docs, digest)"
  shows "map fst docs = map ef_name fs" "distinct (map ef_name fs)" "fs \<noteq> []"
    "digest = sha256 (concat (map file_entry fs))"
    "\<forall>f\<in>set fs. file_loaded loads f"
    "sum_list (map (\<lambda>f. the (ef_size f)) fs) \<le> MAX_TOTAL_BYTES"
proof -
  from assms obtain hashed where l: "load_enterprise_files loads [] 0 [] fs = Inr (docs, hashed)"
    and "fs \<noteq> []" "digest = sha256 hashed"
    by (auto simp: load_enterprise_json_def split: if_splits)
  with load_enterprise_files_Inr [OF l]
  show "map fst docs = map ef_name fs" "distinct (map ef_name fs)" "fs \<noteq> []"
    "digest = sha256 (concat (map file_entry fs))" "\<forall>f\<in>set fs. file_loaded loads f"
    "sum_list (map (\<lambda>f. the (ef_size f)) fs) \<le> MAX_TOTAL_BYTES"
    by (auto simp: MAX_TOTAL_BYTES_def)
qed

lemma enterprise_synthesize_Inr:
  assumes "enterprise_synthesize loads sha256 generate coerce fs = Inr p"
  shows "\<exists>docs digest payload q. load_enterprise_json loads sha256 fs = Inr (docs, digest) \<and>
    generate docs = JObj payload \<and>
    coerce (dict_set ''source_digest'' (JStr digest) payload) = Inr q \<and>
    validate_operating_policy q = Inr p \<and>
    (map_of payload ''source_digest'' \<in> {None, Some JNull, Some (JStr digest)})"
proof -
  from assms obtain docs digest where l: "load_enterprise_json loads sha256 fs = Inr (docs, digest)"
    by (auto simp: enterprise_synthesize_def)
  then obtain payload where g: "generate docs = JObj payload"
    using assms by (cases "generate docs") (auto simp: enterprise_synthesize_def)
  obtain q where "coerce (dict_set ''source_digest'' (JStr digest) payload) = Inr q"
      "validate_operating_policy q = Inr p"
    using assms l g by (auto simp: enterprise_synthesize_def Let_def split: if_splits sum.splits)
  moreover have "map_of payload ''source_digest'' \<in> {None, Some JNull, Some (JStr digest)}"
    using assms l g by (auto simp: enterprise_synthesize_def Let_def split: if_splits option.splits)
  ultimately show ?thesis using l g by blast
qed

lemma validate_operating_policy_digest:
  "validate_operating_policy q = Inr p \<Longrightarrow> pol_source_digest p = pol_source_digest q"
  by (auto dest: validate_operating_policy_Inr(1))

text \<open>
  A policy that the enterprise agent returns is well formed and bound to the
  bytes of the documents it was derived from, whatever the generator returns: its digest is
  the digest of the files' names and contents in order. The one assumption on the
  data-model library is that coercion copies the digest field.
\<close>

lemma enterprise_policy_bound:
  assumes coerce: "\<And>kvs q d. coerce kvs = Inr q \<Longrightarrow> map_of kvs ''source_digest'' = Some (JStr d) \<Longrightarrow>
      pol_source_digest q = Some d"
    and syn: "enterprise_synthesize loads sha256 generate coerce fs = Inr p"
  shows "policy_wf p \<and> pol_source_digest p = Some (sha256 (concat (map file_entry fs))) \<and>
    distinct (map ef_name fs) \<and> (\<forall>f\<in>set fs. file_loaded loads f) \<and>
    sum_list (map (\<lambda>f. the (ef_size f)) fs) \<le> MAX_TOTAL_BYTES"
proof -
  obtain docs digest payload q where l: "load_enterprise_json loads sha256 fs = Inr (docs, digest)"
    and c: "coerce (dict_set ''source_digest'' (JStr digest) payload) = Inr q"
    and v: "validate_operating_policy q = Inr p"
    using enterprise_synthesize_Inr [OF syn] by blast
  have "pol_source_digest q = Some digest" by (rule coerce [OF c]) (simp add: dict_get_set)
  with validate_operating_policy_digest [OF v] validate_operating_policy_wf [OF v]
    load_enterprise_json_Inr [OF l]
  show ?thesis by simp
qed

definition sample_file :: enterprise_file where
  "sample_file = \<lparr>ef_path = ''/d/a.json'', ef_name = ''a.json'', ef_size = Some 2, ef_bytes = Some ''{}''\<rparr>"

definition sample_coerce :: "(string, json) dict \<Rightarrow> operating_policy result" where
  "sample_coerce kvs = (case map_of kvs ''source_digest'' of
     Some (JStr d) \<Rightarrow> Inr (sample_policy\<lparr>pol_source_digest := Some d\<rparr>) | _ \<Rightarrow> Inr sample_policy)"

lemma sample_coerce_digest:
  "sample_coerce kvs = Inr q \<Longrightarrow> map_of kvs ''source_digest'' = Some (JStr d) \<Longrightarrow>
     pol_source_digest q = Some d"
  unfolding sample_coerce_def by auto

lemma sample_policy_valid:
  "validate_operating_policy (sample_policy\<lparr>pol_source_digest := d\<rparr>) = Inr (sample_policy\<lparr>pol_source_digest := d\<rparr>)"
  by (simp add: validate_operating_policy_def Let_def sample_policy_def policy_insight_def
      policy_priority_def policy_fraction_def policy_ms_def validator_simps
      validate_optional_cost_def validate_optional_latency_def unit_interval_def) code_simp

lemma sample_file_loads:
  "load_enterprise_json (\<lambda>_. Some (JObj [])) id [sample_file] =
     Inr ([(''a.json'', JObj [])], ''a.json'' @ [CHR 0x00] @ ''{}'' @ [CHR 0x00])"
  by code_simp

text \<open>
  Validation of a policy is idempotent: the normalised policy passes the same
  validators unchanged, so rebuilding a policy from its own fields changes nothing.
\<close>

lemma policy_validation_idempotent:
  assumes "validate_operating_policy p = Inr q"
  shows "validate_operating_policy q = Inr q \<and> policy_wf q"
  using validate_operating_policy_idem [OF assms] validate_operating_policy_wf [OF assms] by simp

end
