(* ===== verification/Cache.thy ===== *)
theory Cache
  imports Models
begin

text \<open>
  The prompt-cache coordinator (\<^verbatim>\<open>src/promptrail/cache.py\<close>): token estimates, the
  analysis of a conversation into protected, compactable and provider-cached messages, the
  context blocks with their importance, and the value of a provider cache for each candidate
  model. The state is the dictionary of sessions; \<open>analyze\<close> may drop an expired record from
  it and \<open>observe\<close> stores a new one. The digest is an argument (\<open>sha256\<close>, from bytes to hex
  text), the clock is a number of microseconds passed in.
\<close>

section \<open>Tokens and hashes\<close>

definition estimate_tokens :: "json \<Rightarrow> int result" where
  "estimate_tokens v = rbind (canonical_json v) (\<lambda>t. Inr (max 1 ((utf8_len t + 3) div 4)))"

definition prefix_hash :: "(string \<Rightarrow> string) \<Rightarrow> json list \<Rightarrow> nat \<Rightarrow> json list \<Rightarrow> string option result" where
  "prefix_hash sha256 messages cnt tools =
     (if cnt = 0 \<and> tools = [] then Inr None
      else rbind (canonical_json (JObj [(''messages'', JArr (take cnt messages)), (''tools'', JArr tools)]))
             (\<lambda>t. Inr (Some (sha256 (utf8_encode t)))))"

section \<open>Reading a message\<close>

definition role_of :: "json \<Rightarrow> string" where
  "role_of m = casefold (py_str (jor (jget m ''role'') (JStr [])))"

definition has_tool_call_id :: "json \<Rightarrow> bool" where
  "has_tool_call_id m = truthy (jget m ''tool_call_id'')"

definition is_user_message :: "json \<Rightarrow> bool" where
  "is_user_message m = (role_of m = ''user'' \<and> \<not> has_tool_call_id m)"

definition is_tool_message :: "json \<Rightarrow> bool" where
  "is_tool_message m = (role_of m = ''tool'' \<or> has_tool_call_id m)"

definition is_protocol_role :: "string \<Rightarrow> bool" where
  "is_protocol_role r = (r = ''system'' \<or> r = ''developer'')"

text \<open>The scan \<open>for index in range(len(messages) - 1, -1, -1)\<close> for the last match.\<close>

definition last_index :: "(json \<Rightarrow> bool) \<Rightarrow> json list \<Rightarrow> nat option" where
  "last_index p ms = find (\<lambda>i. p (ms ! i)) (rev [0..<length ms])"

definition content_text :: "json \<Rightarrow> string" where
  "content_text content = (case content of JStr s \<Rightarrow> s
     | v \<Rightarrow> (case canonical_json v of Inr t \<Rightarrow> t | Inl _ \<Rightarrow> py_str v))"

definition proposed_prefix_count :: "json list \<Rightarrow> nat" where
  "proposed_prefix_count messages =
     (case last_index is_user_message messages of
        Some i \<Rightarrow> i
      | None \<Rightarrow> length (takeWhile (\<lambda>m. is_protocol_role (role_of m)) messages))"

text \<open>
  Iterating a value: an array's elements, an object's keys, a string's characters; anything
  else that is not empty cannot be iterated.
\<close>

fun json_iter :: "json \<Rightarrow> json list result" where
  "json_iter (JArr xs) = Inr xs"
| "json_iter (JObj kvs) = Inr (map (\<lambda>(k, _). JStr k) kvs)"
| "json_iter (JStr s) = Inr (map (\<lambda>c. JStr [c]) s)"
| "json_iter _ = Inl (TypeError ''object is not iterable'')"

fun tool_call_id_of :: "json \<Rightarrow> string" where
  "tool_call_id_of (JObj kvs) = py_str (jor (jget (JObj kvs) ''id'') (JStr []))"
| "tool_call_id_of _ = []"

definition open_tool_call :: "string list \<Rightarrow> json \<Rightarrow> bool result" where
  "open_tool_call tool_results m =
     rbind (json_iter (jor (jget m ''tool_calls'') (JArr [])))
       (\<lambda>calls. Inr (list_ex (\<lambda>c. tool_call_id_of c \<noteq> [] \<and> tool_call_id_of c \<notin> set tool_results) calls))"

definition protected_indices :: "json list \<Rightarrow> nat list result" where
  "protected_indices messages =
     (let latest_user = last_index is_user_message messages;
          tool_results = map (\<lambda>m. py_str (jget m ''tool_call_id'')) (filter has_tool_call_id messages)
      in rbind (rmap (open_tool_call tool_results) messages) (\<lambda>opens.
           Inr (filter (\<lambda>i. latest_user = Some i \<or> is_protocol_role (role_of (messages ! i)) \<or> opens ! i)
                  [0..<length messages])))"

definition safe_compactable_message :: "json \<Rightarrow> bool" where
  "safe_compactable_message m =
     ((role_of m = ''assistant'' \<or> role_of m = ''tool'') \<and>
      (case jget m ''content'' of JStr s \<Rightarrow> strip s \<noteq> [] | _ \<Rightarrow> False))"

section \<open>Context blocks\<close>

definition error_re :: re where
  "error_re = Seq (Alt LineStart WordB)
     (Seq (alts [lit same_char_i ''ERROR'', lit same_char_i ''FAILED'', lit same_char_i ''FAILURE'',
                 lit same_char_i ''FATAL'', lit same_char_i ''Traceback'',
                 Seq (Cls (\<lambda>c. is_ascii_letter c \<or> c = CHR ''_''))
                   (Seq (Many (\<lambda>c. is_word c \<or> c = CHR ''.''))
                        (Alt (lit same_char_i ''Error'') (lit same_char_i ''Exception'')))])
          (Alt (Cls (\<lambda>c. c = CHR '':'')) WordB))"

definition test_re :: re where
  "test_re = alts [lit same_char_i ''pytest'', lit same_char_i ''unittest'',
     Seq WordB (Seq (lit same_char_i ''test'')
       (Alt (Seq (Cls (same_char_i (CHR ''s''))) WordB) WordB)),
     lit same_char_i ''passed'', lit same_char_i ''failed'']"

definition patch_re :: re where
  "patch_re = Seq LineStart (alts [lit same_char ''diff --git'', lit same_char ''@@ '',
     lit same_char ''+++ '', lit same_char ''--- ''])"

text \<open>\<^verbatim>\<open>set(re.findall(r"[a-z0-9_]{3,}", s))\<close>\<close>

definition term_char :: "char \<Rightarrow> bool" where
  "term_char c = ((97 \<le> code c \<and> code c \<le> 122) \<or> is_digit c \<or> c = CHR ''_'')"

definition terms_of :: "string \<Rightarrow> string list" where
  "terms_of s = remdups (filter (\<lambda>t. 3 \<le> length t) (runs term_char [] s))"

definition classify_block :: "string \<Rightarrow> json \<Rightarrow> string \<Rightarrow> block_type" where
  "classify_block role m txt =
     (if is_protocol_role role then Protocol
      else if role = ''user'' then UserBlock
      else if role = ''tool'' \<or> has_tool_call_id m then
        (if re_search test_re txt then TestBlock
         else if re_search patch_re txt then PatchBlock else ToolBlock)
      else if role = ''assistant'' then AssistantBlock
      else Generic)"

definition block_importance :: "bool \<Rightarrow> bool \<Rightarrow> string \<Rightarrow> block_type \<Rightarrow> int \<Rightarrow> pyfloat \<Rightarrow> pyfloat" where
  "block_importance immutable is_latest_tool txt bt age overlap =
     (if immutable then Fin 1
      else if is_latest_tool then fl (95 / 100)
      else if re_search error_re txt \<or> bt = TestBlock \<or> bt = PatchBlock then fl (9 / 10)
      else let recency = fdiv (Fin 1) (Fin 1 + fl (of_int age / 4))
           in pmin (fl (95 / 100))
                (Fin (1 / 4) + fl (45 / 100) * overlap + fl (3 / 10) * recency))"

definition context_block_at :: "(string \<Rightarrow> string) \<Rightarrow> string list \<Rightarrow> nat option \<Rightarrow> nat option \<Rightarrow> nat \<Rightarrow>
    nat \<Rightarrow> json \<Rightarrow> string \<Rightarrow> int \<Rightarrow> context_block result" where
  "context_block_at sha256 task_terms latest_user latest_tool cnt index message fingerprint duplicate =
     (let role = role_of message;
          txt = content_text (jget message ''content'');
          bt = classify_block role message txt;
          content_terms = terms_of (casefold txt);
          common = length (filter (\<lambda>t. t \<in> set content_terms) task_terms);
          overlap = fl (of_nat common / of_int (max 1 (int (length task_terms))));
          age = int cnt - int index - 1;
          immutable = (is_protocol_role role \<or> latest_user = Some index)
      in rbind (estimate_tokens message) (\<lambda>tokens.
         validate_context_block
           \<lparr>cb_block_id = ''ctx_'' @ take 16 fingerprint @ ''_'' @ show_int duplicate,
            cb_message_indices = [index], cb_block_type = bt, cb_tokens = tokens, cb_age = age,
            cb_cached = False, cb_task_overlap = overlap,
            cb_redundancy = pmin (Fin 1) (fl_of_int duplicate * Fin (1 / 2)),
            cb_cache_invalidation_cost = Fin 0,
            cb_importance = block_importance immutable (latest_tool = Some index) txt bt age overlap,
            cb_structurally_immutable = immutable\<rparr>))"

text \<open>The loop over the messages, with the dictionary of fingerprints seen so far.\<close>

fun build_blocks_from :: "(string \<Rightarrow> string) \<Rightarrow> string list \<Rightarrow> nat option \<Rightarrow> nat option \<Rightarrow> nat \<Rightarrow>
    (string, int) dict \<Rightarrow> nat \<Rightarrow> json list \<Rightarrow> context_block list result" where
  "build_blocks_from sha256 task_terms latest_user latest_tool cnt seen index [] = Inr []"
| "build_blocks_from sha256 task_terms latest_user latest_tool cnt seen index (m # ms) =
     rbind (canonical_json m) (\<lambda>t.
       let fingerprint = sha256 (utf8_encode t);
           duplicate = (case dict_get seen fingerprint of None \<Rightarrow> 0 | Some n \<Rightarrow> n)
       in rbind (context_block_at sha256 task_terms latest_user latest_tool cnt index m
                   fingerprint duplicate) (\<lambda>b.
          rbind (build_blocks_from sha256 task_terms latest_user latest_tool cnt
                   (dict_set fingerprint (duplicate + 1) seen) (Suc index) ms) (\<lambda>bs.
          Inr (b # bs))))"

definition build_context_blocks :: "(string \<Rightarrow> string) \<Rightarrow> json list \<Rightarrow> string \<Rightarrow> context_block list result" where
  "build_context_blocks sha256 messages task =
     build_blocks_from sha256 (terms_of (casefold task)) (last_index is_user_message messages)
       (last_index is_tool_message messages) (length messages) [] 0 messages"

section \<open>Cache records and session state\<close>

record cache_record =
  rec_model_id :: string
  rec_provider :: string
  rec_prefix_hash :: string
  rec_message_count :: nat
  rec_prefix_tokens :: int
  rec_expires_at :: int

record session_state =
  ss_last_model_id :: "string option"
  ss_last_provider :: "string option"
  ss_record :: "cache_record option"

definition new_session :: session_state where
  "new_session = \<lparr>ss_last_model_id = None, ss_last_provider = None, ss_record = None\<rparr>"

record coordinator =
  co_minimum_compactable_tokens :: int
  co_sessions :: "(string, session_state) dict"

definition coordinator_init :: "int \<Rightarrow> coordinator result" where
  "coordinator_init minimum_compactable_tokens =
     (if minimum_compactable_tokens \<le> 0
      then Inl (ValueError ''minimum_compactable_tokens must be positive'')
      else Inr \<lparr>co_minimum_compactable_tokens = minimum_compactable_tokens, co_sessions = []\<rparr>)"

section \<open>The value of a cache for a candidate\<close>

definition per_million :: "pyfloat \<Rightarrow> pyfloat" where
  "per_million x = fdiv x (Fin 1000000)"

definition cache_read_rate :: "provider_route \<Rightarrow> pyfloat" where
  "cache_read_rate r = (case rt_cache_read_price_per_million r of
     Some p \<Rightarrow> p | None \<Rightarrow> rt_input_price_per_million r)"

definition route_input_cost :: "provider_route \<Rightarrow> int \<Rightarrow> int \<Rightarrow> pyfloat" where
  "route_input_cost route total_tokens cached_tokens =
     per_million (fl_of_int cached_tokens * cache_read_rate route
       + fl_of_int (max 0 (total_tokens - cached_tokens)) * rt_input_price_per_million route)"

text \<open>The key \<open>(cost, p95_total_latency_ms, route_id)\<close> and Python's comparison of tuples.\<close>

definition cost_key_less :: "pyfloat \<times> int \<times> string \<Rightarrow> pyfloat \<times> int \<times> string \<Rightarrow> bool" where
  "cost_key_less = tuple_lt feq (<) (tuple_lt (=) (<) (<))"

definition exact_route :: "cache_record option \<Rightarrow> model_candidate \<Rightarrow> provider_route \<Rightarrow> bool" where
  "exact_route rec candidate route = (case rec of None \<Rightarrow> False | Some r \<Rightarrow>
     mc_model_id candidate = rec_model_id r \<and> rt_provider route = rec_provider r \<and>
     rt_cache_supported route)"

definition cached_on :: "cache_record option \<Rightarrow> model_candidate \<Rightarrow> int \<Rightarrow> provider_route \<Rightarrow> int" where
  "cached_on rec candidate total_tokens route =
     (case rec of Some r \<Rightarrow> if exact_route rec candidate route then min total_tokens (rec_prefix_tokens r) else 0
      | None \<Rightarrow> 0)"

definition value_route_key :: "cache_record option \<Rightarrow> model_candidate \<Rightarrow> int \<Rightarrow> int \<Rightarrow>
    provider_route \<Rightarrow> pyfloat \<times> int \<times> string" where
  "value_route_key rec candidate total_tokens predicted_output_tokens route =
     (route_input_cost route total_tokens (cached_on rec candidate total_tokens route)
        + per_million (fl_of_int predicted_output_tokens * rt_output_price_per_million route),
      rt_p95_total_latency_ms route, rt_route_id route)"

definition switch_cost :: "cache_record option \<Rightarrow> model_candidate \<Rightarrow> int \<Rightarrow> bool \<Rightarrow> pyfloat" where
  "switch_cost rec candidate total_tokens exact =
     (case rec of None \<Rightarrow> Fin 0 | Some r \<Rightarrow>
        if exact then Fin 0 else
        (case find (\<lambda>route. rt_provider route = rec_provider r \<and> rt_cache_supported route)
                (mc_routes candidate) of
           None \<Rightarrow> Fin 0
         | Some record_route \<Rightarrow>
             per_million (fl_of_int (min total_tokens (rec_prefix_tokens r))
               * pmax (Fin 0) (rt_input_price_per_million record_route - cache_read_rate record_route))))"

definition candidate_value :: "model_candidate \<Rightarrow> int \<Rightarrow> int \<Rightarrow> cache_record option \<Rightarrow> cache_value result" where
  "candidate_value candidate total_tokens predicted_output_tokens rec =
     rbind (min_by cost_key_less (value_route_key rec candidate total_tokens predicted_output_tokens)
              (mc_routes candidate)) (\<lambda>selected_route.
       let exact = exact_route rec candidate selected_route;
           cached_tokens = cached_on rec candidate total_tokens selected_route;
           input_cost = route_input_cost selected_route total_tokens cached_tokens;
           uncached_cost = per_million (fl_of_int total_tokens * rt_input_price_per_million selected_route);
           current_savings = pmax (Fin 0) (uncached_cost - input_cost)
       in Inr \<lparr>cv_model_id = mc_model_id candidate, cv_provider = Some (rt_provider selected_route),
               cv_exact_reuse = exact, cv_cached_tokens = cached_tokens,
               cv_input_cost_usd = input_cost, cv_retained_value_usd = current_savings,
               cv_switch_cost_usd = switch_cost rec candidate total_tokens exact\<rparr>)"

section \<open>Analysis of a conversation\<close>

definition live_record :: "session_state \<Rightarrow> int \<Rightarrow> cache_record option" where
  "live_record state now = (case ss_record state of
     Some r \<Rightarrow> if rec_expires_at r \<le> now then None else Some r | None \<Rightarrow> None)"

text \<open>
  \<open>record\<close> is kept for the analysis only if its prefix is still the beginning of this
  conversation (\<open>active_exact\<close>).
\<close>

definition active_record :: "(string \<Rightarrow> string) \<Rightarrow> json list \<Rightarrow> json list \<Rightarrow> cache_record option \<Rightarrow>
    cache_record option result" where
  "active_record sha256 messages tools rec =
     (case rec of None \<Rightarrow> Inr None | Some r \<Rightarrow>
        if rec_message_count r \<le> length messages
        then rbind (prefix_hash sha256 messages (rec_message_count r) tools)
               (\<lambda>h. Inr (if h = Some (rec_prefix_hash r) then Some r else None))
        else Inr None)"

definition compactable_indices :: "int \<Rightarrow> json list \<Rightarrow> int list \<Rightarrow> nat list \<Rightarrow> nat list" where
  "compactable_indices minimum messages message_tokens protected =
     filter (\<lambda>i. i \<notin> set protected \<and> minimum \<le> message_tokens ! i \<and>
              safe_compactable_message (messages ! i)) [0..<length messages]"

definition mark_cached :: "nat list \<Rightarrow> int \<Rightarrow> context_block \<Rightarrow> context_block" where
  "mark_cached cacheable cacheable_tokens b =
     (let cached = list_ex (\<lambda>i. i \<in> set cacheable) (cb_message_indices b)
      in b\<lparr>cb_cached := cached,
           cb_cache_invalidation_cost :=
             (if cached then fl (of_int (cb_tokens b) / of_int (max 1 cacheable_tokens)) else Fin 0)\<rparr>)"

definition indexed_sum :: "int list \<Rightarrow> nat list \<Rightarrow> int" where
  "indexed_sum xs is = sum_list (map (\<lambda>i. xs ! i) is)"

definition confirmed_count :: "cache_record option \<Rightarrow> nat" where
  "confirmed_count active = (case active of
     Some r \<Rightarrow> if 0 < rec_prefix_tokens r then rec_message_count r else 0 | None \<Rightarrow> 0)"

text \<open>The construction of the result from the quantities computed before it.\<close>

definition assemble_analysis :: "int \<Rightarrow> json list \<Rightarrow> int list \<Rightarrow> int list \<Rightarrow> string option \<Rightarrow>
    session_state \<Rightarrow> cache_record option \<Rightarrow> nat list \<Rightarrow> (string \<times> cache_value) list \<Rightarrow>
    context_block list \<Rightarrow> cache_analysis" where
  "assemble_analysis minimum messages message_tokens each_tool proposed_hash state active protected
     values raw_blocks =
     (let tool_tokens = sum_list each_tool;
          total_tokens = sum_list message_tokens + tool_tokens;
          confirmed = confirmed_count active;
          cacheable = [0..<confirmed];
          compactable = compactable_indices minimum messages message_tokens protected;
          cacheable_tokens = (if confirmed \<noteq> 0 then
             (case active of Some r \<Rightarrow> rec_prefix_tokens r | None \<Rightarrow> 0) else 0);
          accounted = indexed_sum message_tokens (remdups (cacheable @ compactable))
                        + (if confirmed \<noteq> 0 then tool_tokens else 0)
      in \<lparr>ca_total_tokens = total_tokens, ca_tool_tokens = tool_tokens,
          ca_message_tokens = message_tokens, ca_prefix_hash = proposed_hash,
          ca_cacheable_message_indices = cacheable, ca_protected_message_indices = protected,
          ca_compactable_message_indices = compactable, ca_cacheable_tokens = cacheable_tokens,
          ca_protected_dynamic_tokens = max 0 (total_tokens - accounted),
          ca_compactable_tokens = indexed_sum message_tokens compactable,
          ca_last_model_id = ss_last_model_id state, ca_last_provider = ss_last_provider state,
          ca_values = dict_of values,
          ca_context_blocks = map (mark_cached cacheable cacheable_tokens) raw_blocks\<rparr>)"

definition candidate_values :: "model_candidate list \<Rightarrow> int \<Rightarrow> int \<Rightarrow> cache_record option \<Rightarrow>
    (string \<times> cache_value) list result" where
  "candidate_values candidates total_tokens predicted_output_tokens active =
     rmap (\<lambda>c. rbind (candidate_value c total_tokens predicted_output_tokens active)
            (\<lambda>v. Inr (mc_model_id c, v))) candidates"

definition session_of :: "coordinator \<Rightarrow> string \<Rightarrow> session_state" where
  "session_of co session_id =
     (case dict_get (co_sessions co) session_id of Some s \<Rightarrow> s | None \<Rightarrow> new_session)"

text \<open>\<open>state.record = None\<close> on expiry changes the stored session, if there is one.\<close>

definition expire_session :: "coordinator \<Rightarrow> string \<Rightarrow> int \<Rightarrow> coordinator" where
  "expire_session co session_id now =
     (if dict_get (co_sessions co) session_id \<noteq> None \<and> live_record (session_of co session_id) now = None
      then co\<lparr>co_sessions := dict_set session_id ((session_of co session_id)\<lparr>ss_record := None\<rparr>)
                              (co_sessions co)\<rparr>
      else co)"

definition analyze :: "(string \<Rightarrow> string) \<Rightarrow> int \<Rightarrow> coordinator \<Rightarrow> string \<Rightarrow> json list \<Rightarrow> json list \<Rightarrow>
    model_candidate list \<Rightarrow> int \<Rightarrow> string \<Rightarrow> context_block list option \<Rightarrow>
    (cache_analysis \<times> coordinator) result" where
  "analyze sha256 now co session_id messages tools candidates predicted_output_tokens task context_blocks =
     (if messages = [] then Inl (ValueError ''cache analysis requires at least one message'')
      else
      rbind (rmap estimate_tokens messages) (\<lambda>message_tokens.
      rbind (rmap estimate_tokens tools) (\<lambda>each_tool.
      rbind (prefix_hash sha256 messages (proposed_prefix_count messages) tools) (\<lambda>proposed_hash.
      rbind (active_record sha256 messages tools (live_record (session_of co session_id) now)) (\<lambda>active.
      rbind (protected_indices messages) (\<lambda>protected.
      rbind (candidate_values candidates (sum_list message_tokens + sum_list each_tool)
               predicted_output_tokens active) (\<lambda>values.
      rbind (case context_blocks of
               Some bs \<Rightarrow> if bs = [] then build_context_blocks sha256 messages task else Inr bs
             | None \<Rightarrow> build_context_blocks sha256 messages task) (\<lambda>raw_blocks.
      Inr (assemble_analysis (co_minimum_compactable_tokens co) messages message_tokens each_tool
             proposed_hash (session_of co session_id) active protected values raw_blocks,
           expire_session co session_id now)))))))))"

section \<open>Observation of a settled call\<close>

function first_missing :: "nat list \<Rightarrow> nat \<Rightarrow> nat" where
  "first_missing xs c = (if c \<in> set xs then first_missing xs (Suc c) else c)"
  by pat_completeness auto
termination
proof (relation "measure (\<lambda>(xs, c). card {i \<in> set xs. c \<le> i})")
  fix xs and c :: nat
  assume c: "c \<in> set xs"
  have "card {i \<in> set xs. Suc c \<le> i} < card {i \<in> set xs. c \<le> i}"
  proof (rule psubset_card_mono)
    have "{i \<in> set xs. Suc c \<le> i} \<subseteq> {i \<in> set xs. c \<le> i}" by auto
    moreover have "c \<in> {i \<in> set xs. c \<le> i}" "c \<notin> {i \<in> set xs. Suc c \<le> i}" using c by simp_all
    ultimately show "{i \<in> set xs. Suc c \<le> i} \<subset> {i \<in> set xs. c \<le> i}" by blast
  qed simp
  then show "((xs, Suc c), (xs, c)) \<in> measure (\<lambda>(xs, c). card {i \<in> set xs. c \<le> i})" by simp
qed simp

declare first_missing.simps [simp del]

definition candidate_prefix_count :: "cache_analysis \<Rightarrow> nat" where
  "candidate_prefix_count analysis =
     (let users = concat (map cb_message_indices (filter (\<lambda>b. cb_block_type b = UserBlock \<and>
            cb_structurally_immutable b) (ca_context_blocks analysis)));
          protocols = concat (map cb_message_indices (filter (\<lambda>b. cb_block_type b = Protocol)
            (ca_context_blocks analysis)))
      in if users \<noteq> [] then foldl max (hd users) (tl users) else first_missing protocols 0)"

definition observe :: "int \<Rightarrow> coordinator \<Rightarrow> string \<Rightarrow> cache_analysis \<Rightarrow> provider_route \<Rightarrow> model_usage \<Rightarrow>
    coordinator" where
  "observe now co session_id analysis route usage =
     (let state1 = (session_of co session_id)\<lparr>ss_last_model_id := Some (mu_model_id usage),
                          ss_last_provider := Some (mu_provider usage)\<rparr>;
          cache_observed = (0 < mu_cache_read_tokens usage \<or> 0 < mu_cache_write_tokens usage);
          state2 = (case ca_prefix_hash analysis of
             Some h \<Rightarrow>
               if h \<noteq> [] \<and> rt_cache_supported route \<and> cache_observed then
                 state1\<lparr>ss_record := Some
                   \<lparr>rec_model_id = mu_model_id usage, rec_provider = mu_provider usage,
                    rec_prefix_hash = h, rec_message_count = candidate_prefix_count analysis,
                    rec_prefix_tokens = max (mu_cache_read_tokens usage) (mu_cache_write_tokens usage),
                    rec_expires_at = now + rt_cache_ttl_seconds route * 1000000\<rparr>\<rparr>
               else state1
           | None \<Rightarrow> state1)
      in co\<lparr>co_sessions := dict_set session_id state2 (co_sessions co)\<rparr>)"

section \<open>The order of the route keys\<close>

definition cost_key_ok :: "pyfloat \<times> int \<times> string \<Rightarrow> bool" where
  "cost_key_ok k = (fst k \<noteq> NaN)"

interpretation cost_key: key_order cost_key_less cost_key_ok
  using key_order_tuple [OF key_order_pyfloat
      key_order_tuple [OF key_order_linorder key_order_linorder linorder_eq_iff] feq_iff_not_less]
  by (simp add: cost_key_less_def cost_key_ok_def [abs_def])

lemma cost_key_less_fst: "\<not> cost_key_less k l \<Longrightarrow> cost_key_ok k \<Longrightarrow> cost_key_ok l \<Longrightarrow> fst l \<le> fst k"
  by (auto simp: cost_key_less_def tuple_lt_def cost_key_ok_def feq_iff_not_less pyfloat_not_less
      split: if_split_asm)

end
