(* ===== verification/Cache_Props.thy ===== *)
theory Cache_Props
  imports Cache Samples
begin

text \<open>
  What the cache coordinator guarantees: the accounting of an analysis, which messages are
  protected, that a cache is reused only for the very prefix and provider that reported it,
  that context blocks always pass their own validators, and that the prefix boundary stored
  by \<open>observe\<close> is the one \<open>analyze\<close> offered.
\<close>

section \<open>Indices\<close>

lemma last_index_Some:
  "last_index p ms = Some i \<longleftrightarrow> i < length ms \<and> p (ms ! i) \<and> (\<forall>j. i < j \<longrightarrow> j < length ms \<longrightarrow> \<not> p (ms ! j))"
proof -
  have "find q (rev [0..<n]) = Some i \<longleftrightarrow> i < n \<and> q i \<and> (\<forall>j. i < j \<longrightarrow> j < n \<longrightarrow> \<not> q j)" for q n
    by (induction n) (auto simp: less_Suc_eq)
  then show ?thesis by (simp add: last_index_def)
qed

lemma last_index_None: "last_index p ms = None \<longleftrightarrow> (\<forall>m\<in>set ms. \<not> p m)"
proof -
  have "last_index p ms = None \<longleftrightarrow> (\<forall>i<length ms. \<not> p (ms ! i))"
    by (auto simp: last_index_def find_None_all)
  then show ?thesis by (auto simp: all_set_conv_all_nth)
qed

lemma estimate_tokens_pos: "estimate_tokens v = Inr n \<Longrightarrow> 1 \<le> n"
  by (auto simp: estimate_tokens_def)

lemma estimate_tokens_ok: "json_finite v \<Longrightarrow> \<exists>n. estimate_tokens v = Inr n"
  by (simp add: estimate_tokens_def canonical_json_def)

lemma protected_indices_Inr:
  assumes "protected_indices ms = Inr pr"
  shows "sorted pr" "distinct pr" "\<forall>i\<in>set pr. i < length ms"
    "last_index is_user_message ms = Some i \<Longrightarrow> i \<in> set pr"
    "i < length ms \<Longrightarrow> is_protocol_role (role_of (ms ! i)) \<Longrightarrow> i \<in> set pr"
proof -
  from assms obtain opens where p: "pr = filter (\<lambda>i. last_index is_user_message ms = Some i \<or>
      is_protocol_role (role_of (ms ! i)) \<or> opens ! i) [0..<length ms]"
    by (auto simp: protected_indices_def Let_def)
  show "sorted pr" "distinct pr" "\<forall>i\<in>set pr. i < length ms"
    unfolding p by (auto intro: sorted_wrt_filter)
  show "last_index is_user_message ms = Some i \<Longrightarrow> i \<in> set pr" unfolding p
    using last_index_Some [of is_user_message ms i] by auto
  show "i < length ms \<Longrightarrow> is_protocol_role (role_of (ms ! i)) \<Longrightarrow> i \<in> set pr" unfolding p by auto
qed

lemma protected_open_call:
  assumes "protected_indices ms = Inr pr" "i < length ms"
    and "open_tool_call (map (\<lambda>m. py_str (jget m ''tool_call_id'')) (filter has_tool_call_id ms)) (ms ! i) = Inr True"
  shows "i \<in> set pr"
proof -
  let ?rs = "map (\<lambda>m. py_str (jget m ''tool_call_id'')) (filter has_tool_call_id ms)"
  from assms(1) obtain opens where o: "rmap (open_tool_call ?rs) ms = Inr opens"
    and p: "pr = filter (\<lambda>i. last_index is_user_message ms = Some i \<or>
      is_protocol_role (role_of (ms ! i)) \<or> opens ! i) [0..<length ms]"
    by (auto simp: protected_indices_def Let_def)
  have "open_tool_call ?rs (ms ! i) = Inr (opens ! i)"
    using o assms(2) by (simp add: rmap_Inr list_all2_conv_all_nth)
  with assms(2,3) p show ?thesis by simp
qed

section \<open>The analysis, taken apart\<close>

lemma analyze_Inr:
  assumes "analyze sha256 now co sid messages tools candidates out task ctx = Inr (a, co')"
  obtains mts tts h active pr vs raw where
    "messages \<noteq> []"
    "rmap estimate_tokens messages = Inr mts" "rmap estimate_tokens tools = Inr tts"
    "prefix_hash sha256 messages (proposed_prefix_count messages) tools = Inr h"
    "active_record sha256 messages tools (live_record (session_of co sid) now) = Inr active"
    "protected_indices messages = Inr pr"
    "candidate_values candidates (sum_list mts + sum_list tts) out active = Inr vs"
    "(case ctx of Some bs \<Rightarrow> if bs = [] then build_context_blocks sha256 messages task else Inr bs
       | None \<Rightarrow> build_context_blocks sha256 messages task) = Inr raw"
    "a = assemble_analysis (co_minimum_compactable_tokens co) messages mts tts h (session_of co sid)
       active pr vs raw"
    "co' = expire_session co sid now"
  using assms unfolding analyze_def by (auto split: if_split_asm)

lemmas assembled = assemble_analysis_def Let_def cache_analysis.simps

lemma active_record_Some:
  assumes "active_record sha256 messages tools rec = Inr (Some r)"
  shows "rec = Some r" "rec_message_count r \<le> length messages"
    "prefix_hash sha256 messages (rec_message_count r) tools = Inr (Some (rec_prefix_hash r))"
  using assms by (auto simp: active_record_def split: option.splits if_split_asm)

lemma live_record_Some: "live_record s now = Some r \<longleftrightarrow> ss_record s = Some r \<and> now < rec_expires_at r"
  by (auto simp: live_record_def split: option.splits)

lemma confirmed_count_le:
  "active_record sha256 messages tools rec = Inr active \<Longrightarrow> confirmed_count active \<le> length messages"
  using active_record_Some(2) by (cases active) (auto simp: confirmed_count_def)

lemma compactable_indices_mem:
  "i \<in> set (compactable_indices m ms mts pr) \<longleftrightarrow> i < length ms \<and> i \<notin> set pr \<and> m \<le> mts ! i \<and>
     safe_compactable_message (ms ! i)"
  by (auto simp: compactable_indices_def)

lemma distinct_compactable_indices [simp]: "distinct (compactable_indices m ms mts pr)"
  by (simp add: compactable_indices_def)

lemma sum_list_nth_filter_le:
  assumes "\<forall>x\<in>set xs. (0::int) \<le> x" "distinct is" "\<forall>i\<in>set is. i < length xs"
  shows "indexed_sum xs is \<le> sum_list xs"
proof -
  have "indexed_sum xs is = sum ((!) xs) (set is)"
    using assms(2) by (simp add: indexed_sum_def sum_list_distinct_conv_sum_set)
  also have "\<dots> \<le> sum ((!) xs) {..<length xs}"
    by (rule sum_mono2) (use assms in auto)
  also have "\<dots> = sum_list xs" by (simp add: sum_list_sum_nth atLeast0LessThan)
  finally show ?thesis .
qed

lemma indexed_sum_nonneg: "\<forall>x\<in>set xs. (0::int) \<le> x \<Longrightarrow> \<forall>i\<in>set is. i < length xs \<Longrightarrow> 0 \<le> indexed_sum xs is"
  unfolding indexed_sum_def by (rule sum_list_nonneg_int) auto

definition analysis_wf :: "cache_analysis \<Rightarrow> bool" where
  "analysis_wf a \<longleftrightarrow>
     list_all (\<lambda>t. 1 \<le> t) (ca_message_tokens a) \<and> 0 \<le> ca_tool_tokens a \<and>
     ca_total_tokens a = sum_list (ca_message_tokens a) + ca_tool_tokens a \<and>
     list_all (\<lambda>i. i < length (ca_message_tokens a)) (ca_protected_message_indices a) \<and>
     list_all (\<lambda>i. i < length (ca_message_tokens a)) (ca_cacheable_message_indices a) \<and>
     list_all (\<lambda>i. i < length (ca_message_tokens a)) (ca_compactable_message_indices a) \<and>
     set (ca_protected_message_indices a) \<inter> set (ca_compactable_message_indices a) = {} \<and>
     distinct (ca_compactable_message_indices a) \<and>
     ca_cacheable_message_indices a = [0..<length (ca_cacheable_message_indices a)] \<and>
     ca_compactable_tokens a = indexed_sum (ca_message_tokens a) (ca_compactable_message_indices a) \<and>
     0 \<le> ca_protected_dynamic_tokens a \<and>
     ca_total_tokens a = ca_protected_dynamic_tokens a +
       indexed_sum (ca_message_tokens a) (remdups (ca_cacheable_message_indices a @ ca_compactable_message_indices a)) +
       (if ca_cacheable_message_indices a = [] then 0 else ca_tool_tokens a)"

lemma analyze_wf:
  assumes "analyze sha256 now co sid messages tools candidates out task ctx = Inr (a, co')"
  shows "analysis_wf a \<and> length (ca_message_tokens a) = length messages"
proof -
  obtain mts tts h active pr vs raw where
    m: "rmap estimate_tokens messages = Inr mts" and t: "rmap estimate_tokens tools = Inr tts"
    and act: "active_record sha256 messages tools (live_record (session_of co sid) now) = Inr active"
    and pr: "protected_indices messages = Inr pr"
    and a: "a = assemble_analysis (co_minimum_compactable_tokens co) messages mts tts h
       (session_of co sid) active pr vs raw"
    using assms by (rule analyze_Inr)
  let ?co = "compactable_indices (co_minimum_compactable_tokens co) messages mts pr"
  let ?is = "remdups ([0..<confirmed_count active] @ ?co)"
  have len: "length mts = length messages" using m by (rule rmap_length)
  have pos: "\<forall>x\<in>set mts. 1 \<le> x" "\<forall>x\<in>set tts. 1 \<le> x"
    using m t by (auto dest!: rmap_set estimate_tokens_pos)
  then have nn: "\<forall>x\<in>set mts. 0 \<le> x" "0 \<le> sum_list tts"
    by (force intro: sum_list_nonneg_int)+
  have c: "confirmed_count active \<le> length mts" using confirmed_count_le [OF act] len by simp
  have bounds: "\<forall>i\<in>set ?is. i < length mts" using c len by (auto simp: compactable_indices_mem)
  have "indexed_sum mts ?is \<le> sum_list mts"
    by (rule sum_list_nth_filter_le) (use nn(1) bounds in auto)
  then have tot: "max 0 (sum_list mts + sum_list tts -
      (indexed_sum mts ?is + (if confirmed_count active \<noteq> 0 then sum_list tts else 0))) +
      indexed_sum mts ?is + (if confirmed_count active = 0 then 0 else sum_list tts)
    = sum_list mts + sum_list tts" using nn(2) by auto
  show ?thesis unfolding a analysis_wf_def using pos nn c len tot protected_indices_Inr(3) [OF pr]
    by (auto simp: assembled list_all_iff compactable_indices_mem)
qed

section \<open>Reuse of a provider cache\<close>

lemma candidate_value_Inr:
  assumes "candidate_value c tot out rec = Inr v"
  obtains route where "min_by cost_key_less (value_route_key rec c tot out) (mc_routes c) = Inr route"
    "route \<in> set (mc_routes c)"
    "cv_model_id v = mc_model_id c" "cv_provider v = Some (rt_provider route)"
    "cv_exact_reuse v = exact_route rec c route" "cv_cached_tokens v = cached_on rec c tot route"
    "cv_input_cost_usd v = route_input_cost route tot (cached_on rec c tot route)"
proof -
  from assms obtain route where m: "min_by cost_key_less (value_route_key rec c tot out) (mc_routes c) = Inr route"
    by (auto simp: candidate_value_def)
  with assms min_by_in [OF m] that [OF m] show thesis by (auto simp: candidate_value_def Let_def)
qed

lemma candidate_values_get:
  assumes "candidate_values cs tot out rec = Inr vs" "dict_get (dict_of vs) mid = Some v"
  shows "\<exists>c\<in>set cs. mc_model_id c = mid \<and> candidate_value c tot out rec = Inr v"
proof -
  have "(mid, v) \<in> set (rev vs)" using assms(2) by (simp only: dict_get_of map_of_SomeD)
  then have "(mid, v) \<in> set vs" by simp
  then show ?thesis using assms(1) by (auto simp: candidate_values_def dest!: rmap_set)
qed

lemma cached_on_le: "cached_on rec c tot route \<le> tot \<or> cached_on rec c tot route = 0"
  by (auto simp: cached_on_def split: option.splits)

lemma exact_value_record:
  assumes "analyze sha256 now co sid messages tools candidates out task ctx = Inr (a, co')"
    and "dict_get (ca_values a) mid = Some v" "cv_exact_reuse v"
  shows "\<exists>r. ss_record (session_of co sid) = Some r \<and> now < rec_expires_at r \<and>
    rec_model_id r = mid \<and> cv_provider v = Some (rec_provider r) \<and>
    rec_message_count r \<le> length messages \<and>
    prefix_hash sha256 messages (rec_message_count r) tools = Inr (Some (rec_prefix_hash r)) \<and>
    cv_cached_tokens v = min (ca_total_tokens a) (rec_prefix_tokens r)"
proof -
  obtain mts tts h active pr vs raw where
    act: "active_record sha256 messages tools (live_record (session_of co sid) now) = Inr active"
    and vs: "candidate_values candidates (sum_list mts + sum_list tts) out active = Inr vs"
    and a: "a = assemble_analysis (co_minimum_compactable_tokens co) messages mts tts h
       (session_of co sid) active pr vs raw"
    using assms(1) by (rule analyze_Inr)
  have "dict_get (dict_of vs) mid = Some v" using assms(2) by (simp add: a assembled)
  from candidate_values_get [OF vs this] obtain c where c: "mc_model_id c = mid"
    "candidate_value c (sum_list mts + sum_list tts) out active = Inr v" by blast
  from c(2) obtain route where v: "cv_provider v = Some (rt_provider route)"
    "cv_exact_reuse v = exact_route active c route"
    "cv_cached_tokens v = cached_on active c (sum_list mts + sum_list tts) route"
    by (rule candidate_value_Inr)
  from v(2) assms(3) obtain r where r: "active = Some r" "exact_route active c route"
    by (cases active) (auto simp: exact_route_def)
  note rec = active_record_Some [OF act [unfolded r(1)]]
  have "ss_record (session_of co sid) = Some r \<and> now < rec_expires_at r"
    using rec(1) by (simp add: live_record_Some)
  moreover have "ca_total_tokens a = sum_list mts + sum_list tts" by (simp add: a assembled)
  ultimately show ?thesis using rec(2,3) v r c(1)
    by (auto simp: exact_route_def cached_on_def)
qed

lemma candidate_value_cheapest:
  assumes "candidate_value c tot out rec = Inr v" "route \<in> set (mc_routes c)"
    and "\<forall>r\<in>set (mc_routes c). cost_key_ok (value_route_key rec c tot out r)"
  shows "\<exists>best\<in>set (mc_routes c). cv_provider v = Some (rt_provider best) \<and>
     cv_input_cost_usd v = route_input_cost best tot (cv_cached_tokens v) \<and>
     fst (value_route_key rec c tot out best) \<le> fst (value_route_key rec c tot out route)"
proof -
  obtain best where b: "min_by cost_key_less (value_route_key rec c tot out) (mc_routes c) = Inr best"
    "best \<in> set (mc_routes c)" "cv_provider v = Some (rt_provider best)"
    "cv_cached_tokens v = cached_on rec c tot best"
    "cv_input_cost_usd v = route_input_cost best tot (cached_on rec c tot best)"
    using assms(1) by (rule candidate_value_Inr)
  have "\<not> cost_key_less (value_route_key rec c tot out route) (value_route_key rec c tot out best)"
    using b(1) assms(3,2) by (rule cost_key.min_by_least)
  then have "fst (value_route_key rec c tot out best) \<le> fst (value_route_key rec c tot out route)"
    using assms(2,3) b(2) by (intro cost_key_less_fst) auto
  with b show ?thesis by auto
qed

section \<open>The boundary that observe stores\<close>

lemma build_blocks_from_length:
  "build_blocks_from sha tt lu lt n seen i ms = Inr bs \<Longrightarrow> length bs = length ms"
  by (induction ms arbitrary: seen i bs) (auto simp: Let_def)

lemma context_block_at_Inr:
  assumes "context_block_at sha tt lu lt n i m fp dup = Inr b"
  shows "cb_message_indices b = [i]"
    "cb_block_type b = classify_block (role_of m) m (content_text (jget m ''content''))"
    "cb_structurally_immutable b = (is_protocol_role (role_of m) \<or> lu = Some i)"
    "estimate_tokens m = Inr (cb_tokens b)"
    "cb_block_id b = ''ctx_'' @ take 16 fp @ ''_'' @ show_int dup"
  using assms by (auto simp: context_block_at_def Let_def validate_context_block_def)

lemma build_blocks_from_nth:
  assumes "build_blocks_from sha tt lu lt n seen i ms = Inr bs" "k < length ms"
  shows "\<exists>fp dup. context_block_at sha tt lu lt n (i + k) (ms ! k) fp dup = Inr (bs ! k)"
  using assms
proof (induction ms arbitrary: seen i bs k)
  case (Cons m ms)
  show ?case
  proof (cases k)
    case 0
    then show ?thesis using Cons.prems by (auto simp: Let_def) blast
  next
    case (Suc j)
    then show ?thesis using Cons.prems Cons.IH [of _ "Suc i" _ j] by (auto simp: Let_def)
  qed
qed simp

lemma build_context_blocks_nth:
  assumes "build_context_blocks sha ms task = Inr bs"
  shows "length bs = length ms"
    and "k < length ms \<Longrightarrow> cb_message_indices (bs ! k) = [k] \<and>
      cb_block_type (bs ! k) = classify_block (role_of (ms ! k)) (ms ! k) (content_text (jget (ms ! k) ''content'')) \<and>
      cb_structurally_immutable (bs ! k) =
        (is_protocol_role (role_of (ms ! k)) \<or> last_index is_user_message ms = Some k) \<and>
      estimate_tokens (ms ! k) = Inr (cb_tokens (bs ! k))"
proof -
  note b = assms [unfolded build_context_blocks_def]
  show "length bs = length ms" using build_blocks_from_length [OF b] .
  show "k < length ms \<Longrightarrow> cb_message_indices (bs ! k) = [k] \<and>
      cb_block_type (bs ! k) = classify_block (role_of (ms ! k)) (ms ! k) (content_text (jget (ms ! k) ''content'')) \<and>
      cb_structurally_immutable (bs ! k) =
        (is_protocol_role (role_of (ms ! k)) \<or> last_index is_user_message ms = Some k) \<and>
      estimate_tokens (ms ! k) = Inr (cb_tokens (bs ! k))"
    using build_blocks_from_nth [OF b, of k] context_block_at_Inr by fastforce
qed

lemma classify_UserBlock: "classify_block r m t = UserBlock \<longleftrightarrow> r = ''user''"
  by (auto simp: classify_block_def is_protocol_role_def)

lemma classify_Protocol: "classify_block r m t = Protocol \<longleftrightarrow> is_protocol_role r"
  by (auto simp: classify_block_def)

lemma first_missing_prefix:
  assumes "\<And>i. i \<in> set xs \<longleftrightarrow> i < length ys \<and> p (ys ! i)" "c \<le> length (takeWhile p ys)"
  shows "first_missing xs c = length (takeWhile p ys)"
  using assms(2)
proof (induction "length (takeWhile p ys) - c" arbitrary: c)
  case 0
  then have c: "c = length (takeWhile p ys)" by simp
  have "c \<notin> set xs" using assms(1) [of c] nth_length_takeWhile [of p ys] by (auto simp: c)
  then show ?case using c by (subst first_missing.simps) simp
next
  case (Suc n)
  then have lt: "c < length (takeWhile p ys)" by simp
  then have "p (ys ! c)" by (metis nth_mem set_takeWhileD takeWhile_nth)
  moreover have "c < length ys" using lt length_takeWhile_le [of p ys] by linarith
  ultimately have "c \<in> set xs" using assms(1) by simp
  then show ?case using Suc lt by (subst first_missing.simps) simp
qed

lemma foldl_max_const: "\<forall>x\<in>set xs. x = (k::nat) \<Longrightarrow> foldl max k xs = k"
  by (induction xs) auto

lemma candidate_prefix_count_blocks:
  assumes bs: "build_context_blocks sha ms task = Inr bs"
    and a: "ca_context_blocks a = map (mark_cached cs ct) bs"
  shows "candidate_prefix_count a = proposed_prefix_count ms"
proof -
  define users where "users = concat (map cb_message_indices (filter (\<lambda>b. cb_block_type b = UserBlock \<and>
            cb_structurally_immutable b) (ca_context_blocks a)))"
  define protocols where "protocols = concat (map cb_message_indices (filter (\<lambda>b. cb_block_type b = Protocol)
            (ca_context_blocks a)))"
  note len = build_context_blocks_nth(1) [OF bs] and nth = build_context_blocks_nth(2) [OF bs]
  have mark: "cb_message_indices (mark_cached cs ct b) = cb_message_indices b"
    "cb_block_type (mark_cached cs ct b) = cb_block_type b"
    "cb_structurally_immutable (mark_cached cs ct b) = cb_structurally_immutable b" for b
    by (simp_all add: mark_cached_def Let_def)
  have users: "i \<in> set users \<longleftrightarrow> last_index is_user_message ms = Some i" for i
  proof
    assume "i \<in> set users"
    then obtain b where "b \<in> set bs" "i \<in> set (cb_message_indices b)"
      "cb_block_type b = UserBlock" "cb_structurally_immutable b"
      by (auto simp: users_def a mark)
    then obtain k where k: "k < length ms" "i \<in> set (cb_message_indices (bs ! k))"
      "cb_block_type (bs ! k) = UserBlock" "cb_structurally_immutable (bs ! k)"
      by (metis in_set_conv_nth len)
    from k(1,3) have "role_of (ms ! k) = ''user''" using nth [of k] classify_UserBlock by metis
    with k nth [of k] show "last_index is_user_message ms = Some i"
      by (auto simp: is_protocol_role_def)
  next
    assume l: "last_index is_user_message ms = Some i"
    then have i: "i < length ms" "is_user_message (ms ! i)" by (auto simp: last_index_Some)
    then have "cb_block_type (bs ! i) = UserBlock \<and> cb_structurally_immutable (bs ! i)
      \<and> cb_message_indices (bs ! i) = [i]" using nth [of i] l
      by (simp add: classify_UserBlock is_user_message_def)
    moreover have "bs ! i \<in> set bs" using i len by simp
    ultimately show "i \<in> set users" by (force simp: users_def a mark)
  qed
  have protocols: "i \<in> set protocols \<longleftrightarrow> i < length ms \<and> is_protocol_role (role_of (ms ! i))" for i
  proof
    assume "i \<in> set protocols"
    then obtain b where "b \<in> set bs" "i \<in> set (cb_message_indices b)" "cb_block_type b = Protocol"
      by (auto simp: protocols_def a mark)
    then obtain k where k: "k < length ms" "i \<in> set (cb_message_indices (bs ! k))"
      "cb_block_type (bs ! k) = Protocol"
      by (metis in_set_conv_nth len)
    from k(1,3) have "is_protocol_role (role_of (ms ! k))" using nth [of k] classify_Protocol by metis
    with k nth [of k] show "i < length ms \<and> is_protocol_role (role_of (ms ! i))" by auto
  next
    assume i: "i < length ms \<and> is_protocol_role (role_of (ms ! i))"
    then have "cb_block_type (bs ! i) = Protocol \<and> cb_message_indices (bs ! i) = [i]"
      using nth [of i] by (simp add: classify_Protocol)
    moreover have "bs ! i \<in> set bs" using i len by simp
    ultimately show "i \<in> set protocols" by (force simp: protocols_def a mark)
  qed
  have c: "candidate_prefix_count a =
      (if users \<noteq> [] then foldl max (hd users) (tl users) else first_missing protocols 0)"
    unfolding candidate_prefix_count_def users_def protocols_def Let_def by (rule refl)
  show ?thesis
  proof (cases "last_index is_user_message ms")
    case (Some k)
    then have "set users = {k}" using users by auto
    then have ne: "users \<noteq> []" "hd users = k" "\<forall>x\<in>set (tl users). x = k"
      using hd_in_set [of users] set_ConsD list.set_sel(2) [of users] by force+
    then have "foldl max (hd users) (tl users) = k" by (simp add: foldl_max_const)
    with c ne Some show ?thesis by (simp add: proposed_prefix_count_def)
  next
    case None
    then have "users = []" using users by (metis list.set_intros(1) neq_Nil_conv option.distinct(1))
    moreover have "first_missing protocols 0 = length (takeWhile (\<lambda>m. is_protocol_role (role_of m)) ms)"
      by (rule first_missing_prefix) (use protocols in auto)
    ultimately show ?thesis using c None by (simp add: proposed_prefix_count_def)
  qed
qed

section \<open>Context blocks pass their own validators\<close>

lemma build_blocks_ok:
  assumes "list_all json_finite ms" "i + length ms = n" "\<forall>v\<in>snd ` set seen. 0 \<le> v"
    and step: "\<And>k m fp dup. k < n \<Longrightarrow> json_finite m \<Longrightarrow> 0 \<le> dup \<Longrightarrow>
      \<exists>b. context_block_at sha tt lu lt n k m fp dup = Inr b"
  shows "\<exists>bs. build_blocks_from sha tt lu lt n seen i ms = Inr bs"
  using assms(1-3)
proof (induction ms arbitrary: seen i)
  case (Cons m ms)
  obtain t where t: "canonical_json m = Inr t" using Cons.prems(1) by (auto simp: canonical_json_def)
  let ?fp = "sha (utf8_encode t)"
  define dup where "dup = (case dict_get seen ?fp of None \<Rightarrow> 0 | Some k \<Rightarrow> k)"
  have dup: "0 \<le> dup" using Cons.prems(3)
    by (auto simp: dup_def dest!: map_of_SomeD split: option.split)
  obtain b where b: "context_block_at sha tt lu lt n i m ?fp dup = Inr b"
    using step [of i m dup ?fp] Cons.prems dup by auto
  have "\<forall>v\<in>snd ` set (dict_set ?fp (dup + 1) seen). 0 \<le> v"
    using Cons.prems(3) dup dict_set_subset [of ?fp "dup + 1" seen] by fastforce
  then obtain bs where "build_blocks_from sha tt lu lt n (dict_set ?fp (dup + 1) seen) (Suc i) ms = Inr bs"
    using Cons.IH [of "Suc i" "dict_set ?fp (dup + 1) seen"] Cons.prems by auto
  with t b show ?case by (simp add: Let_def dup_def)
qed simp

lemma fl_of_int_nonneg: "0 \<le> i \<Longrightarrow> Fin 0 \<le> fl_of_int i"
  by (simp add: fl_of_int_def fl_nonneg)

lemma nonneg_cases: "Fin 0 \<le> x \<longleftrightarrow> (\<exists>r. x = Fin r \<and> 0 \<le> r) \<or> x = PInf"
  by (cases x) auto

lemma redundancy_unit: "0 \<le> dup \<Longrightarrow> unit_interval (pmin (Fin 1) (fl_of_int dup * Fin (1 / 2)))"
proof -
  assume "0 \<le> dup"
  then consider r where "fl_of_int dup = Fin r" "0 \<le> r" | "fl_of_int dup = PInf"
    using fl_of_int_nonneg nonneg_cases by blast
  then show ?thesis
  proof cases
    case 1
    then have "Fin 0 \<le> fl_of_int dup * Fin (1 / 2)" by (simp add: fin_arith fl_nonneg)
    then show ?thesis by (cases "fl_of_int dup * Fin (1 / 2)") (auto simp: pmin_def unit_interval_def)
  qed (simp add: times_pyfloat_def pmin_def unit_interval_def finf_def)
qed

lemma overlap_unit:
  assumes "common \<le> n"
  shows "unit_interval (fl (of_nat common / of_int (max 1 (int n))))"
proof -
  have "of_nat common / of_int (max 1 (int n)) \<le> (1::rat)"
    using assms by (simp add: divide_le_eq max_def)
  then obtain r where "fl (of_nat common / of_int (max 1 (int n))) = Fin r" "0 \<le> r" "r \<le> 1"
    using fl_unit [of "of_nat common / of_int (max 1 (int n))"] by (auto simp: max_def)
  then show ?thesis by (simp add: unit_interval_def)
qed

lemma weighted_unit:
  assumes "0 \<le> w" "w \<le> 1" "unit_interval x"
  shows "\<exists>r. fl w * x = Fin r \<and> 0 \<le> r \<and> r \<le> 1"
proof -
  from assms(3) obtain q where q: "x = Fin q" "0 \<le> q" "q \<le> 1" by (rule unit_intervalE)
  obtain u where u: "fl w = Fin u" "0 \<le> u" "u \<le> 1" using fl_unit [OF assms(1,2)] by auto
  have "u * q \<le> 1" using u q mult_mono [of u 1 q 1] by simp
  then show ?thesis using q u fl_unit [of "u * q"] by (simp add: fin_arith)
qed

lemma recency_unit:
  assumes "0 \<le> (age::int)"
  shows "unit_interval (fdiv (Fin 1) (Fin 1 + fl (of_int age / 4)))"
proof -
  have "Fin 0 \<le> fl (of_int age / 4)" using assms by (intro fl_nonneg) simp
  then consider a where "fl (of_int age / 4) = Fin a" "0 \<le> a" | "fl (of_int age / 4) = PInf"
    using nonneg_cases by blast
  then show ?thesis
  proof cases
    case 1
    have d1: "is_double 1" using is_double_of_int [of 1] by simp
    have "1 \<le> rnd (1 + a)" by (rule rnd_ge [OF d1]) (use 1(2) in simp)
    then have "fl (1 + a) = Fin (rnd (1 + a)) \<or> fl (1 + a) = PInf" "0 < rnd (1 + a)"
      by (auto simp: fl_def Let_def)
    moreover have "1 / rnd (1 + a) \<le> 1" "0 \<le> 1 / rnd (1 + a)" using \<open>1 \<le> rnd (1 + a)\<close> by simp_all
    ultimately show ?thesis using fl_unit [of "1 / rnd (1 + a)"] 1(1)
      by (auto simp: fin_arith unit_interval_def)
  qed (simp add: plus_pyfloat_def unit_interval_def)
qed

lemma block_importance_unit:
  assumes "0 \<le> age" "unit_interval overlap"
  shows "unit_interval (block_importance imm lt txt bt age overlap)"
proof -
  obtain c95 where c95: "fl (95 / 100) = Fin c95" "0 \<le> c95" "c95 \<le> 1" using fl_unit [of "95/100"] by auto
  obtain c90 where c90: "fl (9 / 10) = Fin c90" "0 \<le> c90" "c90 \<le> 1" using fl_unit [of "9/10"] by auto
  obtain o1 where o1: "fl (45 / 100) * overlap = Fin o1" "0 \<le> o1" "o1 \<le> 1"
    using weighted_unit [of "45/100"] assms(2) by auto
  obtain r1 where r1: "fl (3 / 10) * fdiv (Fin 1) (Fin 1 + fl (of_int age / 4)) = Fin r1" "0 \<le> r1" "r1 \<le> 1"
    using weighted_unit [of "3/10"] recency_unit [OF assms(1)] by auto
  obtain s1 where s1: "fl (1 / 4 + o1) = Fin s1" "0 \<le> s1" "s1 \<le> 2"
    using fl_within [of "1 / 4 + o1" 2] o1 by auto
  obtain s2 where s2: "fl (s1 + r1) = Fin s2" "0 \<le> s2"
    using fl_within [of "s1 + r1" 3] s1 r1 by auto
  show ?thesis using c95 c90 o1(1) r1(1) s1(1) s2
    by (auto simp: block_importance_def Let_def unit_interval_def fin_arith pmin_def)
qed

lemma validate_context_block_ok:
  "unit_interval (cb_task_overlap b) \<Longrightarrow> unit_interval (cb_redundancy b) \<Longrightarrow>
   cb_cache_invalidation_cost b = Fin 0 \<Longrightarrow> unit_interval (cb_importance b) \<Longrightarrow>
   validate_context_block b = Inr b"
  by (auto simp: validate_context_block_def in_range_Inr at_least_zero_def elim!: unit_intervalE)

lemma context_block_at_ok:
  assumes "k < n" "json_finite m" "0 \<le> dup"
  shows "\<exists>b. context_block_at sha tt lu lt n k m fp dup = Inr b"
proof -
  obtain tk where "estimate_tokens m = Inr tk" using estimate_tokens_ok [OF assms(2)] by blast
  moreover have "0 \<le> int n - int k - 1" using assms(1) by simp
  ultimately show ?thesis unfolding context_block_at_def Let_def
    by - (simp, rule exI, rule validate_context_block_ok,
        simp_all add: block_importance_unit overlap_unit redundancy_unit assms(3))
qed

lemma build_context_blocks_ok:
  assumes "list_all json_finite ms"
  shows "\<exists>bs. build_context_blocks sha ms task = Inr bs"
  unfolding build_context_blocks_def
  by (rule build_blocks_ok) (use assms context_block_at_ok in auto)

lemma build_blocks_from_valid:
  "build_blocks_from sha tt lu lt n seen i ms = Inr bs \<Longrightarrow> b \<in> set bs \<Longrightarrow> validate_context_block b = Inr b"
proof (induction ms arbitrary: seen i bs)
  case (Cons m ms)
  then show ?case
    by (auto simp: Let_def context_block_at_def validate_context_block_def)
qed simp

section \<open>Properties\<close>

definition warm_record :: cache_record where
  "warm_record = \<lparr>rec_model_id = ''small'', rec_provider = ''alpha'', rec_prefix_hash = ''h'',
     rec_message_count = 2, rec_prefix_tokens = 20, rec_expires_at = 1000\<rparr>"

definition warm_coordinator :: coordinator where
  "warm_coordinator = \<lparr>co_minimum_compactable_tokens = 1, co_sessions =
     [(''s'', \<lparr>ss_last_model_id = Some ''small'', ss_last_provider = Some ''alpha'',
               ss_record = Some warm_record\<rparr>)]\<rparr>"

abbreviation sample_analysis :: "(cache_analysis \<times> coordinator) result" where
  "sample_analysis \<equiv> analyze (\<lambda>_. ''h'') 10 warm_coordinator ''s'' conversation [] [small_model] 100 ''fix'' None"

lemma sample_analysis_ok: obtains a co where "sample_analysis = Inr (a, co)"
    "ca_prefix_hash a = Some ''h''" "\<exists>v. dict_get (ca_values a) ''small'' = Some v \<and> cv_exact_reuse v"
proof -
  have m: "rmap estimate_tokens conversation = Inr [10, 14, 9, 12]" by code_simp
  have h: "prefix_hash (\<lambda>_. ''h'') conversation (proposed_prefix_count conversation) [] = Inr (Some ''h'')"
    by code_simp
  have act: "active_record (\<lambda>_. ''h'') conversation []
      (live_record (session_of warm_coordinator ''s'') 10) = Inr (Some warm_record)" by code_simp
  have pr: "protected_indices conversation = Inr [0, 2, 3]" by code_simp
  have "is_ok (candidate_value small_model 45 100 (Some warm_record))" by code_simp
  then obtain v where v: "candidate_value small_model 45 100 (Some warm_record) = Inr v"
    by (auto simp: is_ok_iff)
  have "rbind (candidate_value small_model 45 100 (Some warm_record)) (\<lambda>v. Inr (cv_exact_reuse v)) = Inr True"
    by code_simp
  then have ex: "cv_exact_reuse v" by (simp add: v)
  have "mc_model_id small_model = ''small''" by (simp add: small_model_def sample_candidate_def)
  then have vs: "candidate_values [small_model] 45 100 (Some warm_record) = Inr [(''small'', v)]"
    by (simp add: candidate_values_def v)
  have "is_ok (build_context_blocks (\<lambda>_. ''h'') conversation ''fix'')" by code_simp
  then obtain raw where raw: "build_context_blocks (\<lambda>_. ''h'') conversation ''fix'' = Inr raw"
    by (auto simp: is_ok_iff)
  have ne: "conversation \<noteq> []" by (simp add: conversation_def)
  let ?a = "assemble_analysis 1 conversation [10, 14, 9, 12] [] (Some ''h'')
      (session_of warm_coordinator ''s'') (Some warm_record) [0, 2, 3] [(''small'', v)] raw"
  have "sample_analysis = Inr (?a, expire_session warm_coordinator ''s'' 10)"
    by (simp add: analyze_def m h act pr vs raw ne warm_coordinator_def [THEN arg_cong, of co_minimum_compactable_tokens])
  moreover have "ca_prefix_hash ?a = Some ''h''" by (simp add: assembled)
  moreover have "dict_get (ca_values ?a) ''small'' = Some v" by (simp add: assembled dict_of_def)
  ultimately show thesis using ex that by blast
qed

text \<open>
  The analysis of a conversation accounts for every token: the total is the sum
  of the per-message estimates and the tool definitions, and it splits exactly into the
  confirmed prefix and the compactable messages (each message once), the tools when the prefix
  is confirmed, and the protected dynamic remainder. Index lists stay inside the conversation,
  and compactable and protected messages are disjoint.
\<close>

lemma analysis_accounting:
  assumes "analyze sha256 now co sid messages tools candidates out task ctx = Inr (a, co')"
  shows "analysis_wf a \<and> length (ca_message_tokens a) = length messages"
  using assms by (rule analyze_wf)

text \<open>
  Property C29. The latest user message, every system or developer message and every message
  with an unanswered tool call are protected, and a message that analysis offers for compaction
  is none of these: it is a non-blank assistant or tool text of at least the minimum size.
\<close>

theorem analysis_protects:
  assumes "analyze sha256 now co sid messages tools candidates out task ctx = Inr (a, co')"
    and "i < length messages"
  shows "(last_index is_user_message messages = Some i \<or> is_protocol_role (role_of (messages ! i)) \<or>
      open_tool_call (map (\<lambda>m. py_str (jget m ''tool_call_id'')) (filter has_tool_call_id messages))
        (messages ! i) = Inr True \<longrightarrow>
        i \<in> set (ca_protected_message_indices a) \<and> i \<notin> set (ca_compactable_message_indices a)) \<and>
    (i \<in> set (ca_compactable_message_indices a) \<longrightarrow>
       safe_compactable_message (messages ! i) \<and>
       co_minimum_compactable_tokens co \<le> ca_message_tokens a ! i)"
proof -
  obtain mts tts h active pr vs raw where pr: "protected_indices messages = Inr pr"
    and a: "a = assemble_analysis (co_minimum_compactable_tokens co) messages mts tts h
       (session_of co sid) active pr vs raw"
    using assms(1) by (rule analyze_Inr)
  have "ca_protected_message_indices a = pr" "ca_message_tokens a = mts"
    "ca_compactable_message_indices a = compactable_indices (co_minimum_compactable_tokens co) messages mts pr"
    by (simp_all add: a assembled)
  then show ?thesis
    using protected_indices_Inr(4,5) [OF pr, of i] protected_open_call [OF pr assms(2)] assms(2)
    by (auto simp: compactable_indices_mem)
qed

theorem analysis_protects_witness:
  "\<exists>a co'. sample_analysis = Inr (a, co') \<and> 2 \<in> set (ca_protected_message_indices a)"
proof -
  obtain a co where s: "sample_analysis = Inr (a, co)" by (rule sample_analysis_ok)
  have "last_index is_user_message conversation = Some 2" "2 < length conversation" by code_simp+
  with s analysis_protects [OF s, of 2] show ?thesis by auto
qed

text \<open>
  A cached prefix is reported for a candidate only when the session holds an
  unexpired record of that model and of the provider of the chosen route, the first messages
  of this conversation and its tools still hash to the recorded value, and no more tokens are
  claimed than the provider reported.
\<close>

lemma exact_reuse_sound:
  assumes "analyze sha256 now co sid messages tools candidates out task ctx = Inr (a, co')"
    and "dict_get (ca_values a) mid = Some v" "cv_exact_reuse v"
  shows "\<exists>r. ss_record (session_of co sid) = Some r \<and> now < rec_expires_at r \<and>
    rec_model_id r = mid \<and> cv_provider v = Some (rec_provider r) \<and>
    rec_message_count r \<le> length messages \<and>
    prefix_hash sha256 messages (rec_message_count r) tools = Inr (Some (rec_prefix_hash r)) \<and>
    cv_cached_tokens v = min (ca_total_tokens a) (rec_prefix_tokens r)"
  using assms by (rule exact_value_record)

text \<open>
  The route behind a candidate's cache value costs no more, for input at the
  cached rates plus predicted output, than any other route of the candidate.
\<close>

lemma cache_value_cheapest:
  assumes "candidate_value c tot out rec = Inr v" "route \<in> set (mc_routes c)"
    and "\<forall>r\<in>set (mc_routes c). fst (value_route_key rec c tot out r) \<noteq> NaN"
  shows "\<exists>best\<in>set (mc_routes c). cv_provider v = Some (rt_provider best) \<and>
     cv_input_cost_usd v = route_input_cost best tot (cv_cached_tokens v) \<and>
     fst (value_route_key rec c tot out best) \<le> fst (value_route_key rec c tot out route)"
  by (rule candidate_value_cheapest [OF assms(1,2)]) (use assms(3) in \<open>simp add: cost_key_ok_def\<close>)

lemma analyze_prefix:
  assumes "analyze sha256 now co sid messages tools candidates out task None = Inr (a, co')"
  shows "candidate_prefix_count a = proposed_prefix_count messages"
    "prefix_hash sha256 messages (proposed_prefix_count messages) tools = Inr (ca_prefix_hash a)"
proof -
  obtain mts tts h active pr vs raw where
    h: "prefix_hash sha256 messages (proposed_prefix_count messages) tools = Inr h" and
    raw: "build_context_blocks sha256 messages task = Inr raw" and
    a: "a = assemble_analysis (co_minimum_compactable_tokens co) messages mts tts h
       (session_of co sid) active pr vs raw"
    using assms by (rule analyze_Inr) simp
  show "prefix_hash sha256 messages (proposed_prefix_count messages) tools = Inr (ca_prefix_hash a)"
    using h by (simp add: a assembled)
  show "candidate_prefix_count a = proposed_prefix_count messages"
    by (rule candidate_prefix_count_blocks [OF raw]) (simp only: a assembled)
qed

lemma session_of_observe: "session_of (observe now co sid a route usage) sid' =
   (if sid' = sid then ss_record_update (\<lambda>old. case ca_prefix_hash a of None \<Rightarrow> old | Some h \<Rightarrow>
        if h \<noteq> [] \<and> rt_cache_supported route \<and> (0 < mu_cache_read_tokens usage \<or> 0 < mu_cache_write_tokens usage)
        then Some \<lparr>rec_model_id = mu_model_id usage, rec_provider = mu_provider usage,
                    rec_prefix_hash = h, rec_message_count = candidate_prefix_count a,
                    rec_prefix_tokens = max (mu_cache_read_tokens usage) (mu_cache_write_tokens usage),
                    rec_expires_at = now + rt_cache_ttl_seconds route * 1000000\<rparr>
        else old)
      ((session_of co sid)\<lparr>ss_last_model_id := Some (mu_model_id usage),
                          ss_last_provider := Some (mu_provider usage)\<rparr>)
    else session_of co sid')"
  by (auto simp: observe_def session_of_def Let_def dict_get_set split: option.splits)


definition warm_usage :: model_usage where
  "warm_usage = \<lparr>mu_input_tokens = 45, mu_output_tokens = 10, mu_latency_ms = 300,
     mu_provider = ''alpha'', mu_model_id = ''small'', mu_cache_read_tokens = 0,
     mu_cache_write_tokens = 24, mu_cost_usd = None\<rparr>"


text \<open>
  A settled call touches only its own session, and without evidence of provider
  cache activity (or on a route without a cache) it leaves the stored record as it was: the
  program never promotes its own estimate to a cache hit.
\<close>

lemma observe_frame:
  "(sid' \<noteq> sid \<longrightarrow> session_of (observe now co sid a route usage) sid' = session_of co sid') \<and>
   (\<not> (rt_cache_supported route \<and> (0 < mu_cache_read_tokens usage \<or> 0 < mu_cache_write_tokens usage)) \<longrightarrow>
     ss_record (session_of (observe now co sid a route usage) sid) = ss_record (session_of co sid)) \<and>
   ss_last_model_id (session_of (observe now co sid a route usage) sid) = Some (mu_model_id usage)"
  by (auto simp: session_of_observe split: option.split)

text \<open>
  Building the context blocks never fails on messages that serialise: one block
  per message, in order, every score inside the interval its validator demands, whatever the
  text of the message, the length of the conversation and the number of duplicates.
\<close>

lemma context_blocks_valid:
  assumes "list_all json_finite ms"
  shows "\<exists>bs. build_context_blocks sha ms task = Inr bs \<and> length bs = length ms \<and>
    (\<forall>k<length ms. validate_context_block (bs ! k) = Inr (bs ! k) \<and> cb_message_indices (bs ! k) = [k])"
proof -
  obtain bs where bs: "build_context_blocks sha ms task = Inr bs"
    using build_context_blocks_ok [OF assms] by blast
  then show ?thesis using build_context_blocks_nth [OF bs]
      build_blocks_from_valid [OF bs [unfolded build_context_blocks_def]] by auto
qed

end
