(* ===== verification/Routing.thy ===== *)
theory Routing
  imports Cache
begin

text \<open>
  Model selection and provider deadlines (\<^verbatim>\<open>src/promptrail/routing.py\<close>): the supplied
  LeRouter scores, the filtering and scoring of the candidates around them, and the plan that
  turns a call's latency budget into a provider window. A ranker is a function from intent,
  candidates and timeout to a dictionary of scores or an error.
\<close>

section \<open>Scores\<close>

type_synonym scores = "(string, pyfloat) dict"
type_synonym ranker = "call_intent \<Rightarrow> model_candidate list \<Rightarrow> int \<Rightarrow> scores result"

definition supplied_rank :: ranker where
  "supplied_rank intent candidates timeout_ms =
     (let missing = map mc_model_id (filter (\<lambda>c. mc_router_score c = None) candidates)
      in if missing \<noteq> [] then
           Inl (RoutingError (''LeRouter scores are required for every candidate: '' @ join '', '' missing))
         else Inr (dict_of (map (\<lambda>c. (mc_model_id c, the (mc_router_score c))) candidates)))"

definition rank_candidates :: "ranker \<Rightarrow> call_intent \<Rightarrow> model_candidate list \<Rightarrow> int \<Rightarrow> scores result" where
  "rank_candidates ranker intent candidates timeout_ms = ranker intent candidates timeout_ms"

section \<open>Costs of a route\<close>

text \<open>\<open>message_tokens[index]\<close> raises when the index is out of range.\<close>

definition token_at :: "cache_analysis \<Rightarrow> nat \<Rightarrow> int result" where
  "token_at cache i = (if i < length (ca_message_tokens cache) then Inr (ca_message_tokens cache ! i)
                       else Inl IndexError)"

definition noncached_capacity :: "cache_analysis \<Rightarrow> int result" where
  "noncached_capacity cache =
     rbind (rmap (\<lambda>i. rbind (token_at cache i) (\<lambda>t. Inr (max 0 (t - 32))))
              (filter (\<lambda>i. i \<notin> set (ca_cacheable_message_indices cache))
                 (ca_compactable_message_indices cache)))
       (\<lambda>caps. Inr (sum_list caps))"

definition required_reduction :: "cache_analysis \<Rightarrow> int \<Rightarrow> int" where
  "required_reduction cache required_context_tokens = max 0 (ca_total_tokens cache - required_context_tokens)"

definition cached_rate :: "provider_route \<Rightarrow> int \<Rightarrow> pyfloat" where
  "cached_rate route cached_tokens =
     (case rt_cache_read_price_per_million route of
        Some p \<Rightarrow> if cached_tokens \<noteq> 0 then p else rt_input_price_per_million route
      | None \<Rightarrow> rt_input_price_per_million route)"

definition input_price :: "provider_route \<Rightarrow> int \<Rightarrow> int \<Rightarrow> pyfloat" where
  "input_price route required_context_tokens cached_tokens =
     per_million (fl_of_int cached_tokens * cached_rate route cached_tokens
       + fl_of_int (required_context_tokens - cached_tokens) * rt_input_price_per_million route)"

definition output_price :: "provider_route \<Rightarrow> int \<Rightarrow> pyfloat" where
  "output_price route predicted_output_tokens =
     per_million (fl_of_int predicted_output_tokens * rt_output_price_per_million route)"

definition required_input_cost :: "provider_route \<Rightarrow> int \<Rightarrow> cache_analysis \<Rightarrow> cache_value \<Rightarrow> pyfloat result" where
  "required_input_cost route required_context_tokens cache value =
     rbind (noncached_capacity cache) (\<lambda>capacity.
       let exact = (cv_exact_reuse value \<and> cv_provider value = Some (rt_provider route)
                      \<and> rt_cache_supported route);
           cache_preserved = (required_reduction cache required_context_tokens \<le> capacity);
           cached_tokens = (if exact \<and> cache_preserved
                            then min required_context_tokens (cv_cached_tokens value) else 0)
       in Inr (input_price route required_context_tokens cached_tokens))"

definition route_for_value :: "model_candidate \<Rightarrow> cache_value \<Rightarrow> provider_route result" where
  "route_for_value candidate value =
     (case find (\<lambda>r. Some (rt_provider r) = cv_provider value) (mc_routes candidate) of
        Some r \<Rightarrow> Inr r
      | None \<Rightarrow> Inl (RoutingError (''cache manager selected unavailable provider '' @
          (case cv_provider value of Some p \<Rightarrow> str_repr p | None \<Rightarrow> ''None'') @ '' for '' @
          mc_model_id candidate)))"

section \<open>Policy floors and timeouts\<close>

definition rule_matches :: "string \<Rightarrow> task_rule \<Rightarrow> bool" where
  "rule_matches normalized rule = list_ex (\<lambda>term. contains term normalized) (tr_match_terms rule)"

definition minimum_quality :: "string \<Rightarrow> operating_policy \<Rightarrow> pyfloat" where
  "minimum_quality task policy =
     (let normalized = casefold task;
          matched = concat (map (\<lambda>rule. case tr_minimum_quality rule of
            Some q \<Rightarrow> if rule_matches normalized rule then [q] else []
          | None \<Rightarrow> []) (pol_task_rules policy))
      in foldl pmax (pol_minimum_quality policy) matched)"

definition hard_cost :: "operating_policy \<Rightarrow> bool" where
  "hard_cost policy = (pol_hard_call_cost_limit_usd policy \<noteq> None \<or> pol_hard_agent_cost_limit_usd policy \<noteq> None)"

definition hard_latency :: "operating_policy \<Rightarrow> bool" where
  "hard_latency policy = (pol_hard_call_latency_limit_ms policy \<noteq> None \<or> pol_hard_agent_latency_limit_ms policy \<noteq> None)"

definition routing_timeout_ms :: "model_candidate list \<Rightarrow> call_budget \<Rightarrow> operating_policy \<Rightarrow> int \<Rightarrow> int result" where
  "routing_timeout_ms candidates budget policy preparation_elapsed_ms =
     (if \<not> hard_latency policy then Inr (max 1 (bud_latency_ms budget))
      else rbind (min_by (<) id (concat (map (\<lambda>c. map rt_p95_total_latency_ms (mc_routes c)) candidates)))
        (\<lambda>fastest_provider_ms.
           let observed = max preparation_elapsed_ms (pol_controller_reserve_ms policy);
               available = bud_latency_ms budget - observed - pol_compaction_reserve_ms policy
                             - pol_latency_safety_margin_ms policy - fastest_provider_ms
           in if available \<le> 0
              then Inl (RoutingError ''call latency budget leaves no time for LeRouter model selection'')
              else Inr available))"

section \<open>Selection\<close>

definition epsilon :: pyfloat where
  "epsilon = fl (1 / 1000000000000)"

definition predicted_latency :: "provider_route \<Rightarrow> operating_policy \<Rightarrow> int" where
  "predicted_latency route policy = rt_p95_total_latency_ms route + pol_controller_reserve_ms policy
     + pol_compaction_reserve_ms policy + pol_latency_safety_margin_ms policy"

definition exceeds_cost :: "pyfloat \<Rightarrow> pyfloat \<Rightarrow> pyfloat \<Rightarrow> call_budget \<Rightarrow> bool" where
  "exceeds_cost input_cost output_cost cost budget \<longleftrightarrow>
     bud_input_cost_usd budget + epsilon < input_cost \<or>
     bud_output_cost_usd budget + epsilon < output_cost \<or>
     bud_cost_usd budget + epsilon < cost"

text \<open>\<open>int / int\<close> is correctly rounded.\<close>

definition int_div :: "int \<Rightarrow> int \<Rightarrow> pyfloat" where
  "int_div a b = fl (of_int a / of_int b)"

definition decision_score :: "operating_policy \<Rightarrow> call_budget \<Rightarrow> pyfloat \<Rightarrow> pyfloat \<Rightarrow> int \<Rightarrow> cache_value \<Rightarrow> pyfloat" where
  "decision_score policy budget base_score cost latency value =
     (let floor = pmax (bud_cost_usd budget) epsilon;
          cost_ratio = fdiv cost floor;
          latency_ratio = int_div latency (max (bud_latency_ms budget) 1);
          cache_ratio = fdiv (cv_retained_value_usd value) floor;
          switch_ratio = fdiv (cv_switch_cost_usd value) floor
      in pol_quality_priority policy * base_score - pol_cost_priority policy * cost_ratio
           - pol_latency_priority policy * latency_ratio + pol_cache_priority policy * cache_ratio
           - pol_cache_priority policy * switch_ratio)"

definition decision_reasons :: "pyfloat \<Rightarrow> pyfloat \<Rightarrow> int \<Rightarrow> cache_value \<Rightarrow> string list" where
  "decision_reasons base_score cost latency value =
     [''base_router_score='' @ fixed_repr 6 base_score,
      ''predicted_cost_usd='' @ fixed_repr 8 cost,
      ''predicted_latency_ms='' @ show_int latency] @
     (if cv_exact_reuse value then
        [''preserves '' @ show_int (cv_cached_tokens value) @ '' cached tokens on '' @
         (case cv_provider value of Some p \<Rightarrow> p | None \<Rightarrow> ''None'')]
      else if Fin 0 < cv_switch_cost_usd value then
        [''cache_switch_cost_usd='' @ fixed_repr 8 (cv_switch_cost_usd value)]
      else [])"

definition route_costs :: "model_candidate \<Rightarrow> int \<Rightarrow> int \<Rightarrow> cache_analysis \<Rightarrow> cache_value \<Rightarrow>
    (pyfloat \<times> provider_route) list result" where
  "route_costs candidate required_context_tokens out cache value =
     rmap (\<lambda>route. rbind (required_input_cost route required_context_tokens cache value)
             (\<lambda>c. Inr (c + output_price route out, route))) (mc_routes candidate)"

definition cost_route_key :: "pyfloat \<times> provider_route \<Rightarrow> pyfloat \<times> int \<times> string" where
  "cost_route_key item = (fst item, rt_p95_total_latency_ms (snd item), rt_route_id (snd item))"

text \<open>
  One turn of the loop over the candidates: a rejection reason, a decision, or an exception
  that ends the loop.
\<close>

datatype outcome = Rejected string | Decided model_decision

definition reject :: "model_candidate \<Rightarrow> string \<Rightarrow> outcome result" where
  "reject candidate why = Inr (Rejected (mc_model_id candidate @ '': '' @ why))"

definition decide :: "int \<Rightarrow> cache_analysis \<Rightarrow> call_budget \<Rightarrow> operating_policy \<Rightarrow> scores \<Rightarrow>
    model_candidate \<Rightarrow> cache_value \<Rightarrow> outcome result" where
  "decide out cache budget policy router_scores candidate value =
     rbind (route_costs candidate (bud_required_context_tokens budget) out cache value) (\<lambda>costs.
     rbind (min_by cost_key_less cost_route_key costs) (\<lambda>(predicted_cost, route).
     rbind (required_input_cost route (bud_required_context_tokens budget) cache value) (\<lambda>input_cost.
       let output_cost = predicted_cost - input_cost;
           latency = predicted_latency route policy
       in if hard_cost policy \<and> exceeds_cost input_cost output_cost predicted_cost budget
          then reject candidate ''predicted cost exceeds call budget''
          else if hard_latency policy \<and> bud_latency_ms budget < latency
          then reject candidate ''predicted latency exceeds call budget''
          else (case dict_get router_scores (mc_model_id candidate) of
              None \<Rightarrow> Inl (KeyError (mc_model_id candidate))
            | Some base_score \<Rightarrow>
                if \<not> isfinite base_score then
                  Inl (RoutingError (''LeRouter returned a non-finite score for '' @ mc_model_id candidate))
                else Inr (Decided
                  \<lparr>md_candidate = candidate, md_route = route,
                   md_score = decision_score policy budget base_score predicted_cost latency value,
                   md_base_router_score = base_score, md_predicted_cost_usd = predicted_cost,
                   md_predicted_input_cost_usd = input_cost, md_predicted_output_tokens = out,
                   md_predicted_latency_ms = latency, md_cache_value = value,
                   md_reasons = decision_reasons base_score predicted_cost latency value\<rparr>)))))"

definition evaluate_candidate :: "pyfloat \<Rightarrow> string set \<Rightarrow> int \<Rightarrow> cache_analysis \<Rightarrow> call_budget \<Rightarrow>
    operating_policy \<Rightarrow> scores \<Rightarrow> model_candidate \<Rightarrow> outcome result" where
  "evaluate_candidate quality_floor required out cache budget policy router_scores candidate =
     (if mc_quality candidate < quality_floor then reject candidate ''quality below policy minimum''
      else if \<not> required \<subseteq> mc_capabilities candidate then reject candidate ''required capabilities missing''
      else if mc_context_window_tokens candidate < bud_required_context_tokens budget + out
      then reject candidate ''context window exceeded''
      else (case dict_get (ca_values cache) (mc_model_id candidate) of
          None \<Rightarrow> reject candidate ''cache economics unavailable''
        | Some value \<Rightarrow> decide out cache budget policy router_scores candidate value))"

fun decisions_of :: "outcome list \<Rightarrow> model_decision list" where
  "decisions_of [] = []"
| "decisions_of (Decided d # os) = d # decisions_of os"
| "decisions_of (Rejected r # os) = decisions_of os"

fun rejections_of :: "outcome list \<Rightarrow> string list" where
  "rejections_of [] = []"
| "rejections_of (Decided d # os) = rejections_of os"
| "rejections_of (Rejected r # os) = r # rejections_of os"

text \<open>The key \<open>(score, base score, - cost, model id)\<close>, sorted in reverse.\<close>

definition score_key_less :: "pyfloat \<times> pyfloat \<times> pyfloat \<times> string \<Rightarrow> pyfloat \<times> pyfloat \<times> pyfloat \<times> string \<Rightarrow> bool" where
  "score_key_less = tuple_lt feq (<) (tuple_lt feq (<) (tuple_lt feq (<) (<)))"

definition score_key :: "model_decision \<Rightarrow> pyfloat \<times> pyfloat \<times> pyfloat \<times> string" where
  "score_key d = (md_score d, md_base_router_score d, - md_predicted_cost_usd d, mc_model_id (md_candidate d))"

definition select_ranked :: "ranker \<Rightarrow> call_intent \<Rightarrow> model_candidate list \<Rightarrow> cache_analysis \<Rightarrow> call_budget \<Rightarrow>
    operating_policy \<Rightarrow> int \<Rightarrow> scores option \<Rightarrow> model_decision list result" where
  "select_ranked ranker intent candidates cache budget policy preparation_elapsed_ms router_scores =
     (if candidates = [] then Inl (RoutingError ''LeRouter received no model candidates'')
      else if preparation_elapsed_ms < 0
      then Inl (ValueError ''preparation_elapsed_ms cannot be negative'')
      else
      rbind (routing_timeout_ms candidates budget policy preparation_elapsed_ms) (\<lambda>timeout_ms.
      rbind (case ci_predicted_output_tokens intent of
               None \<Rightarrow> Inl (RoutingError ''output prediction must complete before model selection'')
             | Some out \<Rightarrow> Inr out) (\<lambda>out.
      rbind (case router_scores of Some s \<Rightarrow> Inr s | None \<Rightarrow> ranker intent candidates timeout_ms) (\<lambda>scores.
      if set (map fst scores) \<noteq> set (map mc_model_id candidates)
      then Inl (RoutingError ''LeRouter returned an incomplete or foreign candidate score set'')
      else
      rbind (rmap (evaluate_candidate (minimum_quality (ci_task intent) policy)
                     (ci_required_capabilities intent) out cache budget policy scores) candidates) (\<lambda>outcomes.
      if decisions_of outcomes = []
      then Inl (RoutingError (''no model satisfies the call budget and capabilities: '' @
                  join ''; '' (take 8 (rejections_of outcomes))))
      else Inr (sort_by (rev_lt score_key_less) score_key (decisions_of outcomes)))))))"

definition select :: "ranker \<Rightarrow> call_intent \<Rightarrow> model_candidate list \<Rightarrow> cache_analysis \<Rightarrow> call_budget \<Rightarrow>
    operating_policy \<Rightarrow> int \<Rightarrow> scores option \<Rightarrow> model_decision result" where
  "select ranker intent candidates cache budget policy preparation_elapsed_ms router_scores =
     rbind (select_ranked ranker intent candidates cache budget policy preparation_elapsed_ms router_scores)
       (\<lambda>ds. Inr (hd ds))"

section \<open>Provider deadlines\<close>

definition execution_budget :: "call_budget \<Rightarrow> operating_policy \<Rightarrow> int \<Rightarrow> int \<Rightarrow> int result" where
  "execution_budget budget policy preparation_elapsed_ms minimum_provider_ms =
     (if preparation_elapsed_ms < 0 then Inl (ValueError ''preparation_elapsed_ms cannot be negative'')
      else if \<not> hard_latency policy then Inr (max (bud_latency_ms budget) minimum_provider_ms)
      else let observed = max preparation_elapsed_ms
                 (pol_controller_reserve_ms policy + pol_compaction_reserve_ms policy);
               available = bud_latency_ms budget - observed - pol_latency_safety_margin_ms policy
           in if available \<le> 0
              then Inl (RoutingError ''call latency budget was consumed before provider execution'')
              else Inr available)"

definition route_cost :: "provider_route \<Rightarrow> model_decision \<Rightarrow> cache_analysis \<Rightarrow> call_budget \<Rightarrow> pyfloat result" where
  "route_cost route decision cache budget =
     rbind (noncached_capacity cache) (\<lambda>capacity.
       let value = md_cache_value decision;
           exact = (cv_exact_reuse value \<and> Some (rt_provider route) = cv_provider value \<and>
                      rt_cache_supported route \<and>
                      required_reduction cache (bud_required_context_tokens budget) \<le> capacity);
           cached_tokens = (if exact then min (bud_required_context_tokens budget) (cv_cached_tokens value) else 0)
       in Inr (input_price route (bud_required_context_tokens budget) cached_tokens
                 + output_price route (md_predicted_output_tokens decision)))"

definition latency_key_less :: "int \<times> int \<times> string \<Rightarrow> int \<times> int \<times> string \<Rightarrow> bool" where
  "latency_key_less = tuple_lt (=) (<) (tuple_lt (=) (<) (<))"

definition guaranteed_key :: "provider_route \<Rightarrow> int \<times> int \<times> string" where
  "guaranteed_key r = (rt_p95_total_latency_ms r, rt_p95_ttft_ms r, rt_route_id r)"

definition p95_key_less :: "int \<times> string \<Rightarrow> int \<times> string \<Rightarrow> bool" where
  "p95_key_less = tuple_lt (=) (<) (<)"

definition p95_key :: "provider_route \<Rightarrow> int \<times> string" where
  "p95_key r = (rt_p95_total_latency_ms r, rt_route_id r)"

definition guaranteed_pool :: "provider_route list \<Rightarrow> provider_route list" where
  "guaranteed_pool routes = (let g = filter rt_guaranteed routes in if g = [] then routes else g)"

definition cheapest_route :: "provider_route list \<Rightarrow> model_decision \<Rightarrow> cache_analysis \<Rightarrow> call_budget \<Rightarrow> provider_route result" where
  "cheapest_route routes decision cache budget =
     rbind (rmap (\<lambda>r. rbind (route_cost r decision cache budget) (\<lambda>c. Inr (c, r))) routes) (\<lambda>costs.
     rbind (min_by cost_key_less cost_route_key costs) (\<lambda>item. Inr (snd item)))"

definition deadline_order :: "provider_route list \<Rightarrow> provider_route \<Rightarrow> provider_route \<Rightarrow> provider_route list" where
  "deadline_order routes cheapest guaranteed =
     cheapest # filter (\<lambda>r. rt_route_id r \<notin> {rt_route_id cheapest, rt_route_id guaranteed})
                  (sort_by p95_key_less p95_key routes) @ [guaranteed]"

definition window_plan :: "model_decision \<Rightarrow> call_budget \<Rightarrow> operating_policy \<Rightarrow> provider_route \<Rightarrow> provider_route \<Rightarrow>
    int \<Rightarrow> provider_routing_plan result" where
  "window_plan decision budget policy cheapest guaranteed execution =
     (let slack = max 0 (execution - rt_p95_total_latency_ms guaranteed)
      in rbind (py_floor (fl_of_int slack * pol_provider_exploration_fraction policy)) (\<lambda>explore.
         let start_within_ms = min (pol_maximum_provider_exploration_ms policy) explore;
             same = (rt_route_id cheapest = rt_route_id guaranteed)
         in if same \<or> start_within_ms \<le> 0 then
              Inr \<lparr>pp_mode = DIRECT, pp_model_id = mc_model_id (md_candidate decision),
                   pp_routes = [guaranteed], pp_start_within_ms = 0, pp_total_timeout_ms = execution,
                   pp_latency_budget_ms = bud_latency_ms budget,
                   pp_reason = (if same then ''cheapest provider is already the guaranteed route''
                                else ''call latency budget has no safe provider-exploration slack'')\<rparr>
            else
              Inr \<lparr>pp_mode = DEADLINE, pp_model_id = mc_model_id (md_candidate decision),
                   pp_routes = deadline_order (mc_routes (md_candidate decision)) cheapest guaranteed,
                   pp_start_within_ms = start_within_ms, pp_total_timeout_ms = execution,
                   pp_latency_budget_ms = bud_latency_ms budget,
                   pp_reason = ''allocated '' @ show_int start_within_ms @ ''ms of '' @
                     show_int (bud_latency_ms budget) @ ''ms to the cheapest provider before escalating to '' @
                     rt_provider guaranteed\<rparr>))"

definition explore_plan :: "model_decision \<Rightarrow> cache_analysis \<Rightarrow> call_budget \<Rightarrow> operating_policy \<Rightarrow> int \<Rightarrow>
    provider_routing_plan result" where
  "explore_plan decision cache budget policy preparation_elapsed_ms =
     (let routes = mc_routes (md_candidate decision)
      in rbind (cheapest_route routes decision cache budget) (\<lambda>cheapest.
         rbind (min_by latency_key_less guaranteed_key (guaranteed_pool routes)) (\<lambda>guaranteed.
         rbind (execution_budget budget policy preparation_elapsed_ms (rt_p95_total_latency_ms guaranteed)) (\<lambda>execution.
         window_plan decision budget policy cheapest guaranteed execution))))"

definition sticky_route :: "model_decision \<Rightarrow> cache_analysis \<Rightarrow> provider_route option" where
  "sticky_route decision cache =
     (case ca_last_provider cache of
        Some p \<Rightarrow> if ca_last_model_id cache = Some (mc_model_id (md_candidate decision))
                  then find (\<lambda>r. rt_provider r = p) (mc_routes (md_candidate decision)) else None
      | None \<Rightarrow> None)"

definition plan_provider :: "model_decision \<Rightarrow> cache_analysis \<Rightarrow> call_budget \<Rightarrow> operating_policy \<Rightarrow> int \<Rightarrow>
    provider_routing_plan result" where
  "plan_provider decision cache budget policy preparation_elapsed_ms =
     (if mc_routes (md_candidate decision) = [] then Inl (RoutingError ''selected model has no provider routes'')
      else case sticky_route decision cache of
        Some route \<Rightarrow>
          rbind (execution_budget budget policy preparation_elapsed_ms (rt_p95_total_latency_ms route)) (\<lambda>execution.
            Inr \<lparr>pp_mode = STICKY, pp_model_id = mc_model_id (md_candidate decision), pp_routes = [route],
                 pp_start_within_ms = 0, pp_total_timeout_ms = execution,
                 pp_latency_budget_ms = bud_latency_ms budget,
                 pp_reason = ''same model as previous session call; provider pinned for cache locality''\<rparr>)
      | None \<Rightarrow> explore_plan decision cache budget policy preparation_elapsed_ms)"

end
