(* ===== verification/Routing_Props.thy ===== *)
theory Routing_Props
  imports Routing Samples
begin

text \<open>
  What routing guarantees: every decision satisfies the policy floors, the capabilities, the
  context window and the hard limits; decisions come best first; each uses the candidate's
  cheapest route; and a provider plan stays inside the call's latency budget.
\<close>

section \<open>The orders of the keys\<close>

definition score_key_ok :: "pyfloat \<times> pyfloat \<times> pyfloat \<times> string \<Rightarrow> bool" where
  "score_key_ok k = (fst k \<noteq> NaN \<and> fst (snd k) \<noteq> NaN \<and> fst (snd (snd k)) \<noteq> NaN)"

interpretation score_order: key_order score_key_less score_key_ok
  using key_order_tuple [OF key_order_pyfloat key_order_tuple [OF key_order_pyfloat
      key_order_tuple [OF key_order_pyfloat key_order_linorder feq_iff_not_less] feq_iff_not_less]
      feq_iff_not_less]
  by (simp add: score_key_less_def score_key_ok_def [abs_def])

interpretation reverse_score_order: key_order "rev_lt score_key_less" score_key_ok
  by (rule score_order.rev_key_order)

interpretation latency_order: key_order latency_key_less "\<lambda>_. True"
  using key_order_tuple [OF key_order_linorder
      key_order_tuple [OF key_order_linorder key_order_linorder linorder_eq_iff] linorder_eq_iff]
  by (simp add: latency_key_less_def)

interpretation p95_order: key_order p95_key_less "\<lambda>_. True"
  using key_order_tuple [OF key_order_linorder key_order_linorder linorder_eq_iff]
  by (simp add: p95_key_less_def)

section \<open>Taking selection apart\<close>

lemma decisions_of_mem: "d \<in> set (decisions_of os) \<longleftrightarrow> Decided d \<in> set os"
  by (induction os rule: decisions_of.induct) auto

lemma select_ranked_Inr:
  assumes "select_ranked ranker intent candidates cache budget policy prep router_scores = Inr ds"
  obtains out scores outcomes where
    "candidates \<noteq> []" "0 \<le> prep" "ci_predicted_output_tokens intent = Some out"
    "rmap (evaluate_candidate (minimum_quality (ci_task intent) policy)
       (ci_required_capabilities intent) out cache budget policy scores) candidates = Inr outcomes"
    "set (map fst scores) = set (map mc_model_id candidates)"
    "decisions_of outcomes \<noteq> []"
    "ds = sort_by (rev_lt score_key_less) score_key (decisions_of outcomes)"
  using assms unfolding select_ranked_def by (auto split: if_split_asm option.splits)

lemma decide_Decided:
  assumes "decide out cache budget policy scores c value = Inr (Decided d)"
  obtains costs route where
    "route_costs c (bud_required_context_tokens budget) out cache value = Inr costs"
    "min_by cost_key_less cost_route_key costs = Inr (md_predicted_cost_usd d, route)"
    "required_input_cost route (bud_required_context_tokens budget) cache value = Inr (md_predicted_input_cost_usd d)"
    "md_candidate d = c" "md_route d = route" "md_cache_value d = value"
    "md_predicted_output_tokens d = out" "md_predicted_latency_ms d = predicted_latency route policy"
    "isfinite (md_base_router_score d)" "dict_get scores (mc_model_id c) = Some (md_base_router_score d)"
    "hard_cost policy \<longrightarrow> \<not> exceeds_cost (md_predicted_input_cost_usd d)
       (md_predicted_cost_usd d - md_predicted_input_cost_usd d) (md_predicted_cost_usd d) budget"
    "hard_latency policy \<longrightarrow> md_predicted_latency_ms d \<le> bud_latency_ms budget"
  using assms unfolding decide_def reject_def
  by (auto simp: Let_def split: if_split_asm option.splits)

lemma evaluate_Decided:
  assumes "evaluate_candidate qfloor required out cache budget policy scores c = Inr (Decided d)"
  shows "\<not> mc_quality c < qfloor" "required \<subseteq> mc_capabilities c"
    "bud_required_context_tokens budget + out \<le> mc_context_window_tokens c"
    "\<exists>value. dict_get (ca_values cache) (mc_model_id c) = Some value \<and>
       decide out cache budget policy scores c value = Inr (Decided d)"
  using assms unfolding evaluate_candidate_def reject_def
  by (auto split: if_split_asm option.splits)

lemma route_costs_mem:
  assumes "route_costs c ctx out cache value = Inr costs" "(cost, route) \<in> set costs"
  shows "route \<in> set (mc_routes c)"
    "\<exists>i. required_input_cost route ctx cache value = Inr i \<and> cost = i + output_price route out"
  using assms by (auto simp: route_costs_def dest!: rmap_set)

lemma route_costs_all:
  assumes "route_costs c ctx out cache value = Inr costs" "route \<in> set (mc_routes c)"
  shows "\<exists>i. required_input_cost route ctx cache value = Inr i \<and> (i + output_price route out, route) \<in> set costs"
proof -
  from assms(2) obtain k where k: "k < length (mc_routes c)" "route = mc_routes c ! k"
    by (auto simp: in_set_conv_nth)
  note all = assms(1) [unfolded route_costs_def rmap_Inr list_all2_conv_all_nth]
  from all k obtain i where "required_input_cost route ctx cache value = Inr i"
    "costs ! k = (i + output_price route out, route)" by auto
  with all k(1) show ?thesis by (metis nth_mem)
qed

lemma decided_from:
  assumes "select_ranked ranker intent candidates cache budget policy prep router_scores = Inr ds"
    and "d \<in> set ds"
  obtains out scores c v where "c \<in> set candidates" "ci_predicted_output_tokens intent = Some out"
    "evaluate_candidate (minimum_quality (ci_task intent) policy)
       (ci_required_capabilities intent) out cache budget policy scores c = Inr (Decided d)"
    "dict_get (ca_values cache) (mc_model_id c) = Some v"
    "decide out cache budget policy scores c v = Inr (Decided d)"
proof -
  obtain out scores outcomes where out: "ci_predicted_output_tokens intent = Some out"
    and o: "rmap (evaluate_candidate (minimum_quality (ci_task intent) policy)
       (ci_required_capabilities intent) out cache budget policy scores) candidates = Inr outcomes"
    and ds: "ds = sort_by (rev_lt score_key_less) score_key (decisions_of outcomes)"
    using assms(1) by (rule select_ranked_Inr)
  have "Decided d \<in> set outcomes" using assms(2) by (simp add: ds decisions_of_mem)
  from rmap_set [OF o this] obtain c where c: "c \<in> set candidates"
    "evaluate_candidate (minimum_quality (ci_task intent) policy)
       (ci_required_capabilities intent) out cache budget policy scores c = Inr (Decided d)" by auto
  from evaluate_Decided(4) [OF c(2)] that [OF c(1) out c(2)] show thesis by blast
qed

section \<open>Plans\<close>

lemma execution_budget_Inr:
  assumes "execution_budget budget policy prep m = Inr e"
  shows "hard_latency policy \<Longrightarrow> 0 < e \<and>
      e + max prep (pol_controller_reserve_ms policy + pol_compaction_reserve_ms policy)
        + pol_latency_safety_margin_ms policy = bud_latency_ms budget"
    "\<not> hard_latency policy \<Longrightarrow> e = max (bud_latency_ms budget) m"
  using assms by (auto simp: execution_budget_def Let_def split: if_split_asm)

lemma cheapest_route_mem:
  assumes "cheapest_route routes d cache budget = Inr r"
  shows "r \<in> set routes"
  using assms by (auto simp: cheapest_route_def dest!: min_by_in rmap_set)

lemma guaranteed_mem:
  "min_by latency_key_less guaranteed_key (guaranteed_pool routes) = Inr r \<Longrightarrow> r \<in> set routes"
  by (drule min_by_in) (auto simp: guaranteed_pool_def Let_def split: if_split_asm)

lemma mset_deadline_order:
  assumes "distinct (map rt_route_id routes)" "c \<in> set routes" "g \<in> set routes"
    "rt_route_id c \<noteq> rt_route_id g"
  shows "mset (deadline_order routes c g) = mset routes"
proof -
  let ?mid = "filter (\<lambda>r. rt_route_id r \<notin> {rt_route_id c, rt_route_id g})"
  have inj: "inj_on rt_route_id (set routes)" "distinct routes" using assms(1) by (auto simp: distinct_map)
  then have eqs: "r = c \<longleftrightarrow> rt_route_id r = rt_route_id c" "r = g \<longleftrightarrow> rt_route_id r = rt_route_id g"
    if "r \<in> set routes" for r using that assms(2,3) by (auto dest: inj_onD)
  have "set (c # ?mid routes @ [g]) = set routes" using assms(2,3) eqs by auto
  moreover have "distinct (c # ?mid routes @ [g])" using inj(2) assms(4) by auto
  ultimately have "mset (c # ?mid routes @ [g]) = mset routes"
    using inj(2) set_eq_iff_mset_eq_distinct by blast
  moreover have "mset (?mid (sort_by p95_key_less p95_key routes)) = mset (?mid routes)"
    by (simp add: mset_filter)
  ultimately show ?thesis by (simp add: deadline_order_def)
qed

lemma explore_plan_Inr:
  assumes "explore_plan d cache budget policy prep = Inr p"
  obtains cheapest guaranteed execution where
    "cheapest_route (mc_routes (md_candidate d)) d cache budget = Inr cheapest"
    "min_by latency_key_less guaranteed_key (guaranteed_pool (mc_routes (md_candidate d))) = Inr guaranteed"
    "execution_budget budget policy prep (rt_p95_total_latency_ms guaranteed) = Inr execution"
    "window_plan d budget policy cheapest guaranteed execution = Inr p"
  using assms by (auto simp: explore_plan_def Let_def)

lemma plan_provider_cases:
  assumes "plan_provider d cache budget policy prep = Inr p"
  obtains (sticky) route execution where "sticky_route d cache = Some route"
    "execution_budget budget policy prep (rt_p95_total_latency_ms route) = Inr execution"
    "pp_mode p = STICKY" "pp_routes p = [route]" "pp_start_within_ms p = 0"
    "pp_total_timeout_ms p = execution"
  | (explore) "sticky_route d cache = None" "explore_plan d cache budget policy prep = Inr p"
  using assms by (auto simp: plan_provider_def split: if_split_asm option.split_asm)

text \<open>The floor of the rounded product never exceeds the slack.\<close>

lemma explore_le_slack:
  assumes "0 \<le> slack" "slack \<le> 2 ^ 53" "unit_interval f"
    and "py_floor (fl_of_int slack * f) = Inr n"
  shows "0 \<le> n \<and> n \<le> slack"
proof -
  obtain q where q: "f = Fin q" "0 \<le> q" "q \<le> 1" using assms(3) by (rule unit_intervalE)
  have s: "fl_of_int slack = Fin (of_int slack)" by (rule fl_of_int_small) (use assms in simp)
  have "of_int slack * q \<le> of_int slack * 1" by (rule mult_left_mono) (use q assms in auto)
  then obtain r where r: "fl (of_int slack * q) = Fin r" "0 \<le> r" "r \<le> of_int slack"
    using fl_within [of "of_int slack * q" slack] q assms by auto
  then have "n = \<lfloor>r\<rfloor>" using assms(4) by (simp add: q s fin_arith)
  with r show ?thesis by (metis floor_mono floor_of_int zero_le_floor)
qed

lemma window_plan_Inr:
  assumes "window_plan d budget policy cheapest guaranteed execution = Inr p"
    and "policy_wf policy" "execution \<le> 2 ^ 53" "0 < rt_p95_total_latency_ms guaranteed"
  shows "pp_total_timeout_ms p = execution" "0 \<le> pp_start_within_ms p"
    "pp_start_within_ms p \<le> pol_maximum_provider_exploration_ms policy"
    "(pp_mode p = DIRECT \<and> pp_routes p = [guaranteed] \<and> pp_start_within_ms p = 0) \<or>
     (pp_mode p = DEADLINE \<and> 0 < pp_start_within_ms p \<and> rt_route_id cheapest \<noteq> rt_route_id guaranteed \<and>
      pp_routes p = deadline_order (mc_routes (md_candidate d)) cheapest guaranteed \<and>
      pp_start_within_ms p + rt_p95_total_latency_ms guaranteed \<le> execution)"
proof -
  let ?slack = "max 0 (execution - rt_p95_total_latency_ms guaranteed)"
  obtain n where n: "py_floor (fl_of_int ?slack * pol_provider_exploration_fraction policy) = Inr n"
    using assms(1) by (auto simp: window_plan_def Let_def)
  have le: "0 \<le> n \<and> n \<le> ?slack"
    by (rule explore_le_slack [OF _ _ _ n]) (use assms in \<open>auto simp: policy_wf_def\<close>)
  have mx: "0 \<le> pol_maximum_provider_exploration_ms policy" using assms(2) by (simp add: policy_wf_def)
  note d = assms(1) [unfolded window_plan_def Let_def n rbind.simps]
  show "pp_total_timeout_ms p = execution" "0 \<le> pp_start_within_ms p"
    "pp_start_within_ms p \<le> pol_maximum_provider_exploration_ms policy"
    using d mx by (auto split: if_split_asm)
  show "(pp_mode p = DIRECT \<and> pp_routes p = [guaranteed] \<and> pp_start_within_ms p = 0) \<or>
     (pp_mode p = DEADLINE \<and> 0 < pp_start_within_ms p \<and> rt_route_id cheapest \<noteq> rt_route_id guaranteed \<and>
      pp_routes p = deadline_order (mc_routes (md_candidate d)) cheapest guaranteed \<and>
      pp_start_within_ms p + rt_p95_total_latency_ms guaranteed \<le> execution)"
    using d le by (auto split: if_split_asm)
qed

section \<open>A selection on concrete values\<close>

lemma small_model_routes: "mc_routes small_model = [cheap_route, firm_route]" "mc_model_id small_model = ''small''"
  by (simp_all add: small_model_def sample_candidate_def)

abbreviation sample_scores :: scores where
  "sample_scores \<equiv> [(''small'', Fin (1 / 2))]"

abbreviation sample_selection :: "model_decision list result" where
  "sample_selection \<equiv> select_ranked supplied_rank sample_intent [small_model] sample_cache sample_budget
     sample_policy 0 (Some sample_scores)"

lemma sample_costs:
  "required_input_cost cheap_route 45 sample_cache sample_value = Inr (Fin 90)"
  "required_input_cost firm_route 45 sample_cache sample_value = Inr (Fin 180)"
  "output_price cheap_route 100 = Fin 800" "output_price firm_route 100 = Fin 1600"
  "Fin 90 + Fin 800 = Fin 890" "Fin 180 + Fin 1600 = Fin 1780" by code_simp+

lemma sample_route_costs:
  "route_costs small_model 45 100 sample_cache sample_value =
     Inr [(Fin 890, cheap_route), (Fin 1780, firm_route)]"
  by (simp add: route_costs_def small_model_routes sample_costs)

lemma sample_cheapest:
  "min_by cost_key_less cost_route_key [(Fin 890, cheap_route), (Fin 1780, firm_route)] = Inr (Fin 890, cheap_route)"
  by (simp add: min_by_def cost_route_key_def cost_key_less_def tuple_lt_def feq_def)

lemma sample_selection_ok: obtains d where "sample_selection = Inr [d]" "md_candidate d = small_model"
    "md_route d = cheap_route" "md_predicted_cost_usd d = Fin 890" "md_predicted_output_tokens d = 100"
    "md_cache_value d = sample_value" "md_score d \<noteq> NaN"
proof -
  have sc: "decision_score sample_policy sample_budget (Fin (1 / 2)) (Fin 890) 1050 sample_value \<noteq> NaN"
    by code_simp
  have pol: "hard_cost sample_policy = False" "hard_latency sample_policy = True"
    "predicted_latency cheap_route sample_policy = 1050"
    "minimum_quality (ci_task sample_intent) sample_policy = Fin 0" by code_simp+
  have t: "routing_timeout_ms [small_model] sample_budget sample_policy 0 = Inr 2610" by code_simp
  obtain d where d: "decide 100 sample_cache sample_budget sample_policy sample_scores small_model sample_value
      = Inr (Decided d)" "md_candidate d = small_model" "md_route d = cheap_route"
      "md_predicted_cost_usd d = Fin 890" "md_predicted_output_tokens d = 100" "md_cache_value d = sample_value" "md_score d \<noteq> NaN"
    using sc by (simp add: decide_def sample_budget_def sample_route_costs sample_cheapest sample_costs pol Let_def
        small_model_routes)
  have "evaluate_candidate (Fin 0) {} 100 sample_cache sample_budget sample_policy sample_scores small_model
      = Inr (Decided d)"
    using d(1) by (simp add: evaluate_candidate_def small_model_def sample_candidate_def sample_cache_def
        sample_budget_def)
  then have "sample_selection = Inr [d]"
    by (simp add: select_ranked_def t pol sample_intent_def [THEN arg_cong, of ci_predicted_output_tokens]
        sample_intent_def [THEN arg_cong, of ci_required_capabilities] small_model_routes)
  with d(2-) that show thesis by blast
qed

section \<open>Properties\<close>

text \<open>
  Property C26. Every decision that selection returns is for one of the offered candidates and
  one of its routes; the candidate reaches the policy's quality floor for the task, has the
  required capabilities and room for the context and the predicted output; and under hard
  limits the predicted input, output and total cost stay within the call budget (up to the
  program's 1e-12) and the predicted latency, reserves and margin included, within the call's
  latency.
\<close>

theorem selection_feasible:
  assumes "select_ranked ranker intent candidates cache budget policy prep router_scores = Inr ds"
    and "d \<in> set ds"
  shows "md_candidate d \<in> set candidates \<and> md_route d \<in> set (mc_routes (md_candidate d)) \<and>
    \<not> mc_quality (md_candidate d) < minimum_quality (ci_task intent) policy \<and>
    ci_required_capabilities intent \<subseteq> mc_capabilities (md_candidate d) \<and>
    bud_required_context_tokens budget + md_predicted_output_tokens d
      \<le> mc_context_window_tokens (md_candidate d) \<and>
    md_predicted_latency_ms d = rt_p95_total_latency_ms (md_route d) + pol_controller_reserve_ms policy
      + pol_compaction_reserve_ms policy + pol_latency_safety_margin_ms policy \<and>
    (hard_latency policy \<longrightarrow> md_predicted_latency_ms d \<le> bud_latency_ms budget) \<and>
    (hard_cost policy \<longrightarrow>
       \<not> bud_cost_usd budget + epsilon < md_predicted_cost_usd d \<and>
       \<not> bud_input_cost_usd budget + epsilon < md_predicted_input_cost_usd d \<and>
       \<not> bud_output_cost_usd budget + epsilon < md_predicted_cost_usd d - md_predicted_input_cost_usd d)"
proof -
  obtain out scores c v where c: "c \<in> set candidates"
    and e: "evaluate_candidate (minimum_quality (ci_task intent) policy)
       (ci_required_capabilities intent) out cache budget policy scores c = Inr (Decided d)"
    and dec: "decide out cache budget policy scores c v = Inr (Decided d)"
    using assms by (rule decided_from)
  from dec obtain costs route where r: "route_costs c (bud_required_context_tokens budget) out cache v = Inr costs"
    "min_by cost_key_less cost_route_key costs = Inr (md_predicted_cost_usd d, route)"
    and d: "md_candidate d = c" "md_route d = route" "md_predicted_output_tokens d = out"
      "md_predicted_latency_ms d = predicted_latency route policy"
      "hard_cost policy \<longrightarrow> \<not> exceeds_cost (md_predicted_input_cost_usd d)
         (md_predicted_cost_usd d - md_predicted_input_cost_usd d) (md_predicted_cost_usd d) budget"
      "hard_latency policy \<longrightarrow> md_predicted_latency_ms d \<le> bud_latency_ms budget"
    by (rule decide_Decided)
  have "route \<in> set (mc_routes c)" using route_costs_mem(1) [OF r(1) min_by_in [OF r(2)]] .
  with c d evaluate_Decided(1-3) [OF e] show ?thesis
    by (simp add: predicted_latency_def exceeds_cost_def)
qed

theorem selection_feasible_witness:
  "\<exists>d. sample_selection = Inr [d] \<and> md_predicted_latency_ms d \<le> bud_latency_ms sample_budget"
proof -
  obtain d where d: "sample_selection = Inr [d]" by (rule sample_selection_ok)
  have "hard_latency sample_policy" by code_simp
  with selection_feasible [OF d, of d] d show ?thesis by simp
qed

text \<open>
  The decisions come best first: no later decision has a larger key (score, base
  score, negated cost, model id) than an earlier one, so \<open>select\<close> returns a decision that none
  of the others beats.
\<close>

lemma selection_best_first:
  assumes "select_ranked ranker intent candidates cache budget policy prep router_scores = Inr ds"
    and "\<forall>d\<in>set ds. md_score d \<noteq> NaN \<and> md_predicted_cost_usd d \<noteq> NaN"
  shows "sorted_wrt (\<lambda>a b. \<not> score_key_less (score_key a) (score_key b)) ds \<and>
    (\<exists>best. select ranker intent candidates cache budget policy prep router_scores = Inr best \<and>
       best \<in> set ds \<and> (\<forall>d\<in>set ds. \<not> score_key_less (score_key best) (score_key d)))"
proof -
  obtain out scores outcomes where ne: "decisions_of outcomes \<noteq> []"
    and ds: "ds = sort_by (rev_lt score_key_less) score_key (decisions_of outcomes)"
    using assms(1) by (rule select_ranked_Inr)
  have ok: "score_key_ok (score_key d)" if d: "d \<in> set ds" for d
  proof -
    obtain out scores c v where "decide out cache budget policy scores c v = Inr (Decided d)"
      using assms(1) d by (rule decided_from)
    then have "isfinite (md_base_router_score d)" by (rule decide_Decided)
    moreover have "- md_predicted_cost_usd d \<noteq> NaN" using assms(2) d
      by (cases "md_predicted_cost_usd d") (auto simp: uminus_pyfloat_def)
    ultimately show ?thesis using assms(2) d
      by (auto simp: score_key_ok_def score_key_def isfinite_iff)
  qed
  have "sorted_wrt (\<lambda>a b. \<not> rev_lt score_key_less (score_key b) (score_key a)) ds"
    unfolding ds by (rule reverse_score_order.sorted_sort_by) (use ok ds in simp)
  then have s: "sorted_wrt (\<lambda>a b. \<not> score_key_less (score_key a) (score_key b)) ds"
    by (simp add: rev_lt_def)
  have "ds \<noteq> []" using ne ds by (metis length_0_conv length_sort_by)
  then obtain b rest where b: "ds = b # rest" by (cases ds) auto
  then have "\<forall>d\<in>set ds. \<not> score_key_less (score_key b) (score_key d)"
    using s score_order.lt_irrefl ok by auto
  with s b assms(1) show ?thesis by (auto simp: select_def)
qed

text \<open>
  A candidate is never dropped for a reason the program does not name: without
  hard limits every candidate that reaches the quality floor, has the capabilities, fits the
  context and has cache economics is among the decisions.
\<close>

lemma selection_complete:
  assumes "select_ranked ranker intent candidates cache budget policy prep router_scores = Inr ds"
    and "c \<in> set candidates" "\<not> hard_cost policy" "\<not> hard_latency policy"
    and "\<not> mc_quality c < minimum_quality (ci_task intent) policy"
    and "ci_required_capabilities intent \<subseteq> mc_capabilities c"
    and "ci_predicted_output_tokens intent = Some out"
    and "bud_required_context_tokens budget + out \<le> mc_context_window_tokens c"
    and "dict_get (ca_values cache) (mc_model_id c) \<noteq> None"
  shows "\<exists>d\<in>set ds. md_candidate d = c"
proof -
  obtain out' scores outcomes where out: "ci_predicted_output_tokens intent = Some out'"
    and o: "rmap (evaluate_candidate (minimum_quality (ci_task intent) policy)
       (ci_required_capabilities intent) out' cache budget policy scores) candidates = Inr outcomes"
    and ds: "ds = sort_by (rev_lt score_key_less) score_key (decisions_of outcomes)"
    using assms(1) by (rule select_ranked_Inr)
  obtain k where k: "k < length candidates" "c = candidates ! k"
    using assms(2) by (auto simp: in_set_conv_nth)
  then have e: "evaluate_candidate (minimum_quality (ci_task intent) policy)
       (ci_required_capabilities intent) out' cache budget policy scores c = Inr (outcomes ! k)"
    and len: "k < length outcomes"
    using o by (auto simp: rmap_Inr list_all2_conv_all_nth)
  from assms(9) obtain v where v: "dict_get (ca_values cache) (mc_model_id c) = Some v" by auto
  have "out' = out" using out assms(7) by simp
  then have "decide out cache budget policy scores c v = Inr (outcomes ! k)"
    using e assms(5,6,8) v by (simp add: evaluate_candidate_def)
  then have "\<exists>d. outcomes ! k = Decided d \<and> md_candidate d = c"
    using assms(3,4) by (cases "dict_get scores (mc_model_id c)"; cases "outcomes ! k")
      (auto simp: decide_def Let_def split: if_split_asm)
  then show ?thesis using nth_mem [OF len] unfolding ds by (auto simp: Bex_def decisions_of_mem)
qed

definition open_policy :: operating_policy where
  "open_policy = sample_policy\<lparr>pol_hard_call_latency_limit_ms := None\<rparr>"

lemma open_selection_ok: "is_ok (select_ranked supplied_rank sample_intent [small_model] sample_cache
    sample_budget open_policy 0 (Some sample_scores))"
proof -
  have pol: "hard_cost open_policy = False" "hard_latency open_policy = False"
    "minimum_quality (ci_task sample_intent) open_policy = Fin 0" by code_simp+
  have t: "routing_timeout_ms [small_model] sample_budget open_policy 0 = Inr 3360" by code_simp
  obtain d where d: "decide 100 sample_cache sample_budget open_policy sample_scores small_model sample_value
      = Inr (Decided d)"
    by (simp add: decide_def sample_budget_def sample_route_costs sample_cheapest sample_costs pol Let_def
        small_model_routes)
  have "evaluate_candidate (Fin 0) {} 100 sample_cache sample_budget open_policy sample_scores small_model
      = Inr (Decided d)"
    using d(1) by (simp add: evaluate_candidate_def small_model_def sample_candidate_def sample_cache_def
        sample_budget_def)
  then show ?thesis
    by (simp add: select_ranked_def t pol sample_intent_def [THEN arg_cong, of ci_predicted_output_tokens]
        sample_intent_def [THEN arg_cong, of ci_required_capabilities] small_model_routes)
qed

text \<open>
  The cost of a decision is the least over all routes of its candidate, each
  priced with the cached rate exactly when the cached prefix survives the required reduction.
\<close>

lemma selection_cheapest_route:
  assumes "select_ranked ranker intent candidates cache budget policy prep router_scores = Inr ds"
    and "d \<in> set ds" "route \<in> set (mc_routes (md_candidate d))"
    and "\<forall>r\<in>set (mc_routes (md_candidate d)). \<forall>i. required_input_cost r
        (bud_required_context_tokens budget) cache (md_cache_value d) = Inr i \<longrightarrow>
        i + output_price r (md_predicted_output_tokens d) \<noteq> NaN"
  shows "\<exists>i. required_input_cost route (bud_required_context_tokens budget) cache (md_cache_value d) = Inr i \<and>
    md_predicted_cost_usd d \<le> i + output_price route (md_predicted_output_tokens d)"
proof -
  obtain out scores c v where dec: "decide out cache budget policy scores c v = Inr (Decided d)"
    using assms(1,2) by (rule decided_from)
  from dec obtain costs best where r: "route_costs c (bud_required_context_tokens budget) out cache v = Inr costs"
    "min_by cost_key_less cost_route_key costs = Inr (md_predicted_cost_usd d, best)"
    and d: "md_candidate d = c" "md_cache_value d = v" "md_predicted_output_tokens d = out"
    by (rule decide_Decided)
  obtain i where i: "required_input_cost route (bud_required_context_tokens budget) cache v = Inr i"
    "(i + output_price route out, route) \<in> set costs"
    using route_costs_all [OF r(1)] assms(3) d(1) by blast
  have ok: "\<forall>x\<in>set costs. cost_key_ok (cost_route_key x)"
    using route_costs_mem [OF r(1)] assms(4) d by (fastforce simp: cost_key_ok_def cost_route_key_def)
  have "\<not> cost_key_less (cost_route_key (i + output_price route out, route))
      (cost_route_key (md_predicted_cost_usd d, best))"
    using r(2) ok i(2) by (rule cost_key.min_by_least)
  then have "md_predicted_cost_usd d \<le> i + output_price route out"
    using cost_key_less_fst ok i(2) min_by_in [OF r(2)] by (force simp: cost_route_key_def)
  with i(1) d show ?thesis by auto
qed

text \<open>
  Property C27. A provider plan uses only routes of the selected model, never starts
  exploration beyond the policy's maximum, explores only in deadline mode, leaves after
  exploration the whole p95 latency of the guaranteed route it ends with, and under a hard
  latency limit preparation (or the reserves), execution and margin together are exactly the
  call's latency budget.
\<close>

theorem provider_plan_deadline:
  assumes "plan_provider d cache budget policy prep = Inr p"
    and "policy_wf policy" "candidate_wf (md_candidate d)" "pp_total_timeout_ms p \<le> 2 ^ 53"
  shows "set (pp_routes p) \<subseteq> set (mc_routes (md_candidate d)) \<and> pp_routes p \<noteq> [] \<and>
    0 \<le> pp_start_within_ms p \<and>
    pp_start_within_ms p \<le> pol_maximum_provider_exploration_ms policy \<and>
    (0 < pp_start_within_ms p \<longleftrightarrow> pp_mode p = DEADLINE) \<and>
    (pp_mode p = DEADLINE \<longrightarrow>
       pp_start_within_ms p + rt_p95_total_latency_ms (last (pp_routes p)) \<le> pp_total_timeout_ms p) \<and>
    (hard_latency policy \<longrightarrow> 0 < pp_total_timeout_ms p \<and>
       pp_total_timeout_ms p + max prep (pol_controller_reserve_ms policy + pol_compaction_reserve_ms policy)
         + pol_latency_safety_margin_ms policy = bud_latency_ms budget)"
  using assms(1)
proof (cases rule: plan_provider_cases)
  case (sticky route execution)
  have "route \<in> set (mc_routes (md_candidate d))" using sticky(1)
    by (auto simp: sticky_route_def split: option.split_asm if_split_asm dest: find_Some_in)
  with sticky execution_budget_Inr(1) [OF sticky(2)] assms(2) show ?thesis by (auto simp: policy_wf_def)
next
  case explore
  obtain cheapest guaranteed execution where c:
    "cheapest_route (mc_routes (md_candidate d)) d cache budget = Inr cheapest"
    "min_by latency_key_less guaranteed_key (guaranteed_pool (mc_routes (md_candidate d))) = Inr guaranteed"
    and e: "execution_budget budget policy prep (rt_p95_total_latency_ms guaranteed) = Inr execution"
    and w: "window_plan d budget policy cheapest guaranteed execution = Inr p"
    using explore(2) by (rule explore_plan_Inr)
  note mem = cheapest_route_mem [OF c(1)] guaranteed_mem [OF c(2)]
  have pos: "0 < rt_p95_total_latency_ms guaranteed"
    using assms(3) mem(2) by (auto simp: candidate_wf_def list_all_iff route_wf_def)
  have "pp_total_timeout_ms p = execution" using w
    by (auto simp: window_plan_def Let_def split: if_split_asm)
  then have le: "execution \<le> 2 ^ 53" using assms(4) by simp
  have sub: "set (deadline_order (mc_routes (md_candidate d)) cheapest guaranteed)
      \<subseteq> set (mc_routes (md_candidate d))" using mem by (auto simp: deadline_order_def)
  have ne: "deadline_order rs a b \<noteq> []" "last (deadline_order rs a b) = b" for rs a b
    by (simp_all add: deadline_order_def)
  from window_plan_Inr [OF w assms(2) le pos] sub mem execution_budget_Inr(1) [OF e] show ?thesis
    by (elim disjE) (auto simp: ne)
qed

definition sample_decision :: model_decision where
  "sample_decision = \<lparr>md_candidate = small_model, md_route = cheap_route, md_score = Fin 0,
     md_base_router_score = Fin (1 / 2), md_predicted_cost_usd = Fin 890,
     md_predicted_input_cost_usd = Fin 90, md_predicted_output_tokens = 100,
     md_predicted_latency_ms = 1050, md_cache_value = sample_value, md_reasons = []\<rparr>"

lemma sample_plan_ok: obtains p where
  "plan_provider sample_decision sample_cache sample_budget sample_policy 0 = Inr p"
  "pp_total_timeout_ms p = 3210" "pp_mode p = DEADLINE"
proof -
  have c: "route_cost cheap_route sample_decision sample_cache sample_budget = Inr (Fin 890)"
    "route_cost firm_route sample_decision sample_cache sample_budget = Inr (Fin 1780)" by code_simp+
  have r: "mc_routes (md_candidate sample_decision) = [cheap_route, firm_route]"
    by (simp add: sample_decision_def small_model_routes)
  have ch: "cheapest_route [cheap_route, firm_route] sample_decision sample_cache sample_budget = Inr cheap_route"
    by (simp add: cheapest_route_def c sample_cheapest)
  have g: "guaranteed_pool [cheap_route, firm_route] = [firm_route]"
    by (simp add: guaranteed_pool_def cheap_route_def firm_route_def sample_route_def)
  have e: "execution_budget sample_budget sample_policy 0 (rt_p95_total_latency_ms firm_route) = Inr 3210"
    by code_simp
  have f: "py_floor (fl_of_int 2610 * pol_provider_exploration_fraction sample_policy) = Inr 1305" by code_simp
  have k: "rt_p95_total_latency_ms firm_route = 600" "rt_route_id cheap_route \<noteq> rt_route_id firm_route"
    "sticky_route sample_decision sample_cache = None"
    "pol_maximum_provider_exploration_ms sample_policy = 2000" by code_simp+
  have "\<exists>p. plan_provider sample_decision sample_cache sample_budget sample_policy 0 = Inr p \<and>
      pp_total_timeout_ms p = 3210 \<and> pp_mode p = DEADLINE"
    by (simp add: plan_provider_def explore_plan_def window_plan_def r ch g e k f min_by_def Let_def
        e [unfolded k])
  with that show thesis by blast
qed

theorem provider_plan_deadline_witness:
  "\<exists>p. plan_provider sample_decision sample_cache sample_budget sample_policy 0 = Inr p \<and>
     pp_start_within_ms p + rt_p95_total_latency_ms (last (pp_routes p)) \<le> 3210"
proof -
  obtain p where p: "plan_provider sample_decision sample_cache sample_budget sample_policy 0 = Inr p"
    "pp_total_timeout_ms p = 3210" "pp_mode p = DEADLINE" by (rule sample_plan_ok)
  have "policy_wf sample_policy" "candidate_wf (md_candidate sample_decision)" by code_simp+
  with provider_plan_deadline [OF p(1)] p show ?thesis by auto
qed

text \<open>
  In deadline mode every provider of the model is tried exactly once, from the
  cheapest to the guaranteed one, those between them by rising p95 latency.
\<close>

lemma deadline_plan_order:
  assumes "plan_provider d cache budget policy prep = Inr p" "pp_mode p = DEADLINE"
    and "distinct (map rt_route_id (mc_routes (md_candidate d)))"
  shows "mset (pp_routes p) = mset (mc_routes (md_candidate d)) \<and>
    sorted_wrt (\<lambda>a b. \<not> p95_key_less (p95_key b) (p95_key a)) (butlast (tl (pp_routes p))) \<and>
    (\<exists>g. last (pp_routes p) = g \<and> (\<forall>r\<in>set (guaranteed_pool (mc_routes (md_candidate d))).
       rt_p95_total_latency_ms g \<le> rt_p95_total_latency_ms r))"
  using assms(1)
proof (cases rule: plan_provider_cases)
  case explore
  obtain cheapest guaranteed execution where c:
    "cheapest_route (mc_routes (md_candidate d)) d cache budget = Inr cheapest"
    "min_by latency_key_less guaranteed_key (guaranteed_pool (mc_routes (md_candidate d))) = Inr guaranteed"
    and w: "window_plan d budget policy cheapest guaranteed execution = Inr p"
    using explore(2) by (rule explore_plan_Inr)
  have r: "pp_routes p = deadline_order (mc_routes (md_candidate d)) cheapest guaranteed"
    and ne: "rt_route_id cheapest \<noteq> rt_route_id guaranteed"
    using w assms(2) by (auto simp: window_plan_def Let_def split: if_split_asm)
  have s: "sorted_wrt (\<lambda>a b. \<not> p95_key_less (p95_key b) (p95_key a))
      (sort_by p95_key_less p95_key (mc_routes (md_candidate d)))"
    by (rule p95_order.sorted_sort_by) simp
  have "\<forall>r\<in>set (guaranteed_pool (mc_routes (md_candidate d))).
      rt_p95_total_latency_ms guaranteed \<le> rt_p95_total_latency_ms r"
  proof
    fix r assume "r \<in> set (guaranteed_pool (mc_routes (md_candidate d)))"
    with latency_order.min_by_least [OF c(2)] have "\<not> latency_key_less (guaranteed_key r) (guaranteed_key guaranteed)"
      by simp
    then show "rt_p95_total_latency_ms guaranteed \<le> rt_p95_total_latency_ms r"
      by (auto simp: latency_key_less_def tuple_lt_def guaranteed_key_def split: if_split_asm)
  qed
  moreover have "mset (pp_routes p) = mset (mc_routes (md_candidate d))"
    unfolding r by (rule mset_deadline_order [OF assms(3) cheapest_route_mem [OF c(1)] guaranteed_mem [OF c(2)] ne])
  ultimately show ?thesis using s by (simp add: r deadline_order_def sorted_wrt_filter)
qed (use assms(2) in simp)

text \<open>
  While a session stays on the same model and its last provider still serves that
  model, the plan is pinned to that provider: no exploration, one route.
\<close>

lemma sticky_provider:
  assumes "plan_provider d cache budget policy prep = Inr p"
    and "ca_last_model_id cache = Some (mc_model_id (md_candidate d))" "ca_last_provider cache = Some pr"
    and "pr \<in> set (map rt_provider (mc_routes (md_candidate d)))"
  shows "pp_mode p = STICKY \<and> (\<exists>r\<in>set (mc_routes (md_candidate d)). rt_provider r = pr \<and> pp_routes p = [r]) \<and>
    pp_start_within_ms p = 0"
proof -
  obtain r where r: "find (\<lambda>r. rt_provider r = pr) (mc_routes (md_candidate d)) = Some r"
    using assms(4) by (cases "find (\<lambda>r. rt_provider r = pr) (mc_routes (md_candidate d))")
      (auto simp: find_None_all)
  then have "sticky_route d cache = Some r" using assms(2,3) by (simp add: sticky_route_def)
  with assms(1) find_Some_in [OF r] show ?thesis
    by (auto simp: plan_provider_def split: if_split_asm)
qed

text \<open>
  The scores of the supplied ranker name exactly the candidates, so a selection
  that uses it never fails for an incomplete or foreign score set.
\<close>

lemma supplied_scores_complete:
  "(case supplied_rank intent candidates timeout_ms of
      Inr s \<Rightarrow> set (map fst s) = set (map mc_model_id candidates)
    | Inl e \<Rightarrow> (\<exists>c\<in>set candidates. mc_router_score c = None))"
proof (cases "filter (\<lambda>c. mc_router_score c = None) candidates = []")
  case True
  have "set (map fst (dict_of ps)) = fst ` set ps" for ps :: scores
    using dom_map_of_conv_image_fst [of "dict_of ps"] dict_get_of [of ps]
    by (simp add: dom_map_of_conv_image_fst)
  with True show ?thesis by (auto simp: supplied_rank_def image_image)
qed (auto simp: supplied_rank_def filter_empty_conv)

end
