(* ===== verification/Compaction.thy ===== *)
theory Compaction
  imports Routing
begin

text \<open>
  Context compaction (\<^verbatim>\<open>src/promptrail/compaction.py\<close>): the planner that turns
  the required context into a reduction, the recovery store, and the compactor with its
  water-filling allocation, its text summary and the boundary check. The digest is an argument;
  so is \<open>set_order\<close>, the order in which Python iterates over a set of indices, which the
  language leaves open and which only the rounding of a float sum can see.
\<close>

section \<open>The target planner\<close>

definition planner_init :: "int \<Rightarrow> int result" where
  "planner_init minimum_kept_tokens =
     (if minimum_kept_tokens \<le> 0 then Inl (ValueError ''minimum_kept_tokens must be positive'')
      else Inr minimum_kept_tokens)"

definition reducible :: "int \<Rightarrow> cache_analysis \<Rightarrow> nat list \<Rightarrow> int result" where
  "reducible minimum_kept_tokens cache indices =
     rbind (rmap (\<lambda>i. rbind (token_at cache i) (\<lambda>t. Inr (max 0 (t - minimum_kept_tokens)))) indices)
       (\<lambda>ts. Inr (sum_list ts))"

definition unprotected :: "cache_analysis \<Rightarrow> nat list" where
  "unprotected cache = filter (\<lambda>i. i \<notin> set (ca_protected_message_indices cache))
     (ca_compactable_message_indices cache)"

definition minimum_reachable_tokens :: "int \<Rightarrow> cache_analysis \<Rightarrow> int result" where
  "minimum_reachable_tokens minimum_kept_tokens cache =
     rbind (reducible minimum_kept_tokens cache (unprotected cache))
       (\<lambda>reducible_tokens. Inr (ca_total_tokens cache - reducible_tokens))"

definition importance_by_index :: "call_budget \<Rightarrow> cache_analysis \<Rightarrow> (nat, pyfloat) dict" where
  "importance_by_index budget cache =
     (let overrides = dict_of (map (\<lambda>v. (io_block_id v, io_importance v)) (bud_importance_overrides budget))
      in dict_of (concat (map (\<lambda>block. map (\<lambda>i. (i,
           case dict_get overrides (cb_block_id block) of Some v \<Rightarrow> v | None \<Rightarrow> cb_importance block))
           (cb_message_indices block)) (ca_context_blocks cache))))"

definition plan_compaction :: "int \<Rightarrow> cache_analysis \<Rightarrow> model_decision \<Rightarrow> call_budget \<Rightarrow> compaction_plan result" where
  "plan_compaction minimum_kept_tokens cache decision budget =
     rbind (minimum_reachable_tokens minimum_kept_tokens cache) (\<lambda>physically_reachable_floor.
     let route = md_route decision;
         target = min (ca_total_tokens cache) (bud_required_context_tokens budget);
         target_tokens = max physically_reachable_floor target;
         reduction = max 0 (ca_total_tokens cache - target_tokens);
         uncached = filter (\<lambda>i. i \<notin> set (ca_cacheable_message_indices cache)) (unprotected cache)
     in rbind (reducible minimum_kept_tokens cache uncached) (\<lambda>capacity.
        let eligible = filter (\<lambda>i. capacity < reduction \<or> i \<notin> set (ca_cacheable_message_indices cache))
                         (unprotected cache);
            value = md_cache_value decision;
            cached_tokens = (if cv_exact_reuse value \<and> reduction \<le> capacity
                             then min target_tokens (cv_cached_tokens value) else 0)
        in Inr \<lparr>cp_input_budget_usd = bud_input_cost_usd budget,
                cp_estimated_input_cost_usd =
                  per_million (fl_of_int cached_tokens * cached_rate route cached_tokens)
                  + per_million (fl_of_int (max 0 (target_tokens - cached_tokens)) * rt_input_price_per_million route),
                cp_target_tokens = target_tokens, cp_required_reduction_tokens = reduction,
                cp_compactable_message_indices = eligible,
                cp_importance_by_message_index = importance_by_index budget cache\<rparr>))"

section \<open>The recovery store\<close>

record retrieved_context =
  rc_session_id :: string
  rc_content :: string

type_synonym retrieval_store = "(string, retrieved_context) dict"

text \<open>\<open>hex\<close> is the text of the fresh UUID.\<close>

definition store_put :: "string \<Rightarrow> string \<Rightarrow> string \<Rightarrow> retrieval_store \<Rightarrow> string \<times> retrieval_store" where
  "store_put hex session_id content values =
     (let retrieval_id = ''ctx_'' @ hex
      in (retrieval_id, dict_set retrieval_id \<lparr>rc_session_id = session_id, rc_content = content\<rparr> values))"

definition store_get :: "string \<Rightarrow> string \<Rightarrow> retrieval_store \<Rightarrow> string result" where
  "store_get session_id retrieval_id values =
     (case dict_get values retrieval_id of
        None \<Rightarrow> Inl (CompactionError ''compaction retrieval entry is missing or outside session scope'')
      | Some item \<Rightarrow> if rc_session_id item \<noteq> session_id
          then Inl (CompactionError ''compaction retrieval entry is missing or outside session scope'')
          else Inr (rc_content item))"

definition store_delete :: "string \<Rightarrow> string \<Rightarrow> retrieval_store \<Rightarrow> retrieval_store" where
  "store_delete session_id retrieval_id values =
     (case dict_get values retrieval_id of
        Some item \<Rightarrow> if rc_session_id item = session_id then dict_pop retrieval_id values else values
      | None \<Rightarrow> values)"

definition store_delete_session :: "string \<Rightarrow> retrieval_store \<Rightarrow> int \<times> retrieval_store" where
  "store_delete_session session_id values =
     (let matching = map fst (filter (\<lambda>(_, item). rc_session_id item = session_id) values)
      in (int (length matching), fold dict_pop matching values))"

section \<open>The text summary\<close>

definition compaction_marker :: "block_type \<Rightarrow> string" where
  "compaction_marker bt = [CHR 0x0A] @ ''[PromptRail inline '' @ block_type_name bt @ '' summary]'' @ [CHR 0x0A]"

definition test_signal_re :: re where
  "test_signal_re = alts [lit same_char_i ''error'', lit same_char_i ''fail'', lit same_char_i ''traceback'',
     lit same_char_i ''passed'', lit same_char_i ''diff --git'', Seq TextStart (lit same_char_i ''@@''),
     Seq TextStart (lit same_char_i ''+++''), Seq TextStart (lit same_char_i ''---''),
     Seq TextStart (lit same_char_i ''+''), Seq TextStart (lit same_char_i ''- '')]"

definition tool_signal_re :: re where
  "tool_signal_re = alts [Seq TextStart (lit same_char_i ''/''), Seq (lit same_char_i ''.py'') WordB,
     Seq (lit same_char_i ''.json'') WordB, Seq (lit same_char_i ''.toml'') WordB,
     lit same_char_i ''exit '', lit same_char_i ''error'', lit same_char_i ''warning'']"

definition important_lines :: "block_type \<Rightarrow> string list \<Rightarrow> string list" where
  "important_lines bt ls =
     (if bt = TestBlock \<or> bt = PatchBlock then filter (re_search test_signal_re) ls
      else if bt = ToolBlock then filter (re_search tool_signal_re) ls else [])"

definition compact_text :: "string \<Rightarrow> int \<Rightarrow> block_type \<Rightarrow> string result" where
  "compact_text content target_tokens bt =
     (let marker = compaction_marker bt;
          content_budget = max 48 (target_tokens * 4 - int (length marker))
      in if int (length content) \<le> content_budget then Inr content
         else
         rbind (py_floor (fl_of_int content_budget * fl (45 / 100))) (\<lambda>head_share.
         rbind (py_floor (fl_of_int content_budget * fl (25 / 100))) (\<lambda>tail_share.
         let head_budget = max 24 head_share;
             tail_budget = max 24 tail_share;
             signal_budget = max 0 (content_budget - head_budget - tail_budget);
             signal_text = rstrip (slice_head signal_budget
                             (join [CHR 0x0A] (important_lines bt (splitlines content))));
             parts = [rstrip (slice_head head_budget content), strip marker] @
                     (if signal_text \<noteq> [] then [signal_text] else []) @
                     [lstrip (slice_tail tail_budget content)]
         in Inr (join [CHR 0x0A] (filter (\<lambda>p. p \<noteq> []) parts)))))"

section \<open>Water filling\<close>

definition pressure_floor :: pyfloat where
  "pressure_floor = fl (1 / 1000000000)"

definition pressure_at :: "(nat, pyfloat) dict \<Rightarrow> nat \<Rightarrow> pyfloat result" where
  "pressure_at pressures i = (case dict_get pressures i of
     Some p \<Rightarrow> Inr (pmax p pressure_floor) | None \<Rightarrow> Inl (KeyError (show_nat i)))"

text \<open>
  The state of the loops: the allocations, the remaining reduction, the progress of the pass
  and the active set (kept sorted). One turn of the \<open>for\<close> loop, and the pass over the indices
  that were active at its start.
\<close>

type_synonym water_state = "(nat, int) dict \<times> int \<times> int \<times> nat list"

definition water_step :: "(nat, int) dict \<Rightarrow> (nat, pyfloat) dict \<Rightarrow> pyfloat \<Rightarrow> nat \<Rightarrow> water_state \<Rightarrow> water_state result" where
  "water_step capacities pressures total_pressure i st =
     (case st of (allocations, remaining, progressed, active) \<Rightarrow>
      rbind (pressure_at pressures i) (\<lambda>p.
      rbind (py_floor (fdiv (fl_of_int remaining * p) total_pressure)) (\<lambda>proportional.
      let capacity = the (dict_get capacities i) - the (dict_get allocations i);
          share = max 1 proportional;
          amount = min (min capacity share) remaining;
          allocated = the (dict_get allocations i) + amount
      in Inr (dict_set i allocated allocations, remaining - amount, progressed + amount,
              if the (dict_get capacities i) \<le> allocated then removeAll i active else active))))"

fun water_pass :: "(nat, int) dict \<Rightarrow> (nat, pyfloat) dict \<Rightarrow> pyfloat \<Rightarrow> nat list \<Rightarrow> water_state \<Rightarrow> water_state result" where
  "water_pass capacities pressures total_pressure [] st = Inr st"
| "water_pass capacities pressures total_pressure (i # is) st =
     rbind (water_step capacities pressures total_pressure i st) (\<lambda>st'.
       if fst (snd st') \<le> 0 then Inr st'
       else water_pass capacities pressures total_pressure is st')"

lemma water_step_sum:
  "water_step capacities pressures total_pressure i (al, remaining, progressed, active) =
     Inr (al', remaining', progressed', active') \<Longrightarrow> remaining' + progressed' = remaining + progressed"
  by (auto simp: water_step_def Let_def)

lemma water_pass_sum:
  "water_pass capacities pressures total_pressure is (al, remaining, progressed, active) =
     Inr (al', remaining', progressed', active') \<Longrightarrow> remaining' + progressed' = remaining + progressed"
proof (induction "is" arbitrary: al remaining progressed active)
  case (Cons i "is")
  then show ?case by (fastforce split: if_split_asm dest: water_step_sum)
qed simp

text \<open>
  The \<open>while\<close> loop. The code leaves it when a pass made no progress; progress is never
  negative on the states it reaches (lemma \<open>water_pass_inv\<close>), and the test here includes the
  values below zero only to give the recursion its measure.
\<close>

function water_loop :: "(nat list \<Rightarrow> nat list) \<Rightarrow> (nat, int) dict \<Rightarrow> (nat, pyfloat) dict \<Rightarrow>
    (nat, int) dict \<Rightarrow> int \<Rightarrow> nat list \<Rightarrow> (nat, int) dict result" where
  "water_loop set_order capacities pressures allocations remaining active =
     (if 0 < remaining \<and> active \<noteq> [] then
        (case rbind (rmap (pressure_at pressures) (set_order active)) (\<lambda>ps.
              water_pass capacities pressures (fsum ps) active (allocations, remaining, 0, active)) of
           Inl e \<Rightarrow> Inl e
         | Inr (allocations', remaining', progressed, active') \<Rightarrow>
             if progressed \<le> 0 then Inr allocations'
             else water_loop set_order capacities pressures allocations' remaining' active')
      else Inr allocations)"
  by pat_completeness auto
termination
  by (relation "measure (\<lambda>(_, _, _, _, remaining, _). nat remaining)") (auto dest!: sym [of "Inr _"] dest: water_pass_sum)

declare water_loop.simps [simp del]

definition water_fill :: "(nat list \<Rightarrow> nat list) \<Rightarrow> int \<Rightarrow> (nat, int) dict \<Rightarrow> (nat, pyfloat) dict \<Rightarrow>
    (nat, int) dict result" where
  "water_fill set_order reduction capacities pressures =
     rbind (water_loop set_order capacities pressures (map (\<lambda>(i, _). (i, 0)) capacities) reduction
              (sort (map fst (filter (\<lambda>(_, c). 0 < c) capacities))))
       (\<lambda>allocations. Inr (filter (\<lambda>(_, amount). 0 < amount) allocations))"

section \<open>The compactor\<close>

definition block_by_index :: "cache_analysis \<Rightarrow> (nat, context_block) dict" where
  "block_by_index cache = dict_of (concat (map (\<lambda>b. map (\<lambda>i. (i, b)) (cb_message_indices b))
     (ca_context_blocks cache)))"

definition capacities_of :: "int \<Rightarrow> cache_analysis \<Rightarrow> compaction_plan \<Rightarrow> (nat, int) dict result" where
  "capacities_of minimum_kept_tokens cache plan =
     rbind (rmap (\<lambda>i. if i \<in> set (ca_protected_message_indices cache) then Inr (i, 0)
                      else rbind (token_at cache i) (\<lambda>t. Inr (i, max 0 (t - minimum_kept_tokens))))
              (cp_compactable_message_indices plan))
       (\<lambda>kvs. Inr (dict_of kvs))"

definition importance_at :: "compaction_plan \<Rightarrow> nat \<Rightarrow> pyfloat" where
  "importance_at plan i = (case dict_get (cp_importance_by_message_index plan) i of
     Some v \<Rightarrow> v | None \<Rightarrow> Fin (1 / 2))"

text \<open>\<open>x ** 2\<close> is the correctly rounded square.\<close>

definition pressure_of :: "compaction_plan \<Rightarrow> nat \<Rightarrow> context_block option \<Rightarrow> pyfloat" where
  "pressure_of plan i block =
     (let importance = importance_at plan i;
          redundancy = pmax (fl (1 / 10)) (case block of Some b \<Rightarrow> cb_redundancy b | None \<Rightarrow> fl (1 / 10));
          staleness = Fin 1 + fl (of_int (case block of Some b \<Rightarrow> cb_age b | None \<Rightarrow> 0) / 8);
          cache_factor = (case block of
             Some b \<Rightarrow> if cb_cached b then fdiv (Fin 1) (Fin 1 + Fin 8 * cb_cache_invalidation_cost b) else Fin 1
           | None \<Rightarrow> Fin 1);
          distance = Fin 1 - importance
      in distance * distance * redundancy * staleness * cache_factor)"

definition pressures_of :: "cache_analysis \<Rightarrow> compaction_plan \<Rightarrow> (nat, pyfloat) dict" where
  "pressures_of cache plan = dict_of (map (\<lambda>i. (i, pressure_of plan i (dict_get (block_by_index cache) i)))
     (cp_compactable_message_indices plan))"

fun allocation_key_less :: "int \<times> nat \<Rightarrow> int \<times> nat \<Rightarrow> bool" where
  "allocation_key_less (a, i) (b, j) = (if a \<noteq> b then a < b else i < j)"

definition compaction_order :: "(nat, int) dict \<Rightarrow> nat list" where
  "compaction_order allocations = sort_by allocation_key_less
     (\<lambda>i. (- the (dict_get allocations i), i)) (map fst allocations)"

fun set_content :: "json \<Rightarrow> string \<Rightarrow> json" where
  "set_content (JObj kvs) c = JObj (dict_set ''content'' (JStr c) kvs)"
| "set_content m c = m"

definition block_type_at :: "cache_analysis \<Rightarrow> nat \<Rightarrow> block_type" where
  "block_type_at cache i = (case dict_get (block_by_index cache) i of Some b \<Rightarrow> cb_block_type b | None \<Rightarrow> Generic)"

text \<open>One turn of the loop over the eligible indices.\<close>

definition compact_one :: "(string \<Rightarrow> string) \<Rightarrow> int \<Rightarrow> cache_analysis \<Rightarrow> compaction_plan \<Rightarrow> (nat, int) dict \<Rightarrow>
    nat \<Rightarrow> json list \<times> int \<times> compaction_record list \<Rightarrow>
    (json list \<times> int \<times> compaction_record list) result" where
  "compact_one sha256 minimum_kept_tokens cache plan allocations i st =
     (case st of (messages, remaining, records) \<Rightarrow>
      if length messages \<le> i then Inl IndexError else
      case jget (messages ! i) ''content'' of
        JStr content \<Rightarrow>
          rbind (estimate_tokens (messages ! i)) (\<lambda>tokens_before.
          let requested = min remaining (the (dict_get allocations i))
          in if requested \<le> 0 then Inr st else
          rbind (estimate_tokens (JStr content)) (\<lambda>content_tokens.
          rbind (compact_text content (max minimum_kept_tokens (content_tokens - requested))
                   (block_type_at cache i)) (\<lambda>compacted.
          let message' = set_content (messages ! i) compacted
          in rbind (estimate_tokens message') (\<lambda>after.
             if tokens_before \<le> after then Inr st
             else Inr (messages[i := message'], max 0 (remaining - (tokens_before - after)),
                       records @ [\<lparr>cr_message_index = i, cr_original_hash = sha256 (utf8_encode content),
                                  cr_tokens_before = tokens_before, cr_tokens_after = after,
                                  cr_block_type = block_type_at cache i,
                                  cr_importance = importance_at plan i\<rparr>])))))
      | _ \<Rightarrow> Inr st)"

fun compact_loop :: "(string \<Rightarrow> string) \<Rightarrow> int \<Rightarrow> cache_analysis \<Rightarrow> compaction_plan \<Rightarrow> (nat, int) dict \<Rightarrow>
    nat list \<Rightarrow> json list \<times> int \<times> compaction_record list \<Rightarrow>
    (json list \<times> int \<times> compaction_record list) result" where
  "compact_loop sha256 kept cache plan allocations [] st = Inr st"
| "compact_loop sha256 kept cache plan allocations (i # is) st =
     rbind (compact_one sha256 kept cache plan allocations i st)
       (compact_loop sha256 kept cache plan allocations is)"

text \<open>\<open>zip(before, after, strict=True)\<close> raises when the lengths differ.\<close>

fun check_boundaries :: "cache_analysis \<Rightarrow> compaction_plan \<Rightarrow> nat \<Rightarrow> json list \<Rightarrow> json list \<Rightarrow> unit result" where
  "check_boundaries cache plan i [] [] = Inr ()"
| "check_boundaries cache plan i (old # olds) (new # news) =
     rbind (canonical_json old) (\<lambda>a. rbind (canonical_json new) (\<lambda>b.
       if a \<noteq> b \<and> i \<notin> set (cp_compactable_message_indices plan)
       then Inl (CompactionError (''compaction changed unauthorized message index '' @ show_nat i))
       else if i \<in> set (ca_protected_message_indices cache) \<and> a \<noteq> b
       then Inl (CompactionError (''compaction changed protected message index '' @ show_nat i))
       else check_boundaries cache plan (Suc i) olds news))"
| "check_boundaries cache plan i _ _ = Inl (ValueError ''zip() arguments differ in length'')"

definition compact :: "(string \<Rightarrow> string) \<Rightarrow> (nat list \<Rightarrow> nat list) \<Rightarrow> int \<Rightarrow> json list \<Rightarrow> cache_analysis \<Rightarrow>
    compaction_plan \<Rightarrow> compaction_result result" where
  "compact sha256 set_order kept messages cache plan =
     (if length messages \<noteq> length (ca_message_tokens cache)
      then Inl (CompactionError ''cache analysis does not match the supplied conversation'')
      else
      rbind (capacities_of kept cache plan) (\<lambda>capacities.
      rbind (water_fill set_order (cp_required_reduction_tokens plan) capacities (pressures_of cache plan)) (\<lambda>allocations.
      rbind (compact_loop sha256 kept cache plan allocations (compaction_order allocations)
               (messages, cp_required_reduction_tokens plan, [])) (\<lambda>(transformed, remaining, records).
      rbind (check_boundaries cache plan 0 messages transformed) (\<lambda>_.
      rbind (rmap estimate_tokens transformed) (\<lambda>after.
      let tokens_after = ca_tool_tokens cache + sum_list after
      in Inr \<lparr>cres_messages = transformed, cres_tokens_before = ca_total_tokens cache,
              cres_tokens_after = tokens_after, cres_target_tokens = cp_target_tokens plan,
              cres_target_met = (tokens_after \<le> cp_target_tokens plan),
              cres_records = records\<rparr>))))))"

end
