(* ===== verification/Compaction_Props.thy ===== *)
theory Compaction_Props
  imports Compaction Cache_Props Routing_Props
begin

text \<open>
  What compaction guarantees: the water-filling allocation is exact, the planned reduction is
  always within reach, only authorised and unprotected messages change and only in their
  content, no message ever grows, a summary respects its budget, and the recovery store keeps
  sessions apart.
\<close>

section \<open>Sums over dictionaries\<close>

definition dsum :: "('k, int) dict \<Rightarrow> int" where
  "dsum d = sum_list (map snd d)"

lemma dsum_set: "dict_get d k = Some v \<Longrightarrow> dict_ok d \<Longrightarrow> dsum (dict_set k w d) = dsum d - v + w"
  by (induction d) (auto simp: dsum_def dict_ok_def split: if_split_asm)

lemma keys_set: "dict_get d k \<noteq> None \<Longrightarrow> map fst (dict_set k w d) = map fst d"
  by (induction d) (auto split: if_split_asm)

lemma dsum_sum: "dict_ok d \<Longrightarrow> dsum d = (\<Sum>i\<in>set (map fst d). the (dict_get d i))"
proof (induction d)
  case (Cons p d)
  have "(\<Sum>i\<in>set (map fst d). the (dict_get (p # d) i)) = (\<Sum>i\<in>set (map fst d). the (dict_get d i))"
    by (rule sum.cong) (use Cons.prems in \<open>auto simp: dict_ok_def image_iff\<close>)
  then show ?case using Cons by (cases p) (auto simp: dsum_def dict_ok_def)
qed (simp add: dsum_def)

lemma dict_get_keys: "dict_get d k = None \<longleftrightarrow> k \<notin> set (map fst d)"
  by (simp add: map_of_eq_None_iff)

section \<open>The invariant of water filling\<close>

definition full :: "(nat, int) dict \<Rightarrow> nat \<Rightarrow> int" where
  "full capacities i = max 0 (the (dict_get capacities i))"

definition water_inv :: "(nat, int) dict \<Rightarrow> int \<Rightarrow> water_state \<Rightarrow> bool" where
  "water_inv capacities reduction st = (case st of (al, remaining, progressed, active) \<Rightarrow>
     map fst al = map fst capacities \<and> 0 \<le> remaining \<and> dsum al + remaining = reduction \<and>
     (\<forall>i\<in>set (map fst capacities). 0 \<le> the (dict_get al i) \<and> the (dict_get al i) \<le> full capacities i) \<and>
     distinct active \<and>
     set active = {i \<in> set (map fst capacities). the (dict_get al i) < the (dict_get capacities i)})"

lemma water_step_inv:
  assumes "water_inv capacities reduction st" "dict_ok capacities"
    and "i \<in> set (snd (snd (snd st)))" "0 < fst (snd st)"
    and "water_step capacities pressures total_pressure i st = Inr st'"
  shows "water_inv capacities reduction st'" "fst (snd (snd st)) < fst (snd (snd st'))"
    "set (snd (snd (snd st))) - {i} \<subseteq> set (snd (snd (snd st')))"
proof -
  obtain al remaining progressed active where st: "st = (al, remaining, progressed, active)"
    by (cases st)
  define a where "a = the (dict_get al i)"
  define c where "c = the (dict_get capacities i)"
  from assms(1) have keys: "map fst al = map fst capacities" and sum: "dsum al + remaining = reduction"
    and bnd: "\<forall>i\<in>set (map fst capacities). 0 \<le> the (dict_get al i) \<and> the (dict_get al i) \<le> full capacities i"
    and act: "distinct active"
      "set active = {i \<in> set (map fst capacities). the (dict_get al i) < the (dict_get capacities i)}"
    by (auto simp: water_inv_def st)
  have i: "i \<in> set active" and rem: "0 < remaining" using assms(3,4) by (simp_all add: st)
  then have ik: "i \<in> set (map fst capacities)" and ac: "a < c" using act(2) by (auto simp: a_def c_def)
  then have ga: "dict_get al i = Some a" using keys dict_get_keys [of al i] by (auto simp: a_def)
  have okal: "dict_ok al" using assms(2) keys by (simp add: dict_ok_def)
  obtain proportional where
    s: "st' = (let amount = min (min (c - a) (max 1 proportional)) remaining in
      (dict_set i (a + amount) al, remaining - amount, progressed + amount,
       if c \<le> a + amount then removeAll i active else active))"
    using assms(5) by (auto simp: water_step_def st Let_def a_def c_def)
  define amount where "amount = min (min (c - a) (max 1 proportional)) remaining"
  have am: "1 \<le> amount" "amount \<le> c - a" "amount \<le> remaining" using ac rem by (auto simp: amount_def)
  have s': "st' = (dict_set i (a + amount) al, remaining - amount, progressed + amount,
       if c \<le> a + amount then removeAll i active else active)"
    using s by (simp add: amount_def Let_def)
  have get: "dict_get (dict_set i (a + amount) al) j = (if j = i then Some (a + amount) else dict_get al j)" for j
    by (simp add: dict_get_set)
  have "dsum (dict_set i (a + amount) al) = dsum al + amount" using dsum_set [OF ga okal] by simp
  moreover have "map fst (dict_set i (a + amount) al) = map fst capacities"
    using keys_set [of al i] ga keys by simp
  moreover have "full capacities i = c" "0 \<le> a" using bnd ik ac by (auto simp: full_def c_def a_def)
  ultimately show "water_inv capacities reduction st'" using am sum act bnd
    by (auto simp: s' water_inv_def get a_def [symmetric] c_def [symmetric] distinct_removeAll)
  show "fst (snd (snd st)) < fst (snd (snd st'))" using am by (simp add: st s')
  show "set (snd (snd (snd st))) - {i} \<subseteq> set (snd (snd (snd st')))" by (auto simp: st s')
qed

lemma water_pass_inv:
  assumes "water_pass capacities pressures total_pressure is st = Inr st'"
    and "water_inv capacities reduction st" "dict_ok capacities" "distinct is"
    and "set is \<subseteq> set (snd (snd (snd st)))" "0 < fst (snd st)"
  shows "water_inv capacities reduction st' \<and> fst (snd (snd st)) \<le> fst (snd (snd st')) \<and>
    (is \<noteq> [] \<longrightarrow> fst (snd (snd st)) < fst (snd (snd st')))"
  using assms
proof (induction "is" arbitrary: st)
  case (Cons i "is")
  from Cons.prems(1) obtain st1 where s: "water_step capacities pressures total_pressure i st = Inr st1"
    and r: "(if fst (snd st1) \<le> 0 then Inr st1 else water_pass capacities pressures total_pressure is st1) = Inr st'"
    by auto
  have "i \<in> set (snd (snd (snd st)))" using Cons.prems(5) by simp
  note inv = water_step_inv [OF Cons.prems(2,3) this Cons.prems(6) s]
  show ?case
  proof (cases "fst (snd st1) \<le> 0")
    case True
    with r inv show ?thesis by auto
  next
    case False
    then have p: "water_pass capacities pressures total_pressure is st1 = Inr st'" using r by simp
    have "set is \<subseteq> set (snd (snd (snd st1)))" using inv(3) Cons.prems(4,5) by auto
    with Cons.IH [OF p inv(1) Cons.prems(3)] Cons.prems(4) False inv(2) show ?thesis by auto
  qed
qed simp

lemma water_loop_inv:
  assumes "water_loop set_order capacities pressures al remaining active = Inr al'"
    and "water_inv capacities reduction (al, remaining, 0, active)" "dict_ok capacities"
  shows "\<exists>remaining' active'. water_inv capacities reduction (al', remaining', 0, active') \<and>
    (remaining' = 0 \<or> active' = [])"
  using assms
proof (induction set_order capacities pressures al remaining active rule: water_loop.induct)
  case (1 set_order caps pressures al remaining active)
  show ?case
  proof (cases "0 < remaining \<and> active \<noteq> []")
    case False
    then have "al' = al" using "1.prems"(1)
      unfolding water_loop.simps [of set_order caps pressures al remaining active] if_not_P [OF False] by simp
    with False "1.prems"(2) show ?thesis by (auto simp: water_inv_def)
  next
    case True
    let ?m = "rbind (rmap (pressure_at pressures) (set_order active)) (\<lambda>ps.
              water_pass caps pressures (fsum ps) active (al, remaining, 0, active))"
    note unf = "1.prems"(1) [unfolded water_loop.simps [of set_order caps pressures al remaining active]]
    obtain al1 rem1 prog1 act1 where m: "?m = Inr (al1, rem1, prog1, act1)"
      using unf True by (cases ?m) auto
    then obtain ps where p: "water_pass caps pressures (fsum ps) active (al, remaining, 0, active)
        = Inr (al1, rem1, prog1, act1)" by auto
    have d: "distinct active" using "1.prems"(2) by (simp add: water_inv_def)
    from water_pass_inv [OF p "1.prems"(2,3) d] True
    have inv: "water_inv caps reduction (al1, rem1, prog1, act1)" "0 < prog1" by auto
    then have inv0: "water_inv caps reduction (al1, rem1, 0, act1)" by (simp add: water_inv_def)
    have "water_loop set_order caps pressures al1 rem1 act1 = Inr al'"
      using unf m True inv(2) by auto
    from "1.IH" [OF True m refl _ _ _ this inv0 "1.prems"(3)] inv(2) show ?thesis by auto
  qed
qed

lemma water_start:
  assumes "dict_ok capacities" "0 < reduction"
  shows "water_inv capacities reduction (map (\<lambda>(i, _). (i, 0)) capacities, reduction, 0,
    sort (map fst (filter (\<lambda>(_, c). 0 < c) capacities)))"
proof -
  define zero where "zero = map (\<lambda>p. (fst p, 0::int)) capacities"
  have keys: "map fst zero = map fst capacities" by (simp add: zero_def comp_def)
  have z: "dict_get zero i = Some 0" if "i \<in> fst ` set capacities" for i
    using that unfolding zero_def by (induction capacities) auto
  have s: "dsum zero = 0" unfolding zero_def by (induction capacities) (auto simp: dsum_def)
  let ?active = "map fst (filter (\<lambda>p. 0 < snd p) capacities)"
  have d: "distinct ?active" using assms(1) by (simp add: dict_ok_def distinct_map_filter)
  have "i \<in> set ?active \<longleftrightarrow> i \<in> fst ` set capacities \<and> 0 < the (dict_get capacities i)" for i
  proof -
    have "(i, c) \<in> set capacities \<Longrightarrow> dict_get capacities i = Some c" for c
      using assms(1) by (simp add: dict_ok_def)
    then show ?thesis by force
  qed
  then have "set ?active = {i \<in> fst ` set capacities. the (dict_get zero i) < the (dict_get capacities i)}"
    using z by force
  with d assms(2) s keys z show ?thesis
    by (auto simp: water_inv_def full_def split_def zero_def [symmetric])
qed

lemma water_fill_exact_lemma:
  assumes "water_fill set_order reduction capacities pressures = Inr out" "dict_ok capacities"
  shows "dsum out = min (max 0 reduction) (\<Sum>i\<in>set (map fst capacities). full capacities i)"
    "\<forall>(i, a)\<in>set out. 1 \<le> a \<and> (\<exists>c. dict_get capacities i = Some c \<and> a \<le> c)"
    "dict_ok out"
proof -
  obtain al where l: "water_loop set_order capacities pressures (map (\<lambda>(i, _). (i, 0)) capacities) reduction
      (sort (map fst (filter (\<lambda>(_, c). 0 < c) capacities))) = Inr al"
    and out: "out = filter (\<lambda>(_, amount). 0 < amount) al"
    using assms(1) by (auto simp: water_fill_def)
  let ?K = "set (map fst capacities)"
  have key: "\<exists>rem. map fst al = map fst capacities \<and> (\<forall>i\<in>?K. 0 \<le> the (dict_get al i) \<and>
      the (dict_get al i) \<le> full capacities i) \<and>
      dsum al = min (max 0 reduction) (\<Sum>i\<in>?K. full capacities i)"
  proof (cases "0 < reduction")
    case True
    obtain rem active where inv: "water_inv capacities reduction (al, rem, 0, active)" "rem = 0 \<or> active = []"
      using water_loop_inv [OF l water_start [OF assms(2) True] assms(2)] by blast
    then have ok: "dict_ok al" and keys: "map fst al = map fst capacities"
      using assms(2) by (auto simp: water_inv_def dict_ok_def)
    have sum: "dsum al = (\<Sum>i\<in>?K. the (dict_get al i))" using dsum_sum [OF ok] keys by simp
    have le: "dsum al \<le> (\<Sum>i\<in>?K. full capacities i)" unfolding sum
      by (rule sum_mono) (use inv(1) in \<open>auto simp: water_inv_def\<close>)
    have "dsum al = (\<Sum>i\<in>?K. full capacities i)" if "active = []"
      unfolding sum
    proof (rule sum.cong)
      fix i assume "i \<in> ?K"
      with inv(1) that have "0 \<le> the (dict_get al i)" "the (dict_get al i) \<le> full capacities i"
        "\<not> the (dict_get al i) < the (dict_get capacities i)" by (auto simp: water_inv_def)
      then show "the (dict_get al i) = full capacities i" by (simp add: full_def)
    qed simp
    then show ?thesis using inv le True by (auto simp: water_inv_def)
  next
    case False
    then have al: "al = map (\<lambda>(i, _). (i, 0)) capacities" using l by (simp add: water_loop.simps)
    have "map fst al = map fst capacities" "dsum al = 0"
      unfolding al by (induction capacities) (auto simp: dsum_def)
    moreover have "\<forall>i\<in>?K. dict_get al i = Some 0"
      unfolding al by (induction capacities) auto
    moreover have "0 \<le> (\<Sum>i\<in>?K. full capacities i)" by (rule sum_nonneg) (simp add: full_def)
    ultimately show ?thesis using False by (auto simp: full_def)
  qed
  then have keys: "map fst al = map fst capacities"
    and bnd: "\<forall>i\<in>?K. 0 \<le> the (dict_get al i) \<and> the (dict_get al i) \<le> full capacities i"
    and tot: "dsum al = min (max 0 reduction) (\<Sum>i\<in>?K. full capacities i)" by auto
  have ok: "dict_ok al" using assms(2) keys by (simp add: dict_ok_def)
  have mem: "(i, a) \<in> set al \<Longrightarrow> dict_get al i = Some a \<and> i \<in> ?K" for i a
  proof
    assume ia: "(i, a) \<in> set al"
    with ok show "dict_get al i = Some a" by (simp add: dict_ok_def)
    from ia have "i \<in> set (map fst al)" by force
    then show "i \<in> ?K" by (simp only: keys)
  qed
  have nn: "\<forall>p\<in>set al. 0 \<le> snd p" using mem bnd by fastforce
  then have "dsum out = dsum al" unfolding out dsum_def
    by (induction al) (auto simp: split_def)
  with tot show "dsum out = min (max 0 reduction) (\<Sum>i\<in>?K. full capacities i)" by simp
  show "\<forall>(i, a)\<in>set out. 1 \<le> a \<and> (\<exists>c. dict_get capacities i = Some c \<and> a \<le> c)"
  proof clarify
    fix i a assume "(i, a) \<in> set out"
    then have "(i, a) \<in> set al" "0 < a" by (auto simp: out)
    with mem [of i a] bnd have "a \<le> full capacities i" "i \<in> ?K" by fastforce+
    with \<open>0 < a\<close> show "1 \<le> a \<and> (\<exists>c. dict_get capacities i = Some c \<and> a \<le> c)"
      using dict_get_keys [of capacities i] by (auto simp: full_def split: if_split_asm)
  qed
  show "dict_ok out" using ok unfolding out dict_ok_def by (simp add: distinct_map_filter)
qed

section \<open>Water filling returns\<close>

lemma pressure_floor_bounds: "\<exists>r. pressure_floor = Fin r \<and> 1 / 2 ^ 30 \<le> r \<and> r \<le> 1"
proof -
  obtain r where r: "fl (1 / 1000000000) = Fin r" "0 \<le> r" "r \<le> 1" using fl_unit [of "1 / 1000000000"] by auto
  have "rnd (of_int 1 * scale2 (- 30)) = of_int 1 * scale2 (- 30)" by (rule rnd_exact) auto
  then have "is_double (1 / 2 ^ 30)" by (simp add: is_double_def scale2_def inverse_eq_divide)
  moreover have "(1 / 2 ^ 30 :: rat) \<le> 1 / 1000000000" by simp
  ultimately show ?thesis using fl_ge [OF _ _ r(1)] r unfolding pressure_floor_def by blast
qed

definition pressures_ok :: "(nat, int) dict \<Rightarrow> (nat, pyfloat) dict \<Rightarrow> bool" where
  "pressures_ok capacities pressures \<longleftrightarrow>
     (\<forall>i\<in>set (map fst capacities). \<exists>q. dict_get pressures i = Some (Fin q) \<and> 0 \<le> q \<and> q \<le> 2 ^ 20)"

lemma pressure_at_ok:
  assumes "pressures_ok capacities pressures" "i \<in> set (map fst capacities)"
  shows "\<exists>q. pressure_at pressures i = Inr (Fin q) \<and> 1 / 2 ^ 30 \<le> q \<and> q \<le> 2 ^ 20"
proof -
  obtain q where q: "dict_get pressures i = Some (Fin q)" "0 \<le> q" "q \<le> 2 ^ 20"
    using assms unfolding pressures_ok_def by blast
  obtain r where r: "pressure_floor = Fin r" "1 / 2 ^ 30 \<le> r" "r \<le> 1" using pressure_floor_bounds by blast
  have "r \<le> (2::rat) ^ 20" using r(3) by (rule order_trans) simp
  moreover have "pressure_at pressures i = Inr (Fin (if q < r then r else q))"
    by (simp add: pressure_at_def q(1) pmax_def r(1))
  moreover have "1 / 2 ^ 30 \<le> q" if "\<not> q < r" using r(2) that by (meson not_less order_trans)
  ultimately show ?thesis using q r(2) by (cases "q < r") auto
qed

lemma fsum_bounds:
  assumes "\<forall>x\<in>set xs. \<exists>q. x = Fin q \<and> lo \<le> q \<and> q \<le> 2 ^ 20" "0 \<le> lo"
    and "0 \<le> j" "(j + int (length xs)) * 2 ^ 20 \<le> 2 ^ 53" "0 \<le> s" "s \<le> of_int (j * 2 ^ 20)"
    and "is_double s"
  shows "\<exists>t. foldl (+) (Fin s) xs = Fin t \<and> s \<le> t"
  using assms
proof (induction xs arbitrary: s j)
  case (Cons x xs)
  obtain q where q: "x = Fin q" "lo \<le> q" "q \<le> 2 ^ 20" using Cons.prems(1) by auto
  have b: "s + q \<le> of_int ((j + 1) * 2 ^ 20)" using Cons.prems(6) q by (simp add: algebra_simps)
  have "(j + 1) * 2 ^ 20 \<le> (j + int (length (x # xs))) * 2 ^ 20" by simp
  then have k: "(j + 1) * 2 ^ 20 \<le> 2 ^ 53" using Cons.prems(4) by linarith
  obtain r where r: "fl (s + q) = Fin r" "0 \<le> r" "r \<le> of_int ((j + 1) * 2 ^ 20)"
    using fl_within [of "s + q" "(j + 1) * 2 ^ 20"] b k Cons.prems q by auto
  have sr: "s \<le> r" using fl_ge [OF Cons.prems(7) _ r(1)] q Cons.prems(2) by simp
  have "\<exists>t. foldl (+) (Fin r) xs = Fin t \<and> r \<le> t"
    by (rule Cons.IH [where j = "j + 1"])
      (use Cons.prems r fl_Fin [OF r(1)] in \<open>auto simp: algebra_simps\<close>)
  then show ?case using sr by (auto simp: q(1) Fin_add r(1))
qed simp

lemma total_pressure_ok:
  assumes "\<forall>x\<in>set xs. \<exists>q. x = Fin q \<and> 1 / 2 ^ 30 \<le> q \<and> q \<le> 2 ^ 20" "xs \<noteq> []"
    and "int (length xs) \<le> 2 ^ 33"
  shows "\<exists>t. fsum xs = Fin t \<and> 1 / 2 ^ 30 \<le> t"
proof -
  obtain x ys where xs: "xs = x # ys" using assms(2) by (cases xs) auto
  obtain q where q: "x = Fin q" "1 / 2 ^ 30 \<le> q" "q \<le> 2 ^ 20" using assms(1) xs by auto
  have "0 \<le> q" using q(2) by (rule order_trans [rotated]) simp
  obtain r where r: "fl q = Fin r" "0 \<le> r" "r \<le> 2 ^ 20" using fl_upto [OF \<open>0 \<le> q\<close> q(3)] by auto
  have "rnd (of_int 1 * scale2 (- 30)) = of_int 1 * scale2 (- 30)" by (rule rnd_exact) auto
  then have "is_double (1 / 2 ^ 30)" by (simp add: is_double_def scale2_def inverse_eq_divide)
  then have lo: "1 / 2 ^ 30 \<le> r" using fl_ge [OF _ q(2) r(1)] by blast
  have "\<exists>t. foldl (+) (Fin r) ys = Fin t \<and> r \<le> t"
    by (rule fsum_bounds [where lo = "1 / 2 ^ 30" and j = 1]) (use assms r xs fl_Fin [OF r(1)] in auto)
  then show ?thesis using lo by (auto simp: fsum_def xs q(1) Fin_add r(1))
qed

lemma water_step_ok:
  assumes "pressures_ok capacities pressures" "i \<in> set (map fst capacities)"
    and "0 \<le> fst (snd st)" "fst (snd st) \<le> 2 ^ 53" "1 / 2 ^ 30 \<le> t"
  shows "\<exists>st'. water_step capacities pressures (Fin t) i st = Inr st'"
proof -
  obtain al remaining progressed active where st: "st = (al, remaining, progressed, active)" by (cases st)
  obtain q where q: "pressure_at pressures i = Inr (Fin q)" "1 / 2 ^ 30 \<le> q" "q \<le> 2 ^ 20"
    using pressure_at_ok [OF assms(1,2)] by blast
  have r: "fl_of_int remaining = Fin (of_int remaining)"
    by (rule fl_of_int_small) (use assms(3,4) in \<open>simp add: st\<close>)
  have q0: "0 \<le> q" using q(2) by (rule order_trans [rotated]) simp
  have "(of_int remaining :: rat) \<le> of_int (2 ^ 53)"
    using assms(4) by (simp only: of_int_le_iff st fst_conv snd_conv)
  then have rem: "0 \<le> (of_int remaining :: rat)" "of_int remaining \<le> (2::rat) ^ 53"
    using assms(3) by (simp_all add: st)
  have "of_int remaining * q \<le> 2 ^ 53 * 2 ^ 20" by (rule mult_mono) (use rem q q0 in auto)
  then have "of_int remaining * q \<le> 2 ^ 73" by simp
  then obtain u where u: "fl (of_int remaining * q) = Fin u" "0 \<le> u" "u \<le> 2 ^ 73"
    using fl_upto [of "of_int remaining * q" 73] rem q0 by auto
  have t: "0 < t" using assms(5) by (rule less_le_trans [rotated]) simp
  have "1 / t \<le> 2 ^ 30" using assms(5) t by (simp add: field_simps)
  then have "u * (1 / t) \<le> 2 ^ 73 * 2 ^ 30" using u t by (intro mult_mono) auto
  then have "u / t \<le> 2 ^ 103" by simp
  then obtain v where "fl (u / t) = Fin v" using fl_upto [of "u / t" 103] u t by auto
  then show ?thesis using t
    by (simp add: water_step_def st q(1) r fin_arith u(1) Let_def)
qed

lemma water_pass_ok:
  assumes "pressures_ok capacities pressures" "dict_ok capacities" "1 / 2 ^ 30 \<le> t"
    and "water_inv capacities reduction st" "distinct is" "reduction \<le> 2 ^ 53"
    and "set is \<subseteq> set (snd (snd (snd st)))" "0 < fst (snd st)"
  shows "\<exists>st'. water_pass capacities pressures (Fin t) is st = Inr st'"
  using assms(4-)
proof (induction "is" arbitrary: st)
  case (Cons i "is")
  have rem: "fst (snd st) \<le> 2 ^ 53 \<and> i \<in> set (map fst capacities)"
  proof -
    obtain al remaining progressed active where st: "st = (al, remaining, progressed, active)" by (cases st)
    have keys: "map fst al = map fst capacities"
      and bnd: "\<forall>i\<in>set (map fst capacities). 0 \<le> the (dict_get al i)"
      and sum: "dsum al + remaining = reduction" using Cons.prems(1) by (auto simp: water_inv_def st)
    have "dict_ok al" using assms(2) keys by (simp add: dict_ok_def)
    then have "dsum al = (\<Sum>i\<in>set (map fst capacities). the (dict_get al i))" using dsum_sum [of al] keys by simp
    then have "0 \<le> dsum al" using bnd by (simp only: sum_nonneg)
    with sum Cons.prems show ?thesis by (auto simp: st water_inv_def)
  qed
  obtain st1 where s: "water_step capacities pressures (Fin t) i st = Inr st1"
    using water_step_ok [OF assms(1) _ _ _ assms(3), of i st] rem Cons.prems(5) by auto
  have "i \<in> set (snd (snd (snd st)))" using Cons.prems(4) by simp
  note inv = water_step_inv [OF Cons.prems(1) assms(2) this Cons.prems(5) s]
  show ?case
  proof (cases "fst (snd st1) \<le> 0")
    case False
    have "set is \<subseteq> set (snd (snd (snd st1)))" using inv(3) Cons.prems(2,4) by auto
    then have "\<exists>st'. water_pass capacities pressures (Fin t) is st1 = Inr st'"
      using Cons.IH [OF inv(1)] Cons.prems(2,3) False by auto
    with s False show ?thesis by simp
  next
    case True
    show ?thesis by (rule exI [of _ st1]) (use s True in simp)
  qed
qed (rule exI, rule water_pass.simps(1))

lemma water_loop_ok:
  assumes "pressures_ok capacities pressures" "dict_ok capacities" "reduction \<le> 2 ^ 53"
    and "\<And>xs. mset (set_order xs) = mset xs" "int (length capacities) \<le> 2 ^ 33"
    and "water_inv capacities reduction (al, remaining, 0, active)"
  shows "\<exists>out. water_loop set_order capacities pressures al remaining active = Inr out"
  using assms
proof (induction set_order capacities pressures al remaining active rule: water_loop.induct)
  case (1 set_order caps pressures al remaining active)
  show ?case
  proof (cases "0 < remaining \<and> active \<noteq> []")
    case False
    then show ?thesis
      unfolding water_loop.simps [of set_order caps pressures al remaining active] if_not_P [OF False] by simp
  next
    case True
    have act: "distinct active" "set active \<subseteq> set (map fst caps)"
      using "1.prems"(6) by (auto simp: water_inv_def)
    have so: "set (set_order active) = set active" "length (set_order active) = length active"
      using "1.prems"(4) [of active] by (metis set_mset_mset, metis size_mset)
    have "\<forall>i\<in>set (set_order active). \<exists>q. pressure_at pressures i = Inr (Fin q) \<and> 1 / 2 ^ 30 \<le> q \<and> q \<le> 2 ^ 20"
      using pressure_at_ok [OF "1.prems"(1)] act(2) so(1) by blast
    then obtain f where f: "\<And>i. i \<in> set (set_order active) \<Longrightarrow>
        pressure_at pressures i = Inr (Fin (f i)) \<and> 1 / 2 ^ 30 \<le> f i \<and> f i \<le> 2 ^ 20" by metis
    have ps: "rmap (pressure_at pressures) (set_order active) = Inr (map (\<lambda>i. Fin (f i)) (set_order active))"
      by (rule rmap_ok) (use f in blast)
    have "length active \<le> length caps"
      using act card_mono [of "set (map fst caps)" "set active"] card_length [of "map fst caps"]
      by (simp add: distinct_card)
    then have "int (length (map (\<lambda>i. Fin (f i)) (set_order active))) \<le> 2 ^ 33" using "1.prems"(5) so(2) by simp
    moreover have "set_order active \<noteq> []" using True so(1) by (metis set_empty)
    ultimately obtain t where t: "fsum (map (\<lambda>i. Fin (f i)) (set_order active)) = Fin t" "1 / 2 ^ 30 \<le> t"
      using total_pressure_ok [of "map (\<lambda>i. Fin (f i)) (set_order active)"] f True so by auto
    obtain st where st: "water_pass caps pressures (Fin t) active (al, remaining, 0, active) = Inr st"
      using water_pass_ok [OF "1.prems"(1,2) t(2) "1.prems"(6) act(1) "1.prems"(3)] True by auto
    obtain al1 rem1 prog1 act1 where s: "st = (al1, rem1, prog1, act1)" by (cases st)
    have m: "rbind (rmap (pressure_at pressures) (set_order active)) (\<lambda>ps.
        water_pass caps pressures (fsum ps) active (al, remaining, 0, active)) = Inr (al1, rem1, prog1, act1)"
      by (simp add: ps t(1) st s)
    from water_pass_inv [OF st "1.prems"(6,2) act(1)] True s
    have inv: "water_inv caps reduction (al1, rem1, 0, act1)" "0 < prog1" by (auto simp: water_inv_def)
    have "\<exists>out. water_loop set_order caps pressures al1 rem1 act1 = Inr out"
      using "1.IH" [OF True m refl _ _ _ "1.prems"(1-5) inv(1)] inv(2) by auto
    then show ?thesis
      unfolding water_loop.simps [of set_order caps pressures al remaining active] if_P [OF True] m
      using inv(2) by simp
  qed
qed

lemma water_fill_ok:
  assumes "pressures_ok capacities pressures" "dict_ok capacities" "reduction \<le> 2 ^ 53"
    and "\<And>xs. mset (set_order xs) = mset xs" "int (length capacities) \<le> 2 ^ 33"
  shows "\<exists>out. water_fill set_order reduction capacities pressures = Inr out"
proof -
  have "\<exists>out. water_loop set_order capacities pressures (map (\<lambda>(i, _). (i, 0)) capacities) reduction
      (sort (map fst (filter (\<lambda>(_, c). 0 < c) capacities))) = Inr out"
  proof (cases "0 < reduction")
    case True
    show ?thesis by (rule water_loop_ok [OF assms water_start [OF assms(2) True]])
  qed (simp add: water_loop.simps)
  then show ?thesis by (auto simp: water_fill_def)
qed

section \<open>The planned reduction is within reach\<close>

lemma capacities_of_Inr:
  assumes "capacities_of kept cache plan = Inr caps"
  shows "dict_ok caps" "set (map fst caps) = set (cp_compactable_message_indices plan)"
    "i \<in> set (cp_compactable_message_indices plan) \<Longrightarrow> dict_get caps i =
       Some (if i \<in> set (ca_protected_message_indices cache) then 0 else max 0 (ca_message_tokens cache ! i - kept))"
proof -
  let ?is = "cp_compactable_message_indices plan"
  let ?v = "\<lambda>i. if i \<in> set (ca_protected_message_indices cache) then 0 else max 0 (ca_message_tokens cache ! i - kept)"
  obtain kvs where k: "rmap (\<lambda>i. if i \<in> set (ca_protected_message_indices cache) then Inr (i, 0)
      else rbind (token_at cache i) (\<lambda>t. Inr (i, max 0 (t - kept)))) ?is = Inr kvs"
    and caps: "caps = dict_of kvs" using assms by (auto simp: capacities_of_def)
  have kvs: "kvs = map (\<lambda>i. (i, ?v i)) ?is"
    by (rule rmap_map [OF k]) (auto simp: token_at_def split: if_split_asm)
  show "dict_ok caps" by (simp add: caps)
  have get: "dict_get caps i = map_of (map (\<lambda>i. (i, ?v i)) (rev ?is)) i" for i
    by (simp add: caps kvs dict_get_of rev_map)
  then have g: "dict_get caps i = (if i \<in> set ?is then Some (?v i) else None)" for i
    by (simp add: map_of_map_restrict restrict_map_def)
  show "set (map fst caps) = set ?is"
    using g dict_get_keys [of caps] by (metis (no_types, lifting) option.distinct(1) subsetI subset_antisym)
  show "i \<in> set ?is \<Longrightarrow> dict_get caps i = Some (?v i)" using g by simp
qed

lemma reducible_sum:
  "reducible kept cache is = Inr s \<Longrightarrow> distinct is \<Longrightarrow>
     s = (\<Sum>i\<in>set is. max 0 (ca_message_tokens cache ! i - kept))"
proof -
  assume "reducible kept cache is = Inr s" "distinct is"
  then obtain ts where t: "rmap (\<lambda>i. rbind (token_at cache i) (\<lambda>t. Inr (max 0 (t - kept)))) is = Inr ts"
    and s: "s = sum_list ts" by (auto simp: reducible_def)
  have "ts = map (\<lambda>i. max 0 (ca_message_tokens cache ! i - kept)) is"
    by (rule rmap_map [OF t]) (auto simp: token_at_def split: if_split_asm)
  with s \<open>distinct is\<close> show ?thesis by (simp add: sum_list_distinct_conv_sum_set)
qed

lemma plan_reach:
  assumes "plan_compaction kept cache decision budget = Inr plan"
    and "distinct (ca_compactable_message_indices cache)"
    and "capacities_of kept cache plan = Inr caps"
  shows "cp_required_reduction_tokens plan \<le> (\<Sum>i\<in>set (map fst caps). full caps i)"
    "cp_required_reduction_tokens plan = ca_total_tokens cache - cp_target_tokens plan"
    "set (cp_compactable_message_indices plan) \<subseteq>
       set (ca_compactable_message_indices cache) - set (ca_protected_message_indices cache)"
    "bud_required_context_tokens budget \<le> cp_target_tokens plan \<or> cp_target_tokens plan = ca_total_tokens cache"
proof -
  define u where "u = unprotected cache"
  define v where "v = filter (\<lambda>i. i \<notin> set (ca_cacheable_message_indices cache)) u"
  note a = assms(1) [unfolded plan_compaction_def minimum_reachable_tokens_def Let_def, folded u_def, folded v_def]
  obtain red where r: "reducible kept cache u = Inr red"
    using a by (cases "reducible kept cache u") simp_all
  obtain cap where c: "reducible kept cache v = Inr cap"
    using a by (cases "reducible kept cache v") (simp_all only: r rbind.simps, simp)
  note pl = a [unfolded r c rbind.simps, THEN Inr_inject, symmetric]
  have p: "cp_compactable_message_indices plan = filter (\<lambda>i. cap < cp_required_reduction_tokens plan \<or>
        i \<notin> set (ca_cacheable_message_indices cache)) u"
      "cp_target_tokens plan = max (ca_total_tokens cache - red) (min (ca_total_tokens cache) (bud_required_context_tokens budget))"
      "cp_required_reduction_tokens plan = max 0 (ca_total_tokens cache - cp_target_tokens plan)"
    by (simp_all only: pl compaction_plan.simps)
  have d: "distinct u" "distinct v" using assms(2) by (simp_all add: u_def v_def unprotected_def)
  note sums = reducible_sum [OF r d(1)] reducible_sum [OF c d(2)]
  have nn: "0 \<le> red" unfolding sums by (rule sum_nonneg) simp
  then have le: "cp_required_reduction_tokens plan \<le> red" using p(2,3) by simp
  show "cp_required_reduction_tokens plan = ca_total_tokens cache - cp_target_tokens plan"
    "bud_required_context_tokens budget \<le> cp_target_tokens plan \<or> cp_target_tokens plan = ca_total_tokens cache"
    using p(2,3) nn by auto
  have sub: "set (cp_compactable_message_indices plan) \<subseteq> set u" using p(1) by auto
  then show "set (cp_compactable_message_indices plan) \<subseteq>
       set (ca_compactable_message_indices cache) - set (ca_protected_message_indices cache)"
    by (auto simp: u_def unprotected_def)
  have "full caps i = max 0 (ca_message_tokens cache ! i - kept)"
    if "i \<in> set (cp_compactable_message_indices plan)" for i
    using capacities_of_Inr(3) [OF assms(3) that] sub that by (auto simp: full_def u_def unprotected_def)
  then have sum: "(\<Sum>i\<in>set (map fst caps). full caps i) =
      (\<Sum>i\<in>set (cp_compactable_message_indices plan). max 0 (ca_message_tokens cache ! i - kept))"
    by (simp add: capacities_of_Inr(2) [OF assms(3), simplified])
  show "cp_required_reduction_tokens plan \<le> (\<Sum>i\<in>set (map fst caps). full caps i)"
  proof (cases "cap < cp_required_reduction_tokens plan")
    case True
    then have "cp_compactable_message_indices plan = u" using p(1) by simp
    then show ?thesis using le sums(1) sum by simp
  next
    case False
    then have "cp_compactable_message_indices plan = v" using p(1) by (simp add: v_def)
    then show ?thesis using False sums(2) sum by simp
  qed
qed

section \<open>What the compactor changes\<close>

definition shrunk :: "json list \<Rightarrow> json list \<Rightarrow> compaction_record \<Rightarrow> bool" where
  "shrunk orig ms r \<longleftrightarrow> cr_message_index r < length orig \<and> cr_tokens_after r < cr_tokens_before r \<and>
     estimate_tokens (orig ! cr_message_index r) = Inr (cr_tokens_before r) \<and>
     estimate_tokens (ms ! cr_message_index r) = Inr (cr_tokens_after r) \<and>
     (\<exists>c. ms ! cr_message_index r = set_content (orig ! cr_message_index r) c)"

definition compacted :: "json list \<Rightarrow> json list \<Rightarrow> compaction_record list \<Rightarrow> bool" where
  "compacted orig ms recs \<longleftrightarrow> length ms = length orig \<and> distinct (map cr_message_index recs) \<and>
     (\<forall>j<length orig. j \<notin> set (map cr_message_index recs) \<longrightarrow> ms ! j = orig ! j) \<and>
     (\<forall>r\<in>set recs. shrunk orig ms r)"

lemma compacted_start: "compacted ms ms []"
  by (simp add: compacted_def)

lemma compact_one_Inr:
  assumes "compact_one sha kept cache plan alloc i (ms, rem, recs) = Inr (ms', rem', recs')"
  shows "(ms' = ms \<and> recs' = recs) \<or>
    (\<exists>c b a r. i < length ms \<and> ms' = ms[i := set_content (ms ! i) c] \<and> recs' = recs @ [r] \<and>
       estimate_tokens (ms ! i) = Inr b \<and> estimate_tokens (set_content (ms ! i) c) = Inr a \<and> a < b \<and>
       cr_message_index r = i \<and> cr_tokens_before r = b \<and> cr_tokens_after r = a)"
proof (cases "jget (ms ! i) ''content''")
  case (JStr s)
  have i: "i < length ms" using assms by (auto simp: compact_one_def split: if_split_asm)
  obtain b where b: "estimate_tokens (ms ! i) = Inr b"
    using assms i by (auto simp: compact_one_def JStr)
  note a1 = assms [unfolded compact_one_def prod.case JStr json.case b rbind.simps Let_def]
  show ?thesis
  proof (cases "min rem (the (dict_get alloc i)) \<le> 0")
    case True
    with a1 i show ?thesis by simp
  next
    case False
    with a1 i obtain n c where "estimate_tokens (JStr s) = Inr n"
      and c: "compact_text s (max kept (n - min rem (the (dict_get alloc i)))) (block_type_at cache i) = Inr c"
      by auto
    with a1 i False obtain a where a: "estimate_tokens (set_content (ms ! i) c) = Inr a"
      by (auto split: if_split_asm)
    with a1 i False \<open>estimate_tokens (JStr s) = Inr n\<close> c show ?thesis
      by (auto simp: b split: if_split_asm)
  qed
qed (use assms in \<open>auto simp: compact_one_def split: if_split_asm\<close>)

lemma compacted_step:
  assumes "compacted orig ms recs" "i < length ms" "i \<notin> set (map cr_message_index recs)"
    and "estimate_tokens (ms ! i) = Inr (cr_tokens_before r)" "cr_message_index r = i"
    and "estimate_tokens (set_content (ms ! i) c) = Inr (cr_tokens_after r)"
    and "cr_tokens_after r < cr_tokens_before r"
  shows "compacted orig (ms[i := set_content (ms ! i) c]) (recs @ [r])"
proof -
  have o: "ms ! i = orig ! i" "length ms = length orig" using assms(1-3) by (auto simp: compacted_def)
  have "shrunk orig (ms[i := set_content (ms ! i) c]) r" using assms o by (auto simp: shrunk_def)
  moreover have "shrunk orig (ms[i := set_content (ms ! i) c]) r'" if "r' \<in> set recs" for r'
  proof -
    have "cr_message_index r' \<noteq> i" using assms(3) that by auto
    moreover have "shrunk orig ms r'" using assms(1) that by (simp add: compacted_def)
    ultimately show ?thesis by (simp add: shrunk_def)
  qed
  ultimately show ?thesis using assms(1,3,5) by (auto simp: compacted_def nth_list_update)
qed

lemma compact_loop_Inr:
  assumes "compact_loop sha kept cache plan alloc is (ms, rem, recs) = Inr (ms', rem', recs')"
    and "compacted orig ms recs" "distinct is" "set is \<inter> set (map cr_message_index recs) = {}"
  shows "compacted orig ms' recs' \<and>
    set (map cr_message_index recs') \<subseteq> set (map cr_message_index recs) \<union> set is"
  using assms
proof (induction "is" arbitrary: ms rem recs)
  case (Cons i "is")
  obtain ms1 rem1 recs1 where one: "compact_one sha kept cache plan alloc i (ms, rem, recs) = Inr (ms1, rem1, recs1)"
    and rest: "compact_loop sha kept cache plan alloc is (ms1, rem1, recs1) = Inr (ms', rem', recs')"
    using Cons.prems(1) by (cases "compact_one sha kept cache plan alloc i (ms, rem, recs)") auto
  from compact_one_Inr [OF one] show ?case
  proof
    assume "ms1 = ms \<and> recs1 = recs"
    with Cons.IH [of ms rem1 recs] rest Cons.prems show ?thesis by auto
  next
    assume "\<exists>c b a r. i < length ms \<and> ms1 = ms[i := set_content (ms ! i) c] \<and> recs1 = recs @ [r] \<and>
       estimate_tokens (ms ! i) = Inr b \<and> estimate_tokens (set_content (ms ! i) c) = Inr a \<and> a < b \<and>
       cr_message_index r = i \<and> cr_tokens_before r = b \<and> cr_tokens_after r = a"
    then obtain c r where s: "i < length ms" "ms1 = ms[i := set_content (ms ! i) c]" "recs1 = recs @ [r]"
      "estimate_tokens (ms ! i) = Inr (cr_tokens_before r)" "cr_message_index r = i"
      "estimate_tokens (set_content (ms ! i) c) = Inr (cr_tokens_after r)"
      "cr_tokens_after r < cr_tokens_before r" by blast
    have "compacted orig ms1 recs1" unfolding s(2,3)
      by (rule compacted_step) (use Cons.prems s in auto)
    with Cons.IH [OF rest] Cons.prems(3,4) s(3,5) show ?thesis by auto
  qed
qed simp

lemma compaction_order_set: "dict_ok al \<Longrightarrow> distinct (compaction_order al) \<and> set (compaction_order al) = set (map fst al)"
  by (simp add: compaction_order_def dict_ok_def)

lemma compact_Inr:
  assumes "compact sha set_order kept ms cache plan = Inr res"
  shows "compacted ms (cres_messages res) (cres_records res)"
    "set (map cr_message_index (cres_records res)) \<subseteq>
       set (cp_compactable_message_indices plan) - set (ca_protected_message_indices cache)"
    "length ms = length (ca_message_tokens cache)"
    "\<exists>after. rmap estimate_tokens (cres_messages res) = Inr after \<and>
       cres_tokens_after res = ca_tool_tokens cache + sum_list after"
    "cres_target_met res = (cres_tokens_after res \<le> cp_target_tokens plan)"
    "cres_tokens_before res = ca_total_tokens cache"
proof -
  obtain caps al rem where
    caps: "capacities_of kept cache plan = Inr caps" and
    al: "water_fill set_order (cp_required_reduction_tokens plan) caps (pressures_of cache plan) = Inr al" and
    loop: "compact_loop sha kept cache plan al (compaction_order al)
       (ms, cp_required_reduction_tokens plan, []) = Inr (cres_messages res, rem, cres_records res)" and
    rest: "length ms = length (ca_message_tokens cache)"
      "\<exists>after. rmap estimate_tokens (cres_messages res) = Inr after \<and>
         cres_tokens_after res = ca_tool_tokens cache + sum_list after"
      "cres_target_met res = (cres_tokens_after res \<le> cp_target_tokens plan)"
      "cres_tokens_before res = ca_total_tokens cache"
    using assms by (auto simp: compact_def Let_def split: if_split_asm)
  note w = water_fill_exact_lemma [OF al capacities_of_Inr(1) [OF caps]]
  have "set (map fst al) \<subseteq> set (cp_compactable_message_indices plan) - set (ca_protected_message_indices cache)"
  proof
    fix i assume "i \<in> set (map fst al)"
    then obtain a c where "(i, a) \<in> set al" "1 \<le> a" "dict_get caps i = Some c" "a \<le> c" using w(2) by force
    then have "i \<in> set (cp_compactable_message_indices plan)" "1 \<le> the (dict_get caps i)"
      using capacities_of_Inr(2) [OF caps] dict_get_keys [of caps i] by auto
    with capacities_of_Inr(3) [OF caps] show "i \<in> set (cp_compactable_message_indices plan) - set (ca_protected_message_indices cache)"
      by (auto split: if_split_asm)
  qed
  moreover have c: "compacted ms (cres_messages res) (cres_records res) \<and>
      set (map cr_message_index (cres_records res)) \<subseteq> set (map fst al)"
    using compact_loop_Inr [OF loop compacted_start] compaction_order_set [OF w(3)] by auto
  ultimately show "set (map cr_message_index (cres_records res)) \<subseteq>
       set (cp_compactable_message_indices plan) - set (ca_protected_message_indices cache)" by blast
  show "compacted ms (cres_messages res) (cres_records res)" using c by simp
qed (use assms in \<open>auto simp: compact_def Let_def split: if_split_asm\<close>)

lemma compacted_tokens:
  assumes "compacted orig ms recs" "rmap estimate_tokens orig = Inr before" "rmap estimate_tokens ms = Inr after"
  shows "sum_list after = sum_list before - (\<Sum>r\<leftarrow>recs. cr_tokens_before r - cr_tokens_after r)"
proof -
  let ?I = "set (map cr_message_index recs)" and ?N = "{..<length orig}"
  have len: "length ms = length orig" "length before = length orig" "length after = length orig"
    using assms(1) rmap_length [OF assms(2)] rmap_length [OF assms(3)] by (auto simp: compacted_def)
  have nth: "estimate_tokens (orig ! j) = Inr (before ! j)" "estimate_tokens (ms ! j) = Inr (after ! j)"
    if "j < length orig" for j
    using assms(2,3) that len by (auto simp: rmap_Inr list_all2_conv_all_nth)
  have d: "distinct (map cr_message_index recs)" and sub: "?I \<subseteq> ?N"
    using assms(1) by (auto simp: compacted_def shrunk_def)
  have same: "before ! j - after ! j = 0" if "j \<in> ?N - ?I" for j
    using that nth [of j] assms(1) by (auto simp: compacted_def)
  have diff: "cr_tokens_before r - cr_tokens_after r = before ! cr_message_index r - after ! cr_message_index r"
    if "r \<in> set recs" for r
    using that nth [of "cr_message_index r"] assms(1) by (auto simp: compacted_def shrunk_def)
  have "sum_list before - sum_list after = (\<Sum>j\<in>?N. before ! j - after ! j)"
    by (simp add: sum_list_sum_nth len sum_subtractf atLeast0LessThan)
  also have "\<dots> = (\<Sum>j\<in>?I. before ! j - after ! j)"
    by (rule sum.mono_neutral_right) (use sub same in auto)
  also have "\<dots> = (\<Sum>j\<leftarrow>map cr_message_index recs. before ! j - after ! j)"
    by (rule sum_list_distinct_conv_sum_set [OF d, symmetric])
  also have "\<dots> = (\<Sum>r\<leftarrow>recs. cr_tokens_before r - cr_tokens_after r)"
    using diff by (simp add: comp_def cong: map_cong)
  finally show ?thesis by simp
qed

lemma savings_nonneg: "compacted orig ms recs \<Longrightarrow> 0 \<le> (\<Sum>r\<leftarrow>recs. cr_tokens_before r - cr_tokens_after r)"
  by (rule sum_list_nonneg_int) (auto simp: compacted_def shrunk_def)

section \<open>The length of a summary\<close>

lemma share_bound:
  assumes "0 \<le> b" "b \<le> 2 ^ 53" "0 \<le> q" "q \<le> 1 / 2 ^ k" "k \<le> 2"
    and "fl q = Fin c" "py_floor (fl_of_int b * fl q) = Inr n"
  shows "of_int n \<le> (of_int b :: rat) / 2 ^ k"
proof -
  have b: "fl_of_int b = Fin (of_int b)" by (rule fl_of_int_small) (use assms in simp)
  have dbl: "is_double (of_int i / 2 ^ k)" if "\<bar>i\<bar> \<le> 2 ^ 53" for i
  proof -
    have "rnd (of_int i * scale2 (- int k)) = of_int i * scale2 (- int k)"
      by (rule rnd_exact) (use that assms(5) in auto)
    moreover have "scale2 (- int k) = 1 / 2 ^ k" by (simp add: scale2_powi power_int_minus inverse_eq_divide)
    ultimately show ?thesis by (simp add: is_double_def)
  qed
  have "c \<le> 1 / 2 ^ k" by (rule fl_le [OF _ assms(4,6)]) (use dbl [of 1] in simp)
  moreover have "0 \<le> (of_int b :: rat)" using assms(1) by simp
  ultimately have "of_int b * c \<le> of_int b * (1 / 2 ^ k)" by (rule mult_left_mono)
  then have le: "of_int b * c \<le> of_int b / 2 ^ k" by simp
  obtain r where r: "fl (of_int b * c) = Fin r" "n = \<lfloor>r\<rfloor>"
    using assms(7) by (cases "fl (of_int b * c)") (auto simp: b assms(6) fin_arith)
  have "r \<le> of_int b / 2 ^ k" by (rule fl_le [OF dbl le r(1)]) (use assms in simp)
  then show ?thesis using r(2) of_int_floor_le [of r] by linarith
qed

lemma length_join_newline: "int (length (join [c] ps)) \<le> (\<Sum>p\<leftarrow>ps. int (length p)) + max 0 (int (length ps) - 1)"
  by (induction "[c]" ps rule: join.induct) auto

lemma length_slice_head: "0 \<le> n \<Longrightarrow> int (length (slice_head n s)) \<le> n"
  by (simp add: slice_head_def)

lemma length_slice_tail: "0 \<le> n \<Longrightarrow> int (length (slice_tail n s)) \<le> n"
  by (simp add: slice_tail_def)

lemma length_strip_marker: "int (length (strip (compaction_marker bt))) = int (length (compaction_marker bt)) - 2"
  by (cases bt; simp only:; code_simp)

lemma sum_filter_nonempty: "(\<Sum>p\<leftarrow>filter (\<lambda>p. p \<noteq> []) ps. int (length p)) = (\<Sum>p\<leftarrow>ps. int (length p))"
  by (induction ps) auto

lemma compact_text_length:
  assumes "compact_text content target bt = Inr t" "target \<le> 2 ^ 50"
    and "t \<noteq> content"
  shows "int (length t) \<le> max (4 * target) (48 + int (length (compaction_marker bt))) + 1"
proof -
  define m where "m = int (length (compaction_marker bt))"
  define b where "b = max 48 (target * 4 - m)"
  have m: "0 \<le> m" by (simp add: m_def)
  have b: "48 \<le> b" "b \<le> 2 ^ 53" using assms(2) m by (auto simp: b_def)
  have nle: "\<not> int (length content) \<le> b"
    using assms(1,3) by (auto simp: compact_text_def Let_def m_def [symmetric] b_def [symmetric])
  obtain h l where h: "py_floor (fl_of_int b * fl (45 / 100)) = Inr h"
    and l: "py_floor (fl_of_int b * fl (25 / 100)) = Inr l"
    and t: "t = (let head_budget = max 24 h; tail_budget = max 24 l;
             signal_text = rstrip (slice_head (max 0 (b - head_budget - tail_budget))
                             (join [CHR 0x0A] (important_lines bt (splitlines content))));
             parts = [rstrip (slice_head head_budget content), strip (compaction_marker bt)] @
                     (if signal_text \<noteq> [] then [signal_text] else []) @
                     [lstrip (slice_tail tail_budget content)]
         in join [CHR 0x0A] (filter (\<lambda>p. p \<noteq> []) parts))"
    using assms(1) nle
    by (auto simp: compact_text_def Let_def m_def [symmetric] b_def [symmetric])
  obtain c c' where "fl (45 / 100) = Fin c" "fl (25 / 100) = Fin c'"
    using fl_unit [of "45/100"] fl_unit [of "25/100"] by auto
  then have hb: "of_int h \<le> (of_int b :: rat) / 2 ^ 1" and lb: "of_int l \<le> (of_int b :: rat) / 2 ^ 2"
    using share_bound [of b "45/100" 1 c h] share_bound [of b "25/100" 2 c' l] h l b by simp_all
  have "2 * h \<le> b" using hb by simp
  moreover have "4 * l \<le> b" using lb by simp
  ultimately have hl: "max 24 h + max 24 l \<le> b" using b by linarith
  define hd_part where "hd_part = rstrip (slice_head (max 24 h) content)"
  define sg where "sg = rstrip (slice_head (max 0 (b - max 24 h - max 24 l))
                             (join [CHR 0x0A] (important_lines bt (splitlines content))))"
  define tl_part where "tl_part = lstrip (slice_tail (max 24 l) content)"
  define parts where "parts = [hd_part, strip (compaction_marker bt)] @ (if sg \<noteq> [] then [sg] else []) @ [tl_part]"
  have "int (length hd_part) \<le> max 24 h" "int (length sg) \<le> max 0 (b - max 24 h - max 24 l)"
    "int (length tl_part) \<le> max 24 l"
    unfolding hd_part_def sg_def tl_part_def
    using rstrip_length lstrip_length length_slice_head length_slice_tail
    by (meson max.cobounded1 max.coboundedI1 of_nat_mono order_trans zero_le_numeral)+
  then have "(\<Sum>p\<leftarrow>parts. int (length p)) \<le> b + (m - 2)"
    using hl by (auto simp: parts_def length_strip_marker m_def)
  moreover have "length (filter (\<lambda>p. p \<noteq> []) parts) \<le> 4"
    by (rule order_trans [OF length_filter_le]) (simp add: parts_def)
  moreover have tp: "t = join [CHR 0x0A] (filter (\<lambda>p. p \<noteq> []) parts)"
    unfolding t by (simp only: Let_def parts_def hd_part_def sg_def tl_part_def)
  ultimately have "int (length t) \<le> b + (m - 2) + 3"
    using length_join_newline [of "CHR 0x0A" "filter (\<lambda>p. p \<noteq> []) parts"]
    unfolding sum_filter_nonempty tp by linarith
  then show ?thesis by (auto simp: b_def m_def)
qed

section \<open>The recovery store as an interface\<close>

text \<open>
  What a session-scoped store promises: a content put is found again under its id by its own
  session only, and what one session puts, deletes or clears leaves the entries of the others
  as they were.
\<close>

datatype store_op = Put string string string | Delete string string | DeleteSession string

fun op_session :: "store_op \<Rightarrow> string" where
  "op_session (Put hex sid c) = sid"
| "op_session (Delete sid i) = sid"
| "op_session (DeleteSession sid) = sid"

locale scoped_store =
  fixes good :: "'s \<Rightarrow> bool"
    and put :: "string \<Rightarrow> string \<Rightarrow> string \<Rightarrow> 's \<Rightarrow> string \<times> 's"
    and get :: "string \<Rightarrow> string \<Rightarrow> 's \<Rightarrow> string result"
    and delete :: "string \<Rightarrow> string \<Rightarrow> 's \<Rightarrow> 's"
    and delete_session :: "string \<Rightarrow> 's \<Rightarrow> int \<times> 's"
  assumes good_put: "good s \<Longrightarrow> good (snd (put hex sid c s))"
    and good_delete: "good s \<Longrightarrow> good (delete sid i s)"
    and good_delete_session: "good s \<Longrightarrow> good (snd (delete_session sid s))"
    and get_put: "get sid (fst (put hex sid c s)) (snd (put hex sid c s)) = Inr c"
    and get_put_other: "i \<noteq> fst (put hex sid c s) \<Longrightarrow> get sid' i (snd (put hex sid c s)) = get sid' i s"
    and get_scoped: "get sid i s = Inr c \<Longrightarrow> sid' \<noteq> sid \<Longrightarrow> \<not> is_ok (get sid' i s)"
    and get_delete_foreign: "sid' \<noteq> sid \<Longrightarrow> get sid' i (delete sid j s) = get sid' i s"
    and get_delete_session_foreign:
      "good s \<Longrightarrow> sid' \<noteq> sid \<Longrightarrow> get sid' i (snd (delete_session sid s)) = get sid' i s"
    and get_delete_session: "good s \<Longrightarrow> \<not> is_ok (get sid i (snd (delete_session sid s)))"
begin

primrec exec :: "store_op \<Rightarrow> 's \<Rightarrow> 's" where
  "exec (Put hex sid c) s = snd (put hex sid c s)"
| "exec (Delete sid i) s = delete sid i s"
| "exec (DeleteSession sid) s = snd (delete_session sid s)"

lemma good_exec: "good s \<Longrightarrow> good (exec a s)"
  by (cases a) (simp_all add: good_put good_delete good_delete_session)

lemma foreign_op:
  assumes "good s" "op_session a \<noteq> sid" "\<And>hex sid' c. a = Put hex sid' c \<Longrightarrow> fst (put hex sid' c s) \<noteq> i"
  shows "get sid i (exec a s) = get sid i s"
  using assms get_put_other get_delete_foreign get_delete_session_foreign by (cases a) auto

end

lemma store_get_scoped: "store_get sid i s = Inr c \<longleftrightarrow>
    (\<exists>item. dict_get s i = Some item \<and> rc_session_id item = sid \<and> rc_content item = c)"
  by (auto simp: store_get_def split: option.splits if_split_asm)

lemma dict_get_pops: "dict_get (fold dict_pop ks d) k = (if k \<in> set ks then None else dict_get d k)"
  by (induction ks arbitrary: d) (auto simp: dict_get_pop)

lemma dict_ok_pops: "dict_ok d \<Longrightarrow> dict_ok (fold dict_pop ks d)"
  by (induction ks arbitrary: d) auto

lemma session_keys: "dict_ok s \<Longrightarrow> i \<in> set (map fst (filter (\<lambda>(_, item). rc_session_id item = sid) s)) \<longleftrightarrow>
    (\<exists>item. dict_get s i = Some item \<and> rc_session_id item = sid)"
  by (force simp: dict_ok_def dest: map_of_SomeD)

lemma get_cleared: "dict_ok s \<Longrightarrow> dict_get (snd (store_delete_session sid s)) i =
    (case dict_get s i of Some item \<Rightarrow> if rc_session_id item = sid then None else Some item | None \<Rightarrow> None)"
  unfolding store_delete_session_def Let_def snd_conv dict_get_pops session_keys
  by (auto split: option.split)

interpretation retrieval: scoped_store dict_ok store_put store_get store_delete store_delete_session
proof unfold_locales
  fix s :: retrieval_store and hex sid sid' c i j
  show "dict_ok s \<Longrightarrow> dict_ok (snd (store_put hex sid c s))" by (simp add: store_put_def Let_def)
  show "dict_ok s \<Longrightarrow> dict_ok (store_delete sid i s)" by (simp add: store_delete_def split: option.split)
  show "dict_ok s \<Longrightarrow> dict_ok (snd (store_delete_session sid s))"
    by (simp add: store_delete_session_def Let_def dict_ok_pops)
  show "store_get sid (fst (store_put hex sid c s)) (snd (store_put hex sid c s)) = Inr c"
    by (simp add: store_put_def store_get_def Let_def dict_get_set)
  show "i \<noteq> fst (store_put hex sid c s) \<Longrightarrow> store_get sid' i (snd (store_put hex sid c s)) = store_get sid' i s"
    by (simp add: store_put_def store_get_def Let_def dict_get_set)
  show "store_get sid i s = Inr c \<Longrightarrow> sid' \<noteq> sid \<Longrightarrow> \<not> is_ok (store_get sid' i s)"
    by (auto simp: is_ok_iff store_get_scoped)
  show "sid' \<noteq> sid \<Longrightarrow> store_get sid' i (store_delete sid j s) = store_get sid' i s"
    by (auto simp: store_delete_def store_get_def dict_get_pop split: option.split)
  assume ok: "dict_ok s"
  show "sid' \<noteq> sid \<Longrightarrow> store_get sid' i (snd (store_delete_session sid s)) = store_get sid' i s"
    by (auto simp: store_get_def get_cleared [OF ok] split: option.split)
  show "\<not> is_ok (store_get sid i (snd (store_delete_session sid s)))"
    by (auto simp: is_ok_iff store_get_scoped get_cleared [OF ok] split: option.splits if_split_asm)
qed

section \<open>Properties\<close>

text \<open>
  Property C35. Water filling is exact and returns: for finite pressures of the size the
  compactor computes, whatever order Python takes a set in, it distributes the requested
  reduction (or everything there is, when the request is larger), and terminates without
  raising. An index that takes part of the reduction takes at least one token and at most its
  capacity; an index may take nothing when the reduction is used up before it.
\<close>

theorem water_fill_exact:
  assumes "pressures_ok capacities pressures" "dict_ok capacities" "reduction \<le> 2 ^ 53"
    and "\<And>xs. mset (set_order xs) = mset xs" "int (length capacities) \<le> 2 ^ 33"
  shows "\<exists>out. water_fill set_order reduction capacities pressures = Inr out \<and>
    dsum out = min (max 0 reduction) (\<Sum>i\<in>set (map fst capacities). max 0 (the (dict_get capacities i))) \<and>
    (\<forall>(i, a)\<in>set out. 1 \<le> a \<and> (\<exists>c. dict_get capacities i = Some c \<and> a \<le> c))"
proof -
  obtain out where out: "water_fill set_order reduction capacities pressures = Inr out"
    using water_fill_ok [OF assms] by blast
  from water_fill_exact_lemma [OF out assms(2)] out show ?thesis by (simp add: full_def)
qed

theorem water_fill_exact_witness:
  "\<exists>out. water_fill rev 29 [(1, 42), (3, 5)] [(1, Fin (1 / 4)), (3, Fin 1)] = Inr out \<and> dsum out = 29"
proof -
  have "pressures_ok [(1, 42), (3, 5)] [(1, Fin (1 / 4)), (3, Fin 1)]"
    by (simp add: pressures_ok_def) (rule exI [of _ "1 / 4"], simp)
  moreover have "dict_ok [(1::nat, 42::int), (3, 5)]" by (simp add: dict_ok_def)
  ultimately have "\<exists>out. water_fill rev 29 [(1, 42), (3, 5)] [(1, Fin (1 / 4)), (3, Fin 1)] = Inr out \<and>
      dsum out = min (max 0 29) (\<Sum>i\<in>set (map fst [(1::nat, 42::int), (3, 5)]).
        max 0 (the (dict_get [(1, 42), (3, 5)] i))) \<and>
      (\<forall>(i, a)\<in>set out. 1 \<le> a \<and> (\<exists>c. dict_get [(1, 42), (3, 5)] i = Some c \<and> a \<le> c))"
    by (rule water_fill_exact) simp_all
  then obtain out where "water_fill rev 29 [(1, 42), (3, 5)] [(1, Fin (1 / 4)), (3, Fin 1)] = Inr out"
    "dsum out = min (max 0 29) (\<Sum>i\<in>set (map fst [(1::nat, 42::int), (3, 5)]).
        max 0 (the (dict_get [(1, 42), (3, 5)] i)))" by blast
  moreover from this(2) have "dsum out = 29" by simp
  ultimately show ?thesis by blast
qed

text \<open>
  The reduction a plan asks for is always within reach: it is the difference
  between the conversation and the target, the target is at least what the budget model asked
  for (or the whole conversation), only unprotected compactable messages are authorised, and
  their capacities together cover the reduction.
\<close>

lemma planned_reduction_reachable:
  assumes "plan_compaction kept cache decision budget = Inr plan"
    and "distinct (ca_compactable_message_indices cache)"
    and "capacities_of kept cache plan = Inr capacities"
  shows "cp_required_reduction_tokens plan = ca_total_tokens cache - cp_target_tokens plan \<and>
    cp_required_reduction_tokens plan \<le> (\<Sum>i\<in>set (map fst capacities). max 0 (the (dict_get capacities i))) \<and>
    (bud_required_context_tokens budget \<le> cp_target_tokens plan \<or> cp_target_tokens plan = ca_total_tokens cache) \<and>
    set (cp_compactable_message_indices plan) \<subseteq>
      set (ca_compactable_message_indices cache) - set (ca_protected_message_indices cache)"
  using plan_reach [OF assms] by (simp add: full_def)

text \<open>
  Property C33. Compaction changes only what it may: the conversation keeps its length and
  order, a message differs from the original only if its index is authorised by the plan and
  not protected, and then only in its content and to strictly fewer estimated tokens, as its
  record says.
\<close>

theorem compaction_changes:
  assumes "compact sha256 set_order kept messages cache plan = Inr res"
  shows "length (cres_messages res) = length messages \<and>
    (\<forall>i<length messages. cres_messages res ! i = messages ! i \<or>
      i \<in> set (cp_compactable_message_indices plan) \<and> i \<notin> set (ca_protected_message_indices cache) \<and>
      (\<exists>r\<in>set (cres_records res). cr_message_index r = i \<and>
         cr_tokens_after r < cr_tokens_before r \<and>
         estimate_tokens (messages ! i) = Inr (cr_tokens_before r) \<and>
         estimate_tokens (cres_messages res ! i) = Inr (cr_tokens_after r) \<and>
         (\<exists>c. cres_messages res ! i = set_content (messages ! i) c)))"
proof -
  note c = compact_Inr(1,2) [OF assms]
  have "i \<in> set (cp_compactable_message_indices plan) \<and> i \<notin> set (ca_protected_message_indices cache) \<and>
      (\<exists>r\<in>set (cres_records res). cr_message_index r = i \<and> cr_tokens_after r < cr_tokens_before r \<and>
         estimate_tokens (messages ! i) = Inr (cr_tokens_before r) \<and>
         estimate_tokens (cres_messages res ! i) = Inr (cr_tokens_after r) \<and>
         (\<exists>c. cres_messages res ! i = set_content (messages ! i) c))"
    if "i < length messages" "cres_messages res ! i \<noteq> messages ! i" for i
  proof -
    have "i \<in> set (map cr_message_index (cres_records res))" using c(1) that unfolding compacted_def by blast
    then obtain r where "r \<in> set (cres_records res)" "cr_message_index r = i" by auto
    with c show ?thesis by (auto simp: compacted_def shrunk_def)
  qed
  moreover have "length (cres_messages res) = length messages" using c(1) by (simp add: compacted_def)
  ultimately show ?thesis by blast
qed

definition loose_block :: context_block where
  "loose_block = \<lparr>cb_block_id = ''b'', cb_message_indices = [], cb_block_type = Generic, cb_tokens = 1,
     cb_age = 0, cb_cached = False, cb_task_overlap = Fin 0, cb_redundancy = Fin 0,
     cb_cache_invalidation_cost = Fin 0, cb_importance = Fin 0, cb_structurally_immutable = False\<rparr>"

definition analysed_cache :: cache_analysis where
  "analysed_cache = assemble_analysis 1 long_conversation [10, 50, 9] [] (Some ''h'') new_session None
     [0, 2] [] [loose_block]"

lemma analysed_cache_ok:
  "\<exists>co. analyze (\<lambda>_. ''h'') 10 \<lparr>co_minimum_compactable_tokens = 1, co_sessions = []\<rparr> ''s'' long_conversation
     [] [] 100 ''fix'' (Some [loose_block]) = Inr (analysed_cache, co)"
proof -
  have m: "rmap estimate_tokens long_conversation = Inr [10, 50, 9]" by code_simp
  have h: "prefix_hash (\<lambda>_. ''h'') long_conversation (proposed_prefix_count long_conversation) [] = Inr (Some ''h'')"
    by code_simp
  have pr: "protected_indices long_conversation = Inr [0, 2]" by code_simp
  have ne: "long_conversation \<noteq> []" by (simp add: long_conversation_def)
  have s: "session_of \<lparr>co_minimum_compactable_tokens = 1, co_sessions = []\<rparr> ''s'' = new_session"
    by (simp add: session_of_def)
  have "live_record new_session 10 = None" by (simp add: live_record_def new_session_def)
  then show ?thesis
    by (simp add: analyze_def m h pr ne s active_record_def candidate_values_def analysed_cache_def)
qed

lemma long_compaction_ok: obtains res where
  "compact (\<lambda>_. ''h'') id 8 long_conversation analysed_cache long_plan = Inr res"
  "cres_messages res ! 1 \<noteq> long_conversation ! 1"
proof -
  have caps: "capacities_of 8 analysed_cache long_plan = Inr [(1, 42)]" by code_simp
  have al: "water_fill id 29 [(1, 42)] (pressures_of analysed_cache long_plan) = Inr [(1, 29)]" by code_simp
  have "is_ok (compact_loop (\<lambda>_. ''h'') 8 analysed_cache long_plan [(1, 29)] [1] (long_conversation, 29, []))"
    by code_simp
  then obtain ms rem recs where loop: "compact_loop (\<lambda>_. ''h'') 8 analysed_cache long_plan [(1, 29)] [1]
      (long_conversation, 29, []) = Inr (ms, rem, recs)" by (auto simp only: is_ok_iff)
  have len: "length long_conversation = length (ca_message_tokens analysed_cache)" by code_simp
  have "rbind (compact_loop (\<lambda>_. ''h'') 8 analysed_cache long_plan [(1, 29)] [1] (long_conversation, 29, []))
      (\<lambda>(ms, rem, recs). Inr (is_ok (check_boundaries analysed_cache long_plan 0 long_conversation ms),
         is_ok (rmap estimate_tokens ms), ms ! 1 \<noteq> long_conversation ! 1)) = Inr (True, True, True)" by code_simp
  then have ok: "is_ok (check_boundaries analysed_cache long_plan 0 long_conversation ms)"
    "is_ok (rmap estimate_tokens ms)" "ms ! 1 \<noteq> long_conversation ! 1"
    by (simp_all only: loop rbind.simps prod.case sum.inject prod.inject simp_thms)
  have "compaction_order [(1, 29)] = [1]" by (simp add: compaction_order_def)
  moreover have "cp_required_reduction_tokens long_plan = 29" by (simp add: long_plan_def)
  moreover obtain after where "rmap estimate_tokens ms = Inr after" using ok(2) by (auto simp: is_ok_iff)
  moreover have "check_boundaries analysed_cache long_plan 0 long_conversation ms = Inr ()"
    using ok(1) by (auto simp: is_ok_iff)
  ultimately have "\<exists>res. compact (\<lambda>_. ''h'') id 8 long_conversation analysed_cache long_plan = Inr res \<and>
      cres_messages res = ms"
    by (simp only: compact_def len caps al loop Let_def rbind.simps prod.case) simp
  with ok(3) that show thesis by blast
qed

theorem compaction_changes_witness:
  "\<exists>res. compact (\<lambda>_. ''h'') id 8 long_conversation analysed_cache long_plan = Inr res \<and>
     (\<exists>r\<in>set (cres_records res). cr_tokens_after r < cr_tokens_before r)"
proof -
  obtain res where r: "compact (\<lambda>_. ''h'') id 8 long_conversation analysed_cache long_plan = Inr res"
    "cres_messages res ! 1 \<noteq> long_conversation ! 1" by (rule long_compaction_ok)
  have "1 < length long_conversation" by (simp add: long_conversation_def)
  from compaction_changes [OF r(1)] r this show ?thesis by blast
qed

text \<open>
  Compacting the conversation that was analysed never makes it longer, and the
  tokens it reports are exactly the analysed total less the savings of its records.
\<close>

lemma compaction_accounting:
  assumes "analyze sha256 now co sid messages tools candidates out task ctx = Inr (cache, co')"
    and "compact sha256 set_order kept messages cache plan = Inr res"
  shows "cres_tokens_after res = cres_tokens_before res
      - (\<Sum>r\<leftarrow>cres_records res. cr_tokens_before r - cr_tokens_after r) \<and>
    cres_tokens_after res \<le> cres_tokens_before res \<and>
    (cres_target_met res \<longleftrightarrow> cres_tokens_after res \<le> cp_target_tokens plan)"
proof -
  obtain mts tts h active pr vs raw where m: "rmap estimate_tokens messages = Inr mts"
    and a: "cache = assemble_analysis (co_minimum_compactable_tokens co) messages mts tts h
       (session_of co sid) active pr vs raw"
    using assms(1) by (rule analyze_Inr)
  have tot: "ca_total_tokens cache = sum_list mts + ca_tool_tokens cache" by (simp add: a assembled)
  note c = compact_Inr [OF assms(2)]
  obtain after where after: "rmap estimate_tokens (cres_messages res) = Inr after"
    "cres_tokens_after res = ca_tool_tokens cache + sum_list after" using c(4) by blast
  show ?thesis using compacted_tokens [OF c(1) m after(1)] savings_nonneg [OF c(1)] after(2) tot c(5,6)
    by simp
qed

text \<open>
  A summary respects its budget: it is the original content, or at most four
  characters per target token (with a floor of 48 characters besides the marker) plus one.
\<close>

lemma summary_bounded:
  assumes "compact_text content target bt = Inr summary" "target \<le> 2 ^ 50"
  shows "summary = content \<or>
    int (length summary) \<le> max (4 * target) (48 + int (length (compaction_marker bt))) + 1"
  using compact_text_length [OF assms] by blast

text \<open>
  The recovery store is scoped: what one session put is returned to that session
  after any operation of other sessions that does not reuse its id, and is never returned to
  another session.
\<close>

lemma store_isolation:
  assumes "dict_ok memory" "op_session a \<noteq> sid" "sid' \<noteq> sid"
    and "\<And>hex' s c'. a = Put hex' s c' \<Longrightarrow> hex' \<noteq> hex"
  shows "store_get sid (''ctx_'' @ hex) (retrieval.exec a (snd (store_put hex sid c memory))) = Inr c \<and>
    \<not> is_ok (store_get sid' (''ctx_'' @ hex) (retrieval.exec a (snd (store_put hex sid c memory))))"
proof -
  have i: "fst (store_put hex sid c memory) = ''ctx_'' @ hex" for hex sid c memory
    by (simp add: store_put_def Let_def)
  have "store_get sid (''ctx_'' @ hex) (retrieval.exec a (snd (store_put hex sid c memory))) =
      store_get sid (''ctx_'' @ hex) (snd (store_put hex sid c memory))"
    by (rule retrieval.foreign_op [OF retrieval.good_put [OF assms(1)] assms(2)]) (use assms(4) in \<open>auto simp: i\<close>)
  also have "\<dots> = Inr c" using retrieval.get_put [of sid hex c "memory"] by (simp add: i)
  finally show ?thesis using retrieval.get_scoped assms(3) by simp
qed

end
