(* ===== verification/Controller.thy ===== *)
theory Controller
  imports Routing
begin

text \<open>
  The call controller (\<^verbatim>\<open>src/promptrail/controller.py\<close>): the runs it keeps, the
  reservation of a call's budget in two critical sections around the allocator, settlement,
  failure, tool observation and the end of a run. An operation returns its result and the
  state it leaves, also when it raises. Readings of \<^verbatim>\<open>time.perf_counter\<close> (a float of
  seconds), of the wall clock and fresh UUID texts are arguments, one per use.
\<close>

section \<open>Runs\<close>

record run =
  ru_run_id :: string
  ru_session_id :: string
  ru_policy :: operating_policy
  ru_status :: run_status
  ru_completed_calls :: int
  ru_spent_cost_usd :: pyfloat
  ru_spent_model_latency_ms :: int
  ru_reserved :: "(string, call_budget) dict"
  ru_pending_allocations :: "string set"
  ru_next_sequence :: int
  ru_tool_calls :: int
  ru_started_at :: int
  ru_started_monotonic :: pyfloat
  ru_finished_at :: "int option"

record controller =
  gc_allocator_model_id :: string
  gc_runs :: "(string, run) dict"

definition controller_init :: "string \<Rightarrow> string \<Rightarrow> controller result" where
  "controller_init required_allocator_model_id allocator_model_id =
     (let model_id = strip allocator_model_id
      in if model_id \<noteq> required_allocator_model_id
         then Inl (ValueError (''GlobalController requires the pinned Gemma 12B allocator '' @
                str_repr required_allocator_model_id @ '', got '' @ str_repr model_id))
         else Inr \<lparr>gc_allocator_model_id = model_id, gc_runs = []\<rparr>)"

definition new_run :: "string \<Rightarrow> int \<Rightarrow> pyfloat \<Rightarrow> string \<Rightarrow> operating_policy \<Rightarrow> run" where
  "new_run run_id started_at started_monotonic session_id policy =
     \<lparr>ru_run_id = run_id, ru_session_id = session_id, ru_policy = policy, ru_status = ACTIVE,
      ru_completed_calls = 0, ru_spent_cost_usd = Fin 0, ru_spent_model_latency_ms = 0,
      ru_reserved = [], ru_pending_allocations = {}, ru_next_sequence = 1, ru_tool_calls = 0,
      ru_started_at = started_at, ru_started_monotonic = started_monotonic, ru_finished_at = None\<rparr>"

definition put_run :: "string \<Rightarrow> run \<Rightarrow> controller \<Rightarrow> controller" where
  "put_run run_id run ctl = ctl\<lparr>gc_runs := dict_set run_id run (gc_runs ctl)\<rparr>"

definition reserved_totals :: "run \<Rightarrow> pyfloat \<times> int" where
  "reserved_totals run = (fsum (map (\<lambda>(_, b). bud_cost_usd b) (ru_reserved run)),
                          sum_list (map (\<lambda>(_, b). bud_latency_ms b) (ru_reserved run)))"

definition snapshot_of :: "run \<Rightarrow> run_snapshot" where
  "snapshot_of run =
     \<lparr>rs_run_id = ru_run_id run, rs_session_id = ru_session_id run, rs_status = ru_status run,
      rs_completed_calls = ru_completed_calls run, rs_spent_cost_usd = ru_spent_cost_usd run,
      rs_spent_model_latency_ms = ru_spent_model_latency_ms run,
      rs_reserved_cost_usd = fst (reserved_totals run), rs_reserved_latency_ms = snd (reserved_totals run),
      rs_tool_calls = ru_tool_calls run, rs_started_at = ru_started_at run,
      rs_finished_at = ru_finished_at run\<rparr>"

definition start_run :: "string \<Rightarrow> int \<Rightarrow> pyfloat \<Rightarrow> string \<Rightarrow> operating_policy \<Rightarrow> controller \<Rightarrow>
    run_snapshot result \<times> controller" where
  "start_run hex started_at started_monotonic session_id policy ctl =
     (if strip session_id = [] then (Inl (ValueError ''session_id cannot be empty''), ctl)
      else let run = new_run (''run_'' @ hex) started_at started_monotonic session_id policy
           in (Inr (snapshot_of run), put_run (ru_run_id run) run ctl))"

definition get_run :: "controller \<Rightarrow> string \<Rightarrow> run result" where
  "get_run ctl run_id = (case dict_get (gc_runs ctl) run_id of
     Some run \<Rightarrow> Inr run | None \<Rightarrow> Inl (BudgetError (''unknown agent run: '' @ run_id)))"

definition active_run :: "controller \<Rightarrow> string \<Rightarrow> run result" where
  "active_run ctl run_id = rbind (get_run ctl run_id) (\<lambda>run.
     if ru_status run \<noteq> ACTIVE then Inl (BudgetError (''agent run is '' @ run_status_value (ru_status run)))
     else Inr run)"

definition snapshot :: "string \<Rightarrow> controller \<Rightarrow> run_snapshot result" where
  "snapshot run_id ctl = rbind (get_run ctl run_id) (\<lambda>run. Inr (snapshot_of run))"

section \<open>Time and money left\<close>

definition elapsed_ms :: "run \<Rightarrow> pyfloat \<Rightarrow> int result" where
  "elapsed_ms run now = rbind (py_ceil ((now - ru_started_monotonic run) * Fin 1000))
     (\<lambda>ms. Inr (max 0 ms))"

definition remaining_cost :: "run \<Rightarrow> pyfloat \<Rightarrow> pyfloat option" where
  "remaining_cost run reserved_cost =
     (case pol_hard_agent_cost_limit_usd (ru_policy run) of
        None \<Rightarrow> None | Some limit \<Rightarrow> Some (limit - ru_spent_cost_usd run - reserved_cost))"

definition remaining_latency :: "run \<Rightarrow> pyfloat \<Rightarrow> int option result" where
  "remaining_latency run now =
     (case pol_hard_agent_latency_limit_ms (ru_policy run) of
        None \<Rightarrow> Inr None
      | Some limit \<Rightarrow> rbind (elapsed_ms run now) (\<lambda>ms. Inr (Some (limit - ms))))"

text \<open>A deadline that has passed; the clock is read only when there is one.\<close>

definition past_deadline :: "run \<Rightarrow> pyfloat \<Rightarrow> bool result" where
  "past_deadline run now =
     (case pol_hard_agent_latency_limit_ms (ru_policy run) of
        None \<Rightarrow> Inr False
      | Some limit \<Rightarrow> rbind (elapsed_ms run now) (\<lambda>ms. Inr (limit < ms)))"

definition above_limit :: "pyfloat \<Rightarrow> pyfloat option \<Rightarrow> bool" where
  "above_limit cost limit = (case limit of None \<Rightarrow> False | Some l \<Rightarrow> l + epsilon < cost)"

definition later_than :: "int \<Rightarrow> int option \<Rightarrow> bool" where
  "later_than ms limit = (case limit of None \<Rightarrow> False | Some l \<Rightarrow> l < ms)"

section \<open>The allocation request\<close>

text \<open>The evidence of one candidate: its cheapest route by predicted cost, first of equals.\<close>

definition exact_on :: "cache_value option \<Rightarrow> provider_route \<Rightarrow> bool" where
  "exact_on value route = (case value of None \<Rightarrow> False
     | Some v \<Rightarrow> cv_exact_reuse v \<and> cv_provider v = Some (rt_provider route) \<and> rt_cache_supported route)"

definition option_route_cost :: "cache_analysis \<Rightarrow> cache_value option \<Rightarrow> int \<Rightarrow> provider_route \<Rightarrow> pyfloat \<times> pyfloat" where
  "option_route_cost cache value predicted_output_tokens route =
     (let cached_tokens = (if exact_on value route
            then min (ca_total_tokens cache) (cv_cached_tokens (the value)) else 0);
          input_cost = input_price route (ca_total_tokens cache) cached_tokens
      in (input_cost + output_price route predicted_output_tokens, input_cost))"

definition micro :: pyfloat where
  "micro = fl (1 / 1000000)"

definition validate_budget_candidate_option :: "budget_candidate_option \<Rightarrow> budget_candidate_option result" where
  "validate_budget_candidate_option bo =
     (if \<not> micro \<le> bo_cheapest_input_cost_fraction bo
      then Inl (ValidationError [''Input should be greater than or equal to 1e-06''])
      else if \<not> bo_cheapest_input_cost_fraction bo < Fin 1
      then Inl (ValidationError [''Input should be less than 1'']) else Inr bo)"

definition candidate_option :: "operating_policy \<Rightarrow> cache_analysis \<Rightarrow> int \<Rightarrow> string set \<Rightarrow> model_candidate \<Rightarrow>
    budget_candidate_option result" where
  "candidate_option policy cache predicted_output_tokens required_capabilities candidate =
     (let value = dict_get (ca_values cache) (mc_model_id candidate);
          total = ca_total_tokens cache
      in rbind (min_by (<) fst (map (option_route_cost cache value predicted_output_tokens) (mc_routes candidate)))
         (\<lambda>(cheapest_total_cost, cheapest_input_cost).
         let fraction = (if Fin 0 < cheapest_total_cost then fdiv cheapest_input_cost cheapest_total_cost
                         else fl (of_int total / of_int (total + predicted_output_tokens)))
         in rbind (min_by (<) id (map rt_p95_total_latency_ms (mc_routes candidate))) (\<lambda>fastest.
         validate_budget_candidate_option
           \<lparr>bo_model_id = mc_model_id candidate, bo_quality = mc_quality candidate,
            bo_context_fits = (total + predicted_output_tokens \<le> mc_context_window_tokens candidate),
            bo_required_capabilities_supported = (required_capabilities \<subseteq> mc_capabilities candidate),
            bo_cheapest_predicted_cost_usd = cheapest_total_cost,
            bo_cheapest_input_cost_fraction = pmin (Fin 1 - micro) (pmax micro fraction),
            bo_fastest_predicted_latency_ms = fastest + pol_controller_reserve_ms policy
              + pol_compaction_reserve_ms policy + pol_latency_safety_margin_ms policy,
            bo_exact_cache_reuse = (case value of None \<Rightarrow> False | Some v \<Rightarrow> cv_exact_reuse v),
            bo_cached_tokens = (case value of None \<Rightarrow> 0 | Some v \<Rightarrow> cv_cached_tokens v)\<rparr>)))"

definition candidate_options :: "operating_policy \<Rightarrow> model_candidate list \<Rightarrow> cache_analysis \<Rightarrow> int \<Rightarrow> string set \<Rightarrow>
    budget_candidate_option list result" where
  "candidate_options policy candidates cache predicted_output_tokens required_capabilities =
     rmap (candidate_option policy cache predicted_output_tokens required_capabilities) candidates"

text \<open>The keyword arguments of \<^verbatim>\<open>allocate_call\<close>.\<close>

record allocation_args =
  aa_run_id :: string
  aa_task :: string
  aa_input_tokens :: int
  aa_predicted_output_tokens :: int
  aa_cache :: cache_analysis
  aa_candidates :: "model_candidate list"
  aa_priority :: pyfloat
  aa_required_capabilities :: "string set"

definition build_request :: "allocation_args \<Rightarrow> run \<Rightarrow> string \<Rightarrow> int \<Rightarrow> pyfloat option \<Rightarrow> int option \<Rightarrow> pyfloat \<Rightarrow>
    budget_allocation_request result" where
  "build_request args run call_id sequence money time now =
     (let policy = ru_policy run; cache = aa_cache args in
      rbind (elapsed_ms run now) (\<lambda>elapsed_agent_ms.
      rbind (candidate_options policy (aa_candidates args) cache (aa_predicted_output_tokens args)
               (aa_required_capabilities args)) (\<lambda>options.
      Inr \<lparr>req_run_id = ru_run_id run, req_session_id = ru_session_id run, req_call_id = call_id,
        req_sequence = sequence, req_analytics_insight = pol_analytics_insight policy,
        req_source_digest = pol_source_digest policy, req_task_rules = pol_task_rules policy,
        req_cost_priority = pol_cost_priority policy, req_latency_priority = pol_latency_priority policy,
        req_quality_priority = pol_quality_priority policy, req_cache_priority = pol_cache_priority policy,
        req_task = strip (aa_task args), req_input_tokens = aa_input_tokens args,
        req_predicted_output_tokens = aa_predicted_output_tokens args, req_priority = aa_priority args,
        req_required_capabilities = sorted_list_of_set (aa_required_capabilities args),
        req_completed_calls = ru_completed_calls run, req_tool_calls = ru_tool_calls run,
        req_elapsed_agent_ms = elapsed_agent_ms, req_spent_cost_usd = ru_spent_cost_usd run,
        req_spent_latency_ms = ru_spent_model_latency_ms run,
        req_reserved_cost_usd = fst (reserved_totals run), req_reserved_latency_ms = snd (reserved_totals run),
        req_hard_agent_cost_limit_usd = pol_hard_agent_cost_limit_usd policy,
        req_hard_agent_latency_limit_ms = pol_hard_agent_latency_limit_ms policy,
        req_hard_call_cost_limit_usd = pol_hard_call_cost_limit_usd policy,
        req_hard_call_latency_limit_ms = pol_hard_call_latency_limit_ms policy,
        req_remaining_hard_cost_usd = money, req_remaining_hard_latency_ms = time,
        req_cacheable_tokens = ca_cacheable_tokens cache, req_compactable_tokens = ca_compactable_tokens cache,
        req_last_model_id = ca_last_model_id cache, req_last_provider = ca_last_provider cache,
        req_cache_input_cost_usd_by_model = map (\<lambda>(m, v). (m, cv_input_cost_usd v)) (ca_values cache),
        req_exact_cache_models = sort (map fst (filter (\<lambda>(_, v). cv_exact_reuse v) (ca_values cache))),
        req_candidate_options = options, req_context_blocks = ca_context_blocks cache\<rparr>)))"

section \<open>Allocation\<close>

definition check_arguments :: "allocation_args \<Rightarrow> unit result" where
  "check_arguments args =
     (if strip (aa_task args) = [] then Inl (ValueError ''task cannot be empty'')
      else if aa_input_tokens args < 0 then Inl (ValueError ''input_tokens cannot be negative'')
      else if aa_predicted_output_tokens args \<le> 0
      then Inl (ValueError ''predicted_output_tokens must be positive'')
      else if \<not> isfinite (aa_priority args) \<or> aa_priority args \<le> Fin 0
      then Inl (ValueError ''priority must be finite and positive'')
      else if aa_candidates args = []
      then Inl (ValueError ''Gemma allocation requires model candidate evidence'')
      else if aa_input_tokens args \<noteq> ca_total_tokens (aa_cache args)
      then Inl (ValueError ''cache analysis does not cover the complete call input'')
      else Inr ())"

definition exhausted :: "pyfloat option \<Rightarrow> int option \<Rightarrow> unit result" where
  "exhausted money time =
     (if (case money of None \<Rightarrow> False | Some x \<Rightarrow> x \<le> Fin 0)
      then Inl (BudgetError ''optional hard agent cost limit is exhausted'')
      else if (case time of None \<Rightarrow> False | Some t \<Rightarrow> t \<le> 0)
      then Inl (BudgetError ''optional hard agent latency limit is exhausted'')
      else Inr ())"

text \<open>
  The first critical section: it registers a fresh pending call and builds the request. An
  error while building leaves the call pending, as in the code.
\<close>

definition allocate_begin :: "string \<Rightarrow> pyfloat \<Rightarrow> pyfloat \<Rightarrow> allocation_args \<Rightarrow> controller \<Rightarrow>
    budget_allocation_request result \<times> controller" where
  "allocate_begin hex now now' args ctl =
     (case rbind (check_arguments args) (\<lambda>_.
           rbind (active_run ctl (aa_run_id args)) (\<lambda>run.
           rbind (remaining_latency run now) (\<lambda>time.
           rbind (exhausted (remaining_cost run (fst (reserved_totals run))) time) (\<lambda>_. Inr (run, time))))) of
        Inl e \<Rightarrow> (Inl e, ctl)
      | Inr (run, time) \<Rightarrow>
          let call_id = ''call_'' @ hex;
              sequence = ru_next_sequence run;
              run' = run\<lparr>ru_next_sequence := sequence + 1,
                         ru_pending_allocations := insert call_id (ru_pending_allocations run)\<rparr>
          in (build_request args run' call_id sequence
                (remaining_cost run (fst (reserved_totals run))) time now',
              put_run (aa_run_id args) run' ctl))"

definition discard_pending :: "string \<Rightarrow> string \<Rightarrow> controller \<Rightarrow> controller" where
  "discard_pending run_id call_id ctl = (case dict_get (gc_runs ctl) run_id of
     None \<Rightarrow> ctl
   | Some run \<Rightarrow> put_run run_id
       (run\<lparr>ru_pending_allocations := ru_pending_allocations run - {call_id}\<rparr>) ctl)"

definition validate_decision :: "operating_policy \<Rightarrow> budget_allocation_decision \<Rightarrow> pyfloat option \<Rightarrow> int option \<Rightarrow>
    int \<Rightarrow> cache_analysis \<Rightarrow> unit result" where
  "validate_decision policy decision money time input_tokens cache =
     (let overridden = map io_block_id (dec_importance_overrides decision);
          block_ids = set (map cb_block_id (ca_context_blocks cache));
          immutable_ids = set (map cb_block_id (filter cb_structurally_immutable (ca_context_blocks cache)))
      in if input_tokens < dec_required_context_tokens decision
      then Inl (BudgetError ''Gemma required_context_tokens exceeds the available input'')
      else if filter (\<lambda>b. b \<notin> block_ids) overridden \<noteq> []
      then Inl (BudgetError ''Gemma returned an importance override for an unknown context block'')
      else if list_ex (\<lambda>b. b \<in> immutable_ids) overridden
      then Inl (BudgetError ''Gemma cannot override structurally immutable context'')
      else if above_limit (dec_cost_usd decision) (pol_hard_call_cost_limit_usd policy)
      then Inl (BudgetError ''Gemma allocation exceeds the optional hard per-call cost limit'')
      else if later_than (dec_latency_ms decision) (pol_hard_call_latency_limit_ms policy)
      then Inl (BudgetError ''Gemma allocation exceeds the optional hard per-call latency limit'')
      else if above_limit (dec_cost_usd decision) money
      then Inl (BudgetError ''Gemma allocation exceeds the remaining hard agent cost limit'')
      else if later_than (dec_latency_ms decision) time
      then Inl (BudgetError ''Gemma allocation exceeds the remaining hard agent latency limit'')
      else Inr ())"

definition budget_of :: "string \<Rightarrow> string \<Rightarrow> string \<Rightarrow> int \<Rightarrow> int \<Rightarrow> budget_allocation_decision \<Rightarrow> call_budget" where
  "budget_of allocator_model_id run_id call_id sequence created_at decision =
     (let input_cost = dec_cost_usd decision * dec_input_cost_fraction decision
      in \<lparr>bud_run_id = run_id, bud_call_id = call_id, bud_sequence = sequence,
          bud_cost_usd = dec_cost_usd decision, bud_input_cost_usd = input_cost,
          bud_output_cost_usd = dec_cost_usd decision - input_cost,
          bud_latency_ms = dec_latency_ms decision, bud_allocator_model_id = allocator_model_id,
          bud_allocator_reason = dec_reason decision,
          bud_required_context_tokens = dec_required_context_tokens decision,
          bud_importance_overrides = dec_importance_overrides decision, bud_created_at = created_at\<rparr>)"

text \<open>The second critical section: the run may have changed while the allocator worked.\<close>

definition allocate_commit :: "pyfloat \<Rightarrow> int \<Rightarrow> string \<Rightarrow> string \<Rightarrow> int \<Rightarrow> int \<Rightarrow> cache_analysis \<Rightarrow>
    budget_allocation_decision \<Rightarrow> controller \<Rightarrow> call_budget result \<times> controller" where
  "allocate_commit now created_at run_id call_id sequence input_tokens cache decision ctl =
     (case get_run ctl run_id of
        Inl e \<Rightarrow> (Inl e, ctl)
      | Inr old \<Rightarrow>
          let run = old\<lparr>ru_pending_allocations := ru_pending_allocations old - {call_id}\<rparr>;
              ctl' = put_run run_id run ctl
          in case
            (if ru_status run \<noteq> ACTIVE
             then Inl (BudgetError (''agent run became '' @ run_status_value (ru_status run) @ '' during allocation''))
             else rbind (remaining_latency run now) (\<lambda>time.
               validate_decision (ru_policy run) decision (remaining_cost run (fst (reserved_totals run)))
                 time input_tokens cache)) of
            Inl e \<Rightarrow> (Inl e, ctl')
          | Inr _ \<Rightarrow>
              let budget = budget_of (gc_allocator_model_id ctl) run_id call_id sequence created_at decision
              in (Inr budget, put_run run_id (run\<lparr>ru_reserved := dict_set call_id budget (ru_reserved run)\<rparr>) ctl'))"

definition allocate_call :: "(budget_allocation_request \<Rightarrow> budget_allocation_decision result) \<Rightarrow> string \<Rightarrow>
    pyfloat \<Rightarrow> pyfloat \<Rightarrow> pyfloat \<Rightarrow> int \<Rightarrow> allocation_args \<Rightarrow> controller \<Rightarrow> call_budget result \<times> controller" where
  "allocate_call allocate hex now now' now'' created_at args ctl =
     (case allocate_begin hex now now' args ctl of
        (Inl e, ctl') \<Rightarrow> (Inl e, ctl')
      | (Inr request, ctl') \<Rightarrow>
          (case allocate request of
             Inl e \<Rightarrow> (Inl e, discard_pending (aa_run_id args) (req_call_id request) ctl')
           | Inr decision \<Rightarrow> allocate_commit now'' created_at (aa_run_id args) (req_call_id request)
               (req_sequence request) (aa_input_tokens args) (aa_cache args) decision ctl'))"

section \<open>Settlement, failure, tools, the end of a run\<close>

text \<open>\<^verbatim>\<open>run.reserved.pop(call_id, None)\<close>.\<close>

definition take_reservation :: "run \<Rightarrow> string \<Rightarrow> (call_budget \<times> run) result" where
  "take_reservation run call_id = (case dict_get (ru_reserved run) call_id of
     None \<Rightarrow> Inl (BudgetError (''unknown or already-settled call reservation: '' @ call_id))
   | Some budget \<Rightarrow> Inr (budget, run\<lparr>ru_reserved := dict_pop call_id (ru_reserved run)\<rparr>))"

definition charge :: "pyfloat \<Rightarrow> int \<Rightarrow> int \<Rightarrow> run \<Rightarrow> run" where
  "charge cost latency calls run =
     run\<lparr>ru_spent_cost_usd := ru_spent_cost_usd run + cost,
         ru_spent_model_latency_ms := ru_spent_model_latency_ms run + latency,
         ru_completed_calls := ru_completed_calls run + calls\<rparr>"

definition close_run :: "run_status \<Rightarrow> int \<Rightarrow> run \<Rightarrow> run" where
  "close_run status today run = run\<lparr>ru_status := status, ru_finished_at := Some today\<rparr>"

definition violations :: "run \<Rightarrow> pyfloat \<Rightarrow> int \<Rightarrow> pyfloat \<Rightarrow> string list result" where
  "violations run cost_usd latency_ms now =
     (let policy = ru_policy run in
      rbind (past_deadline run now) (\<lambda>late. Inr (
        (if above_limit cost_usd (pol_hard_call_cost_limit_usd policy)
         then [''provider usage exceeded the optional hard per-call cost limit''] else []) @
        (if later_than latency_ms (pol_hard_call_latency_limit_ms policy)
         then [''provider execution exceeded the optional hard per-call latency limit''] else []) @
        (if above_limit (ru_spent_cost_usd run) (pol_hard_agent_cost_limit_usd policy)
         then [''provider usage exceeded the optional hard agent cost limit''] else []) @
        (if late then [''agent execution exceeded its optional hard latency deadline''] else []))))"

definition settle_call :: "pyfloat \<Rightarrow> int \<Rightarrow> string \<Rightarrow> string \<Rightarrow> pyfloat \<Rightarrow> int \<Rightarrow> controller \<Rightarrow>
    run_snapshot result \<times> controller" where
  "settle_call now today run_id call_id cost_usd latency_ms ctl =
     (if \<not> isfinite cost_usd \<or> cost_usd < Fin 0
      then (Inl (ValueError ''cost_usd must be finite and non-negative''), ctl)
      else if latency_ms < 0 then (Inl (ValueError ''latency_ms cannot be negative''), ctl)
      else case rbind (active_run ctl run_id) (\<lambda>run. take_reservation run call_id) of
        Inl e \<Rightarrow> (Inl e, ctl)
      | Inr (budget, taken) \<Rightarrow>
          let run = charge cost_usd latency_ms 1 taken
          in case violations run cost_usd latency_ms now of
               Inl e \<Rightarrow> (Inl e, put_run run_id run ctl)
             | Inr [] \<Rightarrow> (Inr (snapshot_of run), put_run run_id run ctl)
             | Inr vs \<Rightarrow> (Inl (BudgetError (join ''; '' vs)), put_run run_id (close_run FAILED today run) ctl))"

definition fail_call :: "string \<Rightarrow> string \<Rightarrow> bool \<Rightarrow> controller \<Rightarrow> run_snapshot result \<times> controller" where
  "fail_call run_id call_id billing_unknown ctl =
     (case rbind (active_run ctl run_id) (\<lambda>run. take_reservation run call_id) of
        Inl e \<Rightarrow> (Inl e, ctl)
      | Inr (budget, taken) \<Rightarrow>
          let run = (if billing_unknown then charge (bud_cost_usd budget) (bud_latency_ms budget) 1 taken
                     else taken\<lparr>ru_completed_calls := ru_completed_calls taken + 1\<rparr>)
          in (Inr (snapshot_of run), put_run run_id run ctl))"

definition deadline_error :: py_error where
  "deadline_error = BudgetError ''agent execution exceeded its optional hard latency deadline''"

definition observe_tool :: "pyfloat \<Rightarrow> int \<Rightarrow> string \<Rightarrow> controller \<Rightarrow> run_snapshot result \<times> controller" where
  "observe_tool now today run_id ctl =
     (case active_run ctl run_id of
        Inl e \<Rightarrow> (Inl e, ctl)
      | Inr old \<Rightarrow>
          let run = old\<lparr>ru_tool_calls := ru_tool_calls old + 1\<rparr>
          in case past_deadline run now of
               Inl e \<Rightarrow> (Inl e, put_run run_id run ctl)
             | Inr True \<Rightarrow> (Inl deadline_error, put_run run_id (close_run FAILED today run) ctl)
             | Inr False \<Rightarrow> (Inr (snapshot_of run), put_run run_id run ctl))"

text \<open>What is still reserved at the end is charged in full, because its billing is unknown.\<close>

definition charge_unresolved :: "run \<Rightarrow> run" where
  "charge_unresolved run =
     (if ru_reserved run = [] then run
      else (charge (fst (reserved_totals run)) (snd (reserved_totals run)) (int (length (ru_reserved run))) run)
             \<lparr>ru_reserved := []\<rparr>)"

definition finish_run :: "pyfloat \<Rightarrow> int \<Rightarrow> string \<Rightarrow> run_status \<Rightarrow> controller \<Rightarrow> run_snapshot result \<times> controller" where
  "finish_run now today run_id status ctl =
     (if status = ACTIVE then (Inl (ValueError ''a finished run cannot remain active''), ctl)
      else case get_run ctl run_id of
        Inl e \<Rightarrow> (Inl e, ctl)
      | Inr old \<Rightarrow>
          if ru_status old \<noteq> ACTIVE then
            (if ru_status old = status then Inr (snapshot_of old)
             else Inl (BudgetError (''agent run is already '' @ run_status_value (ru_status old))), ctl)
          else if ru_pending_allocations old \<noteq> {} then
            (Inl (BudgetError ''cannot finish an agent run while Gemma allocations are pending''), ctl)
          else
            let run = charge_unresolved old
            in case (if status = COMPLETED then past_deadline run now else Inr False) of
                 Inl e \<Rightarrow> (Inl e, put_run run_id run ctl)
               | Inr True \<Rightarrow> (Inl deadline_error, put_run run_id (close_run FAILED today run) ctl)
               | Inr False \<Rightarrow> (Inr (snapshot_of (close_run status today run)),
                               put_run run_id (close_run status today run) ctl))"

end
