(* ===== verification/Gateway.thy ===== *)
theory Gateway
  imports Controller Compaction Policy_Agent
begin

text \<open>
  The composition root (\<^verbatim>\<open>src/promptrail/gateway.py\<close>): one call is predicted,
  analysed, budgeted, routed, compacted and planned; its usage is settled and observed. What
  the gateway is composed with and this repository does not define (the ranker and predictor
  services, the budget model, the digest, the iteration order of a set) is a record of
  functions; the readings of the clocks during a call are a record too, with two flags for the
  order in which concurrent tasks fail.
\<close>

section \<open>State\<close>

record services =
  sv_ranker :: ranker
  sv_predict :: "json list \<Rightarrow> int option \<Rightarrow> output_length_prediction result"
  sv_allocate :: "budget_allocation_request \<Rightarrow> budget_allocation_decision result"
  sv_sha256 :: "string \<Rightarrow> string"
  sv_set_order :: "nat list \<Rightarrow> nat list"
  sv_planner_kept_tokens :: int
  sv_compactor_kept_tokens :: int

record run_configuration =
  cfg_policy :: operating_policy
  cfg_candidates :: "model_candidate list"

record gateway =
  gw_controller :: controller
  gw_cache :: coordinator
  gw_runs :: "(string, run_configuration) dict"

definition gateway_init :: "controller option \<Rightarrow> string option \<Rightarrow> coordinator option \<Rightarrow> gateway result" where
  "gateway_init controller budget_allocator cache =
     rbind (case controller of
        Some c \<Rightarrow> if budget_allocator \<noteq> None
                  then Inl (ValueError ''supply either controller or budget_allocator, not both'') else Inr c
      | None \<Rightarrow> (case budget_allocator of
            None \<Rightarrow> Inl (ValueError ''PromptRailGateway requires a Gemma 12B budget_allocator'')
          | Some model_id \<Rightarrow> controller_init GEMMA_12B_MODEL_ID model_id)) (\<lambda>c.
     rbind (case cache of Some co \<Rightarrow> Inr co | None \<Rightarrow> coordinator_init 128) (\<lambda>co.
     Inr \<lparr>gw_controller = c, gw_cache = co, gw_runs = []\<rparr>))"

definition configuration :: "gateway \<Rightarrow> string \<Rightarrow> run_configuration result" where
  "configuration gw run_id = (case dict_get (gw_runs gw) run_id of
     Some c \<Rightarrow> Inr c
   | None \<Rightarrow> Inl (BudgetError (''unknown PromptRail run configuration: '' @ run_id)))"

definition policy_of :: "gateway \<Rightarrow> string \<Rightarrow> operating_policy result" where
  "policy_of gw run_id = rbind (configuration gw run_id) (\<lambda>c. Inr (cfg_policy c))"

definition gw_start_run :: "('p \<Rightarrow> operating_policy result) \<Rightarrow> string \<Rightarrow> int \<Rightarrow> pyfloat \<Rightarrow> string \<Rightarrow> 'p \<Rightarrow>
    model_candidate list \<Rightarrow> gateway \<Rightarrow> run_snapshot result \<times> gateway" where
  "gw_start_run synthesize hex started_at started_monotonic session_id enterprise_json_paths candidates gw =
     (if candidates = []
      then (Inl (ValueError ''a PromptRail run requires at least one model candidate''), gw)
      else if card (set (map mc_model_id candidates)) \<noteq> length candidates
      then (Inl (ValueError ''PromptRail model candidate IDs must be unique''), gw)
      else case synthesize enterprise_json_paths of
        Inl e \<Rightarrow> (Inl e, gw)
      | Inr policy \<Rightarrow>
          (case start_run hex started_at started_monotonic session_id policy (gw_controller gw) of
             (Inl e, ctl) \<Rightarrow> (Inl e, gw\<lparr>gw_controller := ctl\<rparr>)
           | (Inr snap, ctl) \<Rightarrow>
               (Inr snap, gw\<lparr>gw_controller := ctl,
                  gw_runs := dict_set (rs_run_id snap) \<lparr>cfg_policy = policy, cfg_candidates = candidates\<rparr>
                               (gw_runs gw)\<rparr>)))"

section \<open>The concurrent parts of a preparation\<close>

record call_clock =
  ck_hex :: string
  ck_wall :: int
  ck_created_at :: int
  ck_context_first :: bool
  ck_compaction_first :: bool
  ck_started :: pyfloat
  ck_context :: "pyfloat \<times> pyfloat"
  ck_ranking :: "pyfloat \<times> pyfloat"
  ck_allocation :: "pyfloat \<times> pyfloat"
  ck_begin :: "pyfloat \<times> pyfloat"
  ck_commit :: pyfloat
  ck_feasibility :: "pyfloat \<times> pyfloat"
  ck_selection :: pyfloat
  ck_planning :: pyfloat
  ck_provider :: "pyfloat \<times> pyfloat"
  ck_compaction :: "pyfloat \<times> pyfloat"
  ck_prepared :: pyfloat
  ck_replan :: "pyfloat \<times> pyfloat"

definition span_ceil :: "pyfloat \<times> pyfloat \<Rightarrow> int result" where
  "span_ceil ticks = py_ceil ((snd ticks - fst ticks) * Fin 1000)"

definition span_floor :: "pyfloat \<times> pyfloat \<Rightarrow> int result" where
  "span_floor ticks = py_floor ((snd ticks - fst ticks) * Fin 1000)"

text \<open>\<^verbatim>\<open>asyncio.gather\<close> of two tasks raises the error that came first.\<close>

definition gather :: "bool \<Rightarrow> 'a result \<Rightarrow> 'b result \<Rightarrow> ('a \<times> 'b) result" where
  "gather second_first a b =
     (case a of
        Inr x \<Rightarrow> rbind b (\<lambda>y. Inr (x, y))
      | Inl e \<Rightarrow> (case b of Inr _ \<Rightarrow> Inl e | Inl e' \<Rightarrow> Inl (if second_first then e' else e)))"

definition timed :: "pyfloat \<times> pyfloat \<Rightarrow> 'a result \<Rightarrow> ('a \<times> int) result" where
  "timed ticks m = rbind m (\<lambda>x. rbind (span_ceil ticks) (\<lambda>ms. Inr (x, ms)))"

definition predict_output :: "services \<Rightarrow> call_intent \<Rightarrow> output_length_prediction result" where
  "predict_output sv intent =
     (case ci_predicted_output_tokens intent of
        Some given \<Rightarrow>
          let limit = (case ci_max_output_tokens intent of
                None \<Rightarrow> given | Some m \<Rightarrow> if m \<noteq> 0 then m else given)
          in validate_output_length_prediction
               \<lparr>olp_predicted_tokens = min given limit, olp_raw_predicted_tokens = fl_of_int given,
                olp_latency_ms = 0, olp_model_id = ''precomputed-lerouter-prediction''\<rparr>
      | None \<Rightarrow> sv_predict sv (ci_messages intent) (ci_max_output_tokens intent))"

definition analyze_context :: "services \<Rightarrow> pyfloat \<times> pyfloat \<Rightarrow> call_intent \<Rightarrow> (context_block list \<times> int) result" where
  "analyze_context sv ticks intent =
     timed ticks (build_context_blocks (sv_sha256 sv) (ci_messages intent) (ci_task intent))"

definition rank_timed :: "services \<Rightarrow> pyfloat \<times> pyfloat \<Rightarrow> call_intent \<Rightarrow> model_candidate list \<Rightarrow> int \<Rightarrow>
    (scores \<times> int) result" where
  "rank_timed sv ticks intent candidates timeout_ms =
     timed ticks (rank_candidates (sv_ranker sv) intent candidates timeout_ms)"

definition plan_provider_timed :: "pyfloat \<times> pyfloat \<Rightarrow> model_decision \<Rightarrow> cache_analysis \<Rightarrow> call_budget \<Rightarrow>
    operating_policy \<Rightarrow> int \<Rightarrow> (provider_routing_plan \<times> int) result" where
  "plan_provider_timed ticks decision cache budget policy preparation_elapsed_ms =
     timed ticks (plan_provider decision cache budget policy preparation_elapsed_ms)"

definition compact_timed :: "services \<Rightarrow> pyfloat \<times> pyfloat \<Rightarrow> call_intent \<Rightarrow> cache_analysis \<Rightarrow> compaction_plan \<Rightarrow>
    (compaction_result \<times> int) result" where
  "compact_timed sv ticks intent cache plan =
     timed ticks (compact (sv_sha256 sv) (sv_set_order sv) (sv_compactor_kept_tokens sv)
       (ci_messages intent) cache plan)"

section \<open>Preparing a call\<close>

definition ranking_timeout :: "operating_policy \<Rightarrow> int" where
  "ranking_timeout policy = (case pol_hard_call_latency_limit_ms policy of
     Some n \<Rightarrow> if n \<noteq> 0 then n else 3000 | None \<Rightarrow> 3000)"

definition raw_input_tokens :: "call_intent \<Rightarrow> int result" where
  "raw_input_tokens intent =
     rbind (rmap estimate_tokens (ci_messages intent)) (\<lambda>ms.
     rbind (rmap estimate_tokens (ci_tools intent)) (\<lambda>ts. Inr (sum_list ms + sum_list ts)))"

text \<open>The context a plan can reach bounds the required context from below.\<close>

definition raise_floor :: "services \<Rightarrow> cache_analysis \<Rightarrow> call_budget \<Rightarrow> call_budget result" where
  "raise_floor sv cache budget =
     rbind (minimum_reachable_tokens (sv_planner_kept_tokens sv) cache) (\<lambda>reachable_context.
       Inr (if bud_required_context_tokens budget < reachable_context
            then budget\<lparr>bud_required_context_tokens := reachable_context,
              bud_allocator_reason := bud_allocator_reason budget @ '' Physical context floor raised to '' @
                show_int reachable_context @ '' tokens to preserve structurally protected messages.''\<rparr>
            else budget))"

text \<open>
  The part under \<^verbatim>\<open>try\<close>: it changes no state, and an error releases the reservation.
\<close>

definition prepare_reserved :: "services \<Rightarrow> call_clock \<Rightarrow> run_configuration \<Rightarrow> call_intent \<Rightarrow>
    output_length_prediction \<Rightarrow> int \<Rightarrow> cache_analysis \<Rightarrow> call_budget \<Rightarrow> int \<Rightarrow> (scores \<times> int) result \<Rightarrow>
    prepared_call result" where
  "prepare_reserved sv ck config intent prediction context_ms cache budget gemma_ms ranking =
     (let policy = cfg_policy config; candidates = cfg_candidates config in
      rbind ranking (\<lambda>(router_scores, semantic_ranking_ms).
      rbind (span_floor (ck_started ck, ck_selection ck)) (\<lambda>elapsed.
      rbind (select_ranked (sv_ranker sv) intent candidates cache budget policy elapsed (Some router_scores)) (\<lambda>ranked.
      let decision = hd ranked in
      rbind (span_ceil (ck_feasibility ck)) (\<lambda>feasibility_ms.
      rbind (plan_compaction (sv_planner_kept_tokens sv) cache decision budget) (\<lambda>compaction_plan.
      rbind (span_floor (ck_started ck, ck_planning ck)) (\<lambda>planning_elapsed.
      rbind (gather (ck_compaction_first ck)
               (plan_provider_timed (ck_provider ck) decision cache budget policy planning_elapsed)
               (compact_timed sv (ck_compaction ck) intent cache compaction_plan))
        (\<lambda>((_, provider_ms), (compaction, compaction_ms)).
      if \<not> cres_target_met compaction
      then Inl (CompactionError (''Gemma's required context target cannot be reached without changing '' @
             ''structurally immutable context''))
      else
      rbind (span_ceil (ck_started ck, ck_prepared ck)) (\<lambda>preparation_ms.
      rbind (plan_provider decision cache budget policy preparation_ms) (\<lambda>provider.
      rbind (span_ceil (ck_replan ck)) (\<lambda>replan_ms.
      Inr \<lparr>pc_intent = intent, pc_budget = budget, pc_cache = cache, pc_model = decision,
           pc_provider = provider, pc_compaction = compaction, pc_model_alternatives = tl ranked,
           pc_preparation_latency_ms = preparation_ms,
           pc_predicted_output_tokens = olp_predicted_tokens prediction,
           pc_output_prediction_ms = olp_latency_ms prediction, pc_context_analysis_ms = context_ms,
           pc_gemma_allocation_ms = gemma_ms, pc_semantic_ranking_ms = semantic_ranking_ms,
           pc_candidate_feasibility_ms = feasibility_ms, pc_compaction_ms = compaction_ms,
           pc_provider_planning_ms = provider_ms + replan_ms,
           pc_control_plane_total_ms = preparation_ms\<rparr>)))))))))))"

definition args_of :: "string \<Rightarrow> call_intent \<Rightarrow> int \<Rightarrow> int \<Rightarrow> cache_analysis \<Rightarrow> model_candidate list \<Rightarrow> allocation_args" where
  "args_of run_id intent input_tokens predicted cache candidates =
     \<lparr>aa_run_id = run_id, aa_task = ci_task intent, aa_input_tokens = input_tokens,
      aa_predicted_output_tokens = predicted, aa_cache = cache, aa_candidates = candidates,
      aa_priority = ci_priority intent, aa_required_capabilities = ci_required_capabilities intent\<rparr>"

text \<open>What is known before the allocation: prediction, resolved intent, context and analysis.\<close>

definition prepare_analysis :: "services \<Rightarrow> call_clock \<Rightarrow> run_configuration \<Rightarrow> coordinator \<Rightarrow> call_intent \<Rightarrow>
    (output_length_prediction \<times> int \<times> call_intent \<times> int \<times> cache_analysis \<times> coordinator) result" where
  "prepare_analysis sv ck config co intent =
     rbind (gather (ck_context_first ck) (predict_output sv intent) (analyze_context sv (ck_context ck) intent))
       (\<lambda>(prediction, (blocks, context_ms)).
     let resolved = intent\<lparr>ci_predicted_output_tokens := Some (olp_predicted_tokens prediction)\<rparr> in
     rbind (raw_input_tokens resolved) (\<lambda>input_tokens.
     rbind (analyze (sv_sha256 sv) (ck_wall ck) co (ci_session_id resolved) (ci_messages resolved)
              (ci_tools resolved) (cfg_candidates config) (olp_predicted_tokens prediction)
              (ci_task resolved) (Some blocks)) (\<lambda>(cache, co').
     Inr (prediction, context_ms, resolved, input_tokens, cache, co'))))"

definition prepare_call :: "services \<Rightarrow> call_clock \<Rightarrow> string \<Rightarrow> call_intent \<Rightarrow> gateway \<Rightarrow>
    prepared_call result \<times> gateway" where
  "prepare_call sv ck run_id intent gw =
     (case configuration gw run_id of Inl e \<Rightarrow> (Inl e, gw) | Inr config \<Rightarrow>
      (case prepare_analysis sv ck config (gw_cache gw) intent of Inl e \<Rightarrow> (Inl e, gw)
       | Inr (prediction, context_ms, resolved, input_tokens, cache, co) \<Rightarrow>
      (case allocate_call (sv_allocate sv) (ck_hex ck) (fst (ck_begin ck)) (snd (ck_begin ck)) (ck_commit ck)
              (ck_created_at ck)
              (args_of run_id resolved input_tokens (olp_predicted_tokens prediction) cache (cfg_candidates config))
              (gw_controller gw) of
         (Inl e, ctl) \<Rightarrow> (Inl e, gw\<lparr>gw_controller := ctl, gw_cache := co\<rparr>)
       | (Inr reserved, ctl) \<Rightarrow>
           let gw' = gw\<lparr>gw_controller := ctl, gw_cache := co\<rparr>
           in (case rbind (raise_floor sv cache reserved) (\<lambda>budget.
                    rbind (span_ceil (ck_allocation ck)) (\<lambda>gemma_ms. Inr (budget, gemma_ms))) of
                 Inl e \<Rightarrow> (Inl e, gw')
               | Inr (budget, gemma_ms) \<Rightarrow>
                   (case prepare_reserved sv ck config resolved prediction context_ms cache budget gemma_ms
                           (rank_timed sv (ck_ranking ck) intent (cfg_candidates config)
                              (ranking_timeout (cfg_policy config))) of
                      Inr prepared \<Rightarrow> (Inr prepared, gw')
                    | Inl e \<Rightarrow>
                        (case fail_call run_id (bud_call_id budget) False ctl of
                           (Inl e', ctl') \<Rightarrow> (Inl e', gw'\<lparr>gw_controller := ctl'\<rparr>)
                         | (Inr _, ctl') \<Rightarrow> (Inl e, gw'\<lparr>gw_controller := ctl'\<rparr>)))))))"

section \<open>Failover, observation, the end\<close>

definition reroute_prepared :: "pyfloat \<times> pyfloat \<Rightarrow> prepared_call \<Rightarrow> string set \<Rightarrow> int \<Rightarrow> gateway \<Rightarrow>
    prepared_call result" where
  "reroute_prepared ticks prepared excluded_model_ids additional_elapsed_ms gw =
     (if additional_elapsed_ms < 0 then Inl (ValueError ''additional_elapsed_ms cannot be negative'')
      else
      let ranked = pc_model prepared # pc_model_alternatives prepared
      in case find (\<lambda>d. mc_model_id (md_candidate d) \<notin> excluded_model_ids) ranked of
           None \<Rightarrow> Inl (RoutingError ''no precomputed feasible model remains for provider failover'')
         | Some decision \<Rightarrow>
             rbind (policy_of gw (bud_run_id (pc_budget prepared))) (\<lambda>policy.
             rbind (plan_provider decision (pc_cache prepared) (pc_budget prepared) policy
                      (pc_preparation_latency_ms prepared + additional_elapsed_ms)) (\<lambda>provider.
             rbind (span_ceil ticks) (\<lambda>planning_ms.
             Inr (prepared\<lparr>pc_model := decision,
               pc_model_alternatives := filter (\<lambda>d. mc_model_id (md_candidate d) \<noteq> mc_model_id (md_candidate decision)
                   \<and> mc_model_id (md_candidate d) \<notin> excluded_model_ids) ranked,
               pc_provider := provider,
               pc_provider_planning_ms := pc_provider_planning_ms prepared + planning_ms\<rparr>)))))"

definition usage_split :: "model_usage \<Rightarrow> int \<times> int \<times> int" where
  "usage_split usage =
     (let read_tokens = min (mu_input_tokens usage) (mu_cache_read_tokens usage);
          remaining = max 0 (mu_input_tokens usage - read_tokens);
          write_tokens = min remaining (mu_cache_write_tokens usage);
          uncached_tokens = max 0 (remaining - write_tokens)
      in (read_tokens, write_tokens, uncached_tokens))"

definition usage_cost :: "model_usage \<Rightarrow> provider_route \<Rightarrow> pyfloat result" where
  "usage_cost usage route =
     (case usage_split usage of (read_tokens, write_tokens, uncached_tokens) \<Rightarrow>
      let read_rate = (case rt_cache_read_price_per_million route of
             Some p \<Rightarrow> p | None \<Rightarrow> rt_input_price_per_million route);
          write_rate = (case rt_cache_write_price_per_million route of
             Some p \<Rightarrow> p | None \<Rightarrow> rt_input_price_per_million route);
          cost = per_million (fl_of_int read_tokens * read_rate + fl_of_int write_tokens * write_rate
             + fl_of_int uncached_tokens * rt_input_price_per_million route
             + fl_of_int (mu_output_tokens usage) * rt_output_price_per_million route)
      in if \<not> isfinite cost then Inl (BudgetError ''computed provider cost is not finite'') else Inr cost)"

definition authorized_route :: "prepared_call \<Rightarrow> model_usage \<Rightarrow> provider_route result" where
  "authorized_route prepared usage =
     (if mu_model_id usage \<noteq> mc_model_id (md_candidate (pc_model prepared))
      then Inl (BudgetError ''provider usage model does not match the authorized model'')
      else case find (\<lambda>r. rt_provider r = mu_provider usage) (pp_routes (pc_provider prepared)) of
        None \<Rightarrow> Inl (BudgetError ''provider usage came from a route outside the authorized plan'')
      | Some route \<Rightarrow> Inr route)"

definition observed_cost :: "model_usage \<Rightarrow> provider_route \<Rightarrow> pyfloat result" where
  "observed_cost usage route = (case mu_cost_usd usage of Some c \<Rightarrow> Inr c | None \<Rightarrow> usage_cost usage route)"

text \<open>After settlement the cache learns of the conversation that was really sent.\<close>

definition observe_cache :: "services \<Rightarrow> int \<Rightarrow> int \<Rightarrow> prepared_call \<Rightarrow> model_usage \<Rightarrow> provider_route \<Rightarrow> gateway \<Rightarrow>
    gateway result" where
  "observe_cache sv wall wall' prepared usage route gw =
     (let compacted = map cr_message_index (cres_records (pc_compaction prepared));
          sid = ci_session_id (pc_intent prepared);
          cache_usage = (if set compacted \<inter> set (ca_cacheable_message_indices (pc_cache prepared)) \<noteq> {}
                         then usage\<lparr>mu_cache_read_tokens := 0\<rparr> else usage)
      in rbind (if compacted = [] then Inr (pc_cache prepared, gw_cache gw)
                else rbind (configuration gw (bud_run_id (pc_budget prepared))) (\<lambda>config.
                  analyze (sv_sha256 sv) wall (gw_cache gw) sid (cres_messages (pc_compaction prepared))
                    (ci_tools (pc_intent prepared)) (cfg_candidates config)
                    (pc_predicted_output_tokens prepared) (ci_task (pc_intent prepared)) None))
           (\<lambda>(analysis, co). Inr (gw\<lparr>gw_cache := observe wall' co sid analysis route cache_usage\<rparr>)))"

definition observe_model :: "services \<Rightarrow> pyfloat \<Rightarrow> int \<Rightarrow> int \<Rightarrow> int \<Rightarrow> prepared_call \<Rightarrow> model_usage \<Rightarrow> gateway \<Rightarrow>
    run_snapshot result \<times> gateway" where
  "observe_model sv now today wall wall' prepared usage gw =
     (case rbind (authorized_route prepared usage) (\<lambda>route.
           rbind (observed_cost usage route) (\<lambda>cost. Inr (route, cost))) of
        Inl e \<Rightarrow> (Inl e, gw)
      | Inr (route, cost) \<Rightarrow>
          (case settle_call now today (bud_run_id (pc_budget prepared)) (bud_call_id (pc_budget prepared)) cost
                  (mu_latency_ms usage + pc_preparation_latency_ms prepared) (gw_controller gw) of
             (Inl e, ctl) \<Rightarrow> (Inl e, gw\<lparr>gw_controller := ctl\<rparr>)
           | (Inr snap, ctl) \<Rightarrow>
               (case observe_cache sv wall wall' prepared usage route (gw\<lparr>gw_controller := ctl\<rparr>) of
                  Inl e \<Rightarrow> (Inl e, gw\<lparr>gw_controller := ctl\<rparr>)
                | Inr gw' \<Rightarrow> (Inr snap, gw'))))"

definition fail_model :: "prepared_call \<Rightarrow> bool \<Rightarrow> gateway \<Rightarrow> run_snapshot result \<times> gateway" where
  "fail_model prepared billing_unknown gw =
     (case fail_call (bud_run_id (pc_budget prepared)) (bud_call_id (pc_budget prepared)) billing_unknown
             (gw_controller gw) of
        (r, ctl) \<Rightarrow> (r, gw\<lparr>gw_controller := ctl\<rparr>))"

definition gw_observe_tool :: "pyfloat \<Rightarrow> int \<Rightarrow> string \<Rightarrow> gateway \<Rightarrow> run_snapshot result \<times> gateway" where
  "gw_observe_tool now today run_id gw =
     (case observe_tool now today run_id (gw_controller gw) of (r, ctl) \<Rightarrow> (r, gw\<lparr>gw_controller := ctl\<rparr>))"

definition gw_finish_run :: "pyfloat \<Rightarrow> int \<Rightarrow> string \<Rightarrow> bool \<Rightarrow> gateway \<Rightarrow> run_snapshot result \<times> gateway" where
  "gw_finish_run now today run_id success gw =
     (case finish_run now today run_id (if success then COMPLETED else FAILED) (gw_controller gw) of
        (Inl e, ctl) \<Rightarrow> (Inl e, gw\<lparr>gw_controller := ctl\<rparr>)
      | (Inr snap, ctl) \<Rightarrow> (Inr snap, gw\<lparr>gw_controller := ctl, gw_runs := dict_pop run_id (gw_runs gw)\<rparr>))"

end
