(* ===== verification/Controller_Props.thy ===== *)
theory Controller_Props
  imports Controller Samples
begin

text \<open>
  What the call controller guarantees, for any interleaving of its operations: every call is
  counted once, a reservation is closed at most once, a closed run does not change any more,
  and an allocation stays inside the hard limits in force when it is committed.
\<close>

section \<open>Reachable controllers\<close>

definition reserved_ids :: "run \<Rightarrow> string list" where
  "reserved_ids run = map fst (ru_reserved run)"

definition ids_of :: "string \<Rightarrow> controller \<Rightarrow> string list" where
  "ids_of rid ctl = (case dict_get (gc_runs ctl) rid of None \<Rightarrow> [] | Some run \<Rightarrow> reserved_ids run)"

text \<open>The reservations of a run that an operation closed.\<close>

definition closed_by :: "string \<Rightarrow> controller \<Rightarrow> controller \<Rightarrow> (string \<times> string) list" where
  "closed_by rid ctl ctl' = map (Pair rid) (filter (\<lambda>c. c \<notin> set (ids_of rid ctl')) (ids_of rid ctl))"

text \<open>
  A controller with the call identifiers drawn so far and the log of closed reservations. One
  step is one critical section of the code; identifiers are fresh, and only the thread that
  began an allocation commits it, so its call is still pending then.
\<close>

type_synonym ledger = "controller \<times> string set \<times> (string \<times> string) list"

inductive ctl_step :: "ledger \<Rightarrow> ledger \<Rightarrow> bool" where
  s_start: "dict_get (gc_runs ctl) (''run_'' @ hex) = None \<Longrightarrow>
    ctl_step (ctl, U, L) (snd (start_run hex t m sid pol ctl), U, L)"
| s_begin: "''call_'' @ hex \<notin> U \<Longrightarrow>
    ctl_step (ctl, U, L) (snd (allocate_begin hex now now' args ctl), insert (''call_'' @ hex) U, L)"
| s_commit: "dict_get (gc_runs ctl) rid = Some run \<Longrightarrow> c \<in> ru_pending_allocations run \<Longrightarrow>
    ctl_step (ctl, U, L) (snd (allocate_commit now t rid c n tokens cache decision ctl), U, L)"
| s_discard: "ctl_step (ctl, U, L) (discard_pending rid c ctl, U, L)"
| s_settle: "ctl' = snd (settle_call now t rid c cost ms ctl) \<Longrightarrow>
    ctl_step (ctl, U, L) (ctl', U, L @ closed_by rid ctl ctl')"
| s_fail: "ctl' = snd (fail_call rid c unknown ctl) \<Longrightarrow>
    ctl_step (ctl, U, L) (ctl', U, L @ closed_by rid ctl ctl')"
| s_tool: "ctl_step (ctl, U, L) (snd (observe_tool now t rid ctl), U, L)"
| s_finish: "ctl' = snd (finish_run now t rid status ctl) \<Longrightarrow>
    ctl_step (ctl, U, L) (ctl', U, L @ closed_by rid ctl ctl')"

inductive reachable :: "ledger \<Rightarrow> bool" where
  init: "controller_init required model = Inr ctl \<Longrightarrow> reachable (ctl, {}, [])"
| step: "reachable s \<Longrightarrow> ctl_step s s' \<Longrightarrow> reachable s'"

section \<open>The effect of an operation on the runs\<close>

text \<open>
  Each operation replaces at most one run, and in one of a few ways. The relation
  \<open>run_change\<close> is the life cycle of a run; the lemmas show that the operations implement it.
\<close>

definition without_pending :: "string \<Rightarrow> run \<Rightarrow> run" where
  "without_pending c run = run\<lparr>ru_pending_allocations := ru_pending_allocations run - {c}\<rparr>"

definition released :: "string \<Rightarrow> run \<Rightarrow> run" where
  "released c run = run\<lparr>ru_reserved := dict_pop c (ru_reserved run)\<rparr>"

inductive run_change :: "run \<Rightarrow> run \<Rightarrow> bool" where
  same: "run_change r r"
| drop: "run_change r (without_pending c r)"
| grant: "ru_status r = ACTIVE \<Longrightarrow> c \<in> ru_pending_allocations r \<Longrightarrow> bud_call_id b = c \<Longrightarrow> bud_run_id b = rid \<Longrightarrow>
    run_change r ((without_pending c r)\<lparr>ru_reserved := dict_set c b (ru_reserved r)\<rparr>)"
| settled: "ru_status r = ACTIVE \<Longrightarrow> c \<in> set (reserved_ids r) \<Longrightarrow> run_change r (charge x n 1 (released c r))"
| settled_failed: "ru_status r = ACTIVE \<Longrightarrow> c \<in> set (reserved_ids r) \<Longrightarrow>
    run_change r (close_run FAILED t (charge x n 1 (released c r)))"
| unbilled: "ru_status r = ACTIVE \<Longrightarrow> c \<in> set (reserved_ids r) \<Longrightarrow>
    run_change r ((released c r)\<lparr>ru_completed_calls := ru_completed_calls r + 1\<rparr>)"
| used_tool: "ru_status r = ACTIVE \<Longrightarrow> run_change r (r\<lparr>ru_tool_calls := ru_tool_calls r + 1\<rparr>)"
| late_tool: "ru_status r = ACTIVE \<Longrightarrow> run_change r (close_run FAILED t (r\<lparr>ru_tool_calls := ru_tool_calls r + 1\<rparr>))"
| charged: "ru_status r = ACTIVE \<Longrightarrow> ru_pending_allocations r = {} \<Longrightarrow> run_change r (charge_unresolved r)"
| finished: "ru_status r = ACTIVE \<Longrightarrow> ru_pending_allocations r = {} \<Longrightarrow> status \<noteq> ACTIVE \<Longrightarrow>
    run_change r (close_run status t (charge_unresolved r))"

definition changed :: "string \<Rightarrow> controller \<Rightarrow> controller \<Rightarrow> bool" where
  "changed rid ctl ctl' \<longleftrightarrow> ctl' = ctl \<or>
     (\<exists>r r'. dict_get (gc_runs ctl) rid = Some r \<and> run_change r r' \<and> ctl' = put_run rid r' ctl)"

lemma get_run_Inr [simp]: "get_run ctl rid = Inr r \<longleftrightarrow> dict_get (gc_runs ctl) rid = Some r"
  by (auto simp: get_run_def split: option.splits)

lemma active_run_Inr [simp]:
  "active_run ctl rid = Inr r \<longleftrightarrow> dict_get (gc_runs ctl) rid = Some r \<and> ru_status r = ACTIVE"
  by (auto simp: active_run_def)

lemma take_reservation_Inr [simp]:
  "take_reservation r c = Inr (b, r') \<longleftrightarrow> dict_get (ru_reserved r) c = Some b \<and> r' = released c r"
  by (auto simp: take_reservation_def released_def split: option.splits)

lemma get_put_run [simp]: "dict_get (gc_runs (put_run rid r ctl)) = (dict_get (gc_runs ctl))(rid \<mapsto> r)"
  by (simp add: put_run_def dict_get_set)

lemma dict_set_set: "dict_set k v (dict_set k w d) = dict_set k v d"
  by (induction d) auto

lemma put_put_run [simp]: "put_run rid r (put_run rid r' ctl) = put_run rid r ctl"
  by (simp add: put_run_def dict_set_set)

lemma reserved_id: "dict_get (ru_reserved r) c = Some b \<Longrightarrow> c \<in> set (reserved_ids r)"
  by (force simp: reserved_ids_def dest: map_of_SomeD)

lemma changedI: "dict_get (gc_runs ctl) rid = Some r \<Longrightarrow> run_change r r' \<Longrightarrow> changed rid ctl (put_run rid r' ctl)"
  by (auto simp: changed_def)

lemma changed_same [simp]: "changed rid ctl ctl"
  by (simp add: changed_def)

lemma changed_discard: "changed rid ctl (discard_pending rid c ctl)"
  by (auto simp: discard_pending_def intro!: changedI run_change.drop [unfolded without_pending_def]
      split: option.split)

lemma changed_commit:
  assumes "dict_get (gc_runs ctl) rid = Some run" "c \<in> ru_pending_allocations run"
  shows "changed rid ctl (snd (allocate_commit now t rid c n tokens cache decision ctl))"
proof -
  let ?drop = "without_pending c run"
  have d: "changed rid ctl (put_run rid ?drop ctl)" by (rule changedI [OF assms(1) run_change.drop])
  have g: "changed rid ctl (put_run rid (?drop\<lparr>ru_reserved := dict_set c b (ru_reserved run)\<rparr>) ctl)"
    if "ru_status run = ACTIVE" "b = budget_of m rid c n t decision" for b m
    by (rule changedI [OF assms(1) run_change.grant [OF that(1) assms(2)]])
      (simp_all add: that(2) budget_of_def Let_def)
  have "ru_reserved ?drop = ru_reserved run" by (simp add: without_pending_def)
  with d g show ?thesis
    by (auto simp: allocate_commit_def get_run_def assms(1) Let_def without_pending_def split: sum.split)
qed

lemma changed_settle: "changed rid ctl (snd (settle_call now t rid c cost ms ctl))"
  by (auto simp: settle_call_def Let_def split: sum.split list.split
      intro!: changedI run_change.settled run_change.settled_failed reserved_id)

lemma changed_fail: "changed rid ctl (snd (fail_call rid c unknown ctl))"
proof -
  have "ru_completed_calls (released c r) = ru_completed_calls r" for r by (simp add: released_def)
  then show ?thesis
    by (auto simp: fail_call_def Let_def split: sum.split
        intro!: changedI run_change.settled run_change.unbilled reserved_id)
qed

lemma changed_tool: "changed rid ctl (snd (observe_tool now t rid ctl))"
  by (auto simp: observe_tool_def Let_def split: sum.split bool.split
      intro!: changedI run_change.used_tool run_change.late_tool)

lemma changed_finish: "changed rid ctl (snd (finish_run now t rid status ctl))"
  by (auto simp: finish_run_def Let_def split: sum.split bool.split
      intro!: changedI run_change.charged run_change.finished)

lemmas changed_ops = changed_discard changed_commit changed_settle changed_fail changed_tool changed_finish

section \<open>The invariant\<close>

definition run_ok :: "string \<Rightarrow> string set \<Rightarrow> string list \<Rightarrow> run \<Rightarrow> bool" where
  "run_ok rid U gone run \<longleftrightarrow>
     dict_ok (ru_reserved run) \<and> finite (ru_pending_allocations run) \<and>
     ru_pending_allocations run \<union> set (reserved_ids run) \<union> set gone \<subseteq> U \<and>
     ru_pending_allocations run \<inter> set (reserved_ids run) = {} \<and>
     (ru_pending_allocations run \<union> set (reserved_ids run)) \<inter> set gone = {} \<and>
     distinct gone \<and> ru_completed_calls run = int (length gone) \<and>
     ru_completed_calls run + int (length (ru_reserved run)) + int (card (ru_pending_allocations run))
       < ru_next_sequence run \<and>
     (ru_status run = ACTIVE \<longleftrightarrow> ru_finished_at run = None) \<and>
     (ru_status run = COMPLETED \<longrightarrow> ru_reserved run = [] \<and> ru_pending_allocations run = {}) \<and>
     (\<forall>(c, b)\<in>set (ru_reserved run). bud_call_id b = c)"

definition newly_closed :: "run \<Rightarrow> run \<Rightarrow> string list" where
  "newly_closed r r' = filter (\<lambda>c. c \<notin> set (reserved_ids r')) (reserved_ids r)"

lemma reserved_ids_set [simp]: "set (reserved_ids (r\<lparr>ru_reserved := dict_set c b d\<rparr>)) = insert c (fst ` set d)"
  by (simp add: reserved_ids_def dom_update)

lemma reserved_ids_released [simp]: "set (reserved_ids (released c r)) = set (reserved_ids r) - {c}"
  by (simp add: reserved_ids_def released_def delete_keys)

lemma field_frames [simp]:
  "reserved_ids (without_pending c r) = reserved_ids r" "ru_reserved (without_pending c r) = ru_reserved r"
  "ru_pending_allocations (without_pending c r) = ru_pending_allocations r - {c}"
  "ru_completed_calls (without_pending c r) = ru_completed_calls r"
  "ru_next_sequence (without_pending c r) = ru_next_sequence r" "ru_status (without_pending c r) = ru_status r"
  "ru_finished_at (without_pending c r) = ru_finished_at r"
  "ru_pending_allocations (released c r) = ru_pending_allocations r"
  "ru_completed_calls (released c r) = ru_completed_calls r"
  "ru_next_sequence (released c r) = ru_next_sequence r" "ru_status (released c r) = ru_status r"
  "ru_finished_at (released c r) = ru_finished_at r"
  by (simp_all add: without_pending_def released_def reserved_ids_def)

lemma charge_frames [simp]:
  "ru_reserved (charge x n k r) = ru_reserved r" "reserved_ids (charge x n k r) = reserved_ids r"
  "ru_pending_allocations (charge x n k r) = ru_pending_allocations r"
  "ru_completed_calls (charge x n k r) = ru_completed_calls r + k"
  "ru_next_sequence (charge x n k r) = ru_next_sequence r" "ru_status (charge x n k r) = ru_status r"
  "ru_finished_at (charge x n k r) = ru_finished_at r"
  by (simp_all add: charge_def reserved_ids_def)

lemma close_frames [simp]:
  "ru_reserved (close_run s t r) = ru_reserved r" "reserved_ids (close_run s t r) = reserved_ids r"
  "ru_pending_allocations (close_run s t r) = ru_pending_allocations r"
  "ru_completed_calls (close_run s t r) = ru_completed_calls r"
  "ru_next_sequence (close_run s t r) = ru_next_sequence r" "ru_status (close_run s t r) = s"
  "ru_finished_at (close_run s t r) = Some t"
  by (simp_all add: close_run_def reserved_ids_def)

lemma unresolved_frames [simp]:
  "ru_reserved (charge_unresolved r) = []" "reserved_ids (charge_unresolved r) = []"
  "ru_pending_allocations (charge_unresolved r) = ru_pending_allocations r"
  "ru_completed_calls (charge_unresolved r) = ru_completed_calls r + int (length (ru_reserved r))"
  "ru_next_sequence (charge_unresolved r) = ru_next_sequence r" "ru_status (charge_unresolved r) = ru_status r"
  "ru_finished_at (charge_unresolved r) = ru_finished_at r"
  by (auto simp: charge_unresolved_def charge_def reserved_ids_def)

lemma distinct_filter_one: "distinct xs \<Longrightarrow> c \<in> set xs \<Longrightarrow> (\<And>x. x \<in> set xs \<Longrightarrow> p x \<longleftrightarrow> x = c) \<Longrightarrow> filter p xs = [c]"
proof (induction xs)
  case (Cons x xs)
  show ?case
  proof (cases "x = c")
    case True
    then have "filter p xs = []" using Cons.prems by (auto simp: filter_empty_conv)
    with True Cons.prems show ?thesis by simp
  next
    case False
    with Cons show ?thesis by simp
  qed
qed simp

lemma closed_one:
  "dict_ok (ru_reserved r) \<Longrightarrow> c \<in> set (reserved_ids r) \<Longrightarrow> set (reserved_ids r') = set (reserved_ids r) - {c} \<Longrightarrow>
   newly_closed r r' = [c]"
  unfolding newly_closed_def by (rule distinct_filter_one) (auto simp: reserved_ids_def dict_ok_def)

lemma released_length:
  assumes "dict_ok (ru_reserved r)" "c \<in> set (reserved_ids r)"
  shows "int (length (ru_reserved (released c r))) = int (length (ru_reserved r)) - 1"
proof -
  obtain b where "dict_get (ru_reserved r) c = Some b"
    using assms(2) by (auto simp: reserved_ids_def map_of_eq_None_iff dest!: weak_map_of_SomeI)
  from dict_pop_length [OF this assms(1)] show ?thesis by (simp add: released_def)
qed

lemma run_ok_close_one:
  assumes ok: "run_ok rid U gone r" and c: "c \<in> set (reserved_ids r)" and act: "ru_status r = ACTIVE"
    and r': "ru_reserved r' = ru_reserved (released c r)" "ru_pending_allocations r' = ru_pending_allocations r"
      "ru_completed_calls r' = ru_completed_calls r + 1" "ru_next_sequence r' = ru_next_sequence r"
      "ru_status r' \<noteq> COMPLETED" "ru_status r' = ACTIVE \<longleftrightarrow> ru_finished_at r' = None"
  shows "run_ok rid U (gone @ newly_closed r r') r'"
proof -
  have d: "dict_ok (ru_reserved r)" using ok by (simp add: run_ok_def)
  have ids: "set (reserved_ids r') = set (reserved_ids r) - {c}"
    using reserved_ids_released [of c r] r'(1) by (simp add: reserved_ids_def)
  have n: "newly_closed r r' = [c]" by (rule closed_one [OF d c ids])
  have "set (ru_reserved r') \<subseteq> set (ru_reserved r)" by (simp add: r'(1) released_def dict_pop_subset)
  moreover have "dict_ok (ru_reserved r')" using d by (simp add: r'(1) released_def)
  moreover have "int (length (ru_reserved r')) = int (length (ru_reserved r)) - 1"
    using released_length [OF d c] r'(1) by simp
  ultimately show ?thesis using ok c ids r' n unfolding run_ok_def by auto
qed

lemma dict_set_new_length:
  "c \<notin> set (reserved_ids r) \<Longrightarrow> length (dict_set c b (ru_reserved r)) = Suc (length (ru_reserved r))"
  by (rule dict_set_length_new) (simp add: reserved_ids_def map_of_eq_None_iff)

lemma run_change_ok:
  assumes "run_change r r'" "run_ok rid U gone r"
  shows "run_ok rid U (gone @ newly_closed r r') r'"
  using assms(1)
proof cases
  case same
  then show ?thesis using assms(2) by (simp add: newly_closed_def)
next
  case (drop c)
  moreover have "int (card (ru_pending_allocations r - {c})) \<le> int (card (ru_pending_allocations r))"
    using assms(2) by (auto simp: run_ok_def intro: card_mono)
  ultimately show ?thesis using assms(2) by (auto simp: run_ok_def newly_closed_def)
next
  case (grant c b)
  have c: "c \<notin> set (reserved_ids r)" "c \<in> U" using grant(3) assms(2) by (auto simp: run_ok_def)
  have "card (ru_pending_allocations r - {c}) = card (ru_pending_allocations r) - 1"
    "0 < card (ru_pending_allocations r)"
    using grant(3) assms(2) by (auto simp: run_ok_def card_gt_0_iff)
  moreover have "length (ru_reserved r') = Suc (length (ru_reserved r))"
    using dict_set_new_length [OF c(1), of b] grant(1) by simp
  moreover have "set (reserved_ids r') = insert c (set (reserved_ids r))"
    by (simp add: grant(1) reserved_ids_def dom_update)
  moreover have "newly_closed r r' = []" using calculation by (simp add: newly_closed_def)
  moreover have "\<forall>(c, b)\<in>set (ru_reserved r'). bud_call_id b = c"
    using dict_set_subset [of c b "ru_reserved r"] grant(1,4) assms(2) by (auto simp: run_ok_def)
  ultimately show ?thesis using grant assms(2) c by (auto simp: run_ok_def)
next
  case (settled c x n)
  then show ?thesis by (intro run_ok_close_one [OF assms(2), of c]) (use assms(2) in \<open>auto simp: run_ok_def\<close>)
next
  case (settled_failed c t x n)
  then show ?thesis by (intro run_ok_close_one [OF assms(2), of c]) auto
next
  case (unbilled c)
  then show ?thesis by (intro run_ok_close_one [OF assms(2), of c]) (use assms(2) in \<open>auto simp: run_ok_def\<close>)
next
  case used_tool
  then show ?thesis using assms(2) by (auto simp: run_ok_def newly_closed_def reserved_ids_def)
next
  case late_tool
  then show ?thesis using assms(2) by (auto simp: run_ok_def newly_closed_def reserved_ids_def close_run_def)
next
  case charged
  then have "newly_closed r r' = reserved_ids r" by (simp add: newly_closed_def)
  then show ?thesis using charged assms(2) by (auto simp: run_ok_def reserved_ids_def dict_ok_def)
next
  case finished
  then have "newly_closed r r' = reserved_ids r" by (simp add: newly_closed_def)
  then show ?thesis using finished assms(2) by (auto simp: run_ok_def reserved_ids_def dict_ok_def)
qed

definition closed_of :: "string \<Rightarrow> (string \<times> string) list \<Rightarrow> string list" where
  "closed_of rid L = map snd (filter (\<lambda>p. fst p = rid) L)"

definition ledger_ok :: "ledger \<Rightarrow> bool" where
  "ledger_ok s \<longleftrightarrow> (case s of (ctl, U, L) \<Rightarrow> dict_ok (gc_runs ctl) \<and>
     (\<forall>rid. dict_get (gc_runs ctl) rid = None \<longrightarrow> closed_of rid L = []) \<and>
     (\<forall>rid run. dict_get (gc_runs ctl) rid = Some run \<longrightarrow> run_ok rid U (closed_of rid L) run))"

lemma closed_of_append [simp]: "closed_of rid (L @ M) = closed_of rid L @ closed_of rid M"
  by (simp add: closed_of_def)

lemma closed_of_Nil [simp]: "closed_of rid [] = []"
  by (simp add: closed_of_def)

lemma closed_of_Pair: "closed_of rid (map (Pair rid') cs) = (if rid = rid' then cs else [])"
  by (auto simp: closed_of_def filter_map o_def)

lemma closed_of_in: "(rid, c) \<in> set L \<longleftrightarrow> c \<in> set (closed_of rid L)"
  by (force simp: closed_of_def)

lemma dict_ok_put [simp]: "dict_ok (gc_runs ctl) \<Longrightarrow> dict_ok (gc_runs (put_run rid r ctl))"
  by (simp add: put_run_def)

lemma closed_by_put:
  "dict_get (gc_runs ctl) rid = Some r \<Longrightarrow> closed_by rid ctl (put_run rid r' ctl) = map (Pair rid) (newly_closed r r')"
  by (simp add: closed_by_def ids_of_def newly_closed_def)

lemma changed_ok:
  assumes "changed rid ctl ctl'" "ledger_ok (ctl, U, L)"
  shows "ledger_ok (ctl', U, L @ closed_by rid ctl ctl')"
  using assms(1) unfolding changed_def
proof (elim disjE exE conjE)
  assume "ctl' = ctl"
  then show ?thesis using assms(2) by (simp add: closed_by_def)
next
  fix r r'
  assume r: "dict_get (gc_runs ctl) rid = Some r" "run_change r r'" "ctl' = put_run rid r' ctl"
  have "run_ok rid U (closed_of rid L) r" using assms(2) r(1) by (auto simp: ledger_ok_def split: option.splits)
  from run_change_ok [OF r(2) this] show ?thesis
    using assms(2) r by (auto simp: ledger_ok_def closed_by_put closed_of_Pair split: if_splits)
qed

text \<open>Two operations never close a reservation.\<close>

lemma unclosed:
  assumes "changed rid ctl ctl'" "set (ids_of rid ctl) \<subseteq> set (ids_of rid ctl')" "ledger_ok (ctl, U, L)"
  shows "ledger_ok (ctl', U, L)"
proof -
  have "closed_by rid ctl ctl' = []" using assms(2) by (auto simp: closed_by_def filter_empty_conv)
  with changed_ok [OF assms(1,3)] show ?thesis by simp
qed

lemma ids_of_commit: "set (ids_of rid ctl) \<subseteq> set (ids_of rid (snd (allocate_commit now t rid c n tokens cache decision ctl)))"
proof -
  have "reserved_ids (run\<lparr>ru_pending_allocations := P\<rparr>) = reserved_ids run" for run :: run and P
    by (simp add: reserved_ids_def)
  then show ?thesis
    by (auto simp: allocate_commit_def ids_of_def get_run_def Let_def split: option.split sum.split)
      (auto simp: reserved_ids_def)
qed

lemma ids_of_discard: "set (ids_of rid ctl) \<subseteq> set (ids_of rid (discard_pending rid c ctl))"
  by (auto simp: discard_pending_def ids_of_def reserved_ids_def split: option.split)

lemma ids_of_tool: "set (ids_of rid ctl) \<subseteq> set (ids_of rid (snd (observe_tool now t rid ctl)))"
  by (auto simp: observe_tool_def ids_of_def active_run_def get_run_def Let_def reserved_ids_def
      split: option.split sum.split bool.split)

lemma begin_cases:
  obtains "snd (allocate_begin hex now now' args ctl) = ctl"
  | run where "dict_get (gc_runs ctl) (aa_run_id args) = Some run" "ru_status run = ACTIVE"
      "snd (allocate_begin hex now now' args ctl) = put_run (aa_run_id args)
         (run\<lparr>ru_next_sequence := ru_next_sequence run + 1,
              ru_pending_allocations := insert (''call_'' @ hex) (ru_pending_allocations run)\<rparr>) ctl"
proof (cases "rbind (check_arguments args) (\<lambda>_.
           rbind (active_run ctl (aa_run_id args)) (\<lambda>run.
           rbind (remaining_latency run now) (\<lambda>time.
           rbind (exhausted (remaining_cost run (fst (reserved_totals run))) time) (\<lambda>_. Inr (run, time)))))")
  case (Inl e)
  then show thesis by (intro that(1)) (simp add: allocate_begin_def)
next
  case (Inr p)
  obtain run time where p: "p = (run, time)" by (cases p)
  from Inr p have "dict_get (gc_runs ctl) (aa_run_id args) = Some run" "ru_status run = ACTIVE" by auto
  then show thesis by (rule that(2)) (simp add: allocate_begin_def Inr p Let_def del: rbind_Inr_iff)
qed

lemma run_ok_begin:
  assumes "run_ok rid U gone run" "ru_status run = ACTIVE" "c \<notin> U"
  shows "run_ok rid (insert c U) gone (run\<lparr>ru_next_sequence := ru_next_sequence run + 1,
           ru_pending_allocations := insert c (ru_pending_allocations run)\<rparr>)"
proof -
  have "c \<notin> ru_pending_allocations run" using assms(1,3) by (auto simp: run_ok_def)
  moreover have "finite (ru_pending_allocations run)" using assms(1) by (simp add: run_ok_def)
  ultimately have "card (insert c (ru_pending_allocations run)) = Suc (card (ru_pending_allocations run))"
    by simp
  with assms show ?thesis by (auto simp: run_ok_def reserved_ids_def)
qed

lemma run_ok_more: "run_ok rid U gone run \<Longrightarrow> run_ok rid (insert c U) gone run"
  by (auto simp: run_ok_def)

lemma ledger_ok_more: "ledger_ok (ctl, U, L) \<Longrightarrow> ledger_ok (ctl, insert c U, L)"
  by (auto simp: ledger_ok_def intro: run_ok_more split: option.splits)

lemma begin_ok:
  assumes "ledger_ok (ctl, U, L)" "''call_'' @ hex \<notin> U"
  shows "ledger_ok (snd (allocate_begin hex now now' args ctl), insert (''call_'' @ hex) U, L)"
proof (cases rule: begin_cases [of hex now now' args ctl])
  case 1
  then show ?thesis using ledger_ok_more [OF assms(1)] by simp
next
  case (2 run)
  let ?rid = "aa_run_id args"
  have "run_ok ?rid U (closed_of ?rid L) run"
    using assms(1) 2(1) by (auto simp: ledger_ok_def split: option.splits)
  from run_ok_begin [OF this 2(2) assms(2)] ledger_ok_more [OF assms(1), of "''call_'' @ hex"]
  show ?thesis unfolding 2(3) by (auto simp: ledger_ok_def split: option.splits)
qed

lemma run_start_ok:
  assumes "ledger_ok (ctl, U, L)" "dict_get (gc_runs ctl) (''run_'' @ hex) = None"
  shows "ledger_ok (snd (start_run hex t m sid pol ctl), U, L)"
proof -
  have "closed_of (''run_'' @ hex) L = []" using assms by (auto simp: ledger_ok_def split: option.splits)
  then have "run_ok (''run_'' @ hex) U (closed_of (''run_'' @ hex) L) (new_run (''run_'' @ hex) t m sid pol)"
    by (simp add: run_ok_def new_run_def reserved_ids_def)
  with assms(1) show ?thesis
    by (auto simp: start_run_def Let_def new_run_def ledger_ok_def split: option.splits if_splits)
qed

lemma ctl_step_ok: "ctl_step s s' \<Longrightarrow> ledger_ok s \<Longrightarrow> ledger_ok s'"
proof (induction rule: ctl_step.induct)
  case s_start
  then show ?case by (intro run_start_ok)
next
  case s_begin
  then show ?case by (intro begin_ok)
next
  case s_commit
  then show ?case by (intro unclosed [OF changed_commit ids_of_commit])
next
  case s_discard
  then show ?case by (intro unclosed [OF changed_discard ids_of_discard])
next
  case (s_settle ctl' now t rid c cost ms ctl)
  then show ?case using changed_ok changed_settle by blast
next
  case (s_fail ctl' rid c unknown ctl)
  then show ?case using changed_ok changed_fail by blast
next
  case s_tool
  then show ?case by (intro unclosed [OF changed_tool ids_of_tool])
next
  case (s_finish ctl' now t rid status ctl)
  then show ?case using changed_ok changed_finish by blast
qed

lemma controller_reachable_ok: "reachable s \<Longrightarrow> ledger_ok s"
proof (induction rule: reachable.induct)
  case (init required model ctl)
  then have "gc_runs ctl = []" by (auto simp: controller_init_def Let_def split: if_splits)
  then show ?case by (simp add: ledger_ok_def)
qed (rule ctl_step_ok)

lemma reachable_run_ok:
  "reachable (ctl, U, L) \<Longrightarrow> dict_get (gc_runs ctl) rid = Some run \<Longrightarrow> run_ok rid U (closed_of rid L) run"
  using controller_reachable_ok [of "(ctl, U, L)"] by (auto simp: ledger_ok_def split: option.splits)

section \<open>Evidence for the allocator\<close>

lemma micro_bounds: "micro < Fin 1 - micro \<and> Fin 1 - micro < Fin 1 \<and> Fin 0 < micro"
  by code_simp

lemma clamped_fraction: "micro \<le> pmin (Fin 1 - micro) (pmax micro f) \<and> pmin (Fin 1 - micro) (pmax micro f) < Fin 1"
proof -
  obtain m where m: "micro = Fin m" using micro_bounds by (cases micro) auto
  obtain n where n: "Fin 1 - micro = Fin n" using micro_bounds by (cases "Fin 1 - micro") auto
  from micro_bounds show ?thesis unfolding m n [unfolded m] by (cases f) (auto simp: pmin_def pmax_def)
qed

lemma candidate_option_ok:
  assumes "mc_routes candidate \<noteq> []"
  obtains bo r where "candidate_option policy cache n required candidate = Inr bo" "r \<in> set (mc_routes candidate)"
    "min_by (<) fst (map (option_route_cost cache (dict_get (ca_values cache) (mc_model_id candidate)) n)
       (mc_routes candidate)) = Inr (option_route_cost cache (dict_get (ca_values cache) (mc_model_id candidate)) n r)"
    "bo_cheapest_predicted_cost_usd bo =
       fst (option_route_cost cache (dict_get (ca_values cache) (mc_model_id candidate)) n r)"
    "micro \<le> bo_cheapest_input_cost_fraction bo" "bo_cheapest_input_cost_fraction bo < Fin 1"
    "bo_model_id bo = mc_model_id candidate"
proof -
  let ?f = "option_route_cost cache (dict_get (ca_values cache) (mc_model_id candidate)) n"
  obtain p where p: "min_by (<) fst (map ?f (mc_routes candidate)) = Inr p"
    using min_by_ok [of "map ?f (mc_routes candidate)"] assms by (metis map_is_Nil_conv)
  obtain r where r: "r \<in> set (mc_routes candidate)" "p = ?f r" using min_by_in [OF p] by auto
  obtain l where l: "min_by (<) id (map rt_p95_total_latency_ms (mc_routes candidate)) = Inr l"
    using min_by_ok [of "map rt_p95_total_latency_ms (mc_routes candidate)"] assms by (metis map_is_Nil_conv)
  obtain a b where ab: "p = (a, b)" by (cases p)
  define f where "f = (if Fin 0 < a then fdiv b a
      else fl (of_int (ca_total_tokens cache) / of_int (ca_total_tokens cache + n)))"
  show thesis
  proof (rule that [OF _ r(1)])
    show "min_by (<) fst (map ?f (mc_routes candidate)) = Inr (?f r)" using p r(2) by simp
  next
    show "candidate_option policy cache n required candidate = Inr
      \<lparr>bo_model_id = mc_model_id candidate, bo_quality = mc_quality candidate,
       bo_context_fits = (ca_total_tokens cache + n \<le> mc_context_window_tokens candidate),
       bo_required_capabilities_supported = (required \<subseteq> mc_capabilities candidate),
       bo_cheapest_predicted_cost_usd = a, bo_cheapest_input_cost_fraction = pmin (Fin 1 - micro) (pmax micro f),
       bo_fastest_predicted_latency_ms = l + pol_controller_reserve_ms policy
         + pol_compaction_reserve_ms policy + pol_latency_safety_margin_ms policy,
       bo_exact_cache_reuse = (case dict_get (ca_values cache) (mc_model_id candidate) of
          None \<Rightarrow> False | Some v \<Rightarrow> cv_exact_reuse v),
       bo_cached_tokens = (case dict_get (ca_values cache) (mc_model_id candidate) of
          None \<Rightarrow> 0 | Some v \<Rightarrow> cv_cached_tokens v)\<rparr>"
      using clamped_fraction [of f]
      by (simp add: candidate_option_def Let_def p l ab validate_budget_candidate_option_def f_def
          del: rbind_Inr_iff)
  qed (use clamped_fraction [of f] r(2) ab in \<open>simp_all, metis fst_conv\<close>)
qed

lemma candidate_options_ok:
  "\<forall>c\<in>set candidates. mc_routes c \<noteq> [] \<Longrightarrow> \<exists>os. candidate_options policy candidates cache n required = Inr os"
proof (induction candidates)
  case (Cons c candidates)
  obtain bo where "candidate_option policy cache n required c = Inr bo"
    using candidate_option_ok [of c policy cache n required] Cons.prems by auto
  with Cons show ?case by (auto simp: candidate_options_def)
qed (simp add: candidate_options_def)

lemma build_request_ok:
  assumes "\<forall>c\<in>set (aa_candidates args). mc_routes c \<noteq> []"
    and "isfinite ((now - ru_started_monotonic run) * Fin 1000)"
  shows "\<exists>request. build_request args run c n money time now = Inr request \<and>
    req_call_id request = c \<and> req_sequence request = n"
proof -
  obtain os where "candidate_options (ru_policy run) (aa_candidates args) (aa_cache args)
      (aa_predicted_output_tokens args) (aa_required_capabilities args) = Inr os"
    using candidate_options_ok [OF assms(1)] by blast
  moreover obtain ms where "elapsed_ms run now = Inr ms"
    using assms(2) by (auto simp: elapsed_ms_def isfinite_iff)
  ultimately show ?thesis by (simp add: build_request_def Let_def)
qed

lemma allocate_call_failed:
  assumes "allocate_call allocate hex now now' now'' t args ctl = (Inl e, ctl')"
    and "dict_get (gc_runs ctl) (aa_run_id args) = Some run" "''call_'' @ hex \<notin> ru_pending_allocations run"
    and "\<forall>c\<in>set (aa_candidates args). mc_routes c \<noteq> []"
    and "isfinite ((now' - ru_started_monotonic run) * Fin 1000)"
  shows "\<exists>n. ru_next_sequence run \<le> n \<and>
    dict_get (gc_runs ctl') = (dict_get (gc_runs ctl))(aa_run_id args \<mapsto> run\<lparr>ru_next_sequence := n\<rparr>)"
proof -
  let ?rid = "aa_run_id args" and ?c = "''call_'' @ hex" and ?n = "ru_next_sequence run"
  let ?begun = "run\<lparr>ru_next_sequence := ?n + 1, ru_pending_allocations := insert ?c (ru_pending_allocations run)\<rparr>"
  have "ru_pending_allocations run - {?c} = ru_pending_allocations run" using assms(3) by blast
  note undone = this [simplified]
  have same: "(dict_get (gc_runs ctl))(?rid \<mapsto> run\<lparr>ru_next_sequence := ?n\<rparr>) = dict_get (gc_runs ctl)"
    using assms(2) by auto
  let ?guard = "rbind (check_arguments args) (\<lambda>_. rbind (active_run ctl ?rid) (\<lambda>run.
      rbind (remaining_latency run now) (\<lambda>time.
      rbind (exhausted (remaining_cost run (fst (reserved_totals run))) time) (\<lambda>_. Inr (run, time)))))"
  show ?thesis
  proof (cases ?guard)
    case (Inl e')
    then have "ctl' = ctl" using assms(1) by (simp add: allocate_call_def allocate_begin_def)
    with same show ?thesis by (intro exI [of _ ?n]) simp
  next
    case (Inr p)
    obtain r time where p: "p = (r, time)" by (cases p)
    have r: "r = run" using Inr assms(2) p by auto
    have "isfinite ((now' - ru_started_monotonic ?begun) * Fin 1000)" using assms(5) by simp
    from build_request_ok [OF assms(4) this] obtain request where q:
      "build_request args ?begun ?c ?n (remaining_cost run (fst (reserved_totals run))) time now' = Inr request"
      "req_call_id request = ?c" "req_sequence request = ?n" by blast
    have bg: "allocate_begin hex now now' args ctl = (Inr request, put_run ?rid ?begun ctl)"
      unfolding allocate_begin_def Inr p r by (simp add: Let_def q(1) [simplified])
    have drop: "dict_get (gc_runs ctl') = (dict_get (gc_runs ctl))(?rid \<mapsto> run\<lparr>ru_next_sequence := ?n + 1\<rparr>)"
    proof (cases "allocate request")
      case Inl
      then have "ctl' = discard_pending ?rid ?c (put_run ?rid ?begun ctl)"
        using assms(1) by (simp add: allocate_call_def bg q(2))
      then show ?thesis by (simp add: discard_pending_def undone)
    next
      case (Inr decision)
      then have "allocate_commit now'' t ?rid ?c ?n (aa_input_tokens args) (aa_cache args) decision
          (put_run ?rid ?begun ctl) = (Inl e, ctl')"
        using assms(1) by (simp add: allocate_call_def bg q(2,3))
      then show ?thesis
        by (auto simp: allocate_commit_def get_run_def Let_def undone split: sum.splits)
    qed
    then show ?thesis by (intro exI [of _ "?n + 1"]) simp
  qed
qed

lemma allocate_call_granted:
  assumes "allocate_call allocate hex now now' now'' t args ctl = (Inr b, ctl')"
    and "dict_get (gc_runs ctl) (aa_run_id args) = Some run" "''call_'' @ hex \<notin> ru_pending_allocations run"
  shows "ru_status run = ACTIVE" "bud_call_id b = ''call_'' @ hex" "bud_run_id b = aa_run_id args"
    "dict_get (gc_runs ctl') = (dict_get (gc_runs ctl))(aa_run_id args \<mapsto>
       run\<lparr>ru_next_sequence := ru_next_sequence run + 1,
           ru_reserved := dict_set (''call_'' @ hex) b (ru_reserved run)\<rparr>)"
    "bud_required_context_tokens b \<le> aa_input_tokens args" "aa_input_tokens args = ca_total_tokens (aa_cache args)"
proof -
  let ?rid = "aa_run_id args" and ?c = "''call_'' @ hex" and ?n = "ru_next_sequence run"
  let ?begun = "run\<lparr>ru_next_sequence := ?n + 1, ru_pending_allocations := insert ?c (ru_pending_allocations run)\<rparr>"
  have "ru_pending_allocations run - {?c} = ru_pending_allocations run" using assms(3) by blast
  note undone = this [simplified]
  let ?guard = "rbind (check_arguments args) (\<lambda>_. rbind (active_run ctl ?rid) (\<lambda>run.
      rbind (remaining_latency run now) (\<lambda>time.
      rbind (exhausted (remaining_cost run (fst (reserved_totals run))) time) (\<lambda>_. Inr (run, time)))))"
  obtain r time where g: "?guard = Inr (r, time)"
    using assms(1) by (cases ?guard) (auto simp: allocate_call_def allocate_begin_def simp del: rbind_Inr_iff)
  then have r: "r = run" and act: "ru_status run = ACTIVE" and args: "check_arguments args = Inr ()"
    using assms(2) by auto
  show "ru_status run = ACTIVE" by (rule act)
  show "aa_input_tokens args = ca_total_tokens (aa_cache args)"
    using args by (auto simp: check_arguments_def split: if_splits)
  obtain request where q: "build_request args ?begun ?c ?n (remaining_cost run (fst (reserved_totals run))) time now' =
      Inr request"
    using assms(1) g unfolding allocate_call_def allocate_begin_def g r
    by (cases "build_request args ?begun ?c ?n (remaining_cost run (fst (reserved_totals run))) time now'")
      (auto simp: Let_def)
  have id: "req_call_id request = ?c" "req_sequence request = ?n"
    using q by (auto simp: build_request_def Let_def)
  have bg: "allocate_begin hex now now' args ctl = (Inr request, put_run ?rid ?begun ctl)"
    unfolding allocate_begin_def g r by (simp add: Let_def q [simplified])
  obtain decision where "allocate request = Inr decision"
    and cm: "allocate_commit now'' t ?rid ?c ?n (aa_input_tokens args) (aa_cache args) decision
      (put_run ?rid ?begun ctl) = (Inr b, ctl')"
    using assms(1) by (cases "allocate request") (auto simp: allocate_call_def bg id)
  have b: "b = budget_of (gc_allocator_model_id (put_run ?rid ?begun ctl)) ?rid ?c ?n t decision"
    and v: "\<exists>money time'. validate_decision (ru_policy run) decision money time' (aa_input_tokens args) (aa_cache args) = Inr ()"
    using cm by (auto simp: allocate_commit_def get_run_def Let_def split: sum.splits if_splits)
  then show "bud_call_id b = ?c" "bud_run_id b = ?rid" by (simp_all add: budget_of_def Let_def)
  show "bud_required_context_tokens b \<le> aa_input_tokens args"
    using v by (auto simp: b budget_of_def Let_def validate_decision_def split: if_splits)
  show "dict_get (gc_runs ctl') = (dict_get (gc_runs ctl))(?rid \<mapsto>
       run\<lparr>ru_next_sequence := ?n + 1, ru_reserved := dict_set ?c b (ru_reserved run)\<rparr>)"
    using cm by (auto simp: allocate_commit_def get_run_def Let_def undone b split: sum.splits if_splits)
qed

section \<open>What a client of the controller relies on\<close>

text \<open>
  A ledger of reservations, as the gateway uses it: \<open>owes\<close> is what the ledger has recorded,
  a reservation that fails records nothing, and releasing a reservation that was just granted
  succeeds and undoes it. The lemma is the pattern of the gateway: reserve, work, release on error.
\<close>

locale reservations =
  fixes owes :: "'s \<Rightarrow> 'v"
    and reserve :: "'a \<Rightarrow> 's \<Rightarrow> 'b result \<times> 's"
    and release :: "'b \<Rightarrow> 's \<Rightarrow> 'c result \<times> 's"
    and ready :: "'a \<Rightarrow> 's \<Rightarrow> bool"
  assumes reserve_failed: "ready a s \<Longrightarrow> reserve a s = (Inl e, s') \<Longrightarrow> owes s' = owes s"
    and release_undoes: "ready a s \<Longrightarrow> reserve a s = (Inr b, s') \<Longrightarrow>
      is_ok (fst (release b s')) \<and> owes (snd (release b s')) = owes s"
begin

definition attempt :: "('b \<Rightarrow> 'd result) \<Rightarrow> 'a \<Rightarrow> 's \<Rightarrow> 'd result \<times> 's" where
  "attempt work a s = (case reserve a s of
     (Inl e, s') \<Rightarrow> (Inl e, s')
   | (Inr b, s') \<Rightarrow> (case work b of
        Inr x \<Rightarrow> (Inr x, s')
      | Inl e \<Rightarrow> (case release b s' of (Inl e', s'') \<Rightarrow> (Inl e', s'') | (Inr _, s'') \<Rightarrow> (Inl e, s''))))"

lemma attempt_failed: "ready a s \<Longrightarrow> attempt work a s = (Inl e, s') \<Longrightarrow> owes s' = owes s"
  by (auto simp: attempt_def split: prod.splits sum.splits dest: reserve_failed release_undoes)

lemma attempt_done:
  "attempt work a s = (Inr x, s') \<Longrightarrow> \<exists>b. reserve a s = (Inr b, s') \<and> work b = Inr x"
  by (auto simp: attempt_def split: prod.splits sum.splits)

end

text \<open>What a run owes: everything but the sequence counter and the count of calls.\<close>

definition owed :: "controller \<Rightarrow> string \<Rightarrow> run option" where
  "owed ctl rid = map_option (\<lambda>r. r\<lparr>ru_next_sequence := 0, ru_completed_calls := 0\<rparr>) (dict_get (gc_runs ctl) rid)"

record call_request =
  cq_hex :: string
  cq_begin :: "pyfloat \<times> pyfloat"
  cq_commit :: pyfloat
  cq_created_at :: int
  cq_args :: allocation_args

definition reserve_call :: "(budget_allocation_request \<Rightarrow> budget_allocation_decision result) \<Rightarrow> call_request \<Rightarrow>
    controller \<Rightarrow> call_budget result \<times> controller" where
  "reserve_call allocate q = allocate_call allocate (cq_hex q) (fst (cq_begin q)) (snd (cq_begin q)) (cq_commit q)
     (cq_created_at q) (cq_args q)"

definition release_call :: "call_budget \<Rightarrow> controller \<Rightarrow> run_snapshot result \<times> controller" where
  "release_call b = fail_call (bud_run_id b) (bud_call_id b) False"

text \<open>The run exists, the identifier is fresh, the candidates have routes and the clock is finite.\<close>

definition can_reserve :: "call_request \<Rightarrow> controller \<Rightarrow> bool" where
  "can_reserve q ctl \<longleftrightarrow> (\<exists>run. dict_get (gc_runs ctl) (aa_run_id (cq_args q)) = Some run \<and>
     ''call_'' @ cq_hex q \<notin> ru_pending_allocations run \<union> set (reserved_ids run) \<and>
     isfinite ((snd (cq_begin q) - ru_started_monotonic run) * Fin 1000)) \<and>
   (\<forall>c\<in>set (aa_candidates (cq_args q)). mc_routes c \<noteq> [])"

lemma dict_pop_set_new: "c \<notin> fst ` set d \<Longrightarrow> dict_pop c (dict_set c b d) = d"
  by (induction d) auto

interpretation calls: reservations owed "reserve_call allocate" release_call can_reserve
  for allocate
proof
  fix q ctl e ctl'
  assume ready: "can_reserve q ctl" and failed: "reserve_call allocate q ctl = (Inl e, ctl')"
  from ready obtain run where run: "dict_get (gc_runs ctl) (aa_run_id (cq_args q)) = Some run"
    "''call_'' @ cq_hex q \<notin> ru_pending_allocations run"
    "isfinite ((snd (cq_begin q) - ru_started_monotonic run) * Fin 1000)"
    "\<forall>c\<in>set (aa_candidates (cq_args q)). mc_routes c \<noteq> []" by (auto simp: can_reserve_def)
  from allocate_call_failed [OF failed [unfolded reserve_call_def] run(1,2,4,3)] run(1)
  show "owed ctl' = owed ctl" by (auto simp: owed_def fun_eq_iff)
next
  fix q ctl b ctl'
  assume ready: "can_reserve q ctl" and granted: "reserve_call allocate q ctl = (Inr b, ctl')"
  from ready obtain run where run: "dict_get (gc_runs ctl) (aa_run_id (cq_args q)) = Some run"
    "''call_'' @ cq_hex q \<notin> ru_pending_allocations run" "''call_'' @ cq_hex q \<notin> set (reserved_ids run)"
    by (auto simp: can_reserve_def)
  let ?c = "''call_'' @ cq_hex q" and ?rid = "aa_run_id (cq_args q)"
  note g = allocate_call_granted [OF granted [unfolded reserve_call_def] run(1,2)]
  let ?run = "run\<lparr>ru_next_sequence := ru_next_sequence run + 1, ru_reserved := dict_set ?c b (ru_reserved run)\<rparr>"
  have taken: "rbind (active_run ctl' ?rid) (\<lambda>r. take_reservation r ?c) = Inr (b, released ?c ?run)"
    by (simp add: g(1,4) dict_get_set)
  have r: "release_call b ctl' = (Inr (snapshot_of ((released ?c ?run)\<lparr>ru_completed_calls := ru_completed_calls run + 1\<rparr>)),
      put_run ?rid ((released ?c ?run)\<lparr>ru_completed_calls := ru_completed_calls run + 1\<rparr>) ctl')"
    unfolding release_call_def fail_call_def g(2,3) taken by (simp add: Let_def)
  have "dict_pop ?c (dict_set ?c b (ru_reserved run)) = ru_reserved run"
    by (rule dict_pop_set_new) (use run(3) in \<open>simp add: reserved_ids_def\<close>)
  then have "(released ?c ?run)\<lparr>ru_next_sequence := 0, ru_completed_calls := 0\<rparr> =
      run\<lparr>ru_next_sequence := 0, ru_completed_calls := 0\<rparr>" by (simp add: released_def)
  then show "is_ok (fst (release_call b ctl')) \<and> owed (snd (release_call b ctl')) = owed ctl"
    using run(1) by (auto simp: r owed_def fun_eq_iff g(4) released_def)
qed

lemma changed_closed:
  assumes "changed rid' ctl ctl'" "dict_get (gc_runs ctl) rid = Some run" "ru_status run \<noteq> ACTIVE"
  shows "\<exists>P\<subseteq>ru_pending_allocations run. dict_get (gc_runs ctl') rid = Some (run\<lparr>ru_pending_allocations := P\<rparr>)"
proof -
  have id: "run\<lparr>ru_pending_allocations := ru_pending_allocations run\<rparr> = run" by simp
  have "\<exists>P\<subseteq>ru_pending_allocations run. r' = run\<lparr>ru_pending_allocations := P\<rparr>" if "run_change run r'" for r'
    using that assms(3) by cases (auto simp: without_pending_def id intro: exI [of _ "ru_pending_allocations run"])
  then show ?thesis using assms(1,2) id unfolding changed_def
    by (cases "rid' = rid") (auto intro: exI [of _ "ru_pending_allocations run"])
qed

section \<open>A sample history\<close>

definition sample_args :: allocation_args where
  "sample_args = \<lparr>aa_run_id = ''run_1'', aa_task = ''fix'', aa_input_tokens = 45, aa_predicted_output_tokens = 100,
     aa_cache = sample_cache, aa_candidates = [small_model], aa_priority = Fin 1, aa_required_capabilities = {}\<rparr>"

definition sample_allocation :: budget_allocation_decision where
  "sample_allocation = \<lparr>dec_cost_usd = Fin 64, dec_latency_ms = 3360, dec_input_cost_fraction = Fin (1 / 2),
     dec_required_context_tokens = 45, dec_importance_overrides = [], dec_reason = ''steady''\<rparr>"

definition ctl_started :: controller where
  "ctl_started = snd (start_run ''1'' 0 (Fin 0) ''s'' sample_policy \<lparr>gc_allocator_model_id = ''gemma'', gc_runs = []\<rparr>)"

definition ctl_begun :: controller where
  "ctl_begun = snd (allocate_begin ''1'' (Fin 1) (Fin 1) sample_args ctl_started)"

definition ctl_granted :: controller where
  "ctl_granted = snd (allocate_commit (Fin 2) 0 ''run_1'' ''call_1'' 1 45 sample_cache sample_allocation ctl_begun)"

definition ctl_settled :: controller where
  "ctl_settled = snd (settle_call (Fin 3) 0 ''run_1'' ''call_1'' (Fin 32) 1000 ctl_granted)"

definition sample_run :: run where
  "sample_run = new_run ''run_1'' 0 (Fin 0) ''s'' sample_policy"

definition sample_grant :: call_budget where
  "sample_grant = budget_of ''gemma'' ''run_1'' ''call_1'' 1 0 sample_allocation"

lemma sample_fields [simp]:
  "ru_policy sample_run = sample_policy" "ru_status sample_run = ACTIVE" "ru_reserved sample_run = []"
  "ru_pending_allocations sample_run = {}" "ru_next_sequence sample_run = 1" "ru_run_id sample_run = ''run_1''"
  "pol_hard_agent_cost_limit_usd sample_policy = None" "pol_hard_agent_latency_limit_ms sample_policy = None"
  "pol_hard_call_latency_limit_ms sample_policy = Some 4000"
  by (simp_all add: sample_run_def new_run_def sample_policy_def)

lemma started: "ctl_started = \<lparr>gc_allocator_model_id = ''gemma'', gc_runs = [(''run_1'', sample_run)]\<rparr>"
  by (simp add: ctl_started_def start_run_def Let_def sample_run_def new_run_def put_run_def strip_def
      lstrip_def rstrip_def is_space_def)

lemma begin_guard: "rbind (check_arguments sample_args) (\<lambda>_.
    rbind (active_run ctl_started (aa_run_id sample_args)) (\<lambda>run.
    rbind (remaining_latency run now) (\<lambda>time.
    rbind (exhausted (remaining_cost run (fst (reserved_totals run))) time) (\<lambda>_. Inr (run, time))))) =
  Inr (sample_run, None)"
proof -
  have c: "check_arguments sample_args = Inr ()" by code_simp
  show ?thesis by (simp add: c started del: rbind_Inr_iff)
      (simp add: active_run_def get_run_def sample_args_def sample_run_def new_run_def remaining_latency_def
        remaining_cost_def exhausted_def sample_policy_def)
qed

lemma begun: "ctl_begun = put_run ''run_1'' (sample_run\<lparr>ru_next_sequence := 2,
    ru_pending_allocations := {''call_1''}\<rparr>) ctl_started"
  unfolding ctl_begun_def allocate_begin_def begin_guard
  by (simp add: Let_def sample_args_def)

lemma granted_full:
  "allocate_commit (Fin 2) 0 ''run_1'' ''call_1'' 1 45 sample_cache sample_allocation ctl_begun =
     (Inr sample_grant, put_run ''run_1'' (sample_run\<lparr>ru_next_sequence := 2,
        ru_reserved := [(''call_1'', sample_grant)]\<rparr>) ctl_started)"
proof -
  have "validate_decision sample_policy sample_allocation None None 45 sample_cache = Inr ()" by code_simp
  then show ?thesis
    by (simp add: allocate_commit_def begun get_run_def Let_def remaining_latency_def remaining_cost_def
        started sample_grant_def put_run_def)
qed

lemma granted: "ctl_granted = put_run ''run_1'' (sample_run\<lparr>ru_next_sequence := 2,
    ru_reserved := [(''call_1'', sample_grant)]\<rparr>) ctl_started"
  by (simp add: ctl_granted_def granted_full)

lemma settled_full: "settle_call (Fin 3) 0 ''run_1'' ''call_1'' (Fin 32) 1000 ctl_granted =
    (Inr (snapshot_of (charge (Fin 32) 1000 1 (sample_run\<lparr>ru_next_sequence := 2\<rparr>))),
     put_run ''run_1'' (charge (Fin 32) 1000 1 (sample_run\<lparr>ru_next_sequence := 2\<rparr>)) ctl_started)"
proof -
  have v: "violations (charge (Fin 32) 1000 1 (sample_run\<lparr>ru_next_sequence := 2\<rparr>)) (Fin 32) 1000 (Fin 3) = Inr []"
    by (simp add: violations_def Let_def charge_def sample_run_def new_run_def sample_policy_def
        past_deadline_def above_limit_def later_than_def)
  have "released ''call_1'' (sample_run\<lparr>ru_next_sequence := 2, ru_reserved := [(''call_1'', sample_grant)]\<rparr>) =
      sample_run\<lparr>ru_next_sequence := 2\<rparr>"
    by (simp add: released_def sample_run_def new_run_def)
  then have "rbind (active_run ctl_granted ''run_1'') (\<lambda>run. take_reservation run ''call_1'') =
      Inr (sample_grant, sample_run\<lparr>ru_next_sequence := 2\<rparr>)"
    by (simp add: granted)
  then show ?thesis by (simp add: settle_call_def v Let_def granted del: rbind_Inr_iff)
qed

lemma settled: "ctl_settled = put_run ''run_1'' (charge (Fin 32) 1000 1 (sample_run\<lparr>ru_next_sequence := 2\<rparr>)) ctl_started"
  by (simp add: ctl_settled_def settled_full)

lemma reach_granted: "reachable (ctl_granted, {''call_1''}, [])"
proof -
  have "controller_init ''gemma'' ''gemma'' = Inr \<lparr>gc_allocator_model_id = ''gemma'', gc_runs = []\<rparr>" by code_simp
  then have "reachable (\<lparr>gc_allocator_model_id = ''gemma'', gc_runs = []\<rparr>, {}, [])" by (rule reachable.init)
  then have "reachable (ctl_started, {}, [])" unfolding ctl_started_def
    by (rule reachable.step) (rule s_start, simp)
  then have "reachable (ctl_begun, {''call_1''}, [])" unfolding ctl_begun_def
    by (rule reachable.step) (use s_begin [of "''1''" "{}"] in simp)
  then show ?thesis unfolding ctl_granted_def
    by (rule reachable.step) (rule s_commit, auto simp: begun)
qed

lemma reach_settled: "reachable (ctl_settled, {''call_1''}, [(''run_1'', ''call_1'')])"
proof -
  have "closed_by ''run_1'' ctl_granted ctl_settled = [(''run_1'', ''call_1'')]"
    by (simp add: closed_by_def ids_of_def granted settled reserved_ids_def)
  with reachable.step [OF reach_granted s_settle [OF ctl_settled_def]] show ?thesis by simp
qed

section \<open>Closed calls\<close>

lemma closed_call_refused:
  assumes "reachable (ctl, U, L)" "(rid, c) \<in> set L"
  shows "\<not> is_ok (fst (settle_call now t rid c cost ms ctl)) \<and> snd (settle_call now t rid c cost ms ctl) = ctl \<and>
    \<not> is_ok (fst (fail_call rid c unknown ctl)) \<and> snd (fail_call rid c unknown ctl) = ctl"
proof -
  have closed: "c \<in> set (closed_of rid L)" using assms(2) by (simp add: closed_of_in)
  have "\<not> is_ok (rbind (active_run ctl rid) (\<lambda>run. take_reservation run c))"
  proof
    assume "is_ok (rbind (active_run ctl rid) (\<lambda>run. take_reservation run c))"
    then obtain run b where "dict_get (gc_runs ctl) rid = Some run" "dict_get (ru_reserved run) c = Some b"
      by (auto simp: is_ok_iff)
    with reachable_run_ok [OF assms(1)] reserved_id closed show False unfolding run_ok_def by blast
  qed
  then obtain e where "rbind (active_run ctl rid) (\<lambda>run. take_reservation run c) = Inl e"
    by (cases "rbind (active_run ctl rid) (\<lambda>run. take_reservation run c)") auto
  then show ?thesis by (simp add: settle_call_def fail_call_def)
qed

lemma calls_closed_gone:
  assumes "reachable (ctl, U, L)" "dict_get (gc_runs ctl) rid = Some run" "(rid, c) \<in> set L"
  shows "c \<notin> fst ` set (ru_reserved run) \<union> ru_pending_allocations run"
  using reachable_run_ok [OF assms(1,2)] assms(3) by (auto simp: run_ok_def reserved_ids_def closed_of_in)

lemma closed_run_known:
  assumes "reachable (ctl, U, L)" "(rid, c) \<in> set L"
  obtains run where "dict_get (gc_runs ctl) rid = Some run"
proof (cases "dict_get (gc_runs ctl) rid")
  case None
  with controller_reachable_ok [OF assms(1)] have "closed_of rid L = []" by (simp add: ledger_ok_def)
  moreover have "c \<in> set (closed_of rid L)" using assms(2) by (simp add: closed_of_in)
  ultimately show ?thesis by simp
qed (rule that)

lemma closing_closes:
  assumes "ctl' = snd (settle_call now t rid c cost ms ctl) \<or> ctl' = snd (fail_call rid c unknown ctl)" "ctl' \<noteq> ctl"
  shows "(rid, c) \<in> set (closed_by rid ctl ctl')"
proof -
  obtain budget taken where take: "rbind (active_run ctl rid) (\<lambda>run. take_reservation run c) = Inr (budget, taken)"
    using assms by (cases "rbind (active_run ctl rid) (\<lambda>run. take_reservation run c)")
      (auto simp: settle_call_def fail_call_def split: if_splits)
  then obtain run where run: "dict_get (gc_runs ctl) rid = Some run" "dict_get (ru_reserved run) c = Some budget"
    "taken = released c run" by auto
  have gone: "c \<notin> fst ` set (ru_reserved taken)"
    by (simp add: run(3) released_def map_of_eq_None_iff [symmetric] dict_get_pop)
  have "\<exists>r'. ctl' = put_run rid r' ctl \<and> ru_reserved r' = ru_reserved taken"
    using assms take by (auto simp: settle_call_def fail_call_def Let_def charge_def close_run_def
      split: if_splits sum.splits list.splits simp del: rbind_Inr_iff)
  then obtain r' where "ctl' = put_run rid r' ctl" "ru_reserved r' = ru_reserved taken" by blast
  moreover have "c \<in> fst ` set (ru_reserved run)" using map_of_SomeD [OF run(2)] by force
  ultimately show ?thesis using run gone by (simp add: closed_by_put newly_closed_def reserved_ids_def)
qed

lemma ctl_step_log: "ctl_step s s' \<Longrightarrow> set (snd (snd s)) \<subseteq> set (snd (snd s'))"
  by (induction rule: ctl_step.induct) auto

lemma ctl_steps_log: "ctl_step\<^sup>*\<^sup>* s s' \<Longrightarrow> set (snd (snd s)) \<subseteq> set (snd (snd s'))"
  by (induction rule: rtranclp_induct) (auto dest!: ctl_step_log)

lemma reachable_steps: "ctl_step\<^sup>*\<^sup>* s s' \<Longrightarrow> reachable s \<Longrightarrow> reachable s'"
  by (induction rule: rtranclp_induct) (auto intro: step)

section \<open>Properties\<close>

text \<open>
  Property C1. Every call is accounted once. In any state the controller reaches, the calls a
  run counts as completed are exactly the reservations it closed, each identifier closed at
  most once; a reserved, a pending and a closed call are never the same call, and together they
  stay below the next sequence number; a run has an end time exactly when it is not active, and
  a completed run holds no reservation and no pending allocation.
\<close>

theorem calls_accounted_once:
  assumes "reachable (ctl, U, L)" "dict_get (gc_runs ctl) rid = Some run"
  shows "ru_completed_calls run = int (length (closed_of rid L)) \<and> distinct (closed_of rid L) \<and>
    distinct (map fst (ru_reserved run)) \<and>
    ru_pending_allocations run \<inter> fst ` set (ru_reserved run) = {} \<and>
    (ru_pending_allocations run \<union> fst ` set (ru_reserved run)) \<inter> set (closed_of rid L) = {} \<and>
    ru_completed_calls run + int (length (ru_reserved run)) + int (card (ru_pending_allocations run))
      < ru_next_sequence run \<and>
    (ru_status run = ACTIVE \<longleftrightarrow> ru_finished_at run = None) \<and>
    (ru_status run = COMPLETED \<longrightarrow> ru_reserved run = [] \<and> ru_pending_allocations run = {})"
  using reachable_run_ok [OF assms] by (simp add: run_ok_def reserved_ids_def dict_ok_def)

theorem calls_accounted_once_witness:
  "\<exists>run. dict_get (gc_runs ctl_settled) ''run_1'' = Some run \<and> ru_completed_calls run = 1 \<and>
     ru_pending_allocations run \<inter> fst ` set (ru_reserved run) = {}"
proof -
  obtain run where r: "dict_get (gc_runs ctl_settled) ''run_1'' = Some run" by (simp add: settled)
  from calls_accounted_once [OF reach_settled r] r show ?thesis by (simp add: closed_of_def)
qed

text \<open>
  Property C2. No double settlement: once a call of a reachable controller has been settled or
  failed, that is, once either operation changed anything at all, then after any further steps
  of any thread the call is neither reserved nor pending, and settling or failing it again
  raises and changes nothing.
\<close>

theorem no_double_settlement:
  assumes "reachable (ctl, U, L)" "settled \<noteq> ctl"
    and "settled = snd (settle_call now t rid c cost ms ctl) \<or> settled = snd (fail_call rid c unknown ctl)"
    and "ctl_step\<^sup>*\<^sup>* (settled, U, L @ closed_by rid ctl settled) (ctl', U', L')"
  shows "(\<exists>run. dict_get (gc_runs ctl') rid = Some run \<and> c \<notin> fst ` set (ru_reserved run) \<union> ru_pending_allocations run) \<and>
    \<not> is_ok (fst (settle_call now' t' rid c cost' ms' ctl')) \<and> snd (settle_call now' t' rid c cost' ms' ctl') = ctl' \<and>
    \<not> is_ok (fst (fail_call rid c unknown' ctl')) \<and> snd (fail_call rid c unknown' ctl') = ctl'"
proof -
  have "(rid, c) \<in> set (closed_by rid ctl settled)" by (rule closing_closes [OF assms(3,2)])
  with ctl_steps_log [OF assms(4)] have closed: "(rid, c) \<in> set L'" by auto
  have "ctl_step (ctl, U, L) (settled, U, L @ closed_by rid ctl settled)" using assms(3)
    by (rule disjE) (erule s_settle, erule s_fail)
  from reachable_steps [OF assms(4) reachable.step [OF assms(1) this]] have reach: "reachable (ctl', U', L')" .
  obtain run where run: "dict_get (gc_runs ctl') rid = Some run" by (rule closed_run_known [OF reach closed])
  with calls_closed_gone [OF reach run closed] closed_call_refused [OF reach closed] show ?thesis by blast
qed

theorem no_double_settlement_witness:
  "\<not> is_ok (fst (settle_call (Fin 4) 0 ''run_1'' ''call_1'' (Fin 32) 1000 (snd (observe_tool (Fin 4) 0 ''run_1'' ctl_settled))))"
proof -
  have "ids_of ''run_1'' ctl_settled \<noteq> ids_of ''run_1'' ctl_granted"
    by (simp add: settled granted ids_of_def reserved_ids_def charge_def sample_run_def new_run_def)
  then have "ctl_settled \<noteq> ctl_granted" by metis
  moreover have "ctl_step\<^sup>*\<^sup>* (ctl_settled, {''call_1''}, [] @ closed_by ''run_1'' ctl_granted ctl_settled)
      (snd (observe_tool (Fin 4) 0 ''run_1'' ctl_settled), {''call_1''}, [] @ closed_by ''run_1'' ctl_granted ctl_settled)"
    by (rule r_into_rtranclp) (rule s_tool)
  ultimately show ?thesis using no_double_settlement [OF reach_granted _ disjI1 [OF ctl_settled_def]] by blast
qed

text \<open>
  Property C32. A closed run is final: once its status is no longer active, no operation of the
  controller changes anything of it except to drop pending allocations. In particular the
  reservations other calls still hold in a run that failed are never charged.
\<close>

theorem closed_run_final:
  assumes "ctl_step (ctl, U, L) (ctl', U', L')" "dict_get (gc_runs ctl) rid = Some run" "ru_status run \<noteq> ACTIVE"
  shows "\<exists>P\<subseteq>ru_pending_allocations run. dict_get (gc_runs ctl') rid = Some (run\<lparr>ru_pending_allocations := P\<rparr>)"
proof -
  have same: "\<exists>P\<subseteq>ru_pending_allocations run. Some run = Some (run\<lparr>ru_pending_allocations := P\<rparr>)"
    by (rule exI [of _ "ru_pending_allocations run"]) simp
  note closed = changed_closed [OF _ assms(2,3)]
  from assms(1) show ?thesis
  proof cases
    case (s_start hex t m sid pol)
    then have "dict_get (gc_runs ctl') rid = Some run" using assms(2)
      by (auto simp: start_run_def Let_def new_run_def)
    with same show ?thesis by simp
  next
    case (s_begin hex now now' args)
    have "dict_get (gc_runs ctl') rid = Some run" unfolding s_begin(1)
      using assms(2,3) by (cases rule: begin_cases [of hex now now' args ctl]) auto
    with same show ?thesis by simp
  next
    case (s_commit rid' run' c now t n tokens cache decision)
    show ?thesis unfolding s_commit(1) by (rule closed) (rule changed_commit [OF s_commit(4,5)])
  next
    case (s_discard rid' c)
    show ?thesis unfolding s_discard(1) by (rule closed) (rule changed_discard)
  next
    case (s_settle now t rid' c cost ms)
    show ?thesis unfolding s_settle(3) by (rule closed) (rule changed_settle)
  next
    case (s_fail rid' c unknown)
    show ?thesis unfolding s_fail(3) by (rule closed) (rule changed_fail)
  next
    case (s_tool now t rid')
    show ?thesis unfolding s_tool(1) by (rule closed) (rule changed_tool)
  next
    case (s_finish now t rid' status)
    show ?thesis unfolding s_finish(3) by (rule closed) (rule changed_finish)
  qed
qed

theorem closed_run_final_witness:
  "\<exists>P. dict_get (gc_runs (snd (observe_tool (Fin 5) 0 ''run_1'' (put_run ''run_1'' (close_run FAILED 0 sample_run) ctl_started)))) ''run_1'' =
     Some ((close_run FAILED 0 sample_run)\<lparr>ru_pending_allocations := P\<rparr>)"
  using closed_run_final [OF s_tool [of "put_run ''run_1'' (close_run FAILED 0 sample_run) ctl_started" "{}" "[]" "Fin 5" 0 "''run_1''"],
      of "''run_1''" "close_run FAILED 0 sample_run"] by auto

text \<open>
  Property C3. An allocation that is granted stays inside every hard limit in force when it is
  committed, whatever the allocator answered and whatever other calls did meanwhile: the run is
  active, the per-call limits hold, the cost fits what the agent limit leaves after spending and
  reservations (up to the tolerance), the latency fits the time left, the required context fits
  the input, only known and mutable blocks are overridden, and exactly this reservation is added.
\<close>

theorem granted_within_limits:
  assumes "allocate_commit now t rid c n tokens cache decision ctl = (Inr b, ctl')"
  shows "\<exists>run time. dict_get (gc_runs ctl) rid = Some run \<and> ru_status run = ACTIVE \<and>
    \<not> above_limit (bud_cost_usd b) (pol_hard_call_cost_limit_usd (ru_policy run)) \<and>
    \<not> later_than (bud_latency_ms b) (pol_hard_call_latency_limit_ms (ru_policy run)) \<and>
    (\<forall>limit. pol_hard_agent_cost_limit_usd (ru_policy run) = Some limit \<longrightarrow>
       \<not> limit - ru_spent_cost_usd run - fst (reserved_totals run) + epsilon < bud_cost_usd b) \<and>
    remaining_latency run now = Inr time \<and> \<not> later_than (bud_latency_ms b) time \<and>
    bud_required_context_tokens b \<le> tokens \<and>
    (\<forall>v\<in>set (bud_importance_overrides b). \<exists>blk\<in>set (ca_context_blocks cache). cb_block_id blk = io_block_id v) \<and>
    (\<forall>v\<in>set (bud_importance_overrides b). \<forall>blk\<in>set (ca_context_blocks cache).
       cb_block_id blk = io_block_id v \<longrightarrow> \<not> cb_structurally_immutable blk) \<and>
    bud_call_id b = c \<and> bud_run_id b = rid \<and>
    dict_get (gc_runs ctl') = (dict_get (gc_runs ctl))(rid \<mapsto>
      run\<lparr>ru_pending_allocations := ru_pending_allocations run - {c}, ru_reserved := dict_set c b (ru_reserved run)\<rparr>)"
proof -
  obtain run where run: "dict_get (gc_runs ctl) rid = Some run"
    using assms by (cases "get_run ctl rid") (auto simp: allocate_commit_def)
  let ?run = "run\<lparr>ru_pending_allocations := ru_pending_allocations run - {c}\<rparr>"
  have frame: "reserved_totals ?run = reserved_totals run" "remaining_latency ?run now = remaining_latency run now"
    "remaining_cost ?run x = remaining_cost run x" for x
    by (simp_all add: reserved_totals_def remaining_latency_def remaining_cost_def elapsed_ms_def split: option.split)
  have act: "ru_status run = ACTIVE"
    using assms by (auto simp: allocate_commit_def get_run_def run Let_def split: if_splits)
  obtain time where time: "remaining_latency run now = Inr time"
    and v: "validate_decision (ru_policy run) decision (remaining_cost run (fst (reserved_totals run)))
      time tokens cache = Inr ()"
    using assms by (auto simp: allocate_commit_def get_run_def run Let_def act frame split: sum.splits)
  have b: "b = budget_of (gc_allocator_model_id ctl) rid c n t decision"
    "ctl' = put_run rid (?run\<lparr>ru_reserved := dict_set c b (ru_reserved run)\<rparr>) (put_run rid ?run ctl)"
    using assms by (auto simp: allocate_commit_def get_run_def run Let_def act frame time v)
  have fields: "bud_cost_usd b = dec_cost_usd decision" "bud_latency_ms b = dec_latency_ms decision"
    "bud_required_context_tokens b = dec_required_context_tokens decision"
    "bud_importance_overrides b = dec_importance_overrides decision" "bud_call_id b = c" "bud_run_id b = rid"
    by (simp_all add: b(1) budget_of_def Let_def)

  have limits: "\<not> above_limit (bud_cost_usd b) (pol_hard_call_cost_limit_usd (ru_policy run))"
    "\<not> later_than (bud_latency_ms b) (pol_hard_call_latency_limit_ms (ru_policy run))"
    "\<forall>limit. pol_hard_agent_cost_limit_usd (ru_policy run) = Some limit \<longrightarrow>
       \<not> limit - ru_spent_cost_usd run - fst (reserved_totals run) + epsilon < bud_cost_usd b"
    "\<not> later_than (bud_latency_ms b) time" "bud_required_context_tokens b \<le> tokens"
    using v by (simp_all add: validate_decision_def Let_def fields remaining_cost_def above_limit_def split: if_splits option.splits)
  have known: "\<forall>v\<in>set (bud_importance_overrides b). io_block_id v \<in> cb_block_id ` set (ca_context_blocks cache)"
    "\<forall>v\<in>set (bud_importance_overrides b). io_block_id v \<notin> cb_block_id `
       {blk\<in>set (ca_context_blocks cache). cb_structurally_immutable blk}"
    using v by (simp_all add: validate_decision_def Let_def fields filter_empty_conv list_ex_iff split: if_splits)
  have k: "\<forall>v\<in>set (bud_importance_overrides b). \<exists>blk\<in>set (ca_context_blocks cache). cb_block_id blk = io_block_id v"
    "\<forall>v\<in>set (bud_importance_overrides b). \<forall>blk\<in>set (ca_context_blocks cache).
       cb_block_id blk = io_block_id v \<longrightarrow> \<not> cb_structurally_immutable blk"
    using known(1) apply (metis image_iff)
    using known(2) by (metis (mono_tags, lifting) image_eqI mem_Collect_eq)
  show ?thesis
    by (intro exI [of _ run] exI [of _ time] conjI limits run act time fields(5,6) k) (simp add: b(2))
qed

theorem granted_within_limits_witness:
  "\<not> later_than 3360 (Some 4000) \<and> bud_cost_usd sample_grant = Fin 64"
proof -
  obtain run where "dict_get (gc_runs ctl_begun) ''run_1'' = Some run"
    "\<not> later_than (bud_latency_ms sample_grant) (pol_hard_call_latency_limit_ms (ru_policy run))"
    using granted_within_limits [OF granted_full] by blast
  then show ?thesis by (auto simp: begun sample_grant_def budget_of_def Let_def sample_allocation_def)
qed

text \<open>
  Property C4. A failed allocation leaves no trace but a used sequence number: if an allocation
  for candidates with routes raises, whether in its arguments, in the hard limits, in the
  allocator or in the check of its answer, no run changes but its own, which keeps its status,
  spending, reservations and pending calls.
\<close>

theorem failed_allocation_releases:
  assumes "allocate_call allocate hex now now' now'' t args ctl = (Inl e, ctl')"
    and "dict_get (gc_runs ctl) (aa_run_id args) = Some run" "''call_'' @ hex \<notin> ru_pending_allocations run"
    and "\<forall>c\<in>set (aa_candidates args). mc_routes c \<noteq> []"
    and "isfinite ((now' - ru_started_monotonic run) * Fin 1000)"
  shows "\<exists>n. ru_next_sequence run \<le> n \<and>
    dict_get (gc_runs ctl') = (dict_get (gc_runs ctl))(aa_run_id args \<mapsto> run\<lparr>ru_next_sequence := n\<rparr>)"
  by (rule allocate_call_failed [OF assms])

theorem failed_allocation_releases_witness:
  "\<exists>n\<ge>1. dict_get (gc_runs (snd (allocate_call (\<lambda>_. Inl (BudgetError ''down'')) ''1'' (Fin 1) (Fin 1) (Fin 1) 0
     sample_args ctl_started))) ''run_1'' = Some (sample_run\<lparr>ru_next_sequence := n\<rparr>)"
proof -
  let ?call = "allocate_call (\<lambda>_. Inl (BudgetError ''down'')) ''1'' (Fin 1) (Fin 1) (Fin 1) 0 sample_args ctl_started"
  have rid: "aa_run_id sample_args = ''run_1''" by (simp add: sample_args_def)
  have routes: "\<forall>c\<in>set (aa_candidates sample_args). mc_routes c \<noteq> []" by code_simp
  have time: "isfinite ((Fin 1 - ru_started_monotonic sample_run) * Fin 1000)" by code_simp
  have run: "dict_get (gc_runs ctl_started) (aa_run_id sample_args) = Some sample_run" by (simp add: rid started)
  have "\<not> is_ok (fst ?call)" by (auto simp: allocate_call_def split: prod.splits sum.splits)
  then obtain e ctl' where call: "?call = (Inl e, ctl')" by (cases ?call; cases "fst ?call") auto
  from failed_allocation_releases [OF call run _ routes time] call show ?thesis by (auto simp: rid)
qed

text \<open>
  Property C30. Settlement is exact: for an active run that holds the reservation, the usage of
  the provider is added once whatever happens next; the reservation is gone, other reservations
  and pending calls stay, and the call raises exactly when one of the hard limits is violated,
  in which case the run is closed as failed.
\<close>

theorem settlement_exact:
  assumes "dict_get (gc_runs ctl) rid = Some run" "ru_status run = ACTIVE" "dict_get (ru_reserved run) c = Some b"
    and "isfinite cost" "\<not> cost < Fin 0" "0 \<le> ms" "past_deadline run now = Inr late"
  shows "let settled = charge cost ms 1 (run\<lparr>ru_reserved := dict_pop c (ru_reserved run)\<rparr>);
             violated = (above_limit cost (pol_hard_call_cost_limit_usd (ru_policy run)) \<or>
               later_than ms (pol_hard_call_latency_limit_ms (ru_policy run)) \<or>
               above_limit (ru_spent_cost_usd run + cost) (pol_hard_agent_cost_limit_usd (ru_policy run)) \<or> late)
         in (is_ok (fst (settle_call now t rid c cost ms ctl)) \<longleftrightarrow> \<not> violated) \<and>
            dict_get (gc_runs (snd (settle_call now t rid c cost ms ctl))) = (dict_get (gc_runs ctl))(rid \<mapsto>
              if violated then settled\<lparr>ru_status := FAILED, ru_finished_at := Some t\<rparr> else settled)"
proof -
  let ?settled = "charge cost ms 1 (released c run)"
  have pol: "ru_policy ?settled = ru_policy run" "ru_spent_cost_usd ?settled = ru_spent_cost_usd run + cost"
    by (simp_all add: charge_def released_def)
  have "elapsed_ms ?settled now = elapsed_ms run now" by (simp add: elapsed_ms_def charge_def released_def)
  then have dl: "past_deadline ?settled now = Inr late"
    using assms(7) by (cases "pol_hard_agent_latency_limit_ms (ru_policy run)") (simp_all add: past_deadline_def pol)
  obtain vs where vs: "violations ?settled cost ms now = Inr vs"
    "vs = [] \<longleftrightarrow> \<not> (above_limit cost (pol_hard_call_cost_limit_usd (ru_policy run)) \<or>
      later_than ms (pol_hard_call_latency_limit_ms (ru_policy run)) \<or>
      above_limit (ru_spent_cost_usd run + cost) (pol_hard_agent_cost_limit_usd (ru_policy run)) \<or> late)"
    by (simp add: violations_def Let_def pol dl)
  have taken: "rbind (active_run ctl rid) (\<lambda>run. take_reservation run c) = Inr (b, released c run)"
    using assms(1-3) by simp
  have "settle_call now t rid c cost ms ctl = (case vs of
      [] \<Rightarrow> (Inr (snapshot_of ?settled), put_run rid ?settled ctl)
    | _ \<Rightarrow> (Inl (BudgetError (join ''; '' vs)), put_run rid (close_run FAILED t ?settled) ctl))"
    using assms(4-6) by (simp add: settle_call_def taken Let_def vs(1) del: rbind_Inr_iff split: list.split)
  then show ?thesis using vs(2) unfolding Let_def
    by (cases vs) (simp_all add: close_run_def released_def)
qed

theorem settlement_exact_witness:
  "is_ok (fst (settle_call (Fin 3) 0 ''run_1'' ''call_1'' (Fin 32) 1000 ctl_granted))"
  using settlement_exact [of ctl_granted "''run_1''" "sample_run\<lparr>ru_next_sequence := 2,
      ru_reserved := [(''call_1'', sample_grant)]\<rparr>" "''call_1''" sample_grant "Fin 32" 1000 "Fin 3" False]
  by (simp add: granted settled_full [unfolded granted])

text \<open>
  Property C31. Finishing a run settles everything: a run that was active can be finished only
  without pending allocations, every reservation it still held is charged in full and counted,
  and nothing stays reserved; a run finished as completed was within its deadline.
\<close>

theorem finish_settles_all:
  assumes "finish_run now t rid status ctl = (Inr snap, ctl')"
    and "dict_get (gc_runs ctl) rid = Some run" "ru_status run = ACTIVE"
  shows "ru_pending_allocations run = {} \<and> (status = COMPLETED \<longrightarrow> past_deadline (charge_unresolved run) now = Inr False) \<and>
    rs_reserved_cost_usd snap = Fin 0 \<and> rs_reserved_latency_ms snap = 0 \<and> rs_status snap = status \<and>
    rs_completed_calls snap = ru_completed_calls run + int (length (ru_reserved run)) \<and>
    rs_spent_model_latency_ms snap = ru_spent_model_latency_ms run + snd (reserved_totals run) \<and>
    (ru_reserved run \<noteq> [] \<longrightarrow> rs_spent_cost_usd snap = ru_spent_cost_usd run + fst (reserved_totals run)) \<and>
    (ru_reserved run = [] \<longrightarrow> rs_spent_cost_usd snap = ru_spent_cost_usd run) \<and>
    (\<exists>run'. dict_get (gc_runs ctl') rid = Some run' \<and> snapshot_of run' = snap)"
proof -
  have act: "status \<noteq> ACTIVE" "ru_pending_allocations run = {}"
    using assms by (auto simp: finish_run_def get_run_def split: if_splits)
  obtain late where late: "(if status = COMPLETED then past_deadline (charge_unresolved run) now else Inr False) = Inr late"
    and nl: "\<not> late"
    using assms act by (auto simp: finish_run_def get_run_def Let_def split: sum.splits bool.splits)
  have r: "snap = snapshot_of (close_run status t (charge_unresolved run))"
    "ctl' = put_run rid (close_run status t (charge_unresolved run)) ctl"
    using assms act late nl by (simp_all add: finish_run_def get_run_def Let_def)
  show ?thesis using act late nl
    by (simp add: r snapshot_of_def reserved_totals_def fsum_def split: if_splits)
      (auto simp: charge_unresolved_def charge_def close_run_def reserved_totals_def fsum_def)
qed

theorem finish_settles_all_witness:
  "rs_completed_calls (snapshot_of (close_run COMPLETED 0 (charge_unresolved (sample_run\<lparr>ru_next_sequence := 2,
     ru_reserved := [(''call_1'', sample_grant)]\<rparr>)))) = 1"
proof -
  let ?r = "sample_run\<lparr>ru_next_sequence := 2, ru_reserved := [(''call_1'', sample_grant)]\<rparr>"
  let ?closed = "close_run COMPLETED 0 (charge_unresolved ?r)"
  have pol: "ru_policy (charge_unresolved ?r) = sample_policy" by (simp add: charge_unresolved_def charge_def)
  have "finish_run (Fin 3) 0 ''run_1'' COMPLETED ctl_granted = (Inr (snapshot_of ?closed), put_run ''run_1'' ?closed ctl_granted)"
    by (simp add: finish_run_def granted get_run_def past_deadline_def pol Let_def)
  from finish_settles_all [OF this, of ?r] show ?thesis by (simp add: granted) (simp add: sample_run_def new_run_def)
qed

text \<open>
  The evidence given to the allocator is sound: it has one entry per candidate in
  order, each entry's cost is the cost of one of the candidate's routes and no route is cheaper,
  its latency bound is the fastest route's plus the policy's reserves, and its input fraction
  lies strictly inside the unit interval, so that building the request never raises.
\<close>

lemma evidence_sound:
  assumes "\<forall>c\<in>set candidates. mc_routes c \<noteq> []" "i < length candidates"
    and "\<forall>r\<in>set (mc_routes (candidates ! i)). fst (option_route_cost cache
       (dict_get (ca_values cache) (mc_model_id (candidates ! i))) n r) \<noteq> NaN"
  shows "\<exists>os. candidate_options policy candidates cache n required = Inr os \<and> length os = length candidates \<and>
    bo_model_id (os ! i) = mc_model_id (candidates ! i) \<and>
    (\<exists>r\<in>set (mc_routes (candidates ! i)). bo_cheapest_predicted_cost_usd (os ! i) =
       fst (option_route_cost cache (dict_get (ca_values cache) (mc_model_id (candidates ! i))) n r)) \<and>
    (\<forall>r\<in>set (mc_routes (candidates ! i)).
       \<not> fst (option_route_cost cache (dict_get (ca_values cache) (mc_model_id (candidates ! i))) n r)
         < bo_cheapest_predicted_cost_usd (os ! i)) \<and>
    Fin 0 < bo_cheapest_input_cost_fraction (os ! i) \<and> bo_cheapest_input_cost_fraction (os ! i) < Fin 1"
proof -
  let ?c = "candidates ! i"
  let ?f = "option_route_cost cache (dict_get (ca_values cache) (mc_model_id ?c)) n"
  obtain os where os: "candidate_options policy candidates cache n required = Inr os"
    using candidate_options_ok [OF assms(1)] by blast
  have all: "list_all2 (\<lambda>c bo. candidate_option policy cache n required c = Inr bo) candidates os"
    using os by (simp add: candidate_options_def rmap_Inr)
  have ne: "mc_routes ?c \<noteq> []" using assms(1,2) by simp
  obtain bo r where bo: "candidate_option policy cache n required ?c = Inr bo" "r \<in> set (mc_routes ?c)"
    "min_by (<) fst (map ?f (mc_routes ?c)) = Inr (?f r)" "bo_cheapest_predicted_cost_usd bo = fst (?f r)"
    "micro \<le> bo_cheapest_input_cost_fraction bo" "bo_cheapest_input_cost_fraction bo < Fin 1"
    "bo_model_id bo = mc_model_id ?c"
    by (rule candidate_option_ok [OF ne, of policy cache n required])
  have i: "os ! i = bo" using list_all2_nthD [OF all assms(2)] bo(1) by simp
  have least: "\<not> fst (?f r') < fst (?f r)" if "r' \<in> set (mc_routes ?c)" for r'
    using key_order.min_by_least [OF key_order_pyfloat bo(3), of "?f r'"] assms(3) that by auto
  obtain m where m: "micro = Fin m" using micro_bounds by (cases micro) auto
  have "Fin 0 < Fin m" using micro_bounds m by metis
  then have "Fin 0 < bo_cheapest_input_cost_fraction bo"
    using bo(5) unfolding m by (cases "bo_cheapest_input_cost_fraction bo") auto
  then show ?thesis using os list_all2_lengthD [OF all] bo least by (auto simp: i)
qed

end
