(* ===== verification/Gateway_Props.thy ===== *)
theory Gateway_Props
  imports Gateway Controller_Props Compaction_Props
begin

text \<open>
  What the gateway guarantees of a call from end to end: a preparation that fails leaves no
  reservation behind, a prepared call fits the model it was routed to, usage is settled only
  when it comes from the authorised model and provider, failover stays inside the precomputed
  decisions, and a rewritten prefix is never recorded as cached by a read of the old one.
\<close>

section \<open>Preparation as reserve, work, release\<close>

lemma minimum_reachable_ok:
  assumes "analyze sha256 now co sid messages tools candidates out task ctx = Inr (cache, co')"
  shows "\<exists>n. minimum_reachable_tokens kept cache = Inr n"
proof -
  obtain mts tts h active pr vs raw where m: "rmap estimate_tokens messages = Inr mts"
    and a: "cache = assemble_analysis (co_minimum_compactable_tokens co) messages mts tts h
       (session_of co sid) active pr vs raw"
    using assms by (rule analyze_Inr)
  have "length (ca_message_tokens cache) = length messages" using rmap_length [OF m] by (simp add: a assembled)
  moreover have "set (ca_compactable_message_indices cache) \<subseteq> {..<length messages}"
    by (auto simp: a assembled compactable_indices_def)
  ultimately have "\<forall>i\<in>set (unprotected cache). i < length (ca_message_tokens cache)"
    by (auto simp: unprotected_def)
  then have "rmap (\<lambda>i. rbind (token_at cache i) (\<lambda>t. Inr (max 0 (t - kept)))) (unprotected cache) =
      Inr (map (\<lambda>i. max 0 (ca_message_tokens cache ! i - kept)) (unprotected cache))"
    by (intro rmap_ok) (simp add: token_at_def)
  then show ?thesis by (simp add: minimum_reachable_tokens_def reducible_def)
qed

lemma raise_floor_Inr:
  assumes "raise_floor sv cache b = Inr budget"
  shows "bud_call_id budget = bud_call_id b" "bud_run_id budget = bud_run_id b"
    "\<exists>n. minimum_reachable_tokens (sv_planner_kept_tokens sv) cache = Inr n \<and>
       bud_required_context_tokens budget = max (bud_required_context_tokens b) n"
    "bud_cost_usd budget = bud_cost_usd b" "bud_latency_ms budget = bud_latency_ms b"
proof -
  obtain n where n: "minimum_reachable_tokens (sv_planner_kept_tokens sv) cache = Inr n"
    using assms by (cases "minimum_reachable_tokens (sv_planner_kept_tokens sv) cache") (simp_all add: raise_floor_def)
  define why where "why = bud_allocator_reason b @ '' Physical context floor raised to '' @
      show_int n @ '' tokens to preserve structurally protected messages.''"
  have "budget = (if bud_required_context_tokens b < n
      then b\<lparr>bud_required_context_tokens := n, bud_allocator_reason := why\<rparr> else b)"
    using assms unfolding raise_floor_def n rbind.simps why_def by simp
  then show "bud_call_id budget = bud_call_id b" "bud_run_id budget = bud_run_id b"
    "\<exists>n. minimum_reachable_tokens (sv_planner_kept_tokens sv) cache = Inr n \<and>
       bud_required_context_tokens budget = max (bud_required_context_tokens b) n"
    "bud_cost_usd budget = bud_cost_usd b" "bud_latency_ms budget = bud_latency_ms b"
    using n by simp_all
qed

definition request_of :: "call_clock \<Rightarrow> string \<Rightarrow> call_intent \<Rightarrow> int \<Rightarrow> output_length_prediction \<Rightarrow> cache_analysis \<Rightarrow>
    model_candidate list \<Rightarrow> call_request" where
  "request_of ck run_id resolved tokens prediction cache candidates =
     \<lparr>cq_hex = ck_hex ck, cq_begin = ck_begin ck, cq_commit = ck_commit ck, cq_created_at = ck_created_at ck,
      cq_args = args_of run_id resolved tokens (olp_predicted_tokens prediction) cache candidates\<rparr>"

lemma request_fields [simp]:
  "cq_hex (request_of ck rid i n p c cs) = ck_hex ck" "cq_begin (request_of ck rid i n p c cs) = ck_begin ck"
  "aa_run_id (cq_args (request_of ck rid i n p c cs)) = rid" "aa_candidates (cq_args (request_of ck rid i n p c cs)) = cs"
  "aa_input_tokens (cq_args (request_of ck rid i n p c cs)) = n" "aa_cache (cq_args (request_of ck rid i n p c cs)) = c"
  by (simp_all add: request_of_def args_of_def)

lemma gather_Inr [simp]: "gather f a b = Inr (x, y) \<longleftrightarrow> a = Inr x \<and> b = Inr y"
  by (auto simp: gather_def split: sum.splits)

lemma prepare_analysis_Inr:
  assumes "prepare_analysis sv ck config co intent = Inr (prediction, context_ms, resolved, tokens, cache, co')"
  obtains blocks where "predict_output sv intent = Inr prediction"
    "resolved = intent\<lparr>ci_predicted_output_tokens := Some (olp_predicted_tokens prediction)\<rparr>"
    "raw_input_tokens resolved = Inr tokens"
    "analyze (sv_sha256 sv) (ck_wall ck) co (ci_session_id resolved) (ci_messages resolved)
       (ci_tools resolved) (cfg_candidates config) (olp_predicted_tokens prediction)
       (ci_task resolved) (Some blocks) = Inr (cache, co')"
  using assms by (auto simp: prepare_analysis_def Let_def)

lemma prepare_call_attempt:
  assumes "configuration gw rid = Inr config"
    and "prepare_analysis sv ck config (gw_cache gw) intent = Inr (prediction, context_ms, resolved, tokens, cache, co)"
    and "can_reserve (request_of ck rid resolved tokens prediction cache (cfg_candidates config)) (gw_controller gw)"
    and "span_ceil (ck_allocation ck) = Inr gemma_ms"
  defines "work \<equiv> (\<lambda>b. rbind (raise_floor sv cache b) (\<lambda>budget.
      prepare_reserved sv ck config resolved prediction context_ms cache budget gemma_ms
        (rank_timed sv (ck_ranking ck) intent (cfg_candidates config) (ranking_timeout (cfg_policy config)))))"
  shows "prepare_call sv ck rid intent gw =
    (case calls.attempt (sv_allocate sv) work
        (request_of ck rid resolved tokens prediction cache (cfg_candidates config)) (gw_controller gw) of
       (r, ctl) \<Rightarrow> (r, gw\<lparr>gw_controller := ctl, gw_cache := co\<rparr>))"
proof -
  let ?q = "request_of ck rid resolved tokens prediction cache (cfg_candidates config)"
  let ?alloc = "reserve_call (sv_allocate sv) ?q (gw_controller gw)"
  have alloc: "?alloc = allocate_call (sv_allocate sv) (ck_hex ck) (fst (ck_begin ck)) (snd (ck_begin ck)) (ck_commit ck)
      (ck_created_at ck) (args_of rid resolved tokens (olp_predicted_tokens prediction) cache (cfg_candidates config))
      (gw_controller gw)"
    by (simp add: reserve_call_def request_of_def)
  obtain blocks where an: "analyze (sv_sha256 sv) (ck_wall ck) (gw_cache gw) (ci_session_id resolved)
      (ci_messages resolved) (ci_tools resolved) (cfg_candidates config) (olp_predicted_tokens prediction)
      (ci_task resolved) (Some blocks) = Inr (cache, co)"
    using assms(2) by (rule prepare_analysis_Inr)
  obtain n where n: "minimum_reachable_tokens (sv_planner_kept_tokens sv) cache = Inr n"
    using minimum_reachable_ok [OF an] by blast
  obtain r ctl where rc: "?alloc = (r, ctl)" by (cases ?alloc)
  show ?thesis
  proof (cases r)
    case (Inl e)
    then show ?thesis using rc alloc
      by (simp add: prepare_call_def assms(1,2) calls.attempt_def)
  next
    case (Inr b)
    obtain budget where budget: "raise_floor sv cache b = Inr budget" by (simp add: raise_floor_def n)
    obtain run where run: "dict_get (gc_runs (gw_controller gw)) rid = Some run"
      "''call_'' @ ck_hex ck \<notin> ru_pending_allocations run"
      using assms(3) by (auto simp: can_reserve_def)
    have "bud_run_id b = rid"
      using allocate_call_granted(3) [of _ "ck_hex ck" _ _ _ _ "cq_args ?q" "gw_controller gw" b ctl run]
        rc Inr run by (simp add: reserve_call_def)
    then have "release_call b ctl = fail_call rid (bud_call_id budget) False ctl"
      by (simp add: release_call_def raise_floor_Inr(1) [OF budget])
    then show ?thesis using rc alloc Inr
      by (auto simp: prepare_call_def assms(1,2,4) calls.attempt_def work_def budget Let_def split: sum.split prod.split)
  qed
qed

lemma prepare_call_Inr:
  assumes "prepare_call sv ck rid intent gw = (Inr pc, gw')"
  obtains config prediction context_ms resolved tokens cache co b ctl budget gemma_ms where
    "dict_get (gw_runs gw) rid = Some config"
    "prepare_analysis sv ck config (gw_cache gw) intent = Inr (prediction, context_ms, resolved, tokens, cache, co)"
    "reserve_call (sv_allocate sv) (request_of ck rid resolved tokens prediction cache (cfg_candidates config))
       (gw_controller gw) = (Inr b, ctl)"
    "raise_floor sv cache b = Inr budget" "gw' = gw\<lparr>gw_controller := ctl, gw_cache := co\<rparr>"
    "prepare_reserved sv ck config resolved prediction context_ms cache budget gemma_ms
       (rank_timed sv (ck_ranking ck) intent (cfg_candidates config) (ranking_timeout (cfg_policy config))) = Inr pc"
proof -
  obtain config where c: "configuration gw rid = Inr config"
    using assms by (cases "configuration gw rid") (simp_all add: prepare_call_def)
  then have config: "dict_get (gw_runs gw) rid = Some config" by (auto simp: configuration_def split: option.splits)
  obtain prediction context_ms resolved tokens cache co where an: "prepare_analysis sv ck config (gw_cache gw) intent =
      Inr (prediction, context_ms, resolved, tokens, cache, co)"
    using assms by (cases "prepare_analysis sv ck config (gw_cache gw) intent") (auto simp: prepare_call_def c)
  let ?q = "request_of ck rid resolved tokens prediction cache (cfg_candidates config)"
  have alloc: "reserve_call (sv_allocate sv) ?q (gw_controller gw) = allocate_call (sv_allocate sv) (ck_hex ck)
      (fst (ck_begin ck)) (snd (ck_begin ck)) (ck_commit ck) (ck_created_at ck)
      (args_of rid resolved tokens (olp_predicted_tokens prediction) cache (cfg_candidates config)) (gw_controller gw)"
    by (simp add: reserve_call_def request_of_def)
  note p = assms [unfolded prepare_call_def c an sum.case prod.case alloc [symmetric]]
  obtain b ctl where b: "reserve_call (sv_allocate sv) ?q (gw_controller gw) = (Inr b, ctl)"
    using p by (cases "reserve_call (sv_allocate sv) ?q (gw_controller gw)"; cases "fst (reserve_call (sv_allocate sv) ?q (gw_controller gw))") auto
  note p = p [unfolded b prod.case sum.case Let_def]
  obtain budget where budget: "raise_floor sv cache b = Inr budget"
    using p by (cases "raise_floor sv cache b") simp_all
  obtain gemma_ms where g: "span_ceil (ck_allocation ck) = Inr gemma_ms"
    using p by (cases "span_ceil (ck_allocation ck)") (simp_all add: budget)
  note p = p [unfolded budget g rbind.simps sum.case prod.case]
  show thesis
    by (rule that [OF config an b budget])
      (use p in \<open>auto split: sum.splits prod.splits\<close>)
qed

lemma prepare_reserved_Inr:
  assumes "prepare_reserved sv ck config intent prediction context_ms cache budget gemma_ms ranking = Inr pc"
  obtains scores elapsed ranked plan where
    "select_ranked (sv_ranker sv) intent (cfg_candidates config) cache budget (cfg_policy config) elapsed (Some scores) = Inr ranked"
    "plan_compaction (sv_planner_kept_tokens sv) cache (hd ranked) budget = Inr plan"
    "compact (sv_sha256 sv) (sv_set_order sv) (sv_compactor_kept_tokens sv) (ci_messages intent) cache plan =
       Inr (pc_compaction pc)" "cres_target_met (pc_compaction pc)"
    "plan_provider (hd ranked) cache budget (cfg_policy config) (pc_preparation_latency_ms pc) = Inr (pc_provider pc)"
    "pc_intent pc = intent" "pc_budget pc = budget" "pc_cache pc = cache" "pc_model pc = hd ranked"
    "pc_model_alternatives pc = tl ranked" "pc_predicted_output_tokens pc = olp_predicted_tokens prediction"
  using assms unfolding prepare_reserved_def Let_def
  by (auto simp: compact_timed_def timed_def split: if_splits)

lemma plan_provider_routes:
  assumes "plan_provider d cache budget policy prep = Inr p"
  shows "set (pp_routes p) \<subseteq> set (mc_routes (md_candidate d))"
    "hard_latency policy \<Longrightarrow> 0 < pp_total_timeout_ms p \<and> pp_total_timeout_ms p + prep \<le> bud_latency_ms budget - pol_latency_safety_margin_ms policy"
proof -
  have "set (pp_routes p) \<subseteq> set (mc_routes (md_candidate d)) \<and>
      (\<exists>m. execution_budget budget policy prep m = Inr (pp_total_timeout_ms p))"
    using assms
  proof (cases rule: plan_provider_cases)
    case (sticky route execution)
    then have "route \<in> set (mc_routes (md_candidate d))"
      by (auto simp: sticky_route_def find_Some_iff split: option.splits if_splits)
    with sticky show ?thesis by auto
  next
    case explore
    from explore(2) obtain c g x where x: "cheapest_route (mc_routes (md_candidate d)) d cache budget = Inr c"
      "min_by latency_key_less guaranteed_key (guaranteed_pool (mc_routes (md_candidate d))) = Inr g"
      "execution_budget budget policy prep (rt_p95_total_latency_ms g) = Inr x"
      "window_plan d budget policy c g x = Inr p" by (rule explore_plan_Inr)
    have "c \<in> set (mc_routes (md_candidate d))" "g \<in> set (mc_routes (md_candidate d))"
      using cheapest_route_mem [OF x(1)] guaranteed_mem [OF x(2)] by auto
    moreover have "pp_total_timeout_ms p = x \<and> set (pp_routes p) \<subseteq> set (mc_routes (md_candidate d)) \<union> {c, g}"
      using x(4) by (auto simp: window_plan_def Let_def deadline_order_def split: if_splits)
    ultimately show ?thesis using x(3) by auto
  qed
  then obtain m where "set (pp_routes p) \<subseteq> set (mc_routes (md_candidate d))"
    "execution_budget budget policy prep m = Inr (pp_total_timeout_ms p)" by blast
  then show "set (pp_routes p) \<subseteq> set (mc_routes (md_candidate d))"
    "hard_latency policy \<Longrightarrow> 0 < pp_total_timeout_ms p \<and> pp_total_timeout_ms p + prep \<le> bud_latency_ms budget - pol_latency_safety_margin_ms policy"
    using execution_budget_Inr(1) by fastforce+
qed

section \<open>A sample gateway\<close>

definition sample_services :: services where
  "sample_services = \<lparr>sv_ranker = supplied_rank, sv_predict = (\<lambda>_ _. Inl (RoutingError ''offline'')),
     sv_allocate = (\<lambda>_. Inr (sample_allocation\<lparr>dec_required_context_tokens := 19\<rparr>)), sv_sha256 = (\<lambda>_. ''h''), sv_set_order = id,
     sv_planner_kept_tokens = 32, sv_compactor_kept_tokens = 32\<rparr>"

definition sample_clock :: call_clock where
  "sample_clock = \<lparr>ck_hex = ''1'', ck_wall = 0, ck_created_at = 0, ck_context_first = False,
     ck_compaction_first = False, ck_started = Fin 0, ck_context = (Fin 0, Fin 0), ck_ranking = (Fin 0, Fin 0),
     ck_allocation = (Fin 0, Fin 0), ck_begin = (Fin 0, Fin 0), ck_commit = Fin 0,
     ck_feasibility = (Fin 0, Fin 0), ck_selection = Fin 0, ck_planning = Fin 0, ck_provider = (Fin 0, Fin 0),
     ck_compaction = (Fin 0, Fin 0), ck_prepared = Fin 0, ck_replan = (Fin 0, Fin 0)\<rparr>"

definition scored_model :: model_candidate where
  "scored_model = small_model\<lparr>mc_router_score := Some (Fin (1 / 2))\<rparr>"

definition sample_gateway :: gateway where
  "sample_gateway = \<lparr>gw_controller = ctl_started, gw_cache = \<lparr>co_minimum_compactable_tokens = 128, co_sessions = []\<rparr>,
     gw_runs = [(''run_1'', \<lparr>cfg_policy = sample_policy, cfg_candidates = [scored_model]\<rparr>)]\<rparr>"

definition brief_messages :: "json list" where
  "brief_messages = [system_message, user_message]"

definition brief_intent :: call_intent where
  "brief_intent = sample_intent\<lparr>ci_messages := brief_messages\<rparr>"

definition brief_value :: cache_value where
  "brief_value = sample_value\<lparr>cv_input_cost_usd := Fin 38\<rparr>"

definition brief_cache :: cache_analysis where
  "brief_cache = \<lparr>ca_total_tokens = 19, ca_tool_tokens = 0,
     ca_message_tokens = [10, 9], ca_prefix_hash = Some ''h'', ca_cacheable_message_indices = [],
     ca_protected_message_indices = [0, 1], ca_compactable_message_indices = [], ca_cacheable_tokens = 0,
     ca_protected_dynamic_tokens = 19, ca_compactable_tokens = 0, ca_last_model_id = None, ca_last_provider = None,
     ca_values = [(''small'', brief_value)],
     ca_context_blocks = [\<lparr>cb_block_id = ''ctx_h_0'', cb_message_indices = [0], cb_block_type = Protocol,
        cb_tokens = 10, cb_age = 1, cb_cached = False, cb_task_overlap = Fin 0, cb_redundancy = Fin 0,
        cb_cache_invalidation_cost = Fin 0, cb_importance = Fin 1, cb_structurally_immutable = True\<rparr>,
       \<lparr>cb_block_id = ''ctx_h_1'', cb_message_indices = [1], cb_block_type = UserBlock, cb_tokens = 9,
        cb_age = 0, cb_cached = False, cb_task_overlap = Fin 1, cb_redundancy = Fin (1 / 2),
        cb_cache_invalidation_cost = Fin 0, cb_importance = Fin 1, cb_structurally_immutable = True\<rparr>]\<rparr>"

definition brief_prediction :: output_length_prediction where
  "brief_prediction = \<lparr>olp_predicted_tokens = 100, olp_raw_predicted_tokens = Fin 100, olp_latency_ms = 0,
     olp_model_id = ''precomputed-lerouter-prediction''\<rparr>"

definition brief_config :: run_configuration where
  "brief_config = \<lparr>cfg_policy = sample_policy, cfg_candidates = [scored_model]\<rparr>"

definition brief_allocation :: budget_allocation_decision where
  "brief_allocation = sample_allocation\<lparr>dec_required_context_tokens := 19\<rparr>"

definition brief_budget :: call_budget where
  "brief_budget = budget_of ''gemma'' ''run_1'' ''call_1'' 1 0 brief_allocation"

definition brief_decision :: model_decision where
  "brief_decision = sample_decision\<lparr>md_candidate := scored_model, md_cache_value := brief_value\<rparr>"

definition brief_plan :: compaction_plan where
  "brief_plan = \<lparr>cp_input_budget_usd = Fin 32, cp_estimated_input_cost_usd = Fin 38, cp_target_tokens = 19,
     cp_required_reduction_tokens = 0, cp_compactable_message_indices = [],
     cp_importance_by_message_index = [(0, Fin 1), (1, Fin 1)]\<rparr>"

lemma brief_fields [simp]:
  "ci_messages brief_intent = brief_messages" "ci_task brief_intent = ''fix''" "ci_tools brief_intent = []"
  "ci_session_id brief_intent = ''s''" "ci_predicted_output_tokens brief_intent = Some 100"
  "ci_required_capabilities brief_intent = {}" "ci_priority brief_intent = Fin 1"
  by (simp_all add: brief_intent_def sample_intent_def)

lemma brief_analyze:
  assumes "ctx = None \<or> ctx = Some (ca_context_blocks brief_cache)"
  shows "analyze (\<lambda>_. ''h'') 0 (gw_cache sample_gateway) ''s'' brief_messages [] [scored_model] 100 ''fix'' ctx =
    Inr (brief_cache, gw_cache sample_gateway)"
    and "build_context_blocks (\<lambda>_. ''h'') brief_messages ''fix'' = Inr (ca_context_blocks brief_cache)"
    and "rmap estimate_tokens brief_messages = Inr [10, 9]"
proof -
  show b: "build_context_blocks (\<lambda>_. ''h'') brief_messages ''fix'' = Inr (ca_context_blocks brief_cache)" by code_simp
  show m: "rmap estimate_tokens brief_messages = Inr [10, 9]" by code_simp
  have v: "candidate_values [scored_model] 19 100 None = Inr (ca_values brief_cache)" by code_simp
  have h: "prefix_hash (\<lambda>_. ''h'') brief_messages (proposed_prefix_count brief_messages) [] = Inr (Some ''h'')"
    by code_simp
  have i: "protected_indices brief_messages = Inr [0, 1]" by code_simp
  have a: "assemble_analysis 128 brief_messages [10, 9] [] (Some ''h'') new_session None [0, 1]
      (ca_values brief_cache) (ca_context_blocks brief_cache) = brief_cache" by code_simp
  have ne: "brief_messages \<noteq> []" "ca_context_blocks brief_cache \<noteq> []"
    by (simp_all add: brief_messages_def brief_cache_def)
  have s: "session_of (gw_cache sample_gateway) ''s'' = new_session"
    "expire_session (gw_cache sample_gateway) ''s'' 0 = gw_cache sample_gateway"
    "co_minimum_compactable_tokens (gw_cache sample_gateway) = 128"
    by (simp_all add: sample_gateway_def session_of_def expire_session_def)
  have l: "live_record new_session 0 = None" by (simp add: live_record_def new_session_def)
  show "analyze (\<lambda>_. ''h'') 0 (gw_cache sample_gateway) ''s'' brief_messages [] [scored_model] 100 ''fix'' ctx =
      Inr (brief_cache, gw_cache sample_gateway)"
    using assms by (auto simp: analyze_def m h i ne s l v b a [unfolded One_nat_def] active_record_def)
qed

lemma brief_analysis: "prepare_analysis sample_services sample_clock brief_config (gw_cache sample_gateway) brief_intent =
    Inr (brief_prediction, 0, brief_intent, 19, brief_cache, gw_cache sample_gateway)"
proof -
  have p: "predict_output sample_services brief_intent = Inr brief_prediction" by code_simp
  note an = brief_analyze [OF disjI2 [OF refl]]
  have ctx: "analyze_context sample_services (ck_context sample_clock) brief_intent = Inr (ca_context_blocks brief_cache, 0)"
    by (simp add: analyze_context_def timed_def an(2) sample_services_def sample_clock_def span_ceil_def) code_simp
  have r: "brief_intent\<lparr>ci_predicted_output_tokens := Some 100\<rparr> = brief_intent"
    by (simp add: brief_intent_def sample_intent_def)
  have cfg: "cfg_candidates brief_config = [scored_model]" "olp_predicted_tokens brief_prediction = 100"
    "sv_sha256 sample_services = (\<lambda>_. ''h'')" "ck_wall sample_clock = 0"
    by (simp_all add: brief_config_def brief_prediction_def sample_services_def sample_clock_def)
  show ?thesis
    by (simp add: prepare_analysis_def gather_def p ctx Let_def cfg r raw_input_tokens_def an)
qed

abbreviation brief_request :: call_request where
  "brief_request \<equiv> request_of sample_clock ''run_1'' brief_intent 19 brief_prediction brief_cache [scored_model]"

lemma brief_ready: "can_reserve brief_request ctl_started"
proof -
  have "isfinite ((snd (Fin 0, Fin 0) - ru_started_monotonic sample_run) * Fin 1000)" "mc_routes scored_model \<noteq> []"
    by code_simp+
  then show ?thesis by (simp add: can_reserve_def started sample_clock_def reserved_ids_def)
qed

lemma brief_reserved: obtains ctl where "reserve_call (sv_allocate sample_services) brief_request ctl_started = (Inr brief_budget, ctl)"
proof -
  let ?args = "cq_args brief_request"
  have c: "check_arguments ?args = Inr ()" by code_simp
  have g: "rbind (check_arguments ?args) (\<lambda>_. rbind (active_run ctl_started (aa_run_id ?args)) (\<lambda>run.
      rbind (remaining_latency run (Fin 0)) (\<lambda>time.
      rbind (exhausted (remaining_cost run (fst (reserved_totals run))) time) (\<lambda>_. Inr (run, time))))) =
    Inr (sample_run, None)"
    by (simp add: c started del: rbind_Inr_iff)
      (simp add: active_run_def get_run_def remaining_latency_def remaining_cost_def exhausted_def)
  let ?begun = "sample_run\<lparr>ru_next_sequence := 2, ru_pending_allocations := {''call_1''}\<rparr>"
  have "isfinite ((Fin 0 - ru_started_monotonic sample_run) * Fin 1000)" "mc_routes scored_model \<noteq> []" by code_simp+
  then obtain request where q: "build_request ?args ?begun ''call_1'' 1
      (remaining_cost sample_run (fst (reserved_totals sample_run))) None (Fin 0) = Inr request"
    "req_call_id request = ''call_1''" "req_sequence request = 1"
    using build_request_ok [of ?args "Fin 0" ?begun "''call_1''" 1
      "remaining_cost sample_run (fst (reserved_totals sample_run))" None] by auto
  have bg: "allocate_begin ''1'' (Fin 0) (Fin 0) ?args ctl_started = (Inr request, put_run ''run_1'' ?begun ctl_started)"
    unfolding allocate_begin_def g by (simp add: Let_def q(1) [simplified])
  have v: "validate_decision sample_policy brief_allocation None None 19 brief_cache = Inr ()" by code_simp
  have "\<exists>ctl. allocate_commit (Fin 0) 0 ''run_1'' ''call_1'' 1 19 brief_cache brief_allocation
      (put_run ''run_1'' ?begun ctl_started) = (Inr brief_budget, ctl)"
    by (simp add: allocate_commit_def get_run_def Let_def remaining_latency_def remaining_cost_def v
        started brief_budget_def put_run_def)
  then obtain ctl where "allocate_commit (Fin 0) 0 ''run_1'' ''call_1'' 1 19 brief_cache brief_allocation
      (put_run ''run_1'' ?begun ctl_started) = (Inr brief_budget, ctl)" by blast
  moreover have "sv_allocate sample_services request = Inr brief_allocation"
    "cq_created_at brief_request = 0" "cq_commit brief_request = Fin 0" "ck_hex sample_clock = ''1''"
    "ck_begin sample_clock = (Fin 0, Fin 0)"
    by (simp_all add: sample_services_def brief_allocation_def request_of_def sample_clock_def)
  ultimately have "reserve_call (sv_allocate sample_services) brief_request ctl_started = (Inr brief_budget, ctl)"
    by (simp add: reserve_call_def allocate_call_def bg q(2,3))
  then show thesis by (rule that)
qed

lemma brief_costs:
  "required_input_cost cheap_route 19 brief_cache brief_value = Inr (Fin 38)"
  "required_input_cost firm_route 19 brief_cache brief_value = Inr (Fin 76)"
  "output_price cheap_route 100 = Fin 800" "output_price firm_route 100 = Fin 1600"
  "Fin 38 + Fin 800 = Fin 838" "Fin 76 + Fin 1600 = Fin 1676" by code_simp+

lemma scored_model_fields [simp]:
  "mc_routes scored_model = [cheap_route, firm_route]" "mc_model_id scored_model = ''small''"
  by (simp_all add: scored_model_def small_model_routes)

lemma brief_cheapest:
  "min_by cost_key_less cost_route_key [(Fin 838, cheap_route), (Fin 1676, firm_route)] = Inr (Fin 838, cheap_route)"
  by (simp add: min_by_def cost_route_key_def cost_key_less_def tuple_lt_def feq_def)

lemma brief_selection: obtains d where
  "select_ranked supplied_rank brief_intent [scored_model] brief_cache brief_budget sample_policy 0
     (Some sample_scores) = Inr [d]"
  "md_candidate d = scored_model" "md_route d = cheap_route" "md_predicted_output_tokens d = 100" "md_cache_value d = brief_value"
proof -
  have pol: "hard_cost sample_policy = False" "hard_latency sample_policy = True"
    "predicted_latency cheap_route sample_policy = 1050"
    "minimum_quality ''fix'' sample_policy = Fin 0" by code_simp+
  have t: "routing_timeout_ms [scored_model] brief_budget sample_policy 0 = Inr 2610" by code_simp
  have b: "bud_required_context_tokens brief_budget = 19" "bud_latency_ms brief_budget = 3360" by code_simp+
  have r: "route_costs scored_model 19 100 brief_cache brief_value =
      Inr [(Fin 838, cheap_route), (Fin 1676, firm_route)]"
    by (simp add: route_costs_def brief_costs)
  obtain d where d: "decide 100 brief_cache brief_budget sample_policy sample_scores scored_model brief_value = Inr (Decided d)"
    "md_candidate d = scored_model" "md_route d = cheap_route" "md_predicted_output_tokens d = 100" "md_cache_value d = brief_value"
    by (simp add: decide_def b r brief_cheapest brief_costs pol Let_def)
  have q: "mc_quality scored_model = Fin (1 / 2)" "mc_capabilities scored_model = {}"
    "mc_context_window_tokens scored_model = 100000" "dict_get (ca_values brief_cache) ''small'' = Some brief_value"
    by (simp_all add: scored_model_def small_model_def sample_candidate_def brief_cache_def)
  have "evaluate_candidate (Fin 0) {} 100 brief_cache brief_budget sample_policy sample_scores scored_model = Inr (Decided d)"
    using d(1) by (simp add: evaluate_candidate_def q b)
  then have "select_ranked supplied_rank brief_intent [scored_model] brief_cache brief_budget sample_policy 0
     (Some sample_scores) = Inr [d]"
    by (simp add: select_ranked_def t pol)
  with d(2-) that show thesis by blast
qed

lemma brief_provider: obtains p where
  "\<And>d. md_candidate d = scored_model \<Longrightarrow> md_predicted_output_tokens d = 100 \<Longrightarrow> md_cache_value d = brief_value \<Longrightarrow>
     plan_provider d brief_cache brief_budget sample_policy 0 = Inr p"
proof -
  have fields: "ca_last_provider brief_cache = None" by (simp add: brief_cache_def)
  have c: "route_cost cheap_route brief_decision brief_cache brief_budget = Inr (Fin 838)"
    "route_cost firm_route brief_decision brief_cache brief_budget = Inr (Fin 1676)" by code_simp+
  have ch: "cheapest_route [cheap_route, firm_route] brief_decision brief_cache brief_budget = Inr cheap_route"
    by (simp add: cheapest_route_def c brief_cheapest)
  have g: "guaranteed_pool [cheap_route, firm_route] = [firm_route]"
    by (simp add: guaranteed_pool_def cheap_route_def firm_route_def sample_route_def)
  have e: "execution_budget brief_budget sample_policy 0 (rt_p95_total_latency_ms firm_route) = Inr 3210"
    by code_simp
  have f: "py_floor (fl_of_int 2610 * pol_provider_exploration_fraction sample_policy) = Inr 1305" by code_simp
  have k: "rt_p95_total_latency_ms firm_route = 600" "rt_route_id cheap_route \<noteq> rt_route_id firm_route"
    "pol_maximum_provider_exploration_ms sample_policy = 2000" by code_simp+
  have m: "md_candidate brief_decision = scored_model" "md_predicted_output_tokens brief_decision = 100"
    "md_cache_value brief_decision = brief_value" by (simp_all add: brief_decision_def sample_decision_def)
  have "\<exists>p. plan_provider brief_decision brief_cache brief_budget sample_policy 0 = Inr p"
    by (simp add: plan_provider_def explore_plan_def window_plan_def sticky_route_def fields m ch g e k f min_by_def
        Let_def e [unfolded k])
  then obtain p where p: "plan_provider brief_decision brief_cache brief_budget sample_policy 0 = Inr p" by blast
  have rc: "route_cost r d = route_cost r brief_decision"
    if "md_predicted_output_tokens d = 100" "md_cache_value d = brief_value" for r d
    by (intro ext) (simp add: route_cost_def that m)
  have "plan_provider d brief_cache brief_budget sample_policy 0 = Inr p"
    if "md_candidate d = scored_model" "md_predicted_output_tokens d = 100" "md_cache_value d = brief_value" for d
  proof -
    have "window_plan d = window_plan brief_decision" unfolding window_plan_def [abs_def] that(1) m(1) ..
    moreover have "cheapest_route rs d = cheapest_route rs brief_decision" for rs
      by (intro ext) (simp add: cheapest_route_def rc [OF that(2,3)])
    ultimately have "explore_plan d = explore_plan brief_decision" by (intro ext) (simp add: explore_plan_def that m)
    with p show ?thesis by (simp add: plan_provider_def sticky_route_def that m fields)
  qed
  then show thesis by (rule that)
qed

lemma brief_prepared: obtains pc where
  "prepare_reserved sample_services sample_clock brief_config brief_intent brief_prediction 0 brief_cache brief_budget 0
     (rank_timed sample_services (ck_ranking sample_clock) brief_intent [scored_model] 4000) = Inr pc"
proof -
  obtain d where d: "select_ranked supplied_rank brief_intent [scored_model] brief_cache brief_budget sample_policy 0
     (Some sample_scores) = Inr [d]" "md_candidate d = scored_model" "md_route d = cheap_route"
    "md_predicted_output_tokens d = 100" "md_cache_value d = brief_value" by (rule brief_selection)
  obtain p where p: "plan_provider d brief_cache brief_budget sample_policy 0 = Inr p"
    by (rule brief_provider) (use d in blast)
  have z: "span_floor (Fin 0, Fin 0) = Inr 0" "span_ceil (Fin 0, Fin 0) = Inr 0" by code_simp+
  have rank: "rank_timed sample_services (Fin 0, Fin 0) brief_intent [scored_model] 4000 = Inr (sample_scores, 0)"
    by code_simp
  have "plan_compaction 32 brief_cache d brief_budget = plan_compaction 32 brief_cache brief_decision brief_budget"
    by (simp add: plan_compaction_def d brief_decision_def sample_decision_def)
  also have "\<dots> = Inr brief_plan" by code_simp
  finally have plan: "plan_compaction 32 brief_cache d brief_budget = Inr brief_plan" .
  have "rbind (compact (\<lambda>_. ''h'') id 32 brief_messages brief_cache brief_plan) (\<lambda>r. Inr (cres_target_met r)) = Inr True"
    by code_simp
  then obtain res where res: "compact (\<lambda>_. ''h'') id 32 brief_messages brief_cache brief_plan = Inr res"
    "cres_target_met res" by auto
  have sv: "sv_ranker sample_services = supplied_rank" "sv_sha256 sample_services = (\<lambda>_. ''h'')"
    "sv_set_order sample_services = id" "sv_planner_kept_tokens sample_services = 32"
    "sv_compactor_kept_tokens sample_services = 32" by (simp_all add: sample_services_def)
  have "\<exists>pc. prepare_reserved sample_services sample_clock brief_config brief_intent brief_prediction 0 brief_cache
      brief_budget 0 (rank_timed sample_services (ck_ranking sample_clock) brief_intent [scored_model] 4000) = Inr pc"
    by (simp add: prepare_reserved_def brief_config_def sample_clock_def sv rank z d(1) plan plan_provider_timed_def
        compact_timed_def timed_def p res gather_def Let_def)
  then show thesis using that by blast
qed

lemma brief_call: obtains pc gw' where
  "prepare_call sample_services sample_clock ''run_1'' brief_intent sample_gateway = (Inr pc, gw')"
proof -
  obtain ctl where ctl: "reserve_call (sv_allocate sample_services) brief_request ctl_started = (Inr brief_budget, ctl)"
    by (rule brief_reserved)
  obtain pc where pc: "prepare_reserved sample_services sample_clock brief_config brief_intent brief_prediction 0
      brief_cache brief_budget 0
     (rank_timed sample_services (ck_ranking sample_clock) brief_intent [scored_model] 4000) = Inr pc"
    by (rule brief_prepared)
  have rf: "raise_floor sample_services brief_cache brief_budget = Inr brief_budget" by code_simp
  have c: "configuration sample_gateway ''run_1'' = Inr brief_config" "gw_controller sample_gateway = ctl_started"
    "cfg_candidates brief_config = [scored_model]" "ranking_timeout (cfg_policy brief_config) = 4000"
    by (simp_all add: configuration_def sample_gateway_def brief_config_def ranking_timeout_def)
  have z: "span_ceil (ck_allocation sample_clock) = Inr 0" by code_simp
  have "prepare_call sample_services sample_clock ''run_1'' brief_intent sample_gateway =
      (Inr pc, sample_gateway\<lparr>gw_controller := ctl, gw_cache := gw_cache sample_gateway\<rparr>)"
    using prepare_call_attempt [OF c(1) brief_analysis _ z] brief_ready
    by (simp add: c calls.attempt_def ctl rf pc)
  then show thesis by (rule that)
qed

section \<open>Sums and products of prices\<close>

definition not_negative :: "pyfloat \<Rightarrow> bool" where
  "not_negative x \<longleftrightarrow> (case x of Fin r \<Rightarrow> 0 \<le> r | NInf \<Rightarrow> False | _ \<Rightarrow> True)"

lemma not_negative_fl: "0 \<le> x \<Longrightarrow> not_negative (fl x)"
  using fl_nonneg [of x] fl_cases [of x] by (cases "fl x") (auto simp: not_negative_def)

lemma not_negative_of_int: "0 \<le> n \<Longrightarrow> not_negative (fl_of_int n)"
  by (simp add: fl_of_int_def not_negative_fl)

lemma not_negative_add: "not_negative x \<Longrightarrow> not_negative y \<Longrightarrow> not_negative (x + y)"
  by (cases x; cases y) (auto simp: not_negative_def plus_pyfloat_def not_negative_fl [unfolded not_negative_def])

lemma not_negative_mult: "not_negative x \<Longrightarrow> nonneg y \<Longrightarrow> not_negative (x * y)"
  by (cases x; cases y) (auto simp: not_negative_def times_pyfloat_def nonneg_def finf_def
      not_negative_fl [unfolded not_negative_def])

lemma not_negative_div: "not_negative x \<Longrightarrow> not_negative (fdiv x (Fin 1000000))"
  by (cases x) (auto simp: not_negative_def finf_def not_negative_fl [unfolded not_negative_def])

lemmas not_negative_intros = not_negative_of_int not_negative_add not_negative_mult not_negative_div

section \<open>Properties\<close>

lemma prepare_call_releases:
  assumes "prepare_call sv ck rid intent gw = (Inl e, gw')"
    and "\<And>config c. dict_get (gw_runs gw) rid = Some config \<Longrightarrow> c \<in> set (cfg_candidates config) \<Longrightarrow> mc_routes c \<noteq> []"
    and "dict_get (gc_runs (gw_controller gw)) rid = Some run"
    and "''call_'' @ ck_hex ck \<notin> ru_pending_allocations run \<union> fst ` set (ru_reserved run)"
    and "isfinite ((snd (ck_begin ck) - ru_started_monotonic run) * Fin 1000)"
    and "is_ok (span_ceil (ck_allocation ck))"
  shows "owed (gw_controller gw') = owed (gw_controller gw) \<and> gw_runs gw' = gw_runs gw"
proof (cases "configuration gw rid")
  case Inl
  then show ?thesis using assms(1) by (simp add: prepare_call_def)
next
  case (Inr config)
  then have routes: "c \<in> set (cfg_candidates config) \<Longrightarrow> mc_routes c \<noteq> []" for c
    using assms(2) [of config c] by (auto simp: configuration_def split: option.splits)
  show ?thesis
  proof (cases "prepare_analysis sv ck config (gw_cache gw) intent")
    case Inl
    then show ?thesis using assms(1) Inr by (simp add: prepare_call_def)
  next
    case an: (Inr p)
    obtain prediction context_ms resolved tokens cache co where p: "p = (prediction, context_ms, resolved, tokens, cache, co)"
      by (cases p)
    obtain gemma_ms where g: "span_ceil (ck_allocation ck) = Inr gemma_ms" using assms(6) by (auto simp: is_ok_iff)
    let ?q = "request_of ck rid resolved tokens prediction cache (cfg_candidates config)"
    have ready: "can_reserve ?q (gw_controller gw)"
      using assms(3,4,5) routes by (simp add: can_reserve_def reserved_ids_def)
    note call = prepare_call_attempt [OF Inr an [unfolded p] ready g]
    show ?thesis
      using assms(1) calls.attempt_failed [OF ready] unfolding call by (auto split: prod.splits)
  qed
qed

text \<open>
  Property C23. A preparation that fails leaves no reservation behind: if preparing a call for a
  known run raises anywhere (prediction, analysis, allocation, ranking, routing, compaction,
  provider planning), every run keeps the status, spending, reservations and pending calls it
  had; only the sequence counter and the call count of the run may have moved.
\<close>

theorem failed_preparation_releases:
  assumes "prepare_call sv ck rid intent gw = (Inl e, gw')"
    and "\<And>config c. dict_get (gw_runs gw) rid = Some config \<Longrightarrow> c \<in> set (cfg_candidates config) \<Longrightarrow> mc_routes c \<noteq> []"
    and "dict_get (gc_runs (gw_controller gw)) rid = Some run"
    and "''call_'' @ ck_hex ck \<notin> ru_pending_allocations run \<union> fst ` set (ru_reserved run)"
    and "isfinite ((snd (ck_begin ck) - ru_started_monotonic run) * Fin 1000)"
    and "is_ok (span_ceil (ck_allocation ck))"
  shows "\<forall>r. map_option (\<lambda>x. x\<lparr>ru_next_sequence := 0, ru_completed_calls := 0\<rparr>) (dict_get (gc_runs (gw_controller gw')) r)
    = map_option (\<lambda>x. x\<lparr>ru_next_sequence := 0, ru_completed_calls := 0\<rparr>) (dict_get (gc_runs (gw_controller gw)) r)"
  using prepare_call_releases [OF assms] by (simp add: owed_def fun_eq_iff)

theorem failed_preparation_releases_witness:
  "map_option ru_reserved (dict_get (gc_runs (gw_controller (snd (prepare_call
     (sample_services\<lparr>sv_allocate := \<lambda>_. Inl (BudgetError ''down'')\<rparr>) sample_clock ''run_1'' brief_intent sample_gateway)))) ''run_1'')
   = Some []"
proof -
  let ?sv = "sample_services\<lparr>sv_allocate := \<lambda>_. Inl (BudgetError ''down'')\<rparr>"
  let ?call = "prepare_call ?sv sample_clock ''run_1'' brief_intent sample_gateway"
  have never: "reserve_call (\<lambda>_. Inl e) q ctl \<noteq> (Inr b, ctl')" for e q ctl b ctl'
    by (auto simp: reserve_call_def allocate_call_def split: prod.splits sum.splits)
  have "?call \<noteq> (Inr pc, gw')" for pc gw'
    by (auto elim!: prepare_call_Inr simp: never)
  then obtain e gw' where call: "?call = (Inl e, gw')" by (cases ?call; cases "fst ?call") auto
  have c: "gw_controller sample_gateway = ctl_started" "gw_runs sample_gateway = [(''run_1'', brief_config)]"
    "cfg_candidates brief_config = [scored_model]" by (simp_all add: sample_gateway_def brief_config_def)
  have ok: "isfinite ((snd (ck_begin sample_clock) - ru_started_monotonic sample_run) * Fin 1000)"
    "is_ok (span_ceil (ck_allocation sample_clock))" by code_simp+
  have "\<forall>r. map_option (\<lambda>x. x\<lparr>ru_next_sequence := 0, ru_completed_calls := 0\<rparr>) (dict_get (gc_runs (gw_controller gw')) r)
    = map_option (\<lambda>x. x\<lparr>ru_next_sequence := 0, ru_completed_calls := 0\<rparr>) (dict_get (gc_runs (gw_controller sample_gateway)) r)"
    by (rule failed_preparation_releases [OF call _ _ _ ok]) (auto simp: c started split: if_splits)
  from this [rule_format, of "''run_1''"] obtain x where
    x: "dict_get (gc_runs (gw_controller gw')) ''run_1'' = Some x"
    "x\<lparr>ru_next_sequence := 0, ru_completed_calls := 0\<rparr> = sample_run\<lparr>ru_next_sequence := 0, ru_completed_calls := 0\<rparr>"
    by (auto simp: c started)
  from arg_cong [OF x(2), of ru_reserved] x(1) call show ?thesis by simp
qed

text \<open>
  Property C24. A prepared call fits. When a call is prepared, its reservation is held by the
  run, the compacted prompt is within the context its budget requires, together with the
  predicted output it fits the window of the chosen model, the model is one of the run's
  candidates above the policy's quality floor, every planned provider is one of its routes, and
  under a hard latency limit the provider timeout and the time already spent stay within the
  call's latency budget.
\<close>

theorem prepared_call_fits:
  assumes "prepare_call sv ck rid intent gw = (Inr pc, gw')"
    and "dict_get (gc_runs (gw_controller gw)) rid = Some run" "''call_'' @ ck_hex ck \<notin> ru_pending_allocations run"
  shows "\<exists>config run' b. dict_get (gw_runs gw) rid = Some config \<and>
    dict_get (gc_runs (gw_controller gw')) rid = Some run' \<and> ru_status run' = ACTIVE \<and>
    dict_get (ru_reserved run') (bud_call_id (pc_budget pc)) = Some b \<and>
    bud_cost_usd b = bud_cost_usd (pc_budget pc) \<and> bud_latency_ms b = bud_latency_ms (pc_budget pc) \<and>
    cres_tokens_after (pc_compaction pc) \<le> bud_required_context_tokens (pc_budget pc) \<and>
    cres_tokens_after (pc_compaction pc) + pc_predicted_output_tokens pc
      \<le> mc_context_window_tokens (md_candidate (pc_model pc)) \<and>
    md_candidate (pc_model pc) \<in> set (cfg_candidates config) \<and>
    \<not> mc_quality (md_candidate (pc_model pc)) < minimum_quality (ci_task intent) (cfg_policy config) \<and>
    set (pp_routes (pc_provider pc)) \<subseteq> set (mc_routes (md_candidate (pc_model pc))) \<and>
    (hard_latency (cfg_policy config) \<longrightarrow> pp_total_timeout_ms (pc_provider pc) + pc_preparation_latency_ms pc
       \<le> bud_latency_ms (pc_budget pc) - pol_latency_safety_margin_ms (cfg_policy config))"
proof -
  obtain config prediction context_ms resolved tokens cache co b ctl budget gemma_ms where
    config: "dict_get (gw_runs gw) rid = Some config" and
    an: "prepare_analysis sv ck config (gw_cache gw) intent = Inr (prediction, context_ms, resolved, tokens, cache, co)" and
    res: "reserve_call (sv_allocate sv) (request_of ck rid resolved tokens prediction cache (cfg_candidates config))
       (gw_controller gw) = (Inr b, ctl)" and
    rf: "raise_floor sv cache b = Inr budget" and gw': "gw' = gw\<lparr>gw_controller := ctl, gw_cache := co\<rparr>" and
    pr: "prepare_reserved sv ck config resolved prediction context_ms cache budget gemma_ms
       (rank_timed sv (ck_ranking ck) intent (cfg_candidates config) (ranking_timeout (cfg_policy config))) = Inr pc"
    using assms(1) by (rule prepare_call_Inr)
  let ?q = "request_of ck rid resolved tokens prediction cache (cfg_candidates config)"
  note g = allocate_call_granted [OF res [unfolded reserve_call_def], of run, simplified request_fields, OF assms(2,3)]
  note r = raise_floor_Inr [OF rf]
  obtain scores elapsed ranked plan where
    sel: "select_ranked (sv_ranker sv) resolved (cfg_candidates config) cache budget (cfg_policy config) elapsed (Some scores) = Inr ranked" and
    plan: "plan_compaction (sv_planner_kept_tokens sv) cache (hd ranked) budget = Inr plan" and
    comp: "compact (sv_sha256 sv) (sv_set_order sv) (sv_compactor_kept_tokens sv) (ci_messages resolved) cache plan =
       Inr (pc_compaction pc)" "cres_target_met (pc_compaction pc)" and
    prov: "plan_provider (hd ranked) cache budget (cfg_policy config) (pc_preparation_latency_ms pc) = Inr (pc_provider pc)" and
    pc: "pc_budget pc = budget" "pc_model pc = hd ranked" "pc_predicted_output_tokens pc = olp_predicted_tokens prediction"
    using pr by (rule prepare_reserved_Inr)
  have "ranked \<noteq> []" using sel by (rule select_ranked_Inr) (metis length_0_conv length_sort_by)
  then have hd: "hd ranked \<in> set ranked" by simp
  obtain out sc c v where c: "c \<in> set (cfg_candidates config)" "ci_predicted_output_tokens resolved = Some out"
    "evaluate_candidate (minimum_quality (ci_task resolved) (cfg_policy config))
       (ci_required_capabilities resolved) out cache budget (cfg_policy config) sc c = Inr (Decided (hd ranked))"
    and dec: "decide out cache budget (cfg_policy config) sc c v = Inr (Decided (hd ranked))"
    using sel hd by (rule decided_from)
  have mc: "md_candidate (hd ranked) = c" using dec by (rule decide_Decided)
  have resolved: "ci_task resolved = ci_task intent" "out = olp_predicted_tokens prediction"
    using an c(2) by (auto elim!: prepare_analysis_Inr)
  have tgt: "cp_target_tokens plan \<le> bud_required_context_tokens budget"
    using plan r(3) by (auto simp: plan_compaction_def Let_def)
  have fit: "cres_tokens_after (pc_compaction pc) \<le> bud_required_context_tokens budget"
    using comp(2) compact_Inr(5) [OF comp(1)] tgt by simp
  show ?thesis
    using config g(1,2,4) r(1,4,5) fit evaluate_Decided(1,3) [OF c(3)] c(1) plan_provider_routes [OF prov]
    by (simp add: gw' pc mc resolved dict_get_set)
qed

theorem prepared_call_fits_witness:
  "\<exists>pc gw'. prepare_call sample_services sample_clock ''run_1'' brief_intent sample_gateway = (Inr pc, gw') \<and>
     cres_tokens_after (pc_compaction pc) \<le> bud_required_context_tokens (pc_budget pc)"
proof -
  obtain pc gw' where call: "prepare_call sample_services sample_clock ''run_1'' brief_intent sample_gateway = (Inr pc, gw')"
    by (rule brief_call)
  have run: "dict_get (gc_runs (gw_controller sample_gateway)) ''run_1'' = Some sample_run"
    by (simp add: sample_gateway_def started)
  from prepared_call_fits [OF call run] call show ?thesis by auto
qed

text \<open>
  Property C25. Usage is settled only when it is authorised, and then once: usage of another
  model or of a provider outside the plan raises and changes nothing; an accepted usage comes
  from a planned route of the authorised model, and the run that held the reservation is
  charged exactly the reported (or computed) cost and the latency with the preparation time.
\<close>

theorem usage_authorized:
  assumes "observe_model sv now today wall wall' prepared usage gw = (r, gw')"
  shows "(mu_model_id usage \<noteq> mc_model_id (md_candidate (pc_model prepared)) \<or>
      mu_provider usage \<notin> rt_provider ` set (pp_routes (pc_provider prepared)) \<longrightarrow> \<not> is_ok r \<and> gw' = gw) \<and>
    (is_ok r \<longrightarrow> (\<exists>route cost run b. route \<in> set (pp_routes (pc_provider prepared)) \<and>
      rt_provider route = mu_provider usage \<and> observed_cost usage route = Inr cost \<and>
      dict_get (gc_runs (gw_controller gw)) (bud_run_id (pc_budget prepared)) = Some run \<and> ru_status run = ACTIVE \<and>
      dict_get (ru_reserved run) (bud_call_id (pc_budget prepared)) = Some b \<and>
      dict_get (gc_runs (gw_controller gw')) = (dict_get (gc_runs (gw_controller gw)))(bud_run_id (pc_budget prepared) \<mapsto>
        charge cost (mu_latency_ms usage + pc_preparation_latency_ms prepared) 1
          (run\<lparr>ru_reserved := dict_pop (bud_call_id (pc_budget prepared)) (ru_reserved run)\<rparr>))))"
proof (intro conjI impI)
  assume bad: "mu_model_id usage \<noteq> mc_model_id (md_candidate (pc_model prepared)) \<or>
      mu_provider usage \<notin> rt_provider ` set (pp_routes (pc_provider prepared))"
  have "mu_model_id usage = mc_model_id (md_candidate (pc_model prepared)) \<and>
      (\<exists>r\<in>set (pp_routes (pc_provider prepared)). rt_provider r = mu_provider usage)"
    if "is_ok (authorized_route prepared usage)"
    using that by (auto simp: authorized_route_def split: if_splits option.splits dest!: find_Some_in)
  then have "\<not> is_ok (authorized_route prepared usage)" using bad by (metis imageI)
  then obtain e where "authorized_route prepared usage = Inl e" by (cases "authorized_route prepared usage") auto
  with assms show "\<not> is_ok r" "gw' = gw" by (auto simp: observe_model_def)
next
  assume "is_ok r"
  then obtain snap where r: "r = Inr snap" by (auto simp: is_ok_iff)
  let ?rid = "bud_run_id (pc_budget prepared)" and ?c = "bud_call_id (pc_budget prepared)"
  let ?ms = "mu_latency_ms usage + pc_preparation_latency_ms prepared"
  obtain route cost where a: "authorized_route prepared usage = Inr route" "observed_cost usage route = Inr cost"
    using assms r by (cases "authorized_route prepared usage"; cases "observed_cost usage (projr (authorized_route prepared usage))")
      (auto simp: observe_model_def)
  obtain ctl where settle: "settle_call now today ?rid ?c cost ?ms (gw_controller gw) = (Inr snap, ctl)"
    and cache: "observe_cache sv wall wall' prepared usage route (gw\<lparr>gw_controller := ctl\<rparr>) = Inr gw'"
    using assms r by (auto simp: observe_model_def a split: prod.splits sum.splits)
  have ctl: "gw_controller gw' = ctl"
    using cache by (auto simp: observe_cache_def Let_def)
  obtain run b where run: "dict_get (gc_runs (gw_controller gw)) ?rid = Some run" "ru_status run = ACTIVE"
    "dict_get (ru_reserved run) ?c = Some b"
    and put: "ctl = put_run ?rid (charge cost ?ms 1 (released ?c run)) (gw_controller gw)"
    using settle by (auto simp: settle_call_def Let_def split: if_splits sum.splits list.splits)
  have "route \<in> set (pp_routes (pc_provider prepared))" "rt_provider route = mu_provider usage"
    using a(1) by (auto simp: authorized_route_def split: if_splits option.splits dest!: find_Some_in)
  then show "\<exists>route cost run b. route \<in> set (pp_routes (pc_provider prepared)) \<and>
      rt_provider route = mu_provider usage \<and> observed_cost usage route = Inr cost \<and>
      dict_get (gc_runs (gw_controller gw)) ?rid = Some run \<and> ru_status run = ACTIVE \<and>
      dict_get (ru_reserved run) ?c = Some b \<and>
      dict_get (gc_runs (gw_controller gw')) = (dict_get (gc_runs (gw_controller gw)))(?rid \<mapsto>
        charge cost ?ms 1 (run\<lparr>ru_reserved := dict_pop ?c (ru_reserved run)\<rparr>))"
    using a(2) run by (intro exI [of _ route] exI [of _ cost] exI [of _ run] exI [of _ b])
      (simp add: ctl put released_def)
qed

definition sample_prepared :: prepared_call where
  "sample_prepared = \<lparr>pc_intent = brief_intent, pc_budget = sample_grant,
     pc_cache = brief_cache\<lparr>ca_cacheable_message_indices := [1]\<rparr>, pc_model = brief_decision,
     pc_provider = \<lparr>pp_mode = DIRECT, pp_model_id = ''small'', pp_routes = [cheap_route], pp_start_within_ms = 0,
       pp_total_timeout_ms = 3210, pp_latency_budget_ms = 3360, pp_reason = []\<rparr>,
     pc_compaction = \<lparr>cres_messages = brief_messages, cres_tokens_before = 60, cres_tokens_after = 19,
       cres_target_tokens = 19, cres_target_met = True,
       cres_records = [\<lparr>cr_message_index = 1, cr_original_hash = ''h'', cr_tokens_before = 50, cr_tokens_after = 9,
         cr_block_type = ToolBlock, cr_importance = Fin 0\<rparr>]\<rparr>,
     pc_model_alternatives = [], pc_preparation_latency_ms = 0, pc_predicted_output_tokens = 100,
     pc_output_prediction_ms = 0, pc_context_analysis_ms = 0, pc_gemma_allocation_ms = 0,
     pc_semantic_ranking_ms = 0, pc_candidate_feasibility_ms = 0, pc_compaction_ms = 0,
     pc_provider_planning_ms = 0, pc_control_plane_total_ms = 0\<rparr>"

definition sample_usage :: model_usage where
  "sample_usage = \<lparr>mu_input_tokens = 19, mu_output_tokens = 100, mu_latency_ms = 1000, mu_provider = ''alpha'',
     mu_model_id = ''small'', mu_cache_read_tokens = 9, mu_cache_write_tokens = 0, mu_cost_usd = Some (Fin 32)\<rparr>"

definition granted_gateway :: gateway where
  "granted_gateway = sample_gateway\<lparr>gw_controller := ctl_granted\<rparr>"

lemma sample_prepared_fields [simp]:
  "bud_run_id (pc_budget sample_prepared) = ''run_1''" "bud_call_id (pc_budget sample_prepared) = ''call_1''"
  "pc_preparation_latency_ms sample_prepared = 0" "pc_intent sample_prepared = brief_intent"
  "ca_cacheable_message_indices (pc_cache sample_prepared) = [1]"
  "map cr_message_index (cres_records (pc_compaction sample_prepared)) = [1]"
  "cres_messages (pc_compaction sample_prepared) = brief_messages" "pc_predicted_output_tokens sample_prepared = 100"
  "pc_model sample_prepared = brief_decision" "pp_routes (pc_provider sample_prepared) = [cheap_route]"
  by (simp_all add: sample_prepared_def sample_grant_def budget_of_def Let_def)

lemma sample_observed: obtains snap gw' where
  "observe_model sample_services (Fin 3) 0 0 0 sample_prepared sample_usage granted_gateway = (Inr snap, gw')"
proof -
  have prov: "rt_provider cheap_route = ''alpha''" by (simp add: cheap_route_def sample_route_def)
  have u: "mu_model_id sample_usage = ''small''" "mu_provider sample_usage = ''alpha''" "mu_latency_ms sample_usage = 1000"
    "mu_cost_usd sample_usage = Some (Fin 32)" by (simp_all add: sample_usage_def)
  have a: "authorized_route sample_prepared sample_usage = Inr cheap_route"
    by (simp add: authorized_route_def u prov brief_decision_def)
  have c: "observed_cost sample_usage cheap_route = Inr (Fin 32)" by (simp add: observed_cost_def u)
  have g: "gw_controller granted_gateway = ctl_granted" "gw_cache granted_gateway = gw_cache sample_gateway"
    "configuration (granted_gateway\<lparr>gw_controller := ctl\<rparr>) ''run_1'' = Inr brief_config"
    "cfg_candidates brief_config = [scored_model]" "sv_sha256 sample_services = (\<lambda>_. ''h'')" for ctl
    by (simp_all add: granted_gateway_def configuration_def sample_gateway_def brief_config_def sample_services_def)
  have rec: "cres_records (pc_compaction sample_prepared) \<noteq> []" by (simp add: sample_prepared_def)
  obtain gw' where "observe_cache sample_services 0 0 sample_prepared sample_usage cheap_route
      (granted_gateway\<lparr>gw_controller := ctl_settled\<rparr>) = Inr gw'"
    by (simp add: observe_cache_def Let_def g rec brief_analyze(1))
  then have "observe_model sample_services (Fin 3) 0 0 0 sample_prepared sample_usage granted_gateway =
      (Inr (snapshot_of (charge (Fin 32) 1000 1 (sample_run\<lparr>ru_next_sequence := 2\<rparr>))), gw')"
    by (simp add: observe_model_def a c u g settled_full settled)
  then show thesis by (rule that)
qed

theorem usage_authorized_witness:
  "\<exists>snap gw'. observe_model sample_services (Fin 3) 0 0 0 sample_prepared sample_usage granted_gateway = (Inr snap, gw') \<and>
     (\<exists>route\<in>set (pp_routes (pc_provider sample_prepared)). rt_provider route = mu_provider sample_usage)"
proof -
  obtain snap gw' where o: "observe_model sample_services (Fin 3) 0 0 0 sample_prepared sample_usage granted_gateway = (Inr snap, gw')"
    by (rule sample_observed)
  have "is_ok (Inr snap)" by simp
  with usage_authorized [OF o] o show ?thesis by blast
qed

text \<open>
  A rewritten prefix is not recorded as cached by a read of the old one. When
  compaction changed a message of the cached prefix and the provider reports no cache write, the
  session keeps at most the cache record it had, whatever cache reads the provider reports.
\<close>

lemma rewritten_prefix_unconfirmed:
  assumes "observe_model sv now today wall wall' prepared usage gw = (Inr snap, gw')"
    and "set (map cr_message_index (cres_records (pc_compaction prepared)))
      \<inter> set (ca_cacheable_message_indices (pc_cache prepared)) \<noteq> {}"
    and "mu_cache_write_tokens usage \<le> 0"
  shows "ss_record (session_of (gw_cache gw') (ci_session_id (pc_intent prepared)))
    \<in> {None, ss_record (session_of (gw_cache gw) (ci_session_id (pc_intent prepared)))}"
proof -
  let ?sid = "ci_session_id (pc_intent prepared)"
  obtain route ctl where oc: "observe_cache sv wall wall' prepared usage route (gw\<lparr>gw_controller := ctl\<rparr>) = Inr gw'"
    using assms(1) by (auto simp: observe_model_def split: prod.splits sum.splits)
  have ne: "map cr_message_index (cres_records (pc_compaction prepared)) \<noteq> []" using assms(2) by force
  obtain config where cfg: "configuration (gw\<lparr>gw_controller := ctl\<rparr>) (bud_run_id (pc_budget prepared)) = Inr config"
    using oc ne by (cases "configuration (gw\<lparr>gw_controller := ctl\<rparr>) (bud_run_id (pc_budget prepared))")
      (simp_all add: observe_cache_def Let_def)
  have x: "rbind (analyze (sv_sha256 sv) wall (gw_cache gw) ?sid
      (cres_messages (pc_compaction prepared)) (ci_tools (pc_intent prepared)) (cfg_candidates config)
      (pc_predicted_output_tokens prepared) (ci_task (pc_intent prepared)) None)
      (\<lambda>(analysis, co). Inr (gw\<lparr>gw_controller := ctl, gw_cache :=
         observe wall' co ?sid analysis route (usage\<lparr>mu_cache_read_tokens := 0\<rparr>)\<rparr>)) = Inr gw'"
    using oc unfolding observe_cache_def Let_def if_P [OF assms(2)] if_not_P [OF ne] cfg rbind.simps by simp
  then obtain analysis co where
    an: "analyze (sv_sha256 sv) wall (gw_cache gw) ?sid (cres_messages (pc_compaction prepared))
      (ci_tools (pc_intent prepared)) (cfg_candidates config) (pc_predicted_output_tokens prepared)
      (ci_task (pc_intent prepared)) None = Inr (analysis, co)" by auto
  with x have gw': "gw_cache gw' = observe wall' co ?sid analysis route (usage\<lparr>mu_cache_read_tokens := 0\<rparr>)"
    by auto
  have "co = expire_session (gw_cache gw) ?sid wall" using an by (rule analyze_Inr)
  then have co: "ss_record (session_of co ?sid) \<in> {None, ss_record (session_of (gw_cache gw) ?sid)}"
    by (auto simp: expire_session_def session_of_def dict_get_set)
  have "ss_record (session_of (gw_cache gw') ?sid) = ss_record (session_of co ?sid)"
    using assms(3) by (simp add: gw' session_of_observe split: option.split)
  with co show ?thesis by simp
qed

lemma find_split: "find p xs = Some d \<Longrightarrow> \<exists>pre post. xs = pre @ d # post \<and> (\<forall>x\<in>set pre. \<not> p x) \<and> p d"
proof (induction xs)
  case (Cons x xs)
  then show ?case by (cases "p x") (force, metis Cons.IH Cons.prems append_Cons find.simps(2) set_ConsD)
qed simp

text \<open>
  Failover stays inside what was prepared: rerouting picks the first precomputed
  decision whose model is not excluded, keeps the other allowed decisions in their order as
  alternatives, plans only routes of the new model with the extra time already spent counted
  against the budget, and leaves intent, budget, context and compaction as they were.
\<close>

lemma reroute_within_prepared:
  assumes "reroute_prepared ticks prepared excluded extra gw = Inr p"
  shows "(\<exists>skipped rest. pc_model prepared # pc_model_alternatives prepared = skipped @ pc_model p # rest \<and>
      (\<forall>d\<in>set skipped. mc_model_id (md_candidate d) \<in> excluded) \<and>
      mc_model_id (md_candidate (pc_model p)) \<notin> excluded \<and>
      pc_model_alternatives p = filter (\<lambda>d. mc_model_id (md_candidate d) \<noteq> mc_model_id (md_candidate (pc_model p)) \<and>
        mc_model_id (md_candidate d) \<notin> excluded) rest) \<and>
    set (pp_routes (pc_provider p)) \<subseteq> set (mc_routes (md_candidate (pc_model p))) \<and>
    (\<exists>config. dict_get (gw_runs gw) (bud_run_id (pc_budget prepared)) = Some config \<and>
      (hard_latency (cfg_policy config) \<longrightarrow>
        pp_total_timeout_ms (pc_provider p) + pc_preparation_latency_ms prepared + extra
          \<le> bud_latency_ms (pc_budget prepared) - pol_latency_safety_margin_ms (cfg_policy config))) \<and>
    pc_intent p = pc_intent prepared \<and> pc_budget p = pc_budget prepared \<and> pc_cache p = pc_cache prepared \<and>
    pc_compaction p = pc_compaction prepared"
proof -
  let ?allowed = "\<lambda>d. mc_model_id (md_candidate d) \<notin> excluded"
  let ?ranked = "pc_model prepared # pc_model_alternatives prepared"
  obtain d where d: "find ?allowed ?ranked = Some d"
    using assms by (cases "find ?allowed ?ranked") (auto simp: reroute_prepared_def Let_def split: if_splits)
  let ?other = "\<lambda>e. mc_model_id (md_candidate e) \<noteq> mc_model_id (md_candidate d) \<and> ?allowed e"
  have run: "rbind (policy_of gw (bud_run_id (pc_budget prepared))) (\<lambda>policy.
     rbind (plan_provider d (pc_cache prepared) (pc_budget prepared) policy
              (pc_preparation_latency_ms prepared + extra)) (\<lambda>provider.
     rbind (span_ceil ticks) (\<lambda>planning_ms.
     Inr (prepared\<lparr>pc_model := d, pc_model_alternatives := filter ?other ?ranked,
       pc_provider := provider, pc_provider_planning_ms := pc_provider_planning_ms prepared + planning_ms\<rparr>)))) = Inr p"
    using assms unfolding reroute_prepared_def Let_def d option.case by (metis Inl_Inr_False)
  then obtain policy provider ms where pol: "policy_of gw (bud_run_id (pc_budget prepared)) = Inr policy"
    and plan: "plan_provider d (pc_cache prepared) (pc_budget prepared) policy
      (pc_preparation_latency_ms prepared + extra) = Inr provider"
    and p: "p = prepared\<lparr>pc_model := d, pc_model_alternatives := filter ?other ?ranked,
       pc_provider := provider, pc_provider_planning_ms := pc_provider_planning_ms prepared + ms\<rparr>"
    by (auto simp del: filter.simps)
  have fields: "pc_model p = d" "pc_model_alternatives p = filter ?other ?ranked" "pc_provider p = provider"
    "pc_intent p = pc_intent prepared" "pc_budget p = pc_budget prepared" "pc_cache p = pc_cache prepared"
    "pc_compaction p = pc_compaction prepared" by (simp_all add: p)
  obtain config where config: "dict_get (gw_runs gw) (bud_run_id (pc_budget prepared)) = Some config" "cfg_policy config = policy"
    using pol by (auto simp: policy_of_def configuration_def split: option.splits)
  obtain skipped rest where split: "?ranked = skipped @ d # rest" "\<forall>x\<in>set skipped. \<not> ?allowed x" "?allowed d"
    using find_split [OF d] by blast
  have "filter ?other skipped = []" using split(2) by (auto simp: filter_empty_conv)
  then have "filter ?other ?ranked = filter ?other rest" unfolding split(1) by simp
  with split have first: "\<exists>skipped rest. ?ranked = skipped @ d # rest \<and>
      (\<forall>e\<in>set skipped. mc_model_id (md_candidate e) \<in> excluded) \<and> ?allowed d \<and>
      filter ?other ?ranked = filter ?other rest" by blast
  have "set (pp_routes provider) \<subseteq> set (mc_routes (md_candidate d))"
    "hard_latency policy \<Longrightarrow> pp_total_timeout_ms provider + pc_preparation_latency_ms prepared + extra
       \<le> bud_latency_ms (pc_budget prepared) - pol_latency_safety_margin_ms policy"
    using plan_provider_routes [OF plan] by simp_all
  then show ?thesis unfolding fields using first config by blast
qed

text \<open>
  The computed price of a usage is sound: input tokens are split without loss into
  cache reads, cache writes and uncached tokens, each non-negative and no more than reported,
  and for a well-formed route the cost, when there is one, is finite and non-negative, so that
  the controller accepts it for settlement.
\<close>

lemma usage_cost_sound:
  assumes "validate_model_usage usage = Inr usage" "route_wf route" "usage_cost usage route = Inr cost"
    and "usage_split usage = (r, w, u)"
  shows "r + w + u = mu_input_tokens usage \<and> 0 \<le> r \<and> 0 \<le> w \<and> 0 \<le> u \<and>
    r \<le> mu_cache_read_tokens usage \<and> w \<le> mu_cache_write_tokens usage \<and> isfinite cost \<and> \<not> cost < Fin 0"
proof -
  have v: "0 \<le> mu_input_tokens usage" "0 \<le> mu_output_tokens usage" "0 \<le> mu_cache_read_tokens usage"
    "0 \<le> mu_cache_write_tokens usage"
    using assms(1) by (auto simp: validate_model_usage_def usage_count_def validator_simps)
  have split: "r + w + u = mu_input_tokens usage" "0 \<le> r" "0 \<le> w" "0 \<le> u"
    "r \<le> mu_cache_read_tokens usage" "w \<le> mu_cache_write_tokens usage"
    using assms(4) v by (auto simp: usage_split_def Let_def)
  have prices: "nonneg (rt_input_price_per_million route)" "nonneg (rt_output_price_per_million route)"
    "nonneg (case rt_cache_read_price_per_million route of Some p \<Rightarrow> p | None \<Rightarrow> rt_input_price_per_million route)"
    "nonneg (case rt_cache_write_price_per_million route of Some p \<Rightarrow> p | None \<Rightarrow> rt_input_price_per_million route)"
    using assms(2) by (auto simp: route_wf_def split: option.splits)
  have "not_negative cost" "isfinite cost"
    using assms(3) prices split(2-4) v(2) unfolding usage_cost_def assms(4) prod.case Let_def
    by (auto split: if_split_asm simp: per_million_def intro!: not_negative_intros)
  then show ?thesis using split by (cases cost) (auto simp: not_negative_def)
qed

end
