(* ===== verification/Py_Any.thy ===== *)
theory Py_Any
  imports Py_Json
begin

text \<open>
  Values of static type \<open>Any\<close>, as the runtime's attribute maps carry them, and the
  conversions the program applies to them: truth, \<open>str\<close>, and \<open>float\<close> and \<open>int\<close> of a
  text. A tuple is a list here (only its \<open>str\<close> differs), any other object is its truth
  value and its \<open>str\<close>, and a mapping may have keys that are not strings.
\<close>

section \<open>Values\<close>

datatype akey = KStr string | KObj string

datatype pyany =
    ANone
  | ABool bool
  | AInt int
  | AFloat pyfloat
  | AStr string
  | AList "pyany list"
  | AMap "(akey \<times> pyany) list"
  | AObj bool string

type_synonym attributes = "(akey \<times> pyany) list"

fun atruthy :: "pyany \<Rightarrow> bool" where
  "atruthy ANone = False"
| "atruthy (ABool b) = b"
| "atruthy (AInt i) = (i \<noteq> 0)"
| "atruthy (AFloat x) = (x \<noteq> Fin 0)"
| "atruthy (AStr s) = (s \<noteq> [])"
| "atruthy (AList xs) = (xs \<noteq> [])"
| "atruthy (AMap kvs) = (kvs \<noteq> [])"
| "atruthy (AObj b s) = b"

text \<open>\<open>a or b\<close>, and \<open>d.get(key)\<close>.\<close>

definition aor :: "pyany \<Rightarrow> pyany \<Rightarrow> pyany" where
  "aor a b = (if atruthy a then a else b)"

definition aget :: "attributes \<Rightarrow> string \<Rightarrow> pyany" where
  "aget d k = (case map_of d (KStr k) of None \<Rightarrow> ANone | Some v \<Rightarrow> v)"

definition has_key :: "attributes \<Rightarrow> string \<Rightarrow> bool" where
  "has_key d k = (map_of d (KStr k) \<noteq> None)"

fun key_repr :: "akey \<Rightarrow> string" where
  "key_repr (KStr s) = str_repr s"
| "key_repr (KObj t) = t"

primrec any_repr :: "pyany \<Rightarrow> string" where
  "any_repr ANone = ''None''"
| "any_repr (ABool b) = (if b then ''True'' else ''False'')"
| "any_repr (AInt i) = show_int i"
| "any_repr (AFloat x) = float_repr x"
| "any_repr (AStr s) = str_repr s"
| "any_repr (AList xs) = ''['' @ join '', '' (map any_repr xs) @ '']''"
| "any_repr (AMap kvs) =
     ''{'' @ join '', '' (map (\<lambda>(k, t). key_repr k @ '': '' @ t) (map (map_prod id any_repr) kvs)) @ ''}''"
| "any_repr (AObj b s) = s"

fun any_str :: "pyany \<Rightarrow> string" where
  "any_str (AStr s) = s"
| "any_str v = any_repr v"

section \<open>Numbers from text\<close>

text \<open>
  The digits at the start of a text, with single underscores between digits, and what follows.
\<close>

definition digit_value :: "char \<Rightarrow> nat" where
  "digit_value c = (let n = code c in
     if 48 \<le> n \<and> n \<le> 57 then n - 48
     else if 97 \<le> n \<and> n \<le> 122 then n - 87
     else if 65 \<le> n \<and> n \<le> 90 then n - 55 else 36)"

fun digits_from :: "nat \<Rightarrow> bool \<Rightarrow> string \<Rightarrow> nat list \<times> string" where
  "digits_from b p [] = ([], [])"
| "digits_from b p (c # cs) =
     (if digit_value c < b then (case digits_from b True cs of (ds, r) \<Rightarrow> (digit_value c # ds, r))
      else if c = CHR ''_'' \<and> p \<and> cs \<noteq> [] \<and> digit_value (hd cs) < b then digits_from b False cs
      else ([], c # cs))"

definition digits_value :: "nat \<Rightarrow> nat list \<Rightarrow> nat" where
  "digits_value b ds = foldl (\<lambda>n d. n * b + d) 0 ds"

fun take_sign :: "string \<Rightarrow> bool \<times> string" where
  "take_sign [] = (False, [])"
| "take_sign (c # cs) = (if c = CHR ''-'' then (True, cs) else if c = CHR ''+'' then (False, cs)
                         else (False, c # cs))"

definition signed :: "bool \<Rightarrow> nat \<Rightarrow> int" where
  "signed neg n = (if neg then - int n else int n)"

text \<open>The exponent of a decimal text, if any.\<close>

fun exponent_of :: "string \<Rightarrow> int option" where
  "exponent_of [] = Some 0"
| "exponent_of (c # cs) =
     (if c \<noteq> CHR ''e'' \<and> c \<noteq> CHR ''E'' then None
      else case take_sign cs of (neg, ds) \<Rightarrow>
        (case digits_from 10 False ds of (n, r) \<Rightarrow>
           if n = [] \<or> r \<noteq> [] then None else Some (signed neg (digits_value 10 n))))"

definition fraction_digits :: "string \<Rightarrow> nat list \<times> string" where
  "fraction_digits r = (if r \<noteq> [] \<and> hd r = CHR ''.'' then digits_from 10 False (tl r) else ([], r))"

text \<open>\<open>float(text)\<close>; \<open>None\<close> stands for its \<open>ValueError\<close>.\<close>

definition parse_float :: "string \<Rightarrow> pyfloat option" where
  "parse_float s =
     (case take_sign (strip s) of (neg, t) \<Rightarrow>
      if lower t = ''inf'' \<or> lower t = ''infinity'' then Some (finf neg)
      else if lower t = ''nan'' then Some NaN
      else case digits_from 10 False t of (ip, r) \<Rightarrow>
        (case fraction_digits r of (fp, r') \<Rightarrow>
           if ip = [] \<and> fp = [] then None
           else map_option (\<lambda>e. fl (of_int (signed neg (digits_value 10 (ip @ fp))) * scale10 (e - int (length fp))))
                  (exponent_of r')))"

text \<open>
  \<open>int(text)\<close> in base ten, which refuses more than 4300 digits, and \<open>int(text, 16)\<close>, which
  allows the prefix \<open>0x\<close>.
\<close>

definition parse_int :: "string \<Rightarrow> int option" where
  "parse_int s =
     (case take_sign (strip s) of (neg, t) \<Rightarrow>
      (case digits_from 10 False t of (ds, r) \<Rightarrow>
         if ds = [] \<or> r \<noteq> [] \<or> 4300 < length ds then None else Some (signed neg (digits_value 10 ds))))"

definition hex_prefix :: "string \<Rightarrow> bool" where
  "hex_prefix t = (take 2 t = ''0x'' \<or> take 2 t = ''0X'')"

definition parse_hex :: "string \<Rightarrow> int option" where
  "parse_hex s =
     (case take_sign (strip s) of (neg, t) \<Rightarrow>
      (case (if hex_prefix t then digits_from 16 True (drop 2 t) else digits_from 16 False t) of (ds, r) \<Rightarrow>
         if ds = [] \<or> r \<noteq> [] then None else Some (signed neg (digits_value 16 ds))))"

text \<open>\<open>int(v)\<close>, which cuts a float towards zero.\<close>

definition trunc :: "rat \<Rightarrow> int" where
  "trunc r = (if r < 0 then \<lceil>r\<rceil> else \<lfloor>r\<rfloor>)"

fun any_int :: "pyany \<Rightarrow> int result" where
  "any_int (AInt i) = Inr i"
| "any_int (ABool b) = Inr (if b then 1 else 0)"
| "any_int (AFloat (Fin r)) = Inr (trunc r)"
| "any_int (AFloat NaN) = Inl (ValueError ''cannot convert float NaN to integer'')"
| "any_int (AFloat x) = Inl OverflowError"
| "any_int (AStr s) = (case parse_int s of Some i \<Rightarrow> Inr i
     | None \<Rightarrow> Inl (ValueError (''invalid literal for int() with base 10: '' @ str_repr s)))"
| "any_int v = Inl (TypeError ''int() argument must be a string, a bytes-like object or a real number'')"

section \<open>Lemmas\<close>

lemma digits_from_less: "\<forall>d\<in>set (fst (digits_from b p s)). d < b"
proof (induction b p s rule: digits_from.induct)
  case (2 b p c cs)
  note IH = 2
  let ?gap = "c = CHR ''_'' \<and> p \<and> cs \<noteq> [] \<and> digit_value (hd cs) < b"
  show ?case
  proof (cases "digit_value c < b")
    case True
    with IH(1) show ?thesis by (simp add: case_prod_beta)
  next
    case no_digit: False
    show ?thesis
    proof (cases ?gap)
      case True
      from IH(2) [OF no_digit True] show ?thesis
        unfolding digits_from.simps(2) if_not_P [OF no_digit] if_P [OF True] .
    next
      case False
      show ?thesis unfolding digits_from.simps(2) if_not_P [OF no_digit] if_not_P [OF False] by simp
    qed
  qed
qed simp

lemma digits_value_append: "digits_value b (ds @ es) = digits_value b ds * b ^ length es + digits_value b es"
proof (induction es rule: rev_induct)
  case (snoc e es)
  then show ?case by (simp add: digits_value_def algebra_simps)
qed (simp add: digits_value_def)

lemma digits_value_snoc: "digits_value b (ds @ [d]) = digits_value b ds * b + d"
  by (simp add: digits_value_def)

lemma digits_value_less: "\<forall>d\<in>set ds. d < b \<Longrightarrow> digits_value b ds < b ^ length ds"
proof (induction ds rule: rev_induct)
  case (snoc d ds)
  then have "digits_value b ds + 1 \<le> b ^ length ds" by simp
  then have "(digits_value b ds + 1) * b \<le> b ^ length ds * b" by (rule mult_le_mono1)
  with snoc.prems show ?case by (simp add: digits_value_snoc algebra_simps)
qed (simp add: digits_value_def)

end
