(* ===== verification/Ids.thy ===== *)
theory Ids
  imports Py_Any
begin

text \<open>
  Runtime identifiers (\<^verbatim>\<open>src/promptrail/utils/ids.py\<close>): a prefix, ten characters of
  millisecond time and sixteen of randomness in an alphabet whose order is the order of its
  characters. Python's \<^verbatim>\<open>&\<close> and \<^verbatim>\<open>>>\<close> act on unbounded integers.
\<close>

unbundle bit_operations_syntax

section \<open>Definitions\<close>

definition alphabet :: string where
  "alphabet = ''0123456789ABCDEFGHJKMNPQRSTVWXYZ''"

text \<open>The characters in the order the loop appends them, least significant first.\<close>

fun crockford_chars :: "int \<Rightarrow> nat \<Rightarrow> string" where
  "crockford_chars v 0 = []"
| "crockford_chars v (Suc n) = alphabet ! nat (v AND 31) # crockford_chars (drop_bit 5 v) n"

definition encode_crockford :: "int \<Rightarrow> nat \<Rightarrow> string" where
  "encode_crockford v n = rev (crockford_chars v n)"

definition is_alnum :: "string \<Rightarrow> bool" where
  "is_alnum s = (s \<noteq> [] \<and> list_all (\<lambda>c. is_word c \<and> c \<noteq> CHR ''_'') s)"

definition time_mask :: int where
  "time_mask = 281474976710655"

text \<open>\<open>now_ms\<close> is \<^verbatim>\<open>int(time.time() * 1000)\<close>, \<open>random_bits\<close> the 80 bits of \<^verbatim>\<open>secrets\<close>.\<close>

definition secure_id :: "int \<Rightarrow> int \<Rightarrow> string \<Rightarrow> string result" where
  "secure_id now_ms random_bits prefix =
     (if prefix = [] \<or> \<not> is_alnum (replace_char (CHR ''_'') [] prefix)
      then Inl (ValueError ''prefix must be non-empty alphanumeric/underscore'')
      else Inr (prefix @ ''_'' @ encode_crockford (now_ms AND time_mask) 10 @ encode_crockford random_bits 16))"

section \<open>Decoding\<close>

text \<open>The inverse, which the code leaves to its readers: a position in the alphabet per character.\<close>

definition char_value :: "char \<Rightarrow> nat" where
  "char_value c = length (takeWhile (\<lambda>d. d \<noteq> c) alphabet)"

definition decode_crockford :: "string \<Rightarrow> int" where
  "decode_crockford s = int (digits_value 32 (map char_value s))"

lemma alphabet_length [simp]: "length alphabet = 32"
  by (simp add: alphabet_def)

lemma alphabet_values: "map char_value alphabet = [0..<32]"
  by code_simp

lemma alphabet_sorted: "sorted_wrt (<) (map code alphabet)"
  by code_simp

lemma char_value_nth: "i < 32 \<Longrightarrow> char_value (alphabet ! i) = i"
  using arg_cong [OF alphabet_values, of "\<lambda>xs. xs ! i"] by simp

lemma alphabet_less: "i < j \<Longrightarrow> j < 32 \<Longrightarrow> alphabet ! i < alphabet ! j"
  using sorted_wrt_nth_less [OF alphabet_sorted, of i j] by (simp add: less_char_def)

lemma low_bits: "nat (v AND 31) = nat (v mod 32)" "drop_bit 5 v = v div 32" for v :: int
  using take_bit_eq_mask [of 5 v] by (simp_all add: drop_bit_eq_div take_bit_eq_mod mask_eq_exp_minus_1)

lemma length_crockford_chars [simp]: "length (crockford_chars v n) = n"
  by (induction v n rule: crockford_chars.induct) auto

lemma length_encode [simp]: "length (encode_crockford v n) = n"
  by (simp add: encode_crockford_def)

lemma encode_Suc: "encode_crockford v (Suc n) = encode_crockford (v div 32) n @ [alphabet ! nat (v mod 32)]"
  by (simp add: encode_crockford_def low_bits)

lemma encode_alphabet: "set (encode_crockford v n) \<subseteq> set alphabet"
proof (induction n arbitrary: v)
  case (Suc n)
  have "nat (v mod 32) < length alphabet" by (simp add: nat_less_iff)
  with Suc show ?case by (simp add: encode_Suc del: alphabet_length)
qed (simp add: encode_crockford_def)

lemma decode_encode: "decode_crockford (encode_crockford v n) = v mod 32 ^ n"
proof (induction n arbitrary: v)
  case (Suc n)
  have "char_value (alphabet ! nat (v mod 32)) = nat (v mod 32)" by (simp add: char_value_nth nat_less_iff)
  then have "decode_crockford (encode_crockford v (Suc n)) = decode_crockford (encode_crockford (v div 32) n) * 32 + v mod 32"
    by (simp add: encode_Suc decode_crockford_def digits_value_snoc)
  also have "\<dots> = v mod 32 ^ Suc n" by (simp add: Suc.IH zmod_zmult2_eq)
  finally show ?case .
qed (simp add: decode_crockford_def encode_crockford_def digits_value_def)

text \<open>The texts of equal length are ordered as the numbers.\<close>

lemma less_append_same: "length a = length b \<Longrightarrow> a < b \<Longrightarrow> a @ c < b @ d" for a b c d :: string
  by (induction a b rule: list_induct2) auto

lemma append_less_same: "c < d \<Longrightarrow> a @ c < a @ d" for a c d :: string
  by (induction a) auto

lemma digit_split: "v mod 32 ^ Suc n = 32 * (v div 32 mod 32 ^ n) + v mod 32" for v :: int
  by (simp add: zmod_zmult2_eq)

lemma digit_order:
  assumes "32 * a + r < 32 * b + s" "0 \<le> r" "r < 32" "0 \<le> s" "s < (32::int)"
  shows "a < b \<or> a = b \<and> r < s"
  using assms by linarith

lemma digit_unique:
  assumes "32 * a + r = 32 * b + s" "0 \<le> r" "r < 32" "0 \<le> s" "s < (32::int)"
  shows "a = b \<and> r = s"
proof -
  from assms have "a = b" by linarith
  with assms(1) show ?thesis by simp
qed

lemma encode_mod: "v mod 32 ^ n = w mod 32 ^ n \<Longrightarrow> encode_crockford v n = encode_crockford w n"
proof (induction n arbitrary: v w)
  case (Suc n)
  have "v div 32 mod 32 ^ n = w div 32 mod 32 ^ n \<and> v mod 32 = w mod 32"
    by (rule digit_unique [OF Suc.prems [unfolded digit_split]]) simp_all
  with Suc.IH show ?case unfolding encode_Suc by metis
qed (simp add: encode_crockford_def)

lemma encode_less: "v mod 32 ^ n < w mod 32 ^ n \<Longrightarrow> encode_crockford v n < encode_crockford w n"
proof (induction n arbitrary: v w)
  case (Suc n)
  have "v div 32 mod 32 ^ n < w div 32 mod 32 ^ n \<or>
      v div 32 mod 32 ^ n = w div 32 mod 32 ^ n \<and> v mod 32 < w mod 32"
    by (rule digit_order [OF Suc.prems [unfolded digit_split]]) simp_all
  then show ?case
  proof (elim disjE conjE)
    assume "v div 32 mod 32 ^ n < w div 32 mod 32 ^ n"
    then show ?thesis unfolding encode_Suc by (intro less_append_same Suc.IH) simp_all
  next
    assume same: "v div 32 mod 32 ^ n = w div 32 mod 32 ^ n" and less: "v mod 32 < w mod 32"
    have "alphabet ! nat (v mod 32) < alphabet ! nat (w mod 32)"
      using less by (intro alphabet_less) (simp_all add: nat_less_iff)
    then show ?thesis unfolding encode_Suc encode_mod [OF same] by (intro append_less_same) simp
  qed
qed simp

lemma time_mask_mod: "v AND time_mask = v mod 2 ^ 48" for v :: int
  using take_bit_eq_mask [of 48 v] by (simp add: time_mask_def take_bit_eq_mod mask_eq_exp_minus_1)

lemma secure_id_Inr:
  "secure_id t r p = Inr i \<longleftrightarrow> p \<noteq> [] \<and> is_alnum (replace_char (CHR ''_'') [] p) \<and>
     i = p @ ''_'' @ encode_crockford (t mod 2 ^ 48) 10 @ encode_crockford r 16"
  by (auto simp: secure_id_def time_mask_mod)

section \<open>Property\<close>

text \<open>
  Identifiers can be read back and sort by time. An identifier is its prefix, an
  underscore and 26 characters of the alphabet; decoding the first ten returns the millisecond
  (below the 48 bits kept) and the last sixteen the random bits, so two identifiers of one
  prefix are equal only for the same millisecond and the same bits; an identifier of an earlier
  millisecond comes before one of a later millisecond in the order of strings.
\<close>

lemma secure_id_sortable:
  assumes "secure_id t r prefix = Inr i" "secure_id t' r' prefix = Inr i'"
    and "0 \<le> t" "t < 2 ^ 48" "0 \<le> t'" "t' < 2 ^ 48" "0 \<le> r" "r < 2 ^ 80" "0 \<le> r'" "r' < 2 ^ 80"
  shows "length i = length prefix + 27 \<and> set (drop (length prefix + 1) i) \<subseteq> set alphabet \<and>
    decode_crockford (take 10 (drop (length prefix + 1) i)) = t \<and>
    decode_crockford (drop (length prefix + 11) i) = r \<and>
    (i = i' \<longleftrightarrow> t = t' \<and> r = r') \<and> (t < t' \<longrightarrow> i < i')"
proof -
  note i = assms(1) [unfolded secure_id_Inr, THEN conjunct2, THEN conjunct2]
  note i' = assms(2) [unfolded secure_id_Inr, THEN conjunct2, THEN conjunct2]
  have mods: "t mod 2 ^ 48 = t" "t' mod 2 ^ 48 = t'" "t mod 32 ^ 10 = t" "t' mod 32 ^ 10 = t'"
    "r mod 32 ^ 16 = r" "r' mod 32 ^ 16 = r'" using assms(3-) by simp_all
  have dec: "decode_crockford (take 10 (drop (length prefix + 1) i)) = t"
    "decode_crockford (drop (length prefix + 11) i) = r"
    "decode_crockford (take 10 (drop (length prefix + 1) i')) = t'"
    "decode_crockford (drop (length prefix + 11) i') = r'"
    unfolding i i' mods(1,2) using mods by (simp_all add: decode_encode)
  moreover have "length i = length prefix + 27" unfolding i by simp
  moreover have "set (drop (length prefix + 1) i) \<subseteq> set alphabet"
    unfolding i using encode_alphabet by simp
  moreover have "t = t' \<and> r = r' \<Longrightarrow> i = i'" unfolding i i' by simp
  moreover have "i < i'" if "t < t'"
  proof -
    have "encode_crockford t 10 < encode_crockford t' 10" using that mods by (intro encode_less) simp
    then have "encode_crockford t 10 @ encode_crockford r 16 < encode_crockford t' 10 @ encode_crockford r' 16"
      by (intro less_append_same) simp_all
    then show ?thesis unfolding i i' mods(1,2) by (intro append_less_same)
  qed
  ultimately show ?thesis by auto
qed

end
