(* ===== verification/Privacy.thy ===== *)
theory Privacy
  imports Py_Any
begin

text \<open>
  The privacy policy of runtime events (\<^verbatim>\<open>src/promptrail/privacy/policy.py\<close>): which
  attributes may leave the process, and the bounded copy that is sent. The mutable item budget
  is passed through; the marker for a dropped value is \<open>None\<close>. A dictionary has distinct
  keys, so the number of items kept so far is the length of the output.
\<close>

section \<open>Policy\<close>

record privacy_policy =
  pv_mode :: string
  pv_max_depth :: int
  pv_max_items :: int
  pv_max_string_length :: int
  pv_max_total_attributes :: int

definition privacy_limits :: "privacy_policy \<Rightarrow> (string \<times> int) list" where
  "privacy_limits p = [(''max_depth'', pv_max_depth p), (''max_items'', pv_max_items p),
     (''max_string_length'', pv_max_string_length p), (''max_total_attributes'', pv_max_total_attributes p)]"

definition validate_privacy_policy :: "privacy_policy \<Rightarrow> privacy_policy result" where
  "validate_privacy_policy p =
     (if pv_mode p \<notin> {''metadata_only'', ''content''}
      then Inl (ValueError (''mode must be 'metadata_only' or 'content'' @ [CHR 0x27]))
      else case find (\<lambda>(name, n). n < 1) (privacy_limits p) of
        Some (name, _) \<Rightarrow> Inl (ValueError (name @ '' must be >= 1''))
      | None \<Rightarrow> Inr p)"

definition content_key_parts :: "string list" where
  "content_key_parts = [''prompt'', ''completion'', ''message'', ''messages'', ''body'', ''document'',
     ''documents'', ''content'', ''input'', ''output'', ''source'', ''code'', ''tool_input'', ''tool_output'',
     ''response'', ''statement'', ''url'']"

definition secret_key_parts :: "string list" where
  "secret_key_parts = [''api_key'', ''apikey'', ''authorization'', ''cookie'', ''credential'', ''password'', ''secret'']"

definition safe_metadata_suffixes :: "string list" where
  "safe_metadata_suffixes = [''_chars'', ''_count'', ''_duration_ms'', ''_hash'', ''_id'', ''_length'',
     ''_mime_type'', ''_model'', ''_name'', ''_size'', ''_size_bytes'', ''_status'', ''_tokens'', ''_type'',
     ''_method'', ''_operation'', ''_phase'', ''_provider'', ''_system'']"

definition safe_metadata_keys :: "string list" where
  "safe_metadata_keys = [''duration_ms'', ''error_type'', ''kind'', ''model'', ''name'', ''operation'', ''phase'',
     ''provider'', ''status'']"

definition safe_metadata_prefixes :: "string list" where
  "safe_metadata_prefixes = [''agent_'', ''branch_'', ''error_'', ''gen_ai_'', ''llm_'', ''otel_'', ''promptrail_'',
     ''retrieval_'', ''tool_'', ''workflow_'']"

section \<open>Which item may leave\<close>

definition normalized_key :: "string \<Rightarrow> string" where
  "normalized_key key = replace_char (CHR ''.'') ''_'' (replace_char (CHR ''-'') ''_'' (lower key))"

definition secret_key :: "string \<Rightarrow> bool" where
  "secret_key n = (list_ex (\<lambda>part. contains part n) secret_key_parts \<or> n = ''token'' \<or> is_suffix ''_token'' n)"

definition content_key :: "string \<Rightarrow> bool" where
  "content_key n = list_ex (\<lambda>part. contains part n) content_key_parts"

definition safe_suffix :: "string \<Rightarrow> bool" where
  "safe_suffix n = list_ex (\<lambda>suffix. is_suffix suffix n) safe_metadata_suffixes"

definition safe_key :: "string \<Rightarrow> bool" where
  "safe_key n = (n \<in> set safe_metadata_keys \<or> list_ex (\<lambda>prefix. is_prefix prefix n) safe_metadata_prefixes
     \<or> safe_suffix n)"

fun plain_value :: "pyany \<Rightarrow> bool" where
  "plain_value ANone = True"
| "plain_value (ABool b) = True"
| "plain_value (AInt i) = True"
| "plain_value (AFloat x) = True"
| "plain_value (AMap kvs) = True"
| "plain_value _ = False"

definition allows_item :: "privacy_policy \<Rightarrow> string \<Rightarrow> pyany \<Rightarrow> bool" where
  "allows_item p key v =
     (if pv_mode p = ''content'' then True
      else let n = normalized_key key in
        if secret_key n then False
        else if content_key n then safe_suffix n
        else if safe_key n then True
        else plain_value v)"

section \<open>The bounded copy\<close>

definition take_budget :: "int \<Rightarrow> bool \<times> int" where
  "take_budget b = (if b \<le> 0 then (False, b) else (True, b - 1))"

fun sanitize_value :: "privacy_policy \<Rightarrow> int \<Rightarrow> int \<Rightarrow> pyany \<Rightarrow> pyany option \<times> int"
  and sanitize_items :: "privacy_policy \<Rightarrow> int \<Rightarrow> int \<Rightarrow> int \<Rightarrow> attributes \<Rightarrow> attributes \<times> int"
  and sanitize_elements :: "privacy_policy \<Rightarrow> int \<Rightarrow> int \<Rightarrow> int \<Rightarrow> pyany list \<Rightarrow> pyany list \<times> int" where
  "sanitize_value p depth b ANone = (Some ANone, b)"
| "sanitize_value p depth b (ABool v) = (Some (ABool v), b)"
| "sanitize_value p depth b (AInt i) = (Some (AInt i), b)"
| "sanitize_value p depth b (AFloat x) = (if isfinite x then Some (AFloat x) else None, b)"
| "sanitize_value p depth b (AStr s) = (Some (AStr (slice_head (pv_max_string_length p) s)), b)"
| "sanitize_value p depth b (AMap kvs) =
     (if pv_max_depth p \<le> depth then (Some (AMap []), b)
      else case take_budget b of
        (False, b') \<Rightarrow> (Some (AMap []), b')
      | (True, b') \<Rightarrow> map_prod (\<lambda>out. Some (AMap out)) id (sanitize_items p depth b' 0 kvs))"
| "sanitize_value p depth b (AList xs) =
     (if pv_max_depth p \<le> depth then (Some (AList []), b)
      else map_prod (\<lambda>out. Some (AList out)) id (sanitize_elements p depth b 0 xs))"
| "sanitize_value p depth b (AObj t s) = (None, b)"
| "sanitize_items p depth b n [] = ([], b)"
| "sanitize_items p depth b n ((key, v) # kvs) =
     (if pv_max_items p \<le> n then ([], b)
      else case key of
        KObj _ \<Rightarrow> sanitize_items p depth b n kvs
      | KStr k \<Rightarrow>
          if \<not> allows_item p k v then sanitize_items p depth b n kvs
          else case take_budget b of
            (False, b') \<Rightarrow> ([], b')
          | (True, b') \<Rightarrow>
              (case sanitize_value p (depth + 1) b' v of
                 (None, b'') \<Rightarrow> sanitize_items p depth b'' n kvs
               | (Some w, b'') \<Rightarrow> map_prod (\<lambda>out. (KStr k, w) # out) id (sanitize_items p depth b'' (n + 1) kvs)))"
| "sanitize_elements p depth b n [] = ([], b)"
| "sanitize_elements p depth b n (v # vs) =
     (if pv_max_items p \<le> n then ([], b)
      else case take_budget b of
        (False, b') \<Rightarrow> ([], b')
      | (True, b') \<Rightarrow>
          (case sanitize_value p (depth + 1) b' v of
             (None, b'') \<Rightarrow> sanitize_elements p depth b'' (n + 1) vs
           | (Some w, b'') \<Rightarrow> map_prod (\<lambda>out. w # out) id (sanitize_elements p depth b'' (n + 1) vs)))"

definition sanitize_mapping :: "privacy_policy \<Rightarrow> int \<Rightarrow> int \<Rightarrow> attributes \<Rightarrow> attributes \<times> int" where
  "sanitize_mapping p depth b kvs =
     (if pv_max_depth p \<le> depth then ([], b)
      else case take_budget b of
        (False, b') \<Rightarrow> ([], b')
      | (True, b') \<Rightarrow> sanitize_items p depth b' 0 kvs)"

text \<open>A missing or empty mapping gives the empty one.\<close>

definition sanitize :: "privacy_policy \<Rightarrow> attributes \<Rightarrow> attributes" where
  "sanitize p attributes = (if attributes = [] then []
     else fst (sanitize_mapping p 0 (pv_max_total_attributes p) attributes))"

lemma sanitize_value_map: "sanitize_value p depth b (AMap kvs) = map_prod (\<lambda>out. Some (AMap out)) id (sanitize_mapping p depth b kvs)"
  by (simp add: sanitize_mapping_def split: prod.split bool.split)

end
