(* ===== verification/Privacy_Props.thy ===== *)
theory Privacy_Props
  imports Privacy
begin

text \<open>
  What leaves the process is bounded in every direction, carries no secret key, and is a fixed
  point of the policy. The three mutually recursive functions are treated by one induction each.
\<close>

section \<open>Bounds\<close>

fun entries :: "pyany \<Rightarrow> int" where
  "entries (AMap kvs) = sum_list (map (\<lambda>kv. 1 + entries (snd kv)) kvs)"
| "entries (AList xs) = sum_list (map (\<lambda>x. 1 + entries x) xs)"
| "entries _ = 0"

fun fits :: "privacy_policy \<Rightarrow> int \<Rightarrow> pyany \<Rightarrow> bool" where
  "fits p d (AMap kvs) = ((pv_max_depth p \<le> d \<longrightarrow> kvs = []) \<and> int (length kvs) \<le> pv_max_items p \<and>
     list_all (\<lambda>kv. (case fst kv of KStr k \<Rightarrow> allows_item p k (snd kv) | KObj _ \<Rightarrow> False) \<and> fits p (d + 1) (snd kv)) kvs)"
| "fits p d (AList xs) = ((pv_max_depth p \<le> d \<longrightarrow> xs = []) \<and> int (length xs) \<le> pv_max_items p \<and>
     list_all (fits p (d + 1)) xs)"
| "fits p d (AStr s) = (int (length s) \<le> pv_max_string_length p)"
| "fits p d (AFloat x) = isfinite x"
| "fits p d (AObj t s) = False"
| "fits p d _ = True"

definition limits_ok :: "privacy_policy \<Rightarrow> bool" where
  "limits_ok p \<longleftrightarrow> 0 \<le> pv_max_items p \<and> 0 \<le> pv_max_string_length p"

definition item_ok :: "privacy_policy \<Rightarrow> int \<Rightarrow> akey \<times> pyany \<Rightarrow> bool" where
  "item_ok p d kv \<longleftrightarrow> (case fst kv of KStr k \<Rightarrow> allows_item p k (snd kv) | KObj _ \<Rightarrow> False) \<and> fits p (d + 1) (snd kv)"

lemma fits_map: "fits p d (AMap kvs) \<longleftrightarrow> (pv_max_depth p \<le> d \<longrightarrow> kvs = []) \<and> int (length kvs) \<le> pv_max_items p \<and>
    list_all (item_ok p d) kvs"
  by (simp add: item_ok_def [abs_def])

lemma allows_item_plain: "plain_value w = plain_value v \<Longrightarrow> allows_item p k w = allows_item p k v"
  unfolding allows_item_def by simp

lemma take_budget_cases:
  obtains "b \<le> 0" "take_budget b = (False, b)" | "0 < b" "take_budget b = (True, b - 1)"
  by (cases "b \<le> 0") (auto simp: take_budget_def)

lemma sanitize_bounds:
  shows "limits_ok p \<Longrightarrow> 0 \<le> b \<Longrightarrow> sanitize_value p d b v = (r, b') \<Longrightarrow>
      0 \<le> b' \<and> b' \<le> b \<and> (\<forall>w. r = Some w \<longrightarrow> fits p d w \<and> entries w \<le> b - b' \<and> plain_value w = plain_value v)"
    and "limits_ok p \<Longrightarrow> 0 \<le> b \<Longrightarrow> sanitize_items p d b n kvs = (out, b') \<Longrightarrow>
      0 \<le> b' \<and> b' \<le> b \<and> list_all (item_ok p d) out \<and> int (length out) \<le> max 0 (pv_max_items p - n) \<and>
      entries (AMap out) \<le> b - b' \<and> set (map fst out) \<subseteq> set (map fst kvs) \<and>
      (distinct (map fst kvs) \<longrightarrow> distinct (map fst out))"
    and "limits_ok p \<Longrightarrow> 0 \<le> b \<Longrightarrow> sanitize_elements p d b n vs = (outs, b') \<Longrightarrow>
      0 \<le> b' \<and> b' \<le> b \<and> list_all (fits p (d + 1)) outs \<and> int (length outs) \<le> max 0 (pv_max_items p - n) \<and>
      entries (AList outs) \<le> b - b'"
proof (induction p d b v and p d b n kvs and p d b n vs arbitrary: r b' and out b' and outs b'
    rule: sanitize_value_sanitize_items_sanitize_elements.induct)
  case (5 p d b s)
  then show ?case by (auto simp: limits_ok_def intro: slice_head_length)
next
  case (6 p d b kvs)
  show ?case
  proof (cases "pv_max_depth p \<le> d")
    case True
    with 6 show ?thesis by (auto simp: limits_ok_def)
  next
    case deep: False
    show ?thesis
    proof (cases b rule: take_budget_cases)
      case 1
      with 6 deep show ?thesis by (auto simp: limits_ok_def)
    next
      case 2
      obtain out c where s: "sanitize_items p d (b - 1) 0 kvs = (out, c)" by (cases "sanitize_items p d (b - 1) 0 kvs")
      have r: "r = Some (AMap out)" "b' = c" using "6.prems"(3) deep 2 s by auto
      have "0 \<le> b - 1" using 2 by simp
      from "6.IH" [OF deep 2(2) [symmetric] refl \<open>limits_ok p\<close> this s] deep "6.prems"(1) show ?thesis
        unfolding r by (auto simp: limits_ok_def item_ok_def)
    qed
  qed
next
  case (7 p d b xs)
  show ?case
  proof (cases "pv_max_depth p \<le> d")
    case True
    with 7 show ?thesis by (auto simp: limits_ok_def)
  next
    case deep: False
    obtain out c where s: "sanitize_elements p d b 0 xs = (out, c)" by (cases "sanitize_elements p d b 0 xs")
    have r: "r = Some (AList out)" "b' = c" using "7.prems"(3) deep s by auto
    from "7.IH" [OF deep \<open>limits_ok p\<close> \<open>0 \<le> b\<close> s] deep "7.prems"(1) show ?thesis
      unfolding r by (auto simp: limits_ok_def)
  qed
next
  case (10 p d b n key v kvs)
  show ?case
  proof (cases "pv_max_items p \<le> n")
    case True
    with "10.prems" show ?thesis by auto
  next
    case few: False
    show ?thesis
    proof (cases key)
      case (KObj t)
      have "sanitize_items p d b n kvs = (out, b')" using "10.prems"(3) few KObj by simp
      from "10.IH"(5) [OF few KObj "10.prems"(1,2) this] show ?thesis by auto
    next
      case key: (KStr k)
      show ?thesis
      proof (cases "allows_item p k v")
        case False
        have "sanitize_items p d b n kvs = (out, b')" using "10.prems"(3) few key False by simp
        from "10.IH"(1) [OF few key False "10.prems"(1,2) this] show ?thesis by auto
      next
        case allowed: True
        show ?thesis
        proof (cases b rule: take_budget_cases)
          case 1
          with "10.prems" few key allowed show ?thesis by auto
        next
          case 2
          obtain r c where v: "sanitize_value p (d + 1) (b - 1) v = (r, c)"
            by (cases "sanitize_value p (d + 1) (b - 1) v")
          note defs = few key allowed 2 v
          have b1: "0 \<le> b - 1" using 2 by simp
          note V = "10.IH"(2) [OF few key _ 2(2) [symmetric] refl "10.prems"(1) b1 v, simplified allowed]
          show ?thesis
          proof (cases r)
            case None
            have "sanitize_items p d c n kvs = (out, b')" using "10.prems"(3) defs None by simp
            from "10.IH"(3) [OF few key _ 2(2) [symmetric] refl v [symmetric] None "10.prems"(1) _ this] V allowed
            show ?thesis by auto
          next
            case (Some w)
            obtain rest c' where rest: "sanitize_items p d c (n + 1) kvs = (rest, c')"
              by (cases "sanitize_items p d c (n + 1) kvs")
            have out: "out = (KStr k, w) # rest" "b' = c'" using "10.prems"(3) defs Some rest by auto
            have "allows_item p k w" using V allowed Some allows_item_plain [of w v p k] by simp
            with "10.IH"(4) [OF few key _ 2(2) [symmetric] refl v [symmetric] Some "10.prems"(1) _ rest] V allowed Some few
            show ?thesis unfolding out key by (auto simp: item_ok_def)
          qed
        qed
      qed
    qed
  qed
next
  case (12 p d b n v vs)
  show ?case
  proof (cases "pv_max_items p \<le> n")
    case True
    with "12.prems" show ?thesis by auto
  next
    case few: False
    show ?thesis
    proof (cases b rule: take_budget_cases)
      case 1
      with "12.prems" few show ?thesis by auto
    next
      case 2
      obtain r c where v: "sanitize_value p (d + 1) (b - 1) v = (r, c)"
        by (cases "sanitize_value p (d + 1) (b - 1) v")
      obtain rest c' where rest: "sanitize_elements p d c (n + 1) vs = (rest, c')"
        by (cases "sanitize_elements p d c (n + 1) vs")
      have b1: "0 \<le> b - 1" using 2 by simp
      note V = "12.IH"(1) [OF few 2(2) [symmetric] refl "12.prems"(1) b1 v]
      show ?thesis
      proof (cases r)
        case None
        have "outs = rest" "b' = c'" using "12.prems"(3) few 2 v rest None by auto
        with "12.IH"(2) [OF few 2(2) [symmetric] refl v [symmetric] None "12.prems"(1) _ rest] V None few
        show ?thesis by auto
      next
        case (Some w)
        have "outs = w # rest" "b' = c'" using "12.prems"(3) few 2 v rest Some by auto
        with "12.IH"(3) [OF few 2(2) [symmetric] refl v [symmetric] Some "12.prems"(1) _ rest] V Some few
        show ?thesis by auto
      qed
    qed
  qed
qed (auto split: if_splits)

section \<open>A copy is its own copy\<close>

lemma slice_head_again: "0 \<le> n \<Longrightarrow> slice_head n (slice_head n s) = slice_head n s"
  by (simp add: slice_head_def)

lemma sanitize_again:
  shows "limits_ok p \<Longrightarrow> 0 \<le> b \<Longrightarrow> b \<le> c \<Longrightarrow> sanitize_value p d b v = (Some w, b') \<Longrightarrow>
      \<exists>c'\<ge>b'. sanitize_value p d c w = (Some w, c')"
    and "limits_ok p \<Longrightarrow> 0 \<le> b \<Longrightarrow> b \<le> c \<Longrightarrow> sanitize_items p d b n kvs = (out, b') \<Longrightarrow>
      \<exists>c'\<ge>b'. sanitize_items p d c n out = (out, c')"
    and "limits_ok p \<Longrightarrow> 0 \<le> b \<Longrightarrow> b \<le> c \<Longrightarrow> m \<le> n \<Longrightarrow> sanitize_elements p d b n vs = (outs, b') \<Longrightarrow>
      \<exists>c'\<ge>b'. sanitize_elements p d c m outs = (outs, c')"
proof (induction p d b v and p d b n kvs and p d b n vs arbitrary: w b' c and out b' c and outs b' c m
    rule: sanitize_value_sanitize_items_sanitize_elements.induct)
  case (5 p d b s)
  then show ?case by (auto simp: limits_ok_def slice_head_again)
next
  case (6 p d b kvs)
  show ?case
  proof (cases "pv_max_depth p \<le> d")
    case True
    with 6 show ?thesis by auto
  next
    case deep: False
    show ?thesis
    proof (cases b rule: take_budget_cases)
      case 1
      with "6.prems" deep show ?thesis by (cases c rule: take_budget_cases) auto
    next
      case 2
      obtain out b1 where s: "sanitize_items p d (b - 1) 0 kvs = (out, b1)" by (cases "sanitize_items p d (b - 1) 0 kvs")
      have w: "w = AMap out" "b' = b1" using "6.prems"(4) deep 2 s by auto
      have c: "0 \<le> b - 1" "b - 1 \<le> c - 1" "0 < c" using 2 "6.prems"(3) by auto
      from "6.IH" [OF deep 2(2) [symmetric] refl "6.prems"(1) c(1,2) s] deep c(3) show ?thesis
        unfolding w by (auto simp: take_budget_def)
    qed
  qed
next
  case (7 p d b xs)
  show ?case
  proof (cases "pv_max_depth p \<le> d")
    case True
    with 7 show ?thesis by auto
  next
    case deep: False
    obtain out b1 where s: "sanitize_elements p d b 0 xs = (out, b1)" by (cases "sanitize_elements p d b 0 xs")
    have w: "w = AList out" "b' = b1" using "7.prems"(4) deep s by auto
    from "7.IH" [OF deep "7.prems"(1-3) order_refl s] deep show ?thesis unfolding w by auto
  qed
next
  case (10 p d b n key v kvs)
  show ?case
  proof (cases "pv_max_items p \<le> n")
    case True
    with "10.prems" show ?thesis by auto
  next
    case few: False
    show ?thesis
    proof (cases key)
      case (KObj t)
      have "sanitize_items p d b n kvs = (out, b')" using "10.prems"(4) few KObj by simp
      from "10.IH"(5) [OF few KObj "10.prems"(1-3) this] show ?thesis .
    next
      case key: (KStr k)
      show ?thesis
      proof (cases "allows_item p k v")
        case False
        have "sanitize_items p d b n kvs = (out, b')" using "10.prems"(4) few key False by simp
        from "10.IH"(1) [OF few key False "10.prems"(1-3) this] show ?thesis .
      next
        case allowed: True
        show ?thesis
        proof (cases b rule: take_budget_cases)
          case 1
          with "10.prems" few key allowed show ?thesis by auto
        next
          case 2
          obtain r b1 where v: "sanitize_value p (d + 1) (b - 1) v = (r, b1)"
            by (cases "sanitize_value p (d + 1) (b - 1) v")
          have b: "0 \<le> b - 1" "b - 1 \<le> c - 1" "0 < c" using 2 "10.prems"(3) by auto
          note V = sanitize_bounds(1) [OF "10.prems"(1) b(1) v]
          have yes: "\<not> \<not> allows_item p k v" using allowed by simp
          show ?thesis
          proof (cases r)
            case None
            have "sanitize_items p d b1 n kvs = (out, b')" using "10.prems"(4) few key allowed 2 v None by simp
            from "10.IH"(3) [OF few key yes 2(2) [symmetric] refl v [symmetric] None "10.prems"(1) _ _ this] V "10.prems"(3)
            show ?thesis by auto
          next
            case (Some w)
            obtain rest b2 where rest: "sanitize_items p d b1 (n + 1) kvs = (rest, b2)"
              by (cases "sanitize_items p d b1 (n + 1) kvs")
            have out: "out = (KStr k, w) # rest" "b' = b2" using "10.prems"(4) few key allowed 2 v Some rest by auto
            have w: "allows_item p k w" using V allowed Some allows_item_plain [of w v p k] by simp
            from "10.IH"(2) [OF few key yes 2(2) [symmetric] refl "10.prems"(1) b(1,2) v [unfolded Some]]
            obtain c1 where c1: "b1 \<le> c1" "sanitize_value p (d + 1) (c - 1) w = (Some w, c1)" by auto
            have "0 \<le> b1" using V by simp
            from "10.IH"(4) [OF few key yes 2(2) [symmetric] refl v [symmetric] Some "10.prems"(1) this c1(1) rest]
            show ?thesis unfolding out using few w b(3) c1 by (auto simp: take_budget_def)
          qed
        qed
      qed
    qed
  qed
next
  case (12 p d b n v vs)
  show ?case
  proof (cases "pv_max_items p \<le> n")
    case True
    with "12.prems" show ?thesis by auto
  next
    case few: False
    show ?thesis
    proof (cases b rule: take_budget_cases)
      case 1
      with "12.prems" few show ?thesis by auto
    next
      case 2
      obtain r b1 where v: "sanitize_value p (d + 1) (b - 1) v = (r, b1)"
        by (cases "sanitize_value p (d + 1) (b - 1) v")
      obtain rest b2 where rest: "sanitize_elements p d b1 (n + 1) vs = (rest, b2)"
        by (cases "sanitize_elements p d b1 (n + 1) vs")
      have b: "0 \<le> b - 1" "b - 1 \<le> c - 1" "0 < c" using 2 "12.prems"(3) by auto
      note V = sanitize_bounds(1) [OF "12.prems"(1) b(1) v]
      have b1: "0 \<le> b1" using V by simp
      show ?thesis
      proof (cases r)
        case None
        have out: "outs = rest" "b' = b2" using "12.prems"(5) few 2 v rest None by auto
        from "12.IH"(2) [OF few 2(2) [symmetric] refl v [symmetric] None "12.prems"(1) b1 _ _ rest, of c m] V "12.prems"(3,4)
        show ?thesis unfolding out by auto
      next
        case (Some w)
        have out: "outs = w # rest" "b' = b2" using "12.prems"(5) few 2 v rest Some by auto
        from "12.IH"(1) [OF few 2(2) [symmetric] refl "12.prems"(1) b(1,2) v [unfolded Some]]
        obtain c1 where c1: "b1 \<le> c1" "sanitize_value p (d + 1) (c - 1) w = (Some w, c1)" by auto
        have "m + 1 \<le> n + 1" using "12.prems"(4) by simp
        from "12.IH"(3) [OF few 2(2) [symmetric] refl v [symmetric] Some "12.prems"(1) b1 c1(1) this rest]
        show ?thesis unfolding out using few b(3) c1 "12.prems"(4) by (auto simp: take_budget_def)
      qed
    qed
  qed
qed (auto split: if_splits)

section \<open>Every item of a value\<close>

fun items_of :: "pyany \<Rightarrow> (akey \<times> pyany) list" where
  "items_of (AMap kvs) = kvs @ concat (map (\<lambda>kv. items_of (snd kv)) kvs)"
| "items_of (AList xs) = concat (map items_of xs)"
| "items_of _ = []"

lemma fits_items: "fits p d v \<Longrightarrow> (key, w) \<in> set (items_of v) \<Longrightarrow> \<exists>k. key = KStr k \<and> allows_item p k w"
proof (induction v arbitrary: d rule: items_of.induct)
  case (1 kvs)
  have ok: "item_ok p d kv" if "kv \<in> set kvs" for kv
    using "1.prems"(1) that unfolding fits_map list_all_iff by blast
  from "1.prems"(2) consider "(key, w) \<in> set kvs" | kv where "kv \<in> set kvs" "(key, w) \<in> set (items_of (snd kv))"
    by auto
  then show ?case
  proof cases
    case 1
    from ok [OF this] show ?thesis by (auto simp: item_ok_def split: akey.splits)
  next
    case 2
    from "1.IH" [OF 2(1) _ 2(2)] ok [OF 2(1)] show ?thesis by (auto simp: item_ok_def)
  qed
qed (auto simp: list_all_iff)

lemma valid_limits: "validate_privacy_policy p = Inr p' \<Longrightarrow> p' = p \<and> limits_ok p \<and> 1 \<le> pv_max_total_attributes p \<and>
    pv_mode p \<in> {''metadata_only'', ''content''}"
  by (auto simp: validate_privacy_policy_def privacy_limits_def limits_ok_def split: if_splits)

lemma sanitize_mapping_bounds:
  assumes "limits_ok p" "0 \<le> b" "sanitize_mapping p d b kvs = (out, b')"
  shows "fits p d (AMap out) \<and> entries (AMap out) \<le> max 0 (b - 1) \<and>
    set (map fst out) \<subseteq> set (map fst kvs) \<and> (distinct (map fst kvs) \<longrightarrow> distinct (map fst out))"
proof (cases "pv_max_depth p \<le> d")
  case True
  with assms show ?thesis by (auto simp: sanitize_mapping_def limits_ok_def)
next
  case deep: False
  show ?thesis
  proof (cases b rule: take_budget_cases)
    case 1
    with assms deep show ?thesis by (auto simp: sanitize_mapping_def limits_ok_def)
  next
    case 2
    with assms(3) deep have s: "sanitize_items p d (b - 1) 0 kvs = (out, b')" by (simp add: sanitize_mapping_def)
    have "0 \<le> b - 1" using 2 by simp
    from sanitize_bounds(2) [OF assms(1) this s] deep assms(1) show ?thesis
      unfolding fits_map by (simp add: limits_ok_def)
  qed
qed

lemma sanitize_within:
  assumes "validate_privacy_policy p = Inr p'"
  shows "fits p 0 (AMap (sanitize p attributes)) \<and> entries (AMap (sanitize p attributes)) < pv_max_total_attributes p \<and>
    set (map fst (sanitize p attributes)) \<subseteq> set (map fst attributes) \<and>
    (distinct (map fst attributes) \<longrightarrow> distinct (map fst (sanitize p attributes)))"
proof (cases "attributes = []")
  case True
  with valid_limits [OF assms] show ?thesis by (simp add: sanitize_def limits_ok_def)
next
  case False
  obtain out b where s: "sanitize_mapping p 0 (pv_max_total_attributes p) attributes = (out, b)"
    by (cases "sanitize_mapping p 0 (pv_max_total_attributes p) attributes")
  from sanitize_mapping_bounds [OF _ _ s] valid_limits [OF assms] s False show ?thesis by (simp add: sanitize_def)
qed

section \<open>Properties\<close>

definition sample_policy :: privacy_policy where
  "sample_policy = \<lparr>pv_mode = ''metadata_only'', pv_max_depth = 2, pv_max_items = 2, pv_max_string_length = 3,
     pv_max_total_attributes = 9\<rparr>"

definition sample_attributes :: attributes where
  "sample_attributes = [(KStr ''prompt'', AStr ''hello''), (KStr ''tool_name'', AStr ''search''),
     (KStr ''api_key'', AInt 1), (KStr ''scope'', AMap [(KStr ''prompt_tokens'', AInt 7), (KStr ''note'', AStr ''x'')]),
     (KStr ''score'', AInt 3)]"

lemma sample_valid: "validate_privacy_policy sample_policy = Inr sample_policy"
  by code_simp

text \<open>
  What leaves is bounded in every direction. Whatever the attributes are, the
  sanitised copy has fewer entries in all than the total limit, no mapping or list in it is
  longer or nested deeper than its limit, every string is cut to its limit, every float is
  finite, nothing but plain data is left, and its top-level keys are distinct keys of the input.
\<close>

lemma sanitized_bounded:
  assumes "validate_privacy_policy p = Inr p'" "distinct (map fst attributes)"
  shows "fits p 0 (AMap (sanitize p attributes)) \<and> entries (AMap (sanitize p attributes)) < pv_max_total_attributes p \<and>
    set (map fst (sanitize p attributes)) \<subseteq> set (map fst attributes) \<and> distinct (map fst (sanitize p attributes))"
  using sanitize_within [OF assms(1), of attributes] assms(2) by simp

text \<open>
  In the metadata-only mode no secret and no content key leaves: for every item at
  any level of the sanitised copy, the key is a text that is no secret key, a content key is
  left only with a suffix that marks metadata, and a text or a list is left only under a key
  that is known to be metadata.
\<close>

lemma metadata_only_items:
  assumes "validate_privacy_policy p = Inr p'" "pv_mode p = ''metadata_only''"
    and "(key, v) \<in> set (items_of (AMap (sanitize p attributes)))"
  shows "\<exists>k. key = KStr k \<and> \<not> secret_key (normalized_key k) \<and>
    (content_key (normalized_key k) \<longrightarrow> safe_suffix (normalized_key k)) \<and>
    (\<not> plain_value v \<longrightarrow> safe_key (normalized_key k))"
proof -
  from sanitize_within [OF assms(1), of attributes] fits_items [OF _ assms(3), of p 0]
  obtain k where "key = KStr k" "allows_item p k v" by blast
  moreover from this(2) assms(2) have "\<not> secret_key (normalized_key k) \<and>
      (content_key (normalized_key k) \<longrightarrow> safe_suffix (normalized_key k)) \<and>
      (\<not> plain_value v \<longrightarrow> safe_key (normalized_key k))"
    by (auto simp: allows_item_def Let_def safe_key_def split: if_splits)
  ultimately show ?thesis by blast
qed

text \<open>
  Sanitising is idempotent: a copy that already went through the policy is
  returned as it is, so events may be sanitised again on the way.
\<close>

lemma sanitize_idempotent:
  assumes "validate_privacy_policy p = Inr p'"
  shows "sanitize p (sanitize p attributes) = sanitize p attributes"
proof (cases "sanitize p attributes = []")
  case False
  then have attributes: "attributes \<noteq> []" by (auto simp: sanitize_def)
  note ok = valid_limits [OF assms]
  let ?n = "pv_max_total_attributes p"
  have limits: "limits_ok p" "0 \<le> ?n" using ok by auto
  obtain out b where s: "sanitize_mapping p 0 ?n attributes = (out, b)" by (cases "sanitize_mapping p 0 ?n attributes")
  have out: "sanitize p attributes = out" using s attributes by (simp add: sanitize_def)
  have "sanitize_value p 0 ?n (AMap attributes) = (Some (AMap out), b)" by (simp only: sanitize_value_map s) simp
  from sanitize_again(1) [OF limits order_refl this]
  obtain c where "map_prod (\<lambda>out. Some (AMap out)) id (sanitize_mapping p 0 ?n out) = (Some (AMap out), c)"
    by (auto simp only: sanitize_value_map)
  then have "fst (sanitize_mapping p 0 ?n out) = out" by (cases "sanitize_mapping p 0 ?n out") auto
  with False show ?thesis unfolding out by (simp add: sanitize_def)
qed (simp add: sanitize_def)

end
