(* ===== verification/Classifier.thy ===== *)
theory Classifier
  imports Py_Any
begin

text \<open>
  Span classification (\<^verbatim>\<open>src/promptrail/tracing/classifier.py\<close>): semantic attributes
  first, then the words of the span's name, and \<^verbatim>\<open>other\<close> without evidence. The
  first argument is a mapping of attributes, an object with the fields \<^verbatim>\<open>attributes\<close> and
  \<^verbatim>\<open>name\<close> (\<open>None\<close> and the empty text when it has none), or a name.
\<close>

section \<open>Vocabulary\<close>

datatype span_input =
    OfAttributes attributes
  | OfSpan pyany pyany
  | OfName string

definition class_names :: "string list" where
  "class_names = [''agent'', ''tool'', ''retrieval'', ''llm'', ''workflow'', ''branch'', ''other'']"

definition llm_systems :: "string list" where
  "llm_systems = [''anthropic'', ''azure.ai.inference'', ''bedrock'', ''cohere'', ''gemini'', ''gen_ai'', ''mistral'',
     ''ollama'', ''openai'', ''vertex_ai'']"

definition retrieval_systems :: "string list" where
  "retrieval_systems = [''chroma'', ''elasticsearch'', ''milvus'', ''pinecone'', ''qdrant'', ''redis'', ''vector'',
     ''weaviate'']"

definition text_of :: "pyany \<Rightarrow> string" where
  "text_of v = (if v = ANone then [] else lower (strip (any_str v)))"

fun span_attributes :: "span_input \<Rightarrow> attributes" where
  "span_attributes (OfAttributes a) = a"
| "span_attributes (OfSpan (AMap a) n) = a"
| "span_attributes _ = []"

fun span_name :: "span_input \<Rightarrow> string" where
  "span_name (OfName s) = s"
| "span_name (OfSpan a n) = text_of n"
| "span_name (OfAttributes a) = []"

text \<open>\<open>a.get(k1) or a.get(k2) or ...\<close>\<close>

fun first_of :: "attributes \<Rightarrow> string list \<Rightarrow> pyany" where
  "first_of a [] = ANone"
| "first_of a [k] = aget a k"
| "first_of a (k # l # ks) = aor (aget a k) (first_of a (l # ks))"

definition explicit_kind :: "attributes \<Rightarrow> string" where
  "explicit_kind a = text_of (first_of a [''promptrail.span.type'', ''promptrail.span.kind'', ''promptrail.kind'',
     ''llm.span.kind'', ''span.kind''])"

definition operation_of :: "attributes \<Rightarrow> string" where
  "operation_of a = text_of (first_of a [''gen_ai.operation.name'', ''ai.operation.name'', ''llm.operation''])"

definition system_of :: "attributes \<Rightarrow> string" where
  "system_of a = text_of (first_of a [''gen_ai.system'', ''llm.system'', ''db.system''])"

section \<open>Classification\<close>

text \<open>The kinds a present attribute, or a word of the name, stands for, in the order of the tests.\<close>

definition key_evidence :: "(string list \<times> string) list" where
  "key_evidence =
     [([''gen_ai.request.model'', ''gen_ai.response.model'', ''llm.model_name'', ''ai.model.id''], ''llm''),
      ([''tool.name'', ''tool.call.id'', ''function.name'', ''gen_ai.tool.name''], ''tool''),
      ([''retrieval.query'', ''retrieval.documents'', ''db.vector.query'', ''vector.top_k''], ''retrieval''),
      ([''agent.name'', ''agent.id'', ''ai.agent.name''], ''agent''),
      ([''workflow.name'', ''workflow.id'', ''job.name'', ''task.name''], ''workflow''),
      ([''branch.name'', ''branch.id'', ''decision.branch''], ''branch'')]"

definition word_evidence :: "(string list \<times> string) list" where
  "word_evidence =
     [([''agent'', ''planner'', ''executor''], ''agent''),
      ([''tool'', ''function''], ''tool''),
      ([''retrieve'', ''retrieval'', ''rerank'', ''search''], ''retrieval''),
      ([''llm'', ''chat'', ''completion'', ''embedding'', ''openai'', ''anthropic''], ''llm''),
      ([''workflow'', ''pipeline'', ''run''], ''workflow''),
      ([''branch'', ''route'', ''decision''], ''branch'')]"

fun first_kind :: "(string \<Rightarrow> bool) \<Rightarrow> (string list \<times> string) list \<Rightarrow> string option" where
  "first_kind p [] = None"
| "first_kind p ((ws, kind) # rest) = (if list_ex p ws then Some kind else first_kind p rest)"

definition semantic_kind :: "attributes \<Rightarrow> string option" where
  "semantic_kind a =
     (if explicit_kind a \<in> set class_names then Some (explicit_kind a)
      else let operation = operation_of a; system = system_of a in
      if operation \<in> {''chat'', ''completion'', ''embeddings'', ''generate'', ''invoke''} then Some ''llm''
      else if operation \<in> {''execute_tool'', ''tool'', ''function_call''} then Some ''tool''
      else if operation \<in> {''retrieve'', ''search'', ''query''} then Some ''retrieval''
      else if system \<in> set llm_systems \<or> is_prefix ''openai'' system then Some ''llm''
      else if system \<in> set retrieval_systems then Some ''retrieval''
      else first_kind (has_key a) key_evidence)"

definition name_words :: "string \<Rightarrow> string list" where
  "name_words s = split_ws (replace_char (CHR ''-'') '' '' (replace_char (CHR ''_'') '' '' (replace_char (CHR ''.'') '' '' s)))"

definition name_kind :: "string \<Rightarrow> string option" where
  "name_kind s = first_kind (\<lambda>w. w \<in> set (name_words s)) word_evidence"

definition classify_span :: "span_input \<Rightarrow> pyany \<Rightarrow> string" where
  "classify_span inp name =
     (case semantic_kind (span_attributes inp) of
        Some kind \<Rightarrow> kind
      | None \<Rightarrow>
          let given = text_of name;
              s = (if given \<noteq> [] then given else span_name inp)
          in (case name_kind s of Some kind \<Rightarrow> kind | None \<Rightarrow> ''other''))"

section \<open>Lemmas\<close>

lemma first_kind_in: "first_kind p evidence = Some kind \<Longrightarrow> kind \<in> snd ` set evidence"
  by (induction p evidence rule: first_kind.induct) (auto split: if_splits)

lemma evidence_classes: "snd ` set key_evidence \<subseteq> set class_names" "snd ` set word_evidence \<subseteq> set class_names"
  by (simp_all add: key_evidence_def word_evidence_def class_names_def)

lemma literal_classes: "''llm'' \<in> set class_names" "''tool'' \<in> set class_names" "''retrieval'' \<in> set class_names"
    "''other'' \<in> set class_names"
  by (simp_all add: class_names_def)

lemma if_Some_class: "(if c then Some k else r) = Some kind \<Longrightarrow> (c \<Longrightarrow> k \<in> A) \<Longrightarrow> (r = Some kind \<Longrightarrow> kind \<in> A) \<Longrightarrow> kind \<in> A"
  by (cases c) auto

lemma semantic_kind_class: "semantic_kind a = Some kind \<Longrightarrow> kind \<in> set class_names"
proof -
  have keys: "first_kind (has_key a) key_evidence = Some kind \<Longrightarrow> kind \<in> set class_names"
    using evidence_classes(1) first_kind_in by blast
  assume "semantic_kind a = Some kind"
  then show ?thesis unfolding semantic_kind_def Let_def
    by (elim if_Some_class) (assumption | rule literal_classes | erule keys)+
qed

lemma name_kind_class: "name_kind s = Some kind \<Longrightarrow> kind \<in> set class_names"
  using evidence_classes(2) first_kind_in unfolding name_kind_def by blast

lemma classify_class: "classify_span inp name \<in> set class_names"
proof (cases "semantic_kind (span_attributes inp)")
  case (Some kind)
  then show ?thesis using semantic_kind_class by (simp add: classify_span_def)
next
  case None
  then show ?thesis using name_kind_class literal_classes(4)
    by (simp add: classify_span_def Let_def split: option.split)
qed

end
