(* ===== verification/Py_Url.thy ===== *)
theory Py_Url
  imports Py_Any
begin

text \<open>
  \<^verbatim>\<open>urllib.parse.urlsplit\<close> with the parts the program reads, and \<^verbatim>\<open>quote\<close>.
  Whether a host in square brackets is an address is the question the \<^verbatim>\<open>ipaddress\<close>
  module answers; its answer is the parameter \<open>v6\<close>. In the range of characters of this
  development the compatibility normalisation that the library checks finds nothing.
\<close>

record split_url =
  url_scheme :: string
  url_netloc :: string
  url_path :: string
  url_query :: string
  url_fragment :: string

definition scheme_char :: "char \<Rightarrow> bool" where
  "scheme_char c = (is_ascii_letter c \<or> is_digit c \<or> c \<in> set ''+-.'')"

text \<open>\<open>s.partition(c)\<close> without the separator, and whether it was found.\<close>

definition partition_at :: "char \<Rightarrow> string \<Rightarrow> string \<times> bool \<times> string" where
  "partition_at c s = (takeWhile (\<lambda>d. d \<noteq> c) s, c \<in> set s, drop 1 (dropWhile (\<lambda>d. d \<noteq> c) s))"

text \<open>Characters up to the space are cut off in front; tabs and line ends vanish.\<close>

definition clean_url :: "string \<Rightarrow> string" where
  "clean_url s = filter (\<lambda>c. code c \<notin> {9, 10, 13}) (dropWhile (\<lambda>c. code c \<le> 32) s)"

definition split_scheme :: "string \<Rightarrow> string \<times> string" where
  "split_scheme s = (case partition_at (CHR '':'') s of (before_colon, found, rest) \<Rightarrow>
     if found \<and> before_colon \<noteq> [] \<and> is_ascii_letter (hd before_colon) \<and> list_all scheme_char before_colon
     then (lower before_colon, rest) else ([], s))"

definition bad_brackets :: "(string \<Rightarrow> bool) \<Rightarrow> string \<Rightarrow> bool" where
  "bad_brackets v6 netloc =
     ((CHR ''['' \<in> set netloc) \<noteq> (CHR '']'' \<in> set netloc) \<or>
      (CHR ''['' \<in> set netloc \<and> \<not> v6 netloc))"

definition urlsplit :: "(string \<Rightarrow> bool) \<Rightarrow> string \<Rightarrow> split_url result" where
  "urlsplit v6 url =
     (case split_scheme (clean_url url) of (scheme, rest) \<Rightarrow>
      let has_netloc = is_prefix ''//'' rest;
          netloc = (if has_netloc then takeWhile (\<lambda>c. c \<notin> set ''/?#'') (drop 2 rest) else []);
          rest' = (if has_netloc then dropWhile (\<lambda>c. c \<notin> set ''/?#'') (drop 2 rest) else rest)
      in if bad_brackets v6 netloc then Inl (ValueError ''Invalid IPv6 URL'')
         else case partition_at (CHR ''#'') rest' of (before_hash, _, fragment) \<Rightarrow>
           (case partition_at (CHR ''?'') before_hash of (path, _, query) \<Rightarrow>
              Inr \<lparr>url_scheme = scheme, url_netloc = netloc, url_path = path, url_query = query,
                   url_fragment = fragment\<rparr>))"

text \<open>The text after the last \<^verbatim>\<open>@\<close> of the network location, its host and port texts.\<close>

definition host_info :: "string \<Rightarrow> string" where
  "host_info netloc = rev (takeWhile (\<lambda>c. c \<noteq> CHR ''@'') (rev netloc))"

definition host_port :: "string \<Rightarrow> string \<times> string" where
  "host_port netloc =
     (case partition_at (CHR ''['') (host_info netloc) of (_, bracket, rest) \<Rightarrow>
      if bracket then
        (case partition_at (CHR '']'') rest of (host, _, after_bracket) \<Rightarrow>
           (case partition_at (CHR '':'') after_bracket of (_, _, port) \<Rightarrow> (host, port)))
      else (case partition_at (CHR '':'') (host_info netloc) of (host, _, port) \<Rightarrow> (host, port)))"

definition url_hostname :: "split_url \<Rightarrow> string option" where
  "url_hostname u = (let host = fst (host_port (url_netloc u)) in
     if host = [] then None
     else case partition_at (CHR ''%'') host of (name, zoned, zone) \<Rightarrow>
       Some (if zoned then lower name @ ''%'' @ zone else lower name))"

definition url_port :: "split_url \<Rightarrow> int option result" where
  "url_port u = (let port = snd (host_port (url_netloc u)) in
     if port = [] then Inr None
     else if \<not> list_all is_digit port then Inl (ValueError (''Port could not be cast to integer value as '' @ str_repr port))
     else let n = int (digits_value 10 (map digit_value port))
       in if n \<le> 65535 then Inr (Some n) else Inl (ValueError ''Port out of range 0-65535''))"

text \<open>\<open>quote(s, safe=...)\<close>: every other byte of the UTF-8 text is written as a percent sign and two digits.\<close>

definition upper_hex :: "nat \<Rightarrow> char" where
  "upper_hex n = (if n < 10 then char_of (48 + n) else char_of (55 + n))"

definition quote_char :: "string \<Rightarrow> char \<Rightarrow> string" where
  "quote_char safe c =
     (if is_ascii_letter c \<or> is_digit c \<or> c \<in> set ''_.-~'' \<or> (c \<in> set safe \<and> code c < 128) then [c]
      else [CHR ''%'', upper_hex (code c div 16), upper_hex (code c mod 16)])"

definition quote :: "string \<Rightarrow> string \<Rightarrow> string" where
  "quote safe s = concat (map (quote_char safe) (utf8_encode s))"

end
