(* ===== verification/Config.thy ===== *)
theory Config
  imports Py_Url Privacy
begin

text \<open>
  The configuration of the runtime SDK (\<^verbatim>\<open>src/promptrail/config.py\<close>): its fields, the
  validation that runs on construction, and the resolution of the user. The user is absent, a
  text, a resolver whose call may raise, or some other value.
\<close>

datatype user_source =
    NoUser
  | FixedUser string
  | Resolver "pyany result"
  | OtherUser

record runtime_config =
  cf_api_key :: "string option"
  cf_application :: "string option"
  cf_environment :: "string option"
  cf_user_id :: user_source
  cf_privacy_mode :: string
  cf_debug :: bool
  cf_gateway_url :: string
  cf_runtime_events_endpoint :: string
  cf_export_enabled :: bool
  cf_enable_opentelemetry :: bool
  cf_max_queue_size :: int
  cf_export_batch_size :: int
  cf_export_flush_interval :: pyfloat
  cf_export_shutdown_timeout :: pyfloat
  cf_export_timeout :: pyfloat
  cf_export_gzip :: bool
  cf_max_export_retries :: int
  cf_sdk_version :: string
  cf_max_attribute_depth :: int
  cf_max_attribute_items :: int
  cf_max_string_length :: int
  cf_max_total_attributes :: int

definition blank :: "string option \<Rightarrow> bool" where
  "blank t = (case t of None \<Rightarrow> False | Some s \<Rightarrow> strip s = [])"

definition local_hosts :: "string list" where
  "local_hosts = [''localhost'', ''127.0.0.1'', ''::1'']"

definition check_url :: "(string \<Rightarrow> bool) \<Rightarrow> string \<Rightarrow> string \<Rightarrow> unit result" where
  "check_url v6 field_name url =
     rbind (urlsplit v6 url) (\<lambda>parsed.
       if url_scheme parsed \<notin> {''http'', ''https''} \<or> url_netloc parsed = []
       then Inl (ValueError (field_name @ '' must be an absolute HTTP(S) URL''))
       else if url_scheme parsed \<noteq> ''https'' \<and> url_hostname parsed \<notin> Some ` set local_hosts
       then Inl (ValueError (field_name @ '' must use HTTPS outside localhost''))
       else Inr ())"

definition config_counts :: "runtime_config \<Rightarrow> (string \<times> int) list" where
  "config_counts c =
     [(''max_attribute_depth'', cf_max_attribute_depth c), (''max_attribute_items'', cf_max_attribute_items c),
      (''max_string_length'', cf_max_string_length c), (''max_total_attributes'', cf_max_total_attributes c),
      (''max_queue_size'', cf_max_queue_size c), (''export_batch_size'', cf_export_batch_size c),
      (''max_export_retries'', cf_max_export_retries c)]"

definition config_times :: "runtime_config \<Rightarrow> (string \<times> pyfloat) list" where
  "config_times c =
     [(''export_flush_interval'', cf_export_flush_interval c), (''export_shutdown_timeout'', cf_export_shutdown_timeout c),
      (''export_timeout'', cf_export_timeout c)]"

definition validate_runtime_config :: "(string \<Rightarrow> bool) \<Rightarrow> runtime_config \<Rightarrow> runtime_config result" where
  "validate_runtime_config v6 c =
     (if blank (cf_api_key c) then Inl (ValueError ''api_key must be non-empty when provided'')
      else if blank (cf_application c) then Inl (ValueError ''application must be non-empty when provided'')
      else if blank (cf_environment c) then Inl (ValueError ''environment must be non-empty when provided'')
      else if (case cf_user_id c of FixedUser s \<Rightarrow> strip s = [] | _ \<Rightarrow> False)
      then Inl (ValueError ''user_id must be non-empty when provided'')
      else if cf_user_id c = OtherUser then Inl (TypeError ''user_id must be a string, callable, or None'')
      else if cf_privacy_mode c \<notin> {''metadata_only'', ''content''}
      then Inl (ValueError (''privacy_mode must be 'metadata_only' or 'content'' @ [CHR 0x27]))
      else
        rbind (check_url v6 ''gateway_url'' (cf_gateway_url c)) (\<lambda>_.
        rbind (check_url v6 ''runtime_events_endpoint'' (cf_runtime_events_endpoint c)) (\<lambda>_.
        case find (\<lambda>(name, n). n < 1) (config_counts c) of
          Some (name, _) \<Rightarrow> Inl (ValueError (name @ '' must be >= 1''))
        | None \<Rightarrow>
            (case find (\<lambda>(name, x). x \<le> Fin 0) (config_times c) of
               Some (name, _) \<Rightarrow> Inl (ValueError (name @ '' must be > 0''))
             | None \<Rightarrow> Inr c))))"

definition endpoint :: "runtime_config \<Rightarrow> string" where
  "endpoint c = cf_runtime_events_endpoint c"

definition resolve_user_id :: "runtime_config \<Rightarrow> string option result" where
  "resolve_user_id c = (case cf_user_id c of
     NoUser \<Rightarrow> Inr None
   | FixedUser s \<Rightarrow> Inr (Some s)
   | Resolver r \<Rightarrow> rbind r (\<lambda>v. case v of AStr s \<Rightarrow> Inr (if s \<noteq> [] then Some s else None) | _ \<Rightarrow> Inr None)
   | OtherUser \<Rightarrow> Inr None)"

text \<open>The privacy policy of a client; a valid configuration gives a valid policy.\<close>

definition privacy_of :: "runtime_config \<Rightarrow> privacy_policy" where
  "privacy_of c = \<lparr>pv_mode = cf_privacy_mode c, pv_max_depth = cf_max_attribute_depth c,
     pv_max_items = cf_max_attribute_items c, pv_max_string_length = cf_max_string_length c,
     pv_max_total_attributes = cf_max_total_attributes c\<rparr>"

lemma config_valid:
  assumes "validate_runtime_config v6 c = Inr c'"
  shows "c' = c \<and> (\<forall>(name, n)\<in>set (config_counts c). 1 \<le> n) \<and> cf_privacy_mode c \<in> {''metadata_only'', ''content''} \<and>
    (\<forall>(name, x)\<in>set (config_times c). \<not> x \<le> Fin 0) \<and> check_url v6 ''gateway_url'' (cf_gateway_url c) = Inr () \<and>
    check_url v6 ''runtime_events_endpoint'' (cf_runtime_events_endpoint c) = Inr ()"
  using assms unfolding validate_runtime_config_def
  by (auto simp del: rbind_Inr_iff simp: find_None_all rbind_Inr_iff split: if_split_asm option.split_asm)

lemma privacy_of_valid: "validate_runtime_config v6 c = Inr c' \<Longrightarrow> validate_privacy_policy (privacy_of c) = Inr (privacy_of c)"
  using config_valid [of v6 c c']
  by (auto simp: validate_privacy_policy_def privacy_limits_def privacy_of_def config_counts_def)

lemma check_url_ok: "check_url v6 name url = Inr () \<Longrightarrow> \<exists>u. urlsplit v6 url = Inr u \<and> url_netloc u \<noteq> [] \<and>
    (url_scheme u = ''https'' \<or> url_scheme u = ''http'' \<and> url_hostname u \<in> Some ` set local_hosts)"
  by (auto simp: check_url_def split: if_split_asm)

end
