(* ===== verification/Runtime_Context.thy ===== *)
theory Runtime_Context
  imports Config Ids
begin

text \<open>
  Context-local identity and run scopes (\<^verbatim>\<open>src/promptrail/context/runtime.py\<close>). The two
  context variables, the installed configuration and the installed lifecycle callbacks are one
  state; a token of a context variable is the value it had before. What a callback does is
  user code: the state records that it was called, and nothing it raises gets out.
\<close>

section \<open>State\<close>

record runtime_context =
  rx_user_id :: "string option"
  rx_run_id :: "string option"
  rx_trace_id :: "string option"
  rx_span_id :: "string option"
  rx_parent_span_id :: "string option"

definition empty_context :: runtime_context where
  "empty_context = \<lparr>rx_user_id = None, rx_run_id = None, rx_trace_id = None, rx_span_id = None, rx_parent_span_id = None\<rparr>"

datatype lifecycle_call =
    OnRunStart runtime_context
  | OnRunEnd runtime_context bool

text \<open>Which callbacks are installed.\<close>

record lifecycle_callbacks =
  lc_on_run_start :: bool
  lc_on_run_end :: bool

record runtime_state =
  rn_context :: "runtime_context option"
  rn_user :: "string option"
  rn_config :: "runtime_config option"
  rn_callbacks :: lifecycle_callbacks
  rn_calls :: "lifecycle_call list"

definition no_callbacks :: lifecycle_callbacks where
  "no_callbacks = \<lparr>lc_on_run_start = False, lc_on_run_end = False\<rparr>"

definition initial_runtime :: runtime_state where
  "initial_runtime = \<lparr>rn_context = None, rn_user = None, rn_config = None, rn_callbacks = no_callbacks, rn_calls = []\<rparr>"

definition set_runtime_config :: "runtime_config option \<Rightarrow> runtime_state \<Rightarrow> runtime_state" where
  "set_runtime_config config st = st\<lparr>rn_config := config\<rparr>"

definition set_lifecycle_callbacks :: "lifecycle_callbacks option \<Rightarrow> runtime_state \<Rightarrow> runtime_state" where
  "set_lifecycle_callbacks callbacks st =
     st\<lparr>rn_callbacks := (case callbacks of None \<Rightarrow> no_callbacks | Some c \<Rightarrow> c)\<rparr>"

section \<open>Reading\<close>

text \<open>\<open>a or b\<close> on optional texts: the empty text counts as absent.\<close>

definition oor :: "string option \<Rightarrow> string option \<Rightarrow> string option" where
  "oor a b = (case a of None \<Rightarrow> b | Some s \<Rightarrow> if s = [] then b else a)"

definition configured_user :: "runtime_state \<Rightarrow> string option" where
  "configured_user st = (case rn_config st of
     None \<Rightarrow> None
   | Some c \<Rightarrow> (case resolve_user_id c of Inl _ \<Rightarrow> None | Inr u \<Rightarrow> u))"

definition current_user_id :: "runtime_state \<Rightarrow> string option" where
  "current_user_id st =
     (case rn_context st of
        Some c \<Rightarrow> if present (rx_user_id c) then rx_user_id c
                  else if present (rn_user st) then rn_user st else configured_user st
      | None \<Rightarrow> if present (rn_user st) then rn_user st else configured_user st)"

definition current_context :: "runtime_state \<Rightarrow> runtime_context" where
  "current_context st = (case rn_context st of
     Some c \<Rightarrow> c
   | None \<Rightarrow> empty_context\<lparr>rx_user_id := current_user_id st\<rparr>)"

definition current_run_id :: "runtime_state \<Rightarrow> string option" where
  "current_run_id st = rx_run_id (current_context st)"

definition current_trace_id :: "runtime_state \<Rightarrow> string option" where
  "current_trace_id st = rx_trace_id (current_context st)"

definition current_span_id :: "runtime_state \<Rightarrow> string option" where
  "current_span_id st = rx_span_id (current_context st)"

definition current_parent_span_id :: "runtime_state \<Rightarrow> string option" where
  "current_parent_span_id st = rx_parent_span_id (current_context st)"

section \<open>Run scopes\<close>

record run_scope =
  sc_context :: runtime_context
  sc_owns_lifecycle :: bool
  sc_token :: "runtime_context option option"

text \<open>
  \<open>given\<close> holds the keyword arguments, \<open>trace_run_id\<close> the run of the current trace, and
  \<open>fresh\<close> the identifier that \<^verbatim>\<open>secure_id\<close> would return.
\<close>

definition new_scope :: "string option \<Rightarrow> string \<Rightarrow> runtime_context \<Rightarrow> runtime_state \<Rightarrow> run_scope" where
  "new_scope trace_run_id fresh given st =
     (let parent = current_context st;
          context = \<lparr>rx_user_id = oor (rx_user_id given) (oor (rx_user_id parent) (current_user_id st)),
            rx_run_id = oor trace_run_id (oor (rx_run_id given) (oor (rx_run_id parent) (Some fresh))),
            rx_trace_id = oor (rx_trace_id given) (rx_trace_id parent),
            rx_span_id = oor (rx_span_id given) (rx_span_id parent),
            rx_parent_span_id = oor (rx_parent_span_id given) (rx_parent_span_id parent)\<rparr>
      in \<lparr>sc_context = context,
          sc_owns_lifecycle = (trace_run_id = None \<and> rx_run_id context \<noteq> rx_run_id parent),
          sc_token = None\<rparr>)"

definition safe_start :: "run_scope \<Rightarrow> runtime_state \<Rightarrow> runtime_state" where
  "safe_start sc st =
     (if \<not> sc_owns_lifecycle sc \<or> \<not> lc_on_run_start (rn_callbacks st) then st
      else st\<lparr>rn_calls := rn_calls st @ [OnRunStart (sc_context sc)]\<rparr>)"

definition safe_end :: "run_scope \<Rightarrow> bool \<Rightarrow> runtime_state \<Rightarrow> runtime_state" where
  "safe_end sc failed st =
     (if \<not> sc_owns_lifecycle sc \<or> \<not> lc_on_run_end (rn_callbacks st) then st
      else st\<lparr>rn_calls := rn_calls st @ [OnRunEnd (sc_context sc) failed]\<rparr>)"

definition enter_scope :: "run_scope \<Rightarrow> runtime_state \<Rightarrow> run_scope \<times> runtime_state" where
  "enter_scope sc st =
     (let sc' = sc\<lparr>sc_token := Some (rn_context st)\<rparr>
      in (sc', safe_start sc' (st\<lparr>rn_context := Some (sc_context sc)\<rparr>)))"

definition exit_scope :: "run_scope \<Rightarrow> bool \<Rightarrow> runtime_state \<Rightarrow> runtime_state" where
  "exit_scope sc failed st =
     (let st' = safe_end sc failed st
      in case sc_token sc of None \<Rightarrow> st' | Some old \<Rightarrow> st'\<lparr>rn_context := old\<rparr>)"

text \<open>
  \<^verbatim>\<open>with run(...): body\<close>; the body returns whether it raised, and a raise is passed on.
\<close>

definition with_run :: "string option \<Rightarrow> string \<Rightarrow> runtime_context \<Rightarrow> (runtime_state \<Rightarrow> bool \<times> runtime_state) \<Rightarrow>
    runtime_state \<Rightarrow> bool \<times> runtime_state" where
  "with_run trace_run_id fresh given body st =
     (case enter_scope (new_scope trace_run_id fresh given st) st of (sc, st1) \<Rightarrow>
      (case body st1 of (failed, st2) \<Rightarrow> (failed, exit_scope sc failed st2)))"

definition contextual_user :: "string option \<Rightarrow> (runtime_state \<Rightarrow> bool \<times> runtime_state) \<Rightarrow> runtime_state \<Rightarrow>
    bool \<times> runtime_state" where
  "contextual_user user_id body st =
     (case body (st\<lparr>rn_user := user_id\<rparr>) of (failed, st') \<Rightarrow> (failed, st'\<lparr>rn_user := rn_user st\<rparr>))"

definition bind_runtime_context :: "runtime_context \<Rightarrow> runtime_state \<Rightarrow> runtime_context option \<times> runtime_state" where
  "bind_runtime_context c st = (rn_context st, st\<lparr>rn_context := Some c\<rparr>)"

definition reset_runtime_context :: "runtime_context option \<Rightarrow> runtime_state \<Rightarrow> runtime_state" where
  "reset_runtime_context token st = st\<lparr>rn_context := token\<rparr>"

definition clear_runtime_context :: "runtime_state \<Rightarrow> runtime_state" where
  "clear_runtime_context st = st\<lparr>rn_context := None\<rparr>"

definition ensure_implicit_run :: "string \<Rightarrow> runtime_state \<Rightarrow> runtime_context \<times> runtime_state" where
  "ensure_implicit_run fresh st =
     (let current = current_context st
      in if present (rx_run_id current) then (current, st)
         else let implicit = current\<lparr>rx_run_id := Some fresh\<rparr>
              in (implicit, st\<lparr>rn_context := Some implicit\<rparr>))"

text \<open>
  A submitted task runs with the values the context variables had at submission, and leaves
  the variables of the thread that runs it as they are.
\<close>

definition submit_with_context :: "runtime_state \<Rightarrow> (runtime_state \<Rightarrow> 'a \<times> runtime_state) \<Rightarrow> runtime_state \<Rightarrow>
    'a \<times> runtime_state" where
  "submit_with_context submitted fn st =
     (case fn (st\<lparr>rn_context := rn_context submitted, rn_user := rn_user submitted\<rparr>) of (result, st') \<Rightarrow>
        (result, st'\<lparr>rn_context := rn_context st, rn_user := rn_user st\<rparr>))"

section \<open>Lemmas\<close>

lemma present_Some: "present (Some s) \<longleftrightarrow> s \<noteq> []"
  by (simp add: present_def)

lemma oor_present: "present b \<Longrightarrow> present (oor a b)"
  by (auto simp: oor_def present_def split: option.splits)

lemma oor_first: "present a \<Longrightarrow> oor a b = a"
  by (auto simp: oor_def present_def split: option.splits)

lemma oor_second: "\<not> present a \<Longrightarrow> oor a b = b"
  by (auto simp: oor_def present_def split: option.splits)

lemma safe_frames [simp]:
  "rn_context (safe_start sc st) = rn_context st" "rn_user (safe_start sc st) = rn_user st"
  "rn_callbacks (safe_start sc st) = rn_callbacks st" "rn_config (safe_start sc st) = rn_config st"
  "rn_context (safe_end sc f st) = rn_context st" "rn_user (safe_end sc f st) = rn_user st"
  "rn_callbacks (safe_end sc f st) = rn_callbacks st" "rn_config (safe_end sc f st) = rn_config st"
  by (simp_all add: safe_start_def safe_end_def)

lemma new_scope_fresh [simp]: "sc_token (new_scope t fresh given st) = None"
  by (simp add: new_scope_def Let_def)

text \<open>The variables a body sees, and what the whole block leaves behind.\<close>

lemma with_run_eq:
  assumes "sc = new_scope t fresh given st" "body (safe_start sc (st\<lparr>rn_context := Some (sc_context sc)\<rparr>)) = (failed, st2)"
  shows "with_run t fresh given body st = (failed, (safe_end sc failed st2)\<lparr>rn_context := rn_context st\<rparr>)"
proof -
  have "safe_start (sc\<lparr>sc_token := x\<rparr>) s = safe_start sc s" "safe_end (sc\<lparr>sc_token := x\<rparr>) failed s = safe_end sc failed s" for x s
    by (simp_all add: safe_start_def safe_end_def)
  with assms(2) show ?thesis
    by (simp add: with_run_def enter_scope_def exit_scope_def Let_def flip: assms(1))
qed

section \<open>Property of run scopes\<close>

text \<open>
  A script of nested blocks: \<^verbatim>\<open>with run(...)\<close>, \<^verbatim>\<open>with contextual_user(...)\<close>, the
  functions that set the context directly, sequencing that stops at a raise, and a raise.
\<close>

datatype script =
    Skip
  | Raise
  | Then script script
  | InRun "string option" string runtime_context script
  | AsUser "string option" script
  | Implicit string
  | Bind runtime_context
  | Clear

primrec exec :: "script \<Rightarrow> runtime_state \<Rightarrow> bool \<times> runtime_state" where
  "exec Skip st = (False, st)"
| "exec Raise st = (True, st)"
| "exec (Then a b) st = (case exec a st of (True, st') \<Rightarrow> (True, st') | (False, st') \<Rightarrow> exec b st')"
| "exec (InRun t fresh given body) st = with_run t fresh given (exec body) st"
| "exec (AsUser u body) st = contextual_user u (exec body) st"
| "exec (Implicit fresh) st = (False, snd (ensure_implicit_run fresh st))"
| "exec (Bind c) st = (False, snd (bind_runtime_context c st))"
| "exec Clear st = (False, clear_runtime_context st)"

inductive balanced :: "lifecycle_call list \<Rightarrow> bool" where
  b_none: "balanced []"
| b_both: "balanced xs \<Longrightarrow> balanced ys \<Longrightarrow> balanced (xs @ ys)"
| b_run: "balanced xs \<Longrightarrow> balanced (OnRunStart c # xs @ [OnRunEnd c failed])"

definition both_callbacks :: "runtime_state \<Rightarrow> bool" where
  "both_callbacks st \<longleftrightarrow> lc_on_run_start (rn_callbacks st) \<and> lc_on_run_end (rn_callbacks st)"

lemma exec_balanced:
  "both_callbacks st \<Longrightarrow> exec s st = (failed, st') \<Longrightarrow>
     both_callbacks st' \<and> rn_user st' = rn_user st \<and> (\<exists>calls. rn_calls st' = rn_calls st @ calls \<and> balanced calls)"
proof (induction s arbitrary: st failed st')
  case (Then a b)
  obtain f1 st1 where a: "exec a st = (f1, st1)" by (cases "exec a st")
  from Then.IH(1) [OF Then.prems(1) a] obtain xs
    where 1: "both_callbacks st1" "rn_user st1 = rn_user st" "rn_calls st1 = rn_calls st @ xs" "balanced xs" by blast
  show ?case
  proof (cases f1)
    case True
    with Then.prems(2) a 1 show ?thesis by auto
  next
    case False
    with Then.prems(2) a have "exec b st1 = (failed, st')" by simp
    from Then.IH(2) [OF 1(1) this] 1 show ?thesis by (auto intro: b_both)
  qed
next
  case (InRun t fresh given body)
  define sc where "sc = new_scope t fresh given st"
  define st1 where "st1 = safe_start sc (st\<lparr>rn_context := Some (sc_context sc)\<rparr>)"
  obtain f2 st2 where b: "exec body st1 = (f2, st2)" by (cases "exec body st1")
  have both1: "both_callbacks st1" using InRun.prems(1) by (simp add: both_callbacks_def st1_def)
  from InRun.IH [OF both1 b] obtain xs
    where 2: "both_callbacks st2" "rn_user st2 = rn_user st1" "rn_calls st2 = rn_calls st1 @ xs" "balanced xs" by blast
  have w: "st' = (safe_end sc f2 st2)\<lparr>rn_context := rn_context st\<rparr>"
    using InRun.prems(2) with_run_eq [where body = "exec body", OF sc_def b [unfolded st1_def]] by auto
  have "\<exists>calls. rn_calls st' = rn_calls st @ calls \<and> balanced calls"
  proof (cases "sc_owns_lifecycle sc")
    case True
    have "rn_calls st' = rn_calls st @ (OnRunStart (sc_context sc) # xs @ [OnRunEnd (sc_context sc) f2])"
      using InRun.prems(1) 2(1,3) True by (simp add: w safe_end_def st1_def safe_start_def both_callbacks_def)
    then show ?thesis using b_run [OF 2(4)] by blast
  next
    case False
    then show ?thesis using 2(3,4) by (simp add: w safe_end_def st1_def safe_start_def)
  qed
  moreover have "both_callbacks st'" "rn_user st' = rn_user st"
    using 2(1,2) by (simp_all add: w both_callbacks_def) (simp add: st1_def)
  ultimately show ?case by blast
next
  case (AsUser u body)
  obtain f2 st2 where b: "exec body (st\<lparr>rn_user := u\<rparr>) = (f2, st2)" by (cases "exec body (st\<lparr>rn_user := u\<rparr>)")
  have "both_callbacks (st\<lparr>rn_user := u\<rparr>)" using AsUser.prems(1) by (simp add: both_callbacks_def)
  from AsUser.IH [OF this b] AsUser.prems(2) b show ?case
    by (auto simp: contextual_user_def both_callbacks_def)
qed (auto simp: both_callbacks_def ensure_implicit_run_def bind_runtime_context_def clear_runtime_context_def Let_def
    intro: b_none)



end
