(* ===== verification/Canonical.thy ===== *)
theory Canonical
  imports Runtime_Context
begin

text \<open>
  The canonical runtime event (\<^verbatim>\<open>src/promptrail/tracing/canonical.py\<close>): its type, its
  construction from the current identity, and its dictionary. The fresh identifier and the
  clock of the default fields are arguments.
\<close>

datatype event_type =
    RUN_START | RUN_END | AGENT_START | AGENT_END | TOOL_START | TOOL_END | RETRIEVAL_START | RETRIEVAL_END
  | LLM_START | LLM_END | BRANCH_START | BRANCH_END | ERROR | OTHER_START | OTHER_END | WORKFLOW_START | WORKFLOW_END

fun event_type_value :: "event_type \<Rightarrow> string" where
  "event_type_value RUN_START = ''run.start''"
| "event_type_value RUN_END = ''run.end''"
| "event_type_value AGENT_START = ''agent.start''"
| "event_type_value AGENT_END = ''agent.end''"
| "event_type_value TOOL_START = ''tool.start''"
| "event_type_value TOOL_END = ''tool.end''"
| "event_type_value RETRIEVAL_START = ''retrieval.start''"
| "event_type_value RETRIEVAL_END = ''retrieval.end''"
| "event_type_value LLM_START = ''llm.start''"
| "event_type_value LLM_END = ''llm.end''"
| "event_type_value BRANCH_START = ''branch.start''"
| "event_type_value BRANCH_END = ''branch.end''"
| "event_type_value ERROR = ''error''"
| "event_type_value OTHER_START = ''other.start''"
| "event_type_value OTHER_END = ''other.end''"
| "event_type_value WORKFLOW_START = ''workflow.start''"
| "event_type_value WORKFLOW_END = ''workflow.end''"

datatype event_name = Known event_type | Text string

fun normalize_event_type :: "event_name \<Rightarrow> string result" where
  "normalize_event_type (Known t) = Inr (event_type_value t)"
| "normalize_event_type (Text s) =
     (if strip s = [] then Inl (ValueError ''event type must be a non-empty string or EventType'')
      else Inr (slice_head 128 (strip s)))"

definition schema_version :: string where
  "schema_version = ''1.0''"

record promptrail_event =
  ev_type :: event_name
  ev_run_id :: string
  ev_user_id :: "string option"
  ev_trace_id :: "string option"
  ev_span_id :: "string option"
  ev_parent_span_id :: "string option"
  ev_name :: "string option"
  ev_status :: "string option"
  ev_attributes :: attributes
  ev_event_id :: string
  ev_timestamp_ms :: int
  ev_schema_version :: string

definition default_privacy :: privacy_policy where
  "default_privacy = \<lparr>pv_mode = ''metadata_only'', pv_max_depth = 4, pv_max_items = 50, pv_max_string_length = 2048,
     pv_max_total_attributes = 200\<rparr>"

text \<open>\<open>runtime\<close> is the given context or, without one, the current one.\<close>

definition event_from_context :: "string \<Rightarrow> int \<Rightarrow> event_name \<Rightarrow> runtime_context \<Rightarrow> string option \<Rightarrow> string option \<Rightarrow>
    attributes \<Rightarrow> privacy_policy option \<Rightarrow> promptrail_event result" where
  "event_from_context event_id now_ms kind runtime name status attributes privacy =
     (case rx_run_id runtime of
        None \<Rightarrow> Inl (ValueError ''run_id is required for runtime events'')
      | Some run_id \<Rightarrow>
          if run_id = [] then Inl (ValueError ''run_id is required for runtime events'')
          else Inr \<lparr>ev_type = kind, ev_run_id = run_id, ev_user_id = rx_user_id runtime,
            ev_trace_id = rx_trace_id runtime, ev_span_id = rx_span_id runtime,
            ev_parent_span_id = rx_parent_span_id runtime, ev_name = name, ev_status = status,
            ev_attributes = sanitize (case privacy of None \<Rightarrow> default_privacy | Some p \<Rightarrow> p) attributes,
            ev_event_id = event_id, ev_timestamp_ms = now_ms, ev_schema_version = schema_version\<rparr>)"

fun any_text :: "string option \<Rightarrow> pyany" where
  "any_text None = ANone"
| "any_text (Some s) = AStr s"

definition cut_text :: "int \<Rightarrow> string option \<Rightarrow> pyany" where
  "cut_text n t = (if present t then AStr (slice_head n (the t)) else ANone)"

definition to_json_dict :: "promptrail_event \<Rightarrow> attributes result" where
  "to_json_dict e =
     rbind (normalize_event_type (ev_type e)) (\<lambda>kind.
     Inr [(KStr ''schema_version'', AStr (ev_schema_version e)), (KStr ''event_id'', AStr (ev_event_id e)),
       (KStr ''run_id'', AStr (ev_run_id e)), (KStr ''user_id'', any_text (ev_user_id e)),
       (KStr ''trace_id'', any_text (ev_trace_id e)), (KStr ''span_id'', any_text (ev_span_id e)),
       (KStr ''parent_span_id'', any_text (ev_parent_span_id e)), (KStr ''type'', AStr kind),
       (KStr ''name'', cut_text 512 (ev_name e)), (KStr ''timestamp_ms'', AInt (ev_timestamp_ms e)),
       (KStr ''status'', cut_text 64 (ev_status e)), (KStr ''attributes'', AMap (ev_attributes e))])"

text \<open>\<^verbatim>\<open>event(...)\<close> of the module.\<close>

definition new_event :: "string \<Rightarrow> int \<Rightarrow> event_name \<Rightarrow> string option \<Rightarrow> string option \<Rightarrow> attributes \<Rightarrow>
    runtime_context option \<Rightarrow> privacy_policy option \<Rightarrow> runtime_state \<Rightarrow> promptrail_event result" where
  "new_event event_id now_ms kind name status attributes context privacy st =
     event_from_context event_id now_ms kind (case context of None \<Rightarrow> current_context st | Some c \<Rightarrow> c)
       name status attributes privacy"

lemma default_privacy_valid: "validate_privacy_policy default_privacy = Inr default_privacy"
  by code_simp

lemma event_from_context_Inr:
  "event_from_context i t kind rx name status attributes privacy = Inr e \<Longrightarrow>
     rx_run_id rx = Some (ev_run_id e) \<and> ev_run_id e \<noteq> [] \<and> ev_type e = kind \<and> ev_event_id e = i \<and> ev_timestamp_ms e = t \<and>
     ev_trace_id e = rx_trace_id rx \<and> ev_user_id e = rx_user_id rx \<and>
     ev_attributes e = sanitize (case privacy of None \<Rightarrow> default_privacy | Some p \<Rightarrow> p) attributes"
  by (auto simp: event_from_context_def split: option.splits if_splits)

end
