(* ===== verification/Span_Processor.thy ===== *)
theory Span_Processor
  imports Classifier Canonical
begin

text \<open>
  The OpenTelemetry bridge (\<^verbatim>\<open>src/promptrail/tracing/opentelemetry.py\<close>): the registry
  that ties traces and spans to runs, and the span processor. What the tracing library tells of
  a span is a record; the callbacks of the processor are the notes that an operation returns, in
  the order of the calls. \<open>active_run\<close> and \<open>active_user\<close> are the identity current when a
  span starts, \<open>fresh\<close> is what the run identifier factory would return.
\<close>

section \<open>State\<close>

record span_registry =
  sg_trace_run :: "(string, string) dict"
  sg_span_parent :: "(string, string option) dict"
  sg_span_trace :: "(string, string) dict"
  sg_span_run :: "(string, string) dict"
  sg_span_user :: "(string, string option) dict"
  sg_span_started :: "(string, bool) dict"
  sg_active :: "(string, int) dict"
  sg_root_ended :: "string set"

definition empty_registry :: span_registry where
  "empty_registry = \<lparr>sg_trace_run = [], sg_span_parent = [], sg_span_trace = [], sg_span_run = [], sg_span_user = [],
     sg_span_started = [], sg_active = [], sg_root_ended = {}\<rparr>"

text \<open>
  The parent of a span: none, an object with a span identifier, or a context in which the
  library finds a current span (or fails).
\<close>

datatype parent_ref = NoParent | ParentSpan pyany | ParentContext "pyany option"

record otel_span =
  sn_trace_id :: pyany
  sn_span_id :: pyany
  sn_parent :: parent_ref
  sn_name :: pyany
  sn_attributes :: pyany
  sn_status :: pyany
  sn_event_names :: "pyany list"
  sn_start_time :: pyany
  sn_end_time :: pyany

datatype notice =
    NRunStart string string
  | NEvent attributes
  | NRunEnd string string

section \<open>Identifiers\<close>

fun show_hex :: "nat \<Rightarrow> string" where
  "show_hex n = (if n < 16 then [hex_digit n] else show_hex (n div 16) @ [hex_digit (n mod 16)])"

declare show_hex.simps [simp del]

definition hex_text :: "nat \<Rightarrow> nat \<Rightarrow> string" where
  "hex_text w n = (let ds = show_hex n in slice_tail (int w) (replicate (w - length ds) (CHR ''0'') @ ds))"

definition format_id :: "nat \<Rightarrow> pyany \<Rightarrow> string option" where
  "format_id w v = (case any_int v of
     Inl _ \<Rightarrow> None
   | Inr i \<Rightarrow> if i \<le> 0 then None else Some (hex_text w (nat i)))"

definition format_trace_id :: "pyany \<Rightarrow> string option" where
  "format_trace_id = format_id 32"

definition format_span_id :: "pyany \<Rightarrow> string option" where
  "format_span_id = format_id 16"

fun parent_span_id :: "parent_ref \<Rightarrow> string option" where
  "parent_span_id NoParent = None"
| "parent_span_id (ParentSpan v) = format_span_id v"
| "parent_span_id (ParentContext None) = None"
| "parent_span_id (ParentContext (Some v)) = format_span_id v"

section \<open>Events\<close>

fun as_int :: "pyany \<Rightarrow> int option" where
  "as_int (AInt i) = Some i"
| "as_int (ABool b) = Some (if b then 1 else 0)"
| "as_int _ = None"

definition span_duration :: "otel_span \<Rightarrow> attributes" where
  "span_duration sp = (case (as_int (sn_start_time sp), as_int (sn_end_time sp)) of
     (Some s, Some e) \<Rightarrow> if s \<le> e then [(KStr ''duration_ms'', AFloat (fl (of_int (e - s) / 1000000)))] else []
   | _ \<Rightarrow> [])"

definition span_event :: "otel_span \<Rightarrow> string \<Rightarrow> string \<Rightarrow> string \<Rightarrow> string option \<Rightarrow> string \<Rightarrow> string option \<Rightarrow> attributes" where
  "span_event sp phase trace_id span_id parent run_id user_id =
     (let attributes = (case sn_attributes sp of AMap a \<Rightarrow> a | _ \<Rightarrow> [])
      in [(KStr ''type'', AStr (''otel.span.'' @ phase)), (KStr ''phase'', AStr phase), (KStr ''run_id'', AStr run_id),
          (KStr ''user_id'', any_text user_id), (KStr ''trace_id'', AStr trace_id), (KStr ''span_id'', AStr span_id),
          (KStr ''parent_span_id'', any_text parent), (KStr ''name'', sn_name sp),
          (KStr ''kind'', AStr (classify_span (OfAttributes attributes) (sn_name sp))),
          (KStr ''status'', if sn_status sp = ANone then ANone else AStr (any_str (sn_status sp))),
          (KStr ''has_error'', ABool (AStr ''exception'' \<in> set (sn_event_names sp))),
          (KStr ''attributes'', AMap attributes)] @ span_duration sp)"

section \<open>The processor\<close>

text \<open>The run of a starting span, the registry with it, and whether the span starts the run.\<close>

definition resolve_run :: "string option \<Rightarrow> string \<Rightarrow> string \<Rightarrow> string option \<Rightarrow> span_registry \<Rightarrow>
    string \<times> bool \<times> span_registry" where
  "resolve_run active_run fresh trace_id parent reg =
     (let inherited = (case parent of
            None \<Rightarrow> None | Some p \<Rightarrow> if p = [] then None else dict_get (sg_span_run reg) p);
          set_run = (\<lambda>r. reg\<lparr>sg_trace_run := dict_set trace_id r (sg_trace_run reg)\<rparr>)
      in case oor (dict_get (sg_trace_run reg) trace_id) inherited of
           Some run_id \<Rightarrow> (run_id, False, reg)
         | None \<Rightarrow> if present active_run then (the active_run, False, set_run (the active_run))
                    else (fresh, parent = None, set_run fresh))"

definition register_span :: "string \<Rightarrow> string \<Rightarrow> string option \<Rightarrow> string \<Rightarrow> string option \<Rightarrow> bool \<Rightarrow> span_registry \<Rightarrow>
    span_registry" where
  "register_span trace_id span_id parent run_id user started reg =
     reg\<lparr>sg_span_parent := dict_set span_id parent (sg_span_parent reg),
         sg_span_trace := dict_set span_id trace_id (sg_span_trace reg),
         sg_span_run := dict_set span_id run_id (sg_span_run reg),
         sg_span_user := dict_set span_id user (sg_span_user reg),
         sg_span_started := dict_set span_id started (sg_span_started reg),
         sg_active := dict_set trace_id ((case dict_get (sg_active reg) trace_id of None \<Rightarrow> 0 | Some n \<Rightarrow> n) + 1)
           (sg_active reg)\<rparr>"

definition on_start :: "string option \<Rightarrow> string option \<Rightarrow> string \<Rightarrow> otel_span \<Rightarrow> span_registry \<Rightarrow>
    notice list \<times> span_registry" where
  "on_start active_run active_user fresh sp reg =
     (case (format_trace_id (sn_trace_id sp), format_span_id (sn_span_id sp)) of
        (Some trace_id, Some span_id) \<Rightarrow>
          let parent = parent_span_id (sn_parent sp)
          in (case resolve_run active_run fresh trace_id parent reg of (run_id, started, reg') \<Rightarrow>
                ((if started then [NRunStart run_id trace_id] else []) @
                   [NEvent (span_event sp ''start'' trace_id span_id parent run_id active_user)],
                 register_span trace_id span_id parent run_id active_user started reg'))
      | _ \<Rightarrow> ([], reg))"

text \<open>The last open span of a trace takes the trace out of the registry.\<close>

definition forget_span :: "string \<Rightarrow> string \<Rightarrow> span_registry \<Rightarrow> bool \<times> span_registry" where
  "forget_span trace_id span_id reg =
     (let started = (case dict_get (sg_span_started reg) span_id of None \<Rightarrow> False | Some b \<Rightarrow> b);
          root_ended = (if started then insert trace_id (sg_root_ended reg) else sg_root_ended reg);
          active = max 0 ((case dict_get (sg_active reg) trace_id of None \<Rightarrow> 1 | Some n \<Rightarrow> n) - 1);
          reg' = reg\<lparr>sg_span_parent := dict_pop span_id (sg_span_parent reg),
            sg_span_trace := dict_pop span_id (sg_span_trace reg),
            sg_span_run := dict_pop span_id (sg_span_run reg),
            sg_span_user := dict_pop span_id (sg_span_user reg),
            sg_span_started := dict_pop span_id (sg_span_started reg)\<rparr>
      in (trace_id \<in> root_ended \<and> active = 0,
          if active \<noteq> 0 then reg'\<lparr>sg_root_ended := root_ended, sg_active := dict_set trace_id active (sg_active reg)\<rparr>
          else reg'\<lparr>sg_root_ended := root_ended - {trace_id}, sg_active := dict_pop trace_id (sg_active reg),
                 sg_trace_run := dict_pop trace_id (sg_trace_run reg)\<rparr>))"

definition on_end :: "string \<Rightarrow> otel_span \<Rightarrow> span_registry \<Rightarrow> notice list \<times> span_registry" where
  "on_end fresh sp reg =
     (case (format_trace_id (sn_trace_id sp), format_span_id (sn_span_id sp)) of
        (Some trace_id, Some span_id) \<Rightarrow>
          let run_id = the (oor (dict_get (sg_span_run reg) span_id)
                (oor (dict_get (sg_trace_run reg) trace_id) (Some fresh)));
              user_id = (case dict_get (sg_span_user reg) span_id of None \<Rightarrow> None | Some u \<Rightarrow> u);
              parent = (case dict_get (sg_span_parent reg) span_id of None \<Rightarrow> None | Some p \<Rightarrow> p)
          in (case forget_span trace_id span_id reg of (should_end_run, reg') \<Rightarrow>
                ([NEvent (span_event sp ''end'' trace_id span_id parent run_id user_id)] @
                   (if should_end_run then [NRunEnd run_id trace_id] else []), reg'))
      | _ \<Rightarrow> ([], reg))"

section \<open>The current trace\<close>

record trace_snapshot =
  ts_trace_id :: "string option"
  ts_span_id :: "string option"
  ts_parent_span_id :: "string option"
  ts_run_id :: "string option"

text \<open>\<open>current\<close> holds the identifiers of the library's current span; \<open>None\<close> if asking fails.\<close>

definition current_trace_snapshot :: "(pyany \<times> pyany) option \<Rightarrow> span_registry \<Rightarrow> trace_snapshot" where
  "current_trace_snapshot current reg = (case current of
     None \<Rightarrow> \<lparr>ts_trace_id = None, ts_span_id = None, ts_parent_span_id = None, ts_run_id = None\<rparr>
   | Some (t, s) \<Rightarrow>
       let trace_id = format_trace_id t; span_id = format_span_id s
       in \<lparr>ts_trace_id = trace_id, ts_span_id = span_id,
           ts_parent_span_id = (case span_id of None \<Rightarrow> None
              | Some i \<Rightarrow> (case dict_get (sg_span_parent reg) i of None \<Rightarrow> None | Some p \<Rightarrow> p)),
           ts_run_id = (case trace_id of None \<Rightarrow> None | Some i \<Rightarrow> dict_get (sg_trace_run reg) i)\<rparr>)"

definition ensure_current_trace_run :: "trace_snapshot \<Rightarrow> string \<Rightarrow> string option \<Rightarrow> span_registry \<Rightarrow>
    (string \<times> bool) \<times> span_registry" where
  "ensure_current_trace_run snap run_id user_id reg =
     (case ts_trace_id snap of
        None \<Rightarrow> ((run_id, False), reg)
      | Some trace_id \<Rightarrow>
          if trace_id = [] then ((run_id, False), reg)
          else
          let existing = (case ts_span_id snap of
                None \<Rightarrow> dict_get (sg_trace_run reg) trace_id
              | Some span_id \<Rightarrow> if span_id = [] then dict_get (sg_trace_run reg) trace_id
                  else oor (dict_get (sg_trace_run reg) trace_id) (dict_get (sg_span_run reg) span_id))
          in if present existing then ((the existing, False), reg)
             else
               let reg' = reg\<lparr>sg_trace_run := dict_set trace_id run_id (sg_trace_run reg)\<rparr>
               in ((run_id, True),
                   case ts_span_id snap of
                     None \<Rightarrow> reg'
                   | Some span_id \<Rightarrow> if span_id = [] then reg'
                       else register_span trace_id span_id (ts_parent_span_id snap) run_id user_id True reg'))"

end
