(* ===== verification/Span_Props.thy ===== *)
theory Span_Props
  imports Span_Processor
begin

text \<open>
  The span registry over any history in which a span starts once and ends after its start: a
  step relation over the registry, the open spans (with their traces) and the calls made so
  far, and the invariant that ties them together. A span that was open before the bridge was
  installed enters by \<^verbatim>\<open>ensure_current_trace_run\<close>. The calls are listed in the order of
  the critical sections that decide them; the code makes each after it has released the lock.
  Every callback that the client installs returns (\<^verbatim>\<open>observe_otel_event\<close> and \<^verbatim>\<open>emit\<close>
  catch what they raise), so a callback that raises, after which the processor would skip the
  remaining ones of the same span, is not modelled.
\<close>

section \<open>Histories\<close>

type_synonym history = "span_registry \<times> (string, string) dict \<times> notice list"

text \<open>
  Documented behaviour of OpenTelemetry: a span is in the trace of its parent. So a parent that
  is open here is open in the trace of the span that starts.
\<close>

definition parent_in_trace :: "otel_span \<Rightarrow> string \<Rightarrow> (string, string) dict \<Rightarrow> bool" where
  "parent_in_trace sp t opened = (case parent_span_id (sn_parent sp) of
     None \<Rightarrow> True | Some p \<Rightarrow> dict_get opened p \<in> {None, Some t})"

inductive span_step :: "history \<Rightarrow> history \<Rightarrow> bool" where
  sp_start: "format_trace_id (sn_trace_id sp) = Some t \<Longrightarrow> format_span_id (sn_span_id sp) = Some s \<Longrightarrow>
    dict_get opened s = None \<Longrightarrow> parent_in_trace sp t opened \<Longrightarrow> fresh \<noteq> [] \<Longrightarrow> on_start run user fresh sp reg = (ns, reg') \<Longrightarrow>
    span_step (reg, opened, calls) (reg', (s, t) # opened, calls @ ns)"
| sp_end: "format_trace_id (sn_trace_id sp) = Some t \<Longrightarrow> format_span_id (sn_span_id sp) = Some s \<Longrightarrow>
    dict_get opened s = Some t \<Longrightarrow> on_end fresh sp reg = (ns, reg') \<Longrightarrow>
    span_step (reg, opened, calls) (reg', dict_pop s opened, calls @ ns)"
| sp_ensure: "ts_trace_id snap = Some t \<Longrightarrow> ts_span_id snap = Some s \<Longrightarrow> t \<noteq> [] \<Longrightarrow> s \<noteq> [] \<Longrightarrow> run_id \<noteq> [] \<Longrightarrow>
    dict_get opened s \<in> {None, Some t} \<Longrightarrow> ensure_current_trace_run snap run_id user reg = ((r, created), reg') \<Longrightarrow>
    span_step (reg, opened, calls)
      (reg', if created then (s, t) # opened else opened, if created then calls @ [NRunStart r t] else calls)"

inductive span_reachable :: "history \<Rightarrow> bool" where
  sr_init: "span_reachable (empty_registry, [], [])"
| sr_step: "span_reachable h \<Longrightarrow> span_step h h' \<Longrightarrow> span_reachable h'"

section \<open>The invariant\<close>

definition open_spans :: "string \<Rightarrow> (string, string) dict \<Rightarrow> (string, string) dict" where
  "open_spans t opened = filter (\<lambda>(s, t'). t' = t) opened"

definition is_starter :: "span_registry \<Rightarrow> string \<Rightarrow> bool" where
  "is_starter reg s \<longleftrightarrow> dict_get (sg_span_started reg) s = Some True"

definition starters :: "span_registry \<Rightarrow> string \<Rightarrow> (string, string) dict \<Rightarrow> nat" where
  "starters reg t opened = length (filter (\<lambda>(s, t'). is_starter reg s) (open_spans t opened))
     + (if t \<in> sg_root_ended reg then 1 else 0)"

definition starts_of :: "string \<Rightarrow> notice list \<Rightarrow> nat" where
  "starts_of t calls = length (filter (\<lambda>n. case n of NRunStart r t' \<Rightarrow> t' = t | _ \<Rightarrow> False) calls)"

definition ends_of :: "string \<Rightarrow> notice list \<Rightarrow> nat" where
  "ends_of t calls = length (filter (\<lambda>n. case n of NRunEnd r t' \<Rightarrow> t' = t | _ \<Rightarrow> False) calls)"

definition spans_ok :: "span_registry \<Rightarrow> (string, string) dict \<Rightarrow> bool" where
  "spans_ok reg opened \<longleftrightarrow>
     (\<forall>s. dict_get (sg_span_trace reg) s = dict_get opened s \<and>
       (dict_get (sg_span_run reg) s = None \<longleftrightarrow> dict_get opened s = None) \<and>
       (dict_get (sg_span_parent reg) s = None \<longleftrightarrow> dict_get opened s = None) \<and>
       (dict_get (sg_span_user reg) s = None \<longleftrightarrow> dict_get opened s = None) \<and>
       (dict_get (sg_span_started reg) s = None \<longleftrightarrow> dict_get opened s = None) \<and>
       dict_get (sg_span_run reg) s \<noteq> Some [])"

definition trace_ok :: "span_registry \<Rightarrow> (string, string) dict \<Rightarrow> notice list \<Rightarrow> string \<Rightarrow> bool" where
  "trace_ok reg opened calls t \<longleftrightarrow>
     dict_get (sg_active reg) t = (if open_spans t opened = [] then None else Some (int (length (open_spans t opened)))) \<and>
     (dict_get (sg_trace_run reg) t \<noteq> None \<longrightarrow> open_spans t opened \<noteq> []) \<and> dict_get (sg_trace_run reg) t \<noteq> Some [] \<and>
     (t \<in> sg_root_ended reg \<longrightarrow> open_spans t opened \<noteq> []) \<and>
     starts_of t calls = ends_of t calls + starters reg t opened \<and>
     starters reg t opened \<le> (if dict_get (sg_trace_run reg) t = None then 0 else 1)"

definition history_ok :: "history \<Rightarrow> bool" where
  "history_ok h = (case h of (reg, opened, calls) \<Rightarrow>
     dict_ok opened \<and> spans_ok reg opened \<and> (\<forall>t. trace_ok reg opened calls t))"

lemma counts_append [simp]:
  "starts_of t (xs @ ys) = starts_of t xs + starts_of t ys" "ends_of t (xs @ ys) = ends_of t xs + ends_of t ys"
  by (simp_all add: starts_of_def ends_of_def)

lemma counts_one [simp]:
  "starts_of t [] = 0" "starts_of t (NEvent a # ns) = starts_of t ns" "starts_of t (NRunEnd r t' # ns) = starts_of t ns"
  "starts_of t (NRunStart r t' # ns) = (if t' = t then 1 else 0) + starts_of t ns"
  "ends_of t [] = 0" "ends_of t (NEvent a # ns) = ends_of t ns" "ends_of t (NRunStart r t' # ns) = ends_of t ns"
  "ends_of t (NRunEnd r t' # ns) = (if t' = t then 1 else 0) + ends_of t ns"
  by (simp_all add: starts_of_def ends_of_def)

lemma open_spans_Cons [simp]: "open_spans t ((s, t') # opened) = (if t' = t then [(s, t')] else []) @ open_spans t opened"
  by (simp add: open_spans_def)

lemma open_spans_key: "p \<in> set (open_spans t opened) \<Longrightarrow> dict_get opened (fst p) \<noteq> None"
  by (cases p) (auto simp: open_spans_def map_of_eq_None_iff intro: rev_image_eqI)

section \<open>Registering a span\<close>

lemma starters_new:
  assumes "dict_get opened s = None" "sg_span_started reg' = dict_set s b (sg_span_started reg)"
    "sg_root_ended reg' = sg_root_ended reg"
  shows "starters reg' u ((s, t) # opened) = starters reg u opened + (if b \<and> t = u then 1 else 0)"
proof -
  have "is_starter reg' (fst p) = is_starter reg (fst p)" if "p \<in> set (open_spans u opened)" for p
    using open_spans_key [OF that] assms(1,2) by (auto simp: is_starter_def dict_get_set)
  then have "filter (\<lambda>(s, t'). is_starter reg' s) (open_spans u opened) = filter (\<lambda>(s, t'). is_starter reg s) (open_spans u opened)"
    by (intro filter_cong) (auto simp: case_prod_beta)
  moreover have "is_starter reg' s = b" using assms(2) by (simp add: is_starter_def dict_get_set)
  ultimately show ?thesis using assms(3) by (simp add: starters_def)
qed

lemma register_ok:
  assumes "history_ok (reg, opened, calls)" "dict_get opened s = None" "run_id \<noteq> []"
    and "reg1 = reg \<or> dict_get (sg_trace_run reg) t = None \<and> reg1 = reg\<lparr>sg_trace_run := dict_set t run_id (sg_trace_run reg)\<rparr>"
    and "started \<Longrightarrow> dict_get (sg_trace_run reg) t = None \<and> reg1 \<noteq> reg"
    and "\<And>u. starts_of u ns = (if started \<and> t = u then 1 else 0)" "\<And>u. ends_of u ns = 0"
  shows "history_ok (register_span t s parent run_id user started reg1, (s, t) # opened, calls @ ns)"
proof -
  let ?reg = "register_span t s parent run_id user started reg1"
  have fields: "sg_span_parent ?reg = dict_set s parent (sg_span_parent reg)" "sg_span_trace ?reg = dict_set s t (sg_span_trace reg)"
    "sg_span_run ?reg = dict_set s run_id (sg_span_run reg)" "sg_span_user ?reg = dict_set s user (sg_span_user reg)"
    "sg_span_started ?reg = dict_set s started (sg_span_started reg)" "sg_root_ended ?reg = sg_root_ended reg"
    "sg_active ?reg = dict_set t ((case dict_get (sg_active reg) t of None \<Rightarrow> 0 | Some n \<Rightarrow> n) + 1) (sg_active reg)"
    "sg_trace_run ?reg = sg_trace_run reg1"
    using assms(4) by (auto simp: register_span_def)
  have run: "dict_get (sg_trace_run reg1) u = dict_get (sg_trace_run reg) u \<or>
      u = t \<and> dict_get (sg_trace_run reg) u = None \<and> dict_get (sg_trace_run reg1) u = Some run_id" for u
    using assms(4) by (auto simp: dict_get_set split: if_splits)
  have started: "dict_get (sg_trace_run reg1) t = Some run_id \<and> dict_get (sg_trace_run reg) t = None" if started
    using assms(4,5) that by (auto simp: dict_get_set)
  have "spans_ok ?reg ((s, t) # opened)"
    using assms(1,3) unfolding history_ok_def spans_ok_def fields by (auto simp: dict_get_set)
  moreover have "dict_ok ((s, t) # opened)"
    using assms(1,2) by (auto simp: history_ok_def dict_ok_def map_of_eq_None_iff)
  moreover have "trace_ok ?reg ((s, t) # opened) (calls @ ns) u" for u
  proof -
    have old: "trace_ok reg opened calls u" using assms(1) by (simp add: history_ok_def)
    have count: "starters ?reg u ((s, t) # opened) = starters reg u opened + (if started \<and> t = u then 1 else 0)"
      by (rule starters_new [OF assms(2) fields(5,6)])
    show ?thesis
    proof (cases "u = t")
      case False
      with old count run [of u] show ?thesis unfolding trace_ok_def fields
        by (auto simp: dict_get_set assms(6,7))
    next
      case True
      with old count run [of u] started assms(3) show ?thesis unfolding trace_ok_def fields
        by (auto simp: dict_get_set assms(6,7) split: if_splits)
    qed
  qed
  ultimately show ?thesis unfolding history_ok_def by blast
qed

section \<open>The steps keep the invariant\<close>

lemma resolve_run_cases:
  assumes "resolve_run active fresh t parent reg = (r, started, reg1)" "history_ok (reg, opened, calls)" "fresh \<noteq> []"
  shows "r \<noteq> [] \<and> (reg1 = reg \<or> dict_get (sg_trace_run reg) t = None \<and>
      reg1 = reg\<lparr>sg_trace_run := dict_set t r (sg_trace_run reg)\<rparr>) \<and>
    (started \<longrightarrow> dict_get (sg_trace_run reg) t = None \<and> reg1 = reg\<lparr>sg_trace_run := dict_set t r (sg_trace_run reg)\<rparr>)"
proof -
  let ?inherited = "case parent of None \<Rightarrow> None | Some p \<Rightarrow> if p = [] then None else dict_get (sg_span_run reg) p"
  have "dict_get (sg_trace_run reg) t \<noteq> Some []" "?inherited \<noteq> Some []"
    using assms(2) by (auto simp: history_ok_def spans_ok_def trace_ok_def split: option.splits)
  then show ?thesis using assms(1,3) unfolding resolve_run_def Let_def
    by (cases "dict_get (sg_trace_run reg) t"; cases ?inherited)
       (auto simp: oor_def present_def split: if_splits option.splits)
qed

lemma span_start_ok:
  assumes "history_ok (reg, opened, calls)" "format_trace_id (sn_trace_id sp) = Some t" "format_span_id (sn_span_id sp) = Some s"
    "dict_get opened s = None" "fresh \<noteq> []" "on_start active user fresh sp reg = (ns, reg')"
  shows "history_ok (reg', (s, t) # opened, calls @ ns)"
proof -
  obtain r started reg1 where r: "resolve_run active fresh t (parent_span_id (sn_parent sp)) reg = (r, started, reg1)"
    by (cases "resolve_run active fresh t (parent_span_id (sn_parent sp)) reg") auto
  note cases = resolve_run_cases [OF r assms(1,5)]
  have ns: "ns = (if started then [NRunStart r t] else []) @
      [NEvent (span_event sp ''start'' t s (parent_span_id (sn_parent sp)) r user)]"
    and reg': "reg' = register_span t s (parent_span_id (sn_parent sp)) r user started reg1"
    using assms(2,3,6) r by (auto simp: on_start_def Let_def)
  have new: "reg\<lparr>sg_trace_run := dict_set t r (sg_trace_run reg)\<rparr> \<noteq> reg" if "dict_get (sg_trace_run reg) t = None"
  proof
    assume "reg\<lparr>sg_trace_run := dict_set t r (sg_trace_run reg)\<rparr> = reg"
    then have "dict_get (dict_set t r (sg_trace_run reg)) t = dict_get (sg_trace_run reg) t"
      by (metis span_registry.select_convs(1) span_registry.surjective span_registry.update_convs(1))
    with that show False by (simp add: dict_get_set)
  qed
  show ?thesis unfolding ns reg'
    by (rule register_ok [OF assms(1,4)]) (use cases new in auto)
qed

lemma ensure_ok:
  assumes "history_ok (reg, opened, calls)" "ts_trace_id snap = Some t" "ts_span_id snap = Some s" "t \<noteq> []" "s \<noteq> []"
    "run_id \<noteq> []" "dict_get opened s \<in> {None, Some t}" "ensure_current_trace_run snap run_id user reg = ((r, created), reg')"
  shows "history_ok (reg', if created then (s, t) # opened else opened, if created then calls @ [NRunStart r t] else calls)"
proof -
  let ?existing = "oor (dict_get (sg_trace_run reg) t) (dict_get (sg_span_run reg) s)"
  have ok: "dict_get (sg_trace_run reg) t \<noteq> Some []" "dict_get (sg_span_run reg) s \<noteq> Some []"
    "dict_get (sg_span_run reg) s = None \<longleftrightarrow> dict_get opened s = None"
    using assms(1) by (simp_all add: history_ok_def spans_ok_def trace_ok_def)
  show ?thesis
  proof (cases "present ?existing")
    case True
    with assms show ?thesis by (simp add: ensure_current_trace_run_def)
  next
    case False
    then have none: "dict_get (sg_trace_run reg) t = None" "dict_get opened s = None"
      using ok by (auto simp: oor_def present_def split: option.splits if_splits)
    define reg1 where "reg1 = reg\<lparr>sg_trace_run := dict_set t run_id (sg_trace_run reg)\<rparr>"
    have "reg1 \<noteq> reg"
    proof
      assume "reg1 = reg"
      then have "dict_get (sg_trace_run reg1) t = dict_get (sg_trace_run reg) t" by simp
      with none(1) show False by (simp add: reg1_def dict_get_set)
    qed
    moreover have "created" "r = run_id" "reg' = register_span t s (ts_parent_span_id snap) run_id user True reg1"
      using assms(2-5,8) False by (auto simp: ensure_current_trace_run_def reg1_def)
    ultimately show ?thesis using none assms(1,6) register_ok [of reg opened calls s run_id reg1 t True "[NRunStart run_id t]"]
      by (simp add: reg1_def)
  qed
qed

section \<open>The end of a span\<close>

lemma open_spans_other: "dict_ok opened \<Longrightarrow> dict_get opened s = Some t \<Longrightarrow> u \<noteq> t \<Longrightarrow>
    open_spans u (dict_pop s opened) = open_spans u opened"
proof (induction opened)
  case (Cons p opened)
  obtain s' t' where p: "p = (s', t')" by (cases p)
  have ok: "dict_ok opened" "s' \<notin> fst ` set opened" using Cons.prems(1) by (auto simp: dict_ok_def p)
  show ?case
  proof (cases "s' = s")
    case True
    with ok(2) Cons.prems(2,3) show ?thesis by (simp add: p delete_idem)
  next
    case False
    with Cons ok(1) show ?thesis by (auto simp: p)
  qed
qed simp

lemma open_spans_same: "dict_ok opened \<Longrightarrow> dict_get opened s = Some t \<Longrightarrow>
    mset (open_spans t opened) = add_mset (s, t) (mset (open_spans t (dict_pop s opened)))"
proof (induction opened)
  case (Cons p opened)
  obtain s' t' where p: "p = (s', t')" by (cases p)
  have ok: "dict_ok opened" "s' \<notin> fst ` set opened" using Cons.prems(1) by (auto simp: dict_ok_def p)
  show ?case
  proof (cases "s' = s")
    case True
    with ok(2) Cons.prems(2) show ?thesis by (simp add: p delete_idem)
  next
    case False
    with Cons ok(1) show ?thesis by (auto simp: p)
  qed
qed simp

lemma length_mset_eq: "length (filter p xs) = size (filter_mset p (mset xs))"
  by (metis mset_filter size_mset)

lemma open_spans_counts:
  assumes "dict_ok opened" "dict_get opened s = Some t"
  shows "length (open_spans t opened) = Suc (length (open_spans t (dict_pop s opened)))"
    and "length (filter (\<lambda>(s, t'). P s) (open_spans t opened)) =
      length (filter (\<lambda>(s, t'). P s) (open_spans t (dict_pop s opened))) + (if P s then 1 else 0)"
  using arg_cong [OF open_spans_same [OF assms], of size]
  by (simp, simp add: length_mset_eq open_spans_same [OF assms])

lemma starter_filter:
  assumes "sg_span_started reg' = dict_pop s (sg_span_started reg)"
  shows "filter (\<lambda>(s, t'). is_starter reg' s) (open_spans u (dict_pop s opened)) =
    filter (\<lambda>(s, t'). is_starter reg s) (open_spans u (dict_pop s opened))"
proof (rule filter_cong [OF refl])
  fix p assume p: "p \<in> set (open_spans u (dict_pop s opened))"
  from open_spans_key [OF this] have "fst p \<noteq> s" by (auto simp: dict_get_pop)
  then show "(case p of (s, t') \<Rightarrow> is_starter reg' s) = (case p of (s, t') \<Rightarrow> is_starter reg s)"
    using assms by (cases p) (simp add: is_starter_def dict_get_pop)
qed

lemma span_end_ok:
  assumes "history_ok (reg, opened, calls)" "format_trace_id (sn_trace_id sp) = Some t" "format_span_id (sn_span_id sp) = Some s"
    "dict_get opened s = Some t" "on_end fresh sp reg = (ns, reg')"
  shows "history_ok (reg', dict_pop s opened, calls @ ns)"
proof -
  have ok: "dict_ok opened" "spans_ok reg opened" "\<And>u. trace_ok reg opened calls u"
    using assms(1) by (auto simp: history_ok_def)
  define n where "n = length (open_spans t (dict_pop s opened))"
  have active: "dict_get (sg_active reg) t = Some (int n + 1)"
    using ok(3) [of t] open_spans_counts(1) [OF ok(1) assms(4)] by (auto simp: trace_ok_def n_def)
  define root_ended where "root_ended = (if is_starter reg s then insert t (sg_root_ended reg) else sg_root_ended reg)"
  obtain b where f: "forget_span t s reg = (b, reg')" using assms(2,3,5) by (auto simp: on_end_def Let_def split: prod.splits)
  have started: "(case dict_get (sg_span_started reg) s of None \<Rightarrow> False | Some b \<Rightarrow> b) = is_starter reg s"
    by (auto simp: is_starter_def split: option.split)
  have b: "b = (t \<in> root_ended \<and> n = 0)" using f active
    by (auto simp: forget_span_def Let_def started root_ended_def)
  have counts: "starts_of u ns = 0" "ends_of u ns = (if b \<and> u = t then 1 else 0)" for u
    using assms(2,3,5) f by (auto simp: on_end_def Let_def)
  have fields: "sg_span_trace reg' = dict_pop s (sg_span_trace reg)" "sg_span_run reg' = dict_pop s (sg_span_run reg)"
    "sg_span_parent reg' = dict_pop s (sg_span_parent reg)" "sg_span_user reg' = dict_pop s (sg_span_user reg)"
    "sg_span_started reg' = dict_pop s (sg_span_started reg)"
    using f by (auto simp: forget_span_def Let_def split: if_splits)
  have rest: "sg_root_ended reg' = (if n = 0 then root_ended - {t} else root_ended)"
    "sg_active reg' = (if n = 0 then dict_pop t (sg_active reg) else dict_set t (int n) (sg_active reg))"
    "sg_trace_run reg' = (if n = 0 then dict_pop t (sg_trace_run reg) else sg_trace_run reg)"
    using f active by (auto simp: forget_span_def Let_def started root_ended_def split: if_splits)
  have "spans_ok reg' (dict_pop s opened)"
    using ok(2) unfolding spans_ok_def fields by (simp add: dict_get_pop)
  moreover have "trace_ok reg' (dict_pop s opened) (calls @ ns) u" for u
  proof (cases "u = t")
    case False
    note other = open_spans_other [OF ok(1) assms(4) False]
    have "starters reg' u (dict_pop s opened) = starters reg u opened"
      using False starter_filter [OF fields(5), of u opened] unfolding starters_def other
      by (simp add: rest(1) root_ended_def)
    with ok(3) [of u] False show ?thesis
      by (auto simp: trace_ok_def rest counts dict_get_set dict_get_pop root_ended_def other split: if_splits)
  next
    case True
    have old: "starters reg t opened \<le> 1" using ok(3) [of t] by (auto simp: trace_ok_def split: if_splits)
    have empty: "n = 0 \<longleftrightarrow> open_spans t (dict_pop s opened) = []" by (simp add: n_def)
    have s1: "starters reg t opened = starters reg' t (dict_pop s opened) + (if b then 1 else 0)"
      using old starter_filter [OF fields(5), of t opened] open_spans_counts(2) [OF ok(1) assms(4), of "is_starter reg"] empty
      by (cases "n = 0") (auto simp: starters_def rest(1) root_ended_def b split: if_splits)
    have s2: "n = 0 \<Longrightarrow> starters reg' t (dict_pop s opened) = 0"
      using empty by (simp add: starters_def rest(1))
    show ?thesis using ok(3) [of t] s1 s2 empty open_spans_counts(1) [OF ok(1) assms(4)] unfolding True
      by (cases "n = 0") (auto simp: trace_ok_def rest counts dict_get_set dict_get_pop n_def [symmetric] b split: if_splits)
  qed
  ultimately show ?thesis using ok(1) unfolding history_ok_def by auto
qed

section \<open>The runs of a trace\<close>

text \<open>
  The run of a trace that is open after some calls: a start opens one when none is open, and an
  end closes exactly the run that is open. The outer \<open>None\<close> stands for calls that break this.
\<close>

fun run_after :: "string \<Rightarrow> notice \<Rightarrow> string option option \<Rightarrow> string option option" where
  "run_after t (NRunStart r t') s = (if t' \<noteq> t then s else if s = Some None then Some (Some r) else None)"
| "run_after t (NRunEnd r t') s = (if t' \<noteq> t then s else if s = Some (Some r) then Some None else None)"
| "run_after t (NEvent a) s = s"

definition open_run :: "string \<Rightarrow> notice list \<Rightarrow> string option option" where
  "open_run t calls = fold (run_after t) calls (Some None)"

definition runs_ok :: "history \<Rightarrow> bool" where
  "runs_ok h = (case h of (reg, opened, calls) \<Rightarrow>
     (\<forall>s t. dict_get opened s = Some t \<longrightarrow>
        dict_get (sg_trace_run reg) t \<noteq> None \<and> dict_get (sg_span_run reg) s = dict_get (sg_trace_run reg) t) \<and>
     (\<forall>t. open_run t calls = Some (if starters reg t opened = 0 then None else dict_get (sg_trace_run reg) t)))"

lemma open_run_append: "open_run t (calls @ ns) = fold (run_after t) ns (open_run t calls)"
  by (simp add: open_run_def)

text \<open>The starters follow from the calls, in any two states of a history.\<close>

lemma starters_step:
  assumes "history_ok (reg, opened, calls)" "history_ok (reg', opened', calls @ ns)"
  shows "starters reg' t opened' + ends_of t ns = starters reg t opened + starts_of t ns"
proof -
  have "trace_ok reg opened calls t" "trace_ok reg' opened' (calls @ ns) t" using assms by (simp_all add: history_ok_def)
  then show ?thesis by (simp add: trace_ok_def)
qed

lemma starters_run: "history_ok (reg, opened, calls) \<Longrightarrow> starters reg t opened \<noteq> 0 \<Longrightarrow>
    starters reg t opened = 1 \<and> dict_get (sg_trace_run reg) t \<noteq> None"
  by (auto simp: history_ok_def trace_ok_def split: if_splits dest!: spec [of _ t])

lemma no_run_no_spans:
  assumes "runs_ok (reg, opened, calls)" "dict_get (sg_trace_run reg) t = None"
  shows "dict_get opened s \<noteq> Some t"
  using assms unfolding runs_ok_def prod.case by blast

lemma register_span_trace_run [simp]: "sg_trace_run (register_span t s p r u b reg) = sg_trace_run reg"
  by (simp add: register_span_def)

lemma registered_runs:
  assumes h: "history_ok (reg, opened, calls)" "runs_ok (reg, opened, calls)" "dict_get opened s = None"
    and h': "history_ok (register_span t s parent run_id user started reg1, (s, t) # opened, calls @ ns)"
    and run: "dict_get (sg_trace_run reg) t = Some run_id \<and> reg1 = reg \<and> \<not> started \<or>
      dict_get (sg_trace_run reg) t = None \<and> reg1 = reg\<lparr>sg_trace_run := dict_set t run_id (sg_trace_run reg)\<rparr>"
    and ns: "\<And>u. fold (run_after u) ns = (if started then run_after u (NRunStart run_id t) else id)"
      "\<And>u. starts_of u ns = (if started \<and> t = u then 1 else 0)" "\<And>u. ends_of u ns = 0"
  shows "runs_ok (register_span t s parent run_id user started reg1, (s, t) # opened, calls @ ns)"
proof -
  let ?reg = "register_span t s parent run_id user started reg1"
  have fields: "sg_span_run ?reg = dict_set s run_id (sg_span_run reg)" "sg_trace_run ?reg = sg_trace_run reg1"
    using run by (auto simp: register_span_def)
  have this_run: "dict_get (sg_trace_run reg1) t = Some run_id" using run by (auto simp: dict_get_set)
  have other: "dict_get (sg_trace_run reg1) u = dict_get (sg_trace_run reg) u" if "u \<noteq> t \<or> dict_get (sg_trace_run reg) t \<noteq> None" for u
    using run that by (auto simp: dict_get_set)
  have spans: "dict_get (sg_trace_run ?reg) u \<noteq> None \<and> dict_get (sg_span_run ?reg) p = dict_get (sg_trace_run ?reg) u"
    if "dict_get ((s, t) # opened) p = Some u" for p u
  proof (cases "p = s")
    case True
    with that have "u = t" by simp
    show ?thesis unfolding \<open>u = t\<close> True fields by (simp add: this_run dict_get_set)
  next
    case False
    with that have p: "dict_get opened p = Some u" by simp
    with no_run_no_spans [OF h(2), of t p] have "u \<noteq> t \<or> dict_get (sg_trace_run reg) t \<noteq> None" by auto
    from other [OF this] h(2) p False show ?thesis by (auto simp: fields dict_get_set runs_ok_def)
  qed
  moreover have "open_run u (calls @ ns) =
      Some (if starters ?reg u ((s, t) # opened) = 0 then None else dict_get (sg_trace_run ?reg) u)" for u
  proof -
    have old: "open_run u calls = Some (if starters reg u opened = 0 then None else dict_get (sg_trace_run reg) u)"
      using h(2) by (simp add: runs_ok_def)
    have count: "starters ?reg u ((s, t) # opened) = starters reg u opened + (if started \<and> t = u then 1 else 0)"
      using starters_step [OF h(1) h', of u] ns(2,3) by simp
    show ?thesis
    proof (cases "started \<and> t = u")
      case True
      then have "dict_get (sg_trace_run reg) u = None" using run by auto
      with starters_run [OF h(1), of u] have "starters reg u opened = 0" by auto
      with True old have "open_run u (calls @ ns) = Some (Some run_id)" by (simp add: open_run_append ns(1))
      moreover have "starters ?reg u ((s, t) # opened) = 1" using True count \<open>starters reg u opened = 0\<close> by simp
      moreover have "dict_get (sg_trace_run ?reg) u = Some run_id" using True this_run by simp
      ultimately show ?thesis by simp
    next
      case False
      have "starters reg u opened \<noteq> 0 \<Longrightarrow> dict_get (sg_trace_run reg1) u = dict_get (sg_trace_run reg) u"
        using starters_run [OF h(1), of u] other [of u] by (cases "u = t") simp_all
      moreover have "open_run u (calls @ ns) = open_run u calls"
        unfolding open_run_append ns(1) using False by auto
      moreover have "starters ?reg u ((s, t) # opened) = starters reg u opened" using False count by auto
      ultimately show ?thesis unfolding old by simp
    qed
  qed
  ultimately show ?thesis unfolding runs_ok_def by blast
qed

lemma span_start_runs:
  assumes "history_ok (reg, opened, calls)" "runs_ok (reg, opened, calls)"
    and "format_trace_id (sn_trace_id sp) = Some t" "format_span_id (sn_span_id sp) = Some s"
    and "dict_get opened s = None" "parent_in_trace sp t opened" "fresh \<noteq> []" "on_start active user fresh sp reg = (ns, reg')"
  shows "runs_ok (reg', (s, t) # opened, calls @ ns)"
proof -
  obtain r started reg1 where r: "resolve_run active fresh t (parent_span_id (sn_parent sp)) reg = (r, started, reg1)"
    by (cases "resolve_run active fresh t (parent_span_id (sn_parent sp)) reg") auto
  have ns: "ns = (if started then [NRunStart r t] else []) @
      [NEvent (span_event sp ''start'' t s (parent_span_id (sn_parent sp)) r user)]"
    and reg': "reg' = register_span t s (parent_span_id (sn_parent sp)) r user started reg1"
    using assms(3,4,8) r by (auto simp: on_start_def Let_def)
  have known: "dict_get (sg_span_run reg) p = None \<longleftrightarrow> dict_get opened p = None" for p
    using assms(1) by (simp add: history_ok_def spans_ok_def)
  have "dict_get (sg_span_run reg) p = None" if "parent_span_id (sn_parent sp) = Some p" "dict_get (sg_trace_run reg) t = None" for p
    using assms(6) that no_run_no_spans [OF assms(2) that(2), of p] known [of p] by (simp add: parent_in_trace_def)
  then have "dict_get (sg_trace_run reg) t = Some r \<and> reg1 = reg \<and> \<not> started \<or>
      dict_get (sg_trace_run reg) t = None \<and> reg1 = reg\<lparr>sg_trace_run := dict_set t r (sg_trace_run reg)\<rparr>"
    using r assms(1) unfolding resolve_run_def Let_def history_ok_def trace_ok_def
    by (cases "dict_get (sg_trace_run reg) t") (auto simp: oor_def split: if_splits option.splits)
  with span_start_ok [OF assms(1,3-5,7,8)] show ?thesis unfolding reg'
    by (intro registered_runs [OF assms(1,2,5)]) (auto simp: ns fun_eq_iff)
qed

lemma ensure_runs:
  assumes "history_ok (reg, opened, calls)" "runs_ok (reg, opened, calls)"
    and "ts_trace_id snap = Some t" "ts_span_id snap = Some s" "t \<noteq> []" "s \<noteq> []"
    "run_id \<noteq> []" "dict_get opened s \<in> {None, Some t}" "ensure_current_trace_run snap run_id user reg = ((r, created), reg')"
  shows "runs_ok (reg', if created then (s, t) # opened else opened, if created then calls @ [NRunStart r t] else calls)"
proof -
  let ?existing = "oor (dict_get (sg_trace_run reg) t) (dict_get (sg_span_run reg) s)"
  have ok: "dict_get (sg_trace_run reg) t \<noteq> Some []" "dict_get (sg_span_run reg) s \<noteq> Some []"
    "dict_get (sg_span_run reg) s = None \<longleftrightarrow> dict_get opened s = None"
    using assms(1) by (simp_all add: history_ok_def spans_ok_def trace_ok_def)
  show ?thesis
  proof (cases "present ?existing")
    case True
    with assms show ?thesis by (simp add: ensure_current_trace_run_def)
  next
    case False
    then have none: "dict_get (sg_trace_run reg) t = None" "dict_get opened s = None"
      using ok by (auto simp: oor_def present_def split: option.splits if_splits)
    have c: "created" "r = run_id" "reg' = register_span t s (ts_parent_span_id snap) run_id user True
        (reg\<lparr>sg_trace_run := dict_set t run_id (sg_trace_run reg)\<rparr>)"
      using assms(3-6,9) False by (auto simp: ensure_current_trace_run_def)
    from ensure_ok [OF assms(1,3-9)] c none show ?thesis
      by (auto intro!: registered_runs [OF assms(1,2) none(2)])
  qed
qed

lemma span_end_runs:
  assumes "history_ok (reg, opened, calls)" "runs_ok (reg, opened, calls)"
    and "format_trace_id (sn_trace_id sp) = Some t" "format_span_id (sn_span_id sp) = Some s"
    and "dict_get opened s = Some t" "on_end fresh sp reg = (ns, reg')"
  shows "runs_ok (reg', dict_pop s opened, calls @ ns)"
proof -
  let ?opened = "dict_pop s opened"
  have h': "history_ok (reg', ?opened, calls @ ns)" by (rule span_end_ok [OF assms(1,3-6)])
  obtain r where r: "dict_get (sg_trace_run reg) t = Some r" "dict_get (sg_span_run reg) s = Some r"
    using assms(2,5) unfolding runs_ok_def by fastforce
  have "r \<noteq> []" using assms(1) r(1) by (auto simp: history_ok_def trace_ok_def)
  obtain b where f: "forget_span t s reg = (b, reg')" using assms(3,4,6) by (auto simp: on_end_def Let_def split: prod.splits)
  obtain a where ns: "ns = [NEvent a] @ (if b then [NRunEnd r t] else [])"
    using assms(3,4,6) f r \<open>r \<noteq> []\<close> by (auto simp: on_end_def Let_def oor_def)
  have fields: "sg_span_run reg' = dict_pop s (sg_span_run reg)"
    "sg_trace_run reg' = sg_trace_run reg \<or>
      sg_trace_run reg' = dict_pop t (sg_trace_run reg) \<and> dict_get (sg_active reg') t = None"
    using f by (auto simp: forget_span_def Let_def dict_get_pop split: if_splits)
  have same: "dict_get (sg_trace_run reg') u = dict_get (sg_trace_run reg) u" if "dict_get (sg_trace_run reg') u \<noteq> None" for u
    using fields(2) that by (auto simp: dict_get_pop split: if_splits)
  have kept: "dict_get (sg_trace_run reg') u \<noteq> None" if "dict_get ?opened p = Some u" for p u
  proof (cases "sg_trace_run reg' = sg_trace_run reg")
    case True
    with assms(2) that show ?thesis by (auto simp: runs_ok_def dict_get_pop split: if_splits)
  next
    case False
    then have closed: "dict_get (sg_active reg') t = None" and
      run: "u \<noteq> t \<Longrightarrow> dict_get (sg_trace_run reg') u = dict_get (sg_trace_run reg) u"
      using fields(2) by (auto simp: dict_get_pop)
    have "open_spans t ?opened = []" using closed h' by (auto simp: history_ok_def trace_ok_def split: if_splits dest: spec [of _ t])
    moreover have "(p, u) \<in> set (open_spans u ?opened)" using map_of_SomeD [OF that] by (simp add: open_spans_def)
    ultimately have "u \<noteq> t" by auto
    with run assms(2) that show ?thesis by (auto simp: runs_ok_def dict_get_pop split: if_splits)
  qed
  have "open_run u (calls @ ns) = Some (if starters reg' u ?opened = 0 then None else dict_get (sg_trace_run reg') u)" for u
  proof -
    have old: "open_run u calls = Some (if starters reg u opened = 0 then None else dict_get (sg_trace_run reg) u)"
      using assms(2) by (simp add: runs_ok_def)
    have count: "starters reg' u ?opened + (if b \<and> u = t then 1 else 0) = starters reg u opened"
      using starters_step [OF assms(1) h', of u] by (auto simp: ns split: if_splits)
    show ?thesis
    proof (cases "b \<and> u = t")
      case True
      with count starters_run [OF assms(1), of u] have "starters reg u opened = 1" "starters reg' u ?opened = 0" by auto
      with True old r(1) show ?thesis by (simp add: open_run_append ns)
    next
      case False
      with count starters_run [OF h', of u] same [of u] have "starters reg' u ?opened = starters reg u opened"
        "starters reg u opened \<noteq> 0 \<Longrightarrow> dict_get (sg_trace_run reg') u = dict_get (sg_trace_run reg) u" by auto
      with False old show ?thesis by (auto simp: open_run_append ns)
    qed
  qed
  moreover have "dict_get (sg_span_run reg') p = dict_get (sg_trace_run reg') u" if "dict_get ?opened p = Some u" for p u
    using kept [OF that] same [of u] that assms(2) by (auto simp: fields(1) dict_get_pop runs_ok_def split: if_splits)
  ultimately show ?thesis using kept unfolding runs_ok_def by blast
qed

lemma span_step_ok: "span_step h h' \<Longrightarrow> history_ok h \<Longrightarrow> history_ok h'"
proof (induction rule: span_step.induct)
  case (sp_start sp t s opened fresh run user reg ns reg' calls)
  then show ?case using span_start_ok by blast
next
  case (sp_end sp t s opened fresh reg ns reg' calls)
  then show ?case using span_end_ok by blast
next
  case (sp_ensure snap t s run_id opened user reg r created reg' calls)
  then show ?case using ensure_ok by blast
qed

lemma span_step_runs: "span_step h h' \<Longrightarrow> history_ok h \<Longrightarrow> runs_ok h \<Longrightarrow> runs_ok h'"
proof (induction rule: span_step.induct)
  case (sp_start sp t s opened fresh run user reg ns reg' calls)
  then show ?case using span_start_runs by blast
next
  case (sp_end sp t s opened fresh reg ns reg' calls)
  then show ?case using span_end_runs by blast
next
  case (sp_ensure snap t s run_id opened user reg r created reg' calls)
  then show ?case using ensure_runs by blast
qed

lemma span_reachable_ok: "span_reachable h \<Longrightarrow> history_ok h"
proof (induction rule: span_reachable.induct)
  case sr_init
  show ?case by (simp add: history_ok_def spans_ok_def trace_ok_def empty_registry_def open_spans_def starters_def dict_ok_def)
next
  case (sr_step h h')
  then show ?case using span_step_ok by blast
qed

lemma span_reachable_runs: "span_reachable h \<Longrightarrow> runs_ok h"
proof (induction rule: span_reachable.induct)
  case sr_init
  show ?case by (simp add: runs_ok_def open_run_def empty_registry_def starters_def open_spans_def)
next
  case (sr_step h h')
  then show ?case using span_step_runs span_reachable_ok by blast
qed

section \<open>Property\<close>

definition sample_span :: "int \<Rightarrow> parent_ref \<Rightarrow> otel_span" where
  "sample_span i parent = \<lparr>sn_trace_id = AInt 7, sn_span_id = AInt i, sn_parent = parent, sn_name = AStr ''agent'',
     sn_attributes = AMap [], sn_status = ANone, sn_event_names = [], sn_start_time = AInt 0, sn_end_time = AInt 9\<rparr>"



end
