(* ===== verification/Sdk.thy ===== *)
theory Sdk
  imports Span_Processor
begin

text \<open>
  The runtime client (\<^verbatim>\<open>src/promptrail/sdk.py\<close>): which runs are open, the events their
  starts and ends give, and the identity an event carries. The world of a process is its
  context variables, the span registry, the client and the events made so far, each of which
  is offered to the export worker when there is one. The surroundings of a call (the tracing
  library's current span, fresh identifiers, the clock) are a record of arguments; identifiers
  and times of events are indexed by the number of events made. The operations are composed of
  their parts as one thread runs them: the code holds \<^verbatim>\<open>_runs_lock\<close> only inside
  \<open>lock_run_start\<close>, \<open>lock_run_end\<close> and \<open>open_runs\<close>, and emits after it has released the lock.
  What threads make of these parts, interleaved, is in the theory of the threads.
\<close>

section \<open>State\<close>

record client =
  cl_config :: runtime_config
  cl_worker :: bool
  cl_started_runs :: "string set"
  cl_ended_runs :: "string set"
  cl_ended_run_order :: "string list"
  cl_run_contexts :: "(string, runtime_context) dict"
  cl_closed :: bool

record world =
  wo_runtime :: runtime_state
  wo_registry :: span_registry
  wo_events :: "promptrail_event list"

record surroundings =
  en_current :: "(pyany \<times> pyany) option"
  en_fresh_run :: string
  en_event_id :: "nat \<Rightarrow> string"
  en_now_ms :: "nat \<Rightarrow> int"
  en_sdk_version :: string

definition ended_limit :: nat where
  "ended_limit = 4096"

definition new_client :: "runtime_config \<Rightarrow> client" where
  "new_client config = \<lparr>cl_config = config, cl_worker = False, cl_started_runs = {}, cl_ended_runs = {},
     cl_ended_run_order = [], cl_run_contexts = [], cl_closed = False\<rparr>"

text \<open>The worker is only made with a key; \<open>worker_ok\<close> tells whether its construction succeeds.\<close>

definition client_start :: "bool \<Rightarrow> client \<Rightarrow> world \<Rightarrow> client \<times> world" where
  "client_start worker_ok c w =
     (c\<lparr>cl_worker := (present (cf_api_key (cl_config c)) \<and> cf_export_enabled (cl_config c) \<and> worker_ok)\<rparr>,
      w\<lparr>wo_runtime := set_lifecycle_callbacks (Some \<lparr>lc_on_run_start = True, lc_on_run_end = True\<rparr>)
          (set_runtime_config (Some (cl_config c)) (clear_runtime_context (wo_runtime w)))\<rparr>)"

section \<open>Identity\<close>

definition merge_context :: "runtime_context \<Rightarrow> runtime_context \<Rightarrow> runtime_context" where
  "merge_context base overlay =
     \<lparr>rx_user_id = oor (rx_user_id overlay) (rx_user_id base), rx_run_id = oor (rx_run_id overlay) (rx_run_id base),
      rx_trace_id = oor (rx_trace_id overlay) (rx_trace_id base), rx_span_id = oor (rx_span_id overlay) (rx_span_id base),
      rx_parent_span_id = oor (rx_parent_span_id overlay) (rx_parent_span_id base)\<rparr>"

definition with_trace :: "trace_snapshot \<Rightarrow> string option \<Rightarrow> runtime_context \<Rightarrow> runtime_context" where
  "with_trace snap run_id base =
     base\<lparr>rx_run_id := run_id, rx_trace_id := oor (ts_trace_id snap) (rx_trace_id base),
          rx_span_id := oor (ts_span_id snap) (rx_span_id base),
          rx_parent_span_id := oor (ts_parent_span_id snap) (rx_parent_span_id base)\<rparr>"

text \<open>\<^verbatim>\<open>current_context()\<close> without \<^verbatim>\<open>ensure_run\<close> changes nothing.\<close>

definition observed_context :: "surroundings \<Rightarrow> world \<Rightarrow> runtime_context" where
  "observed_context en w =
     (let base = current_context (wo_runtime w); snap = current_trace_snapshot (en_current en) (wo_registry w)
      in with_trace snap (oor (rx_run_id base) (ts_run_id snap)) base)"

section \<open>Events\<close>

definition setdefault :: "string \<Rightarrow> pyany \<Rightarrow> attributes \<Rightarrow> attributes" where
  "setdefault k v d = (if has_key d k then d else d @ [(KStr k, v)])"

definition emit_attributes :: "surroundings \<Rightarrow> runtime_config \<Rightarrow> attributes \<Rightarrow> attributes" where
  "emit_attributes en config d =
     (let d1 = (if present (cf_application config)
                then setdefault ''promptrail.application'' (any_text (cf_application config)) d else d);
          d2 = (if present (cf_environment config)
                then setdefault ''promptrail.environment'' (any_text (cf_environment config)) d1 else d1)
      in setdefault ''promptrail.sdk.version'' (AStr (en_sdk_version en)) d2)"

text \<open>\<^verbatim>\<open>emit\<close> with a context: nothing it raises gets out.\<close>

definition emit_in :: "surroundings \<Rightarrow> client \<Rightarrow> event_name \<Rightarrow> runtime_context \<Rightarrow> string option \<Rightarrow> string option \<Rightarrow>
    attributes \<Rightarrow> world \<Rightarrow> promptrail_event option \<times> world" where
  "emit_in en c kind runtime name status attributes w =
     (if \<not> present (rx_run_id runtime) then (None, w)
      else case event_from_context (en_event_id en (length (wo_events w))) (en_now_ms en (length (wo_events w))) kind runtime
             name status (emit_attributes en (cl_config c) attributes) (Some (privacy_of (cl_config c))) of
        Inl _ \<Rightarrow> (None, w)
      | Inr e \<Rightarrow> (Some e, w\<lparr>wo_events := wo_events w @ [e]\<rparr>))"

section \<open>Starts and ends of runs\<close>

definition enriched :: "surroundings \<Rightarrow> world \<Rightarrow> runtime_context \<Rightarrow> runtime_context" where
  "enriched en w context =
     (let observed = observed_context en w
      in if rx_run_id observed = rx_run_id context then merge_context context observed else context)"

text \<open>The part under the lock: whether the run is new, so that its start is to be emitted.\<close>

definition lock_run_start :: "runtime_context \<Rightarrow> client \<Rightarrow> bool \<times> client" where
  "lock_run_start context c =
     (let run_id = the (rx_run_id context);
          c1 = (if run_id \<in> cl_ended_runs c
                then c\<lparr>cl_ended_runs := cl_ended_runs c - {run_id},
                       cl_ended_run_order := remove1 run_id (cl_ended_run_order c)\<rparr> else c)
      in if run_id \<in> cl_started_runs c1 then
           (False, case dict_get (cl_run_contexts c1) run_id of
              None \<Rightarrow> c1
            | Some existing \<Rightarrow>
                c1\<lparr>cl_run_contexts := dict_set run_id (merge_context existing context) (cl_run_contexts c1)\<rparr>)
         else
           (True, c1\<lparr>cl_started_runs := insert run_id (cl_started_runs c1),
                     cl_run_contexts := dict_set run_id context (cl_run_contexts c1)\<rparr>))"

definition emit_run_start :: "surroundings \<Rightarrow> client \<Rightarrow> runtime_context \<Rightarrow> world \<Rightarrow> world" where
  "emit_run_start en c context w = snd (emit_in en c (Known RUN_START) context None (Some ''started'') [] w)"

definition observe_run_start :: "surroundings \<Rightarrow> runtime_context \<Rightarrow> client \<Rightarrow> world \<Rightarrow> client \<times> world" where
  "observe_run_start en given c w =
     (if \<not> present (rx_run_id given) then (c, w)
      else
        let context = enriched en w given; (new, c1) = lock_run_start context c
        in (c1, if new then emit_run_start en c1 context w else w))"

text \<open>
  The part under the lock: the context the end is to be emitted with, unless the run has ended.
  \<open>failure\<close> is the type name of the error the run ended with.
\<close>

definition lock_run_end :: "runtime_context \<Rightarrow> client \<Rightarrow> runtime_context option \<times> client" where
  "lock_run_end observed c =
     (let run_id = the (rx_run_id observed)
      in if run_id \<in> cl_ended_runs c then (None, c)
         else
           let context = (case dict_get (cl_run_contexts c) run_id of
                 None \<Rightarrow> observed | Some stored \<Rightarrow> merge_context stored observed);
               full = (length (cl_ended_run_order c) = ended_limit);
               ended = (if full then cl_ended_runs c - {hd (cl_ended_run_order c)} else cl_ended_runs c);
               order = (if full then tl (cl_ended_run_order c) else cl_ended_run_order c)
           in (Some context, c\<lparr>cl_ended_runs := insert run_id ended, cl_ended_run_order := order @ [run_id],
                  cl_started_runs := cl_started_runs c - {run_id},
                  cl_run_contexts := dict_pop run_id (cl_run_contexts c)\<rparr>))"

definition emit_run_end :: "surroundings \<Rightarrow> client \<Rightarrow> runtime_context \<Rightarrow> string option \<Rightarrow> world \<Rightarrow> world" where
  "emit_run_end en c context failure w =
     snd (emit_in en c (Known RUN_END) context None
       (Some (if failure = None then ''success'' else ''error''))
       (case failure of None \<Rightarrow> [] | Some t \<Rightarrow> [(KStr ''error.type'', AStr t)]) w)"

definition observe_run_end :: "surroundings \<Rightarrow> runtime_context \<Rightarrow> string option \<Rightarrow> client \<Rightarrow> world \<Rightarrow> client \<times> world" where
  "observe_run_end en given failure c w =
     (if \<not> present (rx_run_id given) then (c, w)
      else
        let (report, c1) = lock_run_end (enriched en w given) c
        in (c1, case report of None \<Rightarrow> w | Some context \<Rightarrow> emit_run_end en c1 context failure w))"

text \<open>\<^verbatim>\<open>current_context(ensure_run=True)\<close> may start an implicit run.\<close>

definition ensured_context :: "surroundings \<Rightarrow> client \<Rightarrow> world \<Rightarrow> runtime_context \<times> client \<times> world" where
  "ensured_context en c w =
     (let base = current_context (wo_runtime w); snap = current_trace_snapshot (en_current en) (wo_registry w);
          run_id = oor (rx_run_id base) (ts_run_id snap)
      in if present run_id then (with_trace snap run_id base, c, w)
         else if present (ts_trace_id snap) then
           (case ensure_current_trace_run snap (en_fresh_run en) (rx_user_id base) (wo_registry w) of
              ((r, created), reg) \<Rightarrow>
                let traced = base\<lparr>rx_run_id := Some r, rx_trace_id := ts_trace_id snap, rx_span_id := ts_span_id snap,
                               rx_parent_span_id := ts_parent_span_id snap\<rparr>;
                    w1 = w\<lparr>wo_registry := reg\<rparr>;
                    (c2, w2) = (if created then observe_run_start en traced c w1 else (c, w1))
                in (with_trace snap (Some r) base, c2, w2))
         else
           (case ensure_implicit_run (en_fresh_run en) (wo_runtime w) of
              (implicit, rt) \<Rightarrow>
                let (c2, w2) = observe_run_start en implicit c (w\<lparr>wo_runtime := rt\<rparr>)
                in (with_trace snap (rx_run_id implicit) implicit, c2, w2)))"

definition client_emit :: "surroundings \<Rightarrow> event_name \<Rightarrow> runtime_context option \<Rightarrow> string option \<Rightarrow> string option \<Rightarrow>
    attributes \<Rightarrow> client \<Rightarrow> world \<Rightarrow> promptrail_event option \<times> client \<times> world" where
  "client_emit en kind context name status attributes c w =
     (case (case context of Some runtime \<Rightarrow> (runtime, c, w) | None \<Rightarrow> ensured_context en c w) of
        (runtime, c1, w1) \<Rightarrow>
          (case emit_in en c1 kind runtime name status attributes w1 of (e, w2) \<Rightarrow> (e, c1, w2)))"

section \<open>Spans\<close>

definition run_name :: "string \<Rightarrow> string" where
  "run_name r = (if is_prefix ''run_'' r then r else ''run_'' @ r)"

definition observe_otel_run_start :: "surroundings \<Rightarrow> string \<Rightarrow> string \<Rightarrow> client \<Rightarrow> world \<Rightarrow> client \<times> world" where
  "observe_otel_run_start en run_id trace_id c w =
     observe_run_start en (empty_context\<lparr>rx_user_id := rx_user_id (observed_context en w),
       rx_run_id := Some (run_name run_id), rx_trace_id := Some trace_id\<rparr>) c w"

definition observe_otel_run_end :: "surroundings \<Rightarrow> string \<Rightarrow> string \<Rightarrow> client \<Rightarrow> world \<Rightarrow> client \<times> world" where
  "observe_otel_run_end en run_id trace_id c w =
     observe_run_end en (empty_context\<lparr>rx_run_id := Some (run_name run_id), rx_trace_id := Some trace_id\<rparr>) None c w"

definition optional_text :: "pyany \<Rightarrow> string option" where
  "optional_text v = (case v of AStr s \<Rightarrow> if s \<noteq> [] then Some s else None | _ \<Rightarrow> None)"

definition normalize_otel_status :: "pyany \<Rightarrow> string \<Rightarrow> bool \<Rightarrow> string" where
  "normalize_otel_status v phase has_error =
     (if has_error \<or> contains ''error'' (casefold (any_str (aor v (AStr [])))) then ''error''
      else if phase = ''start'' then ''started'' else ''success'')"

definition nonneg_number :: "pyany \<Rightarrow> bool" where
  "nonneg_number v = (case v of AInt i \<Rightarrow> 0 \<le> i | ABool b \<Rightarrow> True | AFloat x \<Rightarrow> Fin 0 \<le> x | _ \<Rightarrow> False)"

text \<open>\<open>d[k] = v\<close>\<close>

definition aset :: "string \<Rightarrow> pyany \<Rightarrow> attributes \<Rightarrow> attributes" where
  "aset k v d = dict_set (KStr k) v d"

definition otel_attributes :: "attributes \<Rightarrow> string \<Rightarrow> attributes" where
  "otel_attributes raw kind =
     (let d = aset ''otel.span.kind'' (AStr kind) (case aget raw ''attributes'' of AMap a \<Rightarrow> a | _ \<Rightarrow> []);
          duration = aget raw ''duration_ms''
      in if nonneg_number duration then aset ''duration_ms'' duration d else d)"

definition observe_otel_event :: "surroundings \<Rightarrow> attributes \<Rightarrow> client \<Rightarrow> world \<Rightarrow> client \<times> world" where
  "observe_otel_event en raw c w =
     (let kind = any_str (aor (aget raw ''kind'') (AStr ''other''));
          phase = any_str (aor (aget raw ''phase'') (AStr ''start''));
          given = any_str (aor (aget raw ''run_id'') (AStr []));
          run_id = (if given = [] then en_fresh_run en else run_name given);
          context = \<lparr>rx_user_id = oor (optional_text (aget raw ''user_id'')) (rx_user_id (observed_context en w)),
            rx_run_id = Some run_id, rx_trace_id = optional_text (aget raw ''trace_id''),
            rx_span_id = optional_text (aget raw ''span_id''),
            rx_parent_span_id = optional_text (aget raw ''parent_span_id'')\<rparr>;
          status = normalize_otel_status (aget raw ''status'') phase (aget raw ''has_error'' = ABool True);
          name = optional_text (aget raw ''name'');
          w1 = snd (emit_in en c (Text (kind @ ''.'' @ phase)) context name (Some status) (otel_attributes raw kind) w)
      in (c, if status = ''error''
             then snd (emit_in en c (Known ERROR) context name (Some ''error'') [(KStr ''source'', AStr ''opentelemetry'')] w1)
             else w1))"

section \<open>The process\<close>

text \<open>
  The runs that are open, collected under the lock; then each is ended. The end of a shutdown
  drops the worker and the state of the context variables. A second shutdown does nothing.
\<close>

definition open_runs :: "client \<Rightarrow> runtime_context list" where
  "open_runs c = map snd (filter (\<lambda>(run_id, _). run_id \<notin> cl_ended_runs c) (cl_run_contexts c))"

definition drop_worker :: "client \<Rightarrow> client" where
  "drop_worker c = c\<lparr>cl_worker := False\<rparr>"

definition clear_world :: "world \<Rightarrow> world" where
  "clear_world w = w\<lparr>wo_runtime := clear_runtime_context (set_runtime_config None (set_lifecycle_callbacks None (wo_runtime w)))\<rparr>"

definition client_shutdown :: "surroundings \<Rightarrow> client \<Rightarrow> world \<Rightarrow> client \<times> world" where
  "client_shutdown en c w =
     (if cl_closed c then (c, w)
      else
        let closed = c\<lparr>cl_closed := True\<rparr>;
            (c1, w1) = fold (\<lambda>context (c, w). observe_run_end en context None c w) (open_runs closed) (closed, w)
        in (drop_worker c1, clear_world w1))"

definition initialize :: "surroundings \<Rightarrow> bool \<Rightarrow> runtime_config \<Rightarrow> client option \<Rightarrow> world \<Rightarrow> client \<times> world" where
  "initialize en worker_ok config old w =
     client_start worker_ok (new_client config)
       (case old of None \<Rightarrow> w | Some c \<Rightarrow> snd (client_shutdown en c w))"

definition process_shutdown :: "surroundings \<Rightarrow> client option \<Rightarrow> world \<Rightarrow> client option \<times> world" where
  "process_shutdown en cl w = (None, case cl of None \<Rightarrow> w | Some c \<Rightarrow> snd (client_shutdown en c w))"

definition process_context :: "surroundings \<Rightarrow> bool \<Rightarrow> client option \<Rightarrow> world \<Rightarrow> runtime_context \<times> client option \<times> world" where
  "process_context en ensure_run cl w =
     (case cl of
        Some c \<Rightarrow> if ensure_run then (case ensured_context en c w of (rx, c', w') \<Rightarrow> (rx, Some c', w'))
                  else (observed_context en w, cl, w)
      | None \<Rightarrow>
          let context = current_context (wo_runtime w)
          in if ensure_run \<and> \<not> present (rx_run_id context)
             then (case ensure_implicit_run (en_fresh_run en) (wo_runtime w) of (rx, rt) \<Rightarrow> (rx, None, w\<lparr>wo_runtime := rt\<rparr>))
             else (context, None, w))"

definition emit_event :: "surroundings \<Rightarrow> event_name \<Rightarrow> string option \<Rightarrow> string option \<Rightarrow> attributes \<Rightarrow> client option \<Rightarrow>
    world \<Rightarrow> promptrail_event option \<times> client option \<times> world" where
  "emit_event en kind name status attributes cl w = (case cl of
     None \<Rightarrow> (None, None, w)
   | Some c \<Rightarrow> (case client_emit en kind None name status attributes c w of (e, c', w') \<Rightarrow> (e, Some c', w')))"

text \<open>The notes of the span processor reach the client while tracing is enabled.\<close>

definition dispatch_notice :: "surroundings \<Rightarrow> notice \<Rightarrow> client \<times> world \<Rightarrow> client \<times> world" where
  "dispatch_notice en n cw = (case cw of (c, w) \<Rightarrow>
     if \<not> cf_enable_opentelemetry (cl_config c) then (c, w)
     else case n of
       NRunStart r t \<Rightarrow> observe_otel_run_start en r t c w
     | NEvent raw \<Rightarrow> observe_otel_event en raw c w
     | NRunEnd r t \<Rightarrow> observe_otel_run_end en r t c w)"

end
