(* ===== verification/Sdk_Props.thy ===== *)
theory Sdk_Props
  imports Sdk
begin

text \<open>
  The lifecycle of runs over any history of the client in which one operation follows another:
  the books it keeps agree with each other and with the events it made, and a shutdown ends
  whatever is open. The lemmas on the parts under the lock serve the threads as well.
\<close>

section \<open>Histories\<close>

inductive client_step :: "client \<times> world \<Rightarrow> client \<times> world \<Rightarrow> bool" where
  c_start: "observe_run_start en rx c w = (c', w') \<Longrightarrow> client_step (c, w) (c', w')"
| c_end: "observe_run_end en rx failure c w = (c', w') \<Longrightarrow> client_step (c, w) (c', w')"
| c_ensure: "ensured_context en c w = (rx, c', w') \<Longrightarrow> client_step (c, w) (c', w')"
| c_emit: "kind \<notin> {Known RUN_START, Known RUN_END} \<Longrightarrow>
    client_emit en kind context name status attributes c w = (e, c', w') \<Longrightarrow> client_step (c, w) (c', w')"
| c_notice: "dispatch_notice en n (c, w) = (c', w') \<Longrightarrow> client_step (c, w) (c', w')"
| c_shutdown: "client_shutdown en c w = (c', w') \<Longrightarrow> client_step (c, w) (c', w')"
| c_other: "wo_events w' = wo_events w \<Longrightarrow> client_step (c, w) (c, w')"

inductive client_reachable :: "client \<times> world \<Rightarrow> bool" where
  cr_new: "wo_events w = [] \<Longrightarrow> client_reachable (new_client config, w)"
| cr_step: "client_reachable s \<Longrightarrow> client_step s s' \<Longrightarrow> client_reachable s'"

section \<open>The invariant\<close>

definition lifecycle :: "string \<Rightarrow> promptrail_event list \<Rightarrow> event_name list" where
  "lifecycle r events = map ev_type (filter (\<lambda>e. ev_run_id e = r \<and> ev_type e \<in> {Known RUN_START, Known RUN_END}) events)"

definition open_after :: "event_name list \<Rightarrow> bool" where
  "open_after ks \<longleftrightarrow> ks \<noteq> [] \<and> last ks = Known RUN_START"

text \<open>No start follows a start of the same run.\<close>

definition no_restart :: "event_name list \<Rightarrow> bool" where
  "no_restart ks = successively (\<lambda>a b. \<not> (a = Known RUN_START \<and> b = Known RUN_START)) ks"

definition books_ok :: "client \<Rightarrow> bool" where
  "books_ok c \<longleftrightarrow> cl_started_runs c \<inter> cl_ended_runs c = {} \<and> dict_ok (cl_run_contexts c) \<and>
     (\<forall>r. dict_get (cl_run_contexts c) r \<noteq> None \<longleftrightarrow> r \<in> cl_started_runs c) \<and>
     (\<forall>r x. dict_get (cl_run_contexts c) r = Some x \<longrightarrow> rx_run_id x = Some r \<and> r \<noteq> []) \<and>
     cl_ended_runs c = set (cl_ended_run_order c) \<and> distinct (cl_ended_run_order c) \<and>
     length (cl_ended_run_order c) \<le> ended_limit"

definition events_ok :: "client \<Rightarrow> promptrail_event list \<Rightarrow> bool" where
  "events_ok c events \<longleftrightarrow> (\<forall>r. no_restart (lifecycle r events) \<and> (open_after (lifecycle r events) \<longleftrightarrow> r \<in> cl_started_runs c))"

definition client_ok :: "client \<times> world \<Rightarrow> bool" where
  "client_ok s \<longleftrightarrow> books_ok (fst s) \<and> events_ok (fst s) (wo_events (snd s))"

lemma lifecycle_append [simp]: "lifecycle r (xs @ ys) = lifecycle r xs @ lifecycle r ys"
  by (simp add: lifecycle_def)

lemma lifecycle_one: "lifecycle r [e] = (if ev_run_id e = r \<and> ev_type e \<in> {Known RUN_START, Known RUN_END} then [ev_type e] else [])"
  by (simp add: lifecycle_def)

lemma no_restart_snoc: "no_restart (ks @ [k]) \<longleftrightarrow> no_restart ks \<and> \<not> (open_after ks \<and> k = Known RUN_START)"
  by (auto simp: no_restart_def open_after_def successively_append_iff)

section \<open>Emission\<close>

lemma emit_in_events:
  assumes "emit_in en c kind rx name status attributes w = (e, w')"
  shows "wo_runtime w' = wo_runtime w \<and> wo_registry w' = wo_registry w \<and>
    (if present (rx_run_id rx)
     then \<exists>ev. wo_events w' = wo_events w @ [ev] \<and> ev_type ev = kind \<and> rx_run_id rx = Some (ev_run_id ev)
     else wo_events w' = wo_events w)"
  using assms by (auto simp: emit_in_def event_from_context_def present_def split: option.splits sum.splits if_splits)

lemma emit_in_lifecycle:
  "lifecycle r (wo_events (snd (emit_in en c kind rx name status attributes w))) = lifecycle r (wo_events w) @
     (if present (rx_run_id rx) \<and> rx_run_id rx = Some r \<and> kind \<in> {Known RUN_START, Known RUN_END} then [kind] else [])"
proof -
  obtain e w' where "emit_in en c kind rx name status attributes w = (e, w')" by (cases "emit_in en c kind rx name status attributes w")
  with emit_in_events [OF this] show ?thesis by (auto simp: lifecycle_one split: if_splits)
qed

lemma enriched_run: "present (rx_run_id rx) \<Longrightarrow> rx_run_id (enriched en w rx) = rx_run_id rx"
  by (auto simp: enriched_def Let_def merge_context_def oor_first)

lemma merged_run: "present (rx_run_id b) \<Longrightarrow> rx_run_id (merge_context a b) = rx_run_id b"
  by (simp add: merge_context_def oor_first)

section \<open>The parts under the lock keep the books\<close>

lemma lock_start:
  assumes "books_ok c" "rx_run_id x = Some r" "r \<noteq> []" "lock_run_start x c = (new, c')"
  shows "books_ok c' \<and> (new \<longleftrightarrow> r \<notin> cl_started_runs c) \<and> cl_started_runs c' = insert r (cl_started_runs c) \<and>
    cl_ended_runs c' = cl_ended_runs c - {r} \<and> cl_closed c' = cl_closed c"
proof -
  define c1 where "c1 = (if r \<in> cl_ended_runs c
                  then c\<lparr>cl_ended_runs := cl_ended_runs c - {r}, cl_ended_run_order := remove1 r (cl_ended_run_order c)\<rparr> else c)"
  have same: "cl_started_runs c1 = cl_started_runs c" "cl_run_contexts c1 = cl_run_contexts c" "cl_closed c1 = cl_closed c"
    "cl_ended_runs c1 = cl_ended_runs c - {r}" by (auto simp: c1_def)
  have ok1: "books_ok c1" "r \<notin> cl_ended_runs c1" using assms(1)
    by (auto simp: c1_def books_ok_def length_remove1)
  show ?thesis
  proof (cases "r \<in> cl_started_runs c")
    case True
    then obtain old where old: "dict_get (cl_run_contexts c) r = Some old"
      using assms(1) unfolding books_ok_def by blast
    have "new = False" "c' = c1\<lparr>cl_run_contexts := dict_set r (merge_context old x) (cl_run_contexts c1)\<rparr>"
      using assms(2,4) True old same by (simp_all add: lock_run_start_def Let_def flip: c1_def)
    moreover have "rx_run_id (merge_context old x) = Some r" using assms(2,3) by (simp add: merged_run present_def)
    ultimately show ?thesis using ok1 same True assms(3) by (auto simp: books_ok_def dict_get_set)
  next
    case False
    then have "new = True" "c' = c1\<lparr>cl_started_runs := insert r (cl_started_runs c1),
                         cl_run_contexts := dict_set r x (cl_run_contexts c1)\<rparr>"
      using assms(2,4) same by (simp_all add: lock_run_start_def Let_def flip: c1_def)
    then show ?thesis using ok1 same False assms(2,3) by (auto simp: books_ok_def dict_get_set)
  qed
qed

lemma lock_end:
  assumes "books_ok c" "rx_run_id x = Some r" "r \<noteq> []" "lock_run_end x c = (report, c')"
  shows "books_ok c' \<and> (report = None \<longleftrightarrow> r \<in> cl_ended_runs c) \<and> (report = None \<longrightarrow> c' = c) \<and>
    (\<forall>y. report = Some y \<longrightarrow> rx_run_id y = Some r) \<and> cl_started_runs c' = cl_started_runs c - {r} \<and>
    r \<in> cl_ended_runs c' \<and> cl_ended_runs c' \<subseteq> insert r (cl_ended_runs c) \<and> cl_closed c' = cl_closed c"
proof (cases "r \<in> cl_ended_runs c")
  case True
  moreover have "r \<notin> cl_started_runs c" using True assms(1) by (auto simp: books_ok_def)
  ultimately show ?thesis using assms by (auto simp: lock_run_end_def Let_def)
next
  case False
  define y where "y = (case dict_get (cl_run_contexts c) r of None \<Rightarrow> x | Some stored \<Rightarrow> merge_context stored x)"
  have y: "rx_run_id y = Some r" using assms(2,3) by (auto simp: y_def merged_run present_def split: option.split)
  define full where "full = (length (cl_ended_run_order c) = ended_limit)"
  define c1 where "c1 = c\<lparr>cl_ended_runs := insert r (if full then cl_ended_runs c - {hd (cl_ended_run_order c)} else cl_ended_runs c),
      cl_ended_run_order := (if full then tl (cl_ended_run_order c) else cl_ended_run_order c) @ [r],
      cl_started_runs := cl_started_runs c - {r}, cl_run_contexts := dict_pop r (cl_run_contexts c)\<rparr>"
  have e: "report = Some y" "c' = c1"
    using assms(2,4) False by (auto simp: lock_run_end_def Let_def c1_def full_def y_def)
  have "books_ok c1"
  proof (cases full)
    case True
    then obtain o1 order where o: "cl_ended_run_order c = o1 # order"
      by (cases "cl_ended_run_order c") (auto simp: full_def ended_limit_def)
    with True False assms(1) show ?thesis
      by (auto simp: c1_def books_ok_def dict_get_pop full_def)
  next
    case notfull: False
    with False assms(1) show ?thesis by (auto simp: c1_def books_ok_def dict_get_pop full_def)
  qed
  then show ?thesis using e y False by (auto simp: c1_def)
qed

section \<open>Starts and ends of one thread keep the books\<close>

lemma emit_start_lifecycle:
  "rx_run_id x = Some q \<Longrightarrow> q \<noteq> [] \<Longrightarrow> lifecycle r (wo_events (emit_run_start en c x w)) =
     lifecycle r (wo_events w) @ (if r = q then [Known RUN_START] else [])"
  by (auto simp: emit_run_start_def emit_in_lifecycle present_def)

lemma emit_end_lifecycle:
  "rx_run_id x = Some q \<Longrightarrow> q \<noteq> [] \<Longrightarrow> lifecycle r (wo_events (emit_run_end en c x failure w)) =
     lifecycle r (wo_events w) @ (if r = q then [Known RUN_END] else [])"
  by (auto simp: emit_run_end_def emit_in_lifecycle present_def)

lemma observed_start_ok:
  assumes "client_ok (c, w)"
  shows "client_ok (observe_run_start en rx c w)"
proof (cases "present (rx_run_id rx)")
  case False
  with assms show ?thesis by (simp add: observe_run_start_def)
next
  case True
  then obtain r where r: "rx_run_id rx = Some r" "r \<noteq> []" by (auto simp: present_def split: option.splits)
  have x: "rx_run_id (enriched en w rx) = Some r" using enriched_run [OF True] r by simp
  obtain new c' where l: "lock_run_start (enriched en w rx) c = (new, c')" by (cases "lock_run_start (enriched en w rx) c")
  have books: "books_ok c" "events_ok c (wo_events w)" using assms by (auto simp: client_ok_def)
  note k = lock_start [OF books(1) x r(2) l]
  have "events_ok c' (wo_events (if new then emit_run_start en c' (enriched en w rx) w else w))"
    using books(2) k unfolding events_ok_def
    by (auto simp: emit_start_lifecycle [OF x r(2)] no_restart_snoc) (auto simp: open_after_def)
  with k True l show ?thesis by (simp add: observe_run_start_def client_ok_def)
qed

lemma observed_end_ok:
  assumes "client_ok (c, w)"
  shows "client_ok (observe_run_end en rx failure c w)"
proof (cases "present (rx_run_id rx)")
  case False
  with assms show ?thesis by (simp add: observe_run_end_def)
next
  case True
  then obtain r where r: "rx_run_id rx = Some r" "r \<noteq> []" by (auto simp: present_def split: option.splits)
  have x: "rx_run_id (enriched en w rx) = Some r" using enriched_run [OF True] r by simp
  obtain report c' where l: "lock_run_end (enriched en w rx) c = (report, c')" by (cases "lock_run_end (enriched en w rx) c")
  have books: "books_ok c" "events_ok c (wo_events w)" using assms by (auto simp: client_ok_def)
  note k = lock_end [OF books(1) x r(2) l]
  have "events_ok c' (wo_events (case report of None \<Rightarrow> w | Some y \<Rightarrow> emit_run_end en c' y failure w))"
  proof (cases report)
    case None
    with books(2) k show ?thesis by simp
  next
    case (Some y)
    with k have "rx_run_id y = Some r" by blast
    from emit_end_lifecycle [OF this r(2)] Some books(2) k show ?thesis unfolding events_ok_def
      by (auto simp: no_restart_snoc) (auto simp: open_after_def)
  qed
  with k True l show ?thesis by (simp add: observe_run_end_def client_ok_def)
qed

lemma emit_ok:
  "client_ok (c, w) \<Longrightarrow> kind \<notin> {Known RUN_START, Known RUN_END} \<Longrightarrow>
     client_ok (c, snd (emit_in en c kind rx name status attributes w))"
  by (simp add: client_ok_def events_ok_def emit_in_lifecycle)

lemma frame_ok: "client_ok (c, w) \<Longrightarrow> wo_events w' = wo_events w \<Longrightarrow> client_ok (c, w')"
  by (simp add: client_ok_def)

lemma ensured_ok: "client_ok (c, w) \<Longrightarrow> client_ok (snd (ensured_context en c w))"
  using observed_start_ok frame_ok unfolding ensured_context_def Let_def
  by (auto split: prod.splits)

lemma client_emit_ok:
  assumes "client_ok (c, w)" "kind \<notin> {Known RUN_START, Known RUN_END}"
    and "client_emit en kind context name status attributes c w = (e, c', w')"
  shows "client_ok (c', w')"
proof -
  obtain rx c1 w1 where 1: "(case context of Some runtime \<Rightarrow> (runtime, c, w) | None \<Rightarrow> ensured_context en c w) = (rx, c1, w1)"
    by (cases "(case context of Some runtime \<Rightarrow> (runtime, c, w) | None \<Rightarrow> ensured_context en c w)") auto
  have "client_ok (c1, w1)" using ensured_ok [OF assms(1), of en] 1 assms(1) by (auto split: option.splits)
  from emit_ok [OF this assms(2)] assms(3) 1 show ?thesis
    by (auto simp: client_emit_def split: prod.splits) (metis snd_conv)
qed

lemma otel_event_ok:
  assumes "client_ok (c, w)"
  shows "client_ok (observe_otel_event en raw c w)"
proof -
  have two: "client_ok (c, if b then snd (emit_in en c (Known ERROR) x n s a (snd (emit_in en c (Text k) x' n' s' a' w)))
      else snd (emit_in en c (Text k) x' n' s' a' w))" for b x n s a k x' n' s' a'
    using emit_ok [OF emit_ok [OF assms]] emit_ok [OF assms] by simp
  show ?thesis unfolding observe_otel_event_def Let_def by (rule two)
qed

lemma notice_ok: "client_ok (c, w) \<Longrightarrow> client_ok (dispatch_notice en n (c, w))"
  using otel_event_ok observed_start_ok observed_end_ok
  by (auto simp: dispatch_notice_def observe_otel_run_start_def observe_otel_run_end_def split: notice.split)

section \<open>Shutdown\<close>

lemma end_started:
  assumes "client_ok (c, w)" "rx_run_id rx = Some r" "r \<noteq> []"
  shows "cl_started_runs (fst (observe_run_end en rx failure c w)) = cl_started_runs c - {r}"
proof -
  have p: "present (rx_run_id rx)" using assms(2,3) by (simp add: present_def)
  obtain report c' where l: "lock_run_end (enriched en w rx) c = (report, c')" by (cases "lock_run_end (enriched en w rx) c")
  have "books_ok c" "rx_run_id (enriched en w rx) = Some r" using assms(1,2) enriched_run [OF p] by (simp_all add: client_ok_def)
  from lock_end [OF this assms(3) l] p l show ?thesis by (simp add: observe_run_end_def)
qed

lemma end_all:
  assumes "client_ok (c, w)" "\<forall>x\<in>set xs. present (rx_run_id x)"
  shows "client_ok (fold (\<lambda>x (c, w). observe_run_end en x None c w) xs (c, w)) \<and>
    cl_started_runs (fst (fold (\<lambda>x (c, w). observe_run_end en x None c w) xs (c, w))) =
      cl_started_runs c - {r. \<exists>x\<in>set xs. rx_run_id x = Some r}"
  using assms
proof (induction xs arbitrary: c w)
  case (Cons x xs)
  then obtain r where r: "rx_run_id x = Some r" "r \<noteq> []" by (auto simp: present_def split: option.splits)
  obtain c1 w1 where 1: "observe_run_end en x None c w = (c1, w1)" by (cases "observe_run_end en x None c w")
  from observed_end_ok [OF Cons.prems(1), of en x None] end_started [OF Cons.prems(1) r, of en None] 1
  have "client_ok (c1, w1)" "cl_started_runs c1 = cl_started_runs c - {r}" by simp_all
  with Cons.IH [of c1 w1] Cons.prems(2) 1 r show ?case by auto
qed simp

lemma closed_flag_ok: "client_ok (c\<lparr>cl_closed := b\<rparr>, w) = client_ok (c, w)"
  by (simp add: client_ok_def books_ok_def events_ok_def)

lemma worker_flag_ok: "client_ok (c\<lparr>cl_worker := b\<rparr>, w) = client_ok (c, w)"
  by (simp add: client_ok_def books_ok_def events_ok_def)

lemma open_runs_present: "books_ok c \<Longrightarrow> x \<in> set (open_runs c) \<Longrightarrow> present (rx_run_id x)"
  by (fastforce simp: open_runs_def books_ok_def dict_ok_def present_def)

lemma open_runs_all:
  assumes "books_ok c" "r \<in> cl_started_runs c"
  shows "\<exists>x\<in>set (open_runs c). rx_run_id x = Some r"
proof -
  have "dict_get (cl_run_contexts c) r \<noteq> None" using assms unfolding books_ok_def by metis
  then obtain x where x: "dict_get (cl_run_contexts c) r = Some x" by (cases "dict_get (cl_run_contexts c) r") auto
  then have "rx_run_id x = Some r" using assms(1) unfolding books_ok_def by blast
  moreover have "r \<notin> cl_ended_runs c" using assms by (auto simp: books_ok_def)
  then have "x \<in> set (open_runs c)" using map_of_SomeD [OF x] by (force simp: open_runs_def)
  ultimately show ?thesis by blast
qed

lemma shutdown_ok:
  assumes "client_ok (c, w)" "client_shutdown en c w = (c', w')"
  shows "client_ok (c', w') \<and> (\<not> cl_closed c \<longrightarrow> cl_started_runs c' = {})"
proof (cases "cl_closed c")
  case True
  with assms show ?thesis by (simp add: client_shutdown_def)
next
  case False
  define xs where "xs = open_runs c"
  have closed: "open_runs (c\<lparr>cl_closed := True\<rparr>) = xs" by (simp add: open_runs_def xs_def)
  have books: "books_ok c" using assms(1) by (simp add: client_ok_def)
  obtain c1 w1 where f: "fold (\<lambda>context (c, w). observe_run_end en context None c w) xs (c\<lparr>cl_closed := True\<rparr>, w) = (c1, w1)"
    by (cases "fold (\<lambda>context (c, w). observe_run_end en context None c w) xs (c\<lparr>cl_closed := True\<rparr>, w)")
  have all: "\<forall>x\<in>set xs. present (rx_run_id x)" using open_runs_present [OF books] by (simp add: xs_def)
  have every: "\<exists>x\<in>set xs. rx_run_id x = Some r" if "r \<in> cl_started_runs c" for r
    unfolding xs_def by (rule open_runs_all [OF books that])
  have "client_ok (c\<lparr>cl_closed := True\<rparr>, w)" using assms(1) by (simp add: closed_flag_ok)
  from end_all [OF this all, of en] have
    1: "client_ok (c1, w1)" "cl_started_runs c1 = cl_started_runs c - {r. \<exists>x\<in>set xs. rx_run_id x = Some r}"
    unfolding f by simp_all
  have none: "cl_started_runs c1 = {}" using 1(2) every by blast
  have "c' = c1\<lparr>cl_worker := False\<rparr>" "wo_events w' = wo_events w1"
    using assms(2) False f by (auto simp: client_shutdown_def Let_def closed drop_worker_def clear_world_def)
  with 1(1) none frame_ok [of c1 w1 w'] show ?thesis by (simp add: worker_flag_ok)
qed

lemma client_step_ok: "client_step s s' \<Longrightarrow> client_ok s \<Longrightarrow> client_ok s'"
proof (induction rule: client_step.induct)
  case (c_start en rx c w c' w')
  then show ?case using observed_start_ok [of c w en rx] by simp
next
  case (c_end en rx failure c w c' w')
  then show ?case using observed_end_ok [of c w en rx failure] by simp
next
  case (c_ensure en c w rx c' w')
  then show ?case using ensured_ok [of c w en] by simp
next
  case (c_emit kind en cx name status attributes c w e c' w')
  then show ?case using client_emit_ok by blast
next
  case (c_notice en n c w c' w')
  then show ?case using notice_ok [of c w en n] by simp
next
  case (c_shutdown en c w c' w')
  then show ?case using shutdown_ok by blast
next
  case (c_other w' w c)
  then show ?case using frame_ok by blast
qed

lemma client_reachable_ok: "client_reachable s \<Longrightarrow> client_ok s"
proof (induction rule: client_reachable.induct)
  case (cr_new w config)
  then show ?case
    by (simp add: client_ok_def books_ok_def events_ok_def new_client_def lifecycle_def no_restart_def open_after_def)
next
  case (cr_step s s')
  then show ?case using client_step_ok by blast
qed

section \<open>A single thread\<close>

definition sample_config :: runtime_config where
  "sample_config = \<lparr>cf_api_key = None, cf_application = Some ''app'', cf_environment = None, cf_user_id = NoUser,
     cf_privacy_mode = ''metadata_only'', cf_debug = False, cf_gateway_url = ''https://api.promptrail.ai/v1'',
     cf_runtime_events_endpoint = ''https://api.promptrail.ai/v1/runtime/events'', cf_export_enabled = True,
     cf_enable_opentelemetry = True, cf_max_queue_size = 8, cf_export_batch_size = 2, cf_export_flush_interval = Fin 1,
     cf_export_shutdown_timeout = Fin 5, cf_export_timeout = Fin 5, cf_export_gzip = True, cf_max_export_retries = 3,
     cf_sdk_version = ''0.1.0'', cf_max_attribute_depth = 4, cf_max_attribute_items = 50, cf_max_string_length = 2048,
     cf_max_total_attributes = 200\<rparr>"

definition sample_surroundings :: surroundings where
  "sample_surroundings = \<lparr>en_current = None, en_fresh_run = ''run_x'', en_event_id = (\<lambda>_. ''evt''), en_now_ms = (\<lambda>_. 1),
     en_sdk_version = ''0.1.0''\<rparr>"

definition sample_world :: world where
  "sample_world = \<lparr>wo_runtime = initial_runtime, wo_registry = empty_registry, wo_events = []\<rparr>"

text \<open>
  One thread: no run is started again before it was ended, a run counts as started exactly while
  its last lifecycle event is a start, and a shutdown ends every run that is open, once.
\<close>

lemma sequential_lifecycle:
  assumes "client_reachable (c, w)" "client_shutdown en c w = (c', w')"
  shows "(\<forall>r. no_restart (lifecycle r (wo_events w)) \<and>
      (open_after (lifecycle r (wo_events w)) \<longleftrightarrow> r \<in> cl_started_runs c)) \<and>
    card (cl_ended_runs c) \<le> ended_limit \<and> cl_started_runs c \<inter> cl_ended_runs c = {} \<and>
    (if cl_closed c then c' = c \<and> w' = w
     else \<forall>r. no_restart (lifecycle r (wo_events w')) \<and> \<not> open_after (lifecycle r (wo_events w')))"
proof -
  have ok: "client_ok (c, w)" by (rule client_reachable_ok [OF assms(1)])
  then have books: "books_ok c" "events_ok c (wo_events w)" by (simp_all add: client_ok_def)
  have "card (cl_ended_runs c) \<le> ended_limit" using books(1) card_length [of "cl_ended_run_order c"]
    by (auto simp: books_ok_def)
  moreover have "if cl_closed c then c' = c \<and> w' = w
     else \<forall>r. no_restart (lifecycle r (wo_events w')) \<and> \<not> open_after (lifecycle r (wo_events w'))"
    using shutdown_ok [OF ok assms(2)] assms(2) by (auto simp: client_ok_def events_ok_def client_shutdown_def)
  moreover have "cl_started_runs c \<inter> cl_ended_runs c = {}" using books(1) unfolding books_ok_def by blast
  ultimately show ?thesis using books(2) unfolding events_ok_def by blast
qed

end
