(* ===== verification/Sdk_Threads.thy ===== *)
theory Sdk_Threads
  imports Sdk_Props
begin

text \<open>
  The client under threads (\<^verbatim>\<open>src/promptrail/sdk.py\<close>). The state is the client, the world, what each
  thread is about to do, and the log of the starts and ends that were decided under
  \<^verbatim>\<open>_runs_lock\<close>. One step is what a thread does between two points where another may run: a part
  under the lock, an emission, or a change of the world. A start, an end or a shutdown is a
  sequence of steps of its thread, and the steps of the threads interleave in any way.
\<close>

section \<open>Threads\<close>

text \<open>
  A thread in \<^verbatim>\<open>observe_run_start\<close> has read the current context and waits for the lock, or has
  left it and is to emit. A thread in \<^verbatim>\<open>observe_run_end\<close> likewise; when it runs inside
  \<^verbatim>\<open>shutdown\<close> it carries the contexts that are still to be ended. A thread in \<^verbatim>\<open>shutdown\<close>
  has found the client open, has marked it closed, ends what it collected, and clears.
\<close>

datatype activity =
    Idle
  | Starting runtime_context
  | Announcing runtime_context
  | Ending runtime_context "string option" "runtime_context list option"
  | Reporting runtime_context "string option" "runtime_context list option"
  | Stopping
  | Collecting
  | Closing "runtime_context list"
  | Clearing

fun after_end :: "runtime_context list option \<Rightarrow> activity" where
  "after_end None = Idle"
| "after_end (Some contexts) = Closing contexts"

type_synonym lifecycle_log = "(string \<times> event_name) list"

type_synonym system = "client \<times> world \<times> activity list \<times> lifecycle_log"

inductive sys_step :: "system \<Rightarrow> system \<Rightarrow> bool" where
  y_start: "i < length ts \<Longrightarrow> ts ! i = Idle \<Longrightarrow> present (rx_run_id given) \<Longrightarrow>
    sys_step (c, w, ts, lg) (c, w, ts[i := Starting (enriched en w given)], lg)"
| y_lock_start: "i < length ts \<Longrightarrow> ts ! i = Starting x \<Longrightarrow> lock_run_start x c = (new, c') \<Longrightarrow>
    sys_step (c, w, ts, lg) (c', w, ts[i := if new then Announcing x else Idle],
      lg @ (if new then [(the (rx_run_id x), Known RUN_START)] else []))"
| y_announce: "i < length ts \<Longrightarrow> ts ! i = Announcing x \<Longrightarrow>
    sys_step (c, w, ts, lg) (c, emit_run_start en c x w, ts[i := Idle], lg)"
| y_end: "i < length ts \<Longrightarrow> ts ! i = Idle \<Longrightarrow> present (rx_run_id given) \<Longrightarrow>
    sys_step (c, w, ts, lg) (c, w, ts[i := Ending (enriched en w given) failure None], lg)"
| y_lock_end: "i < length ts \<Longrightarrow> ts ! i = Ending x failure rest \<Longrightarrow> lock_run_end x c = (report, c') \<Longrightarrow>
    sys_step (c, w, ts, lg)
      (c', w, ts[i := case report of None \<Rightarrow> after_end rest | Some y \<Rightarrow> Reporting y failure rest],
       lg @ (case report of None \<Rightarrow> [] | Some y \<Rightarrow> [(the (rx_run_id y), Known RUN_END)]))"
| y_report: "i < length ts \<Longrightarrow> ts ! i = Reporting y failure rest \<Longrightarrow>
    sys_step (c, w, ts, lg) (c, emit_run_end en c y failure w, ts[i := after_end rest], lg)"
| y_shutdown: "i < length ts \<Longrightarrow> ts ! i = Idle \<Longrightarrow> \<not> cl_closed c \<Longrightarrow>
    sys_step (c, w, ts, lg) (c, w, ts[i := Stopping], lg)"
| y_close: "i < length ts \<Longrightarrow> ts ! i = Stopping \<Longrightarrow>
    sys_step (c, w, ts, lg) (c\<lparr>cl_closed := True\<rparr>, w, ts[i := Collecting], lg)"
| y_collect: "i < length ts \<Longrightarrow> ts ! i = Collecting \<Longrightarrow>
    sys_step (c, w, ts, lg) (c, w, ts[i := Closing (open_runs c)], lg)"
| y_next: "i < length ts \<Longrightarrow> ts ! i = Closing (x # xs) \<Longrightarrow>
    sys_step (c, w, ts, lg)
      (c, w, ts[i := if present (rx_run_id x) then Ending (enriched en w x) None (Some xs) else Closing xs], lg)"
| y_closed: "i < length ts \<Longrightarrow> ts ! i = Closing [] \<Longrightarrow>
    sys_step (c, w, ts, lg) (drop_worker c, w, ts[i := Clearing], lg)"
| y_clear: "i < length ts \<Longrightarrow> ts ! i = Clearing \<Longrightarrow>
    sys_step (c, w, ts, lg) (c, clear_world w, ts[i := Idle], lg)"
| y_emit: "kind \<notin> {Known RUN_START, Known RUN_END} \<Longrightarrow>
    sys_step (c, w, ts, lg) (c, snd (emit_in en c kind rx name status attributes w), ts, lg)"
| y_world: "wo_events w' = wo_events w \<Longrightarrow> sys_step (c, w, ts, lg) (c, w', ts, lg)"

inductive sys_reachable :: "system \<Rightarrow> bool" where
  yr_new: "wo_events w = [] \<Longrightarrow> sys_reachable (new_client config, w, replicate n Idle, [])"
| yr_step: "sys_reachable s \<Longrightarrow> sys_step s s' \<Longrightarrow> sys_reachable s'"

lemma reachable_sys_steps: "sys_step\<^sup>*\<^sup>* s s' \<Longrightarrow> sys_reachable s \<Longrightarrow> sys_reachable s'"
  by (induction rule: rtranclp_induct) (auto intro: yr_step)

section \<open>The operations of one thread are sequences of steps\<close>

lemma steps_more: "sys_step\<^sup>*\<^sup>* s s' \<Longrightarrow> sys_step s' s'' \<Longrightarrow> sys_step\<^sup>*\<^sup>* s s''"
  by (rule rtranclp.rtrancl_into_rtrancl)

lemma two_steps: "sys_step s s' \<Longrightarrow> sys_step s' s'' \<Longrightarrow> sys_step\<^sup>*\<^sup>* s s''"
  by (rule steps_more [OF r_into_rtranclp])

lemma start_alone:
  assumes "i < length ts" "ts ! i = Idle" "observe_run_start en given c w = (c', w')"
  shows "\<exists>lg'. sys_step\<^sup>*\<^sup>* (c, w, ts, lg) (c', w', ts, lg')"
proof (cases "present (rx_run_id given)")
  case False
  with assms(3) show ?thesis by (auto simp: observe_run_start_def)
next
  case True
  let ?x = "enriched en w given"
  obtain new c1 where l: "lock_run_start ?x c = (new, c1)" by (cases "lock_run_start ?x c")
  have e: "c' = c1" "w' = (if new then emit_run_start en c1 ?x w else w)"
    using assms(3) True l by (auto simp: observe_run_start_def)
  have same: "ts[i := Idle] = ts" using assms(2) by (metis list_update_id)
  have "sys_step (c, w, ts, lg) (c, w, ts[i := Starting ?x], lg)" by (rule y_start [OF assms(1,2) True])
  moreover have "sys_step (c, w, ts[i := Starting ?x], lg) (c1, w, ts[i := if new then Announcing ?x else Idle],
      lg @ (if new then [(the (rx_run_id ?x), Known RUN_START)] else []))"
    using y_lock_start [of i "ts[i := Starting ?x]" ?x c new c1 w lg] assms(1) l by simp
  ultimately have two: "sys_step\<^sup>*\<^sup>* (c, w, ts, lg) (c1, w, ts[i := if new then Announcing ?x else Idle],
      lg @ (if new then [(the (rx_run_id ?x), Known RUN_START)] else []))" by (blast intro: steps_more r_into_rtranclp)
  show ?thesis
  proof (cases new)
    case False
    with two e same show ?thesis by auto
  next
    case True
    have "sys_step (c1, w, ts[i := Announcing ?x], lg') (c1, emit_run_start en c1 ?x w, ts, lg')" for lg'
      using y_announce [of i "ts[i := Announcing ?x]" ?x c1 w lg' en] assms(1) same by simp
    with two True e show ?thesis by (auto intro: steps_more)
  qed
qed

lemma end_alone:
  assumes "i < length ts" "ts ! i = Ending x failure rest" "lock_run_end x c = (report, c')"
  shows "\<exists>lg'. sys_step\<^sup>*\<^sup>* (c, w, ts, lg)
    (c', case report of None \<Rightarrow> w | Some y \<Rightarrow> emit_run_end en c' y failure w, ts[i := after_end rest], lg')"
proof (cases report)
  case None
  then show ?thesis using y_lock_end [OF assms, of w lg] by (intro exI) (auto intro: r_into_rtranclp)
next
  case (Some y)
  have one: "sys_step (c, w, ts, lg) (c', w, ts[i := Reporting y failure rest], lg @ [(the (rx_run_id y), Known RUN_END)])"
    using y_lock_end [OF assms, of w lg] Some by simp
  have "sys_step (c', w, ts[i := Reporting y failure rest], lg') (c', emit_run_end en c' y failure w, ts[i := after_end rest], lg')" for lg'
    using y_report [of i "ts[i := Reporting y failure rest]" y failure rest c' w lg' en] assms(1) by simp
  with two_steps [OF one this] Some show ?thesis by auto
qed

lemma observe_end_alone:
  assumes "i < length ts" "ts ! i = Idle" "observe_run_end en given failure c w = (c', w')"
  shows "\<exists>lg'. sys_step\<^sup>*\<^sup>* (c, w, ts, lg) (c', w', ts, lg')"
proof (cases "present (rx_run_id given)")
  case False
  with assms(3) show ?thesis by (auto simp: observe_run_end_def)
next
  case True
  let ?x = "enriched en w given"
  obtain report c1 where l: "lock_run_end ?x c = (report, c1)" by (cases "lock_run_end ?x c")
  have e: "c' = c1" "w' = (case report of None \<Rightarrow> w | Some y \<Rightarrow> emit_run_end en c1 y failure w)"
    using assms(3) True l by (auto simp: observe_run_end_def)
  have same: "ts[i := Idle] = ts" using assms(2) by (metis list_update_id)
  have "sys_step (c, w, ts, lg) (c, w, ts[i := Ending ?x failure None], lg)" by (rule y_end [OF assms(1,2) True])
  moreover obtain lg' where "sys_step\<^sup>*\<^sup>* (c, w, ts[i := Ending ?x failure None], lg) (c', w', ts, lg')"
    using end_alone [of i "ts[i := Ending ?x failure None]" ?x failure None c report c1 w lg en] assms(1) l e same by auto
  ultimately show ?thesis by (blast intro: converse_rtranclp_into_rtranclp)
qed

lemma closing_alone:
  assumes "i < length ts" "ts ! i = Closing xs"
  shows "\<exists>lg'. sys_step\<^sup>*\<^sup>* (c, w, ts, lg)
    (case fold (\<lambda>context (c, w). observe_run_end en context None c w) xs (c, w) of
       (c1, w1) \<Rightarrow> (drop_worker c1, clear_world w1, ts[i := Idle], lg'))"
  using assms
proof (induction xs arbitrary: c w ts lg)
  case Nil
  have "sys_step (c, w, ts, lg) (drop_worker c, w, ts[i := Clearing], lg)" by (rule y_closed [OF Nil])
  moreover have "sys_step (drop_worker c, w, ts[i := Clearing], lg) (drop_worker c, clear_world w, ts[i := Idle], lg)"
    using y_clear [of i "ts[i := Clearing]" "drop_worker c" w lg] Nil.prems(1) by simp
  ultimately have "sys_step\<^sup>*\<^sup>* (c, w, ts, lg) (drop_worker c, clear_world w, ts[i := Idle], lg)" by (rule two_steps)
  then show ?case by auto
next
  case (Cons x xs)
  obtain c1 w1 where 1: "observe_run_end en x None c w = (c1, w1)" by (cases "observe_run_end en x None c w")
  have "\<exists>lg1. sys_step\<^sup>*\<^sup>* (c, w, ts, lg) (c1, w1, ts[i := Closing xs], lg1)"
  proof (cases "present (rx_run_id x)")
    case False
    with 1 have "c1 = c" "w1 = w" by (simp_all add: observe_run_end_def)
    with y_next [OF Cons.prems, of c w lg en] False show ?thesis by auto
  next
    case True
    let ?x = "enriched en w x"
    obtain report c2 where l: "lock_run_end ?x c = (report, c2)" by (cases "lock_run_end ?x c")
    have e: "c1 = c2" "w1 = (case report of None \<Rightarrow> w | Some y \<Rightarrow> emit_run_end en c2 y None w)"
      using 1 True l by (auto simp: observe_run_end_def)
    have "sys_step (c, w, ts, lg) (c, w, ts[i := Ending ?x None (Some xs)], lg)"
      using y_next [OF Cons.prems, of c w lg en] True by simp
    moreover obtain lg1 where "sys_step\<^sup>*\<^sup>* (c, w, ts[i := Ending ?x None (Some xs)], lg) (c1, w1, ts[i := Closing xs], lg1)"
      using end_alone [of i "ts[i := Ending ?x None (Some xs)]" ?x None "Some xs" c report c2 w lg en] Cons.prems(1) l e by auto
    ultimately show ?thesis by (blast intro: converse_rtranclp_into_rtranclp)
  qed
  then obtain lg1 where "sys_step\<^sup>*\<^sup>* (c, w, ts, lg) (c1, w1, ts[i := Closing xs], lg1)" by blast
  moreover obtain lg2 where "sys_step\<^sup>*\<^sup>* (c1, w1, ts[i := Closing xs], lg1)
    (case fold (\<lambda>context (c, w). observe_run_end en context None c w) xs (c1, w1) of
       (c1, w1) \<Rightarrow> (drop_worker c1, clear_world w1, ts[i := Idle], lg2))"
    using Cons.IH [of "ts[i := Closing xs]" c1 w1 lg1] Cons.prems(1) by auto
  ultimately show ?case using 1 by (auto intro: rtranclp_trans)
qed

lemma shutdown_alone:
  assumes "i < length ts" "ts ! i = Idle" "client_shutdown en c w = (c', w')"
  shows "\<exists>lg'. sys_step\<^sup>*\<^sup>* (c, w, ts, lg) (c', w', ts, lg')"
proof (cases "cl_closed c")
  case True
  with assms(3) show ?thesis by (auto simp: client_shutdown_def)
next
  case False
  let ?c = "c\<lparr>cl_closed := True\<rparr>"
  have same: "ts[i := Idle] = ts" using assms(2) by (metis list_update_id)
  have "sys_step (c, w, ts, lg) (c, w, ts[i := Stopping], lg)" by (rule y_shutdown [OF assms(1,2) False])
  moreover have "sys_step (c, w, ts[i := Stopping], lg) (?c, w, ts[i := Collecting], lg)"
    using y_close [of i "ts[i := Stopping]" c w lg] assms(1) by simp
  moreover have "sys_step (?c, w, ts[i := Collecting], lg) (?c, w, ts[i := Closing (open_runs ?c)], lg)"
    using y_collect [of i "ts[i := Collecting]" ?c w lg] assms(1) by simp
  ultimately have "sys_step\<^sup>*\<^sup>* (c, w, ts, lg) (?c, w, ts[i := Closing (open_runs ?c)], lg)"
    by (meson steps_more r_into_rtranclp)
  moreover obtain lg' where "sys_step\<^sup>*\<^sup>* (?c, w, ts[i := Closing (open_runs ?c)], lg) (c', w', ts, lg')"
    using closing_alone [of i "ts[i := Closing (open_runs ?c)]" "open_runs ?c" ?c w lg en] assms(1,3) False same
    by (auto simp: client_shutdown_def Let_def split: prod.splits)
  ultimately show ?thesis by (blast intro: rtranclp_trans)
qed

section \<open>The invariant\<close>

text \<open>The lifecycle events that were made, and those that threads still have to make.\<close>

definition made :: "promptrail_event list \<Rightarrow> lifecycle_log" where
  "made events = map (\<lambda>e. (ev_run_id e, ev_type e)) (filter (\<lambda>e. ev_type e \<in> {Known RUN_START, Known RUN_END}) events)"

fun pending :: "activity \<Rightarrow> (string \<times> event_name) multiset" where
  "pending (Announcing x) = {#(the (rx_run_id x), Known RUN_START)#}"
| "pending (Reporting y failure rest) = {#(the (rx_run_id y), Known RUN_END)#}"
| "pending _ = {#}"

definition all_pending :: "activity list \<Rightarrow> (string \<times> event_name) multiset" where
  "all_pending ts = sum_list (map pending ts)"

fun has_run :: "activity \<Rightarrow> bool" where
  "has_run (Starting x) = present (rx_run_id x)"
| "has_run (Announcing x) = present (rx_run_id x)"
| "has_run (Ending x failure rest) = present (rx_run_id x)"
| "has_run (Reporting y failure rest) = present (rx_run_id y)"
| "has_run _ = True"

text \<open>The starts and ends of one run, in the order in which they were decided.\<close>

definition decided :: "string \<Rightarrow> lifecycle_log \<Rightarrow> event_name list" where
  "decided r lg = map snd (filter (\<lambda>p. fst p = r) lg)"

definition sys_ok :: "system \<Rightarrow> bool" where
  "sys_ok s = (case s of (c, w, ts, lg) \<Rightarrow>
     books_ok c \<and> (\<forall>a\<in>set ts. has_run a) \<and>
     (\<forall>r. no_restart (decided r lg) \<and> (open_after (decided r lg) \<longleftrightarrow> r \<in> cl_started_runs c)) \<and>
     mset (made (wo_events w)) + all_pending ts = mset lg)"

lemma decided_append [simp]: "decided r (xs @ ys) = decided r xs @ decided r ys"
  by (simp add: decided_def)

lemma decided_one: "decided r [(q, k)] = (if q = r then [k] else [])"
  by (simp add: decided_def)

lemma decided_Nil [simp]: "decided r [] = []"
  by (simp add: decided_def)

lemma all_pending_update:
  assumes "i < length ts"
  shows "all_pending (ts[i := a]) + pending (ts ! i) = all_pending ts + pending a"
  using assms
proof (induction ts arbitrary: i)
  case (Cons t ts)
  then show ?case by (cases i) (simp_all add: all_pending_def ac_simps)
qed simp

lemma pending_same: "i < length ts \<Longrightarrow> pending a = pending (ts ! i) \<Longrightarrow> all_pending (ts[i := a]) = all_pending ts"
  using all_pending_update [of i ts a] by simp

lemma has_run_update: "b \<in> set (ts[i := a]) \<Longrightarrow> \<forall>a\<in>set ts. has_run a \<Longrightarrow> has_run a \<Longrightarrow> has_run b"
  using set_update_subset_insert [of ts i a] by blast

lemma books_flags [simp]: "books_ok (c\<lparr>cl_closed := b\<rparr>) = books_ok c" "books_ok (drop_worker c) = books_ok c"
  by (simp_all add: books_ok_def drop_worker_def)

lemma pending_after_end [simp]: "pending (after_end rest) = {#}" "has_run (after_end rest)"
  by (cases rest; simp)+

lemma made_emit:
  "made (wo_events (snd (emit_in en c kind rx name status attributes w))) = made (wo_events w) @
     (if present (rx_run_id rx) \<and> kind \<in> {Known RUN_START, Known RUN_END} then [(the (rx_run_id rx), kind)] else [])"
proof -
  obtain e w' where "emit_in en c kind rx name status attributes w = (e, w')" by (cases "emit_in en c kind rx name status attributes w")
  with emit_in_events [OF this] show ?thesis by (auto simp: made_def split: if_splits)
qed

lemma present_run: "present (rx_run_id x) \<Longrightarrow> \<exists>r. rx_run_id x = Some r \<and> r \<noteq> []"
  by (auto simp: present_def split: option.splits)

lemma activity_has_run: "sys_ok (c, w, ts, lg) \<Longrightarrow> i < length ts \<Longrightarrow> has_run (ts ! i)"
  by (simp add: sys_ok_def)

text \<open>A step that neither decides nor makes anything.\<close>

lemma idle_step:
  assumes "sys_ok (c, w, ts, lg)" "i < length ts" "pending a = pending (ts ! i)" "has_run a"
    and "books_ok c'" "cl_started_runs c' = cl_started_runs c" "wo_events w' = wo_events w"
  shows "sys_ok (c', w', ts[i := a], lg)"
  using assms by (auto simp: sys_ok_def pending_same intro: has_run_update)

lemma locked_start_ok:
  assumes ok: "sys_ok (c, w, ts, lg)" and i: "i < length ts" "ts ! i = Starting x" and l: "lock_run_start x c = (new, c')"
  shows "sys_ok (c', w, ts[i := if new then Announcing x else Idle],
      lg @ (if new then [(the (rx_run_id x), Known RUN_START)] else []))"
proof -
  have p: "present (rx_run_id x)" using activity_has_run [OF ok i(1)] i(2) by simp
  then obtain r where r: "rx_run_id x = Some r" "r \<noteq> []" using present_run by blast
  have books: "books_ok c" using ok by (simp add: sys_ok_def)
  note k = lock_start [OF books r l]
  show ?thesis
  proof (cases new)
    case False
    with k have "cl_started_runs c' = cl_started_runs c" by auto
    with False idle_step [OF ok i(1), of Idle c' w] k i(2) show ?thesis by simp
  next
    case True
    have "all_pending (ts[i := Announcing x]) = add_mset (r, Known RUN_START) (all_pending ts)"
      using all_pending_update [OF i(1), of "Announcing x"] i(2) r(1) by simp
    moreover have "no_restart (decided q lg) \<and> (open_after (decided q lg) \<longleftrightarrow> q \<in> cl_started_runs c)" for q
      using ok by (simp add: sys_ok_def)
    then have "no_restart (decided q (lg @ [(r, Known RUN_START)])) \<and>
        (open_after (decided q (lg @ [(r, Known RUN_START)])) \<longleftrightarrow> q \<in> cl_started_runs c')" for q
      using k True by (auto simp: decided_one no_restart_snoc) (auto simp: open_after_def)
    ultimately show ?thesis using ok k True r(1) p by (auto simp: sys_ok_def intro: has_run_update)
  qed
qed

lemma locked_end_ok:
  assumes ok: "sys_ok (c, w, ts, lg)" and i: "i < length ts" "ts ! i = Ending x failure rest"
    and l: "lock_run_end x c = (report, c')"
  shows "sys_ok (c', w, ts[i := case report of None \<Rightarrow> after_end rest | Some y \<Rightarrow> Reporting y failure rest],
      lg @ (case report of None \<Rightarrow> [] | Some y \<Rightarrow> [(the (rx_run_id y), Known RUN_END)]))"
proof -
  have p: "present (rx_run_id x)" using activity_has_run [OF ok i(1)] i(2) by simp
  then obtain r where r: "rx_run_id x = Some r" "r \<noteq> []" using present_run by blast
  have books: "books_ok c" using ok by (simp add: sys_ok_def)
  note k = lock_end [OF books r l]
  show ?thesis
  proof (cases report)
    case None
    with idle_step [OF ok i(1), of "after_end rest" c' w] k i(2) books show ?thesis by simp
  next
    case (Some y)
    then have y: "rx_run_id y = Some r" using k by blast
    have "all_pending (ts[i := Reporting y failure rest]) = add_mset (r, Known RUN_END) (all_pending ts)"
      using all_pending_update [OF i(1), of "Reporting y failure rest"] i(2) y by simp
    moreover have "no_restart (decided q lg) \<and> (open_after (decided q lg) \<longleftrightarrow> q \<in> cl_started_runs c)" for q
      using ok by (simp add: sys_ok_def)
    then have "no_restart (decided q (lg @ [(r, Known RUN_END)])) \<and>
        (open_after (decided q (lg @ [(r, Known RUN_END)])) \<longleftrightarrow> q \<in> cl_started_runs c')" for q
      using k by (auto simp: decided_one no_restart_snoc) (auto simp: open_after_def)
    moreover have "present (rx_run_id y)" using y r(2) by (simp add: present_def)
    ultimately show ?thesis using ok k Some y by (auto simp: sys_ok_def intro: has_run_update)
  qed
qed

text \<open>An emission makes what was pending.\<close>

lemma emitted_ok:
  assumes ok: "sys_ok (c, w, ts, lg)" and i: "i < length ts" "pending (ts ! i) = {#p#}" "pending a = {#}" "has_run a"
    and m: "made (wo_events w') = made (wo_events w) @ [p]"
  shows "sys_ok (c, w', ts[i := a], lg)"
proof -
  have "add_mset p (all_pending (ts[i := a])) = all_pending ts" using all_pending_update [OF i(1), of a] i(2,3) by simp
  with ok m have "mset (made (wo_events w')) + all_pending (ts[i := a]) = mset lg"
    by (simp add: sys_ok_def) (metis add_mset_add_single union_mset_add_mset_left union_mset_add_mset_right)
  with ok i(4) show ?thesis by (auto simp: sys_ok_def intro: has_run_update)
qed

lemma sys_step_ok: "sys_step s s' \<Longrightarrow> sys_ok s \<Longrightarrow> sys_ok s'"
proof (induction rule: sys_step.induct)
  case (y_start i ts given c w lg en)
  then show ?case by (intro idle_step) (simp_all add: sys_ok_def enriched_run)
next
  case (y_lock_start i ts x c new c' w lg)
  then show ?case using locked_start_ok by blast
next
  case (y_announce i ts x c w lg en)
  have "present (rx_run_id x)" using activity_has_run [OF y_announce(3,1)] y_announce(2) by simp
  with y_announce show ?case
    by (intro emitted_ok [where p = "(the (rx_run_id x), Known RUN_START)"]) (simp_all add: emit_run_start_def made_emit)
next
  case (y_end i ts given c w lg en failure)
  then show ?case by (intro idle_step) (simp_all add: sys_ok_def enriched_run)
next
  case (y_lock_end i ts x failure rest c report c' w lg)
  then show ?case using locked_end_ok by blast
next
  case (y_report i ts y failure rest c w lg en)
  have "present (rx_run_id y)" using activity_has_run [OF y_report(3,1)] y_report(2) by simp
  with y_report show ?case
    by (intro emitted_ok [where p = "(the (rx_run_id y), Known RUN_END)"]) (simp_all add: emit_run_end_def made_emit)
next
  case (y_shutdown i ts c w lg)
  then show ?case by (intro idle_step) (simp_all add: sys_ok_def)
next
  case (y_close i ts c w lg)
  then show ?case by (intro idle_step) (simp_all add: sys_ok_def)
next
  case (y_collect i ts c w lg)
  then show ?case by (intro idle_step) (simp_all add: sys_ok_def)
next
  case (y_next i ts x xs c w lg en)
  then show ?case by (intro idle_step) (simp_all add: sys_ok_def enriched_run)
next
  case (y_closed i ts c w lg)
  then show ?case by (intro idle_step) (simp_all add: sys_ok_def, simp add: drop_worker_def)
next
  case (y_clear i ts c w lg)
  then show ?case by (intro idle_step) (simp_all add: sys_ok_def clear_world_def)
next
  case (y_emit kind c w ts lg en rx name status attributes)
  then show ?case by (simp add: sys_ok_def made_emit)
next
  case (y_world w' w c ts lg)
  then show ?case by (simp add: sys_ok_def)
qed

lemma sys_reachable_ok: "sys_reachable s \<Longrightarrow> sys_ok s"
proof (induction rule: sys_reachable.induct)
  case (yr_new w config n)
  have "all_pending (replicate n Idle) = {#}" by (induction n) (simp_all add: all_pending_def)
  with yr_new show ?case
    by (simp add: sys_ok_def books_ok_def new_client_def made_def no_restart_def open_after_def)
next
  case (yr_step s s')
  then show ?case using sys_step_ok by blast
qed

section \<open>What a shutdown sweeps\<close>

definition runs_of :: "runtime_context list \<Rightarrow> string set" where
  "runs_of xs = {r. \<exists>x\<in>set xs. rx_run_id x = Some r}"

text \<open>The runs that a thread in a shutdown has still to end.\<close>

fun remaining :: "activity \<Rightarrow> string set" where
  "remaining (Closing xs) = runs_of xs"
| "remaining (Ending x failure (Some xs)) = runs_of (x # xs)"
| "remaining (Reporting y failure (Some xs)) = runs_of xs"
| "remaining _ = {}"

definition ended_in :: "lifecycle_log \<Rightarrow> string set" where
  "ended_in lg = {r. (r, Known RUN_END) \<in> set lg}"

lemma ended_in_append [simp]: "ended_in (xs @ ys) = ended_in xs \<union> ended_in ys"
  by (auto simp: ended_in_def)

lemma ended_in_one [simp]: "ended_in [] = {}" "ended_in [(r, Known RUN_START)] = {}" "ended_in [(r, Known RUN_END)] = {r}"
  by (simp_all add: ended_in_def)

lemma remaining_after_end [simp]: "remaining (after_end rest) = (case rest of None \<Rightarrow> {} | Some xs \<Rightarrow> runs_of xs)"
  by (cases rest) simp_all

lemma remaining_Ending: "remaining (Ending x failure rest) = (case rest of None \<Rightarrow> {} | Some xs \<Rightarrow> runs_of (x # xs))"
  "remaining (Reporting x failure rest) = (case rest of None \<Rightarrow> {} | Some xs \<Rightarrow> runs_of xs)"
  by (cases rest; simp)+

lemma runs_of_Cons: "rx_run_id x = Some r \<Longrightarrow> runs_of (x # xs) = insert r (runs_of xs)"
  "\<not> present (rx_run_id x) \<Longrightarrow> runs_of (x # xs) \<subseteq> insert [] (runs_of xs)"
  by (auto simp: runs_of_def present_def split: option.splits)

lemma updated_remaining:
  assumes "i < length ts" "remaining (ts ! i) \<subseteq> remaining a \<union> R"
  shows "\<forall>j<length ts. remaining (ts ! j) \<subseteq> remaining (ts[i := a] ! j) \<union> R"
  using assms by (auto simp: nth_list_update)

definition effect :: "system \<Rightarrow> system \<Rightarrow> bool" where
  "effect s s' = (case (s, s') of ((c, w, ts, lg), (c', w', ts', lg')) \<Rightarrow>
     \<exists>more. lg' = lg @ more \<and> cl_ended_runs c' \<subseteq> cl_ended_runs c \<union> ended_in more \<and> length ts' = length ts \<and>
       (\<forall>j<length ts. remaining (ts ! j) \<subseteq> remaining (ts' ! j) \<union> (ended_in more \<union> cl_ended_runs c \<union> {[]})))"

lemma quiet_effect:
  assumes "i < length ts" "cl_ended_runs c' = cl_ended_runs c" "remaining (ts ! i) \<subseteq> remaining a \<union> {[]}"
  shows "effect (c, w, ts, lg) (c', w', ts[i := a], lg)"
proof -
  have "\<forall>j<length ts. remaining (ts ! j) \<subseteq> remaining (ts[i := a] ! j) \<union> {[]}" by (rule updated_remaining [OF assms(1,3)])
  then show ?thesis unfolding effect_def prod.case using assms(2) by (intro exI [of _ "[]"]) fastforce
qed

lemma step_effect: "sys_step s s' \<Longrightarrow> sys_ok s \<Longrightarrow> effect s s'"
proof (induction rule: sys_step.induct)
  case (y_lock_start i ts x c new c' w lg)
  have "present (rx_run_id x)" using activity_has_run [OF y_lock_start(4,1)] y_lock_start(2) by simp
  then obtain r where r: "rx_run_id x = Some r" "r \<noteq> []" using present_run by blast
  have "books_ok c" using y_lock_start(4) by (simp add: sys_ok_def)
  from lock_start [OF this r y_lock_start(3)] have "cl_ended_runs c' \<subseteq> cl_ended_runs c" by auto
  moreover let ?more = "if new then [(the (rx_run_id x), Known RUN_START)] else []"
  have "\<forall>j<length ts. remaining (ts ! j) \<subseteq> remaining (ts[i := if new then Announcing x else Idle] ! j) \<union>
      (ended_in ?more \<union> cl_ended_runs c \<union> {[]})"
    by (rule updated_remaining [OF y_lock_start(1)]) (simp add: y_lock_start(2))
  ultimately show ?case unfolding effect_def prod.case
    by (intro exI [of _ ?more]) (simp add: le_supI1)
next
  case (y_lock_end i ts x failure rest c report c' w lg)
  let ?a = "case report of None \<Rightarrow> after_end rest | Some y \<Rightarrow> Reporting y failure rest"
  let ?more = "case report of None \<Rightarrow> [] | Some y \<Rightarrow> [(the (rx_run_id y), Known RUN_END)]"
  have "present (rx_run_id x)" using activity_has_run [OF y_lock_end(4,1)] y_lock_end(2) by simp
  then obtain r where r: "rx_run_id x = Some r" "r \<noteq> []" using present_run by blast
  have "books_ok c" using y_lock_end(4) by (simp add: sys_ok_def)
  note k = lock_end [OF this r y_lock_end(3)]
  have ended: "cl_ended_runs c' \<subseteq> cl_ended_runs c \<union> ended_in ?more" using k by (cases report) auto
  have "r \<in> ended_in ?more \<union> cl_ended_runs c" using k by (cases report) auto
  moreover have "remaining (Ending x failure rest) \<subseteq> insert r (remaining ?a)"
    using r(1) by (cases report) (auto simp: remaining_Ending runs_of_Cons split: option.splits)
  ultimately have "remaining (ts ! i) \<subseteq> remaining ?a \<union> (ended_in ?more \<union> cl_ended_runs c \<union> {[]})"
    unfolding y_lock_end(2) by blast
  from updated_remaining [OF y_lock_end(1) this] ended show ?case
    unfolding effect_def prod.case by (intro exI [of _ ?more]) simp
next
  case (y_next i ts x xs c w lg en)
  show ?case
  proof (rule quiet_effect [OF y_next(1) refl])
    show "remaining (ts ! i) \<subseteq> remaining (if present (rx_run_id x) then Ending (enriched en w x) None (Some xs) else Closing xs) \<union> {[]}"
      using enriched_run [of x en w] runs_of_Cons(2) [of x xs] by (auto simp: y_next(2) runs_of_def)
  qed
next
  case (y_emit kind c w ts lg en rx name status attributes)
  then show ?case unfolding effect_def prod.case by (intro exI [of _ "[]"]) auto
next
  case (y_world w' w c ts lg)
  then show ?case unfolding effect_def prod.case by (intro exI [of _ "[]"]) auto
qed (auto intro!: quiet_effect simp: drop_worker_def remaining_Ending runs_of_def split: option.splits)

text \<open>
  From the collection on: every run that was open then has been ended since, or the thread
  still has it to end.
\<close>

definition sweeping :: "nat \<Rightarrow> client \<Rightarrow> lifecycle_log \<Rightarrow> system \<Rightarrow> bool" where
  "sweeping i c0 lg0 s = (case s of (c, w, ts, lg) \<Rightarrow> i < length ts \<and>
     (\<exists>since. lg = lg0 @ since \<and> cl_ended_runs c \<subseteq> cl_ended_runs c0 \<union> ended_in since \<and>
       cl_started_runs c0 \<subseteq> ended_in since \<union> remaining (ts ! i)))"

lemma sweeping_step:
  assumes "sweeping i c0 lg0 s" "effect s s'" "books_ok c0"
  shows "sweeping i c0 lg0 s'"
proof -
  obtain c w ts lg where s: "s = (c, w, ts, lg)" by (cases s)
  obtain c' w' ts' lg' where s': "s' = (c', w', ts', lg')" by (cases s')
  obtain since where a: "lg = lg0 @ since" "cl_ended_runs c \<subseteq> cl_ended_runs c0 \<union> ended_in since"
    "cl_started_runs c0 \<subseteq> ended_in since \<union> remaining (ts ! i)" "i < length ts"
    using assms(1) by (auto simp: sweeping_def s)
  obtain more where b: "lg' = lg @ more" "cl_ended_runs c' \<subseteq> cl_ended_runs c \<union> ended_in more" "length ts' = length ts"
    "remaining (ts ! i) \<subseteq> remaining (ts' ! i) \<union> (ended_in more \<union> cl_ended_runs c \<union> {[]})"
    using assms(2) a(4) by (auto simp: effect_def s s')
  have known: "cl_started_runs c0 \<inter> cl_ended_runs c0 = {}" "[] \<notin> cl_started_runs c0"
    using assms(3) unfolding books_ok_def by (blast, metis option.exhaust)
  have "cl_started_runs c0 \<subseteq> ended_in (since @ more) \<union> remaining (ts' ! i)"
    using a(2,3) b(4) known by auto
  then show ?thesis using a(1,2,4) b(1-3) unfolding sweeping_def s' prod.case
    by (intro conjI exI [of _ "since @ more"]) auto
qed

lemma sweeping_steps:
  "sys_step\<^sup>*\<^sup>* s s' \<Longrightarrow> sys_reachable s \<Longrightarrow> sweeping i c0 lg0 s \<Longrightarrow> books_ok c0 \<Longrightarrow> sweeping i c0 lg0 s'"
proof (induction rule: rtranclp_induct)
  case (step s' s'')
  have "sys_ok s'" using reachable_sys_steps [OF step(1,4)] by (rule sys_reachable_ok)
  with sweeping_step step step_effect show ?case by blast
qed

section \<open>Events out of order\<close>

text \<open>
  The events of a run may be made in another order than they were decided: a thread that has
  started a run and has left the lock is overtaken by one that ends it and one that starts it
  again. Then two starts follow each other, and the last event is an end while the run is open.
\<close>

lemma overtaken_start:
  "\<exists>c w lg. sys_reachable (c, w, [Idle, Idle, Idle], lg) \<and> ''run_a'' \<in> cl_started_runs c \<and>
     lifecycle ''run_a'' (wo_events w) = [Known RUN_START, Known RUN_START, Known RUN_END]"
proof -
  let ?r = "''run_a''" and ?c = "new_client sample_config" and ?en = sample_surroundings
  define rx where "rx = empty_context\<lparr>rx_run_id := Some ''run_a''\<rparr>"
  define x where "x = enriched ?en sample_world rx"
  have p: "present (rx_run_id rx)" by (simp add: rx_def present_def)
  have x: "rx_run_id x = Some ?r" using enriched_run [OF p] by (simp add: x_def rx_def)
  have books: "books_ok ?c" by (simp add: books_ok_def new_client_def)
  obtain n1 c1 where l1: "lock_run_start x ?c = (n1, c1)" by (cases "lock_run_start x ?c")
  have 1: "n1" "books_ok c1" "cl_started_runs c1 = {?r}" "cl_ended_runs c1 = {}"
    using lock_start [OF books x _ l1] by (simp_all add: new_client_def)
  obtain report c2 where l2: "lock_run_end x c1 = (report, c2)" by (cases "lock_run_end x c1")
  then obtain y where y: "report = Some y" "rx_run_id y = Some ?r" "books_ok c2" "cl_started_runs c2 = {}"
    using lock_end [OF 1(2) x _ l2] 1(3,4) by (cases report) auto
  obtain n3 c3 where l3: "lock_run_start x c2 = (n3, c3)" by (cases "lock_run_start x c2")
  have 3: "n3" "cl_started_runs c3 = {?r}" using lock_start [OF y(3) x _ l3] y(4) by simp_all
  define w1 where "w1 = emit_run_start ?en c3 x sample_world"
  define w2 where "w2 = emit_run_start ?en c3 x w1"
  define w3 where "w3 = emit_run_end ?en c3 y None w2"
  let ?S = "(?r, Known RUN_START)" and ?E = "(?r, Known RUN_END)"
  have "sys_reachable (?c, sample_world, [Idle, Idle, Idle], [])"
    using yr_new [of sample_world sample_config 3] by (simp add: sample_world_def numeral_3_eq_3)
  from yr_step [OF this y_start [where i = 0 and given = rx and en = ?en]] p
  have "sys_reachable (?c, sample_world, [Starting x, Idle, Idle], [])" by (simp add: x_def)
  from yr_step [OF this y_lock_start [where i = 0, OF _ _ l1]] 1(1) x
  have "sys_reachable (c1, sample_world, [Announcing x, Idle, Idle], [?S])" by simp
  from yr_step [OF this y_end [where i = 1 and given = rx and en = ?en and failure = None]] p
  have "sys_reachable (c1, sample_world, [Announcing x, Ending x None None, Idle], [?S])" by (simp add: x_def)
  from yr_step [OF this y_lock_end [where i = 1, OF _ _ l2]] y
  have "sys_reachable (c2, sample_world, [Announcing x, Reporting y None None, Idle], [?S, ?E])" by simp
  from yr_step [OF this y_start [where i = 2 and given = rx and en = ?en]] p
  have "sys_reachable (c2, sample_world, [Announcing x, Reporting y None None, Starting x], [?S, ?E])" by (simp add: x_def)
  from yr_step [OF this y_lock_start [where i = 2, OF _ _ l3]] 3(1) x
  have "sys_reachable (c3, sample_world, [Announcing x, Reporting y None None, Announcing x], [?S, ?E, ?S])" by simp
  from yr_step [OF this y_announce [where i = 2 and en = ?en]]
  have "sys_reachable (c3, w1, [Announcing x, Reporting y None None, Idle], [?S, ?E, ?S])" by (simp add: w1_def)
  from yr_step [OF this y_announce [where i = 0 and en = ?en]]
  have "sys_reachable (c3, w2, [Idle, Reporting y None None, Idle], [?S, ?E, ?S])" by (simp add: w2_def)
  from yr_step [OF this y_report [where i = 1 and en = ?en]]
  have "sys_reachable (c3, w3, [Idle, Idle, Idle], [?S, ?E, ?S])" by (simp add: w3_def)
  moreover have "lifecycle ?r (wo_events w3) = [Known RUN_START, Known RUN_START, Known RUN_END]"
    by (simp add: w3_def w2_def w1_def emit_start_lifecycle [OF x] emit_end_lifecycle [OF y(2)])
      (simp add: sample_world_def lifecycle_def)
  ultimately show ?thesis using 3(2) by blast
qed

section \<open>Property\<close>

text \<open>
  Property C38. Runs start and end in turn, whatever threads report them and however they
  interleave: under the lock no start of a run is decided again before an end of it, and a run
  counts as started exactly while the last decision on it is a start. Each decision makes
  exactly one lifecycle event: the events made and those that threads have still to make are
  the decisions, each as often (their order may differ, as the emission follows after the lock
  is released). No run is both started and ended, and the memory of ended runs stays within its limit.
  A shutdown that has collected the open runs can always run to its end, and when it has, every run
  that was open at the collection has been ended since.
\<close>

theorem run_lifecycle_sound:
  assumes "sys_reachable (c, w, ts, lg)"
  shows "(\<forall>r. no_restart (decided r lg) \<and> (open_after (decided r lg) \<longleftrightarrow> r \<in> cl_started_runs c)) \<and>
    mset (made (wo_events w)) + all_pending ts = mset lg \<and>
    cl_started_runs c \<inter> cl_ended_runs c = {} \<and> card (cl_ended_runs c) \<le> ended_limit \<and>
    (\<forall>i<length ts. ts ! i = Closing (open_runs c) \<longrightarrow>
       (\<exists>c' w' lg'. sys_step\<^sup>*\<^sup>* (c, w, ts, lg) (c', w', ts[i := Idle], lg')) \<and>
       (\<forall>c' w' ts' lg'. sys_step\<^sup>*\<^sup>* (c, w, ts, lg) (c', w', ts', lg') \<and> ts' ! i = Idle \<longrightarrow>
          (\<forall>r\<in>cl_started_runs c. (r, Known RUN_END) \<in> set (drop (length lg) lg'))))"
proof -
  have ok: "sys_ok (c, w, ts, lg)" by (rule sys_reachable_ok [OF assms])
  then have books: "books_ok c" by (simp add: sys_ok_def)
  then have "card (cl_ended_runs c) \<le> ended_limit" "cl_started_runs c \<inter> cl_ended_runs c = {}"
    using card_length [of "cl_ended_run_order c"] by (auto simp: books_ok_def)
  moreover have "\<exists>c' w' lg'. sys_step\<^sup>*\<^sup>* (c, w, ts, lg) (c', w', ts[i := Idle], lg')"
    if "i < length ts" "ts ! i = Closing (open_runs c)" for i
  proof -
    obtain c1 w1 where "fold (\<lambda>context (c, w). observe_run_end sample_surroundings context None c w) (open_runs c) (c, w) = (c1, w1)"
      by (cases "fold (\<lambda>context (c, w). observe_run_end sample_surroundings context None c w) (open_runs c) (c, w)")
    with closing_alone [OF that, of c w lg sample_surroundings] show ?thesis by auto
  qed
  moreover have "(r, Known RUN_END) \<in> set (drop (length lg) lg')"
    if "i < length ts" "ts ! i = Closing (open_runs c)" "sys_step\<^sup>*\<^sup>* (c, w, ts, lg) (c', w', ts', lg')" "ts' ! i = Idle"
      "r \<in> cl_started_runs c" for i c' w' ts' lg' r
  proof -
    have "sweeping i c lg (c, w, ts, lg)" unfolding sweeping_def prod.case
      using that(1,2) open_runs_all [OF books] by (intro conjI exI [of _ "[]"]) (auto simp: runs_of_def)
    from sweeping_steps [OF that(3) assms this books] that(4,5) show ?thesis by (auto simp: sweeping_def ended_in_def)
  qed
  ultimately show ?thesis using ok unfolding sys_ok_def prod.case by blast
qed

theorem run_lifecycle_sound_witness:
  "\<exists>c w lg. sys_reachable (c, w, [Idle, Idle, Idle], lg) \<and> ''run_a'' \<in> cl_started_runs c \<and>
     open_after (decided ''run_a'' lg) \<and> mset (made (wo_events w)) = mset lg"
proof -
  obtain c w lg where r: "sys_reachable (c, w, [Idle, Idle, Idle], lg)" "''run_a'' \<in> cl_started_runs c"
    using overtaken_start by blast
  with run_lifecycle_sound [OF r(1)] have "open_after (decided ''run_a'' lg)"
    "mset (made (wo_events w)) + all_pending [Idle, Idle, Idle] = mset lg" by blast+
  then show ?thesis using r by (auto simp: all_pending_def)
qed

end
