(* ===== verification/Workflow_Budget.thy ===== *)
theory Workflow_Budget
  imports Py_Any
begin

text \<open>
  The pure calculations for workflow budgets (\<^verbatim>\<open>src/frontend/workflow_budget.py\<close>). The
  values come from a JSON body. \<^verbatim>\<open>float ** float\<close> and \<^verbatim>\<open>math.exp\<close> are functions of the
  platform's mathematical library, whose rounding nothing specifies; they are parameters.
\<close>

section \<open>Numbers from a body\<close>

text \<open>\<open>float(v)\<close>: an integer too large for a float raises an error of its own.\<close>

definition float_of_int :: "int \<Rightarrow> pyfloat result" where
  "float_of_int i = (if isfinite (fl_of_int i) then Inr (fl_of_int i) else Inl OverflowError)"

fun py_float :: "json \<Rightarrow> pyfloat result" where
  "py_float (JBool b) = Inr (Fin (if b then 1 else 0))"
| "py_float (JInt i) = float_of_int i"
| "py_float (JFloat x) = Inr x"
| "py_float (JStr s) = (case parse_float s of Some x \<Rightarrow> Inr x
     | None \<Rightarrow> Inl (ValueError (''could not convert string to float: '' @ str_repr s)))"
| "py_float _ = Inl (TypeError ''float() argument must be a string or a real number'')"

fun is_bool :: "json \<Rightarrow> bool" where
  "is_bool (JBool b) = True"
| "is_bool _ = False"

definition wrap_number :: "string \<Rightarrow> pyfloat result \<Rightarrow> pyfloat result" where
  "wrap_number message r = (case r of
     Inl (TypeError _) \<Rightarrow> Inl (WorkflowBudgetError message)
   | Inl (ValueError _) \<Rightarrow> Inl (WorkflowBudgetError message)
   | _ \<Rightarrow> r)"

definition finite_positive :: "json \<Rightarrow> string \<Rightarrow> pyfloat result" where
  "finite_positive v field =
     (let message = field @ '' must be a positive number'' in
      if is_bool v then Inl (WorkflowBudgetError message)
      else rbind (wrap_number message (py_float v)) (\<lambda>number.
        if \<not> isfinite number \<or> number \<le> Fin 0 then Inl (WorkflowBudgetError message) else Inr number))"

definition normalized_non_negative :: "json \<Rightarrow> string \<Rightarrow> pyfloat result" where
  "normalized_non_negative v field =
     (let message = field @ '' must be non-negative'' in
      if is_bool v then Inl (WorkflowBudgetError message)
      else rbind (wrap_number message (py_float v)) (\<lambda>number.
        if \<not> isfinite number \<or> number < Fin 0 then Inl (WorkflowBudgetError message) else Inr number))"

section \<open>Scopes\<close>

record scope_view =
  sv_scope_id :: string
  sv_max_usd :: pyfloat
  sv_spent_usd :: pyfloat
  sv_reserved_usd :: pyfloat
  sv_available_usd :: pyfloat

text \<open>\<open>scope.get(key, 0.0)\<close>\<close>

definition get_or_zero :: "json \<Rightarrow> string \<Rightarrow> json" where
  "get_or_zero scope key = (case scope of
     JObj kvs \<Rightarrow> (case map_of kvs key of None \<Rightarrow> JFloat (Fin 0) | Some v \<Rightarrow> v)
   | _ \<Rightarrow> JFloat (Fin 0))"

definition scope_budget_view :: "json \<Rightarrow> scope_view result" where
  "scope_budget_view scope =
     rbind (finite_positive (jget scope ''maxUsd'') ''scope.maxUsd'') (\<lambda>maximum.
     rbind (py_float (get_or_zero scope ''spentUsd'')) (\<lambda>spent.
     rbind (py_float (get_or_zero scope ''reservedUsd'')) (\<lambda>reserved.
     if \<not> list_all (\<lambda>x. isfinite x \<and> Fin 0 \<le> x) [spent, reserved]
     then Inl (WorkflowBudgetError ''scope spend and reservation values must be non-negative'')
     else let available = maximum - spent - reserved in
       if available \<le> Fin 0 then Inl (WorkflowBudgetError ''workflow budget is exhausted'')
       else Inr \<lparr>sv_scope_id = py_str (jor (jget scope ''id'') (JStr [])), sv_max_usd = maximum,
         sv_spent_usd = spent, sv_reserved_usd = reserved, sv_available_usd = available\<rparr>)))"

record scope_target = scope_view +
  st_remaining_calls :: pyfloat
  st_remaining_work_weight :: pyfloat
  st_current_request_weight :: pyfloat
  st_confidence :: json
  st_target_usd :: pyfloat

record workflow_target =
  wt_effective_target_usd :: pyfloat
  wt_available_usd :: pyfloat
  wt_scope_targets :: "scope_target list"

definition scope_target_of :: "(string, json) dict \<Rightarrow> pyfloat \<Rightarrow> json \<Rightarrow> scope_target result" where
  "scope_target_of horizon current_weight scope =
     rbind (scope_budget_view scope) (\<lambda>view.
     let scope_id = sv_scope_id view in
     case (if scope_id = [] then None else map_of horizon scope_id) of
       None \<Rightarrow> Inl (WorkflowBudgetError (''missing horizon prediction for scope '' @
         (if scope_id = [] then ''<unknown>'' else scope_id)))
     | Some prediction \<Rightarrow>
         if (case prediction of JObj _ \<Rightarrow> False | _ \<Rightarrow> True)
         then Inl (WorkflowBudgetError (''invalid horizon prediction for scope '' @ scope_id))
         else
         rbind (normalized_non_negative (jget prediction ''remaining_calls_after_current'') ''remaining_calls_after_current'')
           (\<lambda>remaining_calls.
         rbind (normalized_non_negative (jget prediction ''remaining_work_weight_after_current'')
             ''remaining_work_weight_after_current'') (\<lambda>remaining_work_weight.
         Inr \<lparr>sv_scope_id = scope_id, sv_max_usd = sv_max_usd view, sv_spent_usd = sv_spent_usd view,
           sv_reserved_usd = sv_reserved_usd view, sv_available_usd = sv_available_usd view,
           st_remaining_calls = remaining_calls, st_remaining_work_weight = remaining_work_weight,
           st_current_request_weight = current_weight, st_confidence = jget prediction ''confidence'',
           st_target_usd = fdiv (sv_available_usd view * current_weight) (current_weight + remaining_work_weight)\<rparr>)))"

definition effective_scope_target :: "json list \<Rightarrow> (string, json) dict \<Rightarrow> json \<Rightarrow> workflow_target result" where
  "effective_scope_target scopes horizon current_request_weight =
     (if scopes = [] then Inl (WorkflowBudgetError ''at least one active workflow scope is required'')
      else rbind (finite_positive current_request_weight ''current_request_weight'') (\<lambda>current_weight.
        rbind (rmap (scope_target_of horizon current_weight) scopes) (\<lambda>targets.
        rbind (min_by (<) id (map st_target_usd targets)) (\<lambda>effective.
        rbind (min_by (<) id (map sv_available_usd targets)) (\<lambda>available.
        Inr \<lparr>wt_effective_target_usd = effective, wt_available_usd = available, wt_scope_targets = targets\<rparr>)))))"

section \<open>The weight of a request\<close>

record request_weight =
  rw_difficulty :: pyfloat
  rw_input_length_tokens :: pyfloat
  rw_output_length_tokens :: pyfloat
  rw_output_token_weight :: pyfloat
  rw_weighted_tokens :: pyfloat
  rw_median_weighted_tokens :: pyfloat
  rw_size_factor :: pyfloat
  rw_request_size_beta :: pyfloat
  rw_request_difficulty_alpha :: pyfloat
  rw_unclipped_request_weight :: pyfloat
  rw_request_weight_min :: pyfloat
  rw_request_weight_max :: pyfloat
  rw_request_weight :: pyfloat

definition workflow_request_weight :: "(pyfloat \<Rightarrow> pyfloat \<Rightarrow> pyfloat result) \<Rightarrow> (pyfloat \<Rightarrow> pyfloat result) \<Rightarrow>
    json \<Rightarrow> json \<Rightarrow> json \<Rightarrow> json \<Rightarrow> json \<Rightarrow> json \<Rightarrow> json \<Rightarrow> json \<Rightarrow> json \<Rightarrow> request_weight result" where
  "workflow_request_weight powf expf input_tokens output_tokens difficulty median_weighted_tokens
     output_token_weight size_beta difficulty_alpha minimum maximum =
     rbind (finite_positive input_tokens ''input_tokens'') (\<lambda>input_length.
     rbind (finite_positive output_tokens ''output_tokens'') (\<lambda>output_length.
     rbind (normalized_non_negative difficulty ''difficulty'') (\<lambda>normalized_difficulty.
     rbind (finite_positive median_weighted_tokens ''median_weighted_tokens'') (\<lambda>median.
     rbind (normalized_non_negative output_token_weight ''output_token_weight'') (\<lambda>output_weight.
     rbind (normalized_non_negative size_beta ''size_beta'') (\<lambda>beta.
     rbind (normalized_non_negative difficulty_alpha ''difficulty_alpha'') (\<lambda>alpha.
     rbind (finite_positive minimum ''request_weight_min'') (\<lambda>lower.
     rbind (finite_positive maximum ''request_weight_max'') (\<lambda>upper.
     if upper < lower
     then Inl (WorkflowBudgetError ''request_weight_max must be greater than or equal to request_weight_min'')
     else
     let weighted_tokens = input_length + output_weight * output_length;
         size_factor = fdiv weighted_tokens median in
     rbind (powf size_factor beta) (\<lambda>size_term.
     rbind (expf (alpha * normalized_difficulty)) (\<lambda>difficulty_term.
     let unclipped = size_term * difficulty_term in
     Inr \<lparr>rw_difficulty = normalized_difficulty, rw_input_length_tokens = input_length,
       rw_output_length_tokens = output_length, rw_output_token_weight = output_weight,
       rw_weighted_tokens = weighted_tokens, rw_median_weighted_tokens = median, rw_size_factor = size_factor,
       rw_request_size_beta = beta, rw_request_difficulty_alpha = alpha, rw_unclipped_request_weight = unclipped,
       rw_request_weight_min = lower, rw_request_weight_max = upper,
       rw_request_weight = pmin upper (pmax lower unclipped)\<rparr>)))))))))))"

section \<open>Input tokens\<close>

text \<open>\<^verbatim>\<open>json.dumps(v, ensure_ascii=False, separators=(",", ":"))\<close>, keys in their order.\<close>

fun dumps_float :: "pyfloat \<Rightarrow> string" where
  "dumps_float (Fin r) = float_repr (Fin r)"
| "dumps_float PInf = ''Infinity''"
| "dumps_float NInf = ''-Infinity''"
| "dumps_float NaN = ''NaN''"

primrec dumps :: "json \<Rightarrow> string" where
  "dumps JNull = ''null''"
| "dumps (JBool b) = (if b then ''true'' else ''false'')"
| "dumps (JInt i) = show_int i"
| "dumps (JFloat x) = dumps_float x"
| "dumps (JStr s) = json_string s"
| "dumps (JArr xs) = ''['' @ join '','' (map dumps xs) @ '']''"
| "dumps (JObj kvs) =
     ''{'' @ join '','' (map (\<lambda>(k, t). json_string k @ '':'' @ t) (map (map_prod id dumps) kvs)) @ ''}''"

definition request_body :: "json list \<Rightarrow> json \<Rightarrow> json" where
  "request_body messages request_options =
     JObj [(''messages'', JArr messages), (''tools'', jget request_options ''tools''),
           (''response_format'', jget request_options ''response_format'')]"

definition conservative_input_tokens :: "json list \<Rightarrow> json \<Rightarrow> int" where
  "conservative_input_tokens messages request_options =
     max 1 (utf8_len (dumps (request_body messages request_options)) + 16 * int (length messages) + 32)"

section \<open>Cost and authorisation\<close>

text \<open>\<open>n * x\<close> of an integer and a float.\<close>

definition times_int :: "int \<Rightarrow> pyfloat \<Rightarrow> pyfloat result" where
  "times_int n x = rbind (float_of_int n) (\<lambda>y. Inr (y * x))"

definition predicted_provider_cost :: "int \<Rightarrow> json \<Rightarrow> json \<Rightarrow> json \<Rightarrow> pyfloat result" where
  "predicted_provider_cost input_tokens output_tokens input_price_per_million output_price_per_million =
     rbind (finite_positive input_price_per_million ''input_price_per_million'') (\<lambda>input_price.
     rbind (finite_positive output_price_per_million ''output_price_per_million'') (\<lambda>output_price.
     rbind (finite_positive output_tokens ''predicted_output_tokens'') (\<lambda>predicted_output.
     rbind (times_int input_tokens input_price) (\<lambda>input_part.
     Inr (fdiv (input_part + predicted_output * output_price) (Fin 1000000))))))"

definition tolerance :: pyfloat where
  "tolerance = fl (inverse (10 ^ 12))"

record authorization =
  au_call_limit_usd :: pyfloat
  au_input_reserve_usd :: pyfloat
  au_max_output_tokens :: int

definition cap_tokens :: "int \<Rightarrow> int option \<Rightarrow> int result" where
  "cap_tokens max_output_tokens caller_max_tokens = (case caller_max_tokens of
     None \<Rightarrow> Inr max_output_tokens
   | Some m \<Rightarrow> if m \<le> 0 then Inl (WorkflowBudgetError ''caller max_tokens must be positive'')
               else Inr (min max_output_tokens m))"

definition authorize_candidate :: "json \<Rightarrow> json \<Rightarrow> json \<Rightarrow> int \<Rightarrow> json \<Rightarrow> json \<Rightarrow> int option \<Rightarrow> authorization result" where
  "authorize_candidate available_usd effective_target_usd predicted_cost_usd input_tokens
     input_price_per_million output_price_per_million caller_max_tokens =
     rbind (finite_positive available_usd ''available_usd'') (\<lambda>available.
     rbind (finite_positive effective_target_usd ''effective_target_usd'') (\<lambda>target.
     rbind (finite_positive predicted_cost_usd ''predicted_cost_usd'') (\<lambda>predicted_cost.
     if available + tolerance < predicted_cost
     then Inl (WorkflowBudgetError ''predicted call cost exceeds the active workflow budget'')
     else
     rbind (finite_positive input_price_per_million ''input_price_per_million'') (\<lambda>input_price.
     rbind (finite_positive output_price_per_million ''output_price_per_million'') (\<lambda>output_price.
     let call_limit = pmin available (pmax target predicted_cost) in
     rbind (times_int input_tokens input_price) (\<lambda>input_part.
     let input_reserve = fdiv input_part (Fin 1000000); output_budget = call_limit - input_reserve in
     if output_budget \<le> Fin 0 then Inl (WorkflowBudgetError ''workflow call limit cannot fund any output tokens'')
     else
     rbind (py_floor (fdiv (output_budget * Fin 1000000) output_price)) (\<lambda>funded.
     rbind (cap_tokens funded caller_max_tokens) (\<lambda>max_output_tokens.
     if max_output_tokens < 1 then Inl (WorkflowBudgetError ''workflow call limit cannot fund any output tokens'')
     else Inr \<lparr>au_call_limit_usd = call_limit, au_input_reserve_usd = input_reserve,
       au_max_output_tokens = max_output_tokens\<rparr>))))))))"

end
