(* ===== verification/Workflow_Props.thy ===== *)
theory Workflow_Props
  imports Workflow_Budget
begin

text \<open>
  What a workflow budget promises: a call that is authorised fits every scope it is charged to,
  up to the rounding of three float operations, which is bounded here once and for all.
\<close>

section \<open>The relative error of rounding\<close>

lemma round_even_upper_half: "of_int (round_even z) \<le> z + 1 / 2"
proof -
  have "z - of_int \<lfloor>z\<rfloor> < 1 / 2 \<or> 1 / 2 \<le> z - of_int \<lfloor>z\<rfloor>" by linarith
  moreover have "of_int \<lfloor>z\<rfloor> \<le> z" "z < of_int \<lfloor>z\<rfloor> + 1" by linarith+
  ultimately show ?thesis unfolding round_even_def Let_def by (auto split: if_splits) linarith+
qed

lemma rnd_upper:
  assumes "scale2 (- 1022) \<le> x"
  shows "rnd x \<le> x * (1 + scale2 (- 53))"
proof -
  have x: "0 < x" using assms scale2_pos [of "- 1022"] by linarith
  note b = ilog2_bounds [OF x]
  have "scale2 (- 1022) < scale2 (ilog2 x + 1)" using assms b by linarith
  then have "- 1022 \<le> ilog2 x" by simp
  then have u: "ulp_exp x = ilog2 x - 52" by (simp add: ulp_exp_def)
  define s where "s = scale2 (ulp_exp x)"
  have s: "0 < s" by (simp add: s_def)
  have "scale2 (ilog2 x - 52) = scale2 (ilog2 x) * scale2 (- 52)" using scale2_add [of "ilog2 x" "- 52"] by simp
  then have small: "s \<le> x * scale2 (- 52)" unfolding s_def u using b by (simp add: mult_right_mono less_imp_le)
  have "rnd x = of_int (round_even (x / s)) * s" using x by (simp add: rnd_def rnd_pos_def s_def Let_def)
  also have "\<dots> \<le> (x / s + 1 / 2) * s" using s round_even_upper_half [of "x / s"] by (intro mult_right_mono) auto
  also have "\<dots> = x + s / 2" using s by (simp add: field_simps)
  also have "\<dots> \<le> x + x * scale2 (- 52) / 2" using small by simp
  also have "x + x * scale2 (- 52) / 2 = x * (1 + scale2 (- 53))"
  proof -
    have "scale2 (- 52) = 2 * scale2 (- 53)" by (simp add: scale2_def)
    then show ?thesis by (simp add: distrib_left)
  qed
  finally show ?thesis .
qed

text \<open>Below a double, rounding stays below it; so a large rounded value comes from a large one.\<close>

lemma rnd_large: "is_double c \<Longrightarrow> c < rnd x \<Longrightarrow> c < x"
  using rnd_le [of c x] by (meson leD leI)

section \<open>Positive numbers of a body\<close>

lemma finite_positive_Inr: "finite_positive v field = Inr x \<Longrightarrow> \<exists>r. x = Fin r \<and> 0 < r \<and> py_float v = Inr x"
  by (auto simp: finite_positive_def Let_def wrap_number_def isfinite_iff
      split: if_splits sum.splits py_error.splits)

lemma finite_positive_float [simp]: "finite_positive (JFloat x) field = Inr y \<longleftrightarrow> x = y \<and> (\<exists>r. x = Fin r \<and> 0 < r)"
  by (auto simp: finite_positive_def wrap_number_def isfinite_iff)

text \<open>The quotient of a million times the budget by the price, in floats and exactly.\<close>

lemma funded_exact:
  assumes "0 < p" "scale2 (- 40) \<le> p" "Fin l - Fin r = Fin b" "0 < b"
    and "py_floor (fdiv (Fin b * Fin 1000000) (Fin p)) = Inr n" "1 \<le> n"
  shows "of_int n * p / 1000000 \<le> (l - r) * (1 + scale2 (- 50))"
proof -
  define u where "u = scale2 (- 53)"
  obtain m where m: "Fin b * Fin 1000000 = Fin m" "fdiv (Fin m) (Fin p) \<noteq> NaN"
    using assms(1,5) by (cases "Fin b * Fin 1000000") (auto simp: finf_def)
  have rm: "m = rnd (b * 1000000)" using m(1) by (simp add: Fin_mul fl_Fin)
  obtain q where q: "fl (m / p) = Fin q" "n = \<lfloor>q\<rfloor>"
    using assms(1,5) m(1) by (cases "fl (m / p)") auto
  have rq: "q = rnd (m / p)" using q(1) by (rule fl_Fin)
  have rb: "b = rnd (l - r)" using assms(3) by (simp add: Fin_sub fl_Fin)
  have n: "of_int n \<le> q" using q(2) by linarith
  have half: "is_double (scale2 e)" if "- 100 \<le> e" for e
    using rnd_exact [of 1 e] that by (simp add: is_double_def)
  have "scale2 (- 1) < q" using n assms(6)
  proof -
    have "scale2 (- 1) < (1 :: rat)" by (simp add: scale2_def)
    also have "1 \<le> (of_int n :: rat)" using assms(6) by simp
    finally show ?thesis using n by linarith
  qed
  then have q1: "scale2 (- 1) < m / p" using rnd_large [OF half] rq by simp
  have q2: "q \<le> m / p * (1 + u)" unfolding rq u_def by (rule rnd_upper) (use q1 scale2_mono [of "- 1022" "- 1"] in linarith)
  have "scale2 (- 1) * scale2 (- 40) \<le> scale2 (- 1) * p" using assms(2) by (intro mult_left_mono less_imp_le [OF scale2_pos])
  also have "\<dots> < m" using q1 assms(1) by (simp add: pos_less_divide_eq)
  finally have "scale2 (- 41) < m" using scale2_add [of "- 1" "- 40"] by simp
  then have m1: "scale2 (- 41) < b * 1000000" using rnd_large [OF half] rm by simp
  have m2: "m \<le> b * 1000000 * (1 + u)" unfolding rm u_def by (rule rnd_upper) (use m1 scale2_mono [of "- 1022" "- 41"] in linarith)
  have "scale2 (- 61) * 1000000 \<le> scale2 (- 41)" by (simp add: scale2_def)
  with m1 have "scale2 (- 61) < b" by linarith
  then have b1: "scale2 (- 61) < l - r" using rnd_large [OF half] rb by simp
  have b2: "b \<le> (l - r) * (1 + u)" unfolding rb u_def by (rule rnd_upper) (use b1 scale2_mono [of "- 1022" "- 61"] in linarith)
  have u: "0 < u" "(1 + u) * ((1 + u) * (1 + u)) \<le> 1 + scale2 (- 50)" by (simp_all add: u_def scale2_def)
  have d: "0 < l - r" using b1 scale2_pos [of "- 61"] by linarith
  have "of_int n * p \<le> m * (1 + u)"
  proof -
    have "of_int n * p \<le> m / p * (1 + u) * p" using n q2 assms(1) by (intro mult_right_mono) auto
    also have "\<dots> = m * (1 + u)" using assms(1) by simp
    finally show ?thesis .
  qed
  also have "\<dots> \<le> b * 1000000 * (1 + u) * (1 + u)" using m2 u(1) by (intro mult_right_mono) auto
  also have "\<dots> \<le> (l - r) * (1 + u) * 1000000 * (1 + u) * (1 + u)" using b2 u(1) by (intro mult_right_mono) auto
  also have "\<dots> = (l - r) * 1000000 * ((1 + u) * ((1 + u) * (1 + u)))" by (simp add: algebra_simps)
  also have "\<dots> \<le> (l - r) * 1000000 * (1 + scale2 (- 50))" using u(2) d by (intro mult_left_mono) auto
  finally show ?thesis by (simp add: field_simps)
qed

section \<open>The smallest scope decides\<close>

interpretation floats: key_order "(<) :: pyfloat \<Rightarrow> pyfloat \<Rightarrow> bool" "\<lambda>x. x \<noteq> NaN"
  by (rule key_order_pyfloat)

lemma available_number:
  assumes "scope_budget_view scope = Inr view"
  shows "sv_available_usd view \<noteq> NaN \<and> \<not> sv_available_usd view \<le> Fin 0 \<and> Fin 0 \<le> sv_spent_usd view \<and>
    Fin 0 \<le> sv_reserved_usd view \<and> sv_available_usd view = sv_max_usd view - sv_spent_usd view - sv_reserved_usd view"
proof -
  have sub: "x - Fin b \<noteq> NaN" if "x \<noteq> NaN" for x :: pyfloat and b
    using that by (cases x) (auto simp: minus_pyfloat_def)
  have sub2: "Fin a - Fin b - Fin c \<noteq> NaN" for a b c
    using sub [OF sub [of "Fin a" b]] by simp
  show ?thesis using assms unfolding scope_budget_view_def Let_def
    by (auto simp: isfinite_iff sub2 split: if_splits dest!: finite_positive_Inr)
qed

lemma target_view:
  assumes "scope_target_of horizon weight scope = Inr t"
  shows "\<exists>view. scope_budget_view scope = Inr view \<and> sv_available_usd t = sv_available_usd view \<and>
    sv_scope_id t = sv_scope_id view \<and> sv_scope_id t \<noteq> [] \<and>
    sv_max_usd t = sv_max_usd view \<and> sv_spent_usd t = sv_spent_usd view \<and> sv_reserved_usd t = sv_reserved_usd view"
proof -
  from assms obtain view where v: "scope_budget_view scope = Inr view" by (auto simp: scope_target_of_def)
  show ?thesis
  proof (cases "sv_scope_id view = [] \<or> map_of horizon (sv_scope_id view) = None")
    case True
    then have none: "(if sv_scope_id view = [] then None else map_of horizon (sv_scope_id view)) = None" by auto
    from assms v show ?thesis by (auto simp: scope_target_of_def Let_def none)
  next
    case False
    then obtain prediction where p: "sv_scope_id view \<noteq> []" "map_of horizon (sv_scope_id view) = Some prediction" by auto
    with assms v show ?thesis by (cases prediction) (auto simp: scope_target_of_def Let_def)
  qed
qed

lemma smallest_available:
  assumes "effective_scope_target scopes horizon weight = Inr t" "s \<in> set (wt_scope_targets t)"
  shows "\<not> sv_available_usd s < wt_available_usd t \<and> sv_available_usd s \<noteq> NaN \<and>
    length (wt_scope_targets t) = length scopes \<and>
    (\<exists>scope\<in>set scopes. \<exists>view. scope_budget_view scope = Inr view \<and> sv_available_usd s = sv_available_usd view \<and>
       sv_scope_id s = sv_scope_id view)"
proof -
  from assms(1) obtain w targets where t: "rmap (scope_target_of horizon w) scopes = Inr targets"
    "wt_scope_targets t = targets" "min_by (<) id (map sv_available_usd targets) = Inr (wt_available_usd t)"
    by (auto simp: effective_scope_target_def split: if_splits)
  have view: "\<exists>scope\<in>set scopes. \<exists>view. scope_budget_view scope = Inr view \<and> sv_available_usd x = sv_available_usd view \<and>
       sv_scope_id x = sv_scope_id view \<and> sv_available_usd view \<noteq> NaN" if "x \<in> set targets" for x
    using rmap_set [OF t(1) that] target_view available_number by metis
  have "\<not> sv_available_usd s < wt_available_usd t"
  proof -
    have "\<forall>x\<in>set targets. sv_available_usd x \<noteq> NaN" using view by metis
    then show ?thesis using floats.min_by_least [OF t(3), of "sv_available_usd s"] assms(2) t(2) by simp
  qed
  then show ?thesis using view assms(2) t(2) rmap_length [OF t(1)] by metis
qed

text \<open>What a scope has left, read from its fields: the maximum less what was spent and what is reserved.\<close>

definition left_in :: "json \<Rightarrow> pyfloat \<Rightarrow> bool" where
  "left_in scope left \<longleftrightarrow> (\<exists>maximum spent reserved.
     finite_positive (jget scope ''maxUsd'') ''scope.maxUsd'' = Inr maximum \<and>
     py_float (get_or_zero scope ''spentUsd'') = Inr spent \<and> py_float (get_or_zero scope ''reservedUsd'') = Inr reserved \<and>
     Fin 0 \<le> spent \<and> Fin 0 \<le> reserved \<and> left = maximum - spent - reserved)"

lemma view_left: "scope_budget_view scope = Inr view \<Longrightarrow> left_in scope (sv_available_usd view)"
  by (auto simp: scope_budget_view_def Let_def left_in_def split: if_splits)

lemma rmap_pairs: "rmap f xs = Inr ys \<Longrightarrow> (\<And>x y. f x = Inr y \<Longrightarrow> R x y) \<Longrightarrow> list_all2 R xs ys"
  by (induction xs arbitrary: ys) auto

lemma targets_left:
  assumes "effective_scope_target scopes horizon weight = Inr t"
  shows "list_all2 (\<lambda>scope s. left_in scope (sv_available_usd s)) scopes (wt_scope_targets t)"
proof -
  from assms obtain w where "rmap (scope_target_of horizon w) scopes = Inr (wt_scope_targets t)"
    by (auto simp: effective_scope_target_def split: if_splits)
  then show ?thesis by (rule rmap_pairs) (metis target_view view_left)
qed

section \<open>Property\<close>

lemma authorized_parts:
  assumes "authorize_candidate (JFloat available) (JFloat target) cost input_tokens input_price output_price caller = Inr a"
  shows "(\<exists>predicted. finite_positive cost ''predicted_cost_usd'' = Inr predicted \<and>
       au_call_limit_usd a = pmin available (pmax target predicted)) \<and>
    (\<exists>n ip. float_of_int input_tokens = Inr n \<and> finite_positive input_price ''input_price_per_million'' = Inr ip \<and>
       au_input_reserve_usd a = fdiv (n * ip) (Fin 1000000))"
  using assms unfolding authorize_candidate_def Let_def times_int_def by (auto split: if_splits)

text \<open>
  Property C39. An authorised call is funded by every scope it is charged to. When a call is
  authorised against the smallest availability and target of its scopes, its limit is the larger
  of target and predicted cost as far as the money goes, is positive, and is within what each
  scope has left: the maximum in its document less what was spent and what is reserved. The
  input is reserved at its price per million tokens. The call may produce at least one token and
  no more than the caller asked for, and the price of all the tokens it may produce fits what
  its limit leaves after the input, up to a relative error of at most two to the minus fifty
  from the float operations (for prices that are not vanishingly small).
\<close>

theorem authorized_call_funded:
  assumes "effective_scope_target scopes horizon weight = Inr t"
    and "authorize_candidate (JFloat (wt_available_usd t)) (JFloat (wt_effective_target_usd t)) cost input_tokens
      input_price output_price caller = Inr a"
    and "finite_positive output_price ''output_price_per_million'' = Inr (Fin p)" "scale2 (- 40) \<le> p"
  shows "list_all2 (\<lambda>scope s. left_in scope (sv_available_usd s) \<and> au_call_limit_usd a \<le> sv_available_usd s)
      scopes (wt_scope_targets t) \<and> Fin 0 < au_call_limit_usd a \<and>
    (\<exists>predicted. finite_positive cost ''predicted_cost_usd'' = Inr predicted \<and>
       au_call_limit_usd a = pmin (wt_available_usd t) (pmax (wt_effective_target_usd t) predicted)) \<and>
    (\<exists>n ip. float_of_int input_tokens = Inr n \<and> finite_positive input_price ''input_price_per_million'' = Inr ip \<and>
       au_input_reserve_usd a = fdiv (n * ip) (Fin 1000000)) \<and>
    1 \<le> au_max_output_tokens a \<and> (\<forall>m. caller = Some m \<longrightarrow> au_max_output_tokens a \<le> m) \<and>
    (\<exists>l r. au_call_limit_usd a = Fin l \<and> au_input_reserve_usd a = Fin r \<and>
       of_int (au_max_output_tokens a) * p / 1000000 \<le> (l - r) * (1 + scale2 (- 50)))"
proof -
  have parts: "(\<exists>predicted. finite_positive cost ''predicted_cost_usd'' = Inr predicted \<and>
       au_call_limit_usd a = pmin (wt_available_usd t) (pmax (wt_effective_target_usd t) predicted)) \<and>
    (\<exists>n ip. float_of_int input_tokens = Inr n \<and> finite_positive input_price ''input_price_per_million'' = Inr ip \<and>
       au_input_reserve_usd a = fdiv (n * ip) (Fin 1000000))"
    using assms(2) by (rule authorized_parts)
  from assms(2,3) obtain av tg c funded where
    av: "wt_available_usd t = Fin av" "0 < av" "wt_effective_target_usd t = Fin tg" "0 < tg" "0 < c"
    and limit: "au_call_limit_usd a = pmin (Fin av) (pmax (Fin tg) (Fin c))"
    and budget: "\<not> au_call_limit_usd a - au_input_reserve_usd a \<le> Fin 0"
    and funded: "py_floor (fdiv ((au_call_limit_usd a - au_input_reserve_usd a) * Fin 1000000) (Fin p)) = Inr funded"
    and capped: "cap_tokens funded caller = Inr (au_max_output_tokens a)" "1 \<le> au_max_output_tokens a"
    and p: "0 < p"
    unfolding authorize_candidate_def Let_def
    by (auto split: if_splits dest!: finite_positive_Inr)
  have bounds: "au_call_limit_usd a \<le> Fin av" "Fin 0 < au_call_limit_usd a"
    using av(2,4,5) unfolding limit by (auto simp: pmin_def pmax_def)
  obtain l where l: "au_call_limit_usd a = Fin l" using bounds by (cases "au_call_limit_usd a") auto
  have no_floor: "\<not> (\<exists>n. py_floor (fdiv (x * Fin 1000000) (Fin p)) = Inr n)" if "x \<in> {NaN, PInf}" for x
    using that p by (auto simp: times_pyfloat_def finf_def)
  obtain r where r: "au_input_reserve_usd a = Fin r"
    using budget funded no_floor [of "au_call_limit_usd a - au_input_reserve_usd a"] unfolding l
    by (cases "au_input_reserve_usd a") (auto simp: minus_pyfloat_def less_eq_pyfloat_def)
  obtain b where b: "Fin l - Fin r = Fin b" "0 < b"
    using budget funded no_floor [of "Fin l - Fin r"] unfolding l r
    by (cases "Fin l - Fin r") (auto simp: Fin_sub less_eq_pyfloat_def feq_def)
  have tokens: "au_max_output_tokens a \<le> funded" "\<forall>m. caller = Some m \<longrightarrow> au_max_output_tokens a \<le> m"
    using capped(1) by (auto simp: cap_tokens_def split: option.splits if_splits)
  have "of_int funded * p / 1000000 \<le> (l - r) * (1 + scale2 (- 50))"
    by (rule funded_exact [OF p assms(4) b]) (use funded tokens(1) capped(2) in \<open>simp_all add: l r b\<close>)
  moreover have "of_int (au_max_output_tokens a) * p / 1000000 \<le> of_int funded * p / 1000000"
    using tokens(1) p by (intro divide_right_mono mult_right_mono) auto
  ultimately have "of_int (au_max_output_tokens a) * p / 1000000 \<le> (l - r) * (1 + scale2 (- 50))" by linarith
  moreover have "au_call_limit_usd a \<le> sv_available_usd s" if "s \<in> set (wt_scope_targets t)" for s
    using smallest_available [OF assms(1) that] bounds(1) unfolding av(1)
    by (intro pyfloat_trans [OF bounds(1)]) (auto simp: pyfloat_not_less)
  then have "list_all2 (\<lambda>scope s. left_in scope (sv_available_usd s) \<and> au_call_limit_usd a \<le> sv_available_usd s)
      scopes (wt_scope_targets t)"
    using targets_left [OF assms(1)] by (simp add: list_all2_conv_all_nth)
  ultimately show ?thesis using bounds(2) capped(2) tokens(2) l r parts by blast
qed

definition sample_scopes :: "json list" where
  "sample_scopes = [JObj [(''id'', JStr ''run''), (''maxUsd'', JInt 10), (''spentUsd'', JInt 2)],
     JObj [(''id'', JStr ''team''), (''maxUsd'', JInt 16), (''reservedUsd'', JInt 12)]]"

definition sample_horizon :: "(string, json) dict" where
  "sample_horizon = (let h = JObj [(''remaining_calls_after_current'', JInt 1), (''remaining_work_weight_after_current'', JInt 3)]
     in [(''run'', h), (''team'', h)])"

theorem authorized_call_funded_witness:
  "\<exists>t a. effective_scope_target sample_scopes sample_horizon (JInt 1) = Inr t \<and> length (wt_scope_targets t) = 2 \<and>
     authorize_candidate (JFloat (wt_available_usd t)) (JFloat (wt_effective_target_usd t)) (JInt 2) 1000000 (JInt 1) (JInt 4)
       (Some 100000) = Inr a \<and> Fin 0 < au_call_limit_usd a"
proof -
  define e where "e = effective_scope_target sample_scopes sample_horizon (JInt 1)"
  have "is_ok e" unfolding e_def by code_simp
  then obtain t where t: "e = Inr t" by (auto simp: is_ok_iff)
  have n: "(case e of Inr t \<Rightarrow> wt_available_usd t = Fin 4 \<and> wt_effective_target_usd t = Fin 1 \<and> length (wt_scope_targets t) = 2
      | Inl _ \<Rightarrow> False)" unfolding e_def by code_simp
  have "is_ok (authorize_candidate (JFloat (Fin 4)) (JFloat (Fin 1)) (JInt 2) 1000000 (JInt 1) (JInt 4) (Some 100000))"
    by code_simp
  then obtain a where a: "authorize_candidate (JFloat (wt_available_usd t)) (JFloat (wt_effective_target_usd t)) (JInt 2) 1000000
      (JInt 1) (JInt 4) (Some 100000) = Inr a" using n t by (auto simp: is_ok_iff)
  have price: "finite_positive (JInt 4) ''output_price_per_million'' = Inr (Fin 4)" by code_simp
  have "scale2 (- 40) \<le> 4" by code_simp
  from authorized_call_funded [OF t [unfolded e_def] a price this] t a n show ?thesis by (auto simp: e_def)
qed

end
