(* ===== verification/Exporter.thy ===== *)
theory Exporter
  imports Sdk
begin

text \<open>
  The event exporter (\<^verbatim>\<open>src/promptrail/exporter\<close>): the bounded queue, the JSON encoder,
  the HTTP sender and the worker. The network, \<^verbatim>\<open>gzip\<close> and the clock are arguments. The
  worker's thread is cut into the steps between two accesses of the queue; its local batch is
  part of its state.
\<close>

section \<open>The queue\<close>

record 'e event_queue =
  qu_items :: "'e list"
  qu_maxsize :: int
  qu_unfinished :: nat
  qu_dropped_full :: nat
  qu_dropped_error :: nat

definition queue_init :: "int \<Rightarrow> 'e event_queue" where
  "queue_init maxsize = \<lparr>qu_items = [], qu_maxsize = max 1 maxsize, qu_unfinished = 0, qu_dropped_full = 0,
     qu_dropped_error = 0\<rparr>"

definition put_nowait :: "'e \<Rightarrow> 'e event_queue \<Rightarrow> bool \<times> 'e event_queue" where
  "put_nowait e q =
     (if qu_maxsize q \<le> int (length (qu_items q)) then (False, q\<lparr>qu_dropped_full := qu_dropped_full q + 1\<rparr>)
      else (True, q\<lparr>qu_items := qu_items q @ [e], qu_unfinished := qu_unfinished q + 1\<rparr>))"

text \<open>\<open>None\<close> is the exception \<^verbatim>\<open>Empty\<close>; a timeout ends in it too.\<close>

definition get_nowait :: "'e event_queue \<Rightarrow> ('e \<times> 'e event_queue) option" where
  "get_nowait q = (case qu_items q of [] \<Rightarrow> None | e # es \<Rightarrow> Some (e, q\<lparr>qu_items := es\<rparr>))"

definition task_done :: "'e event_queue \<Rightarrow> 'e event_queue" where
  "task_done q = q\<lparr>qu_unfinished := qu_unfinished q - 1\<rparr>"

definition queue_empty :: "'e event_queue \<Rightarrow> bool" where
  "queue_empty q = (qu_items q = [])"

definition qsize :: "'e event_queue \<Rightarrow> nat" where
  "qsize q = length (qu_items q)"

definition dropped :: "'e event_queue \<Rightarrow> nat" where
  "dropped q = qu_dropped_full q + qu_dropped_error q"

section \<open>The encoder\<close>

text \<open>
  \<^verbatim>\<open>json.dumps\<close> of a value: the first object that is no JSON is a \<^verbatim>\<open>TypeError\<close>, the first
  NaN or infinity a \<^verbatim>\<open>ValueError\<close>. A key that is no text is left to fail as well (sanitising
  leaves none).
\<close>

definition not_json :: "'a result" where
  "not_json = Inl (TypeError ''Object is not JSON serializable'')"

primrec any_dumps :: "pyany \<Rightarrow> string result" where
  "any_dumps ANone = Inr ''null''"
| "any_dumps (ABool b) = Inr (if b then ''true'' else ''false'')"
| "any_dumps (AInt i) = Inr (show_int i)"
| "any_dumps (AFloat x) = (if isfinite x then Inr (float_repr x)
     else Inl (ValueError ''Out of range float values are not JSON compliant''))"
| "any_dumps (AStr s) = Inr (json_string s)"
| "any_dumps (AList xs) = rbind (rmap id (map any_dumps xs)) (\<lambda>ts. Inr (''['' @ join '','' ts @ '']''))"
| "any_dumps (AMap kvs) =
     rbind (rmap id (map (\<lambda>(k, t). case k of KObj _ \<Rightarrow> not_json | KStr s \<Rightarrow> rbind t (\<lambda>u. Inr (json_string s @ '':'' @ u)))
       (map (map_prod id any_dumps) kvs))) (\<lambda>ts. Inr (''{'' @ join '','' ts @ ''}''))"
| "any_dumps (AObj b s) = not_json"

definition encode_batch :: "promptrail_event list \<Rightarrow> string result" where
  "encode_batch events =
     (case rbind (rmap to_json_dict events) (\<lambda>dicts. any_dumps (AMap [(KStr ''events'', AList (map AMap dicts))])) of
        Inl e \<Rightarrow> Inl (SerializationError (''failed to serialize runtime event batch: '' @ exception_name e))
      | Inr text \<Rightarrow> Inr (utf8_encode text))"

section \<open>The sender\<close>

record http_sender =
  hs_url :: split_url
  hs_path :: string
  hs_timeout :: pyfloat
  hs_api_key :: "string option"
  hs_gzip :: bool
  hs_sdk_version :: string
  hs_connected :: bool

datatype export_error = ExportError string bool

text \<open>The reply of the network: a status, or the type name of what it raised.\<close>

datatype reply = Status int | Broken string

record http_request =
  hr_path :: string
  hr_body :: string
  hr_headers :: "(string, string) dict"

definition retryable_statuses :: "int set" where
  "retryable_statuses = {408, 425, 429, 500, 502, 503, 504}"

definition sender_init :: "(string \<Rightarrow> bool) \<Rightarrow> runtime_config \<Rightarrow> string \<Rightarrow> http_sender result" where
  "sender_init v6 config path =
     (if endpoint config = [] then Inl (ValueError ''runtime exporter endpoint is required'')
      else rbind (urlsplit v6 (endpoint config)) (\<lambda>u.
        if url_scheme u \<notin> {''https'', ''http''} \<or> url_netloc u = []
        then Inl (ValueError ''runtime exporter endpoint must be an http(s) URL'')
        else Inr \<lparr>hs_url = u,
          hs_path = (if url_path u \<noteq> [] then url_path u else path) @
            (if url_query u \<noteq> [] then ''?'' @ url_query u else []),
          hs_timeout = cf_export_timeout config, hs_api_key = cf_api_key config, hs_gzip = cf_export_gzip config,
          hs_sdk_version = cf_sdk_version config, hs_connected = False\<rparr>))"

definition request_of :: "(string \<Rightarrow> string) \<Rightarrow> http_sender \<Rightarrow> string \<Rightarrow> (string, string) dict \<Rightarrow> http_request" where
  "request_of compress s body headers =
     (let h0 = [(''Content-Type'', ''application/json''), (''User-Agent'', ''promptrail-python/'' @ hs_sdk_version s),
                (''Connection'', ''keep-alive'')];
          h1 = (if present (hs_api_key s) then dict_set ''Authorization'' (''Bearer '' @ the (hs_api_key s)) h0 else h0);
          h2 = fold (\<lambda>(k, v). dict_set k v) headers h1;
          zipped = (hs_gzip s \<and> 512 \<le> length body);
          out = (if zipped then compress body else body);
          h3 = (if zipped then dict_set ''Content-Encoding'' ''gzip'' h2 else h2)
      in \<lparr>hr_path = hs_path s, hr_body = out, hr_headers = dict_set ''Content-Length'' (show_nat (length out)) h3\<rparr>)"

definition status_result :: "int \<Rightarrow> export_error + int" where
  "status_result status =
     (if 200 \<le> status \<and> status < 300 then Inr status
      else if 500 \<le> status \<or> status \<in> retryable_statuses
      then Inl (ExportError (''runtime export failed with HTTP '' @ show_int status) (status \<in> retryable_statuses))
      else Inl (ExportError (''runtime export rejected with HTTP '' @ show_int status) False))"

text \<open>Only a failure of the transport closes the connection.\<close>

definition send_request :: "(http_request \<Rightarrow> reply) \<Rightarrow> (string \<Rightarrow> string) \<Rightarrow> string \<Rightarrow> (string, string) dict \<Rightarrow> http_sender \<Rightarrow>
    (export_error + int) \<times> http_sender" where
  "send_request network compress body headers s =
     (case network (request_of compress s body headers) of
        Status status \<Rightarrow> (status_result status, s\<lparr>hs_connected := True\<rparr>)
      | Broken kind \<Rightarrow> (Inl (ExportError (''runtime export transport error: '' @ kind) True), s\<lparr>hs_connected := False\<rparr>))"

definition close_sender :: "http_sender \<Rightarrow> http_sender" where
  "close_sender s = s\<lparr>hs_connected := False\<rparr>"

section \<open>Sending with backoff\<close>

datatype outcome = Sent | Failed bool | Crashed

text \<open>
  What a batch meets: the clock before each attempt and after its failure, the jitter, and the
  outcome of each attempt (\<open>Failed b\<close> tells whether the error is retryable).
\<close>

record weather =
  we_clock :: "nat \<Rightarrow> pyfloat"
  we_after :: "nat \<Rightarrow> pyfloat"
  we_jitter :: "nat \<Rightarrow> pyfloat"
  we_send :: "nat \<Rightarrow> outcome"

text \<open>Delivered or not, the number of attempts made, and how often the batch counts as failed.\<close>

fun send_loop :: "weather \<Rightarrow> pyfloat option \<Rightarrow> nat \<Rightarrow> nat \<Rightarrow> pyfloat \<Rightarrow> bool \<times> nat \<times> nat" where
  "send_loop we deadline 0 k delay = (False, k, 0)"
| "send_loop we deadline (Suc n) k delay =
     (if (case deadline of None \<Rightarrow> False | Some d \<Rightarrow> d \<le> we_clock we k) then (False, k, 1)
      else case we_send we k of
        Sent \<Rightarrow> (True, k + 1, 0)
      | Failed False \<Rightarrow> (False, k + 1, 1)
      | _ \<Rightarrow>
          let sleep = delay + we_jitter we k;
              sleep_for = (case deadline of None \<Rightarrow> sleep | Some d \<Rightarrow> pmin sleep (pmax (Fin 0) (d - we_after we k)))
          in if sleep_for \<le> Fin 0 then (False, k + 1, 1)
             else (case send_loop we deadline n (k + 1) (pmin (delay * Fin 2) (Fin 5)) of
                (delivered, attempts, failures) \<Rightarrow> (delivered, attempts, failures + 1)))"

record worker =
  wk_queue :: "promptrail_event event_queue"
  wk_batch :: "promptrail_event list"
  wk_batch_size :: nat
  wk_flush_interval :: pyfloat
  wk_shutdown_timeout :: pyfloat
  wk_max_retries :: nat
  wk_stop :: bool
  wk_finished :: bool
  wk_shutdown_deadline :: "pyfloat option"
  wk_dropped_serialization :: nat
  wk_failed_exports :: nat

definition worker_init :: "runtime_config \<Rightarrow> worker" where
  "worker_init config =
     \<lparr>wk_queue = queue_init (cf_max_queue_size config), wk_batch = [],
      wk_batch_size = nat (max 1 (cf_export_batch_size config)),
      wk_flush_interval = pmax (fl (1 / 100)) (cf_export_flush_interval config),
      wk_shutdown_timeout = pmax (Fin 0) (cf_export_shutdown_timeout config),
      wk_max_retries = nat (max 1 (cf_max_export_retries config)), wk_stop = False, wk_finished = False,
      wk_shutdown_deadline = None, wk_dropped_serialization = 0, wk_failed_exports = 0\<rparr>"

text \<open>\<open>deadline or self._shutdown_deadline\<close>: a deadline of zero counts as none.\<close>

definition deadline_or :: "pyfloat option \<Rightarrow> pyfloat option \<Rightarrow> pyfloat option" where
  "deadline_or a b = (case a of None \<Rightarrow> b | Some x \<Rightarrow> if x = Fin 0 then b else a)"

definition send_with_backoff :: "weather \<Rightarrow> promptrail_event list \<Rightarrow> pyfloat option \<Rightarrow> worker \<Rightarrow> bool \<times> worker" where
  "send_with_backoff we batch deadline w =
     (case encode_batch batch of
        Inl _ \<Rightarrow> (False, w\<lparr>wk_dropped_serialization := wk_dropped_serialization w + length batch\<rparr>)
      | Inr body \<Rightarrow>
          (case send_loop we (deadline_or deadline (wk_shutdown_deadline w)) (wk_max_retries w) 0 (fl (1 / 10)) of
             (delivered, attempts, failures) \<Rightarrow>
               (delivered, w\<lparr>wk_failed_exports := wk_failed_exports w + failures * length batch\<rparr>)))"

definition enqueue :: "promptrail_event \<Rightarrow> worker \<Rightarrow> bool \<times> worker" where
  "enqueue e w = (case put_nowait e (wk_queue w) of (ok, q) \<Rightarrow> (ok, w\<lparr>wk_queue := q\<rparr>))"

section \<open>The thread\<close>

text \<open>
  One turn of \<^verbatim>\<open>_run\<close>: take an event and send a full batch, or, when the queue stays empty
  until the flush is due, send what there is. \<open>None\<close> means that nothing was sent.
\<close>

definition run_take :: "weather \<Rightarrow> worker \<Rightarrow> (bool \<times> promptrail_event list) option \<times> worker" where
  "run_take we w =
     (case get_nowait (wk_queue w) of
        None \<Rightarrow> (None, w)
      | Some (e, q) \<Rightarrow>
          let w1 = w\<lparr>wk_queue := task_done q, wk_batch := wk_batch w @ [e]\<rparr>
          in if wk_batch_size w \<le> length (wk_batch w1)
             then (case send_with_backoff we (wk_batch w1) None w1 of
                     (delivered, w2) \<Rightarrow> (Some (delivered, wk_batch w1), w2\<lparr>wk_batch := []\<rparr>))
             else (None, w1))"

definition run_flush :: "weather \<Rightarrow> worker \<Rightarrow> (bool \<times> promptrail_event list) option \<times> worker" where
  "run_flush we w =
     (if wk_batch w = [] then (None, w)
      else case send_with_backoff we (wk_batch w) None w of
        (delivered, w1) \<Rightarrow> (Some (delivered, wk_batch w), w1\<lparr>wk_batch := []\<rparr>))"

text \<open>After the loop: the batch in hand is sent and the thread ends.\<close>

definition run_finish :: "weather \<Rightarrow> worker \<Rightarrow> (bool \<times> promptrail_event list) option \<times> worker" where
  "run_finish we w = (case run_flush we w of (sent, w1) \<Rightarrow> (sent, w1\<lparr>wk_finished := True\<rparr>))"

section \<open>Shutdown\<close>

definition request_stop :: "pyfloat \<Rightarrow> pyfloat option \<Rightarrow> worker \<Rightarrow> worker" where
  "request_stop now timeout w =
     (let budget = (case timeout of None \<Rightarrow> wk_shutdown_timeout w | Some t \<Rightarrow> pmax (Fin 0) t)
      in w\<lparr>wk_shutdown_deadline := Some (now + budget), wk_stop := True\<rparr>)"

text \<open>
  \<^verbatim>\<open>_drain_until\<close>: \<open>clock k\<close> is the reading before event \<open>k\<close> is taken. It returns the batches
  it sent, and the events it took but dropped because the deadline had passed.
\<close>

fun drain_loop :: "(nat \<Rightarrow> weather) \<Rightarrow> (nat \<Rightarrow> pyfloat) \<Rightarrow> pyfloat \<Rightarrow> nat \<Rightarrow> promptrail_event list \<Rightarrow> nat \<Rightarrow> worker \<Rightarrow>
    (bool \<times> promptrail_event list) list \<times> promptrail_event list \<times> nat \<times> worker" where
  "drain_loop we clock deadline 0 batch k w = ([], batch, k, w)"
| "drain_loop we clock deadline (Suc n) batch k w =
     (if deadline \<le> clock k then ([], batch, k, w)
      else case get_nowait (wk_queue w) of
        None \<Rightarrow> ([], batch, k, w)
      | Some (e, q) \<Rightarrow>
          let w1 = w\<lparr>wk_queue := task_done q\<rparr>; batch1 = batch @ [e]
          in if wk_batch_size w \<le> length batch1
             then (case send_with_backoff (we k) batch1 (Some deadline) w1 of
                (delivered, w2) \<Rightarrow>
                  (case drain_loop we clock deadline n [] (Suc k) w2 of
                     (sent, rest, k', w3) \<Rightarrow> ((delivered, batch1) # sent, rest, k', w3)))
             else drain_loop we clock deadline n batch1 (Suc k) w1)"

text \<open>The loop takes at most the events in the queue, since the thread has ended.\<close>

definition drain_until :: "(nat \<Rightarrow> weather) \<Rightarrow> (nat \<Rightarrow> pyfloat) \<Rightarrow> pyfloat \<Rightarrow> worker \<Rightarrow>
    (bool \<times> promptrail_event list) list \<times> promptrail_event list \<times> worker" where
  "drain_until we clock deadline w =
     (case drain_loop we clock deadline (Suc (qsize (wk_queue w))) [] 0 w of
        (sent, batch, k, w1) \<Rightarrow>
          if batch \<noteq> [] \<and> \<not> deadline \<le> clock (Suc k)
          then (case send_with_backoff (we (Suc k)) batch (Some deadline) w1 of
             (delivered, w2) \<Rightarrow> (sent @ [(delivered, batch)], [], w2))
          else (sent, batch, w1))"

end
