(* ===== verification/Exporter_Props.thy ===== *)
theory Exporter_Props
  imports Exporter Privacy_Props Sdk_Props
begin

text \<open>
  The exporter hands on what it accepted, in order and in batches, and its counters account for
  what did not arrive. The queue's contract is a locale; the worker uses it through the
  interpretation on the model's queue.
\<close>

section \<open>The contract of a bounded queue\<close>

locale bounded_fifo =
  fixes put :: "'e \<Rightarrow> 'q \<Rightarrow> bool \<times> 'q"
    and get :: "'q \<Rightarrow> ('e \<times> 'q) option"
    and contents :: "'q \<Rightarrow> 'e list"
    and capacity :: "'q \<Rightarrow> nat"
  assumes put_accepts: "put e q = (True, q') \<Longrightarrow> contents q' = contents q @ [e] \<and> capacity q' = capacity q \<and>
      length (contents q) < capacity q"
    and put_refuses: "put e q = (False, q') \<Longrightarrow> contents q' = contents q \<and> capacity q' = capacity q \<and>
      capacity q \<le> length (contents q)"
    and get_empty: "get q = None \<longleftrightarrow> contents q = []"
    and get_first: "get q = Some (e, q') \<Longrightarrow> contents q = e # contents q' \<and> capacity q' = capacity q"
begin

lemma put_contents: "put e q = (ok, q') \<Longrightarrow> contents q' = contents q @ (if ok then [e] else [])"
  using put_accepts put_refuses by (cases ok) auto

lemma put_bound: "put e q = (ok, q') \<Longrightarrow> length (contents q) \<le> capacity q \<Longrightarrow>
    length (contents q') \<le> capacity q' \<and> capacity q' = capacity q"
  using put_accepts [of e q q'] put_refuses [of e q q'] by (cases ok) auto

text \<open>A transcript of puts and gets: what was accepted is what was taken and what is left.\<close>

fun transcript :: "'e option list \<Rightarrow> 'q \<Rightarrow> 'e list \<times> 'e list \<times> 'q" where
  "transcript [] q = ([], [], q)"
| "transcript (Some e # ops) q = (case put e q of (ok, q') \<Rightarrow>
     (case transcript ops q' of (ins, outs, r) \<Rightarrow> ((if ok then [e] else []) @ ins, outs, r)))"
| "transcript (None # ops) q = (case get q of None \<Rightarrow> transcript ops q
     | Some (e, q') \<Rightarrow> (case transcript ops q' of (ins, outs, r) \<Rightarrow> (ins, e # outs, r)))"

lemma transcript_order: "transcript ops q = (ins, outs, r) \<Longrightarrow> contents q @ ins = outs @ contents r"
proof (induction ops arbitrary: q ins outs r)
  case (Cons x ops)
  show ?case
  proof (cases x)
    case (Some e)
    obtain ok q' where p: "put e q = (ok, q')" by (cases "put e q")
    obtain i o' r' where t: "transcript ops q' = (i, o', r')" by (cases "transcript ops q'") auto
    from Cons.prems Some p t have "ins = (if ok then [e] else []) @ i" "outs = o'" "r = r'" by auto
    with Cons.IH [OF t] put_contents [OF p] show ?thesis by simp
  next
    case None
    show ?thesis
    proof (cases "get q")
      case None
      with Cons.prems \<open>x = None\<close> Cons.IH show ?thesis by simp
    next
      case (Some p)
      obtain e q' where p: "get q = Some (e, q')" using Some by (cases p) auto
      obtain i o' r' where t: "transcript ops q' = (i, o', r')" by (cases "transcript ops q'") auto
      from Cons.prems \<open>x = None\<close> p t have "ins = i" "outs = e # o'" "r = r'" by auto
      with Cons.IH [OF t] get_first [OF p] show ?thesis by simp
    qed
  qed
qed simp

end

interpretation events: bounded_fifo put_nowait get_nowait qu_items "\<lambda>q. nat (qu_maxsize q)"
  by unfold_locales (auto simp: put_nowait_def get_nowait_def split: if_splits list.splits)

section \<open>Backoff\<close>

lemma send_loop_counts:
  "send_loop we deadline n k delay = (delivered, attempts, failures) \<Longrightarrow>
     k \<le> attempts \<and> attempts \<le> k + n \<and> failures \<le> n \<and> (\<not> delivered \<and> 0 < n \<longrightarrow> 0 < failures) \<and>
     (delivered \<longrightarrow> failures < n)"
proof (induction n arbitrary: k delay delivered attempts failures)
  case (Suc n)
  note defs = Suc.prems [unfolded send_loop.simps Let_def]
  show ?case
  proof (cases "case deadline of None \<Rightarrow> False | Some d \<Rightarrow> d \<le> we_clock we k")
    case True
    with defs show ?thesis by auto
  next
    case early: False
    obtain d' a' f' where rest: "send_loop we deadline n (k + 1) (pmin (delay * Fin 2) (Fin 5)) = (d', a', f')"
      by (cases "send_loop we deadline n (k + 1) (pmin (delay * Fin 2) (Fin 5))") auto
    note IH = Suc.IH [OF rest]
    define stop where "stop \<longleftrightarrow> (case deadline of None \<Rightarrow> delay + we_jitter we k
        | Some d \<Rightarrow> pmin (delay + we_jitter we k) (pmax (Fin 0) (d - we_after we k))) \<le> Fin 0"
    have retry: "(delivered, attempts, failures) = (if stop then (False, k + 1, 1) else (d', a', f' + 1))"
      if "we_send we k = Failed True \<or> we_send we k = Crashed"
      using defs early rest that by (auto simp: stop_def)
    show ?thesis
    proof (cases "we_send we k")
      case Sent
      with defs early show ?thesis by auto
    next
      case (Failed b)
      with defs early retry IH show ?thesis by (cases b) (auto split: if_splits)
    next
      case Crashed
      with retry IH show ?thesis by (auto split: if_splits)
    qed
  qed
qed auto

section \<open>Histories of the worker\<close>

text \<open>
  The log has one entry per batch that was handled, with whether it was delivered, and one
  per group of events that a shutdown took from the queue but had no time to send.
\<close>

type_synonym entry = "bool option \<times> promptrail_event list"
type_synonym export_history = "worker \<times> promptrail_event list \<times> nat \<times> entry list"

fun entry_of :: "(bool \<times> promptrail_event list) option \<Rightarrow> entry list" where
  "entry_of None = []"
| "entry_of (Some (d, b)) = [(Some d, b)]"

definition drained :: "(bool \<times> promptrail_event list) list \<Rightarrow> promptrail_event list \<Rightarrow> entry list" where
  "drained sent rest = map (\<lambda>(d, b). (Some d, b)) sent @ (if rest = [] then [] else [(None, rest)])"

inductive export_step :: "export_history \<Rightarrow> export_history \<Rightarrow> bool" where
  e_enqueue: "enqueue e w = (ok, w') \<Longrightarrow>
    export_step (w, acc, refused, es) (w', acc @ (if ok then [e] else []), refused + (if ok then 0 else 1), es)"
| e_take: "\<not> wk_finished w \<Longrightarrow> run_take we w = (sent, w') \<Longrightarrow>
    export_step (w, acc, refused, es) (w', acc, refused, es @ entry_of sent)"
| e_flush: "\<not> wk_finished w \<Longrightarrow> run_flush we w = (sent, w') \<Longrightarrow>
    export_step (w, acc, refused, es) (w', acc, refused, es @ entry_of sent)"
| e_finish: "\<not> wk_finished w \<Longrightarrow> wk_stop w \<Longrightarrow> run_finish we w = (sent, w') \<Longrightarrow>
    export_step (w, acc, refused, es) (w', acc, refused, es @ entry_of sent)"
| e_stop: "export_step (w, acc, refused, es) (request_stop now timeout w, acc, refused, es)"
| e_drain: "wk_stop w \<Longrightarrow> wk_batch w = [] \<Longrightarrow> drain_until wes clock deadline w = (sent, rest, w') \<Longrightarrow>
    export_step (w, acc, refused, es) (w', acc, refused, es @ drained sent rest)"

inductive export_reachable :: "export_history \<Rightarrow> bool" where
  er_init: "export_reachable (worker_init config, [], 0, [])"
| er_step: "export_reachable h \<Longrightarrow> export_step h h' \<Longrightarrow> export_reachable h'"

definition unserialized :: "entry list \<Rightarrow> nat" where
  "unserialized es = sum_list (map (\<lambda>(d, b). if d \<noteq> None \<and> \<not> is_ok (encode_batch b) then length b else 0) es)"

definition undelivered :: "entry list \<Rightarrow> nat" where
  "undelivered es = sum_list (map (\<lambda>(d, b). if d = Some False \<and> is_ok (encode_batch b) then length b else 0) es)"

definition handled :: "entry list \<Rightarrow> nat" where
  "handled es = sum_list (map (\<lambda>(d, b). if d \<noteq> None then length b else 0) es)"

definition counters_ok :: "worker \<Rightarrow> entry list \<Rightarrow> bool" where
  "counters_ok w es \<longleftrightarrow> 0 < wk_max_retries w \<and> wk_dropped_serialization w = unserialized es \<and>
     undelivered es \<le> wk_failed_exports w \<and> wk_failed_exports w \<le> wk_max_retries w * handled es \<and>
     (\<forall>(d, b)\<in>set es. d = Some True \<longrightarrow> is_ok (encode_batch b))"

definition sizes_ok :: "worker \<Rightarrow> entry list \<Rightarrow> bool" where
  "sizes_ok w es \<longleftrightarrow> length (wk_batch w) < wk_batch_size w \<and> (\<forall>(d, b)\<in>set es. b \<noteq> [] \<and> length b \<le> wk_batch_size w)"

definition export_ok :: "export_history \<Rightarrow> bool" where
  "export_ok h = (case h of (w, acc, refused, es) \<Rightarrow>
     acc = concat (map snd es) @ wk_batch w @ qu_items (wk_queue w) \<and>
     length (qu_items (wk_queue w)) \<le> nat (qu_maxsize (wk_queue w)) \<and> dropped (wk_queue w) = refused \<and>
     sizes_ok w es \<and> counters_ok w es)"

lemma totals_append [simp]:
  "unserialized (es @ fs) = unserialized es + unserialized fs" "undelivered (es @ fs) = undelivered es + undelivered fs"
  "handled (es @ fs) = handled es + handled fs"
  by (simp_all add: unserialized_def undelivered_def handled_def)

lemma send_frame:
  "send_with_backoff we batch deadline w = (d, w') \<Longrightarrow> wk_queue w' = wk_queue w \<and> wk_batch w' = wk_batch w \<and>
     wk_batch_size w' = wk_batch_size w \<and> wk_max_retries w' = wk_max_retries w \<and> wk_stop w' = wk_stop w"
  by (auto simp: send_with_backoff_def split: sum.splits prod.splits)

lemma send_counters:
  assumes "send_with_backoff we batch deadline w = (d, w')" "counters_ok w es"
  shows "counters_ok w' (es @ [(Some d, batch)])"
proof (cases "encode_batch batch")
  case (Inl e)
  with assms show ?thesis
    by (auto simp: send_with_backoff_def counters_ok_def unserialized_def undelivered_def handled_def algebra_simps)
next
  case (Inr body)
  let ?n = "wk_max_retries w"
  obtain a f where l: "send_loop we (deadline_or deadline (wk_shutdown_deadline w)) ?n 0 (fl (1 / 10)) = (d, a, f)"
    and w': "w' = w\<lparr>wk_failed_exports := wk_failed_exports w + f * length batch\<rparr>"
    using assms(1) Inr by (auto simp: send_with_backoff_def split: prod.splits)
  have n: "0 < ?n" using assms(2) by (simp add: counters_ok_def)
  from send_loop_counts [OF l] n have f: "f \<le> ?n" "\<not> d \<Longrightarrow> 1 \<le> f" by auto
  have "f * length batch \<le> ?n * length batch" using f(1) by simp
  moreover have "\<not> d \<Longrightarrow> length batch \<le> f * length batch" using f(2) by (cases f) auto
  ultimately show ?thesis using assms(2) Inr
    by (cases d) (auto simp: w' counters_ok_def unserialized_def undelivered_def handled_def distrib_left add_mono)
qed

lemma counters_frame: "counters_ok (w\<lparr>wk_queue := q, wk_batch := b\<rparr>) es = counters_ok w es"
  "counters_ok (w\<lparr>wk_batch := b\<rparr>) es = counters_ok w es" "counters_ok (w\<lparr>wk_queue := q\<rparr>) es = counters_ok w es"
  "counters_ok (w\<lparr>wk_finished := f\<rparr>) es = counters_ok w es"
  by (simp_all add: counters_ok_def)

lemma counters_lost: "counters_ok w (es @ [(None, b)]) = counters_ok w es"
  by (auto simp: counters_ok_def unserialized_def undelivered_def handled_def)

lemma get_frame: "get_nowait q = Some (e, q') \<Longrightarrow> qu_items q = e # qu_items q' \<and> qu_maxsize q' = qu_maxsize q \<and> dropped q' = dropped q"
  by (auto simp: get_nowait_def dropped_def split: list.splits)

lemma done_frame [simp]: "qu_items (task_done q) = qu_items q" "qu_maxsize (task_done q) = qu_maxsize q" "dropped (task_done q) = dropped q"
  by (simp_all add: task_done_def dropped_def)

lemma flush_ok:
  assumes "export_ok (w, acc, refused, es)" "run_flush we w = (sent, w')"
  shows "export_ok (w', acc, refused, es @ entry_of sent)"
proof (cases "wk_batch w = []")
  case True
  with assms show ?thesis by (simp add: run_flush_def)
next
  case False
  obtain d w1 where s: "send_with_backoff we (wk_batch w) None w = (d, w1)" by (cases "send_with_backoff we (wk_batch w) None w")
  have r: "sent = Some (d, wk_batch w)" "w' = w1\<lparr>wk_batch := []\<rparr>" using assms(2) False s by (auto simp: run_flush_def)
  have c: "counters_ok w es" using assms(1) by (simp add: export_ok_def)
  show ?thesis using assms(1) False send_frame [OF s] send_counters [OF s c]
    by (auto simp: r export_ok_def sizes_ok_def counters_frame)
qed

lemma run_take_eq: "get_nowait (wk_queue w) = Some (e, q) \<Longrightarrow> w1 = w\<lparr>wk_queue := task_done q, wk_batch := wk_batch w @ [e]\<rparr> \<Longrightarrow>
    run_take we w = (if wk_batch_size w \<le> length (wk_batch w1)
      then (case send_with_backoff we (wk_batch w1) None w1 of
              (delivered, w2) \<Rightarrow> (Some (delivered, wk_batch w1), w2\<lparr>wk_batch := []\<rparr>))
      else (None, w1))"
  by (simp add: run_take_def Let_def)

lemma take_ok:
  assumes "export_ok (w, acc, refused, es)" "run_take we w = (sent, w')"
  shows "export_ok (w', acc, refused, es @ entry_of sent)"
proof (cases "get_nowait (wk_queue w)")
  case None
  with assms show ?thesis by (simp add: run_take_def)
next
  case (Some p)
  obtain e q where g: "get_nowait (wk_queue w) = Some (e, q)" using Some by (cases p) auto
  define w1 where "w1 = w\<lparr>wk_queue := task_done q, wk_batch := wk_batch w @ [e]\<rparr>"
  have c: "counters_ok w1 es" using assms(1) by (simp add: export_ok_def w1_def counters_frame)
  show ?thesis
  proof (cases "wk_batch_size w \<le> length (wk_batch w1)")
    case True
    obtain d w2 where s: "send_with_backoff we (wk_batch w1) None w1 = (d, w2)" by (cases "send_with_backoff we (wk_batch w1) None w1")
    have r: "sent = Some (d, wk_batch w1)" "w' = w2\<lparr>wk_batch := []\<rparr>"
      using assms(2) unfolding run_take_eq [OF g w1_def] if_P [OF True] s by auto
    show ?thesis using assms(1) send_frame [OF s] send_counters [OF s c] get_frame [OF g]
      by (auto simp: r export_ok_def sizes_ok_def counters_frame w1_def)
  next
    case False
    have r: "sent = None" "w' = w1" using assms(2) unfolding run_take_eq [OF g w1_def] if_not_P [OF False] by auto
    show ?thesis using assms(1) False c get_frame [OF g] by (auto simp: r export_ok_def sizes_ok_def w1_def)
  qed
qed

lemma enqueue_ok:
  assumes "export_ok (w, acc, refused, es)" "enqueue e w = (ok, w')"
  shows "export_ok (w', acc @ (if ok then [e] else []), refused + (if ok then 0 else 1), es)"
proof -
  obtain q where p: "put_nowait e (wk_queue w) = (ok, q)" "w' = w\<lparr>wk_queue := q\<rparr>"
    using assms(2) by (auto simp: enqueue_def split: prod.splits)
  have "dropped q = dropped (wk_queue w) + (if ok then 0 else 1)"
    using p(1) by (auto simp: put_nowait_def dropped_def split: if_splits)
  then show ?thesis using assms(1) events.put_contents [OF p(1)] events.put_bound [OF p(1)]
    by (auto simp: export_ok_def p(2) sizes_ok_def counters_frame)
qed

section \<open>Draining\<close>

definition marked :: "(bool \<times> promptrail_event list) list \<Rightarrow> entry list" where
  "marked sent = map (\<lambda>(d, b). (Some d, b)) sent"

lemma marked_batches [simp]: "map snd (marked sent) = map snd sent"
  by (simp add: marked_def case_prod_beta o_def)

definition same_worker :: "worker \<Rightarrow> worker \<Rightarrow> bool" where
  "same_worker w w' \<longleftrightarrow> wk_batch w' = wk_batch w \<and> wk_batch_size w' = wk_batch_size w \<and>
     qu_maxsize (wk_queue w') = qu_maxsize (wk_queue w) \<and> dropped (wk_queue w') = dropped (wk_queue w)"

definition drain_post :: "worker \<Rightarrow> promptrail_event list \<Rightarrow> entry list \<Rightarrow> (bool \<times> promptrail_event list) list \<Rightarrow>
    promptrail_event list \<Rightarrow> worker \<Rightarrow> bool" where
  "drain_post w batch es sent rest w' \<longleftrightarrow> counters_ok w' (es @ marked sent) \<and> same_worker w w' \<and>
     batch @ qu_items (wk_queue w) = concat (map snd sent) @ rest @ qu_items (wk_queue w') \<and>
     length rest < wk_batch_size w \<and> length (qu_items (wk_queue w')) \<le> length (qu_items (wk_queue w)) \<and>
     (\<forall>(d, b)\<in>set sent. b \<noteq> [] \<and> length b \<le> wk_batch_size w)"

lemma drain_loop_post:
  "drain_loop wes clock deadline n batch k w = (sent, rest, k', w') \<Longrightarrow> counters_ok w es \<Longrightarrow>
     length batch < wk_batch_size w \<Longrightarrow> drain_post w batch es sent rest w'"
proof (induction n arbitrary: batch k w sent rest k' w' es)
  case 0
  then show ?case by (simp add: drain_post_def marked_def same_worker_def)
next
  case (Suc n)
  have stay: "drain_post w batch es sent rest w'" if "(sent, rest, k', w') = ([], batch, k, w)"
    using that Suc.prems(2,3) by (simp add: drain_post_def marked_def same_worker_def)
  show ?case
  proof (cases "deadline \<le> clock k")
    case True
    with Suc.prems(1) show ?thesis by (intro stay) simp
  next
    case time: False
    show ?thesis
    proof (cases "get_nowait (wk_queue w)")
      case None
      with Suc.prems(1) time show ?thesis by (intro stay) simp
    next
      case (Some p)
      obtain e q where g: "get_nowait (wk_queue w) = Some (e, q)" using Some by (cases p) auto
      define w1 where "w1 = w\<lparr>wk_queue := task_done q\<rparr>"
      have c1: "counters_ok w1 es" using Suc.prems(2) by (simp add: w1_def counters_frame)
      have same1: "same_worker w w1" using get_frame [OF g] by (simp add: same_worker_def w1_def)
      have items: "qu_items (wk_queue w) = e # qu_items (wk_queue w1)" using get_frame [OF g] by (simp add: w1_def)
      show ?thesis
      proof (cases "wk_batch_size w \<le> length (batch @ [e])")
        case True
        obtain d w2 where s: "send_with_backoff (wes k) (batch @ [e]) (Some deadline) w1 = (d, w2)"
          by (cases "send_with_backoff (wes k) (batch @ [e]) (Some deadline) w1")
        obtain sent2 rest2 k2 w3 where l: "drain_loop wes clock deadline n [] (Suc k) w2 = (sent2, rest2, k2, w3)"
          by (cases "drain_loop wes clock deadline n [] (Suc k) w2") auto
        have r: "sent = (d, batch @ [e]) # sent2" "rest = rest2" "w' = w3"
          using Suc.prems(1) time g True s l by (auto simp: Let_def w1_def)
        note f = send_frame [OF s]
        have "drain_post w2 [] (es @ [(Some d, batch @ [e])]) sent2 rest2 w3"
          by (rule Suc.IH [OF l send_counters [OF s c1]]) (use f same1 Suc.prems(3) in \<open>auto simp: same_worker_def\<close>)
        then show ?thesis using f same1 items Suc.prems(3)
          by (auto simp: r drain_post_def same_worker_def marked_def)
      next
        case False
        have l: "drain_loop wes clock deadline n (batch @ [e]) (Suc k) w1 = (sent, rest, k', w')"
          using Suc.prems(1) time g False by (auto simp: Let_def w1_def)
        have "drain_post w1 (batch @ [e]) es sent rest w'"
          by (rule Suc.IH [OF l c1]) (use False same1 in \<open>auto simp: same_worker_def\<close>)
        then show ?thesis using same1 items by (auto simp: drain_post_def same_worker_def)
      qed
    qed
  qed
qed

lemma drain_ok:
  assumes "export_ok (w, acc, refused, es)" "wk_batch w = []" "drain_until wes clock deadline w = (sent, rest, w')"
  shows "export_ok (w', acc, refused, es @ drained sent rest)"
proof -
  obtain sent1 batch k w1 where l: "drain_loop wes clock deadline (Suc (qsize (wk_queue w))) [] 0 w = (sent1, batch, k, w1)"
    by (cases "drain_loop wes clock deadline (Suc (qsize (wk_queue w))) [] 0 w") auto
  have c: "counters_ok w es" "0 < wk_batch_size w" using assms(1,2) by (auto simp: export_ok_def sizes_ok_def)
  note post = drain_loop_post [OF l c(1), simplified, OF c(2)]
  have base: "acc = concat (map snd es) @ qu_items (wk_queue w)" "dropped (wk_queue w) = refused"
    "length (qu_items (wk_queue w)) \<le> nat (qu_maxsize (wk_queue w))" "sizes_ok w es"
    using assms(1,2) by (auto simp: export_ok_def)
  show ?thesis
  proof (cases "batch \<noteq> [] \<and> \<not> deadline \<le> clock (Suc k)")
    case True
    obtain d w2 where s: "send_with_backoff (wes (Suc k)) batch (Some deadline) w1 = (d, w2)"
      by (cases "send_with_backoff (wes (Suc k)) batch (Some deadline) w1")
    have r: "sent = sent1 @ [(d, batch)]" "rest = []" "w' = w2"
      using assms(3) True l s by (auto simp: drain_until_def)
    have "counters_ok w2 ((es @ marked sent1) @ [(Some d, batch)])"
      by (rule send_counters [OF s]) (use post in \<open>simp add: drain_post_def\<close>)
    with post base send_frame [OF s] True assms(2) show ?thesis
      by (auto simp: r export_ok_def drained_def sizes_ok_def drain_post_def same_worker_def marked_def case_prod_beta o_def)
  next
    case False
    have r: "sent = sent1" "rest = batch" "w' = w1"
      using assms(3) False l by (auto simp: drain_until_def)
    have "counters_ok w1 (es @ drained sent1 batch)"
      using post counters_lost [of w1 "es @ marked sent1" batch] by (simp add: drain_post_def drained_def flip: marked_def)
    with post base assms(2) show ?thesis
      by (auto simp: r export_ok_def drained_def sizes_ok_def drain_post_def same_worker_def marked_def case_prod_beta o_def)
  qed
qed

lemma export_step_ok: "export_step h h' \<Longrightarrow> export_ok h \<Longrightarrow> export_ok h'"
proof (induction rule: export_step.induct)
  case (e_enqueue e w ok w' acc refused es)
  then show ?case using enqueue_ok by blast
next
  case (e_take w we sent w' acc refused es)
  then show ?case using take_ok by blast
next
  case (e_flush w we sent w' acc refused es)
  then show ?case using flush_ok by blast
next
  case (e_finish w we sent w' acc refused es)
  then obtain w1 where "run_flush we w = (sent, w1)" "w' = w1\<lparr>wk_finished := True\<rparr>"
    by (auto simp: run_finish_def split: prod.splits)
  with flush_ok [OF e_finish.prems, of we sent w1] show ?case by (auto simp: export_ok_def sizes_ok_def counters_frame)
next
  case (e_stop w acc refused es now timeout)
  then show ?case by (simp add: export_ok_def sizes_ok_def counters_ok_def request_stop_def Let_def)
next
  case (e_drain w wes clock deadline sent rest w' acc refused es)
  then show ?case using drain_ok by blast
qed

lemma export_reachable_ok: "export_reachable h \<Longrightarrow> export_ok h"
proof (induction rule: export_reachable.induct)
  case (er_init config)
  show ?case by (simp add: export_ok_def worker_init_def queue_init_def dropped_def sizes_ok_def counters_ok_def
      unserialized_def undelivered_def handled_def less_max_iff_disj)
next
  case (er_step h h')
  then show ?case using export_step_ok by blast
qed

section \<open>What the client makes can be sent\<close>

lemma is_ok_rbind_Inr: "is_ok (rbind m (\<lambda>x. Inr (f x))) \<longleftrightarrow> is_ok m"
  by (cases m) auto

lemma rmap_id_ok: "is_ok (rmap id rs) \<longleftrightarrow> (\<forall>r\<in>set rs. is_ok r)"
proof (induction rs)
  case (Cons r rs)
  then show ?case by (cases r) (simp_all only: rmap.simps rbind.simps is_ok_rbind_Inr id_apply list.set ball_simps is_ok.simps simp_thms)
qed simp

lemma dumps_list: "is_ok (any_dumps (AList xs)) \<longleftrightarrow> (\<forall>x\<in>set xs. is_ok (any_dumps x))"
  unfolding any_dumps.simps(6) is_ok_rbind_Inr rmap_id_ok by simp

lemma dumps_map: "is_ok (any_dumps (AMap kvs)) \<longleftrightarrow> (\<forall>(k, x)\<in>set kvs. (\<exists>s. k = KStr s) \<and> is_ok (any_dumps x))"
proof -
  have "is_ok (case k of KObj _ \<Rightarrow> not_json | KStr s \<Rightarrow> rbind t (\<lambda>u. Inr (json_string s @ '':'' @ u))) \<longleftrightarrow>
      (\<exists>s. k = KStr s) \<and> is_ok t" for k and t :: "string result"
    by (cases k) (auto simp: not_json_def is_ok_rbind_Inr)
  then show ?thesis unfolding any_dumps.simps(7) is_ok_rbind_Inr rmap_id_ok by (auto simp: image_iff split: prod.splits)
qed

lemma fits_dumps: "fits p d v \<Longrightarrow> is_ok (any_dumps v)"
proof (induction p d v rule: fits.induct)
  case (1 p d kvs)
  have "(\<exists>s. k = KStr s) \<and> is_ok (any_dumps x)" if "(k, x) \<in> set kvs" for k x
    using "1.prems" "1.IH" [OF that] that unfolding fits_map list_all_iff
    by (fastforce simp: item_ok_def split: akey.splits)
  then show ?case unfolding dumps_map by blast
next
  case (2 p d xs)
  then show ?case unfolding dumps_list by (fastforce simp: list_all_iff)
qed auto

text \<open>An event as a client with a valid configuration makes it, of a type that is no blank text.\<close>

definition client_event :: "promptrail_event \<Rightarrow> bool" where
  "client_event e \<longleftrightarrow> (\<exists>en c kind rx name status attributes w w' v6.
     validate_runtime_config v6 (cl_config c) = Inr (cl_config c) \<and> is_ok (normalize_event_type kind) \<and>
     emit_in en c kind rx name status attributes w = (Some e, w'))"

lemma client_event_dict:
  assumes "client_event e"
  shows "\<exists>d. to_json_dict e = Inr d \<and> is_ok (any_dumps (AMap d))"
proof -
  from assms obtain en c kind rx name status attributes w w' v6 where
    valid: "validate_runtime_config v6 (cl_config c) = Inr (cl_config c)" and kind: "is_ok (normalize_event_type kind)"
    and e: "emit_in en c kind rx name status attributes w = (Some e, w')" unfolding client_event_def by blast
  from e have made: "event_from_context (en_event_id en (length (wo_events w))) (en_now_ms en (length (wo_events w))) kind rx
      name status (emit_attributes en (cl_config c) attributes) (Some (privacy_of (cl_config c))) = Inr e"
    by (auto simp: emit_in_def split: if_splits sum.splits)
  note ev = event_from_context_Inr [OF made]
  have "fits (privacy_of (cl_config c)) 0 (AMap (ev_attributes e))"
    using sanitize_within [OF privacy_of_valid [OF valid]] ev by simp
  then have attributes: "is_ok (any_dumps (AMap (ev_attributes e)))" by (rule fits_dumps)
  obtain k where k: "normalize_event_type (ev_type e) = Inr k" using kind ev by (auto simp: is_ok_iff)
  have texts: "is_ok (any_dumps (any_text t))" "is_ok (any_dumps (cut_text n t))" for t n
    by (cases t; simp add: cut_text_def)+
  show ?thesis using k attributes texts
    by (auto simp: to_json_dict_def dumps_map simp del: any_dumps.simps(7))
qed

section \<open>Properties\<close>

text \<open>
  Property C40. The exporter accounts for every event. In any history of puts, turns of the
  thread, stop requests and drains, the events accepted are exactly, in their order, those
  handed over in batches (or dropped for lack of time at a shutdown), the batch in hand and the
  queue; the queue stays within its bound and counts every refusal; no batch is empty or larger
  than the batch size; the events dropped as unserialisable are counted exactly, and those that
  were not delivered at least once and at most once per attempt.
\<close>

theorem exporter_accounts:
  assumes "export_reachable (w, acc, refused, es)"
  shows "acc = concat (map snd es) @ wk_batch w @ qu_items (wk_queue w) \<and>
    length (qu_items (wk_queue w)) \<le> nat (qu_maxsize (wk_queue w)) \<and> dropped (wk_queue w) = refused \<and>
    (\<forall>(d, b)\<in>set es. b \<noteq> [] \<and> length b \<le> wk_batch_size w \<and> (d = Some True \<longrightarrow> is_ok (encode_batch b))) \<and>
    wk_dropped_serialization w = unserialized es \<and> undelivered es \<le> wk_failed_exports w \<and>
    wk_failed_exports w \<le> wk_max_retries w * handled es"
  using export_reachable_ok [OF assms] by (auto simp: export_ok_def sizes_ok_def counters_ok_def)

theorem exporter_accounts_witness:
  "\<forall>e. \<exists>w. enqueue e (worker_init sample_config) = (True, w) \<and> qu_items (wk_queue w) = [e] \<and> dropped (wk_queue w) = 0"
proof
  fix e
  obtain w where w: "enqueue e (worker_init sample_config) = (True, w)"
    by (simp add: enqueue_def put_nowait_def worker_init_def queue_init_def sample_config_def)
  have "export_reachable (w, [] @ (if True then [e] else []), 0 + (if True then 0 else 1), [])"
    by (rule er_step [OF er_init e_enqueue [OF w]])
  from exporter_accounts [OF this] have "[e] = wk_batch w @ qu_items (wk_queue w)" "dropped (wk_queue w) = 0" by simp_all
  moreover have "wk_batch w = []" using w by (auto simp: enqueue_def worker_init_def split: prod.splits)
  ultimately show "\<exists>w. enqueue e (worker_init sample_config) = (True, w) \<and> qu_items (wk_queue w) = [e] \<and> dropped (wk_queue w) = 0"
    using w by simp
qed

text \<open>
  What the client makes can be sent. Every batch of events that a client with a
  valid configuration made, from attributes of any shape, is encoded: sanitising leaves nothing
  that JSON cannot express. The one way out is an event whose type is a blank text.
\<close>

lemma client_batches_encode:
  assumes "\<forall>e\<in>set events. client_event e"
  shows "is_ok (encode_batch events)"
proof -
  have "\<exists>ds. rmap to_json_dict events = Inr ds \<and> (\<forall>d\<in>set ds. is_ok (any_dumps (AMap d)))"
    using assms
  proof (induction events)
    case (Cons e events)
    then obtain ds where "rmap to_json_dict events = Inr ds" "\<forall>d\<in>set ds. is_ok (any_dumps (AMap d))" by auto
    with client_event_dict [of e] Cons.prems show ?case by (auto simp del: any_dumps.simps)
  qed simp
  then obtain ds where ds: "rmap to_json_dict events = Inr ds" "\<forall>d\<in>set ds. is_ok (any_dumps (AMap d))" by blast
  then have "is_ok (any_dumps (AMap [(KStr ''events'', AList (map AMap ds))]))"
    by (auto simp: dumps_map dumps_list simp del: any_dumps.simps)
  then show ?thesis unfolding encode_batch_def using ds(1) by (auto simp: is_ok_iff simp del: any_dumps.simps)
qed

text \<open>An event of a blank type is accepted and then takes its whole batch with it.\<close>

lemma blank_type_drops_batch:
  assumes "e \<in> set events" "ev_type e = Text s" "strip s = []"
  shows "\<not> is_ok (encode_batch events)"
proof -
  have "\<not> is_ok (to_json_dict e)" using assms(2,3) by (simp add: to_json_dict_def)
  then have "rmap to_json_dict events \<noteq> Inr ds" for ds
    using assms(1) by (induction events arbitrary: ds) auto
  then show ?thesis by (auto simp: encode_batch_def split: sum.splits)
qed

end
