(* ===== verification/Http.thy ===== *)
theory Http
  imports Workflow_Budget
begin

text \<open>
  What every part of the routing service (\<^verbatim>\<open>src/frontend/lerouter_modal_api.py\<close>) rests on:
  the error answers of the web framework and the readings of numbers from JSON values.
\<close>

section \<open>Error answers\<close>

text \<open>\<^verbatim>\<open>HTTPException(status_code, detail)\<close>, or another exception, which the framework answers with 500.\<close>

datatype http_error = HTTPException int json | Raised py_error

type_synonym 'a http = "http_error + 'a"

fun lift :: "'a result \<Rightarrow> 'a http" where
  "lift (Inl e) = Inl (Raised e)"
| "lift (Inr x) = Inr x"

text \<open>The detail is an object whose \<^verbatim>\<open>error\<close> comes first.\<close>

definition refuse :: "int \<Rightarrow> string \<Rightarrow> (string, json) dict \<Rightarrow> 'a http" where
  "refuse status name info = Inl (HTTPException status (JObj ((''error'', JStr name) # info)))"

lemma lift_Inr [simp]: "lift m = Inr x \<longleftrightarrow> m = Inr x"
  by (cases m) auto

lemma refuse_not_Inr [simp]: "refuse status name info \<noteq> Inr x" "\<not> is_ok (refuse status name info)"
  by (simp_all add: refuse_def)

section \<open>Numbers\<close>

text \<open>\<open>float(value)\<close> where \<^verbatim>\<open>TypeError\<close> and \<^verbatim>\<open>ValueError\<close> are caught; an overflow is not.\<close>

definition try_float :: "json \<Rightarrow> pyfloat option result" where
  "try_float v = (case py_float v of
     Inr x \<Rightarrow> Inr (Some x)
   | Inl (TypeError _) \<Rightarrow> Inr None
   | Inl (ValueError _) \<Rightarrow> Inr None
   | Inl e \<Rightarrow> Inl e)"

definition as_float :: "json \<Rightarrow> pyfloat \<Rightarrow> pyfloat result" where
  "as_float v fallback = rbind (try_float v) (\<lambda>n. Inr (case n of
     None \<Rightarrow> fallback | Some number \<Rightarrow> if number = NaN then fallback else number))"

definition clamp :: "pyfloat \<Rightarrow> pyfloat \<Rightarrow> pyfloat \<Rightarrow> pyfloat" where
  "clamp x minimum maximum = pmin maximum (pmax minimum x)"

definition finite_profile_number :: "json \<Rightarrow> bool \<Rightarrow> pyfloat option result" where
  "finite_profile_number v positive =
     (if v = JNull \<or> is_bool v then Inr None
      else rbind (try_float v) (\<lambda>n. Inr (case n of
        None \<Rightarrow> None
      | Some number \<Rightarrow> if \<not> isfinite number \<or> (positive \<and> number \<le> Fin 0) then None else Some number)))"

fun first_present :: "json \<Rightarrow> string list \<Rightarrow> json" where
  "first_present d [] = JNull"
| "first_present d (k # ks) = (if jget d k \<noteq> JNull then jget d k else first_present d ks)"

definition parse_required_number :: "json \<Rightarrow> string \<Rightarrow> pyfloat http" where
  "parse_required_number v field_name = rbind (lift (try_float v)) (\<lambda>n. case n of
     None \<Rightarrow> refuse 409 ''budget_scoring_input_required''
       [(''message'', JStr (field_name @ '' is required for budget-aware scoring.'')), (''field'', JStr field_name)]
   | Some number \<Rightarrow> if number = NaN
       then refuse 409 ''budget_scoring_input_required''
         [(''message'', JStr (field_name @ '' must be a valid number.'')), (''field'', JStr field_name)]
       else Inr number)"

definition parse_optional_number :: "json \<Rightarrow> pyfloat option result" where
  "parse_optional_number v =
     (if v = JNull then Inr None
      else rbind (try_float v) (\<lambda>n. Inr (case n of None \<Rightarrow> None | Some number \<Rightarrow> if number = NaN then None else Some number)))"

text \<open>\<open>round(x, n)\<close>: the nearest decimal with \<open>n\<close> digits of the exact value, ties to even, read back as a float.\<close>

fun py_round :: "pyfloat \<Rightarrow> nat \<Rightarrow> pyfloat" where
  "py_round (Fin r) n = fl (of_int (round_even (r * 10 ^ n)) / 10 ^ n)"
| "py_round x n = x"

section \<open>Lemmas\<close>

lemma try_float_JFloat [simp]: "try_float (JFloat x) = Inr (Some x)"
  by (simp add: try_float_def)

lemma as_float_JFloat [simp]: "as_float (JFloat x) fallback = Inr (if x = NaN then fallback else x)"
  by (simp add: as_float_def)

lemma as_float_not_NaN: "as_float v fallback = Inr x \<Longrightarrow> fallback \<noteq> NaN \<Longrightarrow> x \<noteq> NaN"
  by (auto simp: as_float_def split: option.splits if_splits)

lemma parse_required_not_NaN: "parse_required_number v field_name = Inr x \<Longrightarrow> x \<noteq> NaN"
  by (auto simp: parse_required_number_def split: option.splits if_splits)

lemma finite_profile_number_Some:
  "finite_profile_number v positive = Inr (Some x) \<Longrightarrow> isfinite x \<and> (positive \<longrightarrow> Fin 0 < x)"
  by (auto simp: finite_profile_number_def isfinite_iff split: option.splits if_splits)

lemma pyfloat_antisym: "x \<le> y \<Longrightarrow> y \<le> x \<Longrightarrow> x = y" for x y :: pyfloat
  by (cases x; cases y) (auto simp: less_eq_pyfloat_def feq_def)

lemma pmax_bounds:
  assumes "a \<noteq> NaN" "b \<noteq> NaN"
  shows "a \<le> pmax a b" "b \<le> pmax a b" "pmax a b \<in> {a, b}"
  using assms pyfloat_refl [of a] pyfloat_refl [of b] pyfloat_less_le [of a b] pyfloat_not_less [of a b]
  by (auto simp: pmax_def)

lemma pmin_bounds:
  assumes "a \<noteq> NaN" "b \<noteq> NaN"
  shows "pmin a b \<le> a" "pmin a b \<le> b" "pmin a b \<in> {a, b}"
  using assms pyfloat_refl [of a] pyfloat_refl [of b] pyfloat_less_le [of b a] pyfloat_not_less [of b a]
  by (auto simp: pmin_def)

text \<open>The result lies between the limits; a value that already does so stays.\<close>

lemma clamp_between:
  assumes "lo \<le> hi" "x \<noteq> NaN"
  shows "lo \<le> clamp x lo hi" "clamp x lo hi \<le> hi"
proof -
  have n: "lo \<noteq> NaN" "hi \<noteq> NaN" using assms(1) by auto
  have m: "pmax lo x \<noteq> NaN" "lo \<le> pmax lo x" using pmax_bounds [OF n(1) assms(2)] n assms(2) by auto
  show "clamp x lo hi \<le> hi" unfolding clamp_def by (rule pmin_bounds(1) [OF n(2) m(1)])
  show "lo \<le> clamp x lo hi" using pmin_bounds(3) [OF n(2) m(1)] m(2) assms(1) unfolding clamp_def by auto
qed

lemma clamp_id: "lo \<le> x \<Longrightarrow> x \<le> hi \<Longrightarrow> clamp x lo hi = x"
proof -
  assume a: "lo \<le> x" "x \<le> hi"
  then have n: "lo \<noteq> NaN" "x \<noteq> NaN" "hi \<noteq> NaN" by auto
  have "pmax lo x = x" using a(1) pyfloat_not_less [OF n(1,2)] pyfloat_antisym by (auto simp: pmax_def)
  moreover have "pmin hi x = x" using a(2) pyfloat_not_less [OF n(2,3)] pyfloat_antisym by (auto simp: pmin_def)
  ultimately show ?thesis by (simp add: clamp_def)
qed

end
