(* ===== verification/Providers.thy ===== *)
theory Providers
  imports Http
begin

text \<open>
  Which provider executes a model and under which name: the provider rules of
  \<^verbatim>\<open>src/frontend/lerouter_modal_api.py\<close>. A model is the JSON object of its catalogue entry;
  the environment of the process is an argument.
\<close>

section \<open>Parts of an identifier\<close>

text \<open>\<open>s.split(c, n)\<close>: at most \<open>n\<close> cuts, from the left.\<close>

fun split_max :: "nat \<Rightarrow> char \<Rightarrow> string \<Rightarrow> string \<Rightarrow> string list" where
  "split_max n c cur [] = [rev cur]"
| "split_max n c cur (d # ds) =
     (if d = c \<and> 0 < n then rev cur # split_max (n - 1) c [] ds else split_max n c (d # cur) ds)"

definition pieces :: "nat \<Rightarrow> string \<Rightarrow> string list" where
  "pieces n s = split_max n (CHR ''/'') [] s"

definition has_slash :: "string \<Rightarrow> bool" where
  "has_slash s = (CHR ''/'' \<in> set s)"

definition lstrip_tilde :: "string \<Rightarrow> string" where
  "lstrip_tilde s = dropWhile (\<lambda>c. c = CHR 0x7E) s"

definition starts_with_any :: "string list \<Rightarrow> string \<Rightarrow> bool" where
  "starts_with_any ps s = list_ex (\<lambda>p. is_prefix p s) ps"

text \<open>\<open>str(d.get(key) or "")\<close> and \<open>str(d.get(a) or d.get(b) or ... or "")\<close>\<close>

definition text_at :: "json \<Rightarrow> string \<Rightarrow> string" where
  "text_at d k = py_str (jor (jget d k) (JStr []))"

fun first_truthy :: "json \<Rightarrow> string list \<Rightarrow> json" where
  "first_truthy d [] = JStr []"
| "first_truthy d (k # ks) = jor (jget d k) (first_truthy d ks)"

definition model_id_of :: "json \<Rightarrow> string" where
  "model_id_of model = py_str (first_truthy model [''model_id'', ''id'', ''model''])"

section \<open>The provider that executes a model\<close>

definition provider_from_model_id :: "string \<Rightarrow> string option" where
  "provider_from_model_id model_id =
     (if model_id = [] \<or> \<not> has_slash model_id then None
      else let normalized = lower (strip model_id);
               prefix = hd (pieces 1 normalized); tail = last (pieces 1 normalized);
               owner = lstrip_tilde prefix in
        if is_suffix '':free'' normalized \<or> is_prefix [CHR 0x7E] prefix then Some ''openrouter''
        else if owner = ''openrouter'' \<and> starts_with_any [''openai/'', ''openai-codex/'', ''gpt/''] tail
          then (if is_prefix ''gpt-oss'' (last (pieces 1 tail)) then Some ''openrouter'' else Some ''openai'')
        else if owner = ''openrouter'' then Some ''openrouter''
        else if prefix \<in> {''anthropic'', ''claude''} then Some ''anthropic''
        else if prefix = ''gemini'' \<or> (prefix = ''google'' \<and> is_prefix ''gemini-'' tail) then Some ''gemini''
        else if prefix \<in> {''openai'', ''openai-codex'', ''gpt''}
          then (if is_prefix ''gpt-oss'' tail then Some ''openrouter'' else Some ''openai'')
        else if prefix = ''together'' then Some ''together'' else None)"

definition openrouter_owner_execution_providers :: "(string, string) dict" where
  "openrouter_owner_execution_providers =
     [(''anthropic'', ''anthropic''), (''claude'', ''anthropic''), (''google'', ''gemini''), (''gemini'', ''gemini''),
      (''openai'', ''openai''), (''openai-codex'', ''openai''), (''gpt'', ''openai''), (''mistral'', ''mistral''),
      (''mistralai'', ''mistral''), (''deepseek'', ''deepseek''), (''x-ai'', ''xai''), (''xai'', ''xai''),
      (''groq'', ''groq''), (''together'', ''together'')]"

text \<open>The owner an identifier names; without a slash it names none.\<close>

definition identifier_owner :: "string \<Rightarrow> string option" where
  "identifier_owner raw =
     (let identifier = lower (strip raw) in
      if \<not> has_slash identifier then None
      else let prefix = lstrip_tilde (hd (pieces 1 identifier)); tail = last (pieces 1 identifier) in
        Some (if prefix = ''openrouter'' \<and> has_slash tail then lstrip_tilde (hd (pieces 1 tail)) else prefix))"

fun first_direct :: "string list \<Rightarrow> string option" where
  "first_direct [] = None"
| "first_direct (i # is) =
     (case (case identifier_owner i of None \<Rightarrow> None | Some w \<Rightarrow> dict_get openrouter_owner_execution_providers w) of
        Some p \<Rightarrow> Some p | None \<Rightarrow> first_direct is)"

definition direct_provider_from_model_owner :: "json \<Rightarrow> string \<Rightarrow> string option" where
  "direct_provider_from_model_owner model model_id =
     (let owner = lstrip_tilde (lower (strip (text_at model ''model_owner''))) in
      case (if owner = [] then None else dict_get openrouter_owner_execution_providers owner) of
        Some p \<Rightarrow> Some p
      | None \<Rightarrow> first_direct [model_id, text_at model ''provider_native_model_id'', text_at model ''native_model_id''])"

definition executable_provider_for_model :: "json \<Rightarrow> string" where
  "executable_provider_for_model model =
     (let model_id = model_id_of model;
          execution_provider = lower (strip (text_at model ''execution_provider''));
          provider = lower (strip (text_at model ''provider'')) in
      if execution_provider \<noteq> [] then execution_provider
      else if provider \<noteq> [] then provider
      else case direct_provider_from_model_owner model model_id of
        Some p \<Rightarrow> p
      | None \<Rightarrow> (case provider_from_model_id model_id of
          Some p \<Rightarrow> p
        | None \<Rightarrow> if truthy (jget model ''is_open_source'') then ''together'' else ''unknown''))"

section \<open>Keys and native names\<close>

definition provider_env_names :: "(string, string list) dict" where
  "provider_env_names =
     [(''together'', [''TOGETHER_API_KEY'', ''TOGETHER_AI_API_KEY'']), (''openrouter'', [''OPENROUTER_API_KEY'']),
      (''openai'', [''OPENAI_API_KEY'']), (''anthropic'', [''ANTHROPIC_API_KEY'', ''ANTROPIC_API_KEY'']),
      (''gemini'', [''GEMINI_API_KEY'', ''GOOGLE_API_KEY'']), (''mistral'', [''MISTRAL_API_KEY'']),
      (''groq'', [''GROQ_API_KEY'']), (''deepseek'', [''DEEPSEEK_API_KEY'']), (''xai'', [''XAI_API_KEY''])]"

fun first_set :: "(string \<Rightarrow> string option) \<Rightarrow> string list \<Rightarrow> string" where
  "first_set environ [] = []"
| "first_set environ (n # ns) =
     (let v = strip (case environ n of None \<Rightarrow> [] | Some v \<Rightarrow> v) in if v \<noteq> [] then v else first_set environ ns)"

definition provider_api_key :: "(string \<Rightarrow> string option) \<Rightarrow> string \<Rightarrow> string" where
  "provider_api_key environ provider =
     (case dict_get provider_env_names (lower (strip provider)) of None \<Rightarrow> [] | Some names \<Rightarrow> first_set environ names)"

definition anthropic_model_aliases :: "(string, string) dict" where
  "anthropic_model_aliases = [(''claude-sonnet-4'', ''claude-sonnet-4-6'')]"

definition drop_prefix_part :: "string \<Rightarrow> string \<Rightarrow> string" where
  "drop_prefix_part p s = (if is_prefix p (lower s) then last (pieces 1 s) else s)"

definition provider_native_model_id :: "string \<Rightarrow> string \<Rightarrow> json \<Rightarrow> string" where
  "provider_native_model_id model_id provider model =
     (let provider = lower (strip provider);
          explicit = strip (py_str (first_truthy model [''provider_native_model_id'', ''native_model_id'']));
          raw = strip model_id; lowered = lower raw in
      if truthy model \<and> explicit \<noteq> [] then explicit
      else if provider = ''openrouter'' then drop_prefix_part ''openrouter/'' raw
      else if provider = ''nvidia'' then raw
      else if provider = ''together'' then drop_prefix_part ''together/'' raw
      else if provider = ''openai'' \<and> is_prefix ''openrouter/openai/'' lowered then pieces 2 raw ! 2
      else if provider = ''openai'' \<and> is_prefix ''openai/'' lowered then last (pieces 1 raw)
      else
      let parts = pieces 2 raw;
          raw1 = (if provider \<in> {''anthropic'', ''gemini'', ''mistral'', ''deepseek'', ''xai'', ''groq''} \<and>
                     is_prefix ''openrouter/'' lowered \<and> length parts = 3 then parts ! 2 else raw);
          native = last (pieces 1 raw1) in
      if provider = ''anthropic''
      then (case dict_get anthropic_model_aliases native of None \<Rightarrow> native | Some a \<Rightarrow> a) else native)"

definition openrouter_native_model_id :: "json \<Rightarrow> string" where
  "openrouter_native_model_id model =
     (let explicit = drop_prefix_part ''openrouter/''
            (strip (py_str (first_truthy model [''openrouter_native_model_id'', ''openrouter_model_id'']))) in
      if explicit \<noteq> [] then explicit
      else if executable_provider_for_model model \<noteq> ''openrouter'' then []
      else drop_prefix_part ''openrouter/'' (provider_native_model_id (strip (model_id_of model)) ''openrouter'' model))"

definition resolved_execution_provider :: "(string \<Rightarrow> string option) \<Rightarrow> json \<Rightarrow> string \<times> string" where
  "resolved_execution_provider environ model =
     (let requested = executable_provider_for_model model;
          native = provider_native_model_id (strip (model_id_of model)) requested model;
          alternative = openrouter_native_model_id model in
      if provider_api_key environ requested \<noteq> [] then (requested, native)
      else if requested \<noteq> ''openrouter'' \<and> provider_api_key environ ''openrouter'' \<noteq> [] \<and> alternative \<noteq> []
      then (''openrouter'', alternative) else (requested, native))"

section \<open>Bounded request options\<close>

definition provider_max_output_tokens :: "string \<Rightarrow> int option" where
  "provider_max_output_tokens provider = (if lower (strip provider) = ''anthropic'' then Some 64000 else None)"

text \<open>\<open>int(x)\<close> of a number that is no NaN.\<close>

fun float_int :: "pyfloat \<Rightarrow> int result" where
  "float_int (Fin r) = Inr (trunc r)"
| "float_int NaN = Inl (ValueError ''cannot convert float NaN to integer'')"
| "float_int _ = Inl OverflowError"

definition provider_bound_request_options :: "(string, json) dict \<Rightarrow> string \<Rightarrow> string \<Rightarrow> (string, json) dict result" where
  "provider_bound_request_options options provider native_model_id =
     (let reasoning = (provider = ''openai'' \<and>
            starts_with_any [''gpt-5'', ''o1'', ''o3'', ''o4''] (lower (strip native_model_id)));
          options1 = (if \<not> reasoning then options else
            dict_pop ''temperature''
              (if jget (JObj options) ''max_tokens'' = JNull then options
               else dict_set ''max_completion_tokens'' (jget (JObj options) ''max_tokens'') (dict_pop ''max_tokens'' options)));
          requested = jget (JObj options1) ''max_tokens'' in
      case provider_max_output_tokens provider of
        None \<Rightarrow> Inr options1
      | Some maximum \<Rightarrow>
          if requested = JNull then Inr options1
          else rbind (parse_optional_number requested) (\<lambda>n. case n of
            None \<Rightarrow> Inr options1
          | Some x \<Rightarrow> rbind (float_int x) (\<lambda>i. Inr (dict_set ''max_tokens'' (JInt (min i maximum)) options1))))"

end
