(* ===== verification/Workflow_Store.thy ===== *)
theory Workflow_Store
  imports Providers
begin

text \<open>
  The workflow budgets of the routing service (\<^verbatim>\<open>src/frontend/lerouter_modal_api.py\<close>): runs,
  their tree of budget scopes, the reservations of calls, and the operations on them. The
  document database is a service: its operations are arguments, and the locale below states
  the documented behaviour the code relies on. A transaction that raises leaves the database as
  it was; outside transactions each operation of the database is a step of its own. Clock
  readings (in microseconds) and fresh identifiers are arguments.
\<close>

section \<open>The database\<close>

text \<open>The unsuffixed operations of one collection; \<open>None\<close> of an insertion is a duplicate key.\<close>

record 'd collection =
  find_one :: "('d \<Rightarrow> bool) \<Rightarrow> 'd list \<Rightarrow> 'd option"
  update_one :: "('d \<Rightarrow> bool) \<Rightarrow> ('d \<Rightarrow> 'd) \<Rightarrow> 'd list \<Rightarrow> nat \<times> 'd list"
  update_many :: "('d \<Rightarrow> bool) \<Rightarrow> ('d \<Rightarrow> 'd) \<Rightarrow> 'd list \<Rightarrow> 'd list"
  find_one_and_update :: "('d \<Rightarrow> bool) \<Rightarrow> ('d \<Rightarrow> 'd) \<Rightarrow> 'd list \<Rightarrow> 'd option \<times> 'd list"
  insert_one :: "'d \<Rightarrow> 'd list \<Rightarrow> 'd list option"

record run_doc =
  rn_oid :: nat
  rn_id :: string
  rn_user :: string
  rn_route :: string
  rn_name :: string
  rn_goal :: string
  rn_root_scope :: string
  rn_status :: string
  rn_created :: int
  rn_updated :: int
  rn_finished :: "int option"

record scope_doc =
  sd_oid :: nat
  sd_id :: string
  sd_user :: string
  sd_route :: string
  sd_run :: string
  sd_parent :: "string option"
  sd_name :: string
  sd_goal :: string
  sd_max :: pyfloat
  sd_spent :: pyfloat
  sd_reserved :: pyfloat
  sd_status :: string
  sd_created :: int
  sd_updated :: int
  sd_finished :: "int option"

record reservation_doc =
  rv_oid :: nat
  rv_id :: string
  rv_user :: string
  rv_route :: string
  rv_run :: string
  rv_scope :: string
  rv_scopes :: "string list"
  rv_call :: string
  rv_status :: string
  rv_limit :: pyfloat
  rv_max_tokens :: int
  rv_model :: json
  rv_provider :: string
  rv_spend :: "pyfloat option"
  rv_created :: int
  rv_updated :: int
  rv_started :: "int option"
  rv_finished :: "int option"

record driver =
  dr_runs :: "run_doc collection"
  dr_scopes :: "scope_doc collection"
  dr_reservations :: "reservation_doc collection"

record workflow_db =
  wd_runs :: "run_doc list"
  wd_scopes :: "scope_doc list"
  wd_reservations :: "reservation_doc list"

text \<open>The unique indexes, and the driver's own identifiers.\<close>

type_synonym ident = "string \<times> string \<times> string \<times> string"

definition scope_ident :: "scope_doc \<Rightarrow> ident" where
  "scope_ident d = (sd_user d, sd_route d, sd_run d, sd_id d)"

definition reservation_ident :: "reservation_doc \<Rightarrow> ident" where
  "reservation_ident d = (rv_user d, rv_route d, rv_run d, rv_id d)"

definition run_clash :: "run_doc \<Rightarrow> run_doc \<Rightarrow> bool" where
  "run_clash a b = (rn_oid a = rn_oid b \<or> (rn_user a, rn_route a, rn_id a) = (rn_user b, rn_route b, rn_id b))"

definition scope_clash :: "scope_doc \<Rightarrow> scope_doc \<Rightarrow> bool" where
  "scope_clash a b = (sd_oid a = sd_oid b \<or> scope_ident a = scope_ident b)"

definition reservation_clash :: "reservation_doc \<Rightarrow> reservation_doc \<Rightarrow> bool" where
  "reservation_clash a b = (rv_oid a = rv_oid b \<or> reservation_ident a = reservation_ident b)"

section \<open>The chain of scopes\<close>

text \<open>
  From a scope up to the root of its run. Every pass finds a scope that is not in the chain
  yet, so the number of scopes bounds the passes and the fuel is never used up.
\<close>

definition find_scope :: "driver \<Rightarrow> string \<Rightarrow> string \<Rightarrow> string \<Rightarrow> string \<Rightarrow> scope_doc list \<Rightarrow> scope_doc option" where
  "find_scope dr user_id route_id run_id scope_id scopes =
     find_one (dr_scopes dr) (\<lambda>d. scope_ident d = (user_id, route_id, run_id, scope_id)) scopes"

definition parent_of :: "scope_doc \<Rightarrow> string" where
  "parent_of row = strip (case sd_parent row of None \<Rightarrow> [] | Some p \<Rightarrow> p)"

fun climb :: "driver \<Rightarrow> string \<Rightarrow> string \<Rightarrow> string \<Rightarrow> scope_doc list \<Rightarrow> nat \<Rightarrow> string \<Rightarrow> string list \<Rightarrow> scope_doc list \<Rightarrow>
    scope_doc list http" where
  "climb dr user_id route_id run_id scopes 0 current seen chain = Inl (Raised (RuntimeError ''fuel''))"
| "climb dr user_id route_id run_id scopes (Suc n) current seen chain =
     (if current = [] then Inr chain
      else if current \<in> set seen then refuse 409 ''workflow_scope_cycle'' []
      else case find_scope dr user_id route_id run_id current scopes of
        None \<Rightarrow> refuse 404 ''workflow_scope_missing'' [(''budget_scope_id'', JStr current)]
      | Some row \<Rightarrow>
          if sd_status row \<noteq> ''active''
          then refuse 409 ''workflow_scope_not_active'' [(''budget_scope_id'', JStr current)]
          else climb dr user_id route_id run_id scopes n (parent_of row) (current # seen) (row # chain))"

definition workflow_scope_chain :: "driver \<Rightarrow> workflow_db \<Rightarrow> string \<Rightarrow> string \<Rightarrow> string \<Rightarrow> string \<Rightarrow>
    (run_doc \<times> scope_doc list) http" where
  "workflow_scope_chain dr db user_id route_id run_id scope_id =
     (case find_one (dr_runs dr) (\<lambda>d. rn_user d = user_id \<and> rn_route d = route_id \<and> rn_id d = run_id) (wd_runs db) of
        None \<Rightarrow> refuse 404 ''workflow_run_missing'' [(''workflow_run_id'', JStr run_id)]
      | Some run \<Rightarrow>
          if rn_status run \<noteq> ''active''
          then refuse 409 ''workflow_run_not_active'' [(''status'', JStr (rn_status run))]
          else rbind (climb dr user_id route_id run_id (wd_scopes db) (length (wd_scopes db) + 2) scope_id [] [])
            (\<lambda>chain. case chain of
               [] \<Rightarrow> refuse 409 ''workflow_scope_not_in_run'' []
             | r # _ \<Rightarrow> if sd_id r \<noteq> rn_root_scope run then refuse 409 ''workflow_scope_not_in_run'' []
                          else Inr (run, chain)))"

section \<open>Reserving a call\<close>

definition hold :: "pyfloat \<Rightarrow> int \<Rightarrow> scope_doc \<Rightarrow> scope_doc" where
  "hold call_limit now d = d\<lparr>sd_reserved := sd_reserved d + call_limit, sd_updated := now\<rparr>"

definition can_hold :: "pyfloat \<Rightarrow> scope_doc \<Rightarrow> bool" where
  "can_hold call_limit d = (sd_status d = ''active'' \<and> call_limit \<le> sd_max d - (sd_spent d + sd_reserved d))"

fun hold_scopes :: "driver \<Rightarrow> pyfloat \<Rightarrow> int \<Rightarrow> scope_doc list \<Rightarrow> scope_doc list \<Rightarrow> scope_doc list http" where
  "hold_scopes dr call_limit now [] scopes = Inr scopes"
| "hold_scopes dr call_limit now (scope # chain) scopes =
     (case update_one (dr_scopes dr) (\<lambda>d. sd_oid d = sd_oid scope \<and> can_hold call_limit d) (hold call_limit now) scopes of
        (matched, scopes') \<Rightarrow>
          if matched \<noteq> 1 then refuse 409 ''workflow_budget_exhausted'' [(''budget_scope_id'', JStr (sd_id scope))]
          else hold_scopes dr call_limit now chain scopes')"

text \<open>What the environment supplies to an insertion: the driver's identifier, the fresh name and the time.\<close>

record fresh =
  fr_oid :: nat
  fr_hex :: string
  fr_now :: int

record execution =
  ex_run_id :: string
  ex_scope_id :: string
  ex_reservation_id :: string
  ex_call_limit_usd :: pyfloat
  ex_max_output_tokens :: int

definition new_reservation :: "fresh \<Rightarrow> string \<Rightarrow> string \<Rightarrow> string \<Rightarrow> scope_doc list \<Rightarrow> json \<Rightarrow> authorization \<Rightarrow> string \<Rightarrow>
    reservation_doc" where
  "new_reservation fr user_id route_id run_id chain model a routing_call_id =
     \<lparr>rv_oid = fr_oid fr, rv_id = ''wfr_'' @ fr_hex fr, rv_user = user_id, rv_route = route_id, rv_run = run_id,
      rv_scope = sd_id (last chain), rv_scopes = map sd_id chain, rv_call = routing_call_id, rv_status = ''reserved'',
      rv_limit = au_call_limit_usd a, rv_max_tokens = au_max_output_tokens a, rv_model = jget model ''model_id'',
      rv_provider = executable_provider_for_model model, rv_spend = None, rv_created = fr_now fr,
      rv_updated = fr_now fr, rv_started = None, rv_finished = None\<rparr>"

definition reserve_workflow_call :: "driver \<Rightarrow> fresh \<Rightarrow> string \<Rightarrow> string \<Rightarrow> string \<Rightarrow> scope_doc list \<Rightarrow> json \<Rightarrow>
    authorization option \<Rightarrow> string \<Rightarrow> workflow_db \<Rightarrow> execution http \<times> workflow_db" where
  "reserve_workflow_call dr fr user_id route_id run_id chain model authorization routing_call_id db =
     (case authorization of
        None \<Rightarrow> (refuse 500 ''workflow_authorization_missing'' [], db)
      | Some a \<Rightarrow>
          (case hold_scopes dr (au_call_limit_usd a) (fr_now fr) chain (wd_scopes db) of
             Inl e \<Rightarrow> (Inl e, db)
           | Inr scopes \<Rightarrow>
               let r = new_reservation fr user_id route_id run_id chain model a routing_call_id in
               (case insert_one (dr_reservations dr) r (wd_reservations db) of
                  None \<Rightarrow> (Inl (Raised (RuntimeError ''DuplicateKeyError'')), db)
                | Some reservations \<Rightarrow>
                    (Inr \<lparr>ex_run_id = run_id, ex_scope_id = sd_id (last chain), ex_reservation_id = rv_id r,
                       ex_call_limit_usd = au_call_limit_usd a, ex_max_output_tokens = au_max_output_tokens a\<rparr>,
                     db\<lparr>wd_scopes := scopes, wd_reservations := reservations\<rparr>))))"

section \<open>Settling a reservation\<close>

text \<open>The part of a verified accounting claim that names a reservation.\<close>

record workflow_claim =
  wc_version :: int
  wc_user :: string
  wc_route :: string
  wc_run :: string
  wc_scope :: string
  wc_reservation :: string
  wc_call :: string
  wc_model :: string
  wc_provider :: string
  wc_limit :: pyfloat
  wc_max_tokens :: int

definition claimed :: "workflow_claim \<Rightarrow> reservation_doc \<Rightarrow> bool" where
  "claimed c d = (reservation_ident d = (wc_user c, wc_route c, wc_run c, wc_reservation c) \<and> rv_scope d = wc_scope c \<and>
     rv_call d = wc_call c \<and> rv_model d = JStr (wc_model c) \<and> rv_provider d = wc_provider c \<and>
     feq (rv_limit d) (wc_limit c) \<and> rv_max_tokens d = wc_max_tokens c)"

definition workflow_reservation_from_claim :: "driver \<Rightarrow> workflow_db \<Rightarrow> workflow_claim \<Rightarrow> reservation_doc http" where
  "workflow_reservation_from_claim dr db claim =
     (if wc_version claim \<noteq> 2 then refuse 422 ''workflow_accounting_token_required'' []
      else case find_one (dr_reservations dr) (claimed claim) (wd_reservations db) of
        None \<Rightarrow> refuse 409 ''workflow_reservation_claim_mismatch'' []
      | Some r \<Rightarrow> Inr r)"

text \<open>\<^verbatim>\<open>math.isclose(a, b, rel_tol=0.0, abs_tol=1e-12)\<close>\<close>

definition is_close :: "pyfloat \<Rightarrow> pyfloat \<Rightarrow> bool" where
  "is_close a b = (feq a b \<or> (isfinite a \<and> isfinite b \<and> a - b \<le> tolerance \<and> b - a \<le> tolerance))"

definition final_statuses :: "string set" where
  "final_statuses = {''settled'', ''failed'', ''cancelled''}"

definition required_status :: "string \<Rightarrow> string" where
  "required_status outcome = (if outcome = ''cancelled'' then ''reserved'' else ''started'')"

text \<open>
  What is decided from the reservation as it was read: nothing left to do (\<open>None\<close>), or the
  amount to charge.
\<close>

definition finalize_plan :: "reservation_doc \<Rightarrow> pyfloat \<Rightarrow> string \<Rightarrow> pyfloat option http" where
  "finalize_plan reservation spend_usd outcome =
     (if rv_status reservation \<in> final_statuses
      then (if rv_status reservation = outcome \<and>
               is_close (case rv_spend reservation of None \<Rightarrow> Fin 0 | Some x \<Rightarrow> x) spend_usd
            then Inr None else refuse 409 ''workflow_reservation_already_finalized'' [])
      else if rv_status reservation \<noteq> required_status outcome
      then refuse 409 ''workflow_reservation_invalid_state'' [(''status'', JStr (rv_status reservation))]
      else
      let debit = (if outcome = ''cancelled'' then Fin 0 else spend_usd) in
      if debit < Fin 0 \<or> rv_limit reservation + tolerance < debit
      then refuse 409 ''workflow_budget_cap_violation''
        [(''call_limit_usd'', JFloat (rv_limit reservation)), (''spend_usd'', JFloat debit)]
      else Inr (Some debit))"

definition release :: "pyfloat \<Rightarrow> pyfloat \<Rightarrow> int \<Rightarrow> scope_doc \<Rightarrow> scope_doc" where
  "release call_limit debit now d =
     d\<lparr>sd_reserved := sd_reserved d + - call_limit, sd_spent := sd_spent d + debit, sd_updated := now\<rparr>"

fun release_scopes :: "driver \<Rightarrow> workflow_claim \<Rightarrow> pyfloat \<Rightarrow> pyfloat \<Rightarrow> int \<Rightarrow> string list \<Rightarrow> scope_doc list \<Rightarrow>
    scope_doc list http" where
  "release_scopes dr claim call_limit debit now [] scopes = Inr scopes"
| "release_scopes dr claim call_limit debit now (scope_id # scope_ids) scopes =
     (case update_one (dr_scopes dr)
         (\<lambda>d. scope_ident d = (wc_user claim, wc_route claim, wc_run claim, scope_id) \<and> call_limit \<le> sd_reserved d)
         (release call_limit debit now) scopes of
        (matched, scopes') \<Rightarrow>
          if matched \<noteq> 1 then refuse 409 ''workflow_scope_settlement_conflict'' [(''budget_scope_id'', JStr scope_id)]
          else release_scopes dr claim call_limit debit now scope_ids scopes')"

definition settle_doc :: "string \<Rightarrow> pyfloat \<Rightarrow> int \<Rightarrow> reservation_doc \<Rightarrow> reservation_doc" where
  "settle_doc outcome debit now d =
     d\<lparr>rv_status := outcome, rv_spend := Some debit, rv_finished := Some now, rv_updated := now\<rparr>"

definition finalize_commit :: "driver \<Rightarrow> int \<Rightarrow> workflow_claim \<Rightarrow> reservation_doc \<Rightarrow> pyfloat \<Rightarrow> string \<Rightarrow> workflow_db \<Rightarrow>
    reservation_doc http \<times> workflow_db" where
  "finalize_commit dr now claim reservation debit outcome db =
     (case release_scopes dr claim (rv_limit reservation) debit now (rv_scopes reservation) (wd_scopes db) of
        Inl e \<Rightarrow> (Inl e, db)
      | Inr scopes \<Rightarrow>
          (case find_one_and_update (dr_reservations dr)
              (\<lambda>d. rv_oid d = rv_oid reservation \<and> rv_status d = required_status outcome)
              (settle_doc outcome debit now) (wd_reservations db) of
             (None, _) \<Rightarrow> (refuse 409 ''workflow_reservation_settlement_conflict'' [], db)
           | (Some updated, reservations) \<Rightarrow>
               (Inr updated, db\<lparr>wd_scopes := scopes, wd_reservations := reservations\<rparr>)))"

definition finalize_workflow_reservation :: "driver \<Rightarrow> int \<Rightarrow> workflow_claim \<Rightarrow> pyfloat \<Rightarrow> string \<Rightarrow> workflow_db \<Rightarrow>
    reservation_doc http \<times> workflow_db" where
  "finalize_workflow_reservation dr now claim spend_usd outcome db =
     (case rbind (workflow_reservation_from_claim dr db claim) (\<lambda>r.
        rbind (finalize_plan r spend_usd outcome) (\<lambda>plan. Inr (r, plan))) of
        Inl e \<Rightarrow> (Inl e, db)
      | Inr (r, None) \<Rightarrow> (Inr r, db)
      | Inr (r, Some debit) \<Rightarrow> finalize_commit dr now claim r debit outcome db)"

section \<open>Who is asking\<close>

text \<open>\<^verbatim>\<open>hmac.compare_digest\<close> of two texts: characters outside ASCII raise.\<close>

definition compare_digest :: "string \<Rightarrow> string \<Rightarrow> bool result" where
  "compare_digest a b =
     (if list_all (\<lambda>c. code c < 128) (a @ b) then Inr (a = b)
      else Inl (TypeError ''comparing strings with non-ASCII characters is not supported''))"

record auth_context =
  ax_user :: "string option"
  ax_route :: "string option"

definition bearer_token :: "string option \<Rightarrow> string option" where
  "bearer_token authorization =
     (case authorization of
        None \<Rightarrow> None
      | Some a \<Rightarrow> if is_prefix ''Bearer '' a then Some (strip (drop 7 a)) else None)"

text \<open>
  The key store answers a hash with the row of the key, with nothing, or with the name of an
  error; \<open>None\<close> is a store that could not be opened.
\<close>

type_synonym key_store = "(string \<Rightarrow> string + auth_context option) option"

definition authenticate_agent :: "string option \<Rightarrow> bool \<Rightarrow> (string \<Rightarrow> string) \<Rightarrow> key_store \<Rightarrow> string option \<Rightarrow>
    auth_context http" where
  "authenticate_agent agent_token allow_anonymous sha256 keys authorization =
     (let token = bearer_token authorization;
          nobody = \<lparr>ax_user = None, ax_route = None\<rparr>;
          otherwise = (if allow_anonymous then Inr nobody
            else Inl (HTTPException 401 (JStr ''Invalid LeRouter API key.''))) in
      if present token \<and> present agent_token \<and> token = agent_token then Inr nobody
      else if present token
      then (case keys of
              None \<Rightarrow> otherwise
            | Some lookup \<Rightarrow>
                (case lookup (sha256 (utf8_encode (the token))) of
                   Inl e \<Rightarrow> Inl (HTTPException 503 (JStr (''LeRouter API key database unavailable: '' @ e)))
                 | Inr (Some row) \<Rightarrow>
                     Inr (row\<lparr>ax_route := Some (if present (ax_route row) then the (ax_route row) else ''default'')\<rparr>)
                 | Inr None \<Rightarrow> otherwise))
      else otherwise)"

definition auth_route_id :: "auth_context \<Rightarrow> string \<Rightarrow> string" where
  "auth_route_id ax fallback =
     (if present (ax_route ax) then the (ax_route ax) else if fallback \<noteq> [] then fallback else ''default'')"

definition required_workflow_identity :: "auth_context \<Rightarrow> string \<Rightarrow> (string \<times> string) http" where
  "required_workflow_identity ax route_id =
     (if \<not> present (ax_user ax) then refuse 422 ''workflow_user_identity_required'' []
      else Inr (the (ax_user ax), auth_route_id ax route_id))"

definition require_claim_auth :: "workflow_claim \<Rightarrow> auth_context \<Rightarrow> unit http" where
  "require_claim_auth claim ax =
     rbind (required_workflow_identity ax (wc_route claim)) (\<lambda>(user_id, route_id).
     rbind (lift (compare_digest user_id (wc_user claim))) (\<lambda>same_user.
     if \<not> same_user then refuse 403 ''workflow_claim_auth_mismatch'' []
     else rbind (lift (compare_digest route_id (wc_route claim))) (\<lambda>same_route.
       if \<not> same_route then refuse 403 ''workflow_claim_auth_mismatch'' [] else Inr ())))"

section \<open>The endpoints\<close>

record run_body =
  rb_route_id :: string
  rb_name :: string
  rb_goal :: string
  rb_max_usd :: pyfloat

record scope_body =
  sb_parent_scope_id :: string
  sb_name :: string
  sb_goal :: string
  sb_max_usd :: "pyfloat option"
  sb_max_percent :: "pyfloat option"

definition texts_ok :: "string \<Rightarrow> string \<Rightarrow> bool" where
  "texts_ok name goal = (name \<noteq> [] \<and> length name \<le> 120 \<and> goal \<noteq> [] \<and> length goal \<le> 4000)"

definition run_body_ok :: "run_body \<Rightarrow> bool" where
  "run_body_ok b = (texts_ok (rb_name b) (rb_goal b) \<and> Fin 0 < rb_max_usd b)"

definition scope_body_ok :: "scope_body \<Rightarrow> bool" where
  "scope_body_ok b = (sb_parent_scope_id b \<noteq> [] \<and> texts_ok (sb_name b) (sb_goal b) \<and>
     (case sb_max_usd b of None \<Rightarrow> True | Some x \<Rightarrow> Fin 0 < x) \<and>
     (case sb_max_percent b of None \<Rightarrow> True | Some x \<Rightarrow> Fin 0 < x \<and> x \<le> Fin 1))"

definition new_run :: "fresh \<Rightarrow> string \<Rightarrow> string \<Rightarrow> string \<Rightarrow> run_body \<Rightarrow> run_doc" where
  "new_run fr root_id user_id route_id b =
     \<lparr>rn_oid = fr_oid fr, rn_id = ''wrun_'' @ fr_hex fr, rn_user = user_id, rn_route = route_id, rn_name = rb_name b,
      rn_goal = rb_goal b, rn_root_scope = root_id, rn_status = ''active'', rn_created = fr_now fr,
      rn_updated = fr_now fr, rn_finished = None\<rparr>"

definition new_scope :: "fresh \<Rightarrow> string \<Rightarrow> string \<Rightarrow> string \<Rightarrow> string option \<Rightarrow> string \<Rightarrow> string \<Rightarrow> pyfloat \<Rightarrow> scope_doc" where
  "new_scope fr user_id route_id run_id parent name goal maximum =
     \<lparr>sd_oid = fr_oid fr, sd_id = ''wscope_'' @ fr_hex fr, sd_user = user_id, sd_route = route_id, sd_run = run_id,
      sd_parent = parent, sd_name = name, sd_goal = goal, sd_max = maximum, sd_spent = Fin 0, sd_reserved = Fin 0,
      sd_status = ''active'', sd_created = fr_now fr, sd_updated = fr_now fr, sd_finished = None\<rparr>"

text \<open>A run and its root scope are inserted in one transaction.\<close>

definition create_workflow_run :: "driver \<Rightarrow> fresh \<Rightarrow> fresh \<Rightarrow> auth_context \<Rightarrow> run_body \<Rightarrow> workflow_db \<Rightarrow>
    (string \<times> string) http \<times> workflow_db" where
  "create_workflow_run dr fr fr_root ax b db =
     (if \<not> run_body_ok b then (Inl (HTTPException 422 JNull), db)
      else case required_workflow_identity ax (rb_route_id b) of
        Inl e \<Rightarrow> (Inl e, db)
      | Inr (user_id, route_id) \<Rightarrow>
          let root_id = ''wscope_'' @ fr_hex fr_root; run = new_run fr root_id user_id route_id b in
          (case insert_one (dr_runs dr) run (wd_runs db) of
             None \<Rightarrow> (Inl (Raised (RuntimeError ''DuplicateKeyError'')), db)
           | Some run_docs \<Rightarrow>
               (case insert_one (dr_scopes dr)
                   (new_scope fr_root user_id route_id (rn_id run) None (rb_name b) (rb_goal b) (rb_max_usd b)) (wd_scopes db) of
                  None \<Rightarrow> (Inl (Raised (RuntimeError ''DuplicateKeyError'')), db)
                | Some scopes \<Rightarrow> (Inr (rn_id run, root_id), db\<lparr>wd_runs := run_docs, wd_scopes := scopes\<rparr>))))"

definition scope_maximum :: "scope_doc \<Rightarrow> scope_body \<Rightarrow> pyfloat" where
  "scope_maximum parent b = (case sb_max_usd b of Some x \<Rightarrow> x | None \<Rightarrow> sd_max parent * the (sb_max_percent b))"

definition add_scope :: "driver \<Rightarrow> fresh \<Rightarrow> string \<Rightarrow> string \<Rightarrow> string \<Rightarrow> scope_doc \<Rightarrow> scope_body \<Rightarrow> workflow_db \<Rightarrow>
    string http \<times> workflow_db" where
  "add_scope dr fr user_id route_id run_id parent b db =
     (let maximum = scope_maximum parent b;
          scope = new_scope fr user_id route_id run_id (Some (sd_id parent)) (sb_name b) (sb_goal b) maximum in
      if sd_max parent + tolerance < maximum then (refuse 422 ''workflow_child_budget_exceeds_parent'' [], db)
      else case insert_one (dr_scopes dr) scope (wd_scopes db) of
        None \<Rightarrow> (Inl (Raised (RuntimeError ''DuplicateKeyError'')), db)
      | Some scopes \<Rightarrow> (Inr (sd_id scope), db\<lparr>wd_scopes := scopes\<rparr>))"

definition create_workflow_scope :: "driver \<Rightarrow> fresh \<Rightarrow> auth_context \<Rightarrow> string \<Rightarrow> scope_body \<Rightarrow> workflow_db \<Rightarrow>
    string http \<times> workflow_db" where
  "create_workflow_scope dr fr ax run_id b db =
     (if \<not> scope_body_ok b then (Inl (HTTPException 422 JNull), db)
      else if (sb_max_usd b = None) = (sb_max_percent b = None)
      then (refuse 422 ''workflow_scope_budget_choice_required'' [], db)
      else case rbind (required_workflow_identity ax ''default'') (\<lambda>(user_id, route_id).
            rbind (workflow_scope_chain dr db user_id route_id run_id (sb_parent_scope_id b)) (\<lambda>(run, chain).
            Inr (user_id, route_id, last chain))) of
        Inl e \<Rightarrow> (Inl e, db)
      | Inr (user_id, route_id, parent) \<Rightarrow> add_scope dr fr user_id route_id run_id parent b db)"

definition unsettled :: "reservation_doc \<Rightarrow> bool" where
  "unsettled d = (rv_status d \<in> {''reserved'', ''started''})"

text \<open>The look for an unsettled reservation and the update of the scope are two accesses.\<close>

definition no_unsettled_in_scope :: "driver \<Rightarrow> string \<Rightarrow> string \<Rightarrow> string \<Rightarrow> string \<Rightarrow> workflow_db \<Rightarrow> unit http" where
  "no_unsettled_in_scope dr user_id route_id run_id scope_id db =
     (case find_one (dr_reservations dr)
         (\<lambda>d. rv_user d = user_id \<and> rv_route d = route_id \<and> rv_run d = run_id \<and> scope_id \<in> set (rv_scopes d) \<and> unsettled d)
         (wd_reservations db) of
        Some r \<Rightarrow> refuse 409 ''workflow_scope_has_unsettled_reservations'' [(''reservation_id'', JStr (rv_id r))]
      | None \<Rightarrow> Inr ())"

definition close_scope :: "string \<Rightarrow> int \<Rightarrow> scope_doc \<Rightarrow> scope_doc" where
  "close_scope status now d = d\<lparr>sd_status := status, sd_finished := Some now, sd_updated := now\<rparr>"

definition close_one_scope :: "driver \<Rightarrow> int \<Rightarrow> string \<Rightarrow> string \<Rightarrow> string \<Rightarrow> string \<Rightarrow> string \<Rightarrow> workflow_db \<Rightarrow>
    unit http \<times> workflow_db" where
  "close_one_scope dr now user_id route_id run_id scope_id status db =
     (case update_one (dr_scopes dr)
         (\<lambda>d. scope_ident d = (user_id, route_id, run_id, scope_id) \<and> sd_status d = ''active'')
         (close_scope status now) (wd_scopes db) of
        (matched, scopes) \<Rightarrow>
          (if matched \<noteq> 1 then refuse 409 ''workflow_scope_not_active'' [] else Inr (), db\<lparr>wd_scopes := scopes\<rparr>))"

definition finish_workflow_scope :: "driver \<Rightarrow> int \<Rightarrow> string \<Rightarrow> string \<Rightarrow> string \<Rightarrow> string \<Rightarrow> string \<Rightarrow> workflow_db \<Rightarrow>
    unit http \<times> workflow_db" where
  "finish_workflow_scope dr now user_id route_id run_id scope_id status db =
     (case no_unsettled_in_scope dr user_id route_id run_id scope_id db of
        Inl e \<Rightarrow> (Inl e, db)
      | Inr _ \<Rightarrow> close_one_scope dr now user_id route_id run_id scope_id status db)"

definition no_unsettled_in_run :: "driver \<Rightarrow> string \<Rightarrow> string \<Rightarrow> string \<Rightarrow> workflow_db \<Rightarrow> unit http" where
  "no_unsettled_in_run dr user_id route_id run_id db =
     (case find_one (dr_reservations dr)
         (\<lambda>d. rv_user d = user_id \<and> rv_route d = route_id \<and> rv_run d = run_id \<and> unsettled d) (wd_reservations db) of
        Some r \<Rightarrow> refuse 409 ''workflow_run_has_unsettled_reservations'' []
      | None \<Rightarrow> Inr ())"

definition close_run_scopes :: "driver \<Rightarrow> int \<Rightarrow> string \<Rightarrow> string \<Rightarrow> string \<Rightarrow> string \<Rightarrow> workflow_db \<Rightarrow> workflow_db" where
  "close_run_scopes dr now user_id route_id run_id status db =
     db\<lparr>wd_scopes := update_many (dr_scopes dr)
       (\<lambda>d. sd_user d = user_id \<and> sd_route d = route_id \<and> sd_run d = run_id \<and> sd_status d = ''active'')
       (close_scope status now) (wd_scopes db)\<rparr>"

definition close_run :: "driver \<Rightarrow> int \<Rightarrow> string \<Rightarrow> string \<Rightarrow> string \<Rightarrow> string \<Rightarrow> workflow_db \<Rightarrow> unit http \<times> workflow_db" where
  "close_run dr now user_id route_id run_id status db =
     (case update_one (dr_runs dr)
         (\<lambda>d. rn_user d = user_id \<and> rn_route d = route_id \<and> rn_id d = run_id \<and> rn_status d = ''active'')
         (\<lambda>d. d\<lparr>rn_status := status, rn_finished := Some now, rn_updated := now\<rparr>) (wd_runs db) of
        (matched, run_docs) \<Rightarrow>
          (if matched \<noteq> 1 then refuse 409 ''workflow_run_not_active'' [] else Inr (), db\<lparr>wd_runs := run_docs\<rparr>))"

text \<open>The status of the body is \<^verbatim>\<open>completed\<close> or \<^verbatim>\<open>failed\<close>.\<close>

definition finish_status_ok :: "string \<Rightarrow> bool" where
  "finish_status_ok status = (status \<in> {''completed'', ''failed''})"

definition finish_workflow_run :: "driver \<Rightarrow> int \<Rightarrow> auth_context \<Rightarrow> string \<Rightarrow> string \<Rightarrow> workflow_db \<Rightarrow>
    unit http \<times> workflow_db" where
  "finish_workflow_run dr now ax run_id status db =
     (if \<not> finish_status_ok status then (Inl (HTTPException 422 JNull), db)
      else case rbind (required_workflow_identity ax ''default'') (\<lambda>(user_id, route_id).
            rbind (no_unsettled_in_run dr user_id route_id run_id db) (\<lambda>_. Inr (user_id, route_id))) of
        Inl e \<Rightarrow> (Inl e, db)
      | Inr (user_id, route_id) \<Rightarrow>
          close_run dr now user_id route_id run_id status (close_run_scopes dr now user_id route_id run_id status db))"

definition finish_workflow_scope_endpoint :: "driver \<Rightarrow> int \<Rightarrow> auth_context \<Rightarrow> string \<Rightarrow> string \<Rightarrow> string \<Rightarrow> workflow_db \<Rightarrow>
    unit http \<times> workflow_db" where
  "finish_workflow_scope_endpoint dr now ax run_id scope_id status db =
     (if \<not> finish_status_ok status then (Inl (HTTPException 422 JNull), db)
      else case required_workflow_identity ax ''default'' of
        Inl e \<Rightarrow> (Inl e, db)
      | Inr (user_id, route_id) \<Rightarrow> finish_workflow_scope dr now user_id route_id run_id scope_id status db)"

definition begin_call :: "int \<Rightarrow> reservation_doc \<Rightarrow> reservation_doc" where
  "begin_call now d = d\<lparr>rv_status := ''started'', rv_started := Some now, rv_updated := now\<rparr>"

definition start_read_reservation :: "driver \<Rightarrow> int \<Rightarrow> reservation_doc \<Rightarrow> workflow_db \<Rightarrow> string http \<times> workflow_db" where
  "start_read_reservation dr now r db =
     (if rv_status r = ''started'' then (Inr (rv_id r), db)
      else case find_one_and_update (dr_reservations dr) (\<lambda>d. rv_oid d = rv_oid r \<and> rv_status d = ''reserved'')
          (begin_call now) (wd_reservations db) of
        (None, _) \<Rightarrow> (refuse 409 ''workflow_reservation_not_reserved'' [], db)
      | (Some updated, reservations) \<Rightarrow> (Inr (rv_id updated), db\<lparr>wd_reservations := reservations\<rparr>))"

definition start_workflow_reservation :: "driver \<Rightarrow> int \<Rightarrow> auth_context \<Rightarrow> workflow_claim \<Rightarrow> workflow_db \<Rightarrow>
    string http \<times> workflow_db" where
  "start_workflow_reservation dr now ax claim db =
     (case rbind (require_claim_auth claim ax) (\<lambda>_. workflow_reservation_from_claim dr db claim) of
        Inl e \<Rightarrow> (Inl e, db)
      | Inr r \<Rightarrow> start_read_reservation dr now r db)"

definition cancel_workflow_reservation :: "driver \<Rightarrow> int \<Rightarrow> auth_context \<Rightarrow> workflow_claim \<Rightarrow> workflow_db \<Rightarrow>
    reservation_doc http \<times> workflow_db" where
  "cancel_workflow_reservation dr now ax claim db =
     (case require_claim_auth claim ax of
        Inl e \<Rightarrow> (Inl e, db)
      | Inr _ \<Rightarrow> finalize_workflow_reservation dr now claim (Fin 0) ''cancelled'' db)"

definition fail_workflow_reservation :: "driver \<Rightarrow> int \<Rightarrow> auth_context \<Rightarrow> workflow_claim \<Rightarrow> workflow_db \<Rightarrow>
    reservation_doc http \<times> workflow_db" where
  "fail_workflow_reservation dr now ax claim db =
     (case require_claim_auth claim ax of
        Inl e \<Rightarrow> (Inl e, db)
      | Inr _ \<Rightarrow> finalize_workflow_reservation dr now claim (wc_limit claim) ''failed'' db)"

end
