(* ===== verification/Workflow_Store_Props.thy ===== *)
theory Workflow_Store_Props
  imports Workflow_Store Workflow_Props
begin

text \<open>
  What the workflow store promises, whatever order the accesses of concurrent requests take:
  the totals of every scope are those of a ledger in which each reservation is held once and
  paid at most once; a call is only held where its limit still fits; the walk to the root ends.
\<close>

lemma key_unique: "distinct (map key xs) \<Longrightarrow> x \<in> set xs \<Longrightarrow> y \<in> set xs \<Longrightarrow> key x = key y \<Longrightarrow> x = y"
  by (metis distinct_map inj_onD)

section \<open>The interface of a collection\<close>

text \<open>
  What the code relies on of the document database: an update changes one matching document,
  if there is one, and reports how many it matched; an insertion that succeeds appends a
  document that agrees with no other on a unique index.
\<close>

locale document_collection =
  fixes ops :: "'d collection" and clash :: "'d \<Rightarrow> 'd \<Rightarrow> bool"
  assumes find_one_None: "find_one ops p ds = None \<Longrightarrow> d \<in> set ds \<Longrightarrow> \<not> p d"
    and find_one_Some: "find_one ops p ds = Some d \<Longrightarrow> d \<in> set ds \<and> p d"
    and update_one: "update_one ops p f ds = (n, ds') \<Longrightarrow>
      n = 0 \<and> ds' = ds \<and> (\<forall>d\<in>set ds. \<not> p d) \<or> n = 1 \<and> (\<exists>xs d ys. ds = xs @ d # ys \<and> p d \<and> ds' = xs @ f d # ys)"
    and update_many: "update_many ops p f ds = map (\<lambda>d. if p d then f d else d) ds"
    and find_one_and_update: "find_one_and_update ops p f ds = (r, ds') \<Longrightarrow>
      r = None \<and> ds' = ds \<and> (\<forall>d\<in>set ds. \<not> p d) \<or> (\<exists>xs d ys. r = Some (f d) \<and> ds = xs @ d # ys \<and> p d \<and> ds' = xs @ f d # ys)"
    and insert_one: "insert_one ops d ds = Some ds' \<Longrightarrow> ds' = ds @ [d] \<and> (\<forall>e\<in>set ds. \<not> clash e d)"
begin

text \<open>With a key no two documents share, an update by key acts on every document alike.\<close>

lemma split_by_key:
  assumes "distinct (map key (xs @ d # ys))"
  shows "xs @ f d # ys = map (\<lambda>e. if key e = key d then f e else e) (xs @ d # ys)"
proof -
  have "map (\<lambda>e. if key e = key d then f e else e) zs = zs" if "key d \<notin> key ` set zs" for zs
    using that by (intro map_idI) (metis imageI)
  then show ?thesis using assms by auto
qed

lemma update_by_key:
  assumes "update_one ops (\<lambda>d. key d = k \<and> q d) f ds = (n, ds')" "n = 1" "distinct (map key ds)"
  shows "ds' = map (\<lambda>d. if key d = k then f d else d) ds \<and> (\<exists>d\<in>set ds. key d = k \<and> q d)"
  using update_one [OF assms(1)] assms(2,3) split_by_key [where key = key and f = f] by auto

lemma find_update_by_key:
  assumes "find_one_and_update ops (\<lambda>d. key d = k \<and> q d) f ds = (Some r, ds')" "distinct (map key ds)"
  shows "ds' = map (\<lambda>d. if key d = k then f d else d) ds \<and> (\<exists>d\<in>set ds. key d = k \<and> q d \<and> r = f d)"
  using find_one_and_update [OF assms(1)] assms(2) split_by_key [where key = key and f = f] by auto

end

section \<open>A database of lists\<close>

fun first_match :: "('d \<Rightarrow> bool) \<Rightarrow> ('d \<Rightarrow> 'd) \<Rightarrow> 'd list \<Rightarrow> 'd option \<times> 'd list" where
  "first_match p f [] = (None, [])"
| "first_match p f (d # ds) =
     (if p d then (Some (f d), f d # ds) else case first_match p f ds of (r, ds') \<Rightarrow> (r, d # ds'))"

definition list_collection :: "('d \<Rightarrow> 'd \<Rightarrow> bool) \<Rightarrow> 'd collection" where
  "list_collection clash =
     \<lparr>find_one = find, update_one = (\<lambda>p f ds. case first_match p f ds of (r, ds') \<Rightarrow> (if r = None then 0 else 1, ds')),
      update_many = (\<lambda>p f. map (\<lambda>d. if p d then f d else d)), find_one_and_update = first_match,
      insert_one = (\<lambda>d ds. if list_ex (\<lambda>e. clash e d) ds then None else Some (ds @ [d]))\<rparr>"

definition list_driver :: driver where
  "list_driver = \<lparr>dr_runs = list_collection run_clash, dr_scopes = list_collection scope_clash,
     dr_reservations = list_collection reservation_clash\<rparr>"

lemma first_match_cases:
  "first_match p f ds = (r, ds') \<Longrightarrow>
     r = None \<and> ds' = ds \<and> (\<forall>d\<in>set ds. \<not> p d) \<or> (\<exists>xs d ys. r = Some (f d) \<and> ds = xs @ d # ys \<and> p d \<and> ds' = xs @ f d # ys)"
proof (induction ds arbitrary: r ds')
  case (Cons d ds)
  show ?case
  proof (cases "p d")
    case True
    with Cons.prems have "r = Some (f d) \<and> d # ds = [] @ d # ds \<and> p d \<and> ds' = [] @ f d # ds" by auto
    then show ?thesis by blast
  next
    case False
    with Cons.prems obtain ds1 where m: "first_match p f ds = (r, ds1)" "ds' = d # ds1" by (auto split: prod.splits)
    from Cons.IH [OF m(1)] show ?thesis
    proof
      assume "\<exists>xs e ys. r = Some (f e) \<and> ds = xs @ e # ys \<and> p e \<and> ds1 = xs @ f e # ys"
      then obtain xs e ys where "r = Some (f e)" "ds = xs @ e # ys" "p e" "ds1 = xs @ f e # ys" by blast
      then have "r = Some (f e) \<and> d # ds = (d # xs) @ e # ys \<and> p e \<and> ds' = (d # xs) @ f e # ys" using m(2) by simp
      then show ?thesis by blast
    qed (use False m in auto)
  qed
qed simp

interpretation listed: document_collection "list_collection clash" clash for clash :: "'d \<Rightarrow> 'd \<Rightarrow> bool"
proof (unfold_locales, goal_cases)
  case (1 p ds d)
  then show ?case by (auto simp: list_collection_def find_None_iff)
next
  case (2 p ds d)
  then show ?case by (auto simp: list_collection_def find_Some_iff)
next
  case (3 p f ds n ds')
  then obtain r where "first_match p f ds = (r, ds')" "n = (if r = None then 0 else 1)"
    by (auto simp: list_collection_def split: prod.splits)
  from first_match_cases [OF this(1)] this(2) show ?case by auto
next
  case (5 p f ds r ds')
  then have "first_match p f ds = (r, ds')" by (simp add: list_collection_def)
  then show ?case by (rule first_match_cases)
next
  case (6 d ds ds')
  then show ?case by (simp add: list_collection_def list_ex_iff split: if_splits)
qed (simp add: list_collection_def)

locale workflow_store =
  run_docs: document_collection "dr_runs dr" run_clash +
  scope_docs: document_collection "dr_scopes dr" scope_clash +
  reservation_docs: document_collection "dr_reservations dr" reservation_clash
  for dr :: driver

lemma list_driver_parts:
  "dr_runs list_driver = list_collection run_clash" "dr_scopes list_driver = list_collection scope_clash"
  "dr_reservations list_driver = list_collection reservation_clash"
  by (simp_all add: list_driver_def)

interpretation listed_store: workflow_store list_driver
  unfolding workflow_store_def list_driver_parts
  by (intro conjI listed.document_collection_axioms)

section \<open>The walk to the root\<close>

text \<open>From a scope, listed last, over the parents up to a scope without one, listed first.\<close>

definition is_chain :: "scope_doc list \<Rightarrow> string \<Rightarrow> bool" where
  "is_chain chain scope_id \<longleftrightarrow> chain \<noteq> [] \<and> sd_id (last chain) = scope_id \<and> parent_of (hd chain) = [] \<and>
     (\<forall>i. Suc i < length chain \<longrightarrow> parent_of (chain ! Suc i) = sd_id (chain ! i)) \<and>
     distinct (map sd_id chain) \<and> (\<forall>s\<in>set chain. sd_status s = ''active'')"

text \<open>The part of a chain that a walk has collected, with the scope it has to look for next.\<close>

definition half_chain :: "scope_doc list \<Rightarrow> string list \<Rightarrow> string \<Rightarrow> string \<Rightarrow> bool" where
  "half_chain chain seen current scope_id \<longleftrightarrow> map sd_id chain = seen \<and> distinct seen \<and>
     (if chain = [] then current = scope_id else sd_id (last chain) = scope_id \<and> parent_of (hd chain) = current) \<and>
     (\<forall>i. Suc i < length chain \<longrightarrow> parent_of (chain ! Suc i) = sd_id (chain ! i)) \<and>
     (\<forall>s\<in>set chain. sd_status s = ''active'')"

lemma half_chain_Cons:
  assumes "half_chain chain seen current scope_id" "current \<notin> set seen" "sd_id row = current" "sd_status row = ''active''"
  shows "half_chain (row # chain) (current # seen) (parent_of row) scope_id"
proof -
  have "parent_of ((row # chain) ! Suc i) = sd_id ((row # chain) ! i)" if "Suc i < length (row # chain)" for i
    using assms that by (cases i) (auto simp: half_chain_def hd_conv_nth)
  then show ?thesis using assms by (auto simp: half_chain_def)
qed

context workflow_store
begin

lemma find_scope_Some:
  "find_scope dr u r n i scopes = Some row \<Longrightarrow> row \<in> set scopes \<and> scope_ident row = (u, r, n, i) \<and> sd_id row = i"
  unfolding find_scope_def by (drule scope_docs.find_one_Some) (simp add: scope_ident_def)

lemma climb_ok:
  assumes "climb dr u r n scopes fuel current seen chain = Inr chain'" "half_chain chain seen current scope_id"
    and "\<forall>s\<in>set chain. s \<in> set scopes \<and> scope_ident s = (u, r, n, sd_id s)"
  shows "(chain' = [] \<or> is_chain chain' scope_id) \<and> (\<forall>s\<in>set chain'. s \<in> set scopes \<and> scope_ident s = (u, r, n, sd_id s))"
  using assms
proof (induction fuel arbitrary: current seen chain)
  case (Suc fuel)
  show ?case
  proof (cases "current = []")
    case True
    with Suc.prems show ?thesis by (auto simp: is_chain_def half_chain_def split: if_splits)
  next
    case False
    with Suc.prems(1) obtain row where row: "current \<notin> set seen" "find_scope dr u r n current scopes = Some row"
        "sd_status row = ''active''" "climb dr u r n scopes fuel (parent_of row) (current # seen) (row # chain) = Inr chain'"
      by (auto split: if_splits option.splits)
    note f = find_scope_Some [OF row(2)]
    show ?thesis
      by (rule Suc.IH [OF row(4) half_chain_Cons [OF Suc.prems(2) row(1) _ row(3)]]) (use f Suc.prems(3) in auto)
  qed
qed simp

text \<open>The names seen are names of different scopes, so the fuel is never used up.\<close>

lemma climb_ends:
  assumes "distinct seen" "set seen \<subseteq> sd_id ` set scopes" "length scopes + 2 \<le> length seen + fuel"
  shows "climb dr u r n scopes fuel current seen chain \<noteq> Inl (Raised e)"
  using assms
proof (induction fuel arbitrary: current seen chain)
  case 0
  have "card (set seen) \<le> card (sd_id ` set scopes)" using "0.prems" by (intro card_mono) auto
  also have "\<dots> \<le> length scopes" using card_image_le [of "set scopes" sd_id] card_length [of scopes] by simp
  finally show ?case using "0.prems" distinct_card [of seen] by simp
next
  case (Suc fuel)
  show ?case
  proof (cases "find_scope dr u r n current scopes")
    case None
    then show ?thesis by (simp add: refuse_def)
  next
    case (Some row)
    then have "current \<in> sd_id ` set scopes" using find_scope_Some by blast
    with Suc.IH [of "current # seen" "parent_of row" "row # chain"] Suc.prems Some show ?thesis
      by (auto simp: refuse_def)
  qed
qed

lemma chain_walk:
  "case workflow_scope_chain dr db u r n scope_id of
     Inl e \<Rightarrow> \<exists>status detail. e = HTTPException status detail
   | Inr (run, chain) \<Rightarrow> run \<in> set (wd_runs db) \<and> rn_status run = ''active'' \<and>
       (rn_user run, rn_route run, rn_id run) = (u, r, n) \<and> is_chain chain scope_id \<and> sd_id (hd chain) = rn_root_scope run \<and>
       (\<forall>s\<in>set chain. s \<in> set (wd_scopes db) \<and> scope_ident s = (u, r, n, sd_id s))"
proof (cases "find_one (dr_runs dr) (\<lambda>d. rn_user d = u \<and> rn_route d = r \<and> rn_id d = n) (wd_runs db)")
  case None
  then show ?thesis by (simp add: workflow_scope_chain_def refuse_def)
next
  case (Some run)
  note run = run_docs.find_one_Some [OF Some]
  define walk where "walk = climb dr u r n (wd_scopes db) (length (wd_scopes db) + 2) scope_id [] []"
  have e: "workflow_scope_chain dr db u r n scope_id =
      (if rn_status run \<noteq> ''active'' then refuse 409 ''workflow_run_not_active'' [(''status'', JStr (rn_status run))]
       else rbind walk (\<lambda>chain. case chain of
               [] \<Rightarrow> refuse 409 ''workflow_scope_not_in_run'' []
             | r # _ \<Rightarrow> if sd_id r \<noteq> rn_root_scope run then refuse 409 ''workflow_scope_not_in_run'' []
                          else Inr (run, chain)))"
    by (simp add: workflow_scope_chain_def Some walk_def)
  show ?thesis
  proof (cases walk)
    case (Inl e1)
    then obtain status detail where "e1 = HTTPException status detail"
      using climb_ends [of "[]" "wd_scopes db" "length (wd_scopes db) + 2"] unfolding walk_def by (cases e1) auto
    then show ?thesis unfolding e Inl by (simp add: refuse_def)
  next
    case (Inr chain)
    have "(chain = [] \<or> is_chain chain scope_id) \<and> (\<forall>s\<in>set chain. s \<in> set (wd_scopes db) \<and> scope_ident s = (u, r, n, sd_id s))"
      by (rule climb_ok [OF Inr [unfolded walk_def]]) (auto simp: half_chain_def)
    then show ?thesis unfolding e Inr using run by (cases chain) (auto simp: refuse_def)
  qed
qed

end

section \<open>The ledger\<close>

text \<open>
  A reservation holds its limit in each scope of its chain, and gives it back when an amount is
  paid. The totals of a scope are what the entries, newest first, leave of it.
\<close>

datatype entry = Held ident "ident list" pyfloat | Paid ident "ident list" pyfloat pyfloat

fun entry_key :: "entry \<Rightarrow> ident" where
  "entry_key (Held k ks l) = k"
| "entry_key (Paid k ks l x) = k"

fun entry_scopes :: "entry \<Rightarrow> ident list" where
  "entry_scopes (Held k ks l) = ks"
| "entry_scopes (Paid k ks l x) = ks"

fun book :: "ident \<Rightarrow> entry list \<Rightarrow> pyfloat \<times> pyfloat" where
  "book k [] = (Fin 0, Fin 0)"
| "book k (e # es) =
     (let (spent, reserved) = book k es in
      if k \<notin> set (entry_scopes e) then (spent, reserved)
      else case e of
        Held _ _ l \<Rightarrow> (spent, reserved + l)
      | Paid _ _ l x \<Rightarrow> (spent + x, reserved + - l))"

definition scope_idents :: "reservation_doc \<Rightarrow> ident list" where
  "scope_idents r = map (\<lambda>i. (rv_user r, rv_route r, rv_run r, i)) (rv_scopes r)"

definition charge_ok :: "pyfloat \<Rightarrow> pyfloat \<Rightarrow> bool" where
  "charge_ok call_limit x \<longleftrightarrow> \<not> x < Fin 0 \<and> \<not> call_limit + tolerance < x"

definition entries_match :: "reservation_doc \<Rightarrow> entry list \<Rightarrow> bool" where
  "entries_match r es \<longleftrightarrow>
     (let k = reservation_ident r; ks = scope_idents r; mine = filter (\<lambda>e. entry_key e = k) es in
      if rv_status r \<in> final_statuses
      then (\<exists>x. rv_spend r = Some x \<and> charge_ok (rv_limit r) x \<and> mine = [Paid k ks (rv_limit r) x, Held k ks (rv_limit r)])
      else rv_status r \<in> {''reserved'', ''started''} \<and> mine = [Held k ks (rv_limit r)])"

section \<open>Concurrent requests\<close>

text \<open>
  The database with what running requests have read of it so far: chains of scopes, and
  reservations found for a claim. A step is one access of a request, or one transaction; what a
  request read may be out of date when it is used.
\<close>

record workflow_world =
  ww_db :: workflow_db
  ww_chains :: "(string \<times> string \<times> string \<times> scope_doc list) list"
  ww_read :: "(workflow_claim \<times> reservation_doc) list"
  ww_ledger :: "entry list"

definition empty_world :: workflow_world where
  "empty_world = \<lparr>ww_db = \<lparr>wd_runs = [], wd_scopes = [], wd_reservations = []\<rparr>, ww_chains = [], ww_read = [], ww_ledger = []\<rparr>"

inductive workflow_step :: "driver \<Rightarrow> workflow_world \<Rightarrow> workflow_world \<Rightarrow> bool" for dr where
  w_run: "create_workflow_run dr fr fr_root ax b (ww_db w) = (res, db) \<Longrightarrow> workflow_step dr w (w\<lparr>ww_db := db\<rparr>)"
| w_chain: "workflow_scope_chain dr (ww_db w) u r n i = Inr (run, chain) \<Longrightarrow>
    workflow_step dr w (w\<lparr>ww_chains := (u, r, n, chain) # ww_chains w\<rparr>)"
| w_scope: "(u, r, n, chain) \<in> set (ww_chains w) \<Longrightarrow> scope_body_ok b \<Longrightarrow>
    add_scope dr fr u r n (last chain) b (ww_db w) = (res, db) \<Longrightarrow> workflow_step dr w (w\<lparr>ww_db := db\<rparr>)"
| w_reserve: "(u, r, n, chain) \<in> set (ww_chains w) \<Longrightarrow>
    reserve_workflow_call dr fr u r n chain model (Some a) call (ww_db w) = (Inr ex, db) \<Longrightarrow>
    workflow_step dr w (w\<lparr>ww_db := db,
      ww_ledger := Held (u, r, n, ex_reservation_id ex) (map scope_ident chain) (au_call_limit_usd a) # ww_ledger w\<rparr>)"
| w_read: "workflow_reservation_from_claim dr (ww_db w) claim = Inr res \<Longrightarrow>
    workflow_step dr w (w\<lparr>ww_read := (claim, res) # ww_read w\<rparr>)"
| w_start: "(claim, doc) \<in> set (ww_read w) \<Longrightarrow> start_read_reservation dr now doc (ww_db w) = (res, db) \<Longrightarrow>
    workflow_step dr w (w\<lparr>ww_db := db\<rparr>)"
| w_settle: "(claim, doc) \<in> set (ww_read w) \<Longrightarrow> outcome \<in> final_statuses \<Longrightarrow>
    finalize_plan doc spend outcome = Inr (Some debit) \<Longrightarrow>
    finalize_commit dr now claim doc debit outcome (ww_db w) = (Inr res, db) \<Longrightarrow>
    workflow_step dr w (w\<lparr>ww_db := db,
      ww_ledger := Paid (reservation_ident doc) (scope_idents doc) (rv_limit doc) debit # ww_ledger w\<rparr>)"
| w_close: "finish_status_ok status \<Longrightarrow> close_one_scope dr now u r n i status (ww_db w) = (res, db) \<Longrightarrow>
    workflow_step dr w (w\<lparr>ww_db := db\<rparr>)"
| w_close_all: "finish_status_ok status \<Longrightarrow>
    workflow_step dr w (w\<lparr>ww_db := close_run_scopes dr now u r n status (ww_db w)\<rparr>)"
| w_close_run: "finish_status_ok status \<Longrightarrow> close_run dr now u r n status (ww_db w) = (res, db) \<Longrightarrow>
    workflow_step dr w (w\<lparr>ww_db := db\<rparr>)"

inductive workflow_reachable :: "driver \<Rightarrow> workflow_world \<Rightarrow> bool" for dr where
  w_empty: "workflow_reachable dr empty_world"
| w_next: "workflow_reachable dr w \<Longrightarrow> workflow_step dr w w' \<Longrightarrow> workflow_reachable dr w'"

text \<open>What a request read of a document that never changes.\<close>

definition same_scope :: "scope_doc \<Rightarrow> scope_doc \<Rightarrow> bool" where
  "same_scope a b \<longleftrightarrow> sd_oid a = sd_oid b \<and> scope_ident a = scope_ident b"

definition same_reservation :: "reservation_doc \<Rightarrow> reservation_doc \<Rightarrow> bool" where
  "same_reservation a b \<longleftrightarrow> rv_oid a = rv_oid b \<and> reservation_ident a = reservation_ident b \<and>
     rv_scopes a = rv_scopes b \<and> rv_limit a = rv_limit b"

definition scopes_ok :: "scope_doc list \<Rightarrow> entry list \<Rightarrow> bool" where
  "scopes_ok scopes es \<longleftrightarrow> distinct (map sd_oid scopes) \<and> distinct (map scope_ident scopes) \<and>
     (\<forall>d\<in>set scopes. book (scope_ident d) es = (sd_spent d, sd_reserved d)) \<and>
     (\<forall>e\<in>set es. set (entry_scopes e) \<subseteq> scope_ident ` set scopes)"

definition reservations_ok :: "reservation_doc list \<Rightarrow> entry list \<Rightarrow> bool" where
  "reservations_ok docs es \<longleftrightarrow> distinct (map rv_oid docs) \<and> distinct (map reservation_ident docs) \<and>
     (\<forall>d\<in>set docs. distinct (rv_scopes d) \<and> entries_match d es) \<and>
     entry_key ` set es \<subseteq> reservation_ident ` set docs"

definition chain_known :: "scope_doc list \<Rightarrow> string \<times> string \<times> string \<times> scope_doc list \<Rightarrow> bool" where
  "chain_known scopes = (\<lambda>(u, r, n, chain). chain \<noteq> [] \<and> distinct (map sd_id chain) \<and>
     (\<forall>s\<in>set chain. scope_ident s = (u, r, n, sd_id s) \<and> (\<exists>d\<in>set scopes. same_scope d s)))"

definition reservation_known :: "reservation_doc list \<Rightarrow> workflow_claim \<times> reservation_doc \<Rightarrow> bool" where
  "reservation_known docs = (\<lambda>(c, doc). (wc_user c, wc_route c, wc_run c) = (rv_user doc, rv_route doc, rv_run doc) \<and>
     (\<exists>d\<in>set docs. same_reservation d doc))"

definition world_ok :: "workflow_world \<Rightarrow> bool" where
  "world_ok w \<longleftrightarrow> scopes_ok (wd_scopes (ww_db w)) (ww_ledger w) \<and> reservations_ok (wd_reservations (ww_db w)) (ww_ledger w) \<and>
     (\<forall>c\<in>set (ww_chains w). chain_known (wd_scopes (ww_db w)) c) \<and>
     (\<forall>c\<in>set (ww_read w). reservation_known (wd_reservations (ww_db w)) c)"

lemma book_Cons_other: "k \<notin> set (entry_scopes e) \<Longrightarrow> book k (e # es) = book k es"
  by (simp add: split_beta)

lemma book_none: "\<forall>e\<in>set es. k \<notin> set (entry_scopes e) \<Longrightarrow> book k es = (Fin 0, Fin 0)"
  by (induction es) auto

definition scope_key :: "scope_doc \<Rightarrow> nat \<times> ident \<times> pyfloat \<times> pyfloat" where
  "scope_key d = (sd_oid d, scope_ident d, sd_spent d, sd_reserved d)"

lemma scopes_ok_frame:
  assumes "scopes_ok scopes es" "map scope_key scopes' = map scope_key scopes"
  shows "scopes_ok scopes' es \<and> (\<forall>d\<in>set scopes. \<exists>d'\<in>set scopes'. same_scope d' d)"
proof -
  have s: "scope_key ` set scopes' = scope_key ` set scopes" unfolding set_map [symmetric] assms(2) ..
  have k: "\<exists>d'\<in>set scopes. scope_key d' = scope_key d" if "d \<in> set scopes'" for d
    using imageI [OF that, of scope_key] unfolding s by auto
  have k': "\<exists>d'\<in>set scopes'. scope_key d' = scope_key d" if "d \<in> set scopes" for d
    using imageI [OF that, of scope_key] unfolding s [symmetric] by auto
  have "map fst (map scope_key scopes') = map fst (map scope_key scopes)"
    "map (fst \<circ> snd) (map scope_key scopes') = map (fst \<circ> snd) (map scope_key scopes)"
    using assms(2) by simp_all
  then have d: "map sd_oid scopes' = map sd_oid scopes" "map scope_ident scopes' = map scope_ident scopes"
    by (simp_all add: scope_key_def comp_def)
  then have i: "scope_ident ` set scopes' = scope_ident ` set scopes" by (metis set_map)
  have "book (scope_ident x) es = (sd_spent x, sd_reserved x)" if "x \<in> set scopes'" for x
    using k [OF that] assms(1) by (auto simp: scopes_ok_def scope_key_def)
  then have "scopes_ok scopes' es" using assms(1) by (simp add: scopes_ok_def d i)
  then show ?thesis using k' by (fastforce simp: same_scope_def scope_key_def)
qed

lemma scopes_ok_insert:
  assumes "scopes_ok scopes es" "\<forall>e\<in>set scopes. \<not> scope_clash e d" "sd_spent d = Fin 0" "sd_reserved d = Fin 0"
  shows "scopes_ok (scopes @ [d]) es"
proof -
  have "scope_ident d \<notin> scope_ident ` set scopes" using assms(2) by (auto simp: scope_clash_def)
  then have "book (scope_ident d) es = (Fin 0, Fin 0)" using assms(1) by (intro book_none) (auto simp: scopes_ok_def)
  then show ?thesis using assms by (auto simp: scopes_ok_def scope_clash_def)
qed

text \<open>An entry booked in just the scopes it names.\<close>

lemma scopes_ok_entry:
  assumes "scopes_ok scopes es" "set (entry_scopes e) \<subseteq> scope_ident ` set scopes"
    and "scopes' = map (\<lambda>d. if scope_ident d \<in> set (entry_scopes e) then f d else d) scopes"
    and f: "\<And>d. sd_oid (f d) = sd_oid d \<and> scope_ident (f d) = scope_ident d"
    and charge: "\<And>d. scope_ident d \<in> set (entry_scopes e) \<Longrightarrow> book (scope_ident d) es = (sd_spent d, sd_reserved d) \<Longrightarrow>
      book (scope_ident d) (e # es) = (sd_spent (f d), sd_reserved (f d))"
  shows "scopes_ok scopes' (e # es) \<and> (\<forall>d\<in>set scopes. \<exists>d'\<in>set scopes'. same_scope d' d)"
proof -
  define g where "g = (\<lambda>d. if scope_ident d \<in> set (entry_scopes e) then f d else d)"
  have g: "sd_oid (g d) = sd_oid d" "scope_ident (g d) = scope_ident d" for d using f by (simp_all add: g_def)
  have s: "scopes' = map g scopes" using assms(3) by (simp add: g_def)
  have "book (scope_ident d) (e # es) = (sd_spent (g d), sd_reserved (g d))" if "d \<in> set scopes" for d
    using that assms(1) charge [of d] book_Cons_other [of "scope_ident d" e es] by (auto simp: scopes_ok_def g_def simp del: book.simps)
  moreover have "scope_ident ` set scopes' = scope_ident ` set scopes" unfolding s by (simp add: image_image g)
  moreover have "map sd_oid scopes' = map sd_oid scopes" "map scope_ident scopes' = map scope_ident scopes"
    unfolding s by (simp_all add: g)
  ultimately have "scopes_ok scopes' (e # es)" using assms(1,2) unfolding scopes_ok_def
    by (simp add: s g del: book.simps map_map)
  then show ?thesis by (auto simp: s g same_scope_def)
qed

lemma chain_known_mono:
  "\<forall>d\<in>set scopes. \<exists>d'\<in>set scopes'. same_scope d' d \<Longrightarrow> chain_known scopes c \<Longrightarrow> chain_known scopes' c"
  by (cases c) (fastforce simp: chain_known_def same_scope_def)

lemma reservation_known_mono:
  "\<forall>d\<in>set docs. \<exists>d'\<in>set docs'. same_reservation d' d \<Longrightarrow> reservation_known docs c \<Longrightarrow> reservation_known docs' c"
  by (cases c) (fastforce simp: reservation_known_def same_reservation_def)

context workflow_store
begin

lemma hold_scopes_effect:
  assumes "hold_scopes dr l now chain scopes = Inr scopes'" "distinct (map sd_oid scopes)" "distinct (map sd_oid chain)"
  shows "scopes' = map (\<lambda>d. if sd_oid d \<in> sd_oid ` set chain then hold l now d else d) scopes \<and>
    (\<forall>s\<in>set chain. \<exists>d\<in>set scopes. sd_oid d = sd_oid s \<and> can_hold l d)"
  using assms
proof (induction chain arbitrary: scopes)
  case (Cons s chain)
  let ?p = "\<lambda>d. sd_oid d = sd_oid s \<and> can_hold l d"
  obtain n scopes1 where u: "update_one (dr_scopes dr) ?p (hold l now) scopes = (n, scopes1)" by (cases "update_one (dr_scopes dr) ?p (hold l now) scopes")
  with Cons.prems(1) have n: "n = 1" and rest: "hold_scopes dr l now chain scopes1 = Inr scopes'" by (auto split: if_splits)
  note step = scope_docs.update_by_key [OF u n Cons.prems(2)]
  have oid: "sd_oid (hold l now d) = sd_oid d" for d by (simp add: hold_def)
  have s1: "scopes1 = map (\<lambda>d. if sd_oid d = sd_oid s then hold l now d else d) scopes" using step by blast
  have d1: "map sd_oid scopes1 = map sd_oid scopes" unfolding s1 by (simp add: oid)
  note IH = Cons.IH [OF rest]
  have s': "scopes' = map (\<lambda>d. if sd_oid d \<in> sd_oid ` set chain then hold l now d else d) scopes1"
    and g: "\<forall>s\<in>set chain. \<exists>d\<in>set scopes1. sd_oid d = sd_oid s \<and> can_hold l d"
    using IH Cons.prems(2,3) d1 by auto
  have new: "sd_oid s \<notin> sd_oid ` set chain" using Cons.prems(3) by simp
  have "scopes' = map (\<lambda>d. if sd_oid d \<in> sd_oid ` set (s # chain) then hold l now d else d) scopes"
    unfolding s' s1 using new by (auto simp: oid)
  moreover have "\<exists>d\<in>set scopes. sd_oid d = sd_oid t \<and> can_hold l d" if t: "t \<in> set (s # chain)" for t
  proof (cases "t = s")
    case False
    with t obtain d where "d \<in> set scopes1" "sd_oid d = sd_oid t" "can_hold l d" using g by auto
    moreover from this new t False have "sd_oid d \<noteq> sd_oid s" by force
    ultimately show ?thesis unfolding s1 by (auto simp: oid split: if_splits)
  qed (use step in auto)
  ultimately show ?case by blast
qed simp

lemma release_scopes_effect:
  assumes "release_scopes dr c l x now ids scopes = Inr scopes'" "distinct (map scope_ident scopes)" "distinct ids"
  shows "scopes' = map (\<lambda>d. if scope_ident d \<in> (\<lambda>i. (wc_user c, wc_route c, wc_run c, i)) ` set ids then release l x now d else d) scopes"
  using assms
proof (induction ids arbitrary: scopes)
  case (Cons i ids)
  let ?k = "\<lambda>i. (wc_user c, wc_route c, wc_run c, i)"
  let ?p = "\<lambda>d. scope_ident d = ?k i \<and> l \<le> sd_reserved d"
  obtain n scopes1 where u: "update_one (dr_scopes dr) ?p (release l x now) scopes = (n, scopes1)"
    by (cases "update_one (dr_scopes dr) ?p (release l x now) scopes")
  with Cons.prems(1) have n: "n = 1" and rest: "release_scopes dr c l x now ids scopes1 = Inr scopes'" by (auto split: if_splits)
  have ident: "scope_ident (release l x now d) = scope_ident d" for d by (simp add: release_def scope_ident_def)
  have s1: "scopes1 = map (\<lambda>d. if scope_ident d = ?k i then release l x now d else d) scopes"
    using scope_docs.update_by_key [OF u n Cons.prems(2)] by blast
  have d1: "map scope_ident scopes1 = map scope_ident scopes" unfolding s1 by (simp add: ident)
  have s': "scopes' = map (\<lambda>d. if scope_ident d \<in> ?k ` set ids then release l x now d else d) scopes1"
    using Cons.IH [OF rest] Cons.prems(2,3) d1 by simp
  have "?k i \<notin> ?k ` set ids" using Cons.prems(3) by auto
  then show ?case unfolding s' s1 by (auto simp: ident)
qed simp

end

lemma entries_match_other: "entry_key e \<noteq> reservation_ident r \<Longrightarrow> entries_match r (e # es) \<longleftrightarrow> entries_match r es"
  by (simp add: entries_match_def)

lemma unsettled_not_final [simp]: "required_status outcome \<in> {''reserved'', ''started''}" "required_status outcome \<notin> final_statuses"
  by (auto simp: required_status_def final_statuses_def)

text \<open>A document replaced in place, all others kept.\<close>

lemma reservations_ok_update:
  assumes "reservations_ok docs es" "docs' = map (\<lambda>d. if rv_oid d = k then f d else d) docs"
    and f: "\<And>d. same_reservation (f d) d \<and> reservation_ident (f d) = reservation_ident d"
    and mine: "\<And>d. d \<in> set docs \<Longrightarrow> rv_oid d = k \<Longrightarrow> entries_match d es \<Longrightarrow> entries_match (f d) (new @ es)"
    and other: "\<And>d. d \<in> set docs \<Longrightarrow> rv_oid d \<noteq> k \<Longrightarrow> \<forall>e\<in>set new. entry_key e \<noteq> reservation_ident d"
    and keys: "entry_key ` set new \<subseteq> reservation_ident ` set docs"
  shows "reservations_ok docs' (new @ es) \<and> (\<forall>d\<in>set docs. \<exists>d'\<in>set docs'. same_reservation d' d)"
proof -
  define g where "g = (\<lambda>d. if rv_oid d = k then f d else d)"
  have g: "rv_oid (g d) = rv_oid d" "reservation_ident (g d) = reservation_ident d" "rv_scopes (g d) = rv_scopes d"
    "same_reservation (g d) d" for d
    using f by (simp_all add: g_def same_reservation_def)
  have s: "docs' = map g docs" using assms(2) by (simp add: g_def)
  have skip: "entries_match d (new @ es)" if "\<forall>e\<in>set new. entry_key e \<noteq> reservation_ident d" "entries_match d es" for d
    using that by (induction new) (auto simp: entries_match_other)
  have "entries_match (g d) (new @ es)" if "d \<in> set docs" for d
    using mine [OF that] other [OF that] skip [of d] that assms(1) by (auto simp: g_def reservations_ok_def)
  moreover have "distinct (map rv_oid docs')" "distinct (map reservation_ident docs')"
    "reservation_ident ` set docs' = reservation_ident ` set docs"
    using assms(1) unfolding s reservations_ok_def by (simp_all add: g comp_def image_image)
  ultimately have "reservations_ok docs' (new @ es)" using assms(1) keys unfolding reservations_ok_def s by (auto simp: g)
  then show ?thesis using g(4) by (auto simp: s)
qed

lemma reservations_ok_insert:
  assumes "reservations_ok docs es" "\<forall>e\<in>set docs. \<not> reservation_clash e r" "distinct (rv_scopes r)" "rv_status r = ''reserved''"
  shows "reservations_ok (docs @ [r]) (Held (reservation_ident r) (scope_idents r) (rv_limit r) # es)"
proof -
  let ?e = "Held (reservation_ident r) (scope_idents r) (rv_limit r)"
  have new: "reservation_ident r \<notin> reservation_ident ` set docs" "rv_oid r \<notin> rv_oid ` set docs"
    using assms(2) by (auto simp: reservation_clash_def)
  have "filter (\<lambda>e. entry_key e = reservation_ident r) es = []"
  proof -
    have "entry_key e \<noteq> reservation_ident r" if "e \<in> set es" for e
      using imageI [OF that, of entry_key] assms(1) new(1) unfolding reservations_ok_def by auto
    then show ?thesis by (simp add: filter_empty_conv)
  qed
  then have "entries_match r (?e # es)" using assms(4) by (simp add: entries_match_def final_statuses_def)
  moreover have "entries_match d (?e # es)" if "d \<in> set docs" for d
    using that new(1) assms(1) entries_match_other [of ?e d es] by (auto simp: reservations_ok_def)
  ultimately show ?thesis using assms(1,3) new unfolding reservations_ok_def by auto
qed

context workflow_store
begin

lemma world_ok_runs:
  "world_ok w \<Longrightarrow> wd_scopes db = wd_scopes (ww_db w) \<Longrightarrow> wd_reservations db = wd_reservations (ww_db w) \<Longrightarrow>
     world_ok (w\<lparr>ww_db := db\<rparr>)"
  by (simp add: world_ok_def)

text \<open>Only scopes or only reservations change, without an entry.\<close>

lemma world_ok_scopes:
  assumes "world_ok w" "wd_reservations db = wd_reservations (ww_db w)" "scopes_ok (wd_scopes db) (ww_ledger w)"
    "\<forall>d\<in>set (wd_scopes (ww_db w)). \<exists>d'\<in>set (wd_scopes db). same_scope d' d"
  shows "world_ok (w\<lparr>ww_db := db\<rparr>)"
  using assms chain_known_mono [OF assms(4)] by (simp add: world_ok_def)

lemma world_ok_scope_inserted:
  assumes "world_ok w" "insert_one (dr_scopes dr) d (wd_scopes (ww_db w)) = Some scopes" "sd_spent d = Fin 0" "sd_reserved d = Fin 0"
    "wd_scopes db = scopes" "wd_reservations db = wd_reservations (ww_db w)"
  shows "world_ok (w\<lparr>ww_db := db\<rparr>)"
proof (rule world_ok_scopes [OF assms(1,6)])
  note i = scope_docs.insert_one [OF assms(2)]
  show "scopes_ok (wd_scopes db) (ww_ledger w)" unfolding assms(5) using i assms(1,3,4) scopes_ok_insert
    by (simp add: world_ok_def)
  show "\<forall>d\<in>set (wd_scopes (ww_db w)). \<exists>d'\<in>set (wd_scopes db). same_scope d' d"
    unfolding assms(5) using i by (auto simp: same_scope_def)
qed

lemma step_run:
  assumes "create_workflow_run dr fr fr_root ax b (ww_db w) = (res, db)" "world_ok w"
  shows "world_ok (w\<lparr>ww_db := db\<rparr>)"
proof (cases "db = ww_db w")
  case False
  with assms(1) obtain run_docs scopes d where "insert_one (dr_scopes dr) d (wd_scopes (ww_db w)) = Some scopes"
    "sd_spent d = Fin 0" "sd_reserved d = Fin 0" "db = ww_db w\<lparr>wd_runs := run_docs, wd_scopes := scopes\<rparr>"
    by (auto simp: create_workflow_run_def Let_def new_scope_def split: if_splits sum.splits option.splits)
  then show ?thesis using world_ok_scope_inserted [OF assms(2)] by simp
qed (use assms in simp)

lemma step_scope:
  assumes "add_scope dr fr u r n parent b (ww_db w) = (res, db)" "world_ok w"
  shows "world_ok (w\<lparr>ww_db := db\<rparr>)"
proof (cases "db = ww_db w")
  case False
  with assms(1) obtain scopes d where "insert_one (dr_scopes dr) d (wd_scopes (ww_db w)) = Some scopes"
    "sd_spent d = Fin 0" "sd_reserved d = Fin 0" "db = ww_db w\<lparr>wd_scopes := scopes\<rparr>"
    by (auto simp: add_scope_def Let_def new_scope_def split: if_splits option.splits)
  then show ?thesis using world_ok_scope_inserted [OF assms(2)] by simp
qed (use assms in simp)

lemma step_chain:
  assumes "workflow_scope_chain dr (ww_db w) u r n i = Inr (run, chain)" "world_ok w"
  shows "world_ok (w\<lparr>ww_chains := (u, r, n, chain) # ww_chains w\<rparr>)"
  using chain_walk [of "ww_db w" u r n i] assms
  by (auto simp: world_ok_def chain_known_def is_chain_def same_scope_def)

lemma step_read:
  assumes "workflow_reservation_from_claim dr (ww_db w) claim = Inr doc" "world_ok w"
  shows "world_ok (w\<lparr>ww_read := (claim, doc) # ww_read w\<rparr>)"
proof -
  from assms(1) have "find_one (dr_reservations dr) (claimed claim) (wd_reservations (ww_db w)) = Some doc"
    by (auto simp: workflow_reservation_from_claim_def split: if_splits option.splits)
  from reservation_docs.find_one_Some [OF this] have d: "doc \<in> set (wd_reservations (ww_db w))" "claimed claim doc" by auto
  then have "same_reservation doc doc" "(wc_user claim, wc_route claim, wc_run claim) = (rv_user doc, rv_route doc, rv_run doc)"
    by (auto simp: same_reservation_def claimed_def reservation_ident_def)
  then have "reservation_known (wd_reservations (ww_db w)) (claim, doc)" using d(1) unfolding reservation_known_def by blast
  with assms(2) show ?thesis by (simp add: world_ok_def)
qed

lemma world_ok_entry:
  assumes "world_ok w" "scopes_ok (wd_scopes db) es \<and> (\<forall>d\<in>set (wd_scopes (ww_db w)). \<exists>d'\<in>set (wd_scopes db). same_scope d' d)"
    "reservations_ok (wd_reservations db) es \<and>
     (\<forall>d\<in>set (wd_reservations (ww_db w)). \<exists>d'\<in>set (wd_reservations db). same_reservation d' d)"
  shows "world_ok (w\<lparr>ww_db := db, ww_ledger := es\<rparr>)"
  using assms(1,2,3) chain_known_mono [OF assms(2) [THEN conjunct2]] reservation_known_mono [OF assms(3) [THEN conjunct2]]
  by (simp add: world_ok_def)

lemma same_scope_ident_iff:
  assumes "distinct (map sd_oid scopes)" "\<forall>s\<in>set chain. \<exists>d\<in>set scopes. same_scope d s" "distinct (map scope_ident scopes)" "d \<in> set scopes"
  shows "sd_oid d \<in> sd_oid ` set chain \<longleftrightarrow> scope_ident d \<in> scope_ident ` set chain"
proof -
  have "sd_oid d = sd_oid s \<longleftrightarrow> scope_ident d = scope_ident s" if "s \<in> set chain" for s
  proof -
    obtain e where e: "e \<in> set scopes" "sd_oid e = sd_oid s" "scope_ident e = scope_ident s"
      using assms(2) \<open>s \<in> set chain\<close> by (auto simp: same_scope_def)
    show ?thesis using key_unique [OF assms(1) assms(4) e(1)] key_unique [OF assms(3,4) e(1)] e(2,3) by auto
  qed
  then show ?thesis by (auto simp: image_iff)
qed

lemma chain_oids:
  assumes "chain_known scopes (u, r, n, chain)" "distinct (map sd_oid scopes)" "distinct (map scope_ident scopes)"
  shows "distinct (map sd_oid chain)" "map scope_ident chain = map (\<lambda>i. (u, r, n, i)) (map sd_id chain)"
    "set (map scope_ident chain) \<subseteq> scope_ident ` set scopes"
proof -
  have k: "\<exists>d\<in>set scopes. same_scope d s" "scope_ident s = (u, r, n, sd_id s)" if "s \<in> set chain" for s
    using assms(1) that by (auto simp: chain_known_def)
  have "inj_on sd_oid (set chain)"
  proof (rule inj_onI)
    fix s t assume st: "s \<in> set chain" "t \<in> set chain" "sd_oid s = sd_oid t"
    obtain d e where "d \<in> set scopes" "e \<in> set scopes" "same_scope d s" "same_scope e t" using k(1) st by blast
    then have "scope_ident s = scope_ident t" using st(3) key_unique [OF assms(2), of d e] by (auto simp: same_scope_def)
    then have "sd_id s = sd_id t" using k(2) st by simp
    then show "s = t" using assms(1) st key_unique [of sd_id chain s t] by (simp add: chain_known_def)
  qed
  then show "distinct (map sd_oid chain)" using assms(1) by (auto simp: chain_known_def distinct_map)
  show "map scope_ident chain = map (\<lambda>i. (u, r, n, i)) (map sd_id chain)" using k(2) by simp
  show "set (map scope_ident chain) \<subseteq> scope_ident ` set scopes"
  proof
    fix x assume "x \<in> set (map scope_ident chain)"
    then obtain s where "s \<in> set chain" "x = scope_ident s" by auto
    with k(1) [of s] obtain d where "d \<in> set scopes" "x = scope_ident d" by (auto simp: same_scope_def)
    then show "x \<in> scope_ident ` set scopes" by (rule rev_image_eqI)
  qed
qed

lemma reserve_cases:
  assumes "reserve_workflow_call dr fr u r n chain model (Some a) call db = (Inr ex, db')"
  shows "\<exists>scopes docs doc. doc = new_reservation fr u r n chain model a call \<and>
    hold_scopes dr (au_call_limit_usd a) (fr_now fr) chain (wd_scopes db) = Inr scopes \<and>
    insert_one (dr_reservations dr) doc (wd_reservations db) = Some docs \<and> ex_reservation_id ex = rv_id doc \<and>
    ex_call_limit_usd ex = au_call_limit_usd a \<and> db' = db\<lparr>wd_scopes := scopes, wd_reservations := docs\<rparr>"
  using assms by (auto simp: reserve_workflow_call_def Let_def split: sum.splits option.splits)

text \<open>The scopes after a call is held, by the names of its chain.\<close>

lemma held_scopes:
  assumes "hold_scopes dr l now chain scopes = Inr scopes'" "chain_known scopes (u, r, n, chain)" "scopes_ok scopes es"
  shows "scopes' = map (\<lambda>d. if scope_ident d \<in> set (map scope_ident chain) then hold l now d else d) scopes"
    "\<forall>s\<in>set chain. \<exists>d\<in>set scopes. same_scope d s \<and> can_hold l d"
proof -
  have d: "distinct (map sd_oid scopes)" "distinct (map scope_ident scopes)" using assms(3) by (simp_all add: scopes_ok_def)
  have k: "\<forall>s\<in>set chain. \<exists>d\<in>set scopes. same_scope d s" using assms(2) by (simp add: chain_known_def)
  note e = hold_scopes_effect [OF assms(1) d(1) chain_oids(1) [OF assms(2) d]]
  show "scopes' = map (\<lambda>d. if scope_ident d \<in> set (map scope_ident chain) then hold l now d else d) scopes"
    using e same_scope_ident_iff [OF d(1) k d(2)] by (simp cong: map_cong)
  show "\<forall>s\<in>set chain. \<exists>d\<in>set scopes. same_scope d s \<and> can_hold l d"
  proof
    fix s assume s: "s \<in> set chain"
    obtain x where x: "x \<in> set scopes" "sd_oid x = sd_oid s" "can_hold l x" using e s by blast
    obtain y where y: "y \<in> set scopes" "same_scope y s" using k s by blast
    have "x = y" using x(1,2) y key_unique [OF d(1), of x y] by (auto simp: same_scope_def)
    then show "\<exists>d\<in>set scopes. same_scope d s \<and> can_hold l d" using x y by blast
  qed
qed

lemma step_reserve:
  assumes "(u, r, n, chain) \<in> set (ww_chains w)"
    and "reserve_workflow_call dr fr u r n chain model (Some a) call (ww_db w) = (Inr ex, db)" and w: "world_ok w"
  shows "world_ok (w\<lparr>ww_db := db,
    ww_ledger := Held (u, r, n, ex_reservation_id ex) (map scope_ident chain) (au_call_limit_usd a) # ww_ledger w\<rparr>)"
proof -
  obtain scopes docs doc where c: "doc = new_reservation fr u r n chain model a call"
    "hold_scopes dr (au_call_limit_usd a) (fr_now fr) chain (wd_scopes (ww_db w)) = Inr scopes"
    "insert_one (dr_reservations dr) doc (wd_reservations (ww_db w)) = Some docs" "ex_reservation_id ex = rv_id doc"
    "db = ww_db w\<lparr>wd_scopes := scopes, wd_reservations := docs\<rparr>"
    using reserve_cases [OF assms(2)] by blast
  have ok: "scopes_ok (wd_scopes (ww_db w)) (ww_ledger w)" "reservations_ok (wd_reservations (ww_db w)) (ww_ledger w)"
    "chain_known (wd_scopes (ww_db w)) (u, r, n, chain)" using w assms(1) by (auto simp: world_ok_def)
  have d: "distinct (map sd_oid (wd_scopes (ww_db w)))" "distinct (map scope_ident (wd_scopes (ww_db w)))"
    using ok(1) by (simp_all add: scopes_ok_def)
  note chain = chain_oids [OF ok(3) d]
  let ?e = "Held (u, r, n, ex_reservation_id ex) (map scope_ident chain) (au_call_limit_usd a)"
  have s: "scopes_ok scopes (?e # ww_ledger w) \<and> (\<forall>d\<in>set (wd_scopes (ww_db w)). \<exists>d'\<in>set scopes. same_scope d' d)"
    by (rule scopes_ok_entry [OF ok(1), where f = "hold (au_call_limit_usd a) (fr_now fr)"])
      (use chain(3) held_scopes(1) [OF c(2) ok(3,1)] in \<open>auto simp: hold_def scope_ident_def\<close>)
  note i = reservation_docs.insert_one [OF c(3)]
  have e: "?e = Held (reservation_ident doc) (scope_idents doc) (rv_limit doc)"
    using chain(2) by (simp add: c(1,4) new_reservation_def reservation_ident_def scope_idents_def)
  have "reservations_ok docs (?e # ww_ledger w)" unfolding e i [THEN conjunct1]
    by (rule reservations_ok_insert [OF ok(2)]) (use i ok(3) in \<open>auto simp: c(1) new_reservation_def chain_known_def\<close>)
  moreover have "\<forall>d\<in>set (wd_reservations (ww_db w)). \<exists>d'\<in>set docs. same_reservation d' d"
    using i by (auto simp: same_reservation_def)
  ultimately show ?thesis using s by (intro world_ok_entry [OF w]) (simp_all add: c(5))
qed

lemma step_start:
  assumes "(claim, doc) \<in> set (ww_read w)" "start_read_reservation dr now doc (ww_db w) = (res, db)" and w: "world_ok w"
  shows "world_ok (w\<lparr>ww_db := db\<rparr>)"
proof (cases "db = ww_db w")
  case False
  let ?docs = "wd_reservations (ww_db w)"
  let ?p = "\<lambda>d. rv_oid d = rv_oid doc \<and> rv_status d = ''reserved''"
  obtain x docs where f: "find_one_and_update (dr_reservations dr) ?p (begin_call now) ?docs = (x, docs)"
    by (cases "find_one_and_update (dr_reservations dr) ?p (begin_call now) ?docs")
  with assms(2) False obtain updated where u: "x = Some updated" "db = ww_db w\<lparr>wd_reservations := docs\<rparr>"
    by (auto simp: start_read_reservation_def split: if_splits option.splits)
  have ok: "reservations_ok ?docs (ww_ledger w)" using w by (simp add: world_ok_def)
  then have d: "distinct (map rv_oid ?docs)" by (simp add: reservations_ok_def)
  note e = reservation_docs.find_update_by_key [OF f [unfolded u(1)] d]
  have only: "rv_status x = ''reserved''" if "x \<in> set ?docs" "rv_oid x = rv_oid doc" for x
    using e key_unique [OF d that(1)] that(2) by auto
  have "reservations_ok docs ([] @ ww_ledger w) \<and> (\<forall>d\<in>set ?docs. \<exists>d'\<in>set docs. same_reservation d' d)"
    by (rule reservations_ok_update [OF ok e [THEN conjunct1]])
      (auto simp: begin_call_def same_reservation_def reservation_ident_def entries_match_def scope_idents_def final_statuses_def
         dest!: only)
  then show ?thesis using w reservation_known_mono [of ?docs docs] unfolding world_ok_def by (simp add: u(2))
qed (use w in simp)

lemma step_settle:
  assumes "(claim, doc) \<in> set (ww_read w)" "outcome \<in> final_statuses" "finalize_plan doc spend outcome = Inr (Some debit)"
    and "finalize_commit dr now claim doc debit outcome (ww_db w) = (Inr res, db)" and w: "world_ok w"
  shows "world_ok (w\<lparr>ww_db := db,
    ww_ledger := Paid (reservation_ident doc) (scope_idents doc) (rv_limit doc) debit # ww_ledger w\<rparr>)"
proof -
  let ?docs = "wd_reservations (ww_db w)" and ?scopes = "wd_scopes (ww_db w)"
  let ?p = "\<lambda>d. rv_oid d = rv_oid doc \<and> rv_status d = required_status outcome"
  let ?e = "Paid (reservation_ident doc) (scope_idents doc) (rv_limit doc) debit"
  from assms(4) obtain scopes docs where
    r: "release_scopes dr claim (rv_limit doc) debit now (rv_scopes doc) ?scopes = Inr scopes"
    and f: "find_one_and_update (dr_reservations dr) ?p (settle_doc outcome debit now) ?docs = (Some res, docs)"
    and db: "db = ww_db w\<lparr>wd_scopes := scopes, wd_reservations := docs\<rparr>"
    by (auto simp: finalize_commit_def split: sum.splits prod.splits option.splits)
  have ok: "scopes_ok ?scopes (ww_ledger w)" "reservations_ok ?docs (ww_ledger w)" "reservation_known ?docs (claim, doc)"
    using w assms(1) by (auto simp: world_ok_def)
  then obtain d0 where d0: "d0 \<in> set ?docs" "same_reservation d0 doc"
    and claim: "(wc_user claim, wc_route claim, wc_run claim) = (rv_user doc, rv_route doc, rv_run doc)"
    by (auto simp: reservation_known_def)
  have d: "distinct (map rv_oid ?docs)" "distinct (map reservation_ident ?docs)" "distinct (map scope_ident ?scopes)"
    using ok by (simp_all add: reservations_ok_def scopes_ok_def)
  have same: "scope_idents d0 = scope_idents doc" "rv_limit d0 = rv_limit doc" "reservation_ident d0 = reservation_ident doc"
    "rv_oid d0 = rv_oid doc"
    using d0(2) by (auto simp: same_reservation_def scope_idents_def reservation_ident_def)
  have only: "x = d0" if "x \<in> set ?docs" "rv_oid x = rv_oid doc" for x
    using key_unique [OF d(1) that(1) d0(1)] that(2) same(4) by simp
  note upd = reservation_docs.find_update_by_key [OF f d(1)]
  have status: "rv_status d0 = required_status outcome" using upd only by auto
  have match: "entries_match d0 (ww_ledger w)" "distinct (rv_scopes d0)" using ok(2) d0(1) by (auto simp: reservations_ok_def)
  then have mine: "filter (\<lambda>e. entry_key e = reservation_ident doc) (ww_ledger w) = [Held (reservation_ident doc) (scope_idents doc) (rv_limit doc)]"
    using status same by (simp add: entries_match_def Let_def)
  have charge: "charge_ok (rv_limit doc) debit" using assms(3)
    by (auto simp: finalize_plan_def charge_ok_def Let_def refuse_def split: if_splits)
  have "set (scope_idents doc) \<subseteq> scope_ident ` set ?scopes"
  proof -
    have "Held (reservation_ident doc) (scope_idents doc) (rv_limit doc) \<in> set (ww_ledger w)"
      using mine by (metis filter_is_subset list.set_intros(1) subsetD)
    then show ?thesis using ok(1) unfolding scopes_ok_def by fastforce
  qed
  moreover have keys: "set (scope_idents doc) = (\<lambda>i. (wc_user claim, wc_route claim, wc_run claim, i)) ` set (rv_scopes doc)"
    using claim by (auto simp: scope_idents_def)
  moreover have "distinct (rv_scopes doc)" using match(2) d0(2) by (simp add: same_reservation_def)
  note rel = release_scopes_effect [OF r d(3) this]
  ultimately have s: "scopes_ok scopes (?e # ww_ledger w) \<and> (\<forall>d\<in>set ?scopes. \<exists>d'\<in>set scopes. same_scope d' d)"
    by (intro scopes_ok_entry [OF ok(1), where f = "release (rv_limit doc) debit now"])
      (use rel in \<open>auto simp: release_def scope_ident_def\<close>)
  have "reservations_ok docs ([?e] @ ww_ledger w) \<and> (\<forall>d\<in>set ?docs. \<exists>d'\<in>set docs. same_reservation d' d)"
  proof (rule reservations_ok_update [OF ok(2) upd [THEN conjunct1]])
    show "same_reservation (settle_doc outcome debit now d) d \<and> reservation_ident (settle_doc outcome debit now d) = reservation_ident d" for d
      by (simp add: settle_doc_def same_reservation_def reservation_ident_def)
    show "entries_match (settle_doc outcome debit now x) ([?e] @ ww_ledger w)" if "x \<in> set ?docs" "rv_oid x = rv_oid doc" for x
      using only [OF that] mine same charge assms(2)
      by (simp add: entries_match_def settle_doc_def reservation_ident_def scope_idents_def)
    show "\<forall>e\<in>set [?e]. entry_key e \<noteq> reservation_ident x" if "x \<in> set ?docs" "rv_oid x \<noteq> rv_oid doc" for x
      using that same(3,4) key_unique [OF d(2) d0(1), of x] by auto
    show "entry_key ` set [?e] \<subseteq> reservation_ident ` set ?docs" using imageI [OF d0(1), of reservation_ident] same(3) by simp
  qed
  then show ?thesis using s by (intro world_ok_entry [OF w]) (simp_all add: db)
qed

lemma step_close:
  assumes "close_one_scope dr now u r n i status (ww_db w) = (res, db)" and w: "world_ok w"
  shows "world_ok (w\<lparr>ww_db := db\<rparr>)"
proof -
  let ?p = "\<lambda>d. scope_ident d = (u, r, n, i) \<and> sd_status d = ''active''"
  obtain k scopes where u: "update_one (dr_scopes dr) ?p (close_scope status now) (wd_scopes (ww_db w)) = (k, scopes)"
    by (cases "update_one (dr_scopes dr) ?p (close_scope status now) (wd_scopes (ww_db w))")
  with assms(1) have db: "db = ww_db w\<lparr>wd_scopes := scopes\<rparr>" by (simp add: close_one_scope_def)
  have "scope_key (close_scope status now d) = scope_key d" for d by (simp add: scope_key_def close_scope_def scope_ident_def)
  then have "map scope_key scopes = map scope_key (wd_scopes (ww_db w))" using scope_docs.update_one [OF u] by auto
  from scopes_ok_frame [OF _ this] show ?thesis using w by (intro world_ok_scopes [OF w]) (auto simp: db world_ok_def)
qed

lemma step_close_all:
  assumes w: "world_ok w"
  shows "world_ok (w\<lparr>ww_db := close_run_scopes dr now u r n status (ww_db w)\<rparr>)"
proof -
  have "scope_key (close_scope status now d) = scope_key d" for d by (simp add: scope_key_def close_scope_def scope_ident_def)
  then have "map scope_key (wd_scopes (close_run_scopes dr now u r n status (ww_db w))) = map scope_key (wd_scopes (ww_db w))"
    by (simp add: close_run_scopes_def scope_docs.update_many)
  from scopes_ok_frame [OF _ this] show ?thesis using w by (intro world_ok_scopes [OF w]) (auto simp: close_run_scopes_def world_ok_def)
qed

lemma step_ok: "workflow_step dr w w' \<Longrightarrow> world_ok w \<Longrightarrow> world_ok w'"
proof (induction rule: workflow_step.induct)
  case (w_close_run status now u r n w res db)
  then show ?case by (auto simp: close_run_def intro!: world_ok_runs split: prod.splits)
qed (blast intro: step_run step_chain step_scope step_reserve step_read step_start step_settle step_close step_close_all)+

lemma reachable_ok: "workflow_reachable dr w \<Longrightarrow> world_ok w"
proof (induction rule: workflow_reachable.induct)
  case w_empty
  show ?case by (simp add: world_ok_def empty_world_def scopes_ok_def reservations_ok_def)
qed (rule step_ok)

end

section \<open>What is left of a scope\<close>

text \<open>
  The guard of a hold is computed in floats: what is held and spent afterwards exceeds the
  maximum by at most the rounding of one subtraction.
\<close>

definition held_within :: "pyfloat \<Rightarrow> scope_doc \<Rightarrow> bool" where
  "held_within call_limit d \<longleftrightarrow> (\<forall>l m t x. call_limit = Fin l \<and> sd_max d = Fin m \<and> sd_spent d + sd_reserved d = Fin t \<and>
     Fin m - Fin t = Fin x \<and> 0 \<le> t \<and> scale2 (- 1000) \<le> l \<longrightarrow> t + l \<le> m * (1 + scale2 (- 53)))"

lemma can_hold_exact:
  assumes "can_hold (Fin l) d" "sd_max d = Fin m" "sd_spent d + sd_reserved d = Fin t" "Fin m - Fin t = Fin a"
    and "0 \<le> t" "scale2 (- 1000) \<le> l"
  shows "t + l \<le> m * (1 + scale2 (- 53))"
proof -
  have a: "a = rnd (m - t)" using assms(4) by (simp add: Fin_sub fl_Fin)
  have la: "l \<le> a" using assms(1,4) by (simp add: can_hold_def assms(2,3))
  have "is_double (scale2 (- 1001))" using rnd_exact [of 1 "- 1001"] by (simp add: is_double_def)
  moreover have "scale2 (- 1001) < scale2 (- 1000)" by (rule scale2_strict) simp
  ultimately have big: "scale2 (- 1001) < m - t" using rnd_large [of "scale2 (- 1001)" "m - t"] la assms(6) a by linarith
  then have "a \<le> (m - t) * (1 + scale2 (- 53))" unfolding a
    using scale2_mono [of "- 1022" "- 1001"] by (intro rnd_upper) linarith
  then have "t + l \<le> t + (m - t) * (1 + scale2 (- 53))" using la by linarith
  also have "\<dots> = m + (m - t) * scale2 (- 53)" by (simp add: algebra_simps)
  also have "\<dots> \<le> m + m * scale2 (- 53)" using assms(5) by (simp add: mult_right_mono less_imp_le [OF scale2_pos])
  finally show ?thesis by (simp add: algebra_simps)
qed

section \<open>Properties\<close>

text \<open>
  Property C5. The workflow store keeps a ledger. Whatever order the database accesses of
  concurrent requests take, and however old what they read, what a scope has spent and holds in
  reserve is exactly what the ledger books on it, entry by entry; every reservation is held
  once, for its limit and in the scopes of its chain, and is paid at most once, when it is
  settled, failed or cancelled, with an amount that is not negative and within its limit; no
  entry belongs to anything else.
\<close>

theorem workflow_ledger:
  assumes "workflow_store dr" "workflow_reachable dr w"
  shows "(\<forall>d\<in>set (wd_scopes (ww_db w)). book (scope_ident d) (ww_ledger w) = (sd_spent d, sd_reserved d)) \<and>
    (\<forall>r\<in>set (wd_reservations (ww_db w)). entries_match r (ww_ledger w)) \<and>
    entry_key ` set (ww_ledger w) \<subseteq> reservation_ident ` set (wd_reservations (ww_db w)) \<and>
    distinct (map scope_ident (wd_scopes (ww_db w))) \<and> distinct (map reservation_ident (wd_reservations (ww_db w)))"
  using workflow_store.reachable_ok [OF assms] by (simp add: world_ok_def scopes_ok_def reservations_ok_def)

text \<open>
  Property C6. A call is held only where its limit fits. A reservation succeeds only if every
  scope of its chain, as the database has it, is active and its limit is within what the
  maximum leaves after spending and reservations (exactly up to the rounding of one
  subtraction); the limit is then added to each scope of the chain and to no other, and a failed
  reservation changes nothing.
\<close>

theorem reserved_within_budget:
  assumes "workflow_store dr" "workflow_reachable dr w" "(u, r, n, chain) \<in> set (ww_chains w)"
    and "reserve_workflow_call dr fr u r n chain model (Some a) call (ww_db w) = (res, db)"
  shows "case res of
      Inl e \<Rightarrow> db = ww_db w
    | Inr ex \<Rightarrow> ex_call_limit_usd ex = au_call_limit_usd a \<and>
        wd_scopes db = map (\<lambda>d. if scope_ident d \<in> set (map scope_ident chain) then hold (au_call_limit_usd a) (fr_now fr) d else d)
          (wd_scopes (ww_db w)) \<and>
        (\<forall>s\<in>set chain. \<exists>d\<in>set (wd_scopes (ww_db w)). scope_ident d = scope_ident s \<and> can_hold (au_call_limit_usd a) d \<and>
          held_within (au_call_limit_usd a) d)"
proof (cases res)
  case (Inl e)
  then show ?thesis using assms(4)
    by (auto simp: reserve_workflow_call_def Let_def split: sum.splits option.splits)
next
  case (Inr ex)
  have ok: "scopes_ok (wd_scopes (ww_db w)) (ww_ledger w)" "chain_known (wd_scopes (ww_db w)) (u, r, n, chain)"
    using workflow_store.reachable_ok [OF assms(1,2)] assms(3) by (auto simp: world_ok_def)
  obtain scopes docs where c: "hold_scopes dr (au_call_limit_usd a) (fr_now fr) chain (wd_scopes (ww_db w)) = Inr scopes"
    "ex_call_limit_usd ex = au_call_limit_usd a" "db = ww_db w\<lparr>wd_scopes := scopes, wd_reservations := docs\<rparr>"
    using workflow_store.reserve_cases [OF assms(1) assms(4) [unfolded Inr]] by blast
  note held = workflow_store.held_scopes [OF assms(1) c(1) ok(2,1)]
  have "\<exists>d\<in>set (wd_scopes (ww_db w)). scope_ident d = scope_ident s \<and> can_hold (au_call_limit_usd a) d" if "s \<in> set chain" for s
    using held(2) that by (auto simp: same_scope_def)
  moreover have "held_within (au_call_limit_usd a) d" if "can_hold (au_call_limit_usd a) d" for d
    using can_hold_exact that unfolding held_within_def by metis
  ultimately show ?thesis unfolding Inr sum.case c(2) using held(1) by (auto simp: c(3))
qed

text \<open>
  Property C34. The walk to the root of a run always ends, and a chain it returns is a path from
  an active scope of the run up to the root of the active run, without repetition, all of its
  scopes active; every other answer is an error of the service's own.
\<close>

theorem scope_chain_walk:
  assumes "workflow_store dr"
  shows "case workflow_scope_chain dr db user_id route_id run_id scope_id of
      Inl e \<Rightarrow> \<exists>status detail. e = HTTPException status detail
    | Inr (run, chain) \<Rightarrow> run \<in> set (wd_runs db) \<and> rn_status run = ''active'' \<and>
        (rn_user run, rn_route run, rn_id run) = (user_id, route_id, run_id) \<and> is_chain chain scope_id \<and>
        sd_id (hd chain) = rn_root_scope run \<and>
        (\<forall>s\<in>set chain. s \<in> set (wd_scopes db) \<and> scope_ident s = (user_id, route_id, run_id, sd_id s))"
  by (rule workflow_store.chain_walk [OF assms])

section \<open>A concrete store\<close>

definition fresh_at :: "nat \<Rightarrow> fresh" where
  "fresh_at n = \<lparr>fr_oid = n, fr_hex = show_nat n, fr_now = int n\<rparr>"

definition sample_auth :: auth_context where
  "sample_auth = \<lparr>ax_user = Some ''ada'', ax_route = Some ''r''\<rparr>"

definition sample_run_body :: run_body where
  "sample_run_body = \<lparr>rb_route_id = ''r'', rb_name = ''job'', rb_goal = ''goal'', rb_max_usd = Fin 1\<rparr>"

definition run_db :: workflow_db where
  "run_db = snd (create_workflow_run list_driver (fresh_at 1) (fresh_at 2) sample_auth sample_run_body (ww_db empty_world))"

definition root_scope :: scope_doc where
  "root_scope = hd (wd_scopes run_db)"

definition limit_of :: "rat \<Rightarrow> authorization" where
  "limit_of x = \<lparr>au_call_limit_usd = fl x, au_input_reserve_usd = Fin 0, au_max_output_tokens = 10\<rparr>"

definition sample_model :: json where
  "sample_model = JObj [(''model_id'', JStr ''m''), (''provider'', JStr ''openai'')]"

definition reserve_sample :: "nat \<Rightarrow> rat \<Rightarrow> workflow_db \<Rightarrow> execution http \<times> workflow_db" where
  "reserve_sample k x db = reserve_workflow_call list_driver (fresh_at k) ''ada'' ''r'' ''wrun_1'' [root_scope] sample_model
     (Some (limit_of x)) (show_nat k) db"

definition sample_claim :: "nat \<Rightarrow> rat \<Rightarrow> workflow_claim" where
  "sample_claim k x = \<lparr>wc_version = 2, wc_user = ''ada'', wc_route = ''r'', wc_run = ''wrun_1'', wc_scope = ''wscope_2'',
     wc_reservation = ''wfr_'' @ show_nat k, wc_call = show_nat k, wc_model = ''m'', wc_provider = ''openai'',
     wc_limit = fl x, wc_max_tokens = 10\<rparr>"

definition root_with :: "pyfloat \<Rightarrow> pyfloat \<Rightarrow> int \<Rightarrow> scope_doc" where
  "root_with spent reserved now =
     \<lparr>sd_oid = 2, sd_id = ''wscope_2'', sd_user = ''ada'', sd_route = ''r'', sd_run = ''wrun_1'', sd_parent = None, sd_name = ''job'',
      sd_goal = ''goal'', sd_max = Fin 1, sd_spent = spent, sd_reserved = reserved, sd_status = ''active'', sd_created = 2,
      sd_updated = now, sd_finished = None\<rparr>"

lemma run_db_scopes: "wd_scopes run_db = [root_with (Fin 0) (Fin 0) 2]" "wd_reservations run_db = []"
  by code_simp+

lemma run_db_runs: "map (\<lambda>d. (rn_id d, rn_status d)) (wd_runs run_db) = [(''wrun_1'', ''active'')]"
  by code_simp

definition sample_doc :: "nat \<Rightarrow> rat \<Rightarrow> string \<Rightarrow> pyfloat option \<Rightarrow> int \<Rightarrow> int option \<Rightarrow> int option \<Rightarrow> reservation_doc" where
  "sample_doc k x status spend updated started finished =
     \<lparr>rv_oid = k, rv_id = ''wfr_'' @ show_nat k, rv_user = ''ada'', rv_route = ''r'', rv_run = ''wrun_1'', rv_scope = ''wscope_2'',
      rv_scopes = [''wscope_2''], rv_call = show_nat k, rv_status = status, rv_limit = fl x, rv_max_tokens = 10,
      rv_model = JStr ''m'', rv_provider = ''openai'', rv_spend = spend, rv_created = int k, rv_updated = updated,
      rv_started = started, rv_finished = finished\<rparr>"

definition sample_db :: "scope_doc list \<Rightarrow> reservation_doc list \<Rightarrow> workflow_db" where
  "sample_db scopes docs = \<lparr>wd_runs = wd_runs run_db, wd_scopes = scopes, wd_reservations = docs\<rparr>"

lemma sample_floats:
  "fl (1 / 100) = Fin (5764607523034235 / 576460752303423488)"
  "fl (1 / 50) = Fin (5764607523034235 / 288230376151711744)"
  by code_simp+

lemma first_reserved:
  "snd (reserve_sample 3 (1 / 100) run_db) = sample_db [root_with (Fin 0) (fl (1 / 100)) 3] [sample_doc 3 (1 / 100) ''reserved'' None 3 None None]"
  by code_simp

definition two_calls :: workflow_db where
  "two_calls = snd (reserve_sample 4 (1 / 50) (snd (reserve_sample 3 (1 / 100) run_db)))"

lemma two_calls_db:
  "two_calls = sample_db [root_with (Fin 0) (fl (1 / 100) + fl (1 / 50)) 4]
     [sample_doc 3 (1 / 100) ''reserved'' None 3 None None, sample_doc 4 (1 / 50) ''reserved'' None 4 None None]"
  unfolding two_calls_def first_reserved by code_simp

definition start_both :: "workflow_db \<Rightarrow> workflow_db" where
  "start_both db = snd (start_workflow_reservation list_driver 5 sample_auth (sample_claim 4 (1 / 50))
     (snd (start_workflow_reservation list_driver 5 sample_auth (sample_claim 3 (1 / 100)) db)))"

lemma both_started:
  "start_both two_calls = sample_db [root_with (Fin 0) (fl (1 / 100) + fl (1 / 50)) 4]
     [sample_doc 3 (1 / 100) ''started'' None 5 (Some 5) None, sample_doc 4 (1 / 50) ''started'' None 5 (Some 5) None]"
  unfolding two_calls_db by code_simp

definition settle_first :: "workflow_db \<Rightarrow> workflow_db" where
  "settle_first db = snd (finalize_workflow_reservation list_driver 6 (sample_claim 3 (1 / 100)) (fl (1 / 100)) ''settled'' db)"

lemma first_settled:
  "settle_first (start_both two_calls) =
     sample_db [root_with (fl (1 / 100)) (fl (1 / 100) + fl (1 / 50) + - fl (1 / 100)) 6]
     [sample_doc 3 (1 / 100) ''settled'' (Some (fl (1 / 100))) 6 (Some 5) (Some 6),
      sample_doc 4 (1 / 50) ''started'' None 5 (Some 5) None]"
  unfolding both_started by code_simp

definition conflict :: "'a http" where
  "conflict = refuse 409 ''workflow_scope_settlement_conflict'' [(''budget_scope_id'', JStr ''wscope_2'')]"

lemma second_not_settled:
  "fst (finalize_workflow_reservation list_driver 7 (sample_claim 4 (1 / 50)) (fl (1 / 50)) ''settled''
     (settle_first (start_both two_calls))) = conflict"
  unfolding first_settled by code_simp

lemma second_not_failed:
  "fst (fail_workflow_reservation list_driver 7 sample_auth (sample_claim 4 (1 / 50)) (settle_first (start_both two_calls))) = conflict"
  unfolding first_settled by code_simp

lemma run_not_finished:
  "fst (finish_workflow_run list_driver 7 sample_auth ''wrun_1'' ''completed'' (settle_first (start_both two_calls))) =
     refuse 409 ''workflow_run_has_unsettled_reservations'' []"
  unfolding first_settled by code_simp

text \<open>
  Two calls that started and fit their scope; the first is settled for its limit. What the scope
  then holds has been rounded to just below the limit of the second, so the second is refused
  for ever: it can neither be settled nor failed, and its run cannot be finished.
\<close>

lemma rounding_blocks_settlement:
  "let db = settle_first (start_both two_calls) in
   map rv_status (wd_reservations two_calls) = [''reserved'', ''reserved''] \<and>
   map rv_status (wd_reservations db) = [''settled'', ''started''] \<and>
   fst (finalize_workflow_reservation list_driver 7 (sample_claim 4 (1 / 50)) (fl (1 / 50)) ''settled'' db) = conflict \<and>
   fst (fail_workflow_reservation list_driver 7 sample_auth (sample_claim 4 (1 / 50)) db) = conflict \<and>
   fst (finish_workflow_run list_driver 7 sample_auth ''wrun_1'' ''completed'' db) = refuse 409 ''workflow_run_has_unsettled_reservations'' []"
proof -
  have "map rv_status (wd_reservations two_calls) = [''reserved'', ''reserved'']"
    by (simp add: two_calls_db sample_db_def sample_doc_def)
  moreover have "map rv_status (wd_reservations (settle_first (start_both two_calls))) = [''settled'', ''started'']"
    unfolding first_settled by (simp add: sample_db_def sample_doc_def)
  ultimately show ?thesis unfolding Let_def using second_not_settled second_not_failed run_not_finished by blast
qed

section \<open>Witnesses\<close>

definition run_world :: workflow_world where
  "run_world = empty_world\<lparr>ww_db := run_db\<rparr>"

definition chain_world :: workflow_world where
  "chain_world = run_world\<lparr>ww_chains := [(''ada'', ''r'', ''wrun_1'', [root_scope])]\<rparr>"

lemma root_scope_eq: "root_scope = root_with (Fin 0) (Fin 0) 2"
  by (simp add: root_scope_def run_db_scopes)

lemma run_reachable: "workflow_reachable list_driver run_world"
proof -
  have "create_workflow_run list_driver (fresh_at 1) (fresh_at 2) sample_auth sample_run_body (ww_db empty_world) =
      (fst (create_workflow_run list_driver (fresh_at 1) (fresh_at 2) sample_auth sample_run_body (ww_db empty_world)), run_db)"
    by (simp add: run_db_def)
  from w_next [OF w_empty w_run [OF this]] show ?thesis by (simp add: run_world_def)
qed

lemma root_chain: "\<exists>run. workflow_scope_chain list_driver run_db ''ada'' ''r'' ''wrun_1'' ''wscope_2'' = Inr (run, [root_scope])"
proof -
  have "case workflow_scope_chain list_driver run_db ''ada'' ''r'' ''wrun_1'' ''wscope_2'' of
      Inl _ \<Rightarrow> False | Inr (run, chain) \<Rightarrow> chain = [root_scope]"
    unfolding root_scope_eq by code_simp
  then show ?thesis by (auto split: sum.splits)
qed

lemma chain_reachable: "workflow_reachable list_driver chain_world"
proof -
  obtain run where "workflow_scope_chain list_driver (ww_db run_world) ''ada'' ''r'' ''wrun_1'' ''wscope_2'' = Inr (run, [root_scope])"
    using root_chain by (auto simp: run_world_def)
  from w_next [OF run_reachable w_chain [OF this]] show ?thesis by (simp add: chain_world_def run_world_def empty_world_def)
qed

lemma first_reserve_ok: "\<exists>ex. reserve_sample 3 (1 / 100) run_db = (Inr ex, snd (reserve_sample 3 (1 / 100) run_db))"
proof -
  have "is_ok (fst (reserve_sample 3 (1 / 100) run_db))" by code_simp
  then show ?thesis by (metis is_ok_iff prod.collapse)
qed

lemma held_reachable:
  "\<exists>w. workflow_reachable list_driver w \<and> length (ww_ledger w) = 1 \<and> wd_scopes (ww_db w) = [root_with (Fin 0) (fl (1 / 100)) 3]"
proof -
  obtain ex where ex: "reserve_workflow_call list_driver (fresh_at 3) ''ada'' ''r'' ''wrun_1'' [root_scope] sample_model
      (Some (limit_of (1 / 100))) (show_nat 3) (ww_db chain_world) =
      (Inr ex, sample_db [root_with (Fin 0) (fl (1 / 100)) 3] [sample_doc 3 (1 / 100) ''reserved'' None 3 None None])"
    using first_reserve_ok unfolding first_reserved by (auto simp: reserve_sample_def chain_world_def run_world_def)
  have "(''ada'', ''r'', ''wrun_1'', [root_scope]) \<in> set (ww_chains chain_world)" by (simp add: chain_world_def)
  from w_next [OF chain_reachable w_reserve [OF this ex]] show ?thesis
    by (intro exI conjI) (assumption, simp_all add: sample_db_def chain_world_def run_world_def empty_world_def)
qed

theorem workflow_ledger_witness:
  "\<exists>w. workflow_reachable list_driver w \<and> length (ww_ledger w) = 1 \<and>
     map (\<lambda>d. book (scope_ident d) (ww_ledger w)) (wd_scopes (ww_db w)) = [(Fin 0, fl (1 / 100))]"
proof -
  obtain w where w: "workflow_reachable list_driver w" "length (ww_ledger w) = 1"
    "wd_scopes (ww_db w) = [root_with (Fin 0) (fl (1 / 100)) 3]"
    using held_reachable by blast
  from workflow_ledger [OF listed_store.workflow_store_axioms w(1)]
  have "book (scope_ident (root_with (Fin 0) (fl (1 / 100)) 3)) (ww_ledger w) = (Fin 0, fl (1 / 100))"
    unfolding w(3) by (simp add: root_with_def)
  then show ?thesis using w by auto
qed

theorem reserved_within_budget_witness:
  "\<exists>ex db. reserve_sample 3 (1 / 100) run_db = (Inr ex, db) \<and> wd_scopes db = [root_with (Fin 0) (Fin 0 + fl (1 / 100)) 3]"
proof -
  obtain ex where ex: "reserve_sample 3 (1 / 100) run_db = (Inr ex, snd (reserve_sample 3 (1 / 100) run_db))"
    using first_reserve_ok by blast
  have r: "reserve_workflow_call list_driver (fresh_at 3) ''ada'' ''r'' ''wrun_1'' [root_scope] sample_model
      (Some (limit_of (1 / 100))) (show_nat 3) (ww_db chain_world) = (Inr ex, snd (reserve_sample 3 (1 / 100) run_db))"
    using ex by (simp add: reserve_sample_def chain_world_def run_world_def)
  have "(''ada'', ''r'', ''wrun_1'', [root_scope]) \<in> set (ww_chains chain_world)" by (simp add: chain_world_def)
  from reserved_within_budget [OF listed_store.workflow_store_axioms chain_reachable this r]
  have "wd_scopes (snd (reserve_sample 3 (1 / 100) run_db)) = [root_with (Fin 0) (Fin 0 + fl (1 / 100)) 3]"
    by (simp add: chain_world_def run_world_def run_db_scopes root_scope_eq hold_def limit_of_def fresh_at_def root_with_def)
  then show ?thesis using ex by blast
qed

theorem scope_chain_walk_witness:
  "\<exists>run chain. workflow_scope_chain list_driver run_db ''ada'' ''r'' ''wrun_1'' ''wscope_2'' = Inr (run, chain) \<and>
     is_chain chain ''wscope_2'' \<and> sd_id (hd chain) = rn_root_scope run"
proof -
  obtain run where c: "workflow_scope_chain list_driver run_db ''ada'' ''r'' ''wrun_1'' ''wscope_2'' = Inr (run, [root_scope])"
    using root_chain by blast
  from scope_chain_walk [OF listed_store.workflow_store_axioms, of run_db "''ada''" "''r''" "''wrun_1''" "''wscope_2''"] c
  show ?thesis by auto
qed

end
