(* ===== verification/Messages.thy ===== *)
theory Messages
  imports Providers
begin

text \<open>
  Chat messages of the routing service (\<^verbatim>\<open>src/frontend/lerouter_modal_api.py\<close>): their
  normal form, and the texts that are measured, embedded and classified. A message is the JSON
  object of the request.
\<close>

section \<open>Text of a JSON value with ASCII escapes\<close>

definition ascii_char :: "char \<Rightarrow> string" where
  "ascii_char c = (if code c < 127 then json_char c
     else [CHR 0x5C, CHR ''u'', CHR ''0'', CHR ''0'', hex_digit (code c div 16), hex_digit (code c mod 16)])"

definition ascii_string :: "string \<Rightarrow> string" where
  "ascii_string s = [CHR 0x22] @ concat (map ascii_char s) @ [CHR 0x22]"

text \<open>\<^verbatim>\<open>json.dumps(v, ensure_ascii=True, separators=(item, key))\<close>\<close>

primrec dumps_ascii :: "string \<Rightarrow> string \<Rightarrow> json \<Rightarrow> string" where
  "dumps_ascii item key JNull = ''null''"
| "dumps_ascii item key (JBool b) = (if b then ''true'' else ''false'')"
| "dumps_ascii item key (JInt i) = show_int i"
| "dumps_ascii item key (JFloat x) = dumps_float x"
| "dumps_ascii item key (JStr s) = ascii_string s"
| "dumps_ascii item key (JArr xs) = ''['' @ join item (map (dumps_ascii item key) xs) @ '']''"
| "dumps_ascii item key (JObj kvs) =
     ''{'' @ join item (map (\<lambda>(k, t). ascii_string k @ key @ t) (map (map_prod id (dumps_ascii item key)) kvs)) @ ''}''"

section \<open>Content and messages\<close>

definition newline :: string where
  "newline = [CHR 0x0A]"

fun item_text :: "json \<Rightarrow> string" where
  "item_text (JObj kvs) = py_str (first_truthy (JObj kvs) [''text'', ''content''])"
| "item_text v = py_str v"

fun message_content_text :: "json \<Rightarrow> string" where
  "message_content_text (JStr s) = s"
| "message_content_text JNull = []"
| "message_content_text (JArr items) = join newline (filter (\<lambda>p. p \<noteq> []) (map item_text items))"
| "message_content_text v = py_str v"

definition role_of :: "json \<Rightarrow> string" where
  "role_of message = py_str (jor (jget message ''role'') (JStr ''user''))"

fun is_object :: "json \<Rightarrow> bool" where
  "is_object (JObj kvs) = True"
| "is_object _ = False"

definition optional_keys :: "json \<Rightarrow> (string, json) dict" where
  "optional_keys message =
     concat (map (\<lambda>k. if jget message k \<noteq> JNull then [(k, jget message k)] else []) [''tool_calls'', ''tool_call_id'', ''name''])"

definition normalized_message :: "json \<Rightarrow> json" where
  "normalized_message message =
     JObj ([(''role'', JStr (role_of message)),
            (''content'', if jget message ''content'' \<noteq> JNull then jget message ''content'' else JStr [])] @ optional_keys message)"

definition keeps_message :: "json \<Rightarrow> bool" where
  "keeps_message message =
     (is_object message \<and>
      (message_content_text (jget message ''content'') \<noteq> [] \<or> truthy (jget message ''tool_calls'') \<or> role_of message = ''tool''))"

definition normalize_messages :: "json \<Rightarrow> json list" where
  "normalize_messages payload =
     (let normalized = (case jget payload ''messages'' of
            JArr ms \<Rightarrow> map normalized_message (filter keeps_message ms) | _ \<Rightarrow> []) in
      if normalized \<noteq> [] then normalized
      else [JObj [(''role'', JStr ''user''), (''content'', JStr (py_str (first_truthy payload [''prompt'', ''input''])))]])"

definition provider_request_options :: "json \<Rightarrow> (string, json) dict" where
  "provider_request_options payload =
     (let options = (case jget payload ''provider_options'' of JObj kvs \<Rightarrow> kvs | _ \<Rightarrow> []);
          options1 = foldl (\<lambda>d k. if jget payload k \<noteq> JNull then dict_set k (jget payload k) d else d) options
            [''tools'', ''tool_choice'', ''response_format'', ''temperature'', ''max_tokens'']
      in if truthy (jget payload ''stream'') then dict_set ''stream'' (JBool True) options1 else options1)"

definition message_line :: "json \<Rightarrow> string" where
  "message_line message =
     (let content = message_content_text (jget message ''content'') in
      join '' '' ([role_of message @ '':''] @
        (if truthy (jget message ''name'') then [''name='' @ py_str (jget message ''name'')] else []) @
        (if truthy (jget message ''tool_call_id'') then [''tool_call_id='' @ py_str (jget message ''tool_call_id'')] else []) @
        (if content \<noteq> [] then [content] else []) @
        (if truthy (jget message ''tool_calls'')
         then [''tool_calls='' @ dumps_ascii '', '' '': '' (jget message ''tool_calls'')] else [])))"

definition messages_text :: "json list \<Rightarrow> string" where
  "messages_text messages = join newline (map message_line messages)"

section \<open>The text of the current step\<close>

definition content_of :: "json \<Rightarrow> string" where
  "content_of message = strip (message_content_text (jget message ''content''))"

text \<open>The messages from the last to the first.\<close>

fun latest_user :: "json list \<Rightarrow> string" where
  "latest_user [] = []"
| "latest_user (m # ms) =
     (if lower (strip (text_at m ''role'')) = ''user'' \<and> content_of m \<noteq> [] then content_of m else latest_user ms)"

fun latest_calls :: "json list \<Rightarrow> json option" where
  "latest_calls [] = None"
| "latest_calls (m # ms) = (if truthy (jget m ''tool_calls'') then Some (jget m ''tool_calls'') else latest_calls ms)"

definition calls_part :: "json \<Rightarrow> string" where
  "calls_part calls = ''requested_tool_calls:'' @ newline @ slice_tail 2000 (dumps_ascii '','' '':'' calls)"

definition goal_part :: "string \<Rightarrow> string" where
  "goal_part goal = ''user_goal:'' @ newline @ slice_tail 4000 goal"

definition tool_step :: "string \<Rightarrow> json \<Rightarrow> json list \<Rightarrow> string" where
  "tool_step goal m earlier =
     (let content = content_of m;
          named = strip (py_str (jor (jget m ''name'') (JStr ''unknown'')));
          tool_name = (if named \<noteq> [] then named else ''unknown'');
          status = (if contains ''error'' (lower content) then ''error'' else ''completed'') in
      join newline ([goal_part goal,
          ''current_step:'' @ newline @ ''tool='' @ tool_name @ '' status='' @ status @ '' output_chars='' @ show_nat (length content)] @
        (case latest_calls earlier of None \<Rightarrow> [] | Some calls \<Rightarrow> [calls_part calls])))"

definition talk_step :: "string \<Rightarrow> string \<Rightarrow> json \<Rightarrow> string" where
  "talk_step goal role m =
     join newline ((if goal \<noteq> [] then [goal_part goal] else []) @
       (if content_of m \<noteq> [] then [''latest_'' @ role @ ''_data:'' @ newline @ slice_tail 2000 (content_of m)] else []) @
       (if truthy (jget m ''tool_calls'') then [calls_part (jget m ''tool_calls'')] else []))"

fun current_step :: "string \<Rightarrow> json list \<Rightarrow> string result" where
  "current_step goal [] = Inl (ValueError ''routing requires a non-empty latest user, assistant, or tool message'')"
| "current_step goal (m # earlier) =
     (let role = lower (strip (role_of m)) in
      if role = ''system'' then current_step goal earlier
      else if role = ''tool'' then Inr (tool_step goal m earlier)
      else if content_of m \<noteq> [] \<or> truthy (jget m ''tool_calls'') then Inr (talk_step goal role m)
      else current_step goal earlier)"

definition routing_messages_text :: "json list \<Rightarrow> string result" where
  "routing_messages_text messages = current_step (latest_user (rev messages)) (rev messages)"

end
