(* ===== verification/Pricing.thy ===== *)
theory Pricing
  imports Messages
begin

text \<open>
  Prices of a model and the value of its prompt cache, in the routing service
  (\<^verbatim>\<open>src/frontend/lerouter_modal_api.py\<close>). A reading of a number may fail with an overflow.
\<close>

definition million :: pyfloat where
  "million = Fin 1000000"

definition number_at :: "json \<Rightarrow> string \<Rightarrow> pyfloat result" where
  "number_at d k = as_float (jget d k) (Fin 0)"

definition nested_model_cost :: "json \<Rightarrow> string \<Rightarrow> pyfloat result" where
  "nested_model_cost model key =
     (if \<not> is_object (jget model ''model_cost'') then Inr (Fin 0)
      else rbind (number_at (jget model ''model_cost'') key) (\<lambda>v. Inr (if Fin 0 < v then v else Fin 0)))"

definition listed_price :: "json \<Rightarrow> string \<Rightarrow> pyfloat result" where
  "listed_price model key =
     (if \<not> is_object (jget model ''pricing'') then Inr (Fin 0)
      else rbind (number_at (jget model ''pricing'') key) (\<lambda>v. Inr (v * million)))"

definition model_input_price_per_million :: "json \<Rightarrow> pyfloat result" where
  "model_input_price_per_million model =
     rbind (number_at model ''input_price_per_million'') (\<lambda>explicit.
     if Fin 0 < explicit then Inr explicit
     else rbind (nested_model_cost model ''input_usd_per_million'') (\<lambda>nested.
       if Fin 0 < nested then Inr nested else listed_price model ''prompt''))"

text \<open>The first of the keys whose value is positive.\<close>

fun first_positive :: "json \<Rightarrow> string list \<Rightarrow> pyfloat option result" where
  "first_positive d [] = Inr None"
| "first_positive d (k # ks) = rbind (number_at d k) (\<lambda>v. if Fin 0 < v then Inr (Some v) else first_positive d ks)"

definition model_cache_price_per_million :: "json \<Rightarrow> string \<Rightarrow> pyfloat result" where
  "model_cache_price_per_million model cache_key =
     rbind (first_positive model [''input_cache_'' @ cache_key @ ''_usd_per_million'', ''input_cache_'' @ cache_key @ ''_per_million''])
       (\<lambda>direct. case direct of
          Some v \<Rightarrow> Inr v
        | None \<Rightarrow> rbind (nested_model_cost model (''input_cache_'' @ cache_key @ ''_usd_per_million'')) (\<lambda>nested.
            if Fin 0 < nested then Inr nested else listed_price model (''input_cache_'' @ cache_key)))"

definition chars_as_tokens :: "string \<Rightarrow> pyfloat" where
  "chars_as_tokens s = fdiv (fl_of_int (int (length s))) (Fin 4)"

definition prompt_cache_factor :: "json \<Rightarrow> json list \<Rightarrow> pyfloat result" where
  "prompt_cache_factor model messages =
     rbind (model_input_price_per_million model) (\<lambda>prompt_price.
     rbind (model_cache_price_per_million model ''read'') (\<lambda>cache_read_price.
     if prompt_price \<le> Fin 0 \<or> cache_read_price \<le> Fin 0 then Inr (Fin 1)
     else
     let prompt_tokens = pmax (Fin 1) (chars_as_tokens (messages_text messages));
         cacheable_tokens = prompt_tokens * Fin (3 / 4) in
     if cacheable_tokens < Fin 1024 then Inr (Fin 1)
     else rbind (model_cache_price_per_million model ''write'') (\<lambda>cache_write_price.
       let amortized = (if Fin 0 < cache_write_price then fdiv cache_write_price (Fin 4) else Fin 0);
           uncached_cost = prompt_tokens * prompt_price;
           effective_cost = (prompt_tokens - cacheable_tokens) * prompt_price + cacheable_tokens * cache_read_price +
             cacheable_tokens * amortized in
       Inr (py_round (clamp (fdiv effective_cost uncached_cost) (Fin (1 / 4)) (Fin 1)) 4))))"

text \<open>What a provider keeps cached: everything before the latest user message.\<close>

definition cacheable_prefix :: "json list \<Rightarrow> json list" where
  "cacheable_prefix messages =
     (case filter (\<lambda>i. role_of (messages ! i) = ''user'') (rev [0..<length messages]) of
        i # _ \<Rightarrow> take i messages
      | [] \<Rightarrow> butlast messages)"

definition cacheable_prompt_text :: "json list \<Rightarrow> string" where
  "cacheable_prompt_text messages = messages_text (cacheable_prefix messages)"

definition estimate_cacheable_input_tokens :: "json list \<Rightarrow> pyfloat" where
  "estimate_cacheable_input_tokens messages = pmax (Fin 0) (chars_as_tokens (cacheable_prompt_text messages))"

definition cached_input_price_difference_per_million :: "json \<Rightarrow> pyfloat result" where
  "cached_input_price_difference_per_million model =
     rbind (model_input_price_per_million model) (\<lambda>input_price.
     rbind (model_cache_price_per_million model ''read'') (\<lambda>cache_read_price.
     if input_price \<le> Fin 0 \<or> cache_read_price \<le> Fin 0 then Inr (Fin 0)
     else Inr (pmax (Fin 0) (input_price - cache_read_price))))"

record cache_savings =
  cs_cacheable_input_tokens :: pyfloat
  cs_price_difference :: pyfloat
  cs_pricing_available :: bool
  cs_savings_usd :: pyfloat

definition prompt_cache_savings :: "json \<Rightarrow> json list \<Rightarrow> cache_savings result" where
  "prompt_cache_savings model messages =
     (let cacheable_tokens = estimate_cacheable_input_tokens messages in
      rbind (model_input_price_per_million model) (\<lambda>input_price.
      rbind (model_cache_price_per_million model ''read'') (\<lambda>cache_read_price.
      rbind (cached_input_price_difference_per_million model) (\<lambda>price_difference.
      let savings = fdiv price_difference million * cacheable_tokens in
      Inr \<lparr>cs_cacheable_input_tokens = py_round cacheable_tokens 4, cs_price_difference = py_round price_difference 6,
        cs_pricing_available = (Fin 0 < input_price \<and> Fin 0 < cache_read_price),
        cs_savings_usd = py_round (pmax (Fin 0) savings) 8\<rparr>))))"

section \<open>The cost of switching models\<close>

record switch_detail =
  sw_is_previous :: bool
  sw_penalty :: pyfloat
  sw_continued_savings :: pyfloat
  sw_savings :: cache_savings

record switch_cost =
  so_previous_model_id :: json
  so_continued_savings :: pyfloat
  so_penalties :: "(json, pyfloat) dict"
  so_details :: "(json, switch_detail) dict"

definition previous_profile :: "json \<Rightarrow> json" where
  "previous_profile previous =
     (let previous_model_id = jget previous ''modelId''; profile = jget previous ''modelProfile'' in
      if truthy previous_model_id \<and> \<not> is_object profile
      then JObj [(''model_id'', previous_model_id), (''provider'', jget previous ''provider'')] else profile)"

text \<open>The model of the session among the candidates, or as its last usage recorded it.\<close>

definition continued_model :: "json \<Rightarrow> json list \<Rightarrow> json" where
  "continued_model previous candidates =
     (case filter (\<lambda>m. text_at m ''model_id'' = py_str (jor (jget previous ''modelId'') (JStr []))) candidates of
        m # _ \<Rightarrow> m
      | [] \<Rightarrow> previous_profile previous)"

definition model_key :: "json \<Rightarrow> json result" where
  "model_key model = (case model of
     JObj kvs \<Rightarrow> (case map_of kvs ''model_id'' of None \<Rightarrow> Inl (KeyError ''model_id'') | Some v \<Rightarrow> Inr v)
   | _ \<Rightarrow> Inl (TypeError ''string indices must be integers''))"

definition switch_cost_estimator :: "json \<Rightarrow> json list \<Rightarrow> json list \<Rightarrow> switch_cost result" where
  "switch_cost_estimator previous messages candidates =
     (let previous_model_id = jget previous ''modelId''; continued = continued_model previous candidates in
      rbind (if truthy previous_model_id \<and> is_object continued then prompt_cache_savings continued messages
        else Inr \<lparr>cs_cacheable_input_tokens = py_round (estimate_cacheable_input_tokens messages) 4,
          cs_price_difference = Fin 0, cs_pricing_available = False, cs_savings_usd = Fin 0\<rparr>) (\<lambda>savings.
      let continued_savings = (if cs_savings_usd savings = NaN then Fin 0 else cs_savings_usd savings) in
      rbind (rmap model_key candidates) (\<lambda>ids.
      let is_previous = (\<lambda>i. truthy previous_model_id \<and> i = previous_model_id);
          penalty = (\<lambda>i. if truthy previous_model_id \<and> \<not> is_previous i then continued_savings else Fin 0) in
      Inr \<lparr>so_previous_model_id = previous_model_id, so_continued_savings = continued_savings,
        so_penalties = dict_of (map (\<lambda>i. (i, penalty i)) ids),
        so_details = dict_of (map (\<lambda>i. (i, \<lparr>sw_is_previous = is_previous i, sw_penalty = penalty i,
          sw_continued_savings = continued_savings, sw_savings = savings\<rparr>)) ids)\<rparr>)))"

end
