(* ===== verification/Accounting.thy ===== *)
theory Accounting
  imports Workflow_Store Pricing
begin

text \<open>
  Signed accounting claims (\<^verbatim>\<open>src/frontend/lerouter_modal_api.py\<close>): the profile of the
  selected model, the token that carries the claim, and its verification. The keyed hash and
  \<^verbatim>\<open>json.loads\<close> of decoded bytes are arguments; bytes are characters. Base64 is modelled as the
  standard library's tolerant decoder behaves.
\<close>

section \<open>Base64\<close>

definition sextet_char :: "nat \<Rightarrow> char" where
  "sextet_char v = (if v < 26 then char_of (65 + v) else if v < 52 then char_of (71 + v)
     else if v < 62 then char_of (v - 4) else if v = 62 then CHR ''-'' else CHR ''_'')"

definition sextet :: "char \<Rightarrow> nat option" where
  "sextet c = (let n = code c in
     if 65 \<le> n \<and> n \<le> 90 then Some (n - 65) else if 97 \<le> n \<and> n \<le> 122 then Some (n - 71)
     else if 48 \<le> n \<and> n \<le> 57 then Some (n + 4) else if c = CHR ''-'' \<or> c = CHR ''+'' then Some 62
     else if c = CHR ''_'' \<or> c = CHR ''/'' then Some 63 else None)"

text \<open>\<^verbatim>\<open>urlsafe_b64encode(value).rstrip("=")\<close>\<close>

fun base64url_encode :: "string \<Rightarrow> string" where
  "base64url_encode [] = []"
| "base64url_encode [a] = [sextet_char (code a div 4), sextet_char (code a mod 4 * 16)]"
| "base64url_encode [a, b] = [sextet_char (code a div 4), sextet_char (code a mod 4 * 16 + code b div 16), sextet_char (code b mod 16 * 4)]"
| "base64url_encode (a # b # c # cs) =
     sextet_char (code a div 4) # sextet_char (code a mod 4 * 16 + code b div 16) #
     sextet_char (code b mod 16 * 4 + code c div 64) # sextet_char (code c mod 64) # base64url_encode cs"

text \<open>The bytes of up to four sextets; a group that padding cuts short has fewer.\<close>

fun quad_bytes :: "nat list \<Rightarrow> string" where
  "quad_bytes [a, b] = [char_of (a * 4 + b div 16)]"
| "quad_bytes [a, b, c] = [char_of (a * 4 + b div 16), char_of (b mod 16 * 16 + c div 4)]"
| "quad_bytes [a, b, c, d] = [char_of (a * 4 + b div 16), char_of (b mod 16 * 16 + c div 4), char_of (c mod 4 * 64 + d)]"
| "quad_bytes _ = []"

text \<open>
  \<^verbatim>\<open>binascii.a2b_base64\<close> without strict mode: other characters are skipped, and padding that
  completes a group ends the input. \<open>None\<close> is its error.
\<close>

fun a2b_base64 :: "string \<Rightarrow> nat list \<Rightarrow> nat \<Rightarrow> string option" where
  "a2b_base64 [] quad pads = (if quad = [] then Some [] else None)"
| "a2b_base64 (c # cs) quad pads =
     (if c = CHR ''=''
      then (if 2 \<le> length quad
            then (if 4 \<le> length quad + Suc pads then Some (quad_bytes quad) else a2b_base64 cs quad (Suc pads))
            else a2b_base64 cs quad pads)
      else case sextet c of
        None \<Rightarrow> a2b_base64 cs quad pads
      | Some v \<Rightarrow>
          if length quad = 3 then map_option (\<lambda>r. quad_bytes (quad @ [v]) @ r) (a2b_base64 cs [] 0)
          else a2b_base64 cs (quad @ [v]) 0)"

definition base64url_decode :: "string \<Rightarrow> string option" where
  "base64url_decode v =
     (if list_ex (\<lambda>c. 128 \<le> code c) v then None
      else a2b_base64 (v @ replicate (nat ((- int (length v)) mod 4)) (CHR ''='')) [] 0)"

section \<open>The signed profile of a model\<close>

definition profile_numbers :: "string list" where
  "profile_numbers = [''context_k_tokens'', ''latency_ms'', ''model_size'', ''input_cache_read_usd_per_million'',
     ''input_cache_write_usd_per_million'']"

definition profile_flags :: "string list" where
  "profile_flags = [''profile_hydrated'', ''is_open_source'', ''supports_tools'', ''supports_json'', ''supports_reasoning_effort'']"

definition accounting_model_profile_fields :: "string list" where
  "accounting_model_profile_fields =
     [''provider_native_model_id'', ''native_model_id'', ''profile_model'', ''profile_alias'', ''model_owner'', ''execution_provider'',
      ''profile_hydrated'', ''is_open_source'', ''context_k_tokens'', ''latency_ms'', ''model_size'',
      ''input_cache_read_usd_per_million'', ''input_cache_write_usd_per_million'', ''supports_tools'', ''supports_json'',
      ''supports_reasoning_effort'']"

definition profile_invalid :: "string \<Rightarrow> 'a http" where
  "profile_invalid field = refuse 502 ''accounting_model_profile_invalid'' [(''field'', JStr field)]"

definition profile_field :: "json \<Rightarrow> string \<Rightarrow> json option http" where
  "profile_field model field =
     (let v = jget model field in
      if v = JNull then Inr None
      else if field \<in> set profile_numbers
      then rbind (lift (finite_profile_number v False)) (\<lambda>n. case n of
             None \<Rightarrow> profile_invalid field | Some x \<Rightarrow> Inr (Some (JFloat x)))
      else if field \<in> set profile_flags then (if is_bool v then Inr (Some v) else profile_invalid field)
      else Inr (if strip (py_str v) = [] then None else Some (JStr (strip (py_str v)))))"

fun set_fields :: "(string \<Rightarrow> json option http) \<Rightarrow> string list \<Rightarrow> (string, json) dict \<Rightarrow> (string, json) dict http" where
  "set_fields get [] d = Inr d"
| "set_fields get (k # ks) d =
     rbind (get k) (\<lambda>v. set_fields get ks (case v of None \<Rightarrow> d | Some x \<Rightarrow> dict_set k x d))"

definition cache_field :: "json \<Rightarrow> string \<Rightarrow> (string, json) dict http" where
  "cache_field model cache_key =
     rbind (lift (model_cache_price_per_million model cache_key)) (\<lambda>x.
     Inr (if Fin 0 < x then [(''input_cache_'' @ cache_key @ ''_usd_per_million'', JFloat x)] else []))"

definition signed_accounting_model_profile :: "json \<Rightarrow> string \<Rightarrow> (string, json) dict http" where
  "signed_accounting_model_profile model provider =
     (if \<not> is_object model then refuse 502 ''accounting_model_profile_invalid'' []
      else
      let model_id = strip (text_at model ''model_id''); normalized_provider = lower (strip provider) in
      rbind (lift (finite_profile_number (jget model ''input_price_per_million'') False)) (\<lambda>input_price.
      rbind (lift (finite_profile_number (jget model ''output_price_per_million'') False)) (\<lambda>output_price.
      case (input_price, output_price) of
        (Some i, Some out) \<Rightarrow>
          if model_id = [] \<or> normalized_provider = [] \<or> i < Fin 0 \<or> out < Fin 0
          then refuse 502 ''accounting_model_profile_incomplete''
            [(''message'', JStr ''Selected model identity and finite nonnegative prices are required for accounting'')]
          else
          rbind (cache_field model ''read'') (\<lambda>r.
          rbind (cache_field model ''write'') (\<lambda>w.
          set_fields (profile_field model) accounting_model_profile_fields
            ([(''model_id'', JStr model_id), (''provider'', JStr normalized_provider), (''input_price_per_million'', JFloat i),
              (''output_price_per_million'', JFloat out)] @ r @ w)))
      | _ \<Rightarrow> refuse 502 ''accounting_model_profile_incomplete''
            [(''message'', JStr ''Selected model identity and finite nonnegative prices are required for accounting'')])))"

section \<open>Issuing a token\<close>

text \<open>\<^verbatim>\<open>json.dumps(v, sort_keys=True, separators=(",", ":"))\<close>\<close>

primrec dumps_sorted :: "json \<Rightarrow> string" where
  "dumps_sorted JNull = ''null''"
| "dumps_sorted (JBool b) = (if b then ''true'' else ''false'')"
| "dumps_sorted (JInt i) = show_int i"
| "dumps_sorted (JFloat x) = dumps_float x"
| "dumps_sorted (JStr s) = ascii_string s"
| "dumps_sorted (JArr xs) = ''['' @ join '','' (map dumps_sorted xs) @ '']''"
| "dumps_sorted (JObj kvs) =
     ''{'' @ join '','' (map (\<lambda>(k, t). ascii_string k @ '':'' @ t) (sort_by (<) fst (map (map_prod id dumps_sorted) kvs))) @ ''}''"

record claim_request =
  cq_user_id :: string
  cq_route_id :: string
  cq_route_name :: string
  cq_model_id :: string
  cq_provider :: string
  cq_model_profile :: json
  cq_request_weight :: json
  cq_routing_call_id :: string
  cq_execution :: "execution option"

definition claim_of :: "claim_request \<Rightarrow> (string, json) dict \<Rightarrow> pyfloat option \<Rightarrow> (string, json) dict" where
  "claim_of q profile weight =
     [(''v'', JInt (case cq_execution q of None \<Rightarrow> 1 | Some _ \<Rightarrow> 2)), (''user_id'', JStr (strip (cq_user_id q))),
      (''route_id'', JStr (strip (cq_route_id q))), (''route_name'', JStr (strip (cq_route_name q))),
      (''model_id'', JStr (strip (cq_model_id q))), (''provider'', JStr (lower (strip (cq_provider q)))),
      (''model_profile'', JObj profile),
      (''request_weight'', case weight of None \<Rightarrow> JNull | Some x \<Rightarrow> JFloat x),
      (''routing_call_id'', JStr (strip (cq_routing_call_id q)))] @
     (case cq_execution q of
        None \<Rightarrow> []
      | Some ex \<Rightarrow>
          [(''workflow_run_id'', JStr (strip (ex_run_id ex))), (''budget_scope_id'', JStr (strip (ex_scope_id ex))),
           (''reservation_id'', JStr (strip (ex_reservation_id ex))), (''max_output_tokens'', JInt (ex_max_output_tokens ex)),
           (''call_limit_usd'', JFloat (ex_call_limit_usd ex))])"

definition claim_missing :: "(string, json) dict \<Rightarrow> string list" where
  "claim_missing claim = map fst (filter (\<lambda>(k, v). k \<noteq> ''v'' \<and> (v = JNull \<or> v = JStr [])) claim)"

definition prepare_claim :: "claim_request \<Rightarrow> (string, json) dict http" where
  "prepare_claim q =
     rbind (lift (finite_profile_number (cq_request_weight q) True)) (\<lambda>weight.
     rbind (signed_accounting_model_profile (cq_model_profile q) (lower (strip (cq_provider q)))) (\<lambda>profile.
     rbind (lift (compare_digest (text_at (JObj profile) ''model_id'') (strip (cq_model_id q)))) (\<lambda>same.
     if \<not> same then refuse 502 ''accounting_model_identity_mismatch'' []
     else let claim = claim_of q profile weight in
       if claim_missing claim \<noteq> []
       then refuse 502 ''accounting_claim_incomplete'' [(''missing'', JArr (map JStr (claim_missing claim)))]
       else Inr claim)))"

definition token_of :: "(string \<Rightarrow> string) \<Rightarrow> string \<Rightarrow> string" where
  "token_of mac payload = base64url_encode payload @ ''.'' @ base64url_encode (mac payload)"

definition issue_accounting_token :: "(string \<Rightarrow> string) \<Rightarrow> claim_request \<Rightarrow> string http" where
  "issue_accounting_token mac q =
     rbind (prepare_claim q) (\<lambda>claim. Inr (token_of mac (dumps_sorted (JObj claim))))"

section \<open>Verifying a token\<close>

definition generic_error :: "'a http" where
  "generic_error = refuse 401 ''invalid_accounting_token'' [(''message'', JStr ''Signed accounting token validation failed'')]"

text \<open>The payload of a token that carries its own signature.\<close>

definition signed_payload :: "(string \<Rightarrow> string) \<Rightarrow> string \<Rightarrow> string option" where
  "signed_payload mac token =
     (case split_max 1 (CHR ''.'') [] (strip token) of
        [payload_part, signature_part] \<Rightarrow>
          (case (base64url_decode payload_part, base64url_decode signature_part) of
             (Some payload, Some signature) \<Rightarrow> if signature = mac payload then Some payload else None
           | _ \<Rightarrow> None)
      | _ \<Rightarrow> None)"

definition legacy_keys :: "string list" where
  "legacy_keys = [''v'', ''user_id'', ''route_id'', ''route_name'', ''model_id'', ''provider'', ''model_profile'',
     ''request_weight'', ''routing_call_id'']"

definition workflow_keys :: "string list" where
  "workflow_keys = legacy_keys @ [''workflow_run_id'', ''budget_scope_id'', ''reservation_id'', ''max_output_tokens'', ''call_limit_usd'']"

definition numeric_keys :: "string list" where
  "numeric_keys = [''v'', ''request_weight'', ''model_profile'', ''max_output_tokens'', ''call_limit_usd'']"

text \<open>\<open>v == n\<close>, which also holds of equal floats and of booleans.\<close>

fun equals_int :: "json \<Rightarrow> int \<Rightarrow> bool" where
  "equals_int (JInt i) n = (i = n)"
| "equals_int (JFloat x) n = (x = Fin (of_int n))"
| "equals_int (JBool b) n = (n = (if b then 1 else 0))"
| "equals_int _ n = False"

definition is_text :: "json \<Rightarrow> bool" where
  "is_text v = (case v of JStr s \<Rightarrow> strip s \<noteq> [] | _ \<Rightarrow> False)"

text \<open>Equality with a scalar, and of a dictionary of scalars with any value.\<close>

fun scalar_equal :: "json \<Rightarrow> json \<Rightarrow> bool" where
  "scalar_equal (JFloat x) (JFloat y) = feq x y"
| "scalar_equal (JFloat x) (JInt i) = (x = Fin (of_int i))"
| "scalar_equal (JFloat x) (JBool b) = (x = Fin (if b then 1 else 0))"
| "scalar_equal (JBool b) v = equals_int v (if b then 1 else 0)"
| "scalar_equal a b = (a = b)"

definition dict_equal :: "(string, json) dict \<Rightarrow> json \<Rightarrow> bool" where
  "dict_equal d v = (case v of
     JObj kvs \<Rightarrow> set (map fst d) = set (map fst kvs) \<and> list_all (\<lambda>(k, x). scalar_equal x (jget v k)) d
   | _ \<Rightarrow> False)"

definition shape_ok :: "(string, json) dict \<Rightarrow> bool" where
  "shape_ok claim =
     (let expected = (if equals_int (jget (JObj claim) ''v'') 2 then workflow_keys else legacy_keys) in
      set (map fst claim) = set expected \<and>
      (equals_int (jget (JObj claim) ''v'') 1 \<or> equals_int (jget (JObj claim) ''v'') 2) \<and>
      list_all (\<lambda>k. k \<in> set numeric_keys \<or> is_text (jget (JObj claim) k)) expected)"

text \<open>A refusal of the profile is answered with the generic error; another exception passes.\<close>

definition checked_profile :: "json \<Rightarrow> string \<Rightarrow> (string, json) dict http" where
  "checked_profile profile provider =
     (case signed_accounting_model_profile profile provider of Inl (HTTPException s d) \<Rightarrow> generic_error | r \<Rightarrow> r)"

definition text_of :: "(string, json) dict \<Rightarrow> string \<Rightarrow> string" where
  "text_of claim k = py_str (jget (JObj claim) k)"

fun positive_int :: "json \<Rightarrow> bool" where
  "positive_int (JInt i) = (0 < i)"
| "positive_int _ = False"

definition verify_claim :: "(string, json) dict \<Rightarrow> (string, json) dict http" where
  "verify_claim claim0 =
     (if \<not> shape_ok claim0 then generic_error
      else
      rbind (lift (finite_profile_number (jget (JObj claim0) ''request_weight'') True)) (\<lambda>weight. case weight of
        None \<Rightarrow> generic_error
      | Some w \<Rightarrow>
          let claim1 = dict_set ''provider'' (JStr (lower (text_of claim0 ''provider''))) (dict_set ''request_weight'' (JFloat w) claim0) in
          rbind (checked_profile (jget (JObj claim1) ''model_profile'') (text_of claim1 ''provider'')) (\<lambda>profile.
          if \<not> dict_equal profile (jget (JObj claim1) ''model_profile'') then generic_error
          else
          rbind (lift (compare_digest (text_of profile ''model_id'') (text_of claim1 ''model_id''))) (\<lambda>same.
          if \<not> same then generic_error
          else
          rbind (if \<not> equals_int (jget (JObj claim1) ''v'') 2 then Inr claim1
            else if \<not> positive_int (jget (JObj claim1) ''max_output_tokens'') then generic_error
            else rbind (lift (finite_profile_number (jget (JObj claim1) ''call_limit_usd'') True)) (\<lambda>l. case l of
                None \<Rightarrow> generic_error
              | Some x \<Rightarrow> Inr (dict_set ''call_limit_usd'' (JFloat x) claim1))) (\<lambda>claim2.
          Inr (dict_set ''model_profile'' (JObj profile) claim2))))))"

definition verify_accounting_token :: "(string \<Rightarrow> string) \<Rightarrow> (string \<Rightarrow> json option) \<Rightarrow> string \<Rightarrow> (string, json) dict http" where
  "verify_accounting_token mac loads token =
     (if strip token = [] \<or> 8192 < length token then generic_error
      else case signed_payload mac token of
        None \<Rightarrow> generic_error
      | Some payload \<Rightarrow>
          (case loads payload of
             Some (JObj claim) \<Rightarrow> verify_claim claim
           | _ \<Rightarrow> generic_error))"

definition accounting_request_weight_debit :: "(string, json) dict \<Rightarrow> pyfloat http" where
  "accounting_request_weight_debit claim =
     rbind (lift (as_float (jget (JObj claim) ''request_weight'') (Fin (- 1)))) (\<lambda>w.
     if w \<le> Fin 0 then refuse 401 ''invalid_accounting_token'' []
     else Inr (if is_suffix '':candidate:2'' (strip (text_at (JObj claim) ''routing_call_id'')) then Fin 0 else w))"

text \<open>The claim of a workflow call, as the store reads it.\<close>

definition workflow_claim_of :: "(string, json) dict \<Rightarrow> workflow_claim" where
  "workflow_claim_of claim =
     \<lparr>wc_version = (if equals_int (jget (JObj claim) ''v'') 2 then 2 else 1), wc_user = text_of claim ''user_id'',
      wc_route = text_of claim ''route_id'', wc_run = text_of claim ''workflow_run_id'',
      wc_scope = text_of claim ''budget_scope_id'', wc_reservation = text_of claim ''reservation_id'',
      wc_call = text_of claim ''routing_call_id'', wc_model = text_of claim ''model_id'',
      wc_provider = text_of claim ''provider'',
      wc_limit = (case jget (JObj claim) ''call_limit_usd'' of JFloat x \<Rightarrow> x | _ \<Rightarrow> Fin 0),
      wc_max_tokens = (case jget (JObj claim) ''max_output_tokens'' of JInt i \<Rightarrow> i | _ \<Rightarrow> 0)\<rparr>"

end
