(* ===== verification/Accounting_Props.thy ===== *)
theory Accounting_Props
  imports Accounting Models
begin

text \<open>
  What the signed claims promise: the token a service issues is the token it verifies, with the
  same claim in it, and a verified claim carries the service's own signature and has the shape
  the accounting relies on.
\<close>

section \<open>Base64\<close>

lemma sextet_inverse: "v < 64 \<Longrightarrow> sextet (sextet_char v) = Some v"
proof -
  assume v: "v < 64"
  then consider "v < 26" | "26 \<le> v" "v < 52" | "52 \<le> v" "v < 62" | "v = 62" | "v = 63" by linarith
  then show ?thesis
  proof cases
    case 3
    then obtain w where w: "v = w + 4" "48 \<le> w" "w \<le> 57" using that [of "v - 4"] by fastforce
    then have "sextet_char v = char_of w" "code (char_of w) = w" by (simp_all add: sextet_char_def)
    with w show ?thesis by (simp add: sextet_def Let_def)
  qed (simp_all add: sextet_char_def sextet_def Let_def)
qed

lemma sextet_char_plain:
  "v < 64 \<Longrightarrow> sextet_char v \<notin> {CHR ''='', CHR ''.''} \<and> \<not> is_space (sextet_char v) \<and> code (sextet_char v) < 128"
proof -
  assume "v < 64"
  have plain: "c \<notin> {CHR ''='', CHR ''.''} \<and> \<not> is_space c \<and> code c < 128" if "sextet c = Some u" "code c \<noteq> 47" "code c \<noteq> 43" for c u
  proof -
    have "c \<noteq> CHR ''.''" "c \<noteq> CHR ''=''" using that by (auto simp: sextet_def)
    moreover have "45 \<le> code c \<and> code c \<le> 122" using that by (auto simp: sextet_def Let_def split: if_splits)
    ultimately show ?thesis by (auto simp: is_space_def Let_def)
  qed
  have "code (sextet_char v) \<noteq> 47 \<and> code (sextet_char v) \<noteq> 43" using \<open>v < 64\<close>
    by (auto simp: sextet_char_def split: if_splits)
  then show ?thesis using plain [OF sextet_inverse [OF \<open>v < 64\<close>]] by blast
qed

lemma code_bound: "code (c :: char) < 256"
  by (rule nat_of_char_less_256)

lemma sextets_nat:
  fixes a b c :: nat
  assumes "a < 256" "b < 256" "c < 256"
  shows "a div 4 < 64" "a mod 4 * 16 < 64" "a mod 4 * 16 + b div 16 < 64" "b mod 16 * 4 < 64"
    "b mod 16 * 4 + c div 64 < 64" "c mod 64 < 64"
proof -
  have "a mod 4 \<le> 3" "b div 16 \<le> 15" "b mod 16 \<le> 15" "c div 64 \<le> 3" using assms by auto
  then show "a div 4 < 64" "a mod 4 * 16 < 64" "a mod 4 * 16 + b div 16 < 64" "b mod 16 * 4 < 64"
    "b mod 16 * 4 + c div 64 < 64" "c mod 64 < 64" using assms by linarith+
qed

lemma sextets_bound:
  "code a div 4 < 64" "code a mod 4 * 16 < 64" "code a mod 4 * 16 + code b div 16 < 64" "code b mod 16 * 4 < 64"
  "code b mod 16 * 4 + code c div 64 < 64" "code c mod 64 < 64"
  using sextets_nat [OF code_bound code_bound code_bound] by blast+

lemma a2b_pad: "a2b_base64 (CHR ''='' # cs) quad pads =
    (if 2 \<le> length quad
     then (if 4 \<le> length quad + Suc pads then Some (quad_bytes quad) else a2b_base64 cs quad (Suc pads))
     else a2b_base64 cs quad pads)"
  by simp

lemma a2b_char: "v < 64 \<Longrightarrow> a2b_base64 (sextet_char v # cs) quad pads =
    (if length quad = 3 then map_option (\<lambda>r. quad_bytes (quad @ [v]) @ r) (a2b_base64 cs [] 0) else a2b_base64 cs (quad @ [v]) 0)"
  using sextet_char_plain [of v] by (simp add: sextet_inverse)

lemma regroup_nat:
  fixes a b c :: nat
  assumes "a < 256" "b < 256" "c < 256"
  shows "a div 4 * 4 + (a mod 4 * 16 + b div 16) div 16 = a" "(a mod 4 * 16 + b div 16) mod 16 * 16 + (b mod 16 * 4 + c div 64) div 4 = b"
    "(b mod 16 * 4 + c div 64) mod 4 * 64 + c mod 64 = c" "a div 4 * 4 + a mod 4 * 16 div 16 = a"
    "(a mod 4 * 16 + b div 16) mod 16 * 16 + b mod 16 * 4 div 4 = b"
proof -
  have "b div 16 < 16" "c div 64 < 4" using assms by auto
  then show "a div 4 * 4 + (a mod 4 * 16 + b div 16) div 16 = a" "(a mod 4 * 16 + b div 16) mod 16 * 16 + (b mod 16 * 4 + c div 64) div 4 = b"
    "(b mod 16 * 4 + c div 64) mod 4 * 64 + c mod 64 = c" "a div 4 * 4 + a mod 4 * 16 div 16 = a"
    "(a mod 4 * 16 + b div 16) mod 16 * 16 + b mod 16 * 4 div 4 = b"
    by (simp_all add: div_mult_mod_eq)
qed

lemmas regroup = regroup_nat [OF code_bound code_bound code_bound]

definition padding :: "string \<Rightarrow> string" where
  "padding v = replicate (nat ((- int (length v)) mod 4)) (CHR ''='')"

lemma padding_four: "padding (a # b # c # d # v) = padding v"
proof -
  have "(- int (length v) - 4) mod 4 = (- int (length v)) mod 4" by presburger
  then show ?thesis by (simp add: padding_def algebra_simps)
qed

lemma a2b_encode: "a2b_base64 (base64url_encode v @ padding (base64url_encode v)) [] 0 = Some v"
proof (induction v rule: base64url_encode.induct)
  case (2 a)
  have "padding (base64url_encode [a]) = ''==''" by (simp add: padding_def numeral_2_eq_2)
  then show ?case by (simp add: a2b_char a2b_pad regroup sextets_bound del: a2b_base64.simps(2))
next
  case (3 a b)
  have "code b div 16 < 16" using code_bound [of b] by linarith
  moreover have "padding (base64url_encode [a, b]) = ''=''" by (simp add: padding_def)
  ultimately show ?case by (simp add: a2b_char a2b_pad regroup sextets_bound del: a2b_base64.simps(2))
next
  case (4 a b c v)
  have "code b div 16 < 16" "code c div 64 < 4" using code_bound [of b] code_bound [of c] by linarith+
  with 4 show ?case by (simp add: a2b_char padding_four regroup sextets_bound del: a2b_base64.simps(2))
qed (simp add: padding_def)

lemma encode_plain: "x \<in> set (base64url_encode v) \<Longrightarrow> x \<noteq> CHR ''.'' \<and> \<not> is_space x \<and> code x < 128"
proof (induction v rule: base64url_encode.induct)
  case (4 a b c v)
  then show ?case using sextet_char_plain [OF sextets_bound(1)] sextet_char_plain [OF sextets_bound(3)]
      sextet_char_plain [OF sextets_bound(5)] sextet_char_plain [OF sextets_bound(6)] by auto
next
  case (2 a)
  then show ?case using sextet_char_plain [OF sextets_bound(1)] sextet_char_plain [OF sextets_bound(2)] by auto
next
  case (3 a b)
  then show ?case using sextet_char_plain [OF sextets_bound(1)] sextet_char_plain [OF sextets_bound(3)]
      sextet_char_plain [OF sextets_bound(4)] by auto
qed simp

lemma base64_roundtrip: "base64url_decode (base64url_encode v) = Some v"
  using a2b_encode [of v] encode_plain [of _ v] unfolding base64url_decode_def padding_def
  by (auto simp: list_ex_iff not_le)

section \<open>Signing a profile again\<close>

lemma set_fields_Inr:
  "set_fields get ks d = Inr d' \<Longrightarrow> distinct ks \<Longrightarrow>
     map_of d' k = (if k \<in> set ks then (case get k of Inr (Some x) \<Rightarrow> Some x | _ \<Rightarrow> map_of d k) else map_of d k)"
proof (induction ks arbitrary: d)
  case (Cons f ks)
  then obtain v where v: "get f = Inr v" "set_fields get ks (case v of None \<Rightarrow> d | Some x \<Rightarrow> dict_set f x d) = Inr d'"
    by auto
  with Cons.IH [OF v(2)] Cons.prems(2) show ?case
    by (cases v) (auto simp: dict_get_set split: sum.splits option.splits)
qed simp

lemma set_fields_get: "set_fields get ks d = Inr d' \<Longrightarrow> k \<in> set ks \<Longrightarrow> \<exists>v. get k = Inr v"
  by (induction ks arbitrary: d) auto

lemma set_fields_ok: "\<forall>k\<in>set ks. \<exists>v. get k = Inr v \<Longrightarrow> \<exists>d'. set_fields get ks d = Inr d'"
proof (induction ks arbitrary: d)
  case (Cons f ks)
  then obtain v where "get f = Inr v" by auto
  then show ?case using Cons.IH [of "case v of None \<Rightarrow> d | Some x \<Rightarrow> dict_set f x d"] Cons.prems by simp
qed simp

lemma set_fields_dict_ok: "set_fields get ks d = Inr d' \<Longrightarrow> dict_ok d \<Longrightarrow> dict_ok d'"
  by (induction ks arbitrary: d) (auto split: option.splits)

lemma profile_fields_distinct: "distinct accounting_model_profile_fields"
  by code_simp

definition base_keys :: "string list" where
  "base_keys = [''model_id'', ''provider'', ''input_price_per_million'', ''output_price_per_million'']"

definition cache_keys :: "string list" where
  "cache_keys = [''input_cache_read_usd_per_million'', ''input_cache_write_usd_per_million'']"

lemma profile_key_facts:
  "set base_keys \<inter> set accounting_model_profile_fields = {}" "set cache_keys \<subseteq> set accounting_model_profile_fields"
  "set cache_keys \<subseteq> set profile_numbers" "set cache_keys \<inter> set base_keys = {}"
  by (code_simp, auto simp: cache_keys_def accounting_model_profile_fields_def profile_numbers_def base_keys_def)

text \<open>What a signed profile holds: a value of each kind for every key, in its normal form.\<close>

fun signed_value :: "string \<Rightarrow> json \<Rightarrow> bool" where
  "signed_value f v =
     (if f \<in> set profile_numbers then (\<exists>x. v = JFloat x)
      else if f \<in> set profile_flags then is_bool v
      else (\<exists>s. v = JStr s \<and> s \<noteq> [] \<and> strip s = s))"

lemma cache_field_Inr:
  "cache_field model c = Inr d \<Longrightarrow> d = [] \<or> (\<exists>x. Fin 0 < x \<and> d = [(''input_cache_'' @ c @ ''_usd_per_million'', JFloat x)])"
  by (auto simp: cache_field_def split: if_splits)

definition profile_normal :: "(string, json) dict \<Rightarrow> string \<Rightarrow> bool" where
  "profile_normal P pr \<longleftrightarrow> (\<exists>mid i out.
     map_of P ''model_id'' = Some (JStr mid) \<and> strip mid = mid \<and> mid \<noteq> [] \<and>
     map_of P ''provider'' = Some (JStr pr) \<and> pr \<noteq> [] \<and>
     map_of P ''input_price_per_million'' = Some (JFloat i) \<and> Fin 0 \<le> i \<and> isfinite i \<and>
     map_of P ''output_price_per_million'' = Some (JFloat out) \<and> Fin 0 \<le> out \<and> isfinite out) \<and>
   (\<forall>k\<in>set accounting_model_profile_fields. \<forall>v. map_of P k = Some v \<longrightarrow> signed_value k v) \<and>
   (\<forall>k. k \<notin> set accounting_model_profile_fields \<longrightarrow> k \<notin> set base_keys \<longrightarrow> map_of P k = None)"

lemma profile_field_value: "profile_field model f = Inr (Some v) \<Longrightarrow> signed_value f v"
  by (auto simp: profile_field_def Let_def profile_invalid_def split: if_splits option.splits)

lemma base_entries:
  fixes r w :: "(string, json) dict"
  assumes "r = [] \<or> (\<exists>x. r = [(''input_cache_read_usd_per_million'', JFloat x)])"
    "w = [] \<or> (\<exists>x. w = [(''input_cache_write_usd_per_million'', JFloat x)])"
    "base = [(''model_id'', m), (''provider'', p), (''input_price_per_million'', i), (''output_price_per_million'', out)] @ r @ w"
  shows "dict_ok base" "map_of base ''model_id'' = Some m" "map_of base ''provider'' = Some p"
    "map_of base ''input_price_per_million'' = Some i" "map_of base ''output_price_per_million'' = Some out"
    "k \<notin> set base_keys \<Longrightarrow> k \<notin> set cache_keys \<Longrightarrow> map_of base k = None"
    "k \<in> set cache_keys \<Longrightarrow> map_of base k = Some v \<Longrightarrow> \<exists>x. v = JFloat x"
  subgoal using assms by (elim disjE exE) (simp_all add: dict_ok_def)
  subgoal using assms by simp
  subgoal using assms by simp
  subgoal using assms by simp
  subgoal using assms by simp
  subgoal using assms by (elim disjE exE) (simp_all add: base_keys_def cache_keys_def)
  subgoal using assms by (elim disjE exE) (auto simp: cache_keys_def split: if_split_asm)
  done

lemma signed_profile_normal:
  assumes "signed_accounting_model_profile model p = Inr P"
  shows "profile_normal P (lower (strip p))" "dict_ok P" "map_of P ''model_id'' = Some (JStr (strip (text_at model ''model_id'')))"
proof -
  from assms obtain i out r w where c:
    "is_object model" "finite_profile_number (jget model ''input_price_per_million'') False = Inr (Some i)"
    "finite_profile_number (jget model ''output_price_per_million'') False = Inr (Some out)"
    "strip (text_at model ''model_id'') \<noteq> []" "lower (strip p) \<noteq> []" "\<not> i < Fin 0" "\<not> out < Fin 0"
    "cache_field model ''read'' = Inr r" "cache_field model ''write'' = Inr w"
    "set_fields (profile_field model) accounting_model_profile_fields
            ([(''model_id'', JStr (strip (text_at model ''model_id''))), (''provider'', JStr (lower (strip p))),
              (''input_price_per_million'', JFloat i), (''output_price_per_million'', JFloat out)] @ r @ w) = Inr P"
    unfolding signed_accounting_model_profile_def Let_def refuse_def
    by (simp split: if_splits option.split_asm) blast
  note fin = finite_profile_number_Some [OF c(2)] finite_profile_number_Some [OF c(3)]
  then have pos: "Fin 0 \<le> i" "Fin 0 \<le> out" using c(6,7) by (auto simp: isfinite_iff)
  define base where "base = [(''model_id'', JStr (strip (text_at model ''model_id''))), (''provider'', JStr (lower (strip p))),
              (''input_price_per_million'', JFloat i), (''output_price_per_million'', JFloat out)] @ r @ w"
  have rw: "r = [] \<or> (\<exists>x. r = [(''input_cache_read_usd_per_million'', JFloat x)])"
    "w = [] \<or> (\<exists>x. w = [(''input_cache_write_usd_per_million'', JFloat x)])"
    using cache_field_Inr [OF c(8)] cache_field_Inr [OF c(9)] by auto
  note b = base_entries [OF rw base_def]
  have set: "set_fields (profile_field model) accounting_model_profile_fields base = Inr P" using c(10) by (simp add: base_def)
  note P = set_fields_Inr [OF set profile_fields_distinct]
  show "dict_ok P" using set_fields_dict_ok [OF set b(1)] .
  have out: "map_of P k = map_of base k" if "k \<in> set base_keys \<or> k \<notin> set accounting_model_profile_fields" for k
    using P [of k] that profile_key_facts(1) by auto
  have base: "map_of P ''model_id'' = Some (JStr (strip (text_at model ''model_id'')))"
    "map_of P ''provider'' = Some (JStr (lower (strip p)))"
    "map_of P ''input_price_per_million'' = Some (JFloat i)" "map_of P ''output_price_per_million'' = Some (JFloat out)"
    using b(2-5) out by (simp_all add: base_keys_def)
  show "map_of P ''model_id'' = Some (JStr (strip (text_at model ''model_id'')))" by (rule base(1))
  have "signed_value k v" if k: "k \<in> set accounting_model_profile_fields" "map_of P k = Some v" for k v
  proof (cases "profile_field model k")
    case (Inr x)
    show ?thesis
    proof (cases x)
      case (Some y)
      then show ?thesis using P [of k] Inr k profile_field_value by simp
    next
      case None
      then have "map_of base k = Some v" using P [of k] Inr k by simp
      moreover have "k \<notin> set base_keys" using k(1) profile_key_facts(1) by auto
      ultimately have "k \<in> set cache_keys" "\<exists>x. v = JFloat x" using b(6) [of k] b(7) [of k v] by auto
      then show ?thesis using profile_key_facts(3) by auto
    qed
  next
    case (Inl e)
    then show ?thesis using set_fields_get [OF set k(1)] by simp
  qed
  moreover have "map_of P k = None" if "k \<notin> set accounting_model_profile_fields" "k \<notin> set base_keys" for k
    using out that b(6) [of k] profile_key_facts(2) by auto
  ultimately show "profile_normal P (lower (strip p))"
    unfolding profile_normal_def using base c(4,5) pos fin by auto
qed

lemma profile_field_again:
  assumes "\<And>v. map_of M f = Some v \<Longrightarrow> signed_value f v" "\<And>x. map_of M f = Some (JFloat x) \<Longrightarrow> isfinite x"
    "f \<in> set accounting_model_profile_fields"
  shows "profile_field (JObj M) f = Inr (map_of M f)"
proof (cases "map_of M f")
  case None
  then show ?thesis by (simp add: profile_field_def)
next
  case (Some v)
  with assms(1) have sv: "signed_value f v" by simp
  show ?thesis
  proof (cases "f \<in> set profile_numbers")
    case True
    then show ?thesis using assms(2) sv Some by (auto simp: profile_field_def finite_profile_number_def)
  next
    case False
    then show ?thesis using sv Some
      by (cases "f \<in> set profile_flags") (auto simp: profile_field_def Let_def split: json.splits if_splits)
  qed
qed

lemma number_at_signed:
  assumes "map_of M k = None \<or> (\<exists>x. map_of M k = Some (JFloat x) \<and> isfinite x)"
  shows "number_at (JObj M) k = Inr (case map_of M k of Some (JFloat x) \<Rightarrow> x | _ \<Rightarrow> Fin 0)"
  using assms by (auto simp: number_at_def as_float_def try_float_def isfinite_iff)

lemma cache_field_again:
  assumes "map_of M (''input_cache_'' @ c @ ''_usd_per_million'') = None \<or>
      (\<exists>x. map_of M (''input_cache_'' @ c @ ''_usd_per_million'') = Some (JFloat x) \<and> isfinite x)"
    "map_of M (''input_cache_'' @ c @ ''_per_million'') = None" "map_of M ''model_cost'' = None" "map_of M ''pricing'' = None"
  shows "\<exists>d. cache_field (JObj M) c = Inr d \<and> (d = [] \<or>
     (\<exists>x. d = [(''input_cache_'' @ c @ ''_usd_per_million'', JFloat x)]) \<and> map_of M (''input_cache_'' @ c @ ''_usd_per_million'') \<noteq> None)"
proof -
  have plain: "nested_model_cost (JObj M) k = Inr (Fin 0)" "listed_price (JObj M) k = Inr (Fin 0)" for k
    using assms(3,4) by (simp_all add: nested_model_cost_def listed_price_def)
  have other: "number_at (JObj M) (''input_cache_'' @ c @ ''_per_million'') = Inr (Fin 0)"
    using number_at_signed [of M "''input_cache_'' @ c @ ''_per_million''"] assms(2) by simp
  show ?thesis
  proof (cases "map_of M (''input_cache_'' @ c @ ''_usd_per_million'')")
    case None
    then have "number_at (JObj M) (''input_cache_'' @ c @ ''_usd_per_million'') = Inr (Fin 0)"
      using number_at_signed [OF assms(1)] by simp
    then show ?thesis using other plain by (simp add: cache_field_def model_cache_price_per_million_def)
  next
    case (Some v)
    then obtain x where "v = JFloat x" using assms(1) by auto
    then have "number_at (JObj M) (''input_cache_'' @ c @ ''_usd_per_million'') = Inr x"
      using number_at_signed [OF assms(1)] Some by simp
    then show ?thesis using other plain Some by (simp add: cache_field_def model_cache_price_per_million_def)
  qed
qed

lemma scalar_equal_signed:
  "signed_value k v \<or> (\<exists>s. v = JStr s) \<or> (\<exists>x. v = JFloat x) \<Longrightarrow> (\<And>x. v = JFloat x \<Longrightarrow> isfinite x) \<Longrightarrow> scalar_equal v v"
  by (cases v) (auto simp: isfinite_iff feq_def split: if_splits)

text \<open>A profile in normal form signs to the same entries.\<close>

lemma signed_again:
  assumes "profile_normal P pr" "\<And>k x. map_of P k = Some (JFloat x) \<Longrightarrow> isfinite x" "map_of M = map_of P" "lower (strip q) = pr"
  shows "\<exists>P'. signed_accounting_model_profile (JObj M) q = Inr P' \<and> map_of P' = map_of P"
proof -
  let ?F = "set accounting_model_profile_fields"
  from assms(1) obtain mid i out where n:
    "map_of P ''model_id'' = Some (JStr mid)" "strip mid = mid" "mid \<noteq> []" "map_of P ''provider'' = Some (JStr pr)" "pr \<noteq> []"
    "map_of P ''input_price_per_million'' = Some (JFloat i)" "Fin 0 \<le> i" "isfinite i"
    "map_of P ''output_price_per_million'' = Some (JFloat out)" "Fin 0 \<le> out" "isfinite out"
    unfolding profile_normal_def by blast
  have sv: "map_of P k = Some v \<Longrightarrow> k \<in> ?F \<Longrightarrow> signed_value k v" for k v
    using assms(1) unfolding profile_normal_def by blast
  have none: "k \<notin> ?F \<Longrightarrow> k \<notin> set base_keys \<Longrightarrow> map_of P k = None" for k
    using assms(1) unfolding profile_normal_def by blast
  have cached: "map_of M k = None \<or> (\<exists>x. map_of M k = Some (JFloat x) \<and> isfinite x)" if "k \<in> set cache_keys" for k
  proof (cases "map_of P k")
    case (Some v)
    moreover have "k \<in> ?F" "k \<in> set profile_numbers" using that profile_key_facts(2,3) by auto
    ultimately show ?thesis using sv [of k v] assms(2,3) by auto
  qed (simp add: assms(3))
  have absent: "map_of M ''input_cache_read_per_million'' = None" "map_of M ''input_cache_write_per_million'' = None"
    "map_of M ''model_cost'' = None" "map_of M ''pricing'' = None"
    unfolding assms(3) by (rule none; code_simp)+
  obtain r where r: "cache_field (JObj M) ''read'' = Inr r"
    "r = [] \<or> (\<exists>x. r = [(''input_cache_read_usd_per_million'', JFloat x)]) \<and> map_of M ''input_cache_read_usd_per_million'' \<noteq> None"
    using cache_field_again [of M "''read''"] cached [of "''input_cache_read_usd_per_million''"] absent by (auto simp: cache_keys_def)
  obtain w where w: "cache_field (JObj M) ''write'' = Inr w"
    "w = [] \<or> (\<exists>x. w = [(''input_cache_write_usd_per_million'', JFloat x)]) \<and> map_of M ''input_cache_write_usd_per_million'' \<noteq> None"
    using cache_field_again [of M "''write''"] cached [of "''input_cache_write_usd_per_million''"] absent by (auto simp: cache_keys_def)
  define base where "base = [(''model_id'', JStr mid), (''provider'', JStr pr), (''input_price_per_million'', JFloat i),
              (''output_price_per_million'', JFloat out)] @ r @ w"
  have rw: "r = [] \<or> (\<exists>x. r = [(''input_cache_read_usd_per_million'', JFloat x)])"
    "w = [] \<or> (\<exists>x. w = [(''input_cache_write_usd_per_million'', JFloat x)])" using r(2) w(2) by blast+
  note b = base_entries [OF rw base_def]
  have get: "profile_field (JObj M) k = Inr (map_of P k)" if "k \<in> ?F" for k
    using profile_field_again [of M k] sv assms(2,3) that by simp
  then obtain P' where P': "set_fields (profile_field (JObj M)) accounting_model_profile_fields base = Inr P'"
    using set_fields_ok [of accounting_model_profile_fields "profile_field (JObj M)" base] by blast
  have "map_of P' k = map_of P k" for k
  proof (cases "k \<in> ?F")
    case True
    have "map_of P k = None \<Longrightarrow> map_of base k = None"
      using r(2) w(2) True profile_key_facts(1) assms(3) unfolding base_def base_keys_def by (elim disjE exE conjE) auto
    then show ?thesis using set_fields_Inr [OF P' profile_fields_distinct, of k] get [OF True] True by (simp split: option.splits)
  next
    case False
    then have P'k: "map_of P' k = map_of base k" using set_fields_Inr [OF P' profile_fields_distinct, of k] by simp
    show ?thesis
    proof (cases "k \<in> set base_keys")
      case True
      then show ?thesis using P'k b(2-5) n by (auto simp: base_keys_def)
    next
      case False': False
      then show ?thesis using P'k none [OF False False'] b(6) [of k] False profile_key_facts(2) by auto
    qed
  qed
  moreover have "signed_accounting_model_profile (JObj M) q = Inr P'"
  proof -
    have "finite_profile_number (jget (JObj M) ''input_price_per_million'') False = Inr (Some i)"
      "finite_profile_number (jget (JObj M) ''output_price_per_million'') False = Inr (Some out)"
      using n assms(3) by (simp_all add: finite_profile_number_def)
    moreover have "text_at (JObj M) ''model_id'' = mid" using n assms(3) by (simp add: text_at_def jor_def)
    moreover have "\<not> i < Fin 0" "\<not> out < Fin 0" using n(7,8,10,11) by (auto simp: isfinite_iff)
    ultimately show ?thesis using n assms(4) r(1) w(1) P' unfolding base_def
      by (simp add: signed_accounting_model_profile_def Let_def)
  qed
  ultimately show ?thesis by blast
qed

section \<open>The token as text\<close>

text \<open>What \<^verbatim>\<open>json.loads\<close> makes of \<open>dumps_sorted v\<close>: the same value with the keys of its objects sorted.\<close>

primrec sorted_json :: "json \<Rightarrow> json" where
  "sorted_json JNull = JNull"
| "sorted_json (JBool b) = JBool b"
| "sorted_json (JInt i) = JInt i"
| "sorted_json (JFloat x) = JFloat x"
| "sorted_json (JStr s) = JStr s"
| "sorted_json (JArr xs) = JArr (map sorted_json xs)"
| "sorted_json (JObj kvs) = JObj (sort_by (<) fst (map (map_prod id sorted_json) kvs))"

definition sorted_dict :: "(string, json) dict \<Rightarrow> (string, json) dict" where
  "sorted_dict d = sort_by (<) fst (map (map_prod id sorted_json) d)"

lemma sorted_json_JObj: "sorted_json (JObj d) = JObj (sorted_dict d)"
  by (simp add: sorted_dict_def)

lemma map_of_sorted: "dict_ok d \<Longrightarrow> map_of (sorted_dict d) k = map_option sorted_json (map_of d k)"
proof -
  assume "dict_ok d"
  let ?m = "map (map_prod id sorted_json) d"
  have keys: "map fst ?m = map fst d" by simp
  have "mset (map fst (sorted_dict d)) = mset (map fst ?m)" unfolding sorted_dict_def mset_map by simp
  then have dk: "distinct (map fst (sorted_dict d))" "distinct (map fst ?m)"
    using \<open>dict_ok d\<close> keys unfolding dict_ok_def by (metis mset_eq_imp_distinct_iff)+
  have "map_of (sorted_dict d) = map_of ?m"
    using map_of_inject_set [OF dk] by (simp add: sorted_dict_def)
  then show ?thesis by (simp add: map_prod_def map_of_map)
qed

lemma split_token: "CHR ''.'' \<notin> set a \<Longrightarrow> split_max 1 (CHR ''.'') cur (a @ CHR ''.'' # b) = [rev cur @ a, b]"
proof (induction a arbitrary: cur)
  case Nil
  have "split_max 0 c cur s = [rev cur @ s]" for c cur s by (induction s arbitrary: cur) auto
  then show ?case by simp
qed auto

lemma signed_payload_token: "signed_payload mac (token_of mac payload) = Some payload"
proof -
  let ?t = "token_of mac payload"
  have "\<not> is_space c" if "c \<in> set ?t" for c
    using that encode_plain [of c] by (auto simp: token_of_def is_space_def)
  then have "strip ?t = ?t" using strip_idI [of ?t] hd_in_set [of ?t] last_in_set [of ?t] by blast
  moreover have "CHR ''.'' \<notin> set (base64url_encode payload)" using encode_plain by blast
  ultimately show ?thesis
    using split_token [of "base64url_encode payload" "[]" "base64url_encode (mac payload)"]
    by (simp add: signed_payload_def token_of_def base64_roundtrip)
qed

lemma strip_lower_strip [simp]: "strip (lower (strip s)) = lower (strip s)"
  using strip_ends [of s] by (intro strip_idI) (cases "strip s = []"; auto simp: lower_def hd_map last_map)

lemma equals_int_same [simp]: "equals_int (JInt i) i"
  by simp

lemma claim_missing_Nil: "claim_missing claim = [] \<longleftrightarrow> (\<forall>(k, v)\<in>set claim. k = ''v'' \<or> v \<noteq> JNull \<and> v \<noteq> JStr [])"
  by (auto simp: claim_missing_def filter_empty_conv)

lemma prepared_claim:
  assumes "prepare_claim q = Inr claim"
  obtains w P where "isfinite w" "Fin 0 < w"
    "signed_accounting_model_profile (cq_model_profile q) (lower (strip (cq_provider q))) = Inr P"
    "compare_digest (text_at (JObj P) ''model_id'') (strip (cq_model_id q)) = Inr True"
    "claim = claim_of q P (Some w)" "claim_missing claim = []"
proof -
  from assms obtain weight P where c: "finite_profile_number (cq_request_weight q) True = Inr weight"
    "signed_accounting_model_profile (cq_model_profile q) (lower (strip (cq_provider q))) = Inr P"
    "compare_digest (text_at (JObj P) ''model_id'') (strip (cq_model_id q)) = Inr True"
    "claim = claim_of q P weight" "claim_missing claim = []"
    unfolding prepare_claim_def Let_def by (auto split: if_splits)
  moreover have "weight \<noteq> None" using c(4,5) unfolding claim_missing_Nil by (cases weight) (simp_all add: claim_of_def)
  ultimately obtain w where w: "weight = Some w" by blast
  with finite_profile_number_Some c show thesis by (intro that [of w P]) auto
qed

text \<open>The entries of a claim that are texts, all of them stripped and none of them empty.\<close>

definition text_keys :: "string list" where
  "text_keys = [''user_id'', ''route_id'', ''route_name'', ''model_id'', ''provider'', ''routing_call_id'']"

definition execution_keys :: "string list" where
  "execution_keys = [''workflow_run_id'', ''budget_scope_id'', ''reservation_id'']"

lemma claim_text_entry:
  assumes "k \<in> set text_keys \<or> cq_execution q \<noteq> None \<and> k \<in> set execution_keys"
  shows "\<exists>s. map_of (claim_of q P w) k = Some (JStr s) \<and> strip s = s \<and> k \<noteq> ''v''"
proof (cases "cq_execution q")
  case None
  then show ?thesis using assms by (auto simp: claim_of_def text_keys_def)
next
  case (Some ex)
  then show ?thesis using assms by (auto simp: claim_of_def text_keys_def execution_keys_def)
qed

lemma claim_texts:
  assumes "claim = claim_of q P (Some w)" "claim_missing claim = []"
    "k \<in> set text_keys \<or> cq_execution q \<noteq> None \<and> k \<in> set execution_keys"
  shows "\<exists>s. map_of claim k = Some (JStr s) \<and> strip s \<noteq> []"
proof -
  obtain s where s: "map_of claim k = Some (JStr s)" "strip s = s" "k \<noteq> ''v''"
    using claim_text_entry [OF assms(3)] assms(1) by blast
  have "(k, JStr s) \<in> set claim" using s(1) by (rule map_of_SomeD)
  then have "s \<noteq> []" using assms(2) s(3) unfolding claim_missing_Nil by auto
  then show ?thesis using s by simp
qed

lemma claim_keys:
  "set (map fst (claim_of q P (Some w))) = set (if cq_execution q = None then legacy_keys else workflow_keys)"
  by (cases "cq_execution q") (auto simp: claim_of_def legacy_keys_def workflow_keys_def)

lemma claim_dict_ok: "dict_ok (claim_of q P w)"
  by (cases "cq_execution q") (simp_all add: claim_of_def dict_ok_def)

lemma shape_of_claim:
  assumes "claim = claim_of q P (Some w)" "claim_missing claim = []" "dom (map_of c) = dom (map_of claim)"
    "\<And>k. k \<noteq> ''model_profile'' \<Longrightarrow> map_of c k = map_of claim k"
  shows "shape_ok c"
proof -
  let ?ks = "if cq_execution q = None then legacy_keys else workflow_keys"
  have v: "jget (JObj c) ''v'' = JInt (case cq_execution q of None \<Rightarrow> 1 | Some _ \<Rightarrow> 2)"
    using assms(4) [of "''v''"] by (simp add: assms(1) claim_of_def)
  then have exp: "(if equals_int (jget (JObj c) ''v'') 2 then workflow_keys else legacy_keys) = ?ks"
    by (cases "cq_execution q") auto
  have "set (map fst c) = set ?ks" using assms(3) claim_keys [of q P w] by (simp add: assms(1) dom_map_of_conv_image_fst)
  moreover have "k \<in> set numeric_keys \<or> is_text (jget (JObj c) k)" if "k \<in> set ?ks" for k
  proof -
    have "k \<in> set numeric_keys \<or> k \<in> set text_keys \<or> cq_execution q \<noteq> None \<and> k \<in> set execution_keys"
      using that by (cases "cq_execution q = None") (auto simp: legacy_keys_def workflow_keys_def numeric_keys_def text_keys_def execution_keys_def)
    then show ?thesis
    proof (elim disjE)
      assume "k \<in> set numeric_keys" then show ?thesis ..
    next
      assume k: "k \<in> set text_keys"
      then have "k \<noteq> ''model_profile''" by (auto simp: text_keys_def)
      with claim_texts [OF assms(1,2)] k assms(4) show ?thesis by (fastforce simp: is_text_def)
    next
      assume k: "cq_execution q \<noteq> None \<and> k \<in> set execution_keys"
      then have "k \<noteq> ''model_profile''" by (auto simp: execution_keys_def)
      with claim_texts [OF assms(1,2)] k assms(4) show ?thesis by (fastforce simp: is_text_def)
    qed
  qed
  ultimately show ?thesis unfolding shape_ok_def Let_def exp
    using v by (cases "cq_execution q") (simp_all add: list_all_iff)
qed

section \<open>Verifying what was issued\<close>

lemma normal_profile_scalars:
  assumes "profile_normal P pr" "map_of P k = Some v"
  shows "signed_value k v \<or> (\<exists>s. v = JStr s) \<or> (\<exists>x. v = JFloat x)"
proof (cases "k \<in> set accounting_model_profile_fields")
  case True
  then show ?thesis using assms unfolding profile_normal_def by blast
next
  case False
  then have "k \<in> set base_keys" using assms unfolding profile_normal_def by force
  then show ?thesis using assms unfolding profile_normal_def by (auto simp: base_keys_def)
qed

lemma sorted_normal:
  assumes "profile_normal P pr" "dict_ok P"
  shows "map_of (sorted_dict P) = map_of P"
proof
  fix k
  have "sorted_json v = v" if "map_of P k = Some v" for v
    using normal_profile_scalars [OF assms(1) that] by (cases v) (auto split: if_splits)
  then show "map_of (sorted_dict P) k = map_of P k"
    by (cases "map_of P k") (simp_all add: map_of_sorted [OF assms(2)])
qed

lemma dict_equal_same:
  assumes "profile_normal P pr" "\<And>k x. map_of P k = Some (JFloat x) \<Longrightarrow> isfinite x" "map_of A = map_of P" "map_of B = map_of P" "dict_ok A"
  shows "dict_equal A (JObj B)"
proof -
  have keys: "set (map fst A) = set (map fst B)" using assms(3,4) by (metis dom_map_of_conv_image_fst set_map)
  have "scalar_equal x (jget (JObj B) k)" if "(k, x) \<in> set A" for k x
  proof -
    have "map_of P k = Some x" using that assms(3,5) map_of_is_SomeI [of A k x] unfolding dict_ok_def by simp
    then have "scalar_equal x x" using normal_profile_scalars [OF assms(1)] assms(2) scalar_equal_signed by blast
    then show ?thesis using \<open>map_of P k = Some x\<close> assms(4) by simp
  qed
  with keys show ?thesis by (auto simp: dict_equal_def list_all_iff)
qed

lemma text_of_JStr: "map_of d k = Some (JStr s) \<Longrightarrow> text_of d k = s"
  by (simp add: text_of_def)

lemma verify_claim_accepts:
  assumes shape: "shape_ok c" and w: "map_of c ''request_weight'' = Some (JFloat w)" "isfinite w" "Fin 0 < w"
    and p: "map_of c ''provider'' = Some (JStr pr)" "lower pr = pr"
    and m: "map_of c ''model_profile'' = Some (JObj M)"
    and sign: "signed_accounting_model_profile (JObj M) pr = Inr P'" "dict_equal P' (JObj M)"
    and same: "compare_digest (text_of P' ''model_id'') (text_of c ''model_id'') = Inr True"
    and ex: "equals_int (jget (JObj c) ''v'') 2 \<Longrightarrow> \<exists>n l. map_of c ''max_output_tokens'' = Some (JInt n) \<and> 0 < n \<and>
      map_of c ''call_limit_usd'' = Some (JFloat l) \<and> isfinite l \<and> Fin 0 < l"
  shows "\<exists>c'. verify_claim c = Inr c' \<and> map_of c' = (map_of c)(''model_profile'' \<mapsto> JObj P')"
proof -
  let ?c1 = "dict_set ''provider'' (JStr pr) (dict_set ''request_weight'' (JFloat w) c)"
  have c1: "map_of ?c1 = map_of c" using w(1) p(1) by (auto simp: dict_get_set)
  have get: "jget (JObj ?c1) k = jget (JObj c) k" "text_of ?c1 k = text_of c k" for k
    using c1 by (simp_all add: text_of_def)
  have weight: "finite_profile_number (jget (JObj c) ''request_weight'') True = Inr (Some w)"
    using w by (auto simp: finite_profile_number_def isfinite_iff)
  have claim1: "dict_set ''provider'' (JStr (lower (text_of c ''provider''))) (dict_set ''request_weight'' (JFloat w) c) = ?c1"
    using p by (simp add: text_of_JStr)
  have prof: "checked_profile (jget (JObj ?c1) ''model_profile'') (text_of ?c1 ''provider'') = Inr P'"
    "dict_equal P' (jget (JObj ?c1) ''model_profile'')"
    "compare_digest (text_of P' ''model_id'') (text_of ?c1 ''model_id'') = Inr True"
    unfolding get using m p sign same by (simp_all add: checked_profile_def text_of_JStr)
  obtain c2 where c2: "map_of c2 = map_of c"
    "(if \<not> equals_int (jget (JObj ?c1) ''v'') 2 then Inr ?c1
            else if \<not> Accounting.positive_int (jget (JObj ?c1) ''max_output_tokens'') then generic_error
            else rbind (lift (finite_profile_number (jget (JObj ?c1) ''call_limit_usd'') True)) (\<lambda>l. case l of
                None \<Rightarrow> generic_error
              | Some x \<Rightarrow> Inr (dict_set ''call_limit_usd'' (JFloat x) ?c1))) = Inr c2"
  proof (cases "equals_int (jget (JObj c) ''v'') 2")
    case False
    then show thesis using that [OF c1] by (simp only: get simp_thms if_True)
  next
    case True
    with ex obtain n l where nl: "map_of c ''max_output_tokens'' = Some (JInt n)" "0 < n"
      "map_of c ''call_limit_usd'' = Some (JFloat l)" "isfinite l" "Fin 0 < l" by blast
    then have "finite_profile_number (jget (JObj c) ''call_limit_usd'') True = Inr (Some l)"
      by (auto simp: finite_profile_number_def isfinite_iff)
    moreover have "map_of (dict_set ''call_limit_usd'' (JFloat l) ?c1) = map_of c" using c1 nl by (auto simp: dict_get_set)
    moreover have "Accounting.positive_int (jget (JObj c) ''max_output_tokens'')" using nl by simp
    ultimately show thesis using that [of "dict_set ''call_limit_usd'' (JFloat l) ?c1"] True by (simp add: get del: jget.simps)
  qed
  have "verify_claim c = Inr (dict_set ''model_profile'' (JObj P') c2)"
    unfolding verify_claim_def Let_def
    by (simp only: claim1 shape prof weight c2(2) rbind.simps lift.simps option.case simp_thms if_True if_False)
  then show ?thesis using c2(1) by (simp add: dict_get_set)
qed

lemma finite_entries: "json_finite (JObj d) \<Longrightarrow> map_of d k = Some v \<Longrightarrow> json_finite v"
  by (auto simp: list_all_iff dest!: map_of_SomeD)

lemma sorted_scalar: "map_of (sorted_dict d) k = Some v'" if "dict_ok d" "map_of d k = Some v" "sorted_json v = v'"
  using that by (simp add: map_of_sorted)

lemma claim_entries:
  "map_of (claim_of q P (Some w)) ''request_weight'' = Some (JFloat w)"
  "map_of (claim_of q P (Some w)) ''provider'' = Some (JStr (lower (strip (cq_provider q))))"
  "map_of (claim_of q P (Some w)) ''model_profile'' = Some (JObj P)"
  "map_of (claim_of q P (Some w)) ''model_id'' = Some (JStr (strip (cq_model_id q)))"
  "map_of (claim_of q P (Some w)) ''v'' = Some (JInt (case cq_execution q of None \<Rightarrow> 1 | Some _ \<Rightarrow> 2))"
  by (simp_all add: claim_of_def)

lemma claim_scalars:
  "k \<noteq> ''model_profile'' \<Longrightarrow> map_of (claim_of q P (Some w)) k = Some v \<Longrightarrow> sorted_json v = v"
  by (cases "cq_execution q") (auto simp: claim_of_def split: if_splits)

lemma verify_prepared:
  assumes "prepare_claim q = Inr claim" "json_finite (JObj claim)"
    "\<And>ex. cq_execution q = Some ex \<Longrightarrow> 0 < ex_max_output_tokens ex \<and> Fin 0 < ex_call_limit_usd ex"
  shows "\<exists>c P P'. verify_claim (sorted_dict claim) = Inr c \<and> map_of claim ''model_profile'' = Some (JObj P) \<and>
    map_of P' = map_of P \<and> map_of c = (map_of claim)(''model_profile'' \<mapsto> JObj P')"
proof -
  let ?pr = "lower (strip (cq_provider q))" and ?c = "sorted_dict claim"
  obtain w P where c: "isfinite w" "Fin 0 < w" "signed_accounting_model_profile (cq_model_profile q) ?pr = Inr P"
    "compare_digest (text_at (JObj P) ''model_id'') (strip (cq_model_id q)) = Inr True"
    "claim = claim_of q P (Some w)" "claim_missing claim = []"
    using prepared_claim [OF assms(1)] by metis
  note P = signed_profile_normal [OF c(3), simplified]
  note ent = claim_entries [of q P w, folded c(5)]
  have ok: "dict_ok claim" using claim_dict_ok c(5) by simp
  have fin: "isfinite x" if "map_of P k = Some (JFloat x)" for k x
    using finite_entries [OF finite_entries [OF assms(2) ent(3)] that] by simp
  have scal: "map_of ?c k = map_of claim k" if "k \<noteq> ''model_profile''" for k
    using claim_scalars [OF that, of q P w, folded c(5)] by (cases "map_of claim k") (simp_all add: map_of_sorted [OF ok])
  have M: "map_of ?c ''model_profile'' = Some (JObj (sorted_dict P))"
    using sorted_scalar [OF ok ent(3) sorted_json_JObj] .
  have dom: "dom (map_of ?c) = dom (map_of claim)" by (auto simp: map_of_sorted [OF ok])
  have "\<exists>P'. signed_accounting_model_profile (JObj (sorted_dict P)) ?pr = Inr P' \<and> map_of P' = map_of P"
    by (rule signed_again [OF P(1) _ sorted_normal [OF P(1,2)]], erule fin, simp)
  then obtain P' where P': "signed_accounting_model_profile (JObj (sorted_dict P)) ?pr = Inr P'" "map_of P' = map_of P" by blast
  have eq: "dict_equal P' (JObj (sorted_dict P))"
    by (rule dict_equal_same [OF P(1) _ P'(2) sorted_normal [OF P(1,2)] signed_profile_normal(2) [OF P'(1)]], erule fin)
  have same: "compare_digest (text_of P' ''model_id'') (text_of ?c ''model_id'') = Inr True"
    using c(4) P(3) P'(2) scal [of "''model_id''"] ent(4) by (auto simp: text_of_def text_at_def jor_def split: if_splits)
  have ex: "\<exists>n l. map_of ?c ''max_output_tokens'' = Some (JInt n) \<and> 0 < n \<and>
      map_of ?c ''call_limit_usd'' = Some (JFloat l) \<and> isfinite l \<and> Fin 0 < l" if v2: "equals_int (jget (JObj ?c) ''v'') 2"
  proof -
    obtain e where e: "cq_execution q = Some e" using v2 scal [of "''v''"] ent(5) by (cases "cq_execution q") auto
    then have m: "map_of claim ''max_output_tokens'' = Some (JInt (ex_max_output_tokens e))"
      "map_of claim ''call_limit_usd'' = Some (JFloat (ex_call_limit_usd e))" by (simp_all add: c(5) claim_of_def)
    then show ?thesis using assms(3) [OF e] scal finite_entries [OF assms(2) m(2)] by simp
  qed
  obtain c' where c': "verify_claim ?c = Inr c'" "map_of c' = (map_of ?c)(''model_profile'' \<mapsto> JObj P')"
    using verify_claim_accepts [OF shape_of_claim [OF c(5,6) dom scal] _ c(1,2) _ _ M P'(1) eq same ex] scal ent by auto
  have "map_of c' = (map_of claim)(''model_profile'' \<mapsto> JObj P')" unfolding c'(2) using scal by (auto simp: fun_eq_iff)
  then show ?thesis using c'(1) ent(3) P'(2) by blast
qed

lemma verify_token:
  assumes "length (token_of mac (dumps_sorted (JObj claim))) \<le> 8192"
    "loads (dumps_sorted (JObj claim)) = Some (sorted_json (JObj claim))"
  shows "verify_accounting_token mac loads (token_of mac (dumps_sorted (JObj claim))) = verify_claim (sorted_dict claim)"
proof -
  have "strip (token_of mac (dumps_sorted (JObj claim))) \<noteq> []"
    using signed_payload_token [of mac "dumps_sorted (JObj claim)"] by (auto simp: signed_payload_def)
  then show ?thesis using assms unfolding verify_accounting_token_def signed_payload_token
    by (simp add: sorted_json_JObj del: sorted_json.simps)
qed

text \<open>Property C9. The claim a service signs is the claim it verifies: a token issued for a request, when it
  is short enough to be accepted, verifies to the very entries that were signed, with a profile of the same
  entries, for a workflow call with a positive token and money limit as for a legacy one.\<close>

theorem token_roundtrip:
  assumes "prepare_claim q = Inr claim" "json_finite (JObj claim)"
    "\<And>ex. cq_execution q = Some ex \<Longrightarrow> 0 < ex_max_output_tokens ex \<and> Fin 0 < ex_call_limit_usd ex"
    "loads (dumps_sorted (JObj claim)) = Some (sorted_json (JObj claim))"
  shows "\<exists>token. issue_accounting_token mac q = Inr token \<and>
    (length token \<le> 8192 \<longrightarrow>
      (\<exists>c P P'. verify_accounting_token mac loads token = Inr c \<and> map_of claim ''model_profile'' = Some (JObj P) \<and>
         map_of P' = map_of P \<and> map_of c = (map_of claim)(''model_profile'' \<mapsto> JObj P')))"
proof (intro exI [of _ "token_of mac (dumps_sorted (JObj claim))"] conjI impI)
  let ?t = "token_of mac (dumps_sorted (JObj claim))"
  show "issue_accounting_token mac q = Inr ?t" using assms(1) by (simp add: issue_accounting_token_def)
  assume "length ?t \<le> 8192"
  then have "verify_accounting_token mac loads ?t = verify_claim (sorted_dict claim)" using verify_token assms(4) by blast
  then show "\<exists>c P P'. verify_accounting_token mac loads ?t = Inr c \<and> map_of claim ''model_profile'' = Some (JObj P) \<and>
         map_of P' = map_of P \<and> map_of c = (map_of claim)(''model_profile'' \<mapsto> JObj P')"
    using verify_prepared [OF assms(1-3)] by simp
qed

definition sample_request :: claim_request where
  "sample_request = \<lparr>cq_user_id = ''u1'', cq_route_id = ''r1'', cq_route_name = ''main'', cq_model_id = ''m'',
     cq_provider = '' Acme'', cq_model_profile = JObj [(''model_id'', JStr ''m ''), (''input_price_per_million'', JFloat (Fin 2)),
       (''output_price_per_million'', JFloat (Fin (5 / 2))), (''supports_tools'', JBool True)],
     cq_request_weight = JFloat (Fin 3), cq_routing_call_id = ''c1'',
     cq_execution = Some \<lparr>ex_run_id = ''w1'', ex_scope_id = ''s1'', ex_reservation_id = ''v1'',
       ex_call_limit_usd = Fin (1 / 4), ex_max_output_tokens = 64\<rparr>\<rparr>"

definition sample_claim :: "(string, json) dict" where
  "sample_claim = [(''v'', JInt 2), (''user_id'', JStr ''u1''), (''route_id'', JStr ''r1''), (''route_name'', JStr ''main''),
     (''model_id'', JStr ''m''), (''provider'', JStr ''acme''),
     (''model_profile'', JObj [(''model_id'', JStr ''m''), (''provider'', JStr ''acme''),
        (''input_price_per_million'', JFloat (Fin 2)), (''output_price_per_million'', JFloat (Fin (5 / 2))),
        (''supports_tools'', JBool True)]),
     (''request_weight'', JFloat (Fin 3)), (''routing_call_id'', JStr ''c1''),
     (''workflow_run_id'', JStr ''w1''), (''budget_scope_id'', JStr ''s1''), (''reservation_id'', JStr ''v1''),
     (''max_output_tokens'', JInt 64), (''call_limit_usd'', JFloat (Fin (1 / 4)))]"

definition sample_loads :: "string \<Rightarrow> json option" where
  "sample_loads s = (if s = dumps_sorted (JObj sample_claim) then Some (sorted_json (JObj sample_claim)) else None)"

lemma sample_prepared: "prepare_claim sample_request = Inr sample_claim"
  by code_simp

lemma sample_finite: "json_finite (JObj sample_claim)"
  by code_simp

lemma sample_limits: "cq_execution sample_request = Some ex \<Longrightarrow> 0 < ex_max_output_tokens ex \<and> Fin 0 < ex_call_limit_usd ex"
  by (auto simp: sample_request_def)

lemma base64_length: "length (base64url_encode v) \<le> 2 * length v"
  by (induction v rule: base64url_encode.induct) auto

lemma sample_length: "length (dumps_sorted (JObj sample_claim)) \<le> 2000"
  by code_simp

lemma token_roundtrip_witness:
  "\<exists>token. issue_accounting_token rev sample_request = Inr token \<and> length token \<le> 8192 \<and>
     (\<exists>c. verify_accounting_token rev sample_loads token = Inr c \<and> map_of c ''provider'' = Some (JStr ''acme''))"
proof -
  let ?text = "dumps_sorted (JObj sample_claim)"
  obtain token where t: "issue_accounting_token rev sample_request = Inr token"
    "length token \<le> 8192 \<longrightarrow> (\<exists>c P P'. verify_accounting_token rev sample_loads token = Inr c \<and>
         map_of sample_claim ''model_profile'' = Some (JObj P) \<and> map_of P' = map_of P \<and>
         map_of c = (map_of sample_claim)(''model_profile'' \<mapsto> JObj P'))"
    using token_roundtrip [OF sample_prepared sample_finite sample_limits, of sample_loads rev] sample_loads_def [of ?text] by auto
  have "token = token_of rev ?text" using t(1) sample_prepared by (simp add: issue_accounting_token_def)
  then have "length token \<le> 8192"
    using base64_length [of ?text] base64_length [of "rev ?text"] sample_length by (simp add: token_of_def)
  moreover have "map_of sample_claim ''provider'' = Some (JStr ''acme'')" by (simp add: sample_claim_def)
  ultimately show ?thesis using t by (intro exI [of _ token]) auto
qed

section \<open>What a verified claim is\<close>

lemma generic_error_not_Inr [simp]: "generic_error \<noteq> Inr x"
  by (simp add: generic_error_def)

lemma checked_profile_Inr: "checked_profile v p = Inr P \<longleftrightarrow> signed_accounting_model_profile v p = Inr P"
  by (auto simp: checked_profile_def split: sum.splits http_error.splits)

lemma verify_claim_Inr:
  assumes "verify_claim c0 = Inr c"
  obtains w P where "shape_ok c0" "isfinite w" "Fin 0 < w"
    "signed_accounting_model_profile (jget (JObj c0) ''model_profile'') (lower (text_of c0 ''provider'')) = Inr P"
    "dict_equal P (jget (JObj c0) ''model_profile'')" "text_of P ''model_id'' = text_of c0 ''model_id''"
    "map_of c ''request_weight'' = Some (JFloat w)" "map_of c ''model_profile'' = Some (JObj P)"
    "map_of c ''provider'' = Some (JStr (lower (text_of c0 ''provider'')))"
    "equals_int (jget (JObj c0) ''v'') 2 \<Longrightarrow> Accounting.positive_int (jget (JObj c0) ''max_output_tokens'') \<and>
       (\<exists>l. map_of c ''call_limit_usd'' = Some (JFloat l) \<and> isfinite l \<and> Fin 0 < l)"
    "\<And>k. k \<notin> {''request_weight'', ''model_profile'', ''provider'', ''call_limit_usd''} \<Longrightarrow> map_of c k = map_of c0 k"
proof -
  define c1 where "c1 = (\<lambda>w. dict_set ''provider'' (JStr (lower (text_of c0 ''provider''))) (dict_set ''request_weight'' (JFloat w) c0))"
  from assms have shape: "shape_ok c0" by (auto simp: verify_claim_def split: if_splits)
  have get: "jget (JObj (c1 w)) k = jget (JObj c0) k" if "k \<notin> {''provider'', ''request_weight''}" for w k
    using that by (simp add: c1_def dict_get_set)
  define stage where "stage = (\<lambda>d. if \<not> equals_int (jget (JObj d) ''v'') 2 then Inr d
            else if \<not> Accounting.positive_int (jget (JObj d) ''max_output_tokens'') then generic_error
            else rbind (lift (finite_profile_number (jget (JObj d) ''call_limit_usd'') True)) (\<lambda>l. case l of
                None \<Rightarrow> generic_error
              | Some x \<Rightarrow> Inr (dict_set ''call_limit_usd'' (JFloat x) d)))"
  define rest where "rest = (\<lambda>w. rbind (checked_profile (jget (JObj (c1 w)) ''model_profile'') (text_of (c1 w) ''provider'')) (\<lambda>profile.
          if \<not> dict_equal profile (jget (JObj (c1 w)) ''model_profile'') then generic_error
          else rbind (lift (compare_digest (text_of profile ''model_id'') (text_of (c1 w) ''model_id''))) (\<lambda>same.
            if \<not> same then generic_error
            else rbind (stage (c1 w)) (\<lambda>c2. Inr (dict_set ''model_profile'' (JObj profile) c2)))))"
  have "rbind (lift (finite_profile_number (jget (JObj c0) ''request_weight'') True)) (\<lambda>weight. case weight of
        None \<Rightarrow> generic_error | Some w \<Rightarrow> rest w) = Inr c"
    using assms shape unfolding rest_def stage_def c1_def verify_claim_def Let_def by (simp only: simp_thms if_False)
  then obtain n where n: "finite_profile_number (jget (JObj c0) ''request_weight'') True = Inr n"
    "(case n of None \<Rightarrow> generic_error | Some w \<Rightarrow> rest w) = Inr c" unfolding rbind_Inr_iff lift_Inr by metis
  then obtain w where w: "n = Some w" "rest w = Inr c" by (cases n) auto
  from w(2) obtain P where P:
    "checked_profile (jget (JObj (c1 w)) ''model_profile'') (text_of (c1 w) ''provider'') = Inr P"
    "dict_equal P (jget (JObj (c1 w)) ''model_profile'')"
    "rbind (lift (compare_digest (text_of P ''model_id'') (text_of (c1 w) ''model_id''))) (\<lambda>same.
            if \<not> same then generic_error
            else rbind (stage (c1 w)) (\<lambda>c2. Inr (dict_set ''model_profile'' (JObj P) c2))) = Inr c"
    unfolding rest_def by (subst (asm) rbind_Inr_iff) (auto simp only: if_True if_False simp_thms generic_error_not_Inr split: if_split_asm)
  then obtain c2 where c2: "compare_digest (text_of P ''model_id'') (text_of (c1 w) ''model_id'') = Inr True"
    "stage (c1 w) = Inr c2" "c = dict_set ''model_profile'' (JObj P) c2"
    by (auto simp only: rbind_Inr_iff lift_Inr simp_thms if_True if_False generic_error_not_Inr split: if_split_asm) blast
  note v = n(1) [unfolded w(1)] P(1,2) c2(1) c2(2) [unfolded stage_def] c2(3)
  have same: "text_of P ''model_id'' = text_of c0 ''model_id''"
    using v(4) get [of "''model_id''"] by (simp add: compare_digest_def text_of_def del: jget.simps split: if_splits)
  have prov: "text_of (c1 w) ''provider'' = lower (text_of c0 ''provider'')" by (simp add: c1_def text_of_def dict_get_set)
  have sign: "signed_accounting_model_profile (jget (JObj c0) ''model_profile'') (lower (text_of c0 ''provider'')) = Inr P"
    using v(2) by (simp add: checked_profile_Inr prov get del: jget.simps)
  have eq: "dict_equal P (jget (JObj c0) ''model_profile'')" using v(3) by (simp add: get del: jget.simps)
  show thesis
  proof (rule that [OF shape _ _ sign eq same])
    show "isfinite w" "Fin 0 < w" using finite_profile_number_Some [OF v(1)] by auto
    show "map_of c ''request_weight'' = Some (JFloat w)" "map_of c ''model_profile'' = Some (JObj P)"
      "map_of c ''provider'' = Some (JStr (lower (text_of c0 ''provider'')))"
      using v(5) unfolding v(6) by (auto simp: dict_get_set c1_def simp del: jget.simps split: if_split_asm option.split_asm)
    show "Accounting.positive_int (jget (JObj c0) ''max_output_tokens'') \<and>
       (\<exists>l. map_of c ''call_limit_usd'' = Some (JFloat l) \<and> isfinite l \<and> Fin 0 < l)"
      if "equals_int (jget (JObj c0) ''v'') 2"
      using v(5) that finite_profile_number_Some unfolding v(6)
      by (auto simp: get dict_get_set simp del: jget.simps split: if_split_asm option.split_asm)
    show "map_of c k = map_of c0 k" if "k \<notin> {''request_weight'', ''model_profile'', ''provider'', ''call_limit_usd''}" for k
      using v(5) that unfolding v(6) by (auto simp: dict_get_set c1_def simp del: jget.simps split: if_split_asm option.split_asm)
  qed
qed

text \<open>Property C8. What a verified token guarantees to the accounting: it is at most 8192 characters long and
  carries the service's own signature over a payload that has exactly the keys of its version and no blank
  text; the claim has a finite positive weight, whose debit is finite and not negative, a profile in
  the normal form signing produces, for the provider and the model of the claim, and for a workflow call a
  positive token limit and a finite positive money limit.\<close>

theorem verified_claim:
  assumes "verify_accounting_token mac loads token = Inr c"
  shows "length token \<le> 8192 \<and>
    (\<exists>payload c0. signed_payload mac token = Some payload \<and> loads payload = Some (JObj c0) \<and> shape_ok c0 \<and>
       (\<forall>k. k \<notin> {''request_weight'', ''model_profile'', ''provider'', ''call_limit_usd''} \<longrightarrow> map_of c k = map_of c0 k)) \<and>
    (\<exists>w. map_of c ''request_weight'' = Some (JFloat w) \<and> isfinite w \<and> Fin 0 < w) \<and>
    (\<exists>d. accounting_request_weight_debit c = Inr d \<and> isfinite d \<and> Fin 0 \<le> d) \<and>
    (\<exists>P. map_of c ''model_profile'' = Some (JObj P) \<and> profile_normal P (lower (strip (text_of c ''provider''))) \<and>
       text_of P ''model_id'' = text_of c ''model_id'') \<and>
    (equals_int (jget (JObj c) ''v'') 2 \<longrightarrow> 0 < wc_max_tokens (workflow_claim_of c) \<and>
       isfinite (wc_limit (workflow_claim_of c)) \<and> Fin 0 < wc_limit (workflow_claim_of c))"
proof -
  from assms obtain payload c0 where a: "length token \<le> 8192" "signed_payload mac token = Some payload"
    "loads payload = Some (JObj c0)" "verify_claim c0 = Inr c"
    by (auto simp: verify_accounting_token_def split: if_splits option.splits json.splits)
  obtain w P where v: "shape_ok c0" "isfinite w" "Fin 0 < w"
    "signed_accounting_model_profile (jget (JObj c0) ''model_profile'') (lower (text_of c0 ''provider'')) = Inr P"
    "text_of P ''model_id'' = text_of c0 ''model_id''"
    "map_of c ''request_weight'' = Some (JFloat w)" "map_of c ''model_profile'' = Some (JObj P)"
    "map_of c ''provider'' = Some (JStr (lower (text_of c0 ''provider'')))"
    "equals_int (jget (JObj c0) ''v'') 2 \<Longrightarrow> Accounting.positive_int (jget (JObj c0) ''max_output_tokens'') \<and>
       (\<exists>l. map_of c ''call_limit_usd'' = Some (JFloat l) \<and> isfinite l \<and> Fin 0 < l)"
    "\<And>k. k \<notin> {''request_weight'', ''model_profile'', ''provider'', ''call_limit_usd''} \<Longrightarrow> map_of c k = map_of c0 k"
    using verify_claim_Inr [OF a(4)] by metis
  have same: "jget (JObj c) k = jget (JObj c0) k" if "k \<notin> {''request_weight'', ''model_profile'', ''provider'', ''call_limit_usd''}" for k
    using v(10) [OF that] by simp
  have "\<exists>d. accounting_request_weight_debit c = Inr d \<and> isfinite d \<and> Fin 0 \<le> d"
    using v(2,3,6) by (auto simp: accounting_request_weight_debit_def isfinite_iff)
  moreover have "profile_normal P (lower (strip (text_of c ''provider'')))"
    using signed_profile_normal(1) [OF v(4)] v(8) by (simp add: text_of_def)
  moreover have "text_of P ''model_id'' = text_of c ''model_id''" using v(5) v(10) [of "''model_id''"] by (simp add: text_of_def)
  moreover have "0 < wc_max_tokens (workflow_claim_of c) \<and>
       isfinite (wc_limit (workflow_claim_of c)) \<and> Fin 0 < wc_limit (workflow_claim_of c)" if "equals_int (jget (JObj c) ''v'') 2"
  proof -
    have "equals_int (jget (JObj c0) ''v'') 2" using that same [of "''v''"] by simp
    from v(9) [OF this] show ?thesis using same [of "''max_output_tokens''"]
      by (cases "jget (JObj c0) ''max_output_tokens''") (auto simp: workflow_claim_of_def)
  qed
  ultimately show ?thesis using a v(1,2,3,6,7,10) by blast
qed

lemma sample_token:
  "verify_accounting_token rev sample_loads (token_of rev (dumps_sorted (JObj sample_claim))) = verify_claim (sorted_dict sample_claim)"
proof (rule verify_token)
  show "length (token_of rev (dumps_sorted (JObj sample_claim))) \<le> 8192"
    using base64_length [of "dumps_sorted (JObj sample_claim)"] base64_length [of "rev (dumps_sorted (JObj sample_claim))"] sample_length
    by (simp add: token_of_def)
qed (simp add: sample_loads_def)

lemma verified_claim_witness:
  "\<exists>c. verify_accounting_token rev sample_loads (token_of rev (dumps_sorted (JObj sample_claim))) = Inr c \<and>
     0 < wc_max_tokens (workflow_claim_of c)"
proof -
  obtain c P P' where c: "verify_claim (sorted_dict sample_claim) = Inr c" "map_of c = (map_of sample_claim)(''model_profile'' \<mapsto> JObj P')"
    using verify_prepared [OF sample_prepared sample_finite sample_limits] by blast
  have v: "jget (JObj c) ''v'' = JInt 2" using c(2) by (simp add: sample_claim_def)
  show ?thesis using verified_claim [OF sample_token [unfolded c(1)]] sample_token c(1) v by (simp del: jget.simps)
qed

end
