(* ===== verification/Budget_State.thy ===== *)
theory Budget_State
  imports Pricing
begin

text \<open>
  The adaptive budget of a route (\<^verbatim>\<open>src/frontend/lerouter_modal_api.py\<close>): the state that is
  read from a stored row or a request, the weight of a request, the malus that prices a
  candidate, the controller of the shadow price, and the scoring of the candidates. The
  settings read from the environment are a record; \<^verbatim>\<open>**\<close> and \<^verbatim>\<open>math.exp\<close> are arguments.
\<close>

record router_settings =
  rs_output_token_weight :: pyfloat
  rs_size_beta :: pyfloat
  rs_difficulty_alpha :: pyfloat
  rs_weight_min :: pyfloat
  rs_weight_cap :: pyfloat
  rs_price_initial :: pyfloat
  rs_learning_rate :: pyfloat
  rs_price_min :: pyfloat
  rs_price_max :: pyfloat

section \<open>Reading a budget\<close>

definition keys_remaining_weight :: "string list" where
  "keys_remaining_weight = [''remainingWeight'', ''remaining_weight'', ''weightRemaining'', ''weight_remaining'',
     ''remainingTimelineWeight'', ''remaining_timeline_weight'']"

definition keys_total_weight :: "string list" where
  "keys_total_weight = [''totalPredictedWeight'', ''total_predicted_weight'', ''timelineWeight'', ''timeline_weight'']"

definition keys_average_requests :: "string list" where
  "keys_average_requests = [''averageRequestsPerPeriod'', ''average_requests_per_period'', ''requestCountLastTimestamp'',
     ''request_count_last_timestamp'', ''numberOfRequestsLastTimestamp'', ''number_of_request_last_timestamp'']"

definition keys_weight_cap :: "string list" where
  "keys_weight_cap = [''requestWeightCapMultiplier'', ''request_weight_cap_multiplier'', ''cap_multiplier'']"

text \<open>The names the three readers share, each with its aliases.\<close>

definition weight_fields :: "(string \<times> string list) list" where
  "weight_fields =
     [(''remainingWeight'', keys_remaining_weight), (''totalPredictedWeight'', keys_total_weight),
      (''medianWeightedTokens'', [''medianWeightedTokens'', ''median_weighted_tokens'']),
      (''averageRequestsPerPeriod'', keys_average_requests),
      (''outputTokenWeight'', [''outputTokenWeight'', ''output_token_weight'', ''k_out'']),
      (''requestWeightBeta'', [''requestWeightBeta'', ''request_weight_beta'', ''beta''])]"

definition price_fields :: "(string \<times> string list) list" where
  "price_fields =
     [(''budgetShadowPrice'', [''budgetShadowPrice'', ''budget_shadow_price'']),
      (''budgetControllerLearningRate'', [''budgetControllerLearningRate'', ''budget_controller_learning_rate'']),
      (''budgetShadowPriceMin'', [''budgetShadowPriceMin'', ''budget_shadow_price_min'']),
      (''budgetShadowPriceMax'', [''budgetShadowPriceMax'', ''budget_shadow_price_max''])]"

definition row_fields :: "(string \<times> string list) list" where
  "row_fields =
     [(''budgetUsd'', [''budgetUsd'', ''budget_usd'']),
      (''budgetRemainingUsd'', [''budgetRemainingUsd'', ''remainingBudgetUsd'', ''remaining_budget_usd''])] @ weight_fields @
     [(''requestDifficultyAlpha'', [''requestDifficultyAlpha'', ''request_difficulty_alpha'']),
      (''requestWeightMin'', [''requestWeightMin'', ''request_weight_min'', ''r_min'']),
      (''requestWeightCapMultiplier'', keys_weight_cap),
      (''difficultyWeightAlpha'', [''difficultyWeightAlpha'', ''difficulty_weight_alpha'', ''alpha''])] @ price_fields"

definition metadata_fields :: "(string \<times> string list) list" where
  "metadata_fields =
     [(''budgetUsd'', [''budgetUsd'', ''budget_usd'', ''amount_usd'']),
      (''budgetRemainingUsd'', [''budgetRemainingUsd'', ''remainingBudgetUsd'', ''remaining_budget_usd'', ''remaining_usd''])] @
     weight_fields @
     [(''requestDifficultyAlpha'', [''requestDifficultyAlpha'', ''request_difficulty_alpha'', ''difficultyWeightAlpha'',
         ''difficulty_weight_alpha'', ''alpha'']),
      (''requestWeightMin'', [''requestWeightMin'', ''request_weight_min'', ''r_min'']),
      (''requestWeightCapMultiplier'', keys_weight_cap)] @ price_fields"

definition optional_number :: "json \<Rightarrow> string list \<Rightarrow> pyfloat option result" where
  "optional_number d keys = parse_optional_number (first_present d keys)"

fun number_or_null :: "pyfloat option \<Rightarrow> json" where
  "number_or_null None = JNull"
| "number_or_null (Some x) = JFloat x"

definition read_fields :: "json \<Rightarrow> (string \<times> string list) list \<Rightarrow> (string \<times> pyfloat option) list result" where
  "read_fields d table = rmap (\<lambda>(k, keys). rbind (optional_number d keys) (\<lambda>n. Inr (k, n))) table"

definition keys_mode :: "string list" where
  "keys_mode = [''spendAccountingMode'', ''spend_accounting_mode'']"

definition budget_from_row :: "json \<Rightarrow> json result" where
  "budget_from_row row =
     rbind (read_fields row row_fields) (\<lambda>fs.
     Inr (JObj (map (map_prod id number_or_null) fs @ [(''spendAccountingMode'', first_present row keys_mode)])))"

definition normalize_spend_accounting_mode :: "json \<Rightarrow> int \<Rightarrow> string http" where
  "normalize_spend_accounting_mode v status_code =
     (let normalized = lower (strip (py_str (jor v (JStr ''routing_fee'')))) in
      if normalized \<notin> {''routing_fee'', ''provider_spend''}
      then refuse status_code ''invalid_spend_accounting_mode''
        [(''message'', JStr ''spendAccountingMode must be routing_fee or provider_spend''),
         (''spend_accounting_mode'', JStr normalized)]
      else Inr normalized)"

definition controller_ok :: "pyfloat \<Rightarrow> pyfloat \<Rightarrow> pyfloat \<Rightarrow> pyfloat \<Rightarrow> bool" where
  "controller_ok shadow_price learning_rate price_min price_max =
     (list_all isfinite [shadow_price, learning_rate, price_min, price_max] \<and>
      \<not> price_min < Fin 0 \<and> \<not> price_max < price_min \<and> (price_min \<le> shadow_price \<and> shadow_price \<le> price_max) \<and>
      \<not> learning_rate < Fin 0)"

definition invalid_controller :: "int \<Rightarrow> string \<Rightarrow> (string, json) dict \<Rightarrow> 'a http" where
  "invalid_controller status message info =
     refuse status ''invalid_budget_controller'' ((''message'', JStr message) # info)"

definition set_default :: "string \<Rightarrow> pyfloat \<Rightarrow> (string, pyfloat) dict \<Rightarrow> (string, pyfloat) dict" where
  "set_default k v d = (if k \<in> fst ` set d then d else d @ [(k, v)])"

definition budget_metadata_fields :: "router_settings \<Rightarrow> json \<Rightarrow> (string, json) dict http" where
  "budget_metadata_fields rs metadata =
     (let budget = jget metadata ''budget'' in
      if \<not> is_object budget then Inr []
      else rbind (lift (read_fields budget metadata_fields)) (\<lambda>fs.
      let found = concat (map (\<lambda>(k, n). case n of None \<Rightarrow> [] | Some x \<Rightarrow> [(k, x)]) fs) in
      if found = [] then Inr []
      else
      let chosen = set_default ''budgetShadowPriceMax'' (rs_price_max rs) (set_default ''budgetShadowPriceMin'' (rs_price_min rs)
            (set_default ''budgetControllerLearningRate'' (rs_learning_rate rs)
              (set_default ''budgetShadowPrice'' (rs_price_initial rs) found)));
          field = (\<lambda>k. the (map_of chosen k)) in
      if \<not> controller_ok (field ''budgetShadowPrice'') (field ''budgetControllerLearningRate'') (field ''budgetShadowPriceMin'')
          (field ''budgetShadowPriceMax'')
      then invalid_controller 422 ''Budget shadow-price controller values are inconsistent'' []
      else rbind (normalize_spend_accounting_mode (first_present budget keys_mode) 422) (\<lambda>mode.
        Inr (map (map_prod id JFloat) chosen @ [(''spendAccountingMode'', JStr mode)]))))"

record budget_state =
  bs_budget_usd :: "pyfloat option"
  bs_remaining_usd :: pyfloat
  bs_remaining_weight :: pyfloat
  bs_total_weight :: pyfloat
  bs_median_tokens :: pyfloat
  bs_average_requests :: pyfloat
  bs_output_weight :: "pyfloat option"
  bs_weight_beta :: "pyfloat option"
  bs_request_alpha :: "pyfloat option"
  bs_weight_min :: "pyfloat option"
  bs_weight_cap :: "pyfloat option"
  bs_difficulty_alpha :: "pyfloat option"
  bs_shadow_price :: pyfloat
  bs_learning_rate :: pyfloat
  bs_price_min :: pyfloat
  bs_price_max :: pyfloat
  bs_mode :: string

definition required_number :: "json \<Rightarrow> string list \<Rightarrow> string \<Rightarrow> pyfloat http" where
  "required_number d keys name = parse_required_number (first_present d keys) name"

definition refuse_field :: "string \<Rightarrow> string \<Rightarrow> string \<Rightarrow> string \<Rightarrow> 'a http" where
  "refuse_field name message route_id field =
     refuse 409 name [(''message'', JStr message), (''route_id'', JStr route_id), (''field'', JStr field)]"

definition normalize_budget_state :: "json \<Rightarrow> string \<Rightarrow> budget_state http" where
  "normalize_budget_state raw route_id =
     rbind (required_number raw [''budgetRemainingUsd'', ''remainingBudgetUsd'', ''remaining_budget_usd'', ''remaining_usd'']
       ''budgetRemainingUsd'') (\<lambda>remaining_budget.
     rbind (required_number raw keys_remaining_weight ''remainingWeight'') (\<lambda>remaining_weight.
     if remaining_weight < Fin 0 then refuse_field ''budget_weight_required''
       ''remainingWeight must be non-negative for budget-aware scoring.'' route_id ''remainingWeight''
     else
     rbind (required_number raw keys_total_weight ''totalPredictedWeight'') (\<lambda>total_weight.
     if total_weight \<le> Fin 0 then refuse_field ''budget_weight_required''
       ''totalPredictedWeight must be greater than zero for budget-aware scoring.'' route_id ''totalPredictedWeight''
     else
     rbind (required_number raw [''medianWeightedTokens'', ''median_weighted_tokens''] ''medianWeightedTokens'') (\<lambda>median.
     if median \<le> Fin 0 then refuse_field ''budget_weight_required''
       ''medianWeightedTokens must be greater than zero for budget-aware scoring.'' route_id ''medianWeightedTokens''
     else
     rbind (required_number raw keys_average_requests ''averageRequestsPerPeriod'') (\<lambda>average_requests.
     if average_requests \<le> Fin 0 then refuse_field ''budget_request_count_required''
       ''averageRequestsPerPeriod must be greater than zero for budget-aware scoring.'' route_id ''averageRequestsPerPeriod''
     else
     rbind (required_number raw [''budgetShadowPrice'', ''budget_shadow_price''] ''budgetShadowPrice'') (\<lambda>shadow_price.
     rbind (required_number raw [''budgetControllerLearningRate'', ''budget_controller_learning_rate'']
       ''budgetControllerLearningRate'') (\<lambda>learning_rate.
     rbind (required_number raw [''budgetShadowPriceMin'', ''budget_shadow_price_min''] ''budgetShadowPriceMin'') (\<lambda>price_min.
     rbind (required_number raw [''budgetShadowPriceMax'', ''budget_shadow_price_max''] ''budgetShadowPriceMax'') (\<lambda>price_max.
     if \<not> controller_ok shadow_price learning_rate price_min price_max
     then invalid_controller 409 ''Budget shadow-price controller values are inconsistent'' [(''route_id'', JStr route_id)]
     else
     rbind (lift (optional_number raw [''budgetUsd'', ''amount_usd'', ''budget_usd''])) (\<lambda>budget_usd.
     rbind (lift (optional_number raw [''outputTokenWeight'', ''output_token_weight'', ''k_out''])) (\<lambda>output_weight.
     rbind (lift (optional_number raw [''requestWeightBeta'', ''request_weight_beta'', ''beta''])) (\<lambda>weight_beta.
     rbind (lift (optional_number raw [''requestDifficultyAlpha'', ''request_difficulty_alpha''])) (\<lambda>request_alpha.
     rbind (lift (optional_number raw [''requestWeightMin'', ''request_weight_min'', ''r_min''])) (\<lambda>weight_min.
     rbind (lift (optional_number raw keys_weight_cap)) (\<lambda>weight_cap.
     rbind (lift (optional_number raw [''difficultyWeightAlpha'', ''difficulty_weight_alpha'', ''alpha''])) (\<lambda>difficulty_alpha.
     rbind (normalize_spend_accounting_mode (first_present raw keys_mode) 409) (\<lambda>mode.
     Inr \<lparr>bs_budget_usd = budget_usd, bs_remaining_usd = pmax (Fin 0) remaining_budget, bs_remaining_weight = remaining_weight,
       bs_total_weight = total_weight, bs_median_tokens = median, bs_average_requests = average_requests,
       bs_output_weight = output_weight, bs_weight_beta = weight_beta, bs_request_alpha = request_alpha,
       bs_weight_min = weight_min, bs_weight_cap = weight_cap, bs_difficulty_alpha = difficulty_alpha,
       bs_shadow_price = shadow_price, bs_learning_rate = learning_rate, bs_price_min = price_min, bs_price_max = price_max,
       bs_mode = mode\<rparr>)))))))))))))))))"

text \<open>The stored row of the user, when the store answers: \<open>None\<close> is a store that raised.\<close>

definition load_user_budget :: "json option \<Rightarrow> string \<Rightarrow> json http" where
  "load_user_budget stored route_id =
     (case stored of
        None \<Rightarrow> refuse 503 ''budget_store_unavailable''
          [(''message'', JStr ''LeRouter could not load the required user budget state.''), (''route_id'', JStr route_id)]
      | Some row \<Rightarrow>
          if \<not> truthy row
          then refuse 409 ''budget_required''
            [(''message'', JStr ''A user budget must be configured before routing requests.''), (''route_id'', JStr route_id)]
          else lift (budget_from_row row))"

section \<open>The weight of a request\<close>

definition route_difficulty :: "json \<Rightarrow> pyfloat http" where
  "route_difficulty route_schema =
     rbind (parse_required_number (jget route_schema ''difficulty'') ''route_schema.difficulty'') (\<lambda>d. Inr (pmax (Fin 0) d))"

definition caller_bounded_output_prediction :: "json \<Rightarrow> json \<Rightarrow> pyfloat http" where
  "caller_bounded_output_prediction predicted_tokens request_options =
     rbind (lift (finite_profile_number predicted_tokens True)) (\<lambda>p. case p of
       None \<Rightarrow> refuse 502 ''invalid_length_prediction'' []
     | Some prediction \<Rightarrow>
         rbind (lift (parse_optional_number (jget request_options ''max_tokens''))) (\<lambda>c. case c of
           None \<Rightarrow> Inr prediction
         | Some caller_max_tokens \<Rightarrow>
             if caller_max_tokens \<le> Fin 0 then refuse 422 ''invalid_max_tokens'' []
             else Inr (pmin prediction caller_max_tokens)))"

definition predicted_output_tokens :: "json \<Rightarrow> json \<Rightarrow> pyfloat http" where
  "predicted_output_tokens route_schema request_options =
     rbind (lift (parse_optional_number (jget route_schema ''expected_output_tokens''))) (\<lambda>expected.
     rbind (lift (parse_optional_number (jget route_schema ''expected_output_k_tokens''))) (\<lambda>expected_k.
     case (case expected of Some x \<Rightarrow> Some x | None \<Rightarrow> map_option (\<lambda>k. k * Fin 1000) expected_k) of
       None \<Rightarrow> refuse 409 ''length_prediction_required''
         [(''message'', JStr ''Budget-aware scoring requires a model-predicted output length.''),
          (''field'', JStr ''expected_output_tokens'')]
     | Some prediction \<Rightarrow>
         rbind (caller_bounded_output_prediction (JFloat prediction) request_options) (\<lambda>n. Inr (pmax (Fin 1) n))))"

definition estimate_request_weight :: "(pyfloat \<Rightarrow> pyfloat \<Rightarrow> pyfloat result) \<Rightarrow> (pyfloat \<Rightarrow> pyfloat result) \<Rightarrow> json list \<Rightarrow>
    json \<Rightarrow> json \<Rightarrow> pyfloat \<Rightarrow> pyfloat \<Rightarrow> pyfloat \<Rightarrow> pyfloat \<Rightarrow> pyfloat \<Rightarrow> pyfloat \<Rightarrow> request_weight http" where
  "estimate_request_weight powf expf messages route_schema request_options median output_weight beta alpha weight_min weight_max =
     (let input_tokens = pmax (Fin 1) (chars_as_tokens (messages_text messages)) in
      rbind (predicted_output_tokens route_schema request_options) (\<lambda>output_tokens.
      rbind (route_difficulty route_schema) (\<lambda>difficulty.
      let weighted_tokens = input_tokens + pmax (Fin 0) output_weight * output_tokens;
          size_factor = fdiv weighted_tokens median in
      rbind (lift (powf (pmax (Fin 0) size_factor) beta)) (\<lambda>size_term.
      rbind (lift (expf (alpha * difficulty))) (\<lambda>difficulty_term.
      let unclipped = size_term * difficulty_term in
      Inr \<lparr>rw_difficulty = difficulty, rw_input_length_tokens = input_tokens, rw_output_length_tokens = output_tokens,
        rw_output_token_weight = output_weight, rw_weighted_tokens = weighted_tokens, rw_median_weighted_tokens = median,
        rw_size_factor = size_factor, rw_request_size_beta = beta, rw_request_difficulty_alpha = alpha,
        rw_unclipped_request_weight = unclipped, rw_request_weight_min = weight_min, rw_request_weight_max = weight_max,
        rw_request_weight = clamp unclipped (pmin weight_min weight_max) (pmax weight_min weight_max)\<rparr>)))))"

section \<open>Price and malus of a candidate\<close>

definition expected_model_price_usd :: "json \<Rightarrow> pyfloat \<Rightarrow> pyfloat \<Rightarrow> pyfloat result" where
  "expected_model_price_usd model input_tokens output_tokens =
     rbind (number_at model ''input_price_per_million'') (\<lambda>i.
     rbind (number_at model ''output_price_per_million'') (\<lambda>out.
     Inr (fdiv input_tokens million * pmax (Fin 0) i + fdiv output_tokens million * pmax (Fin 0) out)))"

definition fee_rate :: pyfloat where
  "fee_rate = fl (3 / 100)"

definition not_nan :: "pyfloat \<Rightarrow> pyfloat" where
  "not_nan x = (if x = NaN then Fin 0 else x)"

definition routing_fee_usd :: "pyfloat \<Rightarrow> pyfloat" where
  "routing_fee_usd final_request_spend_usd = py_round (pmax (Fin 0) (not_nan final_request_spend_usd) * fee_rate) 8"

record malus =
  ma_budget_per_weight :: pyfloat
  ma_planning_weight :: pyfloat
  ma_request_budget :: pyfloat
  ma_expected_price :: pyfloat
  ma_expected_debit :: pyfloat
  ma_utilization :: pyfloat
  ma_shadow_price :: pyfloat
  ma_malus :: pyfloat

definition checked_div :: "pyfloat \<Rightarrow> pyfloat \<Rightarrow> pyfloat result" where
  "checked_div x y = (if y = Fin 0 then Inl ZeroDivisionError else Inr (fdiv x y))"

definition calculate_adaptive_budget_malus :: "pyfloat \<Rightarrow> pyfloat \<Rightarrow> pyfloat \<Rightarrow> pyfloat \<Rightarrow> pyfloat \<Rightarrow> pyfloat \<Rightarrow> malus result" where
  "calculate_adaptive_budget_malus remaining_budget remaining_weight request_weight expected_price expected_debit shadow_price =
     (let planning_weight = pmax remaining_weight request_weight in
      rbind (checked_div remaining_budget planning_weight) (\<lambda>budget_per_weight.
      let request_budget = request_weight * budget_per_weight;
          utilization = fdiv expected_debit (pmax request_budget tolerance) in
      Inr \<lparr>ma_budget_per_weight = budget_per_weight, ma_planning_weight = planning_weight, ma_request_budget = request_budget,
        ma_expected_price = expected_price, ma_expected_debit = expected_debit, ma_utilization = utilization,
        ma_shadow_price = shadow_price, ma_malus = shadow_price * utilization\<rparr>))"

section \<open>The controller of the shadow price\<close>

record controller_update =
  cu_previous :: pyfloat
  cu_learning_rate :: pyfloat
  cu_allocated_spend :: pyfloat
  cu_allocated_weight :: pyfloat
  cu_actual_spend :: pyfloat
  cu_error :: pyfloat
  cu_next :: pyfloat

definition calculate_budget_controller_update :: "json \<Rightarrow> pyfloat \<Rightarrow> pyfloat \<Rightarrow> pyfloat option \<Rightarrow> controller_update http" where
  "calculate_budget_controller_update state debit request_weight allocated =
     rbind (required_number state [''budgetRemainingUsd'', ''remaining_budget_usd''] ''budgetRemainingUsd'') (\<lambda>remaining_budget.
     rbind (required_number state [''remainingWeight'', ''remaining_weight''] ''remainingWeight'') (\<lambda>remaining_weight.
     rbind (required_number state [''budgetShadowPrice'', ''budget_shadow_price''] ''budgetShadowPrice'') (\<lambda>shadow_price.
     rbind (required_number state [''budgetControllerLearningRate'', ''budget_controller_learning_rate'']
       ''budgetControllerLearningRate'') (\<lambda>learning_rate.
     rbind (required_number state [''budgetShadowPriceMin'', ''budget_shadow_price_min''] ''budgetShadowPriceMin'') (\<lambda>price_min.
     rbind (required_number state [''budgetShadowPriceMax'', ''budget_shadow_price_max''] ''budgetShadowPriceMax'') (\<lambda>price_max.
     let allocation = (case allocated of None \<Rightarrow> request_weight | Some a \<Rightarrow> a) in
     if \<not> list_all isfinite [remaining_budget, remaining_weight, shadow_price, learning_rate, price_min, price_max, debit,
          request_weight, allocation] \<or>
        remaining_budget < Fin 0 \<or> remaining_weight < Fin 0 \<or> debit < Fin 0 \<or> request_weight \<le> Fin 0 \<or> allocation < Fin 0 \<or>
        request_weight < allocation \<or> learning_rate < Fin 0 \<or> price_min < Fin 0 \<or> price_max < price_min \<or>
        \<not> (price_min \<le> shadow_price \<and> shadow_price \<le> price_max)
     then invalid_controller 409 ''Budget controller update requires finite, consistent state'' []
     else
     let planning_weight = pmax remaining_weight request_weight;
         allocated_spend = allocation * fdiv remaining_budget planning_weight;
         controller_error = debit - allocated_spend in
     Inr \<lparr>cu_previous = shadow_price, cu_learning_rate = learning_rate, cu_allocated_spend = allocated_spend,
       cu_allocated_weight = allocation, cu_actual_spend = debit, cu_error = controller_error,
       cu_next = clamp (shadow_price + learning_rate * controller_error) price_min price_max\<rparr>))))))"

section \<open>Scoring the candidates\<close>

record scored =
  sc_model :: json
  sc_quality :: pyfloat
  sc_malus :: malus
  sc_request_weight :: pyfloat
  sc_switch_penalty :: pyfloat
  sc_detail :: "switch_detail option"
  sc_final_score :: pyfloat

definition score_candidate :: "budget_state \<Rightarrow> request_weight \<Rightarrow> switch_cost \<Rightarrow> json \<Rightarrow> scored http" where
  "score_candidate budget weight switch model =
     rbind (lift (model_key model)) (\<lambda>model_id.
     rbind (lift (number_at model ''biencoder_score'')) (\<lambda>quality.
     rbind (lift (expected_model_price_usd model (rw_input_length_tokens weight) (rw_output_length_tokens weight))) (\<lambda>price.
     let debit = (if bs_mode budget = ''provider_spend'' then price else routing_fee_usd price) in
     rbind (lift (calculate_adaptive_budget_malus (bs_remaining_usd budget) (bs_remaining_weight budget)
         (rw_request_weight weight) price debit (bs_shadow_price budget))) (\<lambda>m.
     let penalty = (case map_of (so_penalties switch) model_id of None \<Rightarrow> Fin 0 | Some p \<Rightarrow> not_nan p) in
     Inr \<lparr>sc_model = model, sc_quality = quality, sc_malus = m, sc_request_weight = not_nan (rw_request_weight weight),
       sc_switch_penalty = penalty, sc_detail = map_of (so_details switch) model_id,
       sc_final_score = quality - not_nan (ma_malus m) - penalty\<rparr>))))"

fun or_setting :: "pyfloat option \<Rightarrow> pyfloat \<Rightarrow> pyfloat" where
  "or_setting None fallback = fallback"
| "or_setting (Some x) fallback = x"

definition request_weight_of :: "(pyfloat \<Rightarrow> pyfloat \<Rightarrow> pyfloat result) \<Rightarrow> (pyfloat \<Rightarrow> pyfloat result) \<Rightarrow> router_settings \<Rightarrow>
    budget_state \<Rightarrow> json list \<Rightarrow> json \<Rightarrow> json \<Rightarrow> request_weight http" where
  "request_weight_of powf expf rs budget messages route_schema request_options =
     (let cap = pmax (Fin 0) (or_setting (bs_weight_cap budget) (rs_weight_cap rs)) in
      estimate_request_weight powf expf messages route_schema request_options (bs_median_tokens budget)
        (or_setting (bs_output_weight budget) (rs_output_token_weight rs))
        (or_setting (bs_weight_beta budget) (rs_size_beta rs))
        (or_setting (bs_request_alpha budget) (or_setting (bs_difficulty_alpha budget) (rs_difficulty_alpha rs)))
        (pmax (Fin 0) (or_setting (bs_weight_min budget) (rs_weight_min rs)))
        (fdiv (bs_total_weight budget) (bs_average_requests budget) * cap))"

definition budget_aware_scoring :: "(pyfloat \<Rightarrow> pyfloat \<Rightarrow> pyfloat result) \<Rightarrow> (pyfloat \<Rightarrow> pyfloat result) \<Rightarrow> router_settings \<Rightarrow>
    json option \<Rightarrow> string \<Rightarrow> json list \<Rightarrow> json \<Rightarrow> json \<Rightarrow> json list \<Rightarrow> switch_cost \<Rightarrow> json \<Rightarrow> scored list http" where
  "budget_aware_scoring powf expf rs stored route_id messages route_schema request_options candidates switch budget_override =
     rbind (if truthy budget_override then normalize_budget_state budget_override route_id
       else rbind (load_user_budget stored route_id) (\<lambda>raw. normalize_budget_state raw route_id)) (\<lambda>budget.
     rbind (request_weight_of powf expf rs budget messages route_schema request_options) (\<lambda>weight.
     rbind (rmap (score_candidate budget weight switch) candidates) (\<lambda>scored.
     Inr (sort_by (rev_lt (<)) sc_final_score scored))))"

end
