(* ===== verification/Usage.thy ===== *)
theory Usage
  imports Accounting Budget_State
begin

text \<open>
  The usage log of the routing service (\<^verbatim>\<open>src/frontend/lerouter_modal_api.py\<close>): the spend a report may
  claim, the transaction that debits the budget of a route and inserts the log of a call, its retries,
  and the endpoint that settles a signed call. A stored document is a JSON dictionary, a date its
  microseconds. The budget of a user's route is the one document with that identity. What another writer
  does between two attempts, and how the database ends each attempt, are arguments. Timings of the
  stages are left out.
\<close>

section \<open>The spend of a call\<close>

definition count_invalid :: "string \<Rightarrow> 'a http" where
  "count_invalid alias = refuse 422 ''invalid_usage_token_count'' [(''field'', JStr alias)]"

fun supplied_counts :: "json \<Rightarrow> string list \<Rightarrow> pyfloat list http" where
  "supplied_counts usage [] = Inr []"
| "supplied_counts usage (alias # aliases) =
     (if jget usage alias = JNull then supplied_counts usage aliases
      else rbind (lift (finite_profile_number (jget usage alias) False)) (\<lambda>n. case n of
        None \<Rightarrow> count_invalid alias
      | Some v \<Rightarrow> if v < Fin 0 then count_invalid alias
          else rbind (supplied_counts usage aliases) (\<lambda>vs. Inr (v # vs))))"

definition usage_token_count :: "json \<Rightarrow> string list \<Rightarrow> string \<Rightarrow> pyfloat http" where
  "usage_token_count usage aliases field =
     rbind (supplied_counts usage aliases) (\<lambda>supplied. case supplied of
       [] \<Rightarrow> refuse 422 ''usage_token_count_required'' [(''field'', JStr field)]
     | v # vs \<Rightarrow>
         if \<not> list_all (\<lambda>x. is_close x v) vs
         then refuse 422 ''conflicting_usage_token_counts'' [(''field'', JStr field)]
         else Inr v)"

definition input_aliases :: "string list" where
  "input_aliases = [''prompt_tokens'', ''input_tokens'', ''promptTokens'', ''inputTokens'']"

definition output_aliases :: "string list" where
  "output_aliases = [''completion_tokens'', ''output_tokens'', ''completionTokens'', ''outputTokens'']"

definition usage_tokens :: "json \<Rightarrow> bool \<Rightarrow> (pyfloat \<times> pyfloat) http" where
  "usage_tokens usage success =
     (if \<not> is_object usage \<or> \<not> truthy usage
      then (if success
            then refuse 422 ''usage_token_counts_required''
              [(''message'', JStr ''Successful usage accounting requires explicit input and output token counts'')]
            else Inr (Fin 0, Fin 0))
      else
      rbind (usage_token_count usage input_aliases ''input_tokens'') (\<lambda>input_tokens.
      rbind (usage_token_count usage output_aliases ''output_tokens'') (\<lambda>output_tokens.
      Inr (input_tokens, output_tokens))))"

definition token_cost :: "pyfloat \<Rightarrow> pyfloat \<Rightarrow> pyfloat \<Rightarrow> pyfloat \<Rightarrow> pyfloat" where
  "token_cost input_tokens output_tokens input_price output_price =
     py_round (fdiv input_tokens million * input_price + fdiv output_tokens million * output_price) 8"

definition verified_usage_spend_usd :: "json \<Rightarrow> json \<Rightarrow> bool \<Rightarrow> pyfloat \<Rightarrow> pyfloat http" where
  "verified_usage_spend_usd model_profile metadata success supplied_spend_usd =
     rbind (usage_tokens (jget metadata ''usage'') success) (\<lambda>(input_tokens, output_tokens).
     rbind (lift (finite_profile_number (jget model_profile ''input_price_per_million'') False)) (\<lambda>input_price.
     rbind (lift (finite_profile_number (jget model_profile ''output_price_per_million'') False)) (\<lambda>output_price.
     case (input_price, output_price) of
       (Some i, Some out) \<Rightarrow>
         if i < Fin 0 \<or> out < Fin 0 then refuse 502 ''signed_model_prices_invalid'' []
         else
         let verified_spend = token_cost input_tokens output_tokens i out in
         if \<not> isfinite supplied_spend_usd \<or> supplied_spend_usd < Fin 0 \<or> \<not> feq (py_round supplied_spend_usd 8) verified_spend
         then refuse 422 ''usage_spend_mismatch'' [(''verified_spend_usd'', JFloat verified_spend)]
         else Inr verified_spend
     | _ \<Rightarrow> refuse 502 ''signed_model_prices_invalid'' [])))"

definition estimate_spend_usd :: "json \<Rightarrow> json list \<Rightarrow> json \<Rightarrow> pyfloat result" where
  "estimate_spend_usd model messages response =
     (let usage = jget response ''usage''; prompt = pmax (Fin 1) (chars_as_tokens (messages_text messages)) in
      rbind (if is_object usage then as_float (jor (jget usage ''prompt_tokens'') (jget usage ''input_tokens'')) prompt
             else Inr prompt) (\<lambda>input_tokens.
      rbind (if is_object usage then as_float (jor (jget usage ''completion_tokens'') (jget usage ''output_tokens'')) (Fin 0)
             else Inr (Fin 0)) (\<lambda>output_tokens.
      rbind (number_at model ''input_price_per_million'') (\<lambda>input_price.
      rbind (number_at model ''output_price_per_million'') (\<lambda>output_price.
      Inr (token_cost input_tokens output_tokens input_price output_price))))))"

section \<open>Keys and profiles\<close>

definition mongo_counter_key :: "string \<Rightarrow> string \<Rightarrow> string http" where
  "mongo_counter_key v field =
     (let key = strip v in
      if key = [] \<or> CHR ''.'' \<in> set key \<or> is_prefix ''$'' key then refuse 422 ''invalid_counter_key'' [(''field'', JStr field)]
      else Inr key)"

definition company_labels :: "(string \<times> string) list" where
  "company_labels =
     [(''anthropic'', ''Anthropic''), (''deepseek-ai'', ''DeepSeek''), (''deepseek'', ''DeepSeek''), (''google'', ''Google''),
      (''gemini'', ''Google''), (''meta'', ''Meta''), (''meta-llama'', ''Meta''), (''mistral'', ''Mistral''),
      (''mistralai'', ''Mistral''), (''moonshot'', ''Moonshot''), (''moonshotai'', ''Moonshot''), (''nvidia'', ''NVIDIA''),
      (''openai'', ''OpenAI''), (''qwen'', ''Qwen''), (''qwenlm'', ''Qwen''), (''x-ai'', ''xAI''), (''z-ai'', ''Z.ai'')]"

definition model_company_from_id :: "string \<Rightarrow> string option" where
  "model_company_from_id model_id =
     (if model_id = [] then None
      else let owner = filter (\<lambda>c. c \<noteq> CHR 0x7E) (lower (hd (pieces 1 model_id))) in
        case map_of company_labels owner of Some label \<Rightarrow> Some label | None \<Rightarrow> if owner = [] then None else Some owner)"

definition usage_profile_keys :: "string list" where
  "usage_profile_keys = [''model_id'', ''provider_native_model_id'', ''native_model_id'', ''profile_model'', ''profile_alias'',
     ''profile_hydrated'', ''strengths'', ''weaknesses'', ''context_k_tokens'', ''latency_ms'', ''model_size'',
     ''input_price_per_million'', ''output_price_per_million'', ''input_cache_read_usd_per_million'',
     ''input_cache_write_usd_per_million'', ''supports_tools'', ''supports_json'', ''supports_reasoning_effort'']"

definition set_cache_price :: "json \<Rightarrow> string \<Rightarrow> (string, json) dict \<Rightarrow> (string, json) dict result" where
  "set_cache_price model cache_key profile =
     rbind (model_cache_price_per_million model cache_key) (\<lambda>price.
     Inr (if Fin 0 < price then dict_set (''input_cache_'' @ cache_key @ ''_usd_per_million'') (JFloat price) profile else profile))"

definition usage_model_profile :: "json \<Rightarrow> string \<Rightarrow> (string, json) dict result" where
  "usage_model_profile model provider =
     rbind (set_cache_price model ''read''
       (map (\<lambda>k. (k, jget model k)) (filter (\<lambda>k. jget model k \<noteq> JNull) usage_profile_keys))) (\<lambda>p.
     rbind (set_cache_price model ''write'' p) (\<lambda>profile.
     Inr (dict_set ''provider'' (JStr provider) profile)))"

section \<open>The budget document\<close>

text \<open>Arithmetic of the database on stored numbers; \<open>None\<close> is an expression it rejects.\<close>

fun stored_number :: "json \<Rightarrow> pyfloat option" where
  "stored_number (JInt i) = Some (fl_of_int i)"
| "stored_number (JFloat x) = Some x"
| "stored_number _ = None"

definition if_null :: "json \<Rightarrow> json \<Rightarrow> json" where
  "if_null v d = (if v = JNull then d else v)"

fun add_numbers :: "json \<Rightarrow> json \<Rightarrow> json option" where
  "add_numbers (JInt a) (JInt b) = Some (JInt (a + b))"
| "add_numbers a b = (case (stored_number a, stored_number b) of
     (Some x, Some y) \<Rightarrow> Some (JFloat (x + y)) | _ \<Rightarrow> None)"

text \<open>\<open>field + n\<close>, with zero for a missing field.\<close>

definition plus_field :: "(string, json) dict \<Rightarrow> string \<Rightarrow> json \<Rightarrow> json option" where
  "plus_field d field n = (let zero = (case n of JFloat _ \<Rightarrow> JFloat (Fin 0) | _ \<Rightarrow> JInt 0) in
     add_numbers (if_null (jget (JObj d) field) zero) n)"

definition increment_object_field :: "json \<Rightarrow> string \<Rightarrow> json option" where
  "increment_object_field expression field =
     (case if_null expression (JObj []) of
        JObj kvs \<Rightarrow> map_option (\<lambda>n. JObj (dict_set field n kvs)) (plus_field kvs field (JInt 1))
      | _ \<Rightarrow> None)"

text \<open>\<open>max(field, 1)\<close> in the order of the database: every other type is above the numbers.\<close>

definition at_least_one :: "json \<Rightarrow> json" where
  "at_least_one v = (case stored_number v of
     None \<Rightarrow> v | Some x \<Rightarrow> if x = NaN \<or> x < Fin 1 then JInt 1 else v)"

definition success_rate :: "json \<Rightarrow> json \<Rightarrow> json option" where
  "success_rate successes requests =
     (case (stored_number successes, stored_number requests) of
        (Some s, Some t) \<Rightarrow> Some (JFloat (if Fin 0 < t then fdiv s t else Fin 0))
      | _ \<Rightarrow> None)"

fun set_all :: "(string \<times> json) list \<Rightarrow> (string, json) dict \<Rightarrow> (string, json) dict" where
  "set_all [] d = d"
| "set_all ((k, v) # kvs) d = set_all kvs (dict_set k v d)"

record usage_facts =
  uf_model_id :: string
  uf_provider :: string
  uf_lab :: "string option"
  uf_call_id :: string
  uf_weight :: pyfloat
  uf_weight_debit :: pyfloat
  uf_spend :: pyfloat
  uf_fee :: pyfloat
  uf_metadata :: "(string, json) dict"

definition count_of :: "bool \<Rightarrow> json" where
  "count_of b = JInt (if b then 1 else 0)"

definition usage_budget_update :: "pyfloat \<Rightarrow> pyfloat \<Rightarrow> controller_update \<Rightarrow> string \<Rightarrow> string option \<Rightarrow> bool \<Rightarrow> int \<Rightarrow>
    (string, json) dict \<Rightarrow> (string, json) dict option" where
  "usage_budget_update debit weight_debit u provider lab success now d =
     Option.bind (stored_number (jget (JObj d) ''budgetRemainingUsd'')) (\<lambda>remaining.
     Option.bind (stored_number (jget (JObj d) ''remainingWeight'')) (\<lambda>weight.
     Option.bind (plus_field d ''budgetControllerUpdates'' (JInt 1)) (\<lambda>updates.
     Option.bind (plus_field d ''totalRequests'' (JInt 1)) (\<lambda>requests.
     Option.bind (plus_field d ''totalSpendUsd'' (JFloat debit)) (\<lambda>spend.
     Option.bind (plus_field d ''successfulRequests'' (count_of success)) (\<lambda>successes.
     Option.bind (plus_field d ''failedRequests'' (count_of (\<not> success))) (\<lambda>failures.
     Option.bind (increment_object_field (jget (JObj d) ''providerCompletions'') provider) (\<lambda>providers.
     Option.bind (case lab of None \<Rightarrow> Some (if_null (jget (JObj d) ''labCompletions'') (JObj []))
                  | Some l \<Rightarrow> increment_object_field (jget (JObj d) ''labCompletions'') l) (\<lambda>labs.
     Option.bind (success_rate successes requests) (\<lambda>rate.
     Some (set_all
       [(''budgetRemainingUsd'', JFloat (remaining - debit)),
        (''remainingWeight'', JFloat (if Fin 0 < weight - weight_debit then weight - weight_debit else Fin 0)),
        (''budgetShadowPrice'', JFloat (cu_next u)), (''budgetControllerVersion'', JStr ''dual_gradient_allocated_ratio_v2''),
        (''lastBudgetControllerAllocatedSpendUsd'', JFloat (cu_allocated_spend u)),
        (''lastBudgetControllerActualSpendUsd'', JFloat (cu_actual_spend u)),
        (''lastBudgetControllerErrorUsd'', JFloat (cu_error u)), (''budgetControllerUpdates'', updates),
        (''totalRequests'', requests), (''totalSpendUsd'', spend), (''successfulRequests'', successes),
        (''failedRequests'', failures), (''providerCompletions'', providers), (''labCompletions'', labs),
        (''timeSpendDays'', at_least_one (if_null (jget (JObj d) ''timeSpendDays'') (JInt 0))), (''updatedAt'', JInt now),
        (''successRate'', rate)] d)))))))))))"

section \<open>The transaction\<close>

record usage_store =
  us_budgets :: "(string \<times> string, (string, json) dict) dict"
  us_users :: "(string, (string, json) dict) dict"
  us_logs :: "(string, json) dict list"

record usage_write =
  uw_user :: string
  uw_route :: string
  uw_route_name :: string
  uw_model :: json
  uw_provider :: string
  uw_success :: bool
  uw_spend :: pyfloat
  uw_metadata :: "(string, json) dict"
  uw_counters :: bool
  uw_weight_debit :: "pyfloat option"

definition unprocessable :: "string \<Rightarrow> 'a http" where
  "unprocessable detail = Inl (HTTPException 422 (JStr detail))"

definition object_of :: "json \<Rightarrow> (string, json) dict" where
  "object_of v = (case v of JObj kvs \<Rightarrow> kvs | _ \<Rightarrow> [])"

definition facts_metadata :: "usage_write \<Rightarrow> string option \<Rightarrow> pyfloat \<Rightarrow> (string, json) dict" where
  "facts_metadata w lab weight =
     set_all [(''modelLab'', jor (jget (JObj (uw_metadata w)) ''modelLab'') (case lab of None \<Rightarrow> JNull | Some l \<Rightarrow> JStr l)),
       (''request_weight'', if uw_counters w then JFloat weight else JNull),
       (''billing'', JObj (set_all [(''finalRequestSpendUsd'', JFloat (uw_spend w)),
          (''routingFeeUsd'', JFloat (routing_fee_usd (uw_spend w))), (''routingFeeRate'', JFloat fee_rate)]
          (object_of (jget (JObj (uw_metadata w)) ''billing''))))] (uw_metadata w)"

definition lab_key :: "string \<Rightarrow> string option http" where
  "lab_key model_id = (case model_company_from_id model_id of
     None \<Rightarrow> Inr None | Some lab \<Rightarrow> rbind (mongo_counter_key lab ''model_lab'') (\<lambda>l. Inr (Some l)))"

definition weight_debit_of :: "usage_write \<Rightarrow> pyfloat \<Rightarrow> pyfloat" where
  "weight_debit_of w weight =
     (let given = (case uw_weight_debit w of None \<Rightarrow> weight | Some x \<Rightarrow> x) in if given = NaN then Fin (- 1) else given)"

definition prepare_usage :: "usage_write \<Rightarrow> usage_facts http" where
  "prepare_usage w =
     (let model_id = strip (text_at (uw_model w) ''model_id'') in
      if model_id = [] then unprocessable ''usage log requires model_id''
      else
      rbind (mongo_counter_key (uw_provider w) ''provider'') (\<lambda>provider.
      rbind (lab_key model_id) (\<lambda>lab.
      let call_id = strip (text_at (JObj (uw_metadata w)) ''routing_call_id'') in
      if call_id = [] then unprocessable ''usage log requires routing_call_id''
      else
      rbind (lift (as_float (jget (uw_model w) ''request_weight'') (Fin (- 1)))) (\<lambda>weight.
      if uw_counters w \<and> weight \<le> Fin 0 then unprocessable ''usage log requires positive request_weight''
      else
      let weight_debit = weight_debit_of w weight in
      if uw_counters w \<and> (weight_debit < Fin 0 \<or> weight < weight_debit)
      then unprocessable ''usage log requires request_weight_debit between zero and request_weight''
      else if \<not> isfinite (uw_spend w) \<or> uw_spend w < Fin 0
      then unprocessable ''usage log requires finite nonnegative spend_usd''
      else Inr \<lparr>uf_model_id = model_id, uf_provider = provider, uf_lab = lab, uf_call_id = call_id, uf_weight = weight,
        uf_weight_debit = weight_debit, uf_spend = uw_spend w, uf_fee = routing_fee_usd (uw_spend w),
        uf_metadata = facts_metadata w lab weight\<rparr>))))"

definition budget_missing :: "usage_write \<Rightarrow> 'a http" where
  "budget_missing w = refuse 409 ''route_budget_state_missing''
     [(''route_id'', JStr (uw_route w)), (''message'', JStr ''Exact user+route budget state is required for usage logging'')]"

definition budget_accounting_facts :: "usage_write \<Rightarrow> usage_facts \<Rightarrow> usage_store \<Rightarrow> ((string, json) dict \<times> string \<times> pyfloat) http" where
  "budget_accounting_facts w f st =
     (case map_of (us_budgets st) (uw_user w, uw_route w) of
        None \<Rightarrow> budget_missing w
      | Some d \<Rightarrow>
          rbind (normalize_spend_accounting_mode (first_present (JObj d) keys_mode) 409) (\<lambda>mode.
          Inr (d, mode, if mode = ''provider_spend'' then uf_spend f else uf_fee f)))"

definition is_log_of :: "string \<Rightarrow> string \<Rightarrow> string \<Rightarrow> (string, json) dict \<Rightarrow> bool" where
  "is_log_of user_id route_id call_id d =
     (map_of d ''userId'' = Some (JStr user_id) \<and> map_of d ''routeId'' = Some (JStr route_id) \<and>
      map_of d ''routingCallId'' = Some (JStr call_id))"

definition stored_log :: "usage_write \<Rightarrow> usage_facts \<Rightarrow> usage_store \<Rightarrow> (string, json) dict option" where
  "stored_log w f st = List.find (is_log_of (uw_user w) (uw_route w) (uf_call_id f)) (us_logs st)"

definition close_number :: "json \<Rightarrow> pyfloat \<Rightarrow> bool result" where
  "close_number v y = rbind (finite_profile_number v False) (\<lambda>n. Inr (case n of None \<Rightarrow> False | Some x \<Rightarrow> is_close x y))"

text \<open>A weight is compared only when the counters were updated; otherwise none may be stored.\<close>

definition weight_matches :: "bool \<Rightarrow> json \<Rightarrow> pyfloat \<Rightarrow> bool result" where
  "weight_matches counters v y =
     rbind (parse_optional_number v) (\<lambda>n. Inr (
       if \<not> counters then v = JNull else (case n of None \<Rightarrow> False | Some x \<Rightarrow> is_close x y)))"

definition stored_provider_spend :: "json \<Rightarrow> json" where
  "stored_provider_spend e =
     (if jget e ''providerSpendUsd'' \<noteq> JNull then jget e ''providerSpendUsd''
      else jget (jget (jget e ''metadata'') ''billing'') ''finalRequestSpendUsd'')"

definition usage_mismatches :: "json \<Rightarrow> usage_write \<Rightarrow> usage_facts \<Rightarrow> string \<Rightarrow> pyfloat \<Rightarrow> string list result" where
  "usage_mismatches e w f mode debit =
     rbind (close_number (jget e ''spendUsd'') (uf_fee f)) (\<lambda>fee.
     rbind (close_number (stored_provider_spend e) (uf_spend f)) (\<lambda>spend.
     rbind (close_number (jget e ''accountedSpendUsd'') debit) (\<lambda>accounted.
     rbind (weight_matches (uw_counters w) (jget e ''requestWeight'') (uf_weight f)) (\<lambda>weight.
     rbind (weight_matches (uw_counters w) (jget e ''requestWeightDebit'') (uf_weight_debit f)) (\<lambda>weight_debit.
     Inr (map fst (filter (\<lambda>(k, same). \<not> same)
       [(''routeName'', jget e ''routeName'' = JStr (uw_route_name w)), (''modelId'', jget e ''modelId'' = JStr (uf_model_id f)),
        (''provider'', jget e ''provider'' = JStr (uf_provider f)), (''success'', scalar_equal (JBool (uw_success w)) (jget e ''success'')),
        (''accountingCountersUpdated'', scalar_equal (JBool (uw_counters w)) (jget e ''accountingCountersUpdated'')),
        (''spendUsd'', fee), (''providerSpendUsd'', spend), (''spendAccountingMode'', jget e ''spendAccountingMode'' = JStr mode),
        (''accountedSpendUsd'', accounted), (''requestWeight'', weight), (''requestWeightDebit'', weight_debit)])))))))"

definition require_idempotent_usage_match :: "(string, json) dict \<Rightarrow> usage_write \<Rightarrow> usage_facts \<Rightarrow> string \<Rightarrow> pyfloat \<Rightarrow> (string, json) dict http" where
  "require_idempotent_usage_match existing w f mode debit =
     rbind (lift (usage_mismatches (JObj existing) w f mode debit)) (\<lambda>mismatches.
     if mismatches \<noteq> []
     then refuse 409 ''routing_call_id_conflict''
       [(''message'', JStr ''routing_call_id was already used with different accounting facts''),
        (''mismatched_fields'', JArr (map JStr (sort_by (<) id mismatches)))]
     else Inr existing)"

text \<open>The counters of the user: \<^verbatim>\<open>$inc\<close> of a missing field sets it, of another type fails.\<close>

definition inc_field :: "string \<Rightarrow> json \<Rightarrow> (string, json) dict \<Rightarrow> (string, json) dict option" where
  "inc_field k n d = (case map_of d k of
     None \<Rightarrow> Some (dict_set k n d)
   | Some v \<Rightarrow> map_option (\<lambda>s. dict_set k s d) (add_numbers v n))"

definition inc_in_object :: "string \<Rightarrow> string \<Rightarrow> (string, json) dict \<Rightarrow> (string, json) dict option" where
  "inc_in_object outer k d = (case map_of d outer of
     None \<Rightarrow> Some (dict_set outer (JObj [(k, JInt 1)]) d)
   | Some (JObj kvs) \<Rightarrow> map_option (\<lambda>e. dict_set outer (JObj e) d) (inc_field k (JInt 1) kvs)
   | Some _ \<Rightarrow> None)"

definition user_aggregate_update :: "usage_write \<Rightarrow> usage_facts \<Rightarrow> int \<Rightarrow> (string, json) dict \<Rightarrow> (string, json) dict option" where
  "user_aggregate_update w f now d =
     Option.bind (inc_field ''totalRequests'' (JInt 1) d) (\<lambda>d1.
     Option.bind (inc_field ''totalSpendUsd'' (JFloat (uf_fee f)) d1) (\<lambda>d2.
     Option.bind (inc_field ''successfulRequests'' (count_of (uw_success w)) d2) (\<lambda>d3.
     Option.bind (inc_field ''failedRequests'' (count_of (\<not> uw_success w)) d3) (\<lambda>d4.
     Option.bind (inc_in_object ''providerCompletions'' (uf_provider f) d4) (\<lambda>d5.
     Option.bind (case uf_lab f of None \<Rightarrow> Some d5 | Some l \<Rightarrow> inc_in_object ''labCompletions'' l d5) (\<lambda>d6.
     Some (set_all [(''lastRequestAt'', JInt now), (''updatedAt'', JInt now)] d6)))))))"

definition budget_selected :: "bool \<Rightarrow> pyfloat \<Rightarrow> (string, json) dict \<Rightarrow> bool" where
  "budget_selected counters debit d =
     (case (stored_number (jget (JObj d) ''budgetRemainingUsd''), stored_number (jget (JObj d) ''remainingWeight'')) of
        (Some remaining, Some _) \<Rightarrow> \<not> counters \<or> debit \<le> remaining
      | _ \<Rightarrow> False)"

definition controller_json :: "controller_update \<Rightarrow> json" where
  "controller_json u = JObj [(''controller_version'', JStr ''dual_gradient_allocated_ratio_v2''),
     (''previous_shadow_price'', JFloat (cu_previous u)), (''learning_rate'', JFloat (cu_learning_rate u)),
     (''allocated_spend_usd'', JFloat (cu_allocated_spend u)), (''allocated_request_weight'', JFloat (cu_allocated_weight u)),
     (''actual_spend_usd'', JFloat (cu_actual_spend u)), (''controller_error_usd'', JFloat (cu_error u)),
     (''next_shadow_price'', JFloat (cu_next u))]"

definition log_metadata :: "usage_facts \<Rightarrow> string \<Rightarrow> pyfloat \<Rightarrow> controller_update option \<Rightarrow> json" where
  "log_metadata f mode debit u =
     JObj (set_all [(''billing'', JObj (set_all [(''accountedSpendUsd'', JFloat debit), (''spendAccountingMode'', JStr mode)]
        (object_of (jget (JObj (uf_metadata f)) ''billing'')))),
       (''budget_controller'', case u of None \<Rightarrow> JNull | Some x \<Rightarrow> controller_json x)] (uf_metadata f))"

definition usage_document :: "string \<Rightarrow> int \<Rightarrow> usage_write \<Rightarrow> usage_facts \<Rightarrow> string \<Rightarrow> pyfloat \<Rightarrow> controller_update option \<Rightarrow>
    (string, json) dict \<Rightarrow> (string, json) dict \<Rightarrow> (string, json) dict" where
  "usage_document uuid now w f mode debit u profile budget =
     (let session = strip (text_at (JObj (uf_metadata f)) ''session_id'');
          counted = (\<lambda>x. if uw_counters w then JFloat x else JNull) in
     [(''id'', JStr uuid), (''userId'', JStr (uw_user w)), (''routeId'', JStr (uw_route w)),
      (''routingCallId'', JStr (uf_call_id f)), (''sessionId'', if session = [] then JNull else JStr session),
      (''routeName'', JStr (uw_route_name w)), (''provider'', JStr (uf_provider f)), (''modelId'', JStr (uf_model_id f)),
      (''modelProfile'', JObj profile), (''success'', JBool (uw_success w)), (''spendUsd'', JFloat (uf_fee f)),
      (''providerSpendUsd'', JFloat (uf_spend f)), (''routingFeeUsd'', JFloat (uf_fee f)),
      (''accountedSpendUsd'', JFloat debit), (''spendAccountingMode'', JStr mode),
      (''budgetRemainingUsd'', jget (JObj budget) ''budgetRemainingUsd''), (''remainingWeight'', jget (JObj budget) ''remainingWeight''),
      (''budgetShadowPrice'', jget (JObj budget) ''budgetShadowPrice''),
      (''requestWeight'', counted (uf_weight f)), (''requestWeightDebit'', counted (uf_weight_debit f)),
      (''accountingCountersUpdated'', JBool (uw_counters w)), (''metadata'', log_metadata f mode debit u),
      (''createdAt'', JInt now)])"

text \<open>The budget of the route and the counters of the user after the call, or the refusal.\<close>

definition database_refuses :: "'a http" where
  "database_refuses = Inl (Raised (RuntimeError ''OperationFailure''))"

definition debit_budget :: "int \<Rightarrow> usage_write \<Rightarrow> usage_facts \<Rightarrow> pyfloat \<Rightarrow> controller_update \<Rightarrow> (string, json) dict \<Rightarrow> (string, json) dict http" where
  "debit_budget now w f debit u d =
     (if \<not> budget_selected True debit d
      then refuse 409 ''route_budget_exhausted''
        [(''route_id'', JStr (uw_route w)), (''message'', JStr ''Exact user+route dollar budget is insufficient'')]
      else case usage_budget_update debit (uf_weight_debit f) u (uf_provider f) (uf_lab f) (uw_success w) now d of
        None \<Rightarrow> database_refuses | Some d' \<Rightarrow> Inr d')"

definition count_user :: "int \<Rightarrow> usage_write \<Rightarrow> usage_facts \<Rightarrow> usage_store \<Rightarrow> (string, json) dict http" where
  "count_user now w f st =
     (case map_of (us_users st) (uw_user w) of
        None \<Rightarrow> Inl (HTTPException 409 (JStr ''Exact usage user state is missing''))
      | Some d \<Rightarrow> (case user_aggregate_update w f now d of None \<Rightarrow> database_refuses | Some d' \<Rightarrow> Inr d'))"

definition insert_log :: "string \<Rightarrow> int \<Rightarrow> usage_write \<Rightarrow> usage_facts \<Rightarrow> string \<Rightarrow> pyfloat \<Rightarrow> controller_update option \<Rightarrow>
    (string, json) dict \<Rightarrow> usage_store \<Rightarrow> ((string, json) dict \<times> usage_store) http" where
  "insert_log uuid now w f mode debit u budget st =
     rbind (lift (usage_model_profile (uw_model w) (uf_provider f))) (\<lambda>profile.
     let document = usage_document uuid now w f mode debit u profile budget in
     Inr (document, st\<lparr>us_logs := us_logs st @ [document]\<rparr>))"

definition persist :: "string \<Rightarrow> int \<Rightarrow> usage_write \<Rightarrow> usage_facts \<Rightarrow> usage_store \<Rightarrow> ((string, json) dict \<times> usage_store) http" where
  "persist uuid now w f st =
     rbind (budget_accounting_facts w f st) (\<lambda>(d, mode, debit).
     case stored_log w f st of
       Some existing \<Rightarrow> rbind (require_idempotent_usage_match existing w f mode debit) (\<lambda>e. Inr (e, st))
     | None \<Rightarrow>
         if uw_counters w
         then
         rbind (calculate_budget_controller_update (JObj d) debit (uf_weight f) (Some (uf_weight_debit f))) (\<lambda>u.
         rbind (debit_budget now w f debit u d) (\<lambda>budget.
         rbind (count_user now w f st) (\<lambda>user.
         insert_log uuid now w f mode debit (Some u) budget
           (st\<lparr>us_budgets := dict_set (uw_user w, uw_route w) budget (us_budgets st),
               us_users := dict_set (uw_user w) user (us_users st)\<rparr>))))
         else if \<not> budget_selected False debit d then budget_missing w
         else insert_log uuid now w f mode debit None d st)"

section \<open>Retries\<close>

record tx_error =
  te_duplicate :: bool
  te_pymongo :: bool
  te_transient :: bool
  te_code :: json
  te_details :: json

fun code_int :: "json \<Rightarrow> int option result" where
  "code_int (JInt i) = Inr (Some i)"
| "code_int (JFloat x) = (case float_int x of Inl (ValueError _) \<Rightarrow> Inr None | Inl e \<Rightarrow> Inl e | Inr i \<Rightarrow> Inr (Some i))"
| "code_int (JStr s) = Inr (parse_int s)"
| "code_int _ = Inr None"

definition mongo_error_code :: "tx_error \<Rightarrow> int option result" where
  "mongo_error_code e = code_int (if te_code e \<noteq> JNull then te_code e else jget (te_details e) ''code'')"

definition is_retryable_usage_log_transaction_error :: "tx_error \<Rightarrow> bool result" where
  "is_retryable_usage_log_transaction_error e =
     (if \<not> te_pymongo e then Inr False
      else if te_transient e then Inr True
      else rbind (mongo_error_code e) (\<lambda>code. Inr (code = Some 112)))"

definition retry_delay :: pyfloat where "retry_delay = fl (25 / 1000)"
definition retry_max_delay :: pyfloat where "retry_max_delay = fl (8 / 10)"
definition retry_max_jitter :: pyfloat where "retry_max_jitter = fl (5 / 100)"

text \<open>\<open>uniform a b\<close> is \<^verbatim>\<open>random.uniform\<close>.\<close>

definition usage_log_transaction_retry_delay :: "(pyfloat \<Rightarrow> pyfloat \<Rightarrow> pyfloat) \<Rightarrow> int \<Rightarrow> pyfloat result" where
  "usage_log_transaction_retry_delay uniform n =
     (if n \<le> 0 then Inl (ValueError ''usage log transaction attempt must be positive'')
      else
      let base_delay = pmax (Fin 0) retry_delay in
      if base_delay = Fin 0 then Inr (Fin 0)
      else rbind (float_of_int (2 ^ nat (n - 1))) (\<lambda>factor.
      let exponential_delay = pmin retry_max_delay (base_delay * factor) in
      Inr (exponential_delay + uniform (Fin 0) (pmin exponential_delay retry_max_jitter))))"

text \<open>
  How the database ends an attempt: it runs, it runs and the driver raises although it was
  committed, or the driver raises and nothing was stored.
\<close>

datatype attempt = Ran | Commit_lost tx_error | Not_run tx_error

definition transaction_failed :: "string \<Rightarrow> nat \<Rightarrow> 'a http" where
  "transaction_failed message n = refuse 503 ''usage_log_transaction_failed''
     [(''message'', JStr (take 500 message)), (''transaction_attempts'', JInt (int n))]"

definition duplicate_answer :: "usage_write \<Rightarrow> usage_facts \<Rightarrow> usage_store \<Rightarrow> (string, json) dict http" where
  "duplicate_answer w f st =
     (case stored_log w f st of
        None \<Rightarrow> Inl (HTTPException 409 (JStr ''Duplicate routing_call_id without a stored usage log''))
      | Some existing \<Rightarrow>
          rbind (budget_accounting_facts w f st) (\<lambda>(_, mode, debit). require_idempotent_usage_match existing w f mode debit))"

text \<open>What surrounds the attempts: the other writers, the ends, the redacted error texts and the identifiers.\<close>

record surroundings =
  sr_others :: "nat \<Rightarrow> usage_store \<Rightarrow> usage_store"
  sr_ends :: "nat \<Rightarrow> attempt"
  sr_texts :: "nat \<Rightarrow> string"
  sr_uuids :: "nat \<Rightarrow> string"
  sr_now :: int

fun attempt_error :: "attempt \<Rightarrow> tx_error option" where
  "attempt_error Ran = None"
| "attempt_error (Commit_lost e) = Some e"
| "attempt_error (Not_run e) = Some e"

text \<open>One attempt: the answer, when the loop ends with it, and the store.\<close>

definition run_attempt :: "surroundings \<Rightarrow> usage_write \<Rightarrow> usage_facts \<Rightarrow> nat \<Rightarrow> usage_store \<Rightarrow>
    ((string, json) dict http + tx_error) \<times> usage_store" where
  "run_attempt sr w f n st =
     (case sr_ends sr n of
        Not_run e \<Rightarrow> (Inr e, st)
      | ended \<Rightarrow>
          (case persist (sr_uuids sr n) (sr_now sr) w f st of
             Inl (Raised e) \<Rightarrow> (Inl (transaction_failed (sr_texts sr n) n), st)
           | Inl e \<Rightarrow> (Inl (Inl e), st)
           | Inr (document, st') \<Rightarrow>
               ((case attempt_error ended of None \<Rightarrow> Inl (Inr document) | Some e \<Rightarrow> Inr e), st')))"

definition ends_loop :: "surroundings \<Rightarrow> usage_write \<Rightarrow> usage_facts \<Rightarrow> nat \<Rightarrow> bool \<Rightarrow> tx_error \<Rightarrow> usage_store \<Rightarrow>
    (string, json) dict http option" where
  "ends_loop sr w f n is_last e st =
     (if te_duplicate e then Some (duplicate_answer w f st)
      else if is_last then Some (transaction_failed (sr_texts sr n) n)
      else case is_retryable_usage_log_transaction_error e of
        Inr True \<Rightarrow> None
      | Inr False \<Rightarrow> Some (transaction_failed (sr_texts sr n) n)
      | Inl x \<Rightarrow> Some (Inl (Raised x)))"

fun write_attempts :: "surroundings \<Rightarrow> usage_write \<Rightarrow> usage_facts \<Rightarrow> nat \<Rightarrow> nat \<Rightarrow> usage_store \<Rightarrow>
    (string, json) dict http \<times> usage_store" where
  "write_attempts sr w f 0 n st =
     (Inl (Raised (RuntimeError ''usage log transaction retry loop terminated without a result'')), st)"
| "write_attempts sr w f (Suc k) n st =
     (case run_attempt sr w f n (sr_others sr n st) of
        (Inl answer, st') \<Rightarrow> (answer, st')
      | (Inr e, st') \<Rightarrow>
          (case ends_loop sr w f n (k = 0) e st' of
             Some answer \<Rightarrow> (answer, st')
           | None \<Rightarrow> write_attempts sr w f k (Suc n) st'))"

definition max_attempts :: nat where "max_attempts = 8"

definition write_usage_log :: "surroundings \<Rightarrow> usage_write \<Rightarrow> usage_store \<Rightarrow> (string, json) dict http \<times> usage_store" where
  "write_usage_log sr w st =
     (case prepare_usage w of
        Inl e \<Rightarrow> (Inl e, st)
      | Inr f \<Rightarrow> write_attempts sr w f max_attempts 1 st)"

section \<open>Settling a signed call\<close>

definition normalize_inference_mode :: "string option \<Rightarrow> string \<Rightarrow> string http" where
  "normalize_inference_mode v fallback =
     (case v of
        None \<Rightarrow> Inr fallback
      | Some s \<Rightarrow>
          if strip s = [] then Inr fallback
          else
          let mode = map (\<lambda>c. if c = CHR ''-'' then CHR ''_'' else c) (lower (strip s)) in
          if mode = ''lerouter_managed'' then Inr ''router_managed''
          else if mode \<notin> {''user_managed'', ''router_managed''}
          then refuse 422 ''invalid_inference_mode''
            [(''message'', JStr ''inference_mode must be user_managed or router_managed''), (''inference_mode'', JStr s),
             (''supported_inference_modes'', JArr [JStr ''router_managed'', JStr ''user_managed''])]
          else Inr mode)"

record usage_report =
  ur_user_id :: "string option"
  ur_route_id :: string
  ur_route_name :: "string option"
  ur_model_id :: "string option"
  ur_provider :: "string option"
  ur_token :: string
  ur_inference_mode :: "string option"
  ur_success :: bool
  ur_spend :: pyfloat
  ur_request_weight :: "pyfloat option"
  ur_metadata :: "(string, json) dict"
  ur_counters :: bool

definition text_or_empty :: "string option \<Rightarrow> string" where
  "text_or_empty s = (case s of None \<Rightarrow> [] | Some t \<Rightarrow> t)"

text \<open>The fields of the claim that the report must repeat.\<close>

definition reported_identity :: "usage_report \<Rightarrow> (string \<times> string) list" where
  "reported_identity r = [(''user_id'', text_or_empty (ur_user_id r)), (''route_id'', ur_route_id r),
     (''route_name'', strip (text_or_empty (ur_route_name r))), (''model_id'', strip (text_or_empty (ur_model_id r)))]"

definition identity_mismatches :: "(string, json) dict \<Rightarrow> usage_report \<Rightarrow> (string \<times> string) list result" where
  "identity_mismatches claim r =
     rbind (rmap (\<lambda>(field, actual). rbind (compare_digest (text_of claim field) actual) (\<lambda>same. Inr (field, actual, same)))
       (reported_identity r)) (\<lambda>checks.
     Inr (map (\<lambda>(field, actual, same). (field, actual)) (filter (\<lambda>(field, actual, same). \<not> same) checks)))"

definition supplied_weights :: "usage_report \<Rightarrow> pyfloat list result" where
  "supplied_weights r =
     rbind (parse_optional_number (jget (JObj (ur_metadata r)) ''request_weight'')) (\<lambda>n.
     Inr ((case ur_request_weight r of None \<Rightarrow> [] | Some x \<Rightarrow> [x]) @ (case n of None \<Rightarrow> [] | Some x \<Rightarrow> [x])))"

definition claimed_weight :: "(string, json) dict \<Rightarrow> pyfloat" where
  "claimed_weight claim = (case jget (JObj claim) ''request_weight'' of JFloat x \<Rightarrow> x | _ \<Rightarrow> NaN)"

definition usage_metadata_of :: "(string, json) dict \<Rightarrow> usage_report \<Rightarrow> (string, json) dict" where
  "usage_metadata_of claim r =
     set_all [(''routing_call_id'', jget (JObj claim) ''routing_call_id''), (''request_weight'', JFloat (claimed_weight claim))]
       (dict_pop ''accounting_token'' (ur_metadata r))"

definition check_claim_fields :: "(string, json) dict \<Rightarrow> usage_report \<Rightarrow> unit http" where
  "check_claim_fields claim r =
     (if text_or_empty (ur_user_id r) = [] then unprocessable ''usage log requires user_id''
      else
      rbind (normalize_inference_mode (ur_inference_mode r) ''user_managed'') (\<lambda>mode.
      if mode \<noteq> ''user_managed''
      then refuse 422 ''usage_log_inference_mode_mismatch''
        [(''expected_inference_mode'', JStr ''user_managed''), (''inference_mode'', JStr mode)]
      else if \<not> ur_counters r
      then refuse 422 ''usage_accounting_required'' [(''message'', JStr ''Signed user-managed usage must update accounting counters'')]
      else
      rbind (lift (identity_mismatches claim r)) (\<lambda>mismatches.
      if mismatches \<noteq> []
      then refuse 422 ''accounting_claim_mismatch'' [(''fields'', JObj (map (\<lambda>(field, actual).
        (field, JObj [(''expected'', jget (JObj claim) field), (''actual'', JStr actual)])) mismatches))]
      else if strip (text_or_empty (ur_route_name r)) = [] \<or> text_or_empty (ur_model_id r) = []
      then unprocessable ''usage log requires route_name and model_id''
      else if text_or_empty (ur_provider r) \<noteq> [] \<and> lower (text_or_empty (ur_provider r)) \<noteq> lower (text_of claim ''provider'')
      then refuse 422 ''usage_provider_mismatch''
        [(''expected_provider'', jget (JObj claim) ''provider''), (''provider'', JStr (text_or_empty (ur_provider r)))]
      else Inr ())))"

definition check_claim_numbers :: "(string, json) dict \<Rightarrow> usage_report \<Rightarrow> unit http" where
  "check_claim_numbers claim r =
     rbind (lift (supplied_weights r)) (\<lambda>weights.
     if \<not> list_all (\<lambda>x. is_close x (claimed_weight claim)) weights then refuse 422 ''accounting_request_weight_mismatch'' []
     else
     let supplied = strip (text_at (JObj (ur_metadata r)) ''routing_call_id'') in
     if supplied = [] then Inr ()
     else rbind (lift (compare_digest supplied (text_of claim ''routing_call_id''))) (\<lambda>same.
       if \<not> same then refuse 422 ''accounting_routing_call_id_mismatch'' [] else Inr ()))"

text \<open>The checked report: the spend, the weight to debit and the metadata that is logged.\<close>

record checked_report =
  cr_spend :: pyfloat
  cr_weight_debit :: pyfloat
  cr_metadata :: "(string, json) dict"

definition check_usage_report :: "(string, json) dict \<Rightarrow> usage_report \<Rightarrow> checked_report http" where
  "check_usage_report claim r =
     rbind (check_claim_fields claim r) (\<lambda>_.
     rbind (check_claim_numbers claim r) (\<lambda>_.
     let metadata = usage_metadata_of claim r in
     rbind (verified_usage_spend_usd (jget (JObj claim) ''model_profile'') (JObj metadata) (ur_success r) (ur_spend r)) (\<lambda>spend.
     rbind (accounting_request_weight_debit claim) (\<lambda>weight_debit.
     Inr \<lparr>cr_spend = spend, cr_weight_debit = weight_debit,
       cr_metadata = dict_set ''attempt_rank'' (JInt (if weight_debit = Fin 0 then 2 else 1)) metadata\<rparr>))))"

text \<open>The write of a call outside a workflow.\<close>

definition usage_write_of :: "(string, json) dict \<Rightarrow> usage_report \<Rightarrow> checked_report \<Rightarrow> usage_write" where
  "usage_write_of claim r c =
     (let result = jget (JObj (ur_metadata r)) ''budget_result'' in
      \<lparr>uw_user = text_or_empty (ur_user_id r), uw_route = ur_route_id r, uw_route_name = strip (text_or_empty (ur_route_name r)),
       uw_model = JObj (set_all [(''request_weight'', JFloat (claimed_weight claim)),
          (''budget_result'', if is_object result then result else JObj [])] (object_of (jget (JObj claim) ''model_profile''))),
       uw_provider = text_of claim ''provider'', uw_success = ur_success r, uw_spend = cr_spend c,
       uw_metadata = set_all [(''source'', jor (jget (JObj (cr_metadata c)) ''source'') (JStr ''hermes_native_adapter'')),
          (''inference_mode'', JStr ''user_managed''), (''execution_owner'', JStr ''user'')] (cr_metadata c),
       uw_counters = True, uw_weight_debit = Some (cr_weight_debit c)\<rparr>)"

record usage_state =
  ut_workflow :: workflow_db
  ut_usage :: usage_store
  ut_workflow_logs :: "(string, json) dict list"

definition is_workflow_log :: "string \<Rightarrow> string \<Rightarrow> string \<Rightarrow> (string, json) dict \<Rightarrow> bool" where
  "is_workflow_log user_id route_id reservation_id d =
     (map_of d ''userId'' = Some (JStr user_id) \<and> map_of d ''routeId'' = Some (JStr route_id) \<and>
      map_of d ''reservationId'' = Some (JStr reservation_id))"

definition workflow_log :: "string \<Rightarrow> int \<Rightarrow> (string, json) dict \<Rightarrow> usage_report \<Rightarrow> checked_report \<Rightarrow> (string, json) dict" where
  "workflow_log uuid now claim r c =
     [(''id'', JStr uuid), (''userId'', JStr (text_or_empty (ur_user_id r))), (''routeId'', JStr (ur_route_id r)),
      (''runId'', jget (JObj claim) ''workflow_run_id''), (''scopeId'', jget (JObj claim) ''budget_scope_id''),
      (''reservationId'', jget (JObj claim) ''reservation_id''), (''routingCallId'', jget (JObj claim) ''routing_call_id''),
      (''routeName'', JStr (strip (text_or_empty (ur_route_name r)))), (''modelId'', jget (JObj claim) ''model_id''),
      (''provider'', jget (JObj claim) ''provider''), (''success'', JBool (ur_success r)), (''spendUsd'', JFloat (cr_spend c)),
      (''usage'', jor (jget (JObj (cr_metadata c)) ''usage'') (JObj [])), (''createdAt'', JInt now)]"

text \<open>Inserted unless a log of the reservation exists.\<close>

definition upsert_workflow_log :: "(string, json) dict \<Rightarrow> usage_report \<Rightarrow> (string, json) dict \<Rightarrow> (string, json) dict list \<Rightarrow>
    (string, json) dict list" where
  "upsert_workflow_log claim r document logs =
     (if list_ex (is_workflow_log (text_or_empty (ur_user_id r)) (ur_route_id r) (text_of claim ''reservation_id'')) logs
      then logs else logs @ [document])"

datatype usage_answer = Reservation_settled reservation_doc | Usage_logged "(string, json) dict"

definition settle_workflow_call :: "driver \<Rightarrow> string \<Rightarrow> int \<Rightarrow> (string, json) dict \<Rightarrow> usage_report \<Rightarrow> checked_report \<Rightarrow> usage_state \<Rightarrow>
    usage_answer http \<times> usage_state" where
  "settle_workflow_call dr uuid now claim r c st =
     (case finalize_workflow_reservation dr now (workflow_claim_of claim) (cr_spend c) ''settled'' (ut_workflow st) of
        (Inl e, db) \<Rightarrow> (Inl e, st\<lparr>ut_workflow := db\<rparr>)
      | (Inr reservation, db) \<Rightarrow>
          (Inr (Reservation_settled reservation),
           st\<lparr>ut_workflow := db, ut_workflow_logs := upsert_workflow_log claim r (workflow_log uuid now claim r c) (ut_workflow_logs st)\<rparr>))"

definition log_plain_call :: "surroundings \<Rightarrow> (string, json) dict \<Rightarrow> usage_report \<Rightarrow> checked_report \<Rightarrow> usage_state \<Rightarrow>
    usage_answer http \<times> usage_state" where
  "log_plain_call sr claim r c st =
     (case write_usage_log sr (usage_write_of claim r c) (ut_usage st) of
        (answer, usage) \<Rightarrow> (rbind answer (\<lambda>d. Inr (Usage_logged d)), st\<lparr>ut_usage := usage\<rparr>))"

definition lerouter_usage_log :: "(string \<Rightarrow> string) \<Rightarrow> (string \<Rightarrow> json option) \<Rightarrow> driver \<Rightarrow> surroundings \<Rightarrow> usage_report \<Rightarrow> usage_state \<Rightarrow>
    usage_answer http \<times> usage_state" where
  "lerouter_usage_log mac loads dr sr r st =
     (case rbind (verify_accounting_token mac loads (ur_token r)) (\<lambda>claim.
           rbind (check_usage_report claim r) (\<lambda>c. Inr (claim, c))) of
        Inl e \<Rightarrow> (Inl e, st)
      | Inr (claim, c) \<Rightarrow>
          if equals_int (jget (JObj claim) ''v'') 2 then settle_workflow_call dr (sr_uuids sr 0) (sr_now sr) claim r c st
          else log_plain_call sr claim r c st)"

end
