(* ===== verification/Py_Rounding.thy ===== *)
theory Py_Rounding
  imports Py_Float
begin

text \<open>
  How far the float operations of a price may be from the exact rational value: every rounding adds a
  relative error of two to the minus 53 and an absolute one that is negligible.
\<close>

lemma round_even_near: "\<bar>of_int (round_even z) - z\<bar> \<le> 1 / 2"
proof -
  have "z - of_int \<lfloor>z\<rfloor> < 1 / 2 \<or> 1 / 2 \<le> z - of_int \<lfloor>z\<rfloor>" by linarith
  moreover have "of_int \<lfloor>z\<rfloor> \<le> z" "z < of_int \<lfloor>z\<rfloor> + 1" by linarith+
  ultimately show ?thesis unfolding round_even_def Let_def by (auto split: if_splits)
qed

text \<open>The relative error of one rounding, and a bound of the absolute one near zero.\<close>

definition rel_err :: rat where
  "rel_err = scale2 (- 53)"

definition abs_err :: rat where
  "abs_err = scale2 (- 100)"

lemma err_pos: "0 < rel_err" "0 < abs_err"
  by (simp_all add: rel_err_def abs_err_def)

lemma rnd_near:
  assumes "0 \<le> x"
  shows "\<bar>rnd x - x\<bar> \<le> rel_err * x + abs_err"
proof (cases "x = 0")
  case True
  then show ?thesis using err_pos by simp
next
  case False
  with assms have x: "0 < x" by simp
  define s where "s = scale2 (ulp_exp x)"
  have s: "0 < s" by (simp add: s_def)
  have "s \<le> 2 * (rel_err * x + abs_err)"
  proof (cases "- 1022 \<le> ilog2 x")
    case True
    then have u: "ulp_exp x = ilog2 x - 52" by (simp add: ulp_exp_def)
    have "scale2 (ilog2 x - 52) = scale2 (ilog2 x) * scale2 (- 52)" using scale2_add [of "ilog2 x" "- 52"] by simp
    then have "s \<le> x * scale2 (- 52)" unfolding s_def u using ilog2_bounds [OF x] by (simp add: mult_right_mono less_imp_le)
    also have "\<dots> = 2 * (rel_err * x)" by (simp add: rel_err_def scale2_def)
    finally show ?thesis using err_pos(2) by simp
  next
    case False
    then have "s \<le> scale2 (- 1000)" by (simp add: s_def ulp_exp_def)
    also have "\<dots> \<le> abs_err" by (simp add: abs_err_def)
    also have "\<dots> \<le> 2 * (rel_err * x + abs_err)" using err_pos x by (simp add: add_nonneg_nonneg less_imp_le)
    finally show ?thesis .
  qed
  moreover have "rnd x - x = (of_int (round_even (x / s)) - x / s) * s"
    using x s by (simp add: rnd_def rnd_pos_def s_def Let_def left_diff_distrib)
  then have "\<bar>rnd x - x\<bar> \<le> 1 / 2 * s"
    using mult_right_mono [OF round_even_near [of "x / s"], of s] s by (simp add: abs_mult)
  moreover have "1 / 2 * s \<le> 1 / 2 * (2 * (rel_err * x + abs_err))" if "s \<le> 2 * (rel_err * x + abs_err)"
    using that by (intro mult_left_mono) simp_all
  ultimately show ?thesis by simp
qed

text \<open>\<open>y\<close> is near \<open>x\<close> up to a relative error \<open>c\<close> and an absolute one \<open>d\<close>.\<close>

definition near :: "rat \<Rightarrow> rat \<Rightarrow> rat \<Rightarrow> rat \<Rightarrow> bool" where
  "near c d x y \<longleftrightarrow> \<bar>y - x\<bar> \<le> c * x + d"

lemma near_refl: "near 0 0 x x"
  by (simp add: near_def)

lemma near_rnd:
  assumes "near c d x y" "0 \<le> y"
  shows "near (c + rel_err * (1 + c)) (d + rel_err * d + abs_err) x (rnd y)"
proof -
  have "\<bar>rnd y - y\<bar> \<le> rel_err * y + abs_err" by (rule rnd_near [OF assms(2)])
  moreover have "rel_err * y \<le> rel_err * (x + (c * x + d))"
    using assms(1) err_pos by (intro mult_left_mono) (auto simp: near_def)
  moreover have "rel_err * (x + (c * x + d)) = rel_err * (1 + c) * x + rel_err * d" by (simp add: algebra_simps)
  ultimately show ?thesis using assms(1) unfolding near_def by (simp add: algebra_simps)
qed

lemma near_scale:
  assumes "near c d x y" "0 \<le> k"
  shows "near c (d * k) (x * k) (y * k)"
proof -
  have "y * k - x * k = (y - x) * k" by (simp add: left_diff_distrib)
  then have "\<bar>y * k - x * k\<bar> = \<bar>y - x\<bar> * k" using assms(2) by (simp add: abs_mult)
  also have "\<dots> \<le> (c * x + d) * k" using assms by (intro mult_right_mono) (auto simp: near_def)
  finally show ?thesis by (simp add: near_def algebra_simps)
qed

lemma near_add: "near c d x y \<Longrightarrow> near c e x' y' \<Longrightarrow> near c (d + e) (x + x') (y + y')"
  unfolding near_def by (simp add: algebra_simps)

lemma near_mono: "near c d x y \<Longrightarrow> c \<le> c' \<Longrightarrow> d \<le> d' \<Longrightarrow> 0 \<le> x \<Longrightarrow> near c' d' x y"
  unfolding near_def using mult_right_mono [of c c' x] by linarith

lemma near_shift: "near c d x y \<Longrightarrow> \<bar>z - y\<bar> \<le> e \<Longrightarrow> near c (d + e) x z"
  unfolding near_def by linarith

section \<open>A price\<close>

text \<open>The price of counted tokens in exact arithmetic.\<close>

definition exact_price :: "rat \<Rightarrow> rat \<Rightarrow> rat \<Rightarrow> rat \<Rightarrow> rat" where
  "exact_price input_tokens output_tokens input_price output_price =
     (input_tokens * input_price + output_tokens * output_price) / 1000000"

lemma near_part:
  assumes "0 \<le> n" "0 \<le> p" "p \<le> 2 ^ 40"
  shows "near (2 * rel_err + rel_err\<^sup>2) (2 ^ 42 * abs_err) (n / 1000000 * p) (rnd (rnd (n / 1000000) * p))"
proof -
  have x: "0 \<le> n / 1000000" using assms(1) by simp
  have "near rel_err abs_err (n / 1000000) (rnd (n / 1000000))" using near_rnd [OF near_refl x] by simp
  from near_rnd [OF near_scale [OF this assms(2)]] assms(2) rnd_nonneg [OF x]
  have n: "near (rel_err + rel_err * (1 + rel_err)) (abs_err * p + rel_err * (abs_err * p) + abs_err)
      (n / 1000000 * p) (rnd (rnd (n / 1000000) * p))" by simp
  have u: "rel_err \<le> 1" by (simp add: rel_err_def scale2_def)
  have "abs_err * p \<le> abs_err * 2 ^ 40" using assms(3) err_pos by (intro mult_left_mono) auto
  moreover have "rel_err * (abs_err * p) \<le> 1 * (abs_err * p)"
    using u err_pos assms(2) by (intro mult_right_mono mult_nonneg_nonneg) (auto simp: less_imp_le)
  ultimately have "abs_err * p + rel_err * (abs_err * p) + abs_err \<le> 2 * (abs_err * 2 ^ 40) + abs_err" by linarith
  also have "\<dots> \<le> 2 ^ 42 * abs_err" using err_pos(2) by simp
  finally have "abs_err * p + rel_err * (abs_err * p) + abs_err \<le> 2 ^ 42 * abs_err" .
  moreover have "rel_err + rel_err * (1 + rel_err) \<le> 2 * rel_err + rel_err\<^sup>2" by (simp add: algebra_simps power2_eq_square)
  ultimately show ?thesis using near_mono [OF n] assms(1,2) by simp
qed

lemma price_near:
  assumes "0 \<le> ti" "0 \<le> to" "0 \<le> i" "0 \<le> out" "i \<le> 2 ^ 40" "out \<le> 2 ^ 40"
    and e: "e = rnd (rnd (rnd (ti / 1000000) * i) + rnd (rnd (to / 1000000) * out))"
    and v: "v = rnd (of_int (round_even (e * 10 ^ 8)) / 10 ^ 8)"
  shows "\<bar>v - exact_price ti to i out\<bar> \<le> exact_price ti to i out / 2 ^ 50 + 51 / 10 ^ 10"
proof -
  let ?E = "exact_price ti to i out"
  have E: "?E = ti / 1000000 * i + to / 1000000 * out" by (simp add: exact_price_def field_simps)
  have E0: "0 \<le> ?E" using assms by (simp add: E)
  have parts: "0 \<le> rnd (rnd (ti / 1000000) * i) + rnd (rnd (to / 1000000) * out)"
    using assms by (simp add: rnd_nonneg)
  let ?c = "2 * rel_err + rel_err\<^sup>2" and ?d = "2 ^ 42 * abs_err + 2 ^ 42 * abs_err"
  have "near ?c ?d ?E (rnd (rnd (ti / 1000000) * i) + rnd (rnd (to / 1000000) * out))"
    unfolding E using assms by (intro near_add near_part)
  from near_rnd [OF this parts] have 1: "near (?c + rel_err * (1 + ?c)) (?d + rel_err * ?d + abs_err) ?E e" by (simp add: e)
  have e0: "0 \<le> e" using parts by (simp add: e rnd_nonneg)
  have "\<bar>of_int (round_even (e * 10 ^ 8)) / 10 ^ 8 - e\<bar> = \<bar>of_int (round_even (e * 10 ^ 8)) - e * 10 ^ 8\<bar> / 10 ^ 8"
    by (simp add: abs_divide [symmetric] field_simps)
  also have "\<dots> \<le> 1 / 2 / 10 ^ 8" using round_even_near [of "e * 10 ^ 8"] by (intro divide_right_mono) auto
  finally have r: "\<bar>of_int (round_even (e * 10 ^ 8)) / 10 ^ 8 - e\<bar> \<le> 1 / 2 / 10 ^ 8" .
  have "0 \<le> round_even (e * 10 ^ 8)" using e0 by (intro round_even_lower) simp
  then have "0 \<le> of_int (round_even (e * 10 ^ 8)) / (10 :: rat) ^ 8" by simp
  from near_rnd [OF near_shift [OF 1 r] this, folded v]
  have "near (1 / 2 ^ 50) (51 / 10 ^ 10) ?E v"
    by (rule near_mono) (use E0 in \<open>simp_all add: rel_err_def abs_err_def scale2_def power2_eq_square\<close>)
  then show ?thesis by (simp add: near_def)
qed

end
