(* ===== verification/Usage_Props.thy ===== *)
theory Usage_Props
  imports Usage Py_Rounding
begin

text \<open>
  The usage log keeps the books: a call is debited and counted once however often its report is
  sent and however its transaction ends, a budget never goes below zero, and the spend that is
  debited is the one the signed prices give.
\<close>

section \<open>Updating documents\<close>

lemma map_of_set_all: "map_of (set_all kvs d) k = (case map_of (rev kvs) k of None \<Rightarrow> map_of d k | Some v \<Rightarrow> Some v)"
proof (induction kvs arbitrary: d)
  case (Cons p kvs)
  obtain a v where "p = (a, v)" by (cases p)
  then show ?case by (auto simp: Cons.IH dict_get_set map_add_def split: option.splits)
qed simp

lemma jget_set_all: "jget (JObj (set_all kvs d)) k = (case map_of (rev kvs) k of None \<Rightarrow> jget (JObj d) k | Some v \<Rightarrow> v)"
  by (simp add: map_of_set_all split: option.splits)

lemma usage_budget_update_Some:
  assumes "usage_budget_update debit weight_debit u provider lab success now d = Some b"
  obtains remaining weight where
    "stored_number (jget (JObj d) ''budgetRemainingUsd'') = Some remaining"
    "stored_number (jget (JObj d) ''remainingWeight'') = Some weight"
    "jget (JObj b) ''budgetRemainingUsd'' = JFloat (remaining - debit)"
    "jget (JObj b) ''remainingWeight'' = JFloat (if Fin 0 < weight - weight_debit then weight - weight_debit else Fin 0)"
    "jget (JObj b) ''budgetShadowPrice'' = JFloat (cu_next u)"
    "plus_field d ''totalRequests'' (JInt 1) = Some (jget (JObj b) ''totalRequests'')"
    "plus_field d ''totalSpendUsd'' (JFloat debit) = Some (jget (JObj b) ''totalSpendUsd'')"
    "plus_field d ''successfulRequests'' (count_of success) = Some (jget (JObj b) ''successfulRequests'')"
    "plus_field d ''failedRequests'' (count_of (\<not> success)) = Some (jget (JObj b) ''failedRequests'')"
    "plus_field d ''budgetControllerUpdates'' (JInt 1) = Some (jget (JObj b) ''budgetControllerUpdates'')"
    "\<And>k. k \<in> {''budgetShadowPriceMin'', ''budgetShadowPriceMax'', ''spendAccountingMode'', ''spend_accounting_mode''} \<Longrightarrow>
       jget (JObj b) k = jget (JObj d) k"
proof -
  from assms obtain remaining weight updates requests spend successes failures providers labs rate where
    v: "stored_number (jget (JObj d) ''budgetRemainingUsd'') = Some remaining"
    "stored_number (jget (JObj d) ''remainingWeight'') = Some weight"
    "plus_field d ''budgetControllerUpdates'' (JInt 1) = Some updates" "plus_field d ''totalRequests'' (JInt 1) = Some requests"
    "plus_field d ''totalSpendUsd'' (JFloat debit) = Some spend"
    "plus_field d ''successfulRequests'' (count_of success) = Some successes"
    "plus_field d ''failedRequests'' (count_of (\<not> success)) = Some failures" and
    b: "b = set_all
       [(''budgetRemainingUsd'', JFloat (remaining - debit)),
        (''remainingWeight'', JFloat (if Fin 0 < weight - weight_debit then weight - weight_debit else Fin 0)),
        (''budgetShadowPrice'', JFloat (cu_next u)), (''budgetControllerVersion'', JStr ''dual_gradient_allocated_ratio_v2''),
        (''lastBudgetControllerAllocatedSpendUsd'', JFloat (cu_allocated_spend u)),
        (''lastBudgetControllerActualSpendUsd'', JFloat (cu_actual_spend u)),
        (''lastBudgetControllerErrorUsd'', JFloat (cu_error u)), (''budgetControllerUpdates'', updates),
        (''totalRequests'', requests), (''totalSpendUsd'', spend), (''successfulRequests'', successes),
        (''failedRequests'', failures), (''providerCompletions'', providers), (''labCompletions'', labs),
        (''timeSpendDays'', at_least_one (if_null (jget (JObj d) ''timeSpendDays'') (JInt 0))), (''updatedAt'', JInt now),
        (''successRate'', rate)] d"
    unfolding usage_budget_update_def bind_eq_Some_conv by (elim exE conjE) (rule that, assumption+, drule option.inject [THEN iffD1], erule sym)
  note eval = b jget_set_all v
  have "jget (JObj b) ''budgetRemainingUsd'' = JFloat (remaining - debit)" by (simp add: eval del: set_all.simps jget.simps)
  moreover have "jget (JObj b) ''remainingWeight'' = JFloat (if Fin 0 < weight - weight_debit then weight - weight_debit else Fin 0)"
    by (simp add: eval del: set_all.simps jget.simps if_split)
  moreover have "jget (JObj b) ''budgetShadowPrice'' = JFloat (cu_next u)" "jget (JObj b) ''totalRequests'' = requests"
    "jget (JObj b) ''totalSpendUsd'' = spend" "jget (JObj b) ''successfulRequests'' = successes"
    "jget (JObj b) ''failedRequests'' = failures" "jget (JObj b) ''budgetControllerUpdates'' = updates"
    by (simp_all add: eval del: set_all.simps jget.simps)
  moreover have "jget (JObj b) k = jget (JObj d) k"
    if "k \<in> {''budgetShadowPriceMin'', ''budgetShadowPriceMax'', ''spendAccountingMode'', ''spend_accounting_mode''}" for k
    using that by (elim insertE emptyE) (simp_all add: eval del: set_all.simps jget.simps)
  ultimately show thesis using that [OF v(1,2)] v(3-7) by simp
qed

lemma usage_budget_counts:
  assumes "usage_budget_update debit weight_debit u provider lab success now d = Some b"
  shows "plus_field d ''totalRequests'' (JInt 1) = Some (jget (JObj b) ''totalRequests'')"
    "plus_field d ''successfulRequests'' (JInt (if success then 1 else 0)) = Some (jget (JObj b) ''successfulRequests'')"
    "plus_field d ''failedRequests'' (JInt (if \<not> success then 1 else 0)) = Some (jget (JObj b) ''failedRequests'')"
  by (rule usage_budget_update_Some [OF assms]; simp only: count_of_def)+

section \<open>What one transaction does\<close>

lemma persist_cases:
  assumes "persist uuid now w f st = Inr (doc, st')"
  obtains (known) mode debit d where "stored_log w f st = Some doc" "st' = st" "budget_accounting_facts w f st = Inr (d, mode, debit)"
      "require_idempotent_usage_match doc w f mode debit = Inr doc"
  | (counted) d mode debit u budget user profile where "stored_log w f st = None" "uw_counters w"
      "budget_accounting_facts w f st = Inr (d, mode, debit)"
      "calculate_budget_controller_update (JObj d) debit (uf_weight f) (Some (uf_weight_debit f)) = Inr u"
      "budget_selected True debit d"
      "usage_budget_update debit (uf_weight_debit f) u (uf_provider f) (uf_lab f) (uw_success w) now d = Some budget"
      "doc = usage_document uuid now w f mode debit (Some u) profile budget"
      "st' = st\<lparr>us_budgets := dict_set (uw_user w, uw_route w) budget (us_budgets st),
               us_users := dict_set (uw_user w) user (us_users st), us_logs := us_logs st @ [doc]\<rparr>"
  | (uncounted) d mode debit profile where "stored_log w f st = None" "\<not> uw_counters w"
      "budget_accounting_facts w f st = Inr (d, mode, debit)"
      "doc = usage_document uuid now w f mode debit None profile d" "st' = st\<lparr>us_logs := us_logs st @ [doc]\<rparr>"
proof -
  from assms obtain d mode debit where b: "budget_accounting_facts w f st = Inr (d, mode, debit)"
    unfolding persist_def by auto
  show thesis
  proof (cases "stored_log w f st")
    case (Some e)
    then have "require_idempotent_usage_match e w f mode debit = Inr doc" "st' = st" using assms b by (auto simp: persist_def)
    moreover from this have "e = doc" by (auto simp: require_idempotent_usage_match_def split: if_splits)
    ultimately show thesis using known Some b by simp
  next
    case None
    show thesis
    proof (cases "uw_counters w")
      case True
      with assms b None obtain u budget user where c:
        "calculate_budget_controller_update (JObj d) debit (uf_weight f) (Some (uf_weight_debit f)) = Inr u"
        "debit_budget now w f debit u d = Inr budget"
        "insert_log uuid now w f mode debit (Some u) budget
           (st\<lparr>us_budgets := dict_set (uw_user w, uw_route w) budget (us_budgets st),
               us_users := dict_set (uw_user w) user (us_users st)\<rparr>) = Inr (doc, st')"
        by (auto simp: persist_def)
      from c(2) have "budget_selected True debit d"
        "usage_budget_update debit (uf_weight_debit f) u (uf_provider f) (uf_lab f) (uw_success w) now d = Some budget"
        by (auto simp: debit_budget_def database_refuses_def split: if_splits option.splits)
      then show thesis using c(1,3) counted [OF None True b] by (auto simp: insert_log_def Let_def)
    next
      case False
      with assms b None show thesis
        using uncounted [OF None False b] by (auto simp: persist_def insert_log_def budget_missing_def Let_def split: if_splits)
    qed
  qed
qed

lemma facts_budget:
  "budget_accounting_facts w f st = Inr (d, mode, debit) \<Longrightarrow>
     map_of (us_budgets st) (uw_user w, uw_route w) = Some d \<and>
     normalize_spend_accounting_mode (first_present (JObj d) keys_mode) 409 = Inr mode \<and>
     debit = (if mode = ''provider_spend'' then uf_spend f else uf_fee f)"
  by (auto simp: budget_accounting_facts_def budget_missing_def split: option.splits)

text \<open>A commit is a transaction that succeeds; a history, any number of writes with others between their attempts.\<close>

definition commits :: "usage_store \<Rightarrow> usage_store \<Rightarrow> bool" where
  "commits st st' \<longleftrightarrow> (\<exists>uuid now w f doc. prepare_usage w = Inr f \<and> persist uuid now w f st = Inr (doc, st'))"

definition others_commit :: "surroundings \<Rightarrow> bool" where
  "others_commit sr \<longleftrightarrow> (\<forall>n st. commits\<^sup>*\<^sup>* st (sr_others sr n st))"

inductive usage_history :: "usage_store \<Rightarrow> usage_store \<Rightarrow> bool" where
  uh_start: "usage_history st st"
| uh_write: "usage_history st0 st \<Longrightarrow> others_commit sr \<Longrightarrow> usage_history st0 (snd (write_usage_log sr w st))"

lemma persist_commits: "prepare_usage w = Inr f \<Longrightarrow> persist uuid now w f st = Inr (doc, st') \<Longrightarrow> commits\<^sup>*\<^sup>* st st'"
  unfolding commits_def by (rule r_into_rtranclp) blast

lemma run_attempt_commits:
  assumes "prepare_usage w = Inr f"
  shows "commits\<^sup>*\<^sup>* st (snd (run_attempt sr w f n st))"
  using persist_commits [OF assms]
  by (cases "sr_ends sr n"; cases "persist (sr_uuids sr n) (sr_now sr) w f st")
    (auto simp: run_attempt_def split: http_error.split prod.split)

lemma write_attempts_commits:
  assumes "prepare_usage w = Inr f" "others_commit sr"
  shows "commits\<^sup>*\<^sup>* st (snd (write_attempts sr w f k n st))"
proof (induction k arbitrary: n st)
  case (Suc k)
  let ?st = "sr_others sr n st"
  have 1: "commits\<^sup>*\<^sup>* st ?st" using assms(2) unfolding others_commit_def by blast
  obtain r st' where r: "run_attempt sr w f n ?st = (r, st')" by (cases "run_attempt sr w f n ?st")
  with run_attempt_commits [OF assms(1), of ?st sr n] have 2: "commits\<^sup>*\<^sup>* st st'" using 1 by (simp add: rtranclp_trans)
  show ?case
  proof (cases r)
    case (Inl a)
    then show ?thesis using r 2 by simp
  next
    case (Inr e)
    then show ?thesis using r 2 Suc.IH [of st' "Suc n"] by (simp split: option.split) (meson rtranclp_trans)
  qed
qed simp

lemma write_commits: "others_commit sr \<Longrightarrow> commits\<^sup>*\<^sup>* st (snd (write_usage_log sr w st))"
  using write_attempts_commits [of w] by (auto simp: write_usage_log_def split: sum.split)

lemma history_commits: "usage_history st0 st \<Longrightarrow> commits\<^sup>*\<^sup>* st0 st"
proof (induction rule: usage_history.induct)
  case (uh_write st0 st sr w)
  then show ?case using write_commits [of sr st w] by (meson rtranclp_trans)
qed simp

section \<open>Counting\<close>

text \<open>A counter of a document; a missing one is zero.\<close>

definition count_field :: "(string, json) dict \<Rightarrow> string \<Rightarrow> int option" where
  "count_field d k = (case if_null (jget (JObj d) k) (JInt 0) of JInt i \<Rightarrow> Some i | _ \<Rightarrow> None)"

definition call_ident :: "(string, json) dict \<Rightarrow> json \<times> json \<times> json" where
  "call_ident d = (jget (JObj d) ''userId'', jget (JObj d) ''routeId'', jget (JObj d) ''routingCallId'')"

text \<open>The logs of a route whose counters were updated.\<close>

definition is_counted :: "string \<times> string \<Rightarrow> (string, json) dict \<Rightarrow> bool" where
  "is_counted key d \<longleftrightarrow> jget (JObj d) ''userId'' = JStr (fst key) \<and> jget (JObj d) ''routeId'' = JStr (snd key) \<and>
     jget (JObj d) ''accountingCountersUpdated'' = JBool True"

definition succeeded :: "(string, json) dict \<Rightarrow> bool" where
  "succeeded d \<longleftrightarrow> jget (JObj d) ''success'' = JBool True"

lemma plus_count:
  assumes "count_field d k = Some i" "plus_field d k (JInt n) = Some v" "jget (JObj b) k = v"
  shows "count_field b k = Some (i + n)"
proof -
  obtain j where "if_null (jget (JObj d) k) (JInt 0) = JInt j" "j = i" using assms(1)
    unfolding count_field_def by (cases "if_null (jget (JObj d) k) (JInt 0)") auto
  then have "v = JInt (i + n)" using assms(2) by (simp add: plus_field_def del: jget.simps)
  then show ?thesis using assms(3) by (simp add: count_field_def if_null_def del: jget.simps)
qed

lemma document_fields:
  assumes "doc = usage_document uuid now w f mode debit u profile budget"
  shows "call_ident doc = (JStr (uw_user w), JStr (uw_route w), JStr (uf_call_id f))"
    "is_counted key doc \<longleftrightarrow> key = (uw_user w, uw_route w) \<and> uw_counters w" "succeeded doc \<longleftrightarrow> uw_success w"
  using assms by (auto simp: usage_document_def call_ident_def is_counted_def succeeded_def Let_def)

lemma no_log_new:
  assumes "stored_log w f st = None" "e \<in> set (us_logs st)"
  shows "call_ident e \<noteq> (JStr (uw_user w), JStr (uw_route w), JStr (uf_call_id f))"
proof
  have *: "jget (JObj e) k = JStr s \<Longrightarrow> map_of e k = Some (JStr s)" for k s by (auto split: option.splits)
  assume "call_ident e = (JStr (uw_user w), JStr (uw_route w), JStr (uf_call_id f))"
  then have "is_log_of (uw_user w) (uw_route w) (uf_call_id f) e"
    by (simp add: call_ident_def is_log_of_def * del: jget.simps)
  then show False using assms by (auto simp: stored_log_def find_None_iff)
qed

text \<open>The state of the books of one route since a first store.\<close>

definition books :: "usage_store \<Rightarrow> string \<times> string \<Rightarrow> int \<Rightarrow> int \<Rightarrow> int \<Rightarrow> usage_store \<Rightarrow> (string, json) dict list \<Rightarrow> bool" where
  "books st0 key t s f st new \<longleftrightarrow> us_logs st = us_logs st0 @ new \<and>
     distinct (map call_ident new) \<and> call_ident ` set new \<inter> call_ident ` set (us_logs st0) = {} \<and>
     (\<exists>d. map_of (us_budgets st) key = Some d \<and>
        count_field d ''totalRequests'' = Some (t + int (length (filter (is_counted key) new))) \<and>
        count_field d ''successfulRequests'' = Some (s + int (length (filter (\<lambda>e. is_counted key e \<and> succeeded e) new))) \<and>
        count_field d ''failedRequests'' = Some (f + int (length (filter (\<lambda>e. is_counted key e \<and> \<not> succeeded e) new))))"

lemma books_log:
  assumes "books st0 key t s f st new" "us_logs st' = us_logs st @ [doc]" "call_ident doc \<notin> call_ident ` set (us_logs st)"
    "map_of (us_budgets st') key = map_of (us_budgets st) key" "\<not> is_counted key doc"
  shows "books st0 key t s f st' (new @ [doc])"
  using assms by (auto simp: books_def image_Un)

lemma books_commit:
  assumes "books st0 key t s f st new" "commits st st'"
  shows "\<exists>new'. books st0 key t s f st' new'"
proof -
  from assms(2) obtain uuid now w fa doc where p: "persist uuid now w fa st = Inr (doc, st')" unfolding commits_def by blast
  then show ?thesis
  proof (cases rule: persist_cases)
    case (known mode debit d)
    then show ?thesis using assms(1) by blast
  next
    case (uncounted d mode debit profile)
    note doc = document_fields [OF uncounted(4)]
    have "call_ident doc \<notin> call_ident ` set (us_logs st)" using no_log_new [OF uncounted(1)] doc(1) by (metis imageE)
    then have "books st0 key t s f st' (new @ [doc])" using uncounted doc(2) by (intro books_log [OF assms(1)]) auto
    then show ?thesis by blast
  next
    case (counted d mode debit u budget user profile)
    note doc = document_fields [OF counted(7)]
    have new: "call_ident doc \<notin> call_ident ` set (us_logs st)" using no_log_new [OF counted(1)] doc(1) by (metis imageE)
    have logs: "us_logs st' = us_logs st @ [doc]" using counted(8) by simp
    show ?thesis
    proof (cases "key = (uw_user w, uw_route w)")
      case False
      then have "map_of (us_budgets st') key = map_of (us_budgets st) key" using counted(8) by (simp add: dict_get_set)
      then have "books st0 key t s f st' (new @ [doc])" using False doc(2) by (intro books_log [OF assms(1) logs new]) auto
      then show ?thesis by blast
    next
      case True
      then have d: "map_of (us_budgets st) key = Some d" "map_of (us_budgets st') key = Some budget"
        using facts_budget [OF counted(3)] counted(8) by (simp_all add: dict_get_set)
      have c: "is_counted key doc" using doc(2) True counted(2) by simp
      have old: "us_logs st = us_logs st0 @ new" "distinct (map call_ident new)"
        "call_ident ` set new \<inter> call_ident ` set (us_logs st0) = {}"
        "count_field d ''totalRequests'' = Some (t + int (length (filter (is_counted key) new)))"
        "count_field d ''successfulRequests'' = Some (s + int (length (filter (\<lambda>e. is_counted key e \<and> succeeded e) new)))"
        "count_field d ''failedRequests'' = Some (f + int (length (filter (\<lambda>e. is_counted key e \<and> \<not> succeeded e) new)))"
        using assms(1) d(1) by (auto simp: books_def)
      have "count_field budget ''totalRequests'' = Some (t + int (length (filter (is_counted key) new)) + 1)"
        "count_field budget ''successfulRequests'' =
           Some (s + int (length (filter (\<lambda>e. is_counted key e \<and> succeeded e) new)) + (if uw_success w then 1 else 0))"
        "count_field budget ''failedRequests'' =
           Some (f + int (length (filter (\<lambda>e. is_counted key e \<and> \<not> succeeded e) new)) + (if \<not> uw_success w then 1 else 0))"
        using plus_count [OF old(4) usage_budget_counts(1) [OF counted(6)] refl]
          plus_count [OF old(5) usage_budget_counts(2) [OF counted(6)] refl]
          plus_count [OF old(6) usage_budget_counts(3) [OF counted(6)] refl] by blast+
      then have "books st0 key t s f st' (new @ [doc])"
        unfolding books_def using d(2) old(1-3) logs new c doc(3) by (auto simp: image_Un)
      then show ?thesis by blast
    qed
  qed
qed

lemma books_history:
  assumes "commits\<^sup>*\<^sup>* st0 st" "map_of (us_budgets st0) key = Some d0" "count_field d0 ''totalRequests'' = Some t"
    "count_field d0 ''successfulRequests'' = Some s" "count_field d0 ''failedRequests'' = Some f"
  shows "\<exists>new. books st0 key t s f st new"
  using assms(1)
proof (induction rule: rtranclp_induct)
  case base
  then show ?case using assms(2-) by (intro exI [of _ "[]"]) (simp add: books_def)
next
  case (step y z)
  then show ?case using books_commit by blast
qed

section \<open>The budget\<close>

lemma clamp_any:
  assumes "lo \<le> hi"
  shows "lo \<le> clamp x lo hi" "clamp x lo hi \<le> hi"
proof -
  have n: "lo \<noteq> NaN" "hi \<noteq> NaN" using assms by auto
  have m: "pmax lo x \<noteq> NaN" "lo \<le> pmax lo x"
    using n pyfloat_refl [OF n(1)] pyfloat_less_le [of lo x] by (cases "lo < x"; cases x; auto simp: pmax_def)+
  show "clamp x lo hi \<le> hi" unfolding clamp_def by (rule pmin_bounds(1) [OF n(2) m(1)])
  show "lo \<le> clamp x lo hi" using pmin_bounds(3) [OF n(2) m(1)] m(2) assms unfolding clamp_def by auto
qed

lemma sub_nonneg:
  assumes "x \<noteq> NaN" "isfinite y" "y \<le> x"
  shows "Fin 0 \<le> x - y"
proof -
  obtain b where y: "y = Fin b" using assms(2) by (auto simp: isfinite_iff)
  show ?thesis using assms(1,3) y by (cases x) (auto simp: Fin_sub minus_pyfloat_def intro!: fl_nonneg)
qed

text \<open>A remaining sum and weight that are not negative, and a shadow price within its limits.\<close>

definition budget_ok :: "(string, json) dict \<Rightarrow> bool" where
  "budget_ok d \<longleftrightarrow> (\<exists>r w p lo hi.
     stored_number (jget (JObj d) ''budgetRemainingUsd'') = Some r \<and> Fin 0 \<le> r \<and>
     stored_number (jget (JObj d) ''remainingWeight'') = Some w \<and> Fin 0 \<le> w \<and>
     stored_number (jget (JObj d) ''budgetShadowPrice'') = Some p \<and>
     stored_number (jget (JObj d) ''budgetShadowPriceMin'') = Some lo \<and>
     stored_number (jget (JObj d) ''budgetShadowPriceMax'') = Some hi \<and> Fin 0 \<le> lo \<and> lo \<le> p \<and> p \<le> hi)"

lemma required_stored:
  assumes "required_number (JObj d) (k # ks) name = Inr x" "stored_number (jget (JObj d) k) = Some y"
  shows "x = y"
proof -
  have "jget (JObj d) k \<noteq> JNull" using assms(2) by (cases "jget (JObj d) k") auto
  then have "parse_required_number (jget (JObj d) k) name = Inr x" using assms(1) by (simp add: required_number_def del: jget.simps)
  then show ?thesis using assms(2)
    by (cases "jget (JObj d) k")
      (auto simp: parse_required_number_def try_float_def float_of_int_def split: if_splits option.splits sum.splits)
qed

lemma controller_update_Inr:
  assumes "calculate_budget_controller_update state debit weight (Some alloc) = Inr u"
  obtains remaining lo hi where
    "required_number state [''budgetRemainingUsd'', ''remaining_budget_usd''] ''budgetRemainingUsd'' = Inr remaining"
    "required_number state [''budgetShadowPriceMin'', ''budget_shadow_price_min''] ''budgetShadowPriceMin'' = Inr lo"
    "required_number state [''budgetShadowPriceMax'', ''budget_shadow_price_max''] ''budgetShadowPriceMax'' = Inr hi"
    "isfinite debit" "Fin 0 \<le> debit" "Fin 0 \<le> lo" "lo \<le> cu_next u" "cu_next u \<le> hi" "isfinite remaining"
proof -
  from assms obtain remaining rw p rate lo hi where c:
    "required_number state [''budgetRemainingUsd'', ''remaining_budget_usd''] ''budgetRemainingUsd'' = Inr remaining"
    "required_number state [''budgetShadowPriceMin'', ''budget_shadow_price_min''] ''budgetShadowPriceMin'' = Inr lo"
    "required_number state [''budgetShadowPriceMax'', ''budget_shadow_price_max''] ''budgetShadowPriceMax'' = Inr hi"
    "list_all isfinite [remaining, rw, p, rate, lo, hi, debit, weight, alloc]" "\<not> debit < Fin 0" "\<not> lo < Fin 0" "\<not> hi < lo"
    "u = \<lparr>cu_previous = p, cu_learning_rate = rate, cu_allocated_spend = alloc * fdiv remaining (pmax rw weight),
       cu_allocated_weight = alloc, cu_actual_spend = debit, cu_error = debit - alloc * fdiv remaining (pmax rw weight),
       cu_next = clamp (p + rate * (debit - alloc * fdiv remaining (pmax rw weight))) lo hi\<rparr>"
    unfolding calculate_budget_controller_update_def Let_def option.case
    by (auto simp: invalid_controller_def split: if_split_asm)
  have fin: "isfinite remaining" "isfinite debit" "isfinite lo" "isfinite hi" using c(4) by auto
  have "Fin 0 \<le> debit" "Fin 0 \<le> lo" "lo \<le> hi" using c(5-7) fin by (auto simp: isfinite_iff)
  moreover have "lo \<le> cu_next u" "cu_next u \<le> hi" using clamp_any [OF \<open>lo \<le> hi\<close>] c(8) by simp_all
  ultimately show thesis using that c(1-3) fin by blast
qed

lemma debited_budget_ok:
  assumes "budget_ok d" "calculate_budget_controller_update (JObj d) debit weight (Some alloc) = Inr u"
    "budget_selected True debit d" "usage_budget_update debit alloc u provider lab success now d = Some b"
  shows "budget_ok b"
proof -
  from assms(1) obtain r w p lo hi where o:
    "stored_number (jget (JObj d) ''budgetRemainingUsd'') = Some r" "Fin 0 \<le> r"
    "stored_number (jget (JObj d) ''budgetShadowPriceMin'') = Some lo"
    "stored_number (jget (JObj d) ''budgetShadowPriceMax'') = Some hi"
    unfolding budget_ok_def by blast
  obtain remaining lo' hi' where c: "required_number (JObj d) [''budgetShadowPriceMin'', ''budget_shadow_price_min''] ''budgetShadowPriceMin'' = Inr lo'"
    "required_number (JObj d) [''budgetShadowPriceMax'', ''budget_shadow_price_max''] ''budgetShadowPriceMax'' = Inr hi'"
    "isfinite debit" "Fin 0 \<le> lo'" "lo' \<le> cu_next u" "cu_next u \<le> hi'"
    by (rule controller_update_Inr [OF assms(2)])
  have limits: "lo' = lo" "hi' = hi" using required_stored [OF c(1) o(3)] required_stored [OF c(2) o(4)] by auto
  have "debit \<le> r" using assms(3) o(1) by (auto simp: budget_selected_def simp del: jget.simps split: option.splits)
  then have pos: "Fin 0 \<le> r - debit" using sub_nonneg [OF _ c(3)] o(2) by (cases r) auto
  show ?thesis
  proof (rule usage_budget_update_Some [OF assms(4)])
    fix remaining weight
    assume b: "stored_number (jget (JObj d) ''budgetRemainingUsd'') = Some remaining"
      "jget (JObj b) ''budgetRemainingUsd'' = JFloat (remaining - debit)"
      "jget (JObj b) ''remainingWeight'' = JFloat (if Fin 0 < weight - alloc then weight - alloc else Fin 0)"
      "jget (JObj b) ''budgetShadowPrice'' = JFloat (cu_next u)"
      "\<And>k. k \<in> {''budgetShadowPriceMin'', ''budgetShadowPriceMax'', ''spendAccountingMode'', ''spend_accounting_mode''} \<Longrightarrow>
       jget (JObj b) k = jget (JObj d) k"
    have lims: "jget (JObj b) ''budgetShadowPriceMin'' = jget (JObj d) ''budgetShadowPriceMin''"
      "jget (JObj b) ''budgetShadowPriceMax'' = jget (JObj d) ''budgetShadowPriceMax''" using b(5) by blast+
    have "remaining = r" using b(1) o(1) by simp
    then show ?thesis unfolding budget_ok_def b(2-4) lims using o(3,4) c(4-6) pos
      by (intro exI [of _ "r - debit"] exI [of _ "if Fin 0 < weight - alloc then weight - alloc else Fin 0"]
          exI [of _ "cu_next u"] exI [of _ lo] exI [of _ hi]) (auto simp: limits intro: pyfloat_less_le)
  qed
qed

lemma commit_budgets_ok:
  assumes "commits st st'" "\<forall>d\<in>snd ` set (us_budgets st). budget_ok d"
  shows "\<forall>d\<in>snd ` set (us_budgets st'). budget_ok d"
proof -
  from assms(1) obtain uuid now w f doc where p: "persist uuid now w f st = Inr (doc, st')" unfolding commits_def by blast
  then show ?thesis
  proof (cases rule: persist_cases)
    case (counted d mode debit u budget user profile)
    have "d \<in> snd ` set (us_budgets st)" using facts_budget [OF counted(3)] by (auto dest!: map_of_SomeD intro: image_eqI [rotated])
    then have "budget_ok budget" using debited_budget_ok [OF _ counted(4-6)] assms(2) by blast
    then show ?thesis using counted(8) assms(2) dict_set_subset [of "(uw_user w, uw_route w)" budget "us_budgets st"] by auto
  qed (use assms(2) in auto)
qed

section \<open>A call reported again\<close>

lemma is_close_same: "x \<noteq> NaN \<Longrightarrow> is_close x x"
  by (simp add: is_close_def feq_def)

lemma close_number_same: "isfinite x \<Longrightarrow> close_number (JFloat x) x = Inr True"
  using is_close_same [of x] by (auto simp: close_number_def finite_profile_number_def isfinite_iff)

lemma weight_matches_same: "x \<noteq> NaN \<Longrightarrow> weight_matches c (if c then JFloat x else JNull) x = Inr True"
  using is_close_same [of x] by (simp add: weight_matches_def parse_optional_number_def)

lemma prepare_usage_Inr:
  assumes "prepare_usage w = Inr f"
  shows "uf_fee f = routing_fee_usd (uw_spend w)" "uf_spend f = uw_spend w" "isfinite (uf_spend f)" "Fin 0 \<le> uf_spend f"
    "uf_weight f \<noteq> NaN" "uf_weight_debit f \<noteq> NaN"
    "uw_counters w \<Longrightarrow> Fin 0 < uf_weight f \<and> Fin 0 \<le> uf_weight_debit f \<and> uf_weight_debit f \<le> uf_weight f"
proof -
  let ?weight = "uf_weight f" and ?debit = "uf_weight_debit f"
  from assms have w: "as_float (jget (uw_model w) ''request_weight'') (Fin (- 1)) = Inr ?weight" "?debit = weight_debit_of w ?weight"
    "uw_counters w \<longrightarrow> \<not> ?weight \<le> Fin 0" "uw_counters w \<longrightarrow> \<not> (?debit < Fin 0 \<or> ?weight < ?debit)"
    "isfinite (uw_spend w)" "\<not> uw_spend w < Fin 0" "uf_fee f = routing_fee_usd (uw_spend w)" "uf_spend f = uw_spend w"
    unfolding prepare_usage_def Let_def unprocessable_def by (auto simp del: jget.simps split: if_split_asm)
  show "uf_fee f = routing_fee_usd (uw_spend w)" "uf_spend f = uw_spend w" "isfinite (uf_spend f)" using w by simp_all
  show "Fin 0 \<le> uf_spend f" using w(5,6,8) by (auto simp: isfinite_iff)
  show n: "?weight \<noteq> NaN" using as_float_not_NaN [OF w(1)] by simp
  then show d: "?debit \<noteq> NaN" using w(2) by (auto simp: weight_debit_of_def Let_def split: option.splits)
  show "uw_counters w \<Longrightarrow> Fin 0 < ?weight \<and> Fin 0 \<le> ?debit \<and> ?debit \<le> ?weight"
    using w(3,4) n d pyfloat_not_less [of "?debit" "Fin 0"] pyfloat_not_less [of "?weight" "?debit"] pyfloat_linear [of "?weight" "Fin 0"]
    by auto
qed

lemma document_matches:
  assumes doc: "doc = usage_document uuid now w f mode debit u profile budget"
    and fin: "isfinite (uf_fee f)" "isfinite (uf_spend f)" "isfinite debit" "uf_weight f \<noteq> NaN" "uf_weight_debit f \<noteq> NaN"
  shows "require_idempotent_usage_match doc w f mode debit = Inr doc"
proof -
  let ?e = "JObj doc"
  have get: "jget ?e ''routeName'' = JStr (uw_route_name w)" "jget ?e ''modelId'' = JStr (uf_model_id f)"
    "jget ?e ''provider'' = JStr (uf_provider f)" "jget ?e ''success'' = JBool (uw_success w)"
    "jget ?e ''accountingCountersUpdated'' = JBool (uw_counters w)" "jget ?e ''spendUsd'' = JFloat (uf_fee f)"
    "jget ?e ''providerSpendUsd'' = JFloat (uf_spend f)" "jget ?e ''spendAccountingMode'' = JStr mode"
    "jget ?e ''accountedSpendUsd'' = JFloat debit"
    "jget ?e ''requestWeight'' = (if uw_counters w then JFloat (uf_weight f) else JNull)"
    "jget ?e ''requestWeightDebit'' = (if uw_counters w then JFloat (uf_weight_debit f) else JNull)"
    by (simp_all add: doc usage_document_def Let_def)
  have "usage_mismatches ?e w f mode debit = Inr []"
    unfolding usage_mismatches_def stored_provider_spend_def get
    using fin by (simp add: close_number_same weight_matches_same)
  then show ?thesis by (simp add: require_idempotent_usage_match_def)
qed

lemma find_snoc: "List.find P xs = None \<Longrightarrow> P y \<Longrightarrow> List.find P (xs @ [y]) = Some y"
  by (induction xs) (auto split: if_splits)

text \<open>A store in which a log of the call is found and agrees with it.\<close>

definition agreed :: "usage_write \<Rightarrow> usage_facts \<Rightarrow> (string, json) dict \<Rightarrow> usage_store \<Rightarrow> bool" where
  "agreed w f doc st \<longleftrightarrow> stored_log w f st = Some doc \<and>
     (\<exists>d mode debit. budget_accounting_facts w f st = Inr (d, mode, debit) \<and> require_idempotent_usage_match doc w f mode debit = Inr doc)"

lemma document_is_log:
  "doc = usage_document uuid now w f mode debit u profile budget \<Longrightarrow> is_log_of (uw_user w) (uw_route w) (uf_call_id f) doc"
  by (simp add: usage_document_def is_log_of_def Let_def)

lemma keys_mode_unchanged:
  assumes "usage_budget_update debit alloc u provider lab success now d = Some b"
  shows "first_present (JObj b) keys_mode = first_present (JObj d) keys_mode"
proof (rule usage_budget_update_Some [OF assms])
  assume "\<And>k. k \<in> {''budgetShadowPriceMin'', ''budgetShadowPriceMax'', ''spendAccountingMode'', ''spend_accounting_mode''} \<Longrightarrow>
       jget (JObj b) k = jget (JObj d) k"
  then have "jget (JObj b) ''spendAccountingMode'' = jget (JObj d) ''spendAccountingMode''"
    "jget (JObj b) ''spend_accounting_mode'' = jget (JObj d) ''spend_accounting_mode''" by blast+
  then show ?thesis by (simp add: keys_mode_def del: jget.simps)
qed

lemma persist_agreed:
  assumes "prepare_usage w = Inr f" "isfinite (uf_fee f)" "persist uuid now w f st = Inr (doc, st')"
  shows "agreed w f doc st'"
  using assms(3)
proof (cases rule: persist_cases)
  case (known mode debit d)
  then show ?thesis by (auto simp: agreed_def)
next
  case (counted d mode debit u budget user profile)
  note p = prepare_usage_Inr [OF assms(1)]
  have fb: "normalize_spend_accounting_mode (first_present (JObj d) keys_mode) 409 = Inr mode"
    "debit = (if mode = ''provider_spend'' then uf_spend f else uf_fee f)" using facts_budget [OF counted(3)] by auto
  then have "require_idempotent_usage_match doc w f mode debit = Inr doc"
    using document_matches [OF counted(7) assms(2) p(3) _ p(5,6)] p(3) assms(2) by simp
  moreover have "budget_accounting_facts w f st' = Inr (budget, mode, debit)"
    using counted(8) fb keys_mode_unchanged [OF counted(6)] by (simp add: budget_accounting_facts_def dict_get_set)
  moreover have "stored_log w f st' = Some doc"
    using counted(1,8) find_snoc [where P = "is_log_of (uw_user w) (uw_route w) (uf_call_id f)", OF _ document_is_log [OF counted(7)]] by (simp add: stored_log_def)
  ultimately show ?thesis by (auto simp: agreed_def)
next
  case (uncounted d mode debit profile)
  note p = prepare_usage_Inr [OF assms(1)]
  have fb: "debit = (if mode = ''provider_spend'' then uf_spend f else uf_fee f)" using facts_budget [OF uncounted(3)] by auto
  then have "require_idempotent_usage_match doc w f mode debit = Inr doc"
    using document_matches [OF uncounted(4) assms(2) p(3) _ p(5,6)] p(3) assms(2) by simp
  moreover have "budget_accounting_facts w f st' = Inr (d, mode, debit)"
    using uncounted(3,5) by (simp add: budget_accounting_facts_def)
  moreover have "stored_log w f st' = Some doc"
    using uncounted(1,5) find_snoc [where P = "is_log_of (uw_user w) (uw_route w) (uf_call_id f)", OF _ document_is_log [OF uncounted(4)]] by (simp add: stored_log_def)
  ultimately show ?thesis by (auto simp: agreed_def)
qed

lemma duplicate_agreed: "duplicate_answer w f st = Inr doc \<Longrightarrow> agreed w f doc st"
  by (auto simp: duplicate_answer_def agreed_def require_idempotent_usage_match_def split: option.splits if_splits)

lemma run_attempt_agreed:
  "prepare_usage w = Inr f \<Longrightarrow> isfinite (uf_fee f) \<Longrightarrow> run_attempt sr w f n st = (Inl (Inr doc), st') \<Longrightarrow> agreed w f doc st'"
  using persist_agreed [of w f "sr_uuids sr n" "sr_now sr" st doc st']
  by (cases "persist (sr_uuids sr n) (sr_now sr) w f st"; cases "sr_ends sr n")
    (auto simp: run_attempt_def transaction_failed_def split: http_error.splits)

lemma ends_loop_agreed: "ends_loop sr w f n final e st = Some (Inr doc) \<Longrightarrow> agreed w f doc st"
  using duplicate_agreed by (auto simp: ends_loop_def transaction_failed_def split: if_splits sum.splits bool.splits)

lemma write_attempts_agreed:
  assumes "prepare_usage w = Inr f" "isfinite (uf_fee f)"
  shows "write_attempts sr w f k n st = (Inr doc, st') \<Longrightarrow> agreed w f doc st'"
proof (induction k arbitrary: n st)
  case (Suc k)
  obtain r s where r: "run_attempt sr w f n (sr_others sr n st) = (r, s)" by fastforce
  show ?case
  proof (cases r)
    case (Inl a)
    then show ?thesis using Suc.prems r run_attempt_agreed [OF assms] by simp
  next
    case (Inr e)
    then show ?thesis using Suc r ends_loop_agreed by (auto split: option.splits)
  qed
qed simp

text \<open>Reported again, the call changes nothing and is answered with the stored log or an error.\<close>

lemma agreed_persist: "agreed w f doc st \<Longrightarrow> persist uuid now w f st = Inr (doc, st)"
  by (auto simp: agreed_def persist_def)

lemma agreed_again:
  assumes "agreed w f doc st" "\<And>n s. sr_others sr n s = s"
  shows "snd (write_attempts sr w f k n st) = st \<and> (\<forall>e. fst (write_attempts sr w f k n st) = Inr e \<longrightarrow> e = doc) \<and>
    (0 < k \<longrightarrow> sr_ends sr n = Ran \<longrightarrow> fst (write_attempts sr w f k n st) = Inr doc)"
proof (induction k arbitrary: n)
  case (Suc k)
  have dup: "duplicate_answer w f st = Inr doc" using assms(1) by (auto simp: duplicate_answer_def agreed_def)
  have 1: "run_attempt sr w f n st = ((case attempt_error (sr_ends sr n) of None \<Rightarrow> Inl (Inr doc) | Some e \<Rightarrow> Inr e), st)"
    using agreed_persist [OF assms(1)] by (cases "sr_ends sr n") (simp_all add: run_attempt_def)
  have 2: "ends_loop sr w f n (k = 0) e st = Some (Inr e') \<Longrightarrow> e' = doc" for e e'
    using dup by (auto simp: ends_loop_def transaction_failed_def split: if_splits sum.splits bool.splits)
  show ?case
  proof (cases "attempt_error (sr_ends sr n)")
    case None
    then show ?thesis using 1 assms(2) by simp
  next
    case (Some x)
    moreover have "sr_ends sr n \<noteq> Ran" using Some by auto
    ultimately show ?thesis using 1 2 [of x] assms(2) Suc.IH [of "Suc n"] by (cases "ends_loop sr w f n (k = 0) x st") auto
  qed
qed simp

section \<open>A sample route\<close>

definition sample_budget :: "(string, json) dict" where
  "sample_budget = [(''budgetRemainingUsd'', JFloat (Fin 10)), (''remainingWeight'', JInt 5), (''budgetShadowPrice'', JFloat (Fin 1)),
     (''budgetControllerLearningRate'', JFloat (Fin 2)), (''budgetShadowPriceMin'', JFloat (Fin 0)),
     (''budgetShadowPriceMax'', JFloat (Fin 8)), (''spendAccountingMode'', JStr ''provider_spend''), (''totalRequests'', JInt 3),
     (''successfulRequests'', JInt 2), (''failedRequests'', JInt 1)]"

definition sample_store :: usage_store where
  "sample_store = \<lparr>us_budgets = [((''u1'', ''r1''), sample_budget)], us_users = [(''u1'', [])], us_logs = []\<rparr>"

definition sample_write :: usage_write where
  "sample_write = \<lparr>uw_user = ''u1'', uw_route = ''r1'', uw_route_name = ''main'',
     uw_model = JObj [(''model_id'', JStr ''openai/m''), (''request_weight'', JFloat (Fin 1))], uw_provider = ''openai'',
     uw_success = True, uw_spend = Fin 2, uw_metadata = [(''routing_call_id'', JStr ''c1'')], uw_counters = True, uw_weight_debit = None\<rparr>"

definition sample_error :: tx_error where
  "sample_error = \<lparr>te_duplicate = False, te_pymongo = True, te_transient = True, te_code = JNull, te_details = JNull\<rparr>"

text \<open>The first attempt is committed, but the driver reports a transient error.\<close>

definition sample_surroundings :: surroundings where
  "sample_surroundings = \<lparr>sr_others = (\<lambda>n s. s), sr_ends = (\<lambda>n. if n = 1 then Commit_lost sample_error else Ran),
     sr_texts = (\<lambda>n. ''lost''), sr_uuids = (\<lambda>n. ''d1''), sr_now = 7\<rparr>"

lemma sample_written: "is_ok (fst (write_usage_log sample_surroundings sample_write sample_store))"
  by code_simp

lemma sample_quiet: "others_commit sample_surroundings"
  by (simp add: others_commit_def sample_surroundings_def)

lemma sample_history: "usage_history sample_store (snd (write_usage_log sample_surroundings sample_write sample_store))"
  by (intro uh_write uh_start sample_quiet)

lemma sample_logs:
  "length (us_logs (snd (write_usage_log sample_surroundings sample_write sample_store))) = 1 \<and>
   list_all (is_counted (''u1'', ''r1'')) (us_logs (snd (write_usage_log sample_surroundings sample_write sample_store)))"
  by code_simp

lemma zero_less_attempts: "0 < max_attempts"
  by (simp add: max_attempts_def)

section \<open>The properties\<close>

text \<open>Property C10. A call is accounted exactly once. After a write that answered with a log, however its
  attempts ended (committed, aborted, or committed while the driver reported a failure), writing the same call
  again leaves the store as it is, whatever its own attempts meet; it is answered with the same log or with an
  error, and with the log when the database answers.\<close>

theorem usage_recorded_once:
  assumes "write_usage_log sr w st = (Inr doc, st')" "isfinite (routing_fee_usd (uw_spend w))" "\<And>n s. sr_others again n s = s"
  shows "snd (write_usage_log again w st') = st' \<and> (\<forall>e. fst (write_usage_log again w st') = Inr e \<longrightarrow> e = doc) \<and>
    (sr_ends again 1 = Ran \<longrightarrow> fst (write_usage_log again w st') = Inr doc)"
proof -
  from assms(1) obtain f where f: "prepare_usage w = Inr f" "write_attempts sr w f max_attempts 1 st = (Inr doc, st')"
    by (auto simp: write_usage_log_def split: sum.splits)
  have "isfinite (uf_fee f)" using prepare_usage_Inr(1) [OF f(1)] assms(2) by simp
  then have "agreed w f doc st'" using write_attempts_agreed [OF f(1) _ f(2)] by blast
  from agreed_again [OF this assms(3), of max_attempts 1] zero_less_attempts
  show ?thesis unfolding write_usage_log_def f(1) sum.case by blast
qed

lemma usage_recorded_once_witness:
  "\<exists>doc st'. write_usage_log sample_surroundings sample_write sample_store = (Inr doc, st') \<and>
     snd (write_usage_log sample_surroundings sample_write st') = st'"
proof -
  obtain doc st' where w: "write_usage_log sample_surroundings sample_write sample_store = (Inr doc, st')"
    using sample_written by (cases "write_usage_log sample_surroundings sample_write sample_store") (auto simp: is_ok_iff)
  have "isfinite (routing_fee_usd (uw_spend sample_write))" by code_simp
  from usage_recorded_once [OF w this, of sample_surroundings] show ?thesis using w by (auto simp: sample_surroundings_def)
qed

text \<open>Property C11. The counters of a route tell its logs. Over any history of writes, with commits of other
  writers between their attempts, logs are only appended, no call of a user's route is logged twice, and the
  request, success and failure counters of a route grow by exactly the logs that update them.\<close>

theorem calls_counted_once:
  assumes "usage_history st0 st" "map_of (us_budgets st0) key = Some d0" "count_field d0 ''totalRequests'' = Some t"
    "count_field d0 ''successfulRequests'' = Some s" "count_field d0 ''failedRequests'' = Some f"
  shows "\<exists>new d. us_logs st = us_logs st0 @ new \<and> distinct (map call_ident new) \<and>
    call_ident ` set new \<inter> call_ident ` set (us_logs st0) = {} \<and> map_of (us_budgets st) key = Some d \<and>
    count_field d ''totalRequests'' = Some (t + int (length (filter (is_counted key) new))) \<and>
    count_field d ''successfulRequests'' = Some (s + int (length (filter (\<lambda>e. is_counted key e \<and> succeeded e) new))) \<and>
    count_field d ''failedRequests'' = Some (f + int (length (filter (\<lambda>e. is_counted key e \<and> \<not> succeeded e) new)))"
  using books_history [OF history_commits [OF assms(1)] assms(2-)] by (auto simp: books_def)

lemma calls_counted_once_witness:
  "\<exists>d. map_of (us_budgets (snd (write_usage_log sample_surroundings sample_write sample_store))) (''u1'', ''r1'') = Some d \<and>
     count_field d ''totalRequests'' = Some 4"
proof -
  let ?st = "snd (write_usage_log sample_surroundings sample_write sample_store)"
  have "map_of (us_budgets sample_store) (''u1'', ''r1'') = Some sample_budget" by (simp add: sample_store_def)
  moreover have "count_field sample_budget ''totalRequests'' = Some 3" "count_field sample_budget ''successfulRequests'' = Some 2"
    "count_field sample_budget ''failedRequests'' = Some 1" by (simp_all add: count_field_def sample_budget_def if_null_def)
  ultimately obtain new d where n: "us_logs ?st = us_logs sample_store @ new" "map_of (us_budgets ?st) (''u1'', ''r1'') = Some d"
    "count_field d ''totalRequests'' = Some (3 + int (length (filter (is_counted (''u1'', ''r1'')) new)))"
    using calls_counted_once [OF sample_history] by blast
  have "new = us_logs ?st" using n(1) by (simp add: sample_store_def)
  then have "filter (is_counted (''u1'', ''r1'')) new = new" "length new = 1"
    using sample_logs by (simp_all add: list_all_iff)
  then show ?thesis using n(2,3) by simp
qed

text \<open>Property C12. No history of writes overdraws a budget: if every route starts with a sum and a weight that
  are not negative and a shadow price within its limits, every route keeps all three.\<close>

theorem budget_never_overdrawn:
  assumes "usage_history st0 st" "\<forall>d\<in>snd ` set (us_budgets st0). budget_ok d"
  shows "\<forall>d\<in>snd ` set (us_budgets st). budget_ok d"
  using history_commits [OF assms(1)] assms(2)
proof (induction rule: rtranclp_induct)
  case (step y z)
  then show ?case using commit_budgets_ok by blast
qed

lemma sample_budget_ok: "budget_ok sample_budget"
  unfolding budget_ok_def sample_budget_def by (simp add: fl_of_int_small)

lemma budget_never_overdrawn_witness:
  "list_all budget_ok (map snd (us_budgets (snd (write_usage_log sample_surroundings sample_write sample_store))))"
  using budget_never_overdrawn [OF sample_history] sample_budget_ok by (simp add: sample_store_def list_all_iff)

section \<open>Reports\<close>

lemma py_round_nonneg: "0 \<le> r \<Longrightarrow> Fin 0 \<le> py_round (Fin r) n"
proof -
  assume "0 \<le> r"
  then have "0 \<le> round_even (r * 10 ^ n)" by (intro round_even_lower) simp
  then show ?thesis by (simp add: fl_nonneg)
qed

lemma supplied_counts_Inr:
  "supplied_counts usage as = Inr vs \<Longrightarrow> a \<in> set as \<Longrightarrow> jget usage a \<noteq> JNull \<Longrightarrow>
     \<exists>v\<in>set vs. finite_profile_number (jget usage a) False = Inr (Some v) \<and> Fin 0 \<le> v"
proof (induction as arbitrary: vs)
  case (Cons b bs)
  show ?case
  proof (cases "jget usage b = JNull")
    case True
    then show ?thesis using Cons by auto
  next
    case False
    with Cons.prems(1) obtain v ws where v: "finite_profile_number (jget usage b) False = Inr (Some v)" "\<not> v < Fin 0"
      "supplied_counts usage bs = Inr ws" "vs = v # ws"
      by (auto simp: count_invalid_def simp del: jget.simps split: option.splits if_splits)
    have "Fin 0 \<le> v" using v(2) finite_profile_number_Some [OF v(1)] by (auto simp: isfinite_iff)
    then show ?thesis using v Cons.IH [OF v(3)] Cons.prems(2,3) by auto
  qed
qed simp

lemma usage_token_count_Inr:
  assumes "usage_token_count usage as field = Inr n" "a \<in> set as" "jget usage a \<noteq> JNull"
  shows "\<exists>v. finite_profile_number (jget usage a) False = Inr (Some v) \<and> Fin 0 \<le> v \<and> is_close v n"
proof -
  from assms(1) obtain xs where xs: "supplied_counts usage as = Inr xs"
    "(case xs of [] \<Rightarrow> refuse 422 ''usage_token_count_required'' [(''field'', JStr field)]
       | v # vs \<Rightarrow> if \<not> list_all (\<lambda>x. is_close x v) vs then refuse 422 ''conflicting_usage_token_counts'' [(''field'', JStr field)]
         else Inr v) = Inr n" unfolding usage_token_count_def rbind_Inr_iff by blast
  then obtain vs where vs: "supplied_counts usage as = Inr (n # vs)" "list_all (\<lambda>x. is_close x n) vs"
    by (cases xs) (auto split: if_splits)
  obtain v where v: "v \<in> set (n # vs)" "finite_profile_number (jget usage a) False = Inr (Some v)" "Fin 0 \<le> v"
    using supplied_counts_Inr [OF vs(1) assms(2,3)] by blast
  have "v \<noteq> NaN" using v(3) by auto
  then have "is_close v n" using v(1) vs(2) is_close_same [of n] by (auto simp: list_all_iff)
  then show ?thesis using v by blast
qed

text \<open>The counts agree with every count the report gives.\<close>

definition counts_agree :: "json \<Rightarrow> string list \<Rightarrow> pyfloat \<Rightarrow> bool" where
  "counts_agree usage as n \<longleftrightarrow> (\<forall>a\<in>set as. jget usage a \<noteq> JNull \<longrightarrow>
     (\<exists>v. finite_profile_number (jget usage a) False = Inr (Some v) \<and> Fin 0 \<le> v \<and> is_close v n))"

lemma usage_tokens_agree:
  assumes "usage_tokens usage success = Inr (ti, to)"
  shows "counts_agree usage input_aliases ti \<and> counts_agree usage output_aliases to"
proof (cases "\<not> is_object usage \<or> \<not> truthy usage")
  case True
  then have "jget usage a = JNull" for a by (cases usage) auto
  then show ?thesis by (simp add: counts_agree_def)
next
  case False
  with assms have "usage_token_count usage input_aliases ''input_tokens'' = Inr ti"
    "usage_token_count usage output_aliases ''output_tokens'' = Inr to" by (auto simp: usage_tokens_def)
  then show ?thesis unfolding counts_agree_def by (intro conjI ballI impI) (rule usage_token_count_Inr; assumption)+
qed

text \<open>The count is one that the report gives.\<close>

definition count_given :: "json \<Rightarrow> string list \<Rightarrow> rat \<Rightarrow> bool" where
  "count_given usage as n \<longleftrightarrow> 0 \<le> n \<and> (\<exists>a\<in>set as. finite_profile_number (jget usage a) False = Inr (Some (Fin n)))"

lemma supplied_counts_given:
  "supplied_counts usage as = Inr vs \<Longrightarrow> v \<in> set vs \<Longrightarrow> \<exists>n. v = Fin n \<and> count_given usage as n"
proof (induction as arbitrary: vs)
  case (Cons b bs)
  show ?case
  proof (cases "jget usage b = JNull")
    case True
    then show ?thesis using Cons by (auto simp: count_given_def)
  next
    case False
    with Cons.prems(1) obtain w ws where w: "finite_profile_number (jget usage b) False = Inr (Some w)" "\<not> w < Fin 0"
      "supplied_counts usage bs = Inr ws" "vs = w # ws"
      by (auto simp: count_invalid_def simp del: jget.simps split: option.splits if_splits)
    obtain n where n: "w = Fin n" "0 \<le> n"
      using w(2) finite_profile_number_Some [OF w(1)] by (auto simp: isfinite_iff)
    show ?thesis
    proof (cases "v = w")
      case True
      with n w(1) show ?thesis by (auto simp: count_given_def)
    next
      case False
      with Cons.IH [OF w(3)] Cons.prems(2) w(4) show ?thesis by (auto simp: count_given_def)
    qed
  qed
qed simp

lemma usage_token_count_given:
  assumes "usage_token_count usage as field = Inr v"
  shows "\<exists>n. v = Fin n \<and> count_given usage as n"
proof -
  from assms obtain xs where xs: "supplied_counts usage as = Inr xs"
    "(case xs of [] \<Rightarrow> refuse 422 ''usage_token_count_required'' [(''field'', JStr field)]
       | v # vs \<Rightarrow> if \<not> list_all (\<lambda>x. is_close x v) vs then refuse 422 ''conflicting_usage_token_counts'' [(''field'', JStr field)]
         else Inr v) = Inr v" unfolding usage_token_count_def rbind_Inr_iff by blast
  then have "v \<in> set xs" by (cases xs) (auto split: if_splits)
  with xs(1) show ?thesis by (rule supplied_counts_given)
qed

lemma usage_tokens_given:
  assumes "usage_tokens usage success = Inr (x, y)"
  shows "\<exists>ti to. x = Fin ti \<and> y = Fin to \<and> 0 \<le> ti \<and> 0 \<le> to \<and>
    (if is_object usage \<and> truthy usage then count_given usage input_aliases ti \<and> count_given usage output_aliases to
     else \<not> success \<and> ti = 0 \<and> to = 0)"
proof (cases "is_object usage \<and> truthy usage")
  case False
  then show ?thesis using assms by (auto simp: usage_tokens_def split: if_splits)
next
  case True
  with assms have "usage_token_count usage input_aliases ''input_tokens'' = Inr x"
    "usage_token_count usage output_aliases ''output_tokens'' = Inr y" by (auto simp: usage_tokens_def)
  from usage_token_count_given [OF this(1)] usage_token_count_given [OF this(2)] True
  show ?thesis by (auto simp: count_given_def)
qed

lemma rounded_price:
  assumes "py_round (fdiv (Fin ti) million * Fin i + fdiv (Fin to) million * Fin out) 8 = Fin v"
    and "0 \<le> ti" "0 \<le> to" "0 \<le> i" "0 \<le> out" "i \<le> 2 ^ 40" "out \<le> 2 ^ 40"
  shows "\<bar>v - exact_price ti to i out\<bar> \<le> exact_price ti to i out / 2 ^ 50 + 51 / 10 ^ 10"
proof -
  obtain e where e: "fdiv (Fin ti) million * Fin i + fdiv (Fin to) million * Fin out = Fin e"
    using assms(1) by (cases "fdiv (Fin ti) million * Fin i + fdiv (Fin to) million * Fin out") auto
  then obtain b d where bd: "fdiv (Fin ti) million * Fin i = Fin b" "fdiv (Fin to) million * Fin out = Fin d" "e = rnd (b + d)"
    by (cases "fdiv (Fin ti) million * Fin i"; cases "fdiv (Fin to) million * Fin out")
      (auto simp: Fin_add plus_pyfloat_def dest: fl_Fin)
  have part: "r = rnd (rnd (n / 1000000) * p)" if n: "fdiv (Fin n) million * Fin p = Fin r" for n p r
  proof -
    have "fl (n / 1000000) * Fin p = Fin r" using n by (simp add: million_def)
    moreover have "PInf * Fin p \<noteq> Fin r" "NInf * Fin p \<noteq> Fin r" by (auto simp: times_pyfloat_def finf_def)
    ultimately have "Fin (rnd (n / 1000000)) * Fin p = Fin r" using fl_cases [of "n / 1000000"] by metis
    then show ?thesis by (auto simp: Fin_mul dest: fl_Fin)
  qed
  have "v = rnd (of_int (round_even (e * 10 ^ 8)) / 10 ^ 8)" using assms(1) fl_Fin by (simp add: e)
  from price_near [OF assms(2-7) _ this] bd(3) part [OF bd(1)] part [OF bd(2)] show ?thesis by simp
qed

text \<open>
  Property C13. The spend that is accounted is the one the signed prices give: an accepted report's
  spend is the price of token counts that the report gives and that agree with every other count it
  names (a failed call without any counts costs nothing), at the prices of the profile per million
  tokens, rounded to eight digits; for prices up to two to the forty it is within a relative error of
  two to the minus fifty and half a unit of the eighth digit of the exact price. It equals the
  spend the report supplied, rounded the same way, and is not negative.
\<close>

theorem verified_spend_exact:
  assumes "verified_usage_spend_usd profile metadata success supplied = Inr x"
  shows "\<exists>ti to i out. counts_agree (jget metadata ''usage'') input_aliases (Fin ti) \<and>
    counts_agree (jget metadata ''usage'') output_aliases (Fin to) \<and>
    (if is_object (jget metadata ''usage'') \<and> truthy (jget metadata ''usage'')
     then count_given (jget metadata ''usage'') input_aliases ti \<and> count_given (jget metadata ''usage'') output_aliases to
     else \<not> success \<and> ti = 0 \<and> to = 0) \<and>
    finite_profile_number (jget profile ''input_price_per_million'') False = Inr (Some (Fin i)) \<and> 0 \<le> i \<and>
    finite_profile_number (jget profile ''output_price_per_million'') False = Inr (Some (Fin out)) \<and> 0 \<le> out \<and>
    x = py_round (fdiv (Fin ti) (Fin 1000000) * Fin i + fdiv (Fin to) (Fin 1000000) * Fin out) 8 \<and>
    (\<forall>v. x = Fin v \<and> i \<le> 2 ^ 40 \<and> out \<le> 2 ^ 40 \<longrightarrow>
       \<bar>v - exact_price ti to i out\<bar> \<le> exact_price ti to i out / 2 ^ 50 + 51 / 10 ^ 10) \<and>
    x = py_round supplied 8 \<and> Fin 0 \<le> x"
proof -
  from assms obtain tx ty ip op where t: "usage_tokens (jget metadata ''usage'') success = Inr (tx, ty)"
    "finite_profile_number (jget profile ''input_price_per_million'') False = Inr ip"
    "finite_profile_number (jget profile ''output_price_per_million'') False = Inr op"
    "(case (ip, op) of (Some i, Some out) \<Rightarrow>
         if i < Fin 0 \<or> out < Fin 0 then refuse 502 ''signed_model_prices_invalid'' []
         else let verified_spend = token_cost tx ty i out in
         if \<not> isfinite supplied \<or> supplied < Fin 0 \<or> \<not> feq (py_round supplied 8) verified_spend
         then refuse 422 ''usage_spend_mismatch'' [(''verified_spend_usd'', JFloat verified_spend)]
         else Inr verified_spend
     | _ \<Rightarrow> refuse 502 ''signed_model_prices_invalid'' []) = Inr x"
    unfolding verified_usage_spend_usd_def rbind_Inr_iff lift_Inr by auto
  then obtain ix ox where p: "ip = Some ix" "op = Some ox" by (cases ip; cases op) auto
  have v: "\<not> ix < Fin 0" "\<not> ox < Fin 0" "isfinite supplied" "\<not> supplied < Fin 0" "feq (py_round supplied 8) (token_cost tx ty ix ox)"
    "x = token_cost tx ty ix ox" using t(4) unfolding p by (simp_all add: Let_def del: py_round.simps split: if_splits)
  obtain i out where price: "ix = Fin i" "ox = Fin out" "0 \<le> i" "0 \<le> out"
    using v(1,2) finite_profile_number_Some [OF t(2) [unfolded p]] finite_profile_number_Some [OF t(3) [unfolded p]] by (auto simp: isfinite_iff)
  obtain ti to where n: "tx = Fin ti" "ty = Fin to" "0 \<le> ti" "0 \<le> to"
    "if is_object (jget metadata ''usage'') \<and> truthy (jget metadata ''usage'')
     then count_given (jget metadata ''usage'') input_aliases ti \<and> count_given (jget metadata ''usage'') output_aliases to
     else \<not> success \<and> ti = 0 \<and> to = 0" using usage_tokens_given [OF t(1)] by blast
  have eq: "x = py_round supplied 8" using v(5,6) by (simp add: feq_def del: py_round.simps)
  obtain r where "supplied = Fin r" "0 \<le> r" using v(3,4) by (auto simp: isfinite_iff)
  then have pos: "Fin 0 \<le> x" using eq py_round_nonneg [of r 8] by (simp del: py_round.simps)
  have x: "x = py_round (fdiv (Fin ti) (Fin 1000000) * Fin i + fdiv (Fin to) (Fin 1000000) * Fin out) 8"
    using v(6) by (simp add: token_cost_def million_def n(1,2) price(1,2) del: py_round.simps fdiv.simps)
  have near: "\<bar>w - exact_price ti to i out\<bar> \<le> exact_price ti to i out / 2 ^ 50 + 51 / 10 ^ 10"
    if "x = Fin w \<and> i \<le> 2 ^ 40 \<and> out \<le> 2 ^ 40" for w
    using rounded_price [of ti i to out w] that n(3,4) price(3,4) unfolding million_def x by blast
  show ?thesis
    using usage_tokens_agree [OF t(1)] t(2,3) unfolding p price(1,2) n(1,2)
    by (intro exI [of _ ti] exI [of _ to] exI [of _ i] exI [of _ out] conjI allI impI n(5) price(3,4) x near eq pos) auto
qed

definition priced_profile :: json where
  "priced_profile = JObj [(''input_price_per_million'', JFloat (Fin 2)), (''output_price_per_million'', JFloat (Fin 3))]"

definition counted_tokens :: json where
  "counted_tokens = JObj [(''usage'', JObj [(''prompt_tokens'', JFloat (Fin 500000)), (''inputTokens'', JFloat (Fin 500000)),
     (''completion_tokens'', JFloat (Fin 1000000))])]"

lemma sample_spend: "verified_usage_spend_usd priced_profile counted_tokens True (Fin 4) = Inr (Fin 4)"
  by code_simp

lemma verified_spend_exact_witness:
  "\<exists>ti to. counts_agree (jget counted_tokens ''usage'') input_aliases (Fin ti) \<and>
     Fin 4 = py_round (fdiv (Fin ti) (Fin 1000000) * Fin 2 + fdiv (Fin to) (Fin 1000000) * Fin 3) 8"
proof -
  have "finite_profile_number (jget priced_profile ''input_price_per_million'') False = Inr (Some (Fin 2))"
    "finite_profile_number (jget priced_profile ''output_price_per_million'') False = Inr (Some (Fin 3))" by code_simp+
  with verified_spend_exact [OF sample_spend] show ?thesis by (auto simp del: py_round.simps fdiv.simps)
qed

text \<open>Property C15. The database key of a lab may not hold a dot, and the labs come from the model's identifier: a
  model whose lab has a dot, as \<^verbatim>\<open>Z.ai\<close> has and as an identifier without an owner often has, can never be
  logged: every write of such a call is refused and stores nothing.\<close>

theorem dotted_lab_never_logged:
  assumes "model_company_from_id (strip (text_at (uw_model w) ''model_id'')) = Some lab" "CHR ''.'' \<in> set (strip lab)"
  shows "snd (write_usage_log sr w st) = st \<and> \<not> is_ok (fst (write_usage_log sr w st))"
proof -
  have "strip (text_at (uw_model w) ''model_id'') \<noteq> []" using assms(1) by (auto simp: model_company_from_id_def)
  moreover have "lab_key (strip (text_at (uw_model w) ''model_id'')) = refuse 422 ''invalid_counter_key'' [(''field'', JStr ''model_lab'')]"
    using assms by (simp add: lab_key_def mongo_counter_key_def Let_def refuse_def)
  ultimately have "prepare_usage w \<noteq> Inr f" for f
    by (auto simp: prepare_usage_def Let_def)
  then show ?thesis by (cases "prepare_usage w") (auto simp: write_usage_log_def)
qed

lemma dotted_lab_never_logged_witness:
  "\<not> is_ok (fst (write_usage_log sample_surroundings (sample_write\<lparr>uw_model := JObj [(''model_id'', JStr ''z-ai/glm-4.6'')]\<rparr>) sample_store)) \<and>
   \<not> is_ok (fst (write_usage_log sample_surroundings (sample_write\<lparr>uw_model := JObj [(''model_id'', JStr ''gpt-4.1'')]\<rparr>) sample_store))"
proof -
  have "model_company_from_id (strip (text_at (JObj [(''model_id'', JStr ''z-ai/glm-4.6'')]) ''model_id'')) = Some ''Z.ai''"
    "model_company_from_id (strip (text_at (JObj [(''model_id'', JStr ''gpt-4.1'')]) ''model_id'')) = Some ''gpt-4.1''" by code_simp+
  moreover have "CHR ''.'' \<in> set (strip ''Z.ai'')" "CHR ''.'' \<in> set (strip ''gpt-4.1'')" by code_simp+
  ultimately show ?thesis using dotted_lab_never_logged [of "sample_write\<lparr>uw_model := JObj [(''model_id'', JStr ''z-ai/glm-4.6'')]\<rparr>"]
      dotted_lab_never_logged [of "sample_write\<lparr>uw_model := JObj [(''model_id'', JStr ''gpt-4.1'')]\<rparr>"] by simp
qed

end
