(* ===== verification/Settlement_Props.thy ===== *)
theory Settlement_Props
  imports Usage_Props Accounting_Props
begin

text \<open>
  The endpoint that settles a call joins the signed claim, the verified spend, the workflow ledger and the usage log.
\<close>

lemma rmap_image: "rmap f xs = Inr ys \<Longrightarrow> x \<in> set xs \<Longrightarrow> \<exists>y\<in>set ys. f x = Inr y"
  by (induction xs arbitrary: ys) auto

lemma identity_mismatches_Nil:
  assumes "identity_mismatches claim r = Inr []" "(field, actual) \<in> set (reported_identity r)"
  shows "text_of claim field = actual"
proof -
  from assms(1) obtain checks where c:
    "rmap (\<lambda>(field, actual). rbind (compare_digest (text_of claim field) actual) (\<lambda>same. Inr (field, actual, same))) (reported_identity r) = Inr checks"
    "\<forall>(field, actual, same)\<in>set checks. same"
    unfolding identity_mismatches_def by (auto simp: filter_empty_conv)
  obtain y where "y \<in> set checks" "rbind (compare_digest (text_of claim field) actual) (\<lambda>same. Inr (field, actual, same)) = Inr y"
    using rmap_image [OF c(1) assms(2)] by auto
  then show ?thesis using c(2) by (auto simp: compare_digest_def split: if_splits)
qed

lemma check_claim_fields_Inr:
  assumes "check_claim_fields claim r = Inr ()"
  shows "identity_mismatches claim r = Inr []" "ur_counters r"
  using assms by (auto simp: check_claim_fields_def unprocessable_def split: if_splits)

text \<open>Property C14. A usage report only settles the call it was signed for: whatever state changes, or whatever
  answer succeeds, the token carries the service's signature over a claim with the report's user, route, route
  name and model, the spend is verified against the prices in that claim, and a workflow call touches
  only the workflow ledger, another one only the usage log.\<close>

theorem report_settles_own_call:
  assumes "lerouter_usage_log mac loads dr sr r st = (answer, st')" "st' \<noteq> st \<or> is_ok answer"
  shows "\<exists>claim payload spend. verify_accounting_token mac loads (ur_token r) = Inr claim \<and>
    signed_payload mac (ur_token r) = Some payload \<and>
    text_of claim ''user_id'' = text_or_empty (ur_user_id r) \<and> text_of claim ''route_id'' = ur_route_id r \<and>
    text_of claim ''route_name'' = strip (text_or_empty (ur_route_name r)) \<and>
    text_of claim ''model_id'' = strip (text_or_empty (ur_model_id r)) \<and>
    verified_usage_spend_usd (jget (JObj claim) ''model_profile'') (JObj (usage_metadata_of claim r)) (ur_success r) (ur_spend r) = Inr spend \<and>
    (if equals_int (jget (JObj claim) ''v'') 2 then ut_usage st' = ut_usage st
     else ut_workflow st' = ut_workflow st \<and> ut_workflow_logs st' = ut_workflow_logs st)"
proof -
  obtain claim c where c: "verify_accounting_token mac loads (ur_token r) = Inr claim" "check_usage_report claim r = Inr c"
    using assms by (auto simp: lerouter_usage_log_def is_ok_iff split: sum.splits)
  then obtain payload where p: "signed_payload mac (ur_token r) = Some payload"
    by (auto simp: verify_accounting_token_def generic_error_def refuse_def split: if_splits option.splits)
  from c(2) have f: "check_claim_fields claim r = Inr ()" and
    s: "verified_usage_spend_usd (jget (JObj claim) ''model_profile'') (JObj (usage_metadata_of claim r)) (ur_success r) (ur_spend r) = Inr (cr_spend c)"
    by (auto simp: check_usage_report_def Let_def simp del: jget.simps)
  note id = identity_mismatches_Nil [OF check_claim_fields_Inr(1) [OF f]]
  have "text_of claim ''user_id'' = text_or_empty (ur_user_id r)" "text_of claim ''route_id'' = ur_route_id r"
    "text_of claim ''route_name'' = strip (text_or_empty (ur_route_name r))"
    "text_of claim ''model_id'' = strip (text_or_empty (ur_model_id r))"
    by (rule id; simp add: reported_identity_def)+
  moreover have "if equals_int (jget (JObj claim) ''v'') 2 then ut_usage st' = ut_usage st
     else ut_workflow st' = ut_workflow st \<and> ut_workflow_logs st' = ut_workflow_logs st"
    using assms(1) c by (auto simp: lerouter_usage_log_def settle_workflow_call_def log_plain_call_def simp del: jget.simps
        split: prod.splits sum.splits if_splits)
  ultimately show ?thesis using c(1) p s by blast
qed


section \<open>A signed call of the sample route\<close>

definition plain_claim :: "(string, json) dict" where
  "plain_claim = [(''v'', JInt 1), (''user_id'', JStr ''u1''), (''route_id'', JStr ''r1''), (''route_name'', JStr ''main''),
     (''model_id'', JStr ''openai/m''), (''provider'', JStr ''openai''),
     (''model_profile'', JObj [(''model_id'', JStr ''openai/m''), (''provider'', JStr ''openai''),
        (''input_price_per_million'', JFloat (Fin 2)), (''output_price_per_million'', JFloat (Fin 3))]),
     (''request_weight'', JFloat (Fin 1)), (''routing_call_id'', JStr ''c1'')]"

definition plain_loads :: "string \<Rightarrow> json option" where
  "plain_loads s = (if s = dumps_sorted (JObj plain_claim) then Some (sorted_json (JObj plain_claim)) else None)"

definition plain_report :: "string \<Rightarrow> usage_report" where
  "plain_report token = \<lparr>ur_user_id = Some ''u1'', ur_route_id = ''r1'', ur_route_name = Some ''main'',
     ur_model_id = Some ''openai/m'', ur_provider = None, ur_token = token, ur_inference_mode = None, ur_success = True,
     ur_spend = Fin 4, ur_request_weight = None, ur_metadata = [(''usage'', JObj [(''prompt_tokens'', JFloat (Fin 500000)),
       (''completion_tokens'', JFloat (Fin 1000000))])], ur_counters = True\<rparr>"

definition verified_plain :: "(string, json) dict" where
  "verified_plain = [(''model_id'', JStr ''openai/m''),
     (''model_profile'', JObj [(''model_id'', JStr ''openai/m''), (''provider'', JStr ''openai''),
        (''input_price_per_million'', JFloat (Fin 2)), (''output_price_per_million'', JFloat (Fin 3))]),
     (''provider'', JStr ''openai''), (''request_weight'', JFloat (Fin 1)), (''route_id'', JStr ''r1''),
     (''route_name'', JStr ''main''), (''routing_call_id'', JStr ''c1''), (''user_id'', JStr ''u1''), (''v'', JInt 1)]"

definition checked_plain :: checked_report where
  "checked_plain = \<lparr>cr_spend = Fin 4, cr_weight_debit = Fin 1, cr_metadata =
     [(''usage'', JObj [(''prompt_tokens'', JFloat (Fin 500000)), (''completion_tokens'', JFloat (Fin 1000000))]),
      (''routing_call_id'', JStr ''c1''), (''request_weight'', JFloat (Fin 1)), (''attempt_rank'', JInt 1)]\<rparr>"

lemma plain_verified: "verify_claim (sorted_dict plain_claim) = Inr verified_plain"
  by code_simp

lemma plain_checked: "check_usage_report verified_plain (plain_report token) = Inr checked_plain"
  by code_simp

lemma plain_logged:
  "is_ok (fst (write_usage_log sample_surroundings (usage_write_of verified_plain (plain_report token) checked_plain) sample_store))"
  by code_simp

lemma plain_length: "length (dumps_sorted (JObj plain_claim)) \<le> 2000"
  by code_simp

lemma plain_token:
  "verify_accounting_token rev plain_loads (token_of rev (dumps_sorted (JObj plain_claim))) = Inr verified_plain"
  unfolding plain_verified [symmetric]
proof (rule verify_token)
  show "length (token_of rev (dumps_sorted (JObj plain_claim))) \<le> 8192"
    using base64_length [of "dumps_sorted (JObj plain_claim)"] base64_length [of "rev (dumps_sorted (JObj plain_claim))"] plain_length
    by (simp add: token_of_def)
qed (simp add: plain_loads_def)

lemma report_settles_own_call_witness:
  "\<exists>claim. verify_accounting_token rev plain_loads (token_of rev (dumps_sorted (JObj plain_claim))) = Inr claim \<and>
     text_of claim ''user_id'' = ''u1''"
proof -
  fix dr :: driver
  let ?r = "plain_report (token_of rev (dumps_sorted (JObj plain_claim)))"
  let ?st = "\<lparr>ut_workflow = \<lparr>wd_runs = [], wd_scopes = [], wd_reservations = []\<rparr>, ut_usage = sample_store, ut_workflow_logs = []\<rparr>"
  have v: "verify_accounting_token rev plain_loads (ur_token ?r) = Inr verified_plain" using plain_token by (simp add: plain_report_def)
  have "\<not> equals_int (jget (JObj verified_plain) ''v'') 2" by (simp add: verified_plain_def)
  then have "is_ok (fst (lerouter_usage_log rev plain_loads dr sample_surroundings ?r ?st))"
    using plain_logged [of "token_of rev (dumps_sorted (JObj plain_claim))"] v plain_checked
    by (auto simp: lerouter_usage_log_def log_plain_call_def is_ok_iff simp del: jget.simps split: prod.split)
  then obtain answer st' where "lerouter_usage_log rev plain_loads dr sample_surroundings ?r ?st = (answer, st')"
    "is_ok answer" by (cases "lerouter_usage_log rev plain_loads dr sample_surroundings ?r ?st") auto
  from report_settles_own_call [OF this(1)] this(2) obtain claim where
    "verify_accounting_token rev plain_loads (ur_token ?r) = Inr claim" "text_of claim ''user_id'' = text_or_empty (ur_user_id ?r)" by blast
  then show ?thesis by (auto simp: plain_report_def text_or_empty_def)
qed

end
