(* ===== verification/Provider_Calls.thy ===== *)
theory Provider_Calls
  imports Pricing
begin

text \<open>
  Calls to model providers (\<^verbatim>\<open>src/frontend/lerouter_modal_api.py\<close>): the translation of messages and
  tools, the request for each provider, the normal form of its answer, and the chat completion or the
  stream of events that a client receives. The environment, \<^verbatim>\<open>json.loads\<close> and the HTTP post are arguments.
\<close>

section \<open>Messages and tools\<close>

definition openai_compatible_message :: "json \<Rightarrow> json" where
  "openai_compatible_message message =
     JObj ([(''role'', jor (jget message ''role'') (JStr ''user'')),
            (''content'', if jget message ''content'' \<noteq> JNull then jget message ''content'' else JStr [])] @ optional_keys message)"

definition openai_compatible_messages :: "json list \<Rightarrow> json" where
  "openai_compatible_messages messages = JArr (map openai_compatible_message messages)"

definition text_only_content :: "json \<Rightarrow> string" where
  "text_only_content message =
     (let content = message_content_text (jget message ''content''); calls = jget message ''tool_calls'' in
      if truthy calls then strip (content @ newline @ ''tool_calls='' @ dumps_ascii '', '' '': '' calls) else content)"

definition text_only_messages :: "json list \<Rightarrow> json list" where
  "text_only_messages messages =
     (let converted = map (\<lambda>m. JObj [(''role'', JStr (if role_of m \<in> {''system'', ''user'', ''assistant''} then role_of m else ''user'')),
            (''content'', JStr (text_only_content m))]) (filter (\<lambda>m. text_only_content m \<noteq> []) messages) in
      if converted \<noteq> [] then converted
      else [JObj [(''role'', JStr ''user''), (''content'', JStr (messages_text messages))]])"

definition anthropic_tool :: "json \<Rightarrow> json list" where
  "anthropic_tool tool =
     (let function = (if jget tool ''type'' = JStr ''function'' then jget tool ''function'' else tool) in
      if \<not> is_object tool \<or> \<not> is_object function \<or> \<not> truthy (jget function ''name'') then []
      else [JObj [(''name'', JStr (py_str (jget function ''name''))), (''description'', JStr (text_at function ''description'')),
        (''input_schema'', jor (jget function ''parameters'') (JObj [(''type'', JStr ''object''), (''properties'', JObj [])]))]])"

fun openai_tools_to_anthropic_tools :: "json \<Rightarrow> json list" where
  "openai_tools_to_anthropic_tools (JArr tools) = concat (map anthropic_tool tools)"
| "openai_tools_to_anthropic_tools _ = []"

definition openai_tool_choice_to_anthropic :: "json \<Rightarrow> json option" where
  "openai_tool_choice_to_anthropic tool_choice =
     (let function = jget tool_choice ''function'' in
      if tool_choice = JStr ''auto'' then Some (JObj [(''type'', JStr ''auto'')])
      else if tool_choice = JStr ''required'' then Some (JObj [(''type'', JStr ''any'')])
      else if is_object function \<and> truthy (jget function ''name'')
      then Some (JObj [(''type'', JStr ''tool''), (''name'', JStr (py_str (jget function ''name'')))])
      else None)"

text \<open>\<open>for call in v or []\<close>: only a list has objects among its items.\<close>

fun items_of :: "json \<Rightarrow> json list result" where
  "items_of (JArr xs) = Inr xs"
| "items_of (JObj kvs) = Inr (map (\<lambda>(k, v). JStr k) kvs)"
| "items_of (JStr s) = Inr (map (\<lambda>c. JStr [c]) s)"
| "items_of v = (if truthy v then Inl (TypeError ''object is not iterable'') else Inr [])"

definition tool_input :: "(string \<Rightarrow> json option) \<Rightarrow> json \<Rightarrow> json" where
  "tool_input loads function =
     (let raw = jor (jget function ''arguments'') (JStr ''{}'');
          arguments = (case raw of
            JStr s \<Rightarrow> (case loads s of None \<Rightarrow> JObj [(''arguments'', raw)] | Some v \<Rightarrow> v) | _ \<Rightarrow> raw) in
      if is_object arguments then arguments else JObj [(''value'', arguments)])"

definition tool_use_block :: "(string \<Rightarrow> json option) \<Rightarrow> json list \<Rightarrow> json \<Rightarrow> json list" where
  "tool_use_block loads blocks call =
     (let function = jor (jget call ''function'') (JObj []) in
      if \<not> is_object call \<or> \<not> is_object function \<or> \<not> truthy (jget function ''name'') then blocks
      else blocks @ [JObj [(''type'', JStr ''tool_use''),
        (''id'', JStr (py_str (jor (jget call ''id'') (JStr (''toolu_'' @ show_nat (length blocks)))))),
        (''name'', JStr (py_str (jget function ''name''))), (''input'', tool_input loads function)]])"

definition anthropic_content_blocks_from_openai :: "(string \<Rightarrow> json option) \<Rightarrow> json \<Rightarrow> json list result" where
  "anthropic_content_blocks_from_openai loads message =
     (let text = message_content_text (jget message ''content'');
          blocks = (if text \<noteq> [] then [JObj [(''type'', JStr ''text''), (''text'', JStr text)]] else []) in
      rbind (items_of (jget message ''tool_calls'')) (\<lambda>calls.
      let blocks = foldl (tool_use_block loads) blocks calls in
      Inr (if blocks \<noteq> [] then blocks else [JObj [(''type'', JStr ''text''), (''text'', JStr [])]])))"

definition tool_result_message :: "json \<Rightarrow> json" where
  "tool_result_message message =
     JObj [(''role'', JStr ''user''),
       (''content'', JArr [JObj [(''type'', JStr ''tool_result''), (''tool_use_id'', JStr (text_at message ''tool_call_id'')),
          (''content'', JStr (message_content_text (jget message ''content'')))]])]"

definition anthropic_message :: "(string \<Rightarrow> json option) \<Rightarrow> json \<Rightarrow> json result" where
  "anthropic_message loads message =
     (if role_of message = ''tool'' then Inr (tool_result_message message)
      else rbind (anthropic_content_blocks_from_openai loads message) (\<lambda>blocks.
        Inr (JObj [(''role'', JStr (if role_of message = ''assistant'' then ''assistant'' else ''user'')), (''content'', JArr blocks)])))"

definition anthropic_messages_from_openai :: "(string \<Rightarrow> json option) \<Rightarrow> json list \<Rightarrow> (string option \<times> json list) result" where
  "anthropic_messages_from_openai loads messages =
     (let system = filter (\<lambda>t. t \<noteq> []) (map (\<lambda>m. message_content_text (jget m ''content''))
            (filter (\<lambda>m. role_of m = ''system'') messages)) in
      rbind (rmap (anthropic_message loads) (filter (\<lambda>m. role_of m \<noteq> ''system'') messages)) (\<lambda>converted.
      Inr (if system = [] then None else Some (join newline system), converted)))"

definition compact_http_error_detail :: "json \<Rightarrow> string" where
  "compact_http_error_detail detail =
     (let code = jget detail ''error''; suffix = (if truthy code then '' ('' @ py_str code @ '')'' else []) in
      if \<not> is_object detail then take 240 (py_str detail)
      else case jget detail ''attempts'' of
        JArr (a # as) \<Rightarrow>
          let final = last (a # as) in
          py_str (jor (jget final ''status'') (JStr ''unknown_status'')) @ '' from '' @
          py_str (jor (jget final ''provider'') (JStr ''unknown_provider'')) @ ''/'' @
          py_str (jor (jget final ''model_id'') (JStr ''unknown_model'')) @ suffix
      | _ \<Rightarrow> take 240 (py_str (jor code detail)))"

section \<open>The request\<close>

datatype provider_call =
    Not_called json
  | Post string "(string \<times> string) list" json

definition status_response :: "string \<Rightarrow> string \<Rightarrow> json" where
  "status_response status provider = JObj [(''status'', JStr status), (''provider'', JStr provider)]"

text \<open>\<open>{"model": ..., "messages": ..., **options}\<close>\<close>

definition completion_body :: "string \<Rightarrow> json list \<Rightarrow> (string, json) dict \<Rightarrow> json" where
  "completion_body native_model_id messages options =
     JObj (foldl (\<lambda>d (k, v). dict_set k v d)
       [(''model'', JStr native_model_id), (''messages'', openai_compatible_messages messages)] options)"

definition bearer_headers :: "string \<Rightarrow> (string \<times> string) list" where
  "bearer_headers api_key = [(''Authorization'', ''Bearer '' @ api_key), (''Content-Type'', ''application/json'')]"

definition completion_urls :: "(string \<times> string) list" where
  "completion_urls =
     [(''openrouter'', ''https://openrouter.ai/api/v1/chat/completions''), (''together'', ''https://api.together.xyz/v1/chat/completions''),
      (''openai'', ''https://api.openai.com/v1/chat/completions''), (''mistral'', ''https://api.mistral.ai/v1/chat/completions''),
      (''groq'', ''https://api.groq.com/openai/v1/chat/completions''), (''deepseek'', ''https://api.deepseek.com/v1/chat/completions''),
      (''xai'', ''https://api.x.ai/v1/chat/completions'')]"

text \<open>Four providers read their key from one variable, as it is.\<close>

definition completion_key :: "(string \<Rightarrow> string option) \<Rightarrow> string \<Rightarrow> string" where
  "completion_key environ provider =
     (if provider \<in> {''openrouter'', ''together'', ''openai''} then provider_api_key environ provider
      else case map_of [(''mistral'', ''MISTRAL_API_KEY''), (''groq'', ''GROQ_API_KEY''), (''deepseek'', ''DEEPSEEK_API_KEY''),
          (''xai'', ''XAI_API_KEY'')] provider of
        None \<Rightarrow> [] | Some name \<Rightarrow> (case environ name of None \<Rightarrow> [] | Some v \<Rightarrow> v))"

definition anthropic_body :: "(string \<Rightarrow> json option) \<Rightarrow> string \<Rightarrow> json list \<Rightarrow> (string, json) dict \<Rightarrow> json result" where
  "anthropic_body loads native_model_id messages options =
     rbind (anthropic_messages_from_openai loads messages) (\<lambda>(system, converted).
     let tools = openai_tools_to_anthropic_tools (jget (JObj options) ''tools'');
         payload = [(''model'', JStr native_model_id), (''messages'', JArr converted),
           (''system'', case system of None \<Rightarrow> JNull | Some s \<Rightarrow> JStr s),
           (''max_tokens'', case map_of options ''max_tokens'' of None \<Rightarrow> JInt 1024 | Some v \<Rightarrow> v)] @
           (if tools \<noteq> [] then [(''tools'', JArr tools)] else []) @
           (case openai_tool_choice_to_anthropic (jget (JObj options) ''tool_choice'') of None \<Rightarrow> [] | Some c \<Rightarrow> [(''tool_choice'', c)]) in
     Inr (JObj (filter (\<lambda>(k, v). v \<noteq> JNull) payload)))"

definition gemini_call :: "string \<Rightarrow> string \<Rightarrow> json list \<Rightarrow> provider_call" where
  "gemini_call api_key native_model_id messages =
     Post (''https://generativelanguage.googleapis.com/v1beta/models/'' @ native_model_id @ '':generateContent?key='' @ api_key)
       [(''Content-Type'', ''application/json'')]
       (JObj [(''contents'', JArr [JObj [(''parts'', JArr [JObj [(''text'', JStr (messages_text messages))]])]])])"

definition anthropic_call :: "(string \<Rightarrow> json option) \<Rightarrow> string \<Rightarrow> string \<Rightarrow> json list \<Rightarrow> (string, json) dict \<Rightarrow> provider_call result" where
  "anthropic_call loads api_key native_model_id messages options =
     rbind (anthropic_body loads native_model_id messages options) (\<lambda>body.
     Inr (Post ''https://api.anthropic.com/v1/messages''
       [(''x-api-key'', api_key), (''anthropic-version'', ''2023-06-01''), (''Content-Type'', ''application/json'')] body))"

definition provider_call_of :: "(string \<Rightarrow> string option) \<Rightarrow> (string \<Rightarrow> json option) \<Rightarrow> json \<Rightarrow> string \<Rightarrow> string \<Rightarrow> json list \<Rightarrow>
    (string, json) dict \<Rightarrow> provider_call result" where
  "provider_call_of environ loads model provider native_model_id messages options =
     (let skipped = Inr (Not_called (status_response ''skipped_missing_api_key'' provider)) in
      if jget model ''executable'' = JBool False
      then Inr (Not_called (JObj [(''status'', JStr ''unsupported_provider''), (''provider'', JStr provider),
        (''reason'', JStr ''model_profile_not_executable'')]))
      else if provider = ''anthropic''
      then (let api_key = provider_api_key environ provider in
        if api_key = [] then skipped else anthropic_call loads api_key native_model_id messages options)
      else if provider = ''gemini''
      then (let api_key = provider_api_key environ provider in
        if api_key = [] then skipped else Inr (gemini_call api_key native_model_id messages))
      else case map_of completion_urls provider of
        None \<Rightarrow> Inr (Not_called (status_response ''unsupported_provider'' provider))
      | Some url \<Rightarrow> (let api_key = completion_key environ provider in
          if api_key = [] then skipped
          else Inr (Post url (bearer_headers api_key) (completion_body native_model_id messages options))))"

text \<open>The answer of OpenRouter is marked, when it is an object.\<close>

definition marked_response :: "string \<Rightarrow> string \<Rightarrow> json \<Rightarrow> json" where
  "marked_response provider requested response =
     (case response of
        JObj kvs \<Rightarrow> if provider = ''openrouter''
          then JObj (dict_set ''_lerouter_requested_provider'' (JStr requested) (dict_set ''_lerouter_provider'' (JStr provider) kvs))
          else response
      | _ \<Rightarrow> response)"

definition execute_provider_request :: "(string \<Rightarrow> string option) \<Rightarrow> (string \<Rightarrow> json option) \<Rightarrow>
    (string \<Rightarrow> (string \<times> string) list \<Rightarrow> json \<Rightarrow> json http) \<Rightarrow> json \<Rightarrow> json list \<Rightarrow> (string, json) dict \<Rightarrow> json http" where
  "execute_provider_request environ loads post model messages request_options =
     rbind (lift (model_key model)) (\<lambda>_.
     let (provider, native_model_id) = resolved_execution_provider environ model in
     rbind (lift (provider_bound_request_options request_options provider native_model_id)) (\<lambda>options.
     rbind (lift (provider_call_of environ loads model provider native_model_id messages options)) (\<lambda>call. case call of
       Not_called response \<Rightarrow> Inr response
     | Post url headers body \<Rightarrow>
         rbind (post url headers body) (\<lambda>response.
         Inr (marked_response provider (executable_provider_for_model model) response)))))"

end
