(* ===== verification/Provider_Answers.thy ===== *)
theory Provider_Answers
  imports Provider_Calls Accounting
begin

text \<open>
  What becomes of a provider's answer (\<^verbatim>\<open>src/frontend/lerouter_modal_api.py\<close>): its normal form, the
  one attempt that is made with the selected model, the chat completion and the stream of events a
  client receives, and the answer of a client that executes the selected model itself.
\<close>

section \<open>Which answers count\<close>

text \<open>\<open>d.get(k)\<close>, which only a dictionary has.\<close>

fun attr_get :: "json \<Rightarrow> string \<Rightarrow> json \<Rightarrow> json result" where
  "attr_get (JObj kvs) k fallback = Inr (case map_of kvs k of None \<Rightarrow> fallback | Some v \<Rightarrow> v)"
| "attr_get _ k fallback = Inl (AttributeError ''object has no attribute get'')"

definition failed_statuses :: "string list" where
  "failed_statuses = [''skipped_missing_api_key'', ''unsupported_provider'', ''provider_error'', ''not_executed'']"

fun unhashable :: "json \<Rightarrow> bool" where
  "unhashable (JArr xs) = True"
| "unhashable (JObj kvs) = True"
| "unhashable _ = False"

definition provider_response_succeeded :: "json \<Rightarrow> bool result" where
  "provider_response_succeeded response =
     rbind (attr_get response ''status'' JNull) (\<lambda>status.
     if unhashable status then Inl (TypeError ''unhashable type'')
     else if status \<in> set (map JStr failed_statuses) then Inr False
     else Inr (truthy response))"

text \<open>The answer of a model in one form for all providers.\<close>

record normalized =
  no_content :: json
  no_tool_calls :: json
  no_model :: json
  no_provider :: string
  no_usage :: json
  no_finish_reason :: "string option"
  no_raw :: json

definition normalized_response_succeeded :: "normalized \<Rightarrow> json \<Rightarrow> bool result" where
  "normalized_response_succeeded response raw_response =
     rbind (provider_response_succeeded raw_response) (\<lambda>answered.
     Inr (answered \<and> (strip (py_str (jor (no_content response) (JStr []))) \<noteq> [] \<or> truthy (no_tool_calls response))))"

section \<open>Requests a model can take\<close>

text \<open>\<^verbatim>\<open>json.dumps(v, ensure_ascii=False, separators=(",", ":"), sort_keys=True)\<close>\<close>

primrec dumps_plain :: "json \<Rightarrow> string" where
  "dumps_plain JNull = ''null''"
| "dumps_plain (JBool b) = (if b then ''true'' else ''false'')"
| "dumps_plain (JInt i) = show_int i"
| "dumps_plain (JFloat x) = dumps_float x"
| "dumps_plain (JStr s) = json_string s"
| "dumps_plain (JArr xs) = ''['' @ join '','' (map dumps_plain xs) @ '']''"
| "dumps_plain (JObj kvs) =
     ''{'' @ join '','' (map (\<lambda>(k, t). json_string k @ '':'' @ t) (sort_by (<) fst (map (map_prod id dumps_plain) kvs))) @ ''}''"

definition context_payload :: "json list \<Rightarrow> (string, json) dict \<Rightarrow> json" where
  "context_payload messages request_options =
     JObj ([(''messages'', JArr messages)] @
       concat (map (\<lambda>k. if jget (JObj request_options) k \<noteq> JNull then [(k, jget (JObj request_options) k)] else [])
         [''tools'', ''tool_choice'', ''response_format'']))"

definition estimated_request_context_input_tokens :: "json list \<Rightarrow> (string, json) dict \<Rightarrow> pyfloat" where
  "estimated_request_context_input_tokens messages request_options =
     pmax (Fin 1) (fdiv (fl_of_int (int (length (dumps_plain (context_payload messages request_options))))) (Fin 4))"

definition wants_json :: "json \<Rightarrow> bool" where
  "wants_json response_format =
     (is_object response_format \<and> lower (strip (text_at response_format ''type'')) \<in> {''json_object'', ''json_schema''})"

definition fits_window :: "pyfloat \<Rightarrow> json \<Rightarrow> bool result" where
  "fits_window required candidate =
     rbind (finite_profile_number (first_present candidate [''context_window'', ''model_context_window'']) True) (\<lambda>n.
     Inr (case n of None \<Rightarrow> False | Some context_window \<Rightarrow> required \<le> context_window))"

definition candidate_fits :: "(string, json) dict \<Rightarrow> pyfloat \<Rightarrow> json \<Rightarrow> bool result" where
  "candidate_fits request_options required candidate =
     (if (truthy (jget (JObj request_options) ''tools'') \<and> jget candidate ''supports_tools'' \<noteq> JBool True) \<or>
         (wants_json (jget (JObj request_options) ''response_format'') \<and> jget candidate ''supports_json'' \<noteq> JBool True)
      then Inr False else fits_window required candidate)"

fun rfilter :: "('a \<Rightarrow> bool result) \<Rightarrow> 'a list \<Rightarrow> 'a list result" where
  "rfilter p [] = Inr []"
| "rfilter p (x # xs) = rbind (p x) (\<lambda>keep. rbind (rfilter p xs) (\<lambda>ys. Inr (if keep then x # ys else ys)))"

definition request_compatible_candidates :: "json list \<Rightarrow> (string, json) dict \<Rightarrow> pyfloat \<Rightarrow> pyfloat \<Rightarrow> json list http" where
  "request_compatible_candidates candidates request_options estimated_input_tokens predicted_output_token_count =
     rbind (lift (finite_profile_number (JFloat estimated_input_tokens) False)) (\<lambda>i.
     rbind (lift (finite_profile_number (JFloat predicted_output_token_count) False)) (\<lambda>out.
     case (i, out) of
       (Some input_tokens, Some output_tokens) \<Rightarrow>
         if input_tokens < Fin 0 \<or> output_tokens < Fin 0 then refuse 500 ''invalid_context_compatibility_estimate''
           [(''message'', JStr ''Context compatibility requires finite non-negative input and output token estimates'')]
         else lift (rfilter (candidate_fits request_options (input_tokens + output_tokens)) candidates)
     | _ \<Rightarrow> refuse 500 ''invalid_context_compatibility_estimate''
           [(''message'', JStr ''Context compatibility requires finite non-negative input and output token estimates'')]))"

section \<open>The normal form of an answer\<close>

definition tool_call_of_block :: "nat \<Rightarrow> json \<Rightarrow> json list" where
  "tool_call_of_block index block =
     (if \<not> is_object block \<or> jget block ''type'' \<noteq> JStr ''tool_use'' then []
      else [JObj [(''id'', JStr (py_str (jor (jget block ''id'') (JStr (''call_'' @ show_nat index))))),
        (''type'', JStr ''function''),
        (''function'', JObj [(''name'', JStr (text_at block ''name'')),
           (''arguments'', JStr (dumps_ascii '', '' '': '' (jor (jget block ''input'') (JObj []))))])]])"

fun anthropic_tool_use_to_openai_tool_calls :: "json \<Rightarrow> json list" where
  "anthropic_tool_use_to_openai_tool_calls (JArr blocks) =
     concat (map (\<lambda>(i, b). tool_call_of_block i b) (enumerate 0 blocks))"
| "anthropic_tool_use_to_openai_tool_calls _ = []"

definition anthropic_reasons :: "(string \<times> string) list" where
  "anthropic_reasons = [(''end_turn'', ''stop''), (''max_tokens'', ''length''), (''tool_use'', ''tool_calls''), (''stop_sequence'', ''stop'')]"

definition gemini_reasons :: "(string \<times> string) list" where
  "gemini_reasons =
     [(''STOP'', ''stop''), (''MAX_TOKENS'', ''length''), (''SAFETY'', ''content_filter''), (''RECITATION'', ''content_filter'')]"

definition openai_finish_reason :: "string \<Rightarrow> json \<Rightarrow> string option" where
  "openai_finish_reason provider finish_reason =
     (let reason = py_str finish_reason in
      if finish_reason = JNull then None
      else if provider = ''anthropic'' then Some (case map_of anthropic_reasons reason of None \<Rightarrow> reason | Some r \<Rightarrow> r)
      else if provider = ''gemini'' then Some (case map_of gemini_reasons reason of None \<Rightarrow> lower reason | Some r \<Rightarrow> r)
      else Some reason)"

text \<open>The fields read from an answer: content, tool calls, finish reason and usage.\<close>

type_synonym answer = "json \<times> json \<times> json \<times> json"

definition first_choice :: "json \<Rightarrow> answer result" where
  "first_choice raw =
     (let usage = jget raw ''usage'' in
      case jget raw ''choices'' of
        JArr (c # cs) \<Rightarrow>
          (let first = jor c (JObj []) in
           rbind (attr_get first ''message'' JNull) (\<lambda>m.
           let message = jor m (JObj []) in
           rbind (attr_get message ''content'' JNull) (\<lambda>content.
           Inr (jor (jor content (jget first ''text'')) (JStr []), jor (jget message ''tool_calls'') (JArr []),
             jget first ''finish_reason'', usage))))
      | _ \<Rightarrow> Inr (JStr [], JArr [], JNull, usage))"

definition text_of_blocks :: "json list \<Rightarrow> string" where
  "text_of_blocks blocks = concat (map (\<lambda>b. text_at b ''text'') (filter (\<lambda>b. is_object b \<and> jget b ''type'' = JStr ''text'') blocks))"

definition anthropic_answer :: "json \<Rightarrow> answer \<Rightarrow> answer result" where
  "anthropic_answer raw answer = (case answer of (content, tool_calls, finish_reason, usage) \<Rightarrow>
     rbind (attr_get raw ''stop_reason'' JNull) (\<lambda>reason.
     Inr (case jget raw ''content'' of
       JArr blocks \<Rightarrow> (JStr (text_of_blocks blocks), JArr (anthropic_tool_use_to_openai_tool_calls (JArr blocks)), reason, usage)
     | _ \<Rightarrow> (content, tool_calls, reason, usage))))"

text \<open>\<open>for part in parts\<close>: anything else than a list has no dictionary among its items.\<close>

fun part_items :: "json \<Rightarrow> json list result" where
  "part_items (JArr xs) = Inr xs"
| "part_items (JObj kvs) = Inr []"
| "part_items (JStr s) = Inr []"
| "part_items _ = Inl (TypeError ''object is not iterable'')"

definition gemini_answer :: "json \<Rightarrow> answer \<Rightarrow> answer result" where
  "gemini_answer raw answer = (case answer of (content, tool_calls, finish_reason, usage) \<Rightarrow>
     rbind (case jget raw ''candidates'' of
         JArr (c # cs) \<Rightarrow>
           rbind (attr_get c ''content'' (JObj [])) (\<lambda>holder.
           rbind (attr_get holder ''parts'' (JArr [])) (\<lambda>parts.
           rbind (part_items parts) (\<lambda>items.
           Inr (JStr (concat (map (\<lambda>p. text_at p ''text'') (filter is_object items))), jget c ''finishReason''))))
       | _ \<Rightarrow> Inr (content, finish_reason)) (\<lambda>(content, finish_reason).
     rbind (attr_get raw ''usageMetadata'' JNull) (\<lambda>metadata.
     Inr (content, tool_calls, finish_reason, jor metadata usage))))"

definition answering_provider :: "json \<Rightarrow> json \<Rightarrow> string" where
  "answering_provider model raw =
     (if truthy (jget raw ''_lerouter_provider'') then py_str (jget raw ''_lerouter_provider'')
      else executable_provider_for_model model)"

definition normalize_provider_response :: "json \<Rightarrow> json \<Rightarrow> normalized result" where
  "normalize_provider_response model raw =
     (let provider = answering_provider model raw in
      rbind (first_choice raw) (\<lambda>answer.
      rbind (if truthy (fst answer) then Inr answer
        else if provider = ''anthropic'' then anthropic_answer raw answer
        else if provider = ''gemini'' then gemini_answer raw answer
        else Inr answer) (\<lambda>(content, tool_calls, finish_reason, usage).
      Inr \<lparr>no_content = content, no_tool_calls = tool_calls, no_model = jget model ''model_id'', no_provider = provider,
        no_usage = jor usage (JObj []), no_finish_reason = openai_finish_reason provider finish_reason, no_raw = raw\<rparr>)))"

section \<open>The one attempt with the selected model\<close>

record execution_result =
  er_model :: json
  er_raw_response :: json
  er_normalized_response :: normalized
  er_attempts :: "json list"

definition selected_failed :: "json \<Rightarrow> string \<Rightarrow> json \<Rightarrow> 'a http" where
  "selected_failed model message attempt =
     refuse 502 ''selected_model_execution_failed''
       [(''message'', JStr message), (''selected_model_id'', jget model ''model_id''), (''attempts'', JArr [attempt])]"

definition failed_attempt :: "(string \<Rightarrow> string option) \<Rightarrow> json \<Rightarrow> json \<Rightarrow> json" where
  "failed_attempt environ model detail =
     JObj [(''model_id'', jget model ''model_id''), (''provider'', JStr (fst (resolved_execution_provider environ model))),
       (''status'', JStr ''provider_error''), (''ok'', JBool False), (''error'', detail)]"

definition finished_attempt :: "json \<Rightarrow> normalized \<Rightarrow> json \<Rightarrow> bool \<Rightarrow> json" where
  "finished_attempt model response status ok =
     JObj [(''model_id'', jget model ''model_id''), (''provider'', jor (JStr (no_provider response)) (jget model ''provider'')),
       (''status'', status), (''ok'', JBool ok)]"

definition judge_answer :: "json \<Rightarrow> json \<Rightarrow> execution_result http" where
  "judge_answer model raw_response =
     rbind (lift (normalize_provider_response model raw_response)) (\<lambda>response.
     rbind (lift (normalized_response_succeeded response raw_response)) (\<lambda>ok.
     rbind (lift (attr_get raw_response ''status'' (JStr (if ok then ''executed'' else ''empty_response'')))) (\<lambda>status.
     let attempt = finished_attempt model response status ok in
     if \<not> ok then selected_failed model
       ''The selected model returned no usable response; LeRouter did not attempt another candidate'' attempt
     else Inr \<lparr>er_model = model, er_raw_response = raw_response, er_normalized_response = response, er_attempts = [attempt]\<rparr>)))"

definition not_executed :: "json \<Rightarrow> execution_result http" where
  "not_executed model =
     (let raw = JObj [(''status'', JStr ''not_executed'')] in
      rbind (lift (normalize_provider_response model raw)) (\<lambda>response.
      Inr \<lparr>er_model = model, er_raw_response = raw, er_normalized_response = response, er_attempts = []\<rparr>))"

definition execute_selected_candidate :: "(string \<Rightarrow> string option) \<Rightarrow> (string \<Rightarrow> json option) \<Rightarrow>
    (string \<Rightarrow> (string \<times> string) list \<Rightarrow> json \<Rightarrow> json http) \<Rightarrow> json list \<Rightarrow> json list \<Rightarrow> (string, json) dict \<Rightarrow> bool \<Rightarrow>
    execution_result http" where
  "execute_selected_candidate environ loads post scored_candidates messages request_options execute =
     (case scored_candidates of
        [] \<Rightarrow> Inl (HTTPException 404 (JStr ''No candidate models available for this route.''))
      | model # _ \<Rightarrow>
          if \<not> execute then not_executed model
          else if truthy (jget (JObj request_options) ''stream'')
          then Inl (HTTPException 400 (JStr
            ''stream=true is not supported by LeRouter yet. Send stream=false for Hermes integration.''))
          else case execute_provider_request environ loads post model messages request_options of
            Inl (HTTPException status detail) \<Rightarrow> selected_failed model
              ''The selected model failed; LeRouter did not attempt another candidate'' (failed_attempt environ model detail)
          | Inl e \<Rightarrow> Inl e
          | Inr raw_response \<Rightarrow> judge_answer model raw_response)"

end
