(* ===== verification/Selection.thy ===== *)
theory Selection
  imports Provider_Answers
begin

text \<open>
  What a client of the router receives (\<^verbatim>\<open>src/frontend/lerouter_modal_api.py\<close>): a chat completion,
  a stream of its chunks, or the selected model with the signed claim that lets the client execute it
  and report the usage. A completion identifier, the clock and the heartbeats are arguments.
\<close>

section \<open>Chat completions\<close>

text \<open>\<open>d.get(k, fallback)\<close> of a dictionary\<close>

definition get_or :: "json \<Rightarrow> string \<Rightarrow> json \<Rightarrow> json" where
  "get_or d k fallback = (case d of JObj kvs \<Rightarrow> (case map_of kvs k of None \<Rightarrow> fallback | Some v \<Rightarrow> v) | _ \<Rightarrow> fallback)"

fun finish_text :: "string option \<Rightarrow> string" where
  "finish_text (Some r) = (if r = [] then ''stop'' else r)"
| "finish_text None = ''stop''"

definition response_of :: "json \<Rightarrow> json" where
  "response_of route_result = jor (jget route_result ''response'') (JObj [])"

definition completion_finish :: "json \<Rightarrow> string" where
  "completion_finish response = finish_text (openai_finish_reason (text_at response ''provider'') (jget response ''finish_reason''))"

definition latency_key :: "json \<Rightarrow> (string, json) dict" where
  "latency_key route_result =
     (if jget route_result ''latency_ms'' \<noteq> JNull then [(''latency_ms'', jget route_result ''latency_ms'')] else [])"

definition openai_compatible_response :: "string \<Rightarrow> int \<Rightarrow> string \<Rightarrow> json \<Rightarrow> json result" where
  "openai_compatible_response hex now request_model route_result =
     (let response = response_of route_result in
      rbind (attr_get response ''content'' (JStr [])) (\<lambda>content.
      let tool_calls = jor (jget response ''tool_calls'') (JArr []);
          message = JObj ([(''role'', JStr ''assistant''), (''content'', content)] @
            (if truthy tool_calls then [(''tool_calls'', tool_calls)] else []));
          metadata = JObj ([(''route_id'', jget route_result ''route_id''), (''route_name'', jget route_result ''route_name''),
            (''routing_strategy'', get_or route_result ''routing_strategy'' (JStr ''route_pool'')),
            (''selected_model'', jget response ''model''), (''provider'', jget response ''provider''),
            (''estimated_spend_usd'', jget route_result ''estimated_spend_usd''),
            (''provider_attempts'', get_or route_result ''provider_attempts'' (JArr []))] @ latency_key route_result) in
      Inr (JObj [(''id'', JStr (''chatcmpl-'' @ hex)), (''object'', JStr ''chat.completion''), (''created'', JInt now),
        (''model'', JStr request_model),
        (''choices'', JArr [JObj [(''index'', JInt 0), (''message'', message),
           (''finish_reason'', JStr (completion_finish response))]]),
        (''usage'', jor (jget response ''usage'') (JObj [])), (''lerouter'', metadata)])))"

section \<open>The stream\<close>

definition sse_data :: "json \<Rightarrow> string" where
  "sse_data payload = ''data: '' @ dumps_ascii '','' '':'' payload @ newline @ newline"

definition stream_end :: string where
  "stream_end = ''data: [DONE]'' @ newline @ newline"

record chunk =
  ch_delta :: "(string, json) dict"
  ch_finish :: "string option"
  ch_lerouter :: "(string, json) dict"

definition openai_stream_chunk :: "string \<Rightarrow> int \<Rightarrow> string \<Rightarrow> chunk \<Rightarrow> json" where
  "openai_stream_chunk completion_id now request_model c =
     JObj ([(''id'', JStr completion_id), (''object'', JStr ''chat.completion.chunk''), (''created'', JInt now),
       (''model'', JStr request_model),
       (''choices'', JArr [JObj [(''index'', JInt 0), (''delta'', JObj (ch_delta c)),
          (''finish_reason'', case ch_finish c of None \<Rightarrow> JNull | Some r \<Rightarrow> JStr r)]])] @
       (if ch_lerouter c \<noteq> [] then [(''lerouter'', JObj (ch_lerouter c))] else []))"

definition status_steps :: "string list" where
  "status_steps = [''request_received'', ''archrouter_classification'', ''candidate_pool_lookup'', ''biencoder_ranking'',
     ''budget_aware_scoring'', ''provider_request'']"

definition elapsed_ms :: "pyfloat \<Rightarrow> json" where
  "elapsed_ms seconds = JFloat (py_round (seconds * Fin 1000) 2)"

definition status_chunk :: "string \<Rightarrow> json \<Rightarrow> chunk" where
  "status_chunk status elapsed = \<lparr>ch_delta = [], ch_finish = None, ch_lerouter = [(''status'', JStr status), (''elapsed_ms'', elapsed)]\<rparr>"

definition opening_chunk :: chunk where
  "opening_chunk = (status_chunk ''request_received'' (JInt 0))\<lparr>ch_delta := [(''role'', JStr ''assistant'')]\<rparr>"

definition heartbeat_chunks :: "pyfloat list \<Rightarrow> chunk list" where
  "heartbeat_chunks beats =
     map (\<lambda>(i, seconds). status_chunk (status_steps ! min i (length status_steps - 1)) (elapsed_ms seconds)) (enumerate 0 beats)"

definition done_chunk :: "string \<Rightarrow> chunk" where
  "done_chunk reason = \<lparr>ch_delta = [], ch_finish = Some reason, ch_lerouter = [(''status'', JStr ''done'')]\<rparr>"

definition error_chunk :: "string \<Rightarrow> (string, json) dict \<Rightarrow> json \<Rightarrow> chunk" where
  "error_chunk content info elapsed =
     \<lparr>ch_delta = [(''content'', JStr content)], ch_finish = None,
      ch_lerouter = [(''status'', JStr ''error'')] @ info @ [(''elapsed_ms'', elapsed)]\<rparr>"

definition error_text :: "int \<Rightarrow> json \<Rightarrow> string" where
  "error_text status detail =
     ''LeRouter could not complete this request. Provider routing failed with HTTP '' @ show_int status @ '': '' @
     compact_http_error_detail detail @ ''.''"

definition final_delta :: "json \<Rightarrow> json \<Rightarrow> (string, json) dict" where
  "final_delta content tool_calls =
     (if truthy content then [(''content'', content)] else []) @ (if truthy tool_calls then [(''tool_calls'', tool_calls)] else [])"

definition completed_metadata :: "json \<Rightarrow> json \<Rightarrow> json \<Rightarrow> (string, json) dict" where
  "completed_metadata route_result response elapsed =
     [(''status'', JStr ''completed''), (''route_id'', jget route_result ''route_id''), (''route_name'', jget route_result ''route_name''),
      (''selected_model'', jget response ''model''), (''provider'', jget response ''provider''),
      (''estimated_spend_usd'', jget route_result ''estimated_spend_usd''),
      (''provider_attempts'', get_or route_result ''provider_attempts'' (JArr [])), (''elapsed_ms'', elapsed)] @
     latency_key route_result"

text \<open>The chunks after the heartbeats for the outcome of a task that was not cancelled; the answer's own reading may fail, which breaks the stream.\<close>

fun closing_chunks :: "json http \<Rightarrow> json \<Rightarrow> chunk list result" where
  "closing_chunks (Inl (HTTPException status detail)) elapsed =
     Inr [error_chunk (error_text status detail) [(''status_code'', JInt status), (''detail'', detail)] elapsed, done_chunk ''stop'']"
| "closing_chunks (Inl (Raised e)) elapsed =
     Inr [error_chunk ''LeRouter could not complete this request because an internal routing error occurred.''
        [(''detail'', JStr (exception_name e))] elapsed, done_chunk ''stop'']"
| "closing_chunks (Inr route_result) elapsed =
     (let response = response_of route_result in
      rbind (attr_get response ''content'' (JStr [])) (\<lambda>content.
      let delta = final_delta content (jor (jget response ''tool_calls'') (JArr [])) in
      Inr ((if delta \<noteq> [] then [\<lparr>ch_delta = delta, ch_finish = None, ch_lerouter = completed_metadata route_result response elapsed\<rparr>]
            else []) @ [done_chunk (completion_finish response)])))"

text \<open>
  The routing task ends with what \<open>Finished\<close> holds, or it is cancelled: \<^verbatim>\<open>route_task.result()\<close> then
  raises \<^verbatim>\<open>CancelledError\<close>, which is no \<^verbatim>\<open>Exception\<close> and leaves the generator, as an error
  in reading the answer does. The stream is what is sent before the outcome is read, what is sent after it,
  and what breaks it.
\<close>

datatype task_outcome = Finished "json http" | Cancelled

datatype stream_break = BrokenBy py_error | BrokenByCancel

definition stream_chunks :: "pyfloat list \<Rightarrow> task_outcome \<Rightarrow> pyfloat \<Rightarrow> chunk list \<times> stream_break option" where
  "stream_chunks beats outcome seconds =
     (let opened = opening_chunk # heartbeat_chunks beats in
      case outcome of
        Cancelled \<Rightarrow> (opened, Some BrokenByCancel)
      | Finished result \<Rightarrow>
          (case closing_chunks result (elapsed_ms seconds) of
             Inl e \<Rightarrow> (opened, Some (BrokenBy e))
           | Inr closing \<Rightarrow> (opened @ closing, None)))"

definition stream_openai_compatible_response :: "string \<Rightarrow> (nat \<Rightarrow> int) \<Rightarrow> string \<Rightarrow> pyfloat list \<Rightarrow> task_outcome \<Rightarrow> pyfloat \<Rightarrow>
    string list \<times> stream_break option" where
  "stream_openai_compatible_response hex clock request_model beats outcome seconds =
     (case stream_chunks beats outcome seconds of (chunks, broken) \<Rightarrow>
       (map (\<lambda>(i, c). sse_data (openai_stream_chunk (''chatcmpl-'' @ hex) (clock i) request_model c)) (enumerate 0 chunks) @
          (if broken = None then [stream_end] else []), broken))"

section \<open>Selection without execution\<close>

text \<open>
  The workflow execution of a route result is the one \<open>reserve_workflow_call\<close> returned, or none.
\<close>

definition execution_json :: "execution option \<Rightarrow> json" where
  "execution_json execution = (case execution of
     None \<Rightarrow> JNull
   | Some ex \<Rightarrow> JObj [(''workflow_run_id'', JStr (ex_run_id ex)), (''budget_scope_id'', JStr (ex_scope_id ex)),
       (''reservation_id'', JStr (ex_reservation_id ex)), (''call_limit_usd'', JFloat (ex_call_limit_usd ex)),
       (''max_output_tokens'', JInt (ex_max_output_tokens ex))])"

definition execution_tokens :: "execution option \<Rightarrow> json" where
  "execution_tokens execution = (case execution of None \<Rightarrow> JNull | Some ex \<Rightarrow> JInt (ex_max_output_tokens ex))"

definition selection_claim :: "json \<Rightarrow> json \<Rightarrow> execution option \<Rightarrow> claim_request" where
  "selection_claim route_result candidate execution =
     \<lparr>cq_user_id = text_at route_result ''user_id'', cq_route_id = text_at route_result ''route_id'',
      cq_route_name = text_at route_result ''route_name'', cq_model_id = strip (text_at candidate ''model_id''),
      cq_provider = executable_provider_for_model candidate, cq_model_profile = candidate,
      cq_request_weight = jget candidate ''request_weight'',
      cq_routing_call_id = strip (text_at route_result ''routing_call_id''), cq_execution = execution\<rparr>"

definition execution_candidate :: "(string \<Rightarrow> string) \<Rightarrow> json \<Rightarrow> execution option \<Rightarrow> json \<Rightarrow> (string, json) dict http" where
  "execution_candidate mac route_result execution candidate =
     (let model_id = strip (text_at candidate ''model_id''); provider = executable_provider_for_model candidate in
      rbind (issue_accounting_token mac (selection_claim route_result candidate execution)) (\<lambda>token.
      Inr [(''rank'', JInt 1), (''user_id'', JStr (strip (text_at route_result ''user_id''))),
        (''routing_call_id'', JStr (strip (text_at route_result ''routing_call_id''))), (''accounting_token'', JStr token),
        (''selected_model'', candidate), (''selected_model_id'', JStr model_id),
        (''native_model_id'', JStr (provider_native_model_id model_id provider candidate)), (''provider'', JStr provider),
        (''workflow_execution'', execution_json execution), (''max_tokens'', execution_tokens execution)]))"

definition ranked_of :: "json \<Rightarrow> json \<Rightarrow> json list" where
  "ranked_of pipeline best_model = (case jget pipeline ''euristique_budget_manager'' of JArr (c # cs) \<Rightarrow> c # cs | _ \<Rightarrow> [best_model])"

definition ranked_ids :: "json list \<Rightarrow> string list" where
  "ranked_ids ranked = map (\<lambda>c. strip (text_at c ''model_id'')) (filter is_object ranked)"

definition check_selection :: "json \<Rightarrow> json list http" where
  "check_selection route_result =
     (let best_model = jor (jget route_result ''best_model'') (JObj []);
          ranked = ranked_of (jor (jget route_result ''pipeline'') (JObj [])) best_model;
          selected = strip (text_at best_model ''model_id'') in
      if strip (text_at route_result ''user_id'') = [] then refuse 502 ''selection_user_identity_missing''
        [(''message'', JStr ''The routed selection has no authoritative user identity'')]
      else if ranked_ids ranked = [] \<or> hd (ranked_ids ranked) \<noteq> selected
      then refuse 502 ''selected_model_ranking_mismatch''
        [(''message'', JStr ''The selected model must be rank 1 in the budget-aware candidate order''),
         (''selected_model_id'', jget best_model ''model_id''), (''ranked_model_ids'', JArr (map JStr (ranked_ids ranked)))]
      else Inr ranked)"

definition e5_json :: "json \<Rightarrow> json" where
  "e5_json pipeline =
     (let evidence = jget (jget pipeline ''route_worker'') ''e5'' in
      JObj (map (\<lambda>k. (k, jget evidence k)) [''model_run_id'', ''code_version'', ''selected_model'', ''ranked'']))"

definition selection_answer :: "json \<Rightarrow> json list \<Rightarrow> execution option \<Rightarrow> (string, json) dict \<Rightarrow> json" where
  "selection_answer route_result ranked execution primary =
     (let best_model = jor (jget route_result ''best_model'') (JObj []);
          pipeline = jor (jget route_result ''pipeline'') (JObj []);
          model_id = jget best_model ''model_id'';
          provider = (if truthy best_model then executable_provider_for_model best_model else ''unknown'') in
      JObj [(''ok'', JBool True), (''user_id'', JStr (strip (text_at route_result ''user_id''))),
        (''inference_mode'', JStr ''user_managed''), (''execution_owner'', JStr ''user''),
        (''route_id'', jget route_result ''route_id''), (''route_name'', jget route_result ''route_name''),
        (''routing_strategy'', get_or route_result ''routing_strategy'' (JStr ''route_pool'')),
        (''routing_call_id'', jget (JObj primary) ''routing_call_id''), (''accounting_token'', jget (JObj primary) ''accounting_token''),
        (''selected_model'', best_model), (''selected_model_id'', model_id),
        (''native_model_id'', if truthy model_id then JStr (provider_native_model_id (py_str model_id) provider best_model) else JNull),
        (''provider'', JStr provider), (''is_open_source'', JBool (truthy (jget best_model ''is_open_source''))),
        (''estimated_spend_usd'', jget route_result ''estimated_spend_usd''),
        (''workflow_execution'', execution_json execution), (''max_tokens'', execution_tokens execution),
        (''ranked_candidates'', JArr ranked),
        (''all_ranked_candidates'', case jget pipeline ''catalog_wide_budget_manager'' of JArr cs \<Rightarrow> JArr cs | _ \<Rightarrow> JArr ranked),
        (''e5'', e5_json pipeline), (''execution_candidates'', JArr [JObj primary]),
        (''provider_attempts'', get_or route_result ''provider_attempts'' (JArr [])), (''pipeline'', pipeline),
        (''latency_ms'', jget route_result ''latency_ms''), (''stage_timings_ms'', jget route_result ''stage_timings_ms'')])"

definition route_selection_response :: "(string \<Rightarrow> string) \<Rightarrow> json \<Rightarrow> execution option \<Rightarrow> json http" where
  "route_selection_response mac route_result execution =
     rbind (check_selection route_result) (\<lambda>ranked.
     if \<not> is_object (hd ranked) then refuse 502 ''execution_candidate_claims_missing''
       [(''message'', JStr ''The ranked selection produced no signed execution candidates'')]
     else rbind (execution_candidate mac route_result execution (hd ranked)) (\<lambda>primary.
       Inr (selection_answer route_result ranked execution primary)))"

end
