(* ===== verification/Selection_Props.thy ===== *)
theory Selection_Props
  imports Selection Accounting_Props
begin

text \<open>
  Properties of provider calls and of what a client receives: the options a caller controls, the
  translation of tool calls to a provider and back, the use of one answer, the agreement of the stream
  with the chat completion, and the signed claim of a selection.
\<close>

section \<open>Options of the caller\<close>

lemma foldl_dict_set: "map_of (foldl (\<lambda>d (k, v). dict_set k v d) d kvs) = map_of d ++ map_of (rev kvs)"
  using dict_of_fold [of kvs d] by (simp add: foldl_conv_fold case_prod_unfold)

lemma map_of_rev_ok: "dict_ok d \<Longrightarrow> map_of (rev d) = map_of d"
  by (simp add: dict_ok_def map_of_inject_set rev_map [symmetric])

lemma completion_entries:
  assumes "dict_ok options"
  shows "jget (completion_body native messages options) k =
    (case map_of options k of Some v \<Rightarrow> v
     | None \<Rightarrow> if k = ''model'' then JStr native else if k = ''messages'' then openai_compatible_messages messages else JNull)"
  by (simp add: completion_body_def foldl_dict_set map_of_rev_ok [OF assms] map_add_def split: option.splits)

lemma fold_options:
  assumes "dict_ok d"
  shows "dict_ok (foldl (\<lambda>d k. if p k then dict_set k (f k) d else d) d ks)"
    "k \<notin> set ks \<Longrightarrow> map_of (foldl (\<lambda>d k. if p k then dict_set k (f k) d else d) d ks) k = map_of d k"
  using assms by (induction ks arbitrary: d) (auto simp: dict_get_set)

lemma request_options_entries:
  assumes "jget payload ''provider_options'' = JObj opts" "dict_ok opts"
  shows "dict_ok (provider_request_options payload)"
    "k \<notin> {''tools'', ''tool_choice'', ''response_format'', ''temperature'', ''max_tokens'', ''stream''} \<Longrightarrow>
     map_of (provider_request_options payload) k = map_of opts k"
  using fold_options [OF assms(2), where p = "\<lambda>k. jget payload k \<noteq> JNull" and f = "jget payload" and
      ks = "[''tools'', ''tool_choice'', ''response_format'', ''temperature'', ''max_tokens'']"]
  by (auto simp: provider_request_options_def assms(1) Let_def dict_get_set simp del: foldl_Cons foldl_Nil jget.simps)

lemma bound_options_entries:
  assumes "provider_bound_request_options options provider native = Inr out" "dict_ok options"
  shows "dict_ok out"
    "k \<notin> {''temperature'', ''max_tokens'', ''max_completion_tokens''} \<Longrightarrow> map_of out k = map_of options k"
  using assms by (auto simp: provider_bound_request_options_def Let_def dict_get_set dict_get_pop
      simp del: jget.simps split: option.splits if_splits)

lemma completion_call:
  assumes "provider_call_of environ loads model provider native messages options = Inr (Post url headers body)"
    "provider \<notin> {''anthropic'', ''gemini''}"
  shows "body = completion_body native messages options"
  using assms by (auto simp: provider_call_of_def Let_def split: if_splits option.splits)

text \<open>Property C16. The caller's provider options are spread over the request last, so an entry "model" or
  "messages" there replaces the selected model and its messages in what is posted to any provider of the chat
  completion form: the provider executes (and bills) another model than the one the router selected and prices.\<close>

theorem caller_overrides_selection:
  assumes "jget payload ''provider_options'' = JObj opts" "dict_ok opts" "map_of opts key = Some value"
    "key \<in> {''model'', ''messages''}"
    "provider_bound_request_options (provider_request_options payload) provider native = Inr options"
    "provider_call_of environ loads model provider native messages options = Inr (Post url headers body)"
    "provider \<notin> {''anthropic'', ''gemini''}"
  shows "jget body key = value"
proof -
  note r = request_options_entries [OF assms(1,2)]
  note b = bound_options_entries [OF assms(5) r(1)]
  have "map_of options key = Some value" using assms(3,4) r(2) [of key] b(2) [of key] by auto
  then show ?thesis unfolding completion_call [OF assms(6,7)] completion_entries [OF b(1)] by simp
qed

definition open_environ :: "string \<Rightarrow> string option" where
  "open_environ = map_of [(''OPENROUTER_API_KEY'', ''k'')]"

lemma open_key: "provider_api_key open_environ ''openrouter'' = ''k''"
  by code_simp

lemma caller_overrides_selection_witness:
  "\<exists>url headers body.
     provider_call_of open_environ (\<lambda>s. None) (JObj [(''model_id'', JStr ''a/small'')]) ''openrouter'' ''a/small'' []
       (provider_request_options (JObj [(''provider_options'', JObj [(''model'', JStr ''a/large'')])])) =
       Inr (Post url headers body) \<and> jget body ''model'' = JStr ''a/large''"
proof -
  let ?p = "JObj [(''provider_options'', JObj [(''model'', JStr ''a/large'')])]"
  have b: "provider_bound_request_options (provider_request_options ?p) ''openrouter'' ''a/small'' = Inr (provider_request_options ?p)"
    by code_simp
  obtain url headers body where c: "provider_call_of open_environ (\<lambda>s. None) (JObj [(''model_id'', JStr ''a/small'')])
      ''openrouter'' ''a/small'' [] (provider_request_options ?p) = Inr (Post url headers body)"
    using open_key by (simp add: provider_call_of_def completion_key_def completion_urls_def Let_def)
  show ?thesis using c caller_overrides_selection [of ?p "[(''model'', JStr ''a/large'')]" "''model''", OF _ _ _ _ b c] by (auto simp: dict_ok_def)
qed

section \<open>Tool calls to a provider and back\<close>

text \<open>The parts of a tool call, and the calls whose arguments are a text that reads as an object.\<close>

definition call_parts :: "json \<Rightarrow> json \<times> json \<times> json" where
  "call_parts call = (jget call ''id'', jget (jget call ''function'') ''name'', jget (jget call ''function'') ''arguments'')"

fun parts_ok :: "(string \<Rightarrow> json option) \<Rightarrow> json \<times> json \<times> json \<Rightarrow> bool" where
  "parts_ok loads (JStr i, JStr n, JStr s) =
     (i \<noteq> [] \<and> n \<noteq> [] \<and> s \<noteq> [] \<and> (case loads s of Some (JObj kvs) \<Rightarrow> True | _ \<Rightarrow> False))"
| "parts_ok loads _ = False"

definition readable_call :: "(string \<Rightarrow> json option) \<Rightarrow> json \<Rightarrow> bool" where
  "readable_call loads call = parts_ok loads (call_parts call)"

text \<open>The same parts with the text that \<^verbatim>\<open>json.dumps\<close> gives of the same object.\<close>

fun rewritten :: "(string \<Rightarrow> json option) \<Rightarrow> json \<times> json \<times> json \<Rightarrow> json \<times> json \<times> json" where
  "rewritten loads (i, n, JStr s) = (i, n, case loads s of Some v \<Rightarrow> JStr (dumps_ascii '', '' '': '' v) | None \<Rightarrow> JStr s)"
| "rewritten loads ps = ps"

fun_cases parts_okE: "parts_ok loads ps"

definition tool_block :: "json \<Rightarrow> json \<Rightarrow> json \<Rightarrow> json" where
  "tool_block i n v = JObj [(''type'', JStr ''tool_use''), (''id'', i), (''name'', n), (''input'', v)]"

lemma jget_object: "jget v k \<noteq> JNull \<Longrightarrow> is_object v \<and> truthy v"
  by (cases v) (auto split: option.splits)

lemma readable_callE:
  assumes "readable_call loads call"
  obtains i n s kvs where "call_parts call = (JStr i, JStr n, JStr s)" "i \<noteq> []" "n \<noteq> []" "s \<noteq> []" "loads s = Some (JObj kvs)"
  using assms unfolding readable_call_def by (elim parts_okE conjE) (auto split: option.splits json.splits intro: that)

lemma readable_block:
  assumes "readable_call loads call"
  shows "\<exists>b. (\<forall>bs. tool_use_block loads bs call = bs @ [b]) \<and>
    (\<forall>i. \<exists>c. tool_call_of_block i b = [c] \<and> call_parts c = rewritten loads (call_parts call))"
proof -
  obtain i n s kvs where c: "call_parts call = (JStr i, JStr n, JStr s)" "i \<noteq> []" "n \<noteq> []" "s \<noteq> []" "loads s = Some (JObj kvs)"
    using assms by (rule readable_callE)
  have f: "jget call ''id'' = JStr i" "jget (jget call ''function'') ''name'' = JStr n"
    "jget (jget call ''function'') ''arguments'' = JStr s" using c(1) by (simp_all add: call_parts_def)
  have o: "is_object call" "is_object (jget call ''function'')" "truthy (jget call ''function'')"
    using f jget_object [of call "''id''"] jget_object [of "jget call ''function''" "''name''"] by auto
  let ?b = "tool_block (JStr i) (JStr n) (JObj kvs)"
  have "tool_use_block loads bs call = bs @ [?b]" for bs
    using f o c(2-5) by (simp add: tool_use_block_def tool_input_def tool_block_def jor_def Let_def)
  moreover have "\<exists>c. tool_call_of_block k ?b = [c] \<and> call_parts c = rewritten loads (call_parts call)" for k
    using c by (auto simp: tool_call_of_block_def tool_block_def jor_def text_at_def call_parts_def)
  ultimately show ?thesis by blast
qed

lemma readable_blocks:
  assumes "\<forall>call\<in>set calls. readable_call loads call"
  shows "\<exists>bs. (\<forall>pre. foldl (tool_use_block loads) pre calls = pre @ bs) \<and>
    (\<forall>k. map call_parts (concat (map (\<lambda>(i, b). tool_call_of_block i b) (enumerate k bs))) = map (rewritten loads \<circ> call_parts) calls)"
  using assms
proof (induction calls)
  case Nil
  then show ?case by (intro exI [of _ "[]"]) simp
next
  case (Cons call calls)
  then obtain bs where bs: "\<And>pre. foldl (tool_use_block loads) pre calls = pre @ bs"
    "\<And>k. map call_parts (concat (map (\<lambda>(i, b). tool_call_of_block i b) (enumerate k bs))) = map (rewritten loads \<circ> call_parts) calls" by auto
  obtain b where b: "\<And>bs. tool_use_block loads bs call = bs @ [b]"
    "\<And>i. \<exists>c. tool_call_of_block i b = [c] \<and> call_parts c = rewritten loads (call_parts call)"
    using readable_block Cons.prems by fastforce
  have "map call_parts (concat (map (\<lambda>(i, b). tool_call_of_block i b) (enumerate k (b # bs)))) = map (rewritten loads \<circ> call_parts) (call # calls)" for k
    using b(2) [of k] bs(2) [of "Suc k"] by auto
  then show ?case using bs(1) b(1) by (intro exI [of _ "b # bs"]) simp
qed

text \<open>
  Property C17. Tool calls survive the translation to Anthropic's blocks and back: when every call of a message
  has an identifier, a name and arguments that are a text which reads as an object, the blocks sent for the
  message read back as the same identifiers and names in the same order, whatever text comes before them,
  each with arguments that are the text \<^verbatim>\<open>json.dumps\<close> gives of the same object.
\<close>

theorem tool_calls_roundtrip:
  assumes "jget message ''tool_calls'' = JArr calls" "\<forall>call\<in>set calls. readable_call loads call"
  shows "\<exists>blocks. anthropic_content_blocks_from_openai loads message = Inr blocks \<and>
    map call_parts (anthropic_tool_use_to_openai_tool_calls (JArr blocks)) = map (rewritten loads \<circ> call_parts) calls"
proof -
  define content where "content = message_content_text (jget message ''content'')"
  define pre where "pre = (if content \<noteq> [] then [JObj [(''type'', JStr ''text''), (''text'', JStr content)]] else [])"
  obtain bs where bs: "foldl (tool_use_block loads) pre calls = pre @ bs"
    "\<And>k. map call_parts (concat (map (\<lambda>(i, b). tool_call_of_block i b) (enumerate k bs))) = map (rewritten loads \<circ> call_parts) calls"
    using readable_blocks [OF assms(2)] by blast
  have pre: "concat (map (\<lambda>(i, b). tool_call_of_block i b) (enumerate 0 (pre @ bs))) =
      concat (map (\<lambda>(i, b). tool_call_of_block i b) (enumerate (length pre) bs))"
    by (simp add: pre_def enumerate_append_eq tool_call_of_block_def)
  let ?blocks = "if pre @ bs \<noteq> [] then pre @ bs else [JObj [(''type'', JStr ''text''), (''text'', JStr [])]]"
  have "anthropic_content_blocks_from_openai loads message = Inr ?blocks"
    unfolding anthropic_content_blocks_from_openai_def Let_def assms(1) content_def [symmetric] pre_def [symmetric]
    by (simp add: bs(1))
  moreover have "map call_parts (anthropic_tool_use_to_openai_tool_calls (JArr ?blocks)) = map (rewritten loads \<circ> call_parts) calls"
  proof (cases "pre @ bs = []")
    case True
    then show ?thesis using bs(2) [of 0] by (simp add: tool_call_of_block_def)
  next
    case False
    then show ?thesis using bs(2) [of "length pre"] by (simp only: if_True simp_thms anthropic_tool_use_to_openai_tool_calls.simps pre)
  qed
  ultimately show ?thesis by blast
qed

definition sample_call :: json where
  "sample_call = JObj [(''id'', JStr ''t1''), (''type'', JStr ''function''),
     (''function'', JObj [(''name'', JStr ''search''), (''arguments'', JStr ''{   }'')])]"

definition sample_arguments :: "string \<Rightarrow> json option" where
  "sample_arguments s = (if s = ''{   }'' then Some (JObj []) else None)"

lemma tool_calls_roundtrip_witness:
  "\<exists>blocks. anthropic_content_blocks_from_openai sample_arguments
      (JObj [(''role'', JStr ''assistant''), (''content'', JStr ''look''), (''tool_calls'', JArr [sample_call])]) = Inr blocks \<and>
    map call_parts (anthropic_tool_use_to_openai_tool_calls (JArr blocks)) = [(JStr ''t1'', JStr ''search'', JStr ''{}'')]"
proof -
  have r: "\<forall>call\<in>set [sample_call]. readable_call sample_arguments call" by code_simp
  have e: "map (rewritten sample_arguments \<circ> call_parts) [sample_call] = [(JStr ''t1'', JStr ''search'', JStr ''{}'')]" by code_simp
  show ?thesis unfolding e [symmetric] by (rule tool_calls_roundtrip [OF _ r]) simp
qed

section \<open>The answer that is used\<close>

lemma succeeded_status:
  assumes "provider_response_succeeded raw = Inr True"
  shows "jget raw ''status'' \<notin> JStr ` set failed_statuses" "truthy raw"
  using assms by (cases raw; auto simp: provider_response_succeeded_def split: if_splits option.splits)+

lemma judge_answer_Inr:
  assumes "judge_answer model raw = Inr er"
  shows "er_model er = model" "er_raw_response er = raw" "normalize_provider_response model raw = Inr (er_normalized_response er)"
    "normalized_response_succeeded (er_normalized_response er) raw = Inr True"
    "\<exists>status. er_attempts er = [finished_attempt model (er_normalized_response er) status True]"
  using assms by (auto simp: judge_answer_def Let_def selected_failed_def split: if_splits)

lemma normalize_fields:
  assumes "normalize_provider_response model raw = Inr response"
  shows "no_model response = jget model ''model_id''" "no_raw response = raw" "no_provider response = answering_provider model raw"
  using assms by (auto simp: normalize_provider_response_def Let_def simp del: jget.simps)

lemma normalized_succeeded:
  assumes "normalized_response_succeeded response raw = Inr True"
  shows "provider_response_succeeded raw = Inr True"
    "strip (py_str (jor (no_content response) (JStr []))) \<noteq> [] \<or> truthy (no_tool_calls response)"
  using assms by (auto simp: normalized_response_succeeded_def)

lemma executed_raw:
  assumes "execute_selected_candidate environ loads post (model # rest) messages options True = Inr er"
  obtains raw where "execute_provider_request environ loads post model messages options = Inr raw" "judge_answer model raw = Inr er"
proof (cases "execute_provider_request environ loads post model messages options")
  case (Inl e)
  then show ?thesis using assms
    by (cases e) (simp_all add: execute_selected_candidate_def selected_failed_def del: jget.simps split: if_splits)
next
  case (Inr raw)
  then show ?thesis using assms that by (simp add: execute_selected_candidate_def del: jget.simps split: if_splits)
qed

text \<open>Property C21. When an execution succeeds, its answer comes from the candidate of rank one and from no other:
  the one request for that candidate returned it, its status names no failure, it holds a text or
  tool calls, and the single recorded attempt names the same model.\<close>

theorem executed_answer_usable:
  assumes "execute_selected_candidate environ loads post scored messages options True = Inr er"
  shows "scored \<noteq> [] \<and> er_model er = hd scored \<and>
    execute_provider_request environ loads post (hd scored) messages options = Inr (er_raw_response er) \<and>
    jget (er_raw_response er) ''status'' \<notin> JStr ` set failed_statuses \<and>
    (strip (py_str (jor (no_content (er_normalized_response er)) (JStr []))) \<noteq> [] \<or> truthy (no_tool_calls (er_normalized_response er))) \<and>
    no_model (er_normalized_response er) = jget (hd scored) ''model_id'' \<and>
    (\<exists>attempt. er_attempts er = [attempt] \<and> jget attempt ''model_id'' = jget (hd scored) ''model_id'' \<and> jget attempt ''ok'' = JBool True)"
proof -
  have "execute_selected_candidate environ loads post [] messages options True \<noteq> Inr er"
    by (simp add: execute_selected_candidate_def)
  then obtain model rest where s: "scored = model # rest" using assms by (cases scored) blast+
  obtain raw where c: "scored = model # rest"
    "execute_provider_request environ loads post model messages options = Inr raw" "judge_answer model raw = Inr er"
    using s executed_raw [OF assms [unfolded s]] by metis
  note j = judge_answer_Inr [OF c(3)]
  note u = normalized_succeeded [OF j(4)]
  obtain status where "er_attempts er = [finished_attempt model (er_normalized_response er) status True]" using j(5) by blast
  moreover have "jget (finished_attempt m r st ok) ''model_id'' = jget m ''model_id''" "jget (finished_attempt m r st ok) ''ok'' = JBool ok"
    for m r st ok by (simp_all add: finished_attempt_def)
  ultimately show ?thesis using c(2) j(1,2) u(2) normalize_fields(1) [OF j(3)] succeeded_status(1) [OF u(1)]
    unfolding c(1) list.sel by simp
qed

definition answering_post :: "string \<Rightarrow> (string \<times> string) list \<Rightarrow> json \<Rightarrow> json http" where
  "answering_post url headers body =
     Inr (JObj [(''choices'', JArr [JObj [(''message'', JObj [(''content'', JStr ''hello'')]), (''finish_reason'', JStr ''stop'')]])])"

definition small_model :: json where
  "small_model = JObj [(''model_id'', JStr ''a/small''), (''provider'', JStr ''openrouter'')]"

lemma is_okE: "is_ok m \<Longrightarrow> (\<And>x. m = Inr x \<Longrightarrow> P) \<Longrightarrow> P"
  by (auto simp: is_ok_iff)

lemma small_resolved:
  "resolved_execution_provider open_environ small_model = (''openrouter'', ''a/small'')"
  "executable_provider_for_model small_model = ''openrouter''"
  "provider_bound_request_options [] ''openrouter'' ''a/small'' = Inr []"
  "strip ''hello'' = ''hello''"
  by code_simp+

lemma small_model_fields: "model_key small_model = Inr (JStr ''a/small'')" "jget small_model ''executable'' = JNull"
  by (simp_all add: model_key_def small_model_def)

lemma small_call:
  "provider_call_of open_environ loads small_model ''openrouter'' ''a/small'' messages options =
    Inr (Post ''https://openrouter.ai/api/v1/chat/completions'' (bearer_headers ''k'') (completion_body ''a/small'' messages options))"
  by (simp add: provider_call_of_def completion_key_def completion_urls_def open_key small_model_fields Let_def)

lemma small_answer: "\<exists>raw. execute_provider_request open_environ loads answering_post small_model messages [] = Inr raw \<and>
    is_ok (judge_answer small_model raw)"
  by (simp add: execute_provider_request_def small_model_fields small_resolved small_call answering_post_def marked_response_def
      judge_answer_def normalize_provider_response_def answering_provider_def first_choice_def jor_def
      openai_finish_reason_def normalized_response_succeeded_def provider_response_succeeded_def failed_statuses_def Let_def)

lemma small_executes: "is_ok (execute_selected_candidate open_environ loads answering_post [small_model] messages [] True)"
  using small_answer [of loads messages] by (auto simp: execute_selected_candidate_def)

lemma executed_answer_usable_witness:
  "\<exists>er. execute_selected_candidate open_environ (\<lambda>s. None) answering_post [small_model]
      [JObj [(''role'', JStr ''user''), (''content'', JStr ''hi'')]] [] True = Inr er \<and> er_model er = small_model"
proof -
  obtain er where er: "execute_selected_candidate open_environ (\<lambda>s. None) answering_post [small_model]
      [JObj [(''role'', JStr ''user''), (''content'', JStr ''hi'')]] [] True = Inr er"
    using small_executes by (rule is_okE)
  show ?thesis using executed_answer_usable [OF er] er by simp
qed

section \<open>Requests a model can take\<close>

lemma rfilter_Inr: "rfilter p xs = Inr ys \<Longrightarrow> ys = filter (\<lambda>x. p x = Inr True) xs \<and> (\<forall>x\<in>set xs. is_ok (p x))"
  by (induction xs arbitrary: ys) (auto split: if_splits)

lemma read_number: "finite_profile_number (JFloat x) False = Inr (Some y) \<Longrightarrow> y = x \<and> isfinite x"
  by (cases "isfinite x") (auto simp: finite_profile_number_def try_float_def)

lemma candidate_fits_True:
  "candidate_fits options required c = Inr True \<longleftrightarrow>
    (truthy (jget (JObj options) ''tools'') \<longrightarrow> jget c ''supports_tools'' = JBool True) \<and>
    (wants_json (jget (JObj options) ''response_format'') \<longrightarrow> jget c ''supports_json'' = JBool True) \<and>
    fits_window required c = Inr True"
  by (auto simp: candidate_fits_def simp del: jget.simps)

lemma fits_window_True:
  "fits_window required c = Inr True \<longleftrightarrow>
    (\<exists>window. finite_profile_number (first_present c [''context_window'', ''model_context_window'']) True = Inr (Some window) \<and>
       required \<le> window)"
  by (auto simp: fits_window_def split: option.splits)

text \<open>Property C22. The candidates that remain for a request are those of the ranking, in its order, that can take
  it: each supports tools when the request has tools and JSON when it asks for JSON, and has a positive
  context window that holds the estimated input and output; no candidate that can take it is lost.\<close>

theorem compatible_candidates_exact:
  assumes "request_compatible_candidates candidates options input out = Inr compatible"
  shows "Fin 0 \<le> input \<and> Fin 0 \<le> out \<and> compatible = filter (\<lambda>c.
      (truthy (jget (JObj options) ''tools'') \<longrightarrow> jget c ''supports_tools'' = JBool True) \<and>
      (wants_json (jget (JObj options) ''response_format'') \<longrightarrow> jget c ''supports_json'' = JBool True) \<and>
      (\<exists>window. finite_profile_number (first_present c [''context_window'', ''model_context_window'']) True = Inr (Some window) \<and>
         input + out \<le> window)) candidates"
proof -
  obtain i out' where n: "finite_profile_number (JFloat input) False = Inr (Some i)"
    "finite_profile_number (JFloat out) False = Inr (Some out')" "\<not> i < Fin 0" "\<not> out' < Fin 0"
    "rfilter (candidate_fits options (i + out')) candidates = Inr compatible"
    using assms by (auto simp: request_compatible_candidates_def split: option.splits if_splits)
  have same: "i = input" "out' = out" using read_number n(1,2) by blast+
  have "isfinite input" "isfinite out" using read_number n(1,2) by blast+
  then have "Fin 0 \<le> input" "Fin 0 \<le> out" using n(3,4) unfolding same by (auto simp: isfinite_iff)
  then show ?thesis using rfilter_Inr [OF n(5)] unfolding same(1,2) candidate_fits_True fits_window_True by blast
qed

definition tool_model :: json where
  "tool_model = JObj [(''model_id'', JStr ''m''), (''supports_tools'', JBool True), (''context_window'', JInt 100)]"

lemma numbers_read: "finite_profile_number (JInt 100) True = Inr (Some (Fin 100))"
  "finite_profile_number (JFloat (Fin 10)) False = Inr (Some (Fin 10))"
  "finite_profile_number (JFloat (Fin 20)) False = Inr (Some (Fin 20))"
  "Fin 10 + Fin 20 \<le> Fin 100"
  by code_simp+

lemma compatible_candidates_exact_witness:
  "\<exists>compatible. request_compatible_candidates [tool_model, small_model] [(''tools'', JArr [JNull])] (Fin 10) (Fin 20) = Inr compatible \<and>
     Fin 0 \<le> Fin 10 \<and> small_model \<notin> set compatible"
proof -
  have ok: "is_ok (request_compatible_candidates [tool_model, small_model] [(''tools'', JArr [JNull])] (Fin 10) (Fin 20))"
    by (simp add: request_compatible_candidates_def numbers_read candidate_fits_def wants_json_def
        fits_window_def tool_model_def small_model_def)
  obtain cs where cs: "request_compatible_candidates [tool_model, small_model] [(''tools'', JArr [JNull])] (Fin 10) (Fin 20) = Inr cs"
    using ok by (rule is_okE)
  have "jget c ''supports_tools'' = JBool True" if "c \<in> set cs" for c
    using that unfolding conjunct2 [OF conjunct2 [OF compatible_candidates_exact [OF cs]]] set_filter by simp
  moreover have "jget small_model ''supports_tools'' = JNull" by (simp add: small_model_def)
  ultimately have "small_model \<notin> set cs" by fastforce
  then show ?thesis using cs by auto
qed

section \<open>The stream and the completion\<close>

lemma heartbeat_parts:
  "map ch_finish (heartbeat_chunks beats) = replicate (length beats) None"
  "concat (map ch_delta (heartbeat_chunks beats)) = []"
  "length (heartbeat_chunks beats) = length beats"
proof -
  have "map ch_finish (map (\<lambda>(i, s). status_chunk (f i) (elapsed_ms s)) (enumerate n beats)) = replicate (length beats) None \<and>
      concat (map ch_delta (map (\<lambda>(i, s). status_chunk (f i) (elapsed_ms s)) (enumerate n beats))) = []" for f n
    by (induction beats arbitrary: n) (simp_all add: status_chunk_def)
  from this [of "\<lambda>i. status_steps ! min i (length status_steps - 1)" 0]
  show "map ch_finish (heartbeat_chunks beats) = replicate (length beats) None"
    "concat (map ch_delta (heartbeat_chunks beats)) = []"
    unfolding heartbeat_chunks_def by (rule conjunct1, rule conjunct2)
qed (simp add: heartbeat_chunks_def)

lemma opening_parts: "ch_finish opening_chunk = None" "ch_delta opening_chunk = [(''role'', JStr ''assistant'')]"
  by (simp_all add: opening_chunk_def status_chunk_def)

lemma finish_text_nonempty: "finish_text r \<noteq> []"
  by (cases r) auto

lemma closing_finish:
  assumes "closing_chunks outcome elapsed = Inr closing"
  shows "\<exists>reason. reason \<noteq> [] \<and> map ch_finish closing = replicate (length closing - 1) None @ [Some reason] \<and>
    closing \<noteq> [] \<and> length closing \<le> 2"
  using assms
proof (cases outcome)
  case (Inl e)
  then show ?thesis using assms by (cases e) (auto simp: error_chunk_def done_chunk_def)
next
  case (Inr route_result)
  then show ?thesis using assms finish_text_nonempty
    by (fastforce simp: done_chunk_def completion_finish_def Let_def split: if_splits)
qed

lemma attr_get_ok: "is_ok (attr_get v k d) \<longleftrightarrow> is_object v"
  by (cases v) auto

lemma closing_ok: "is_ok (closing_chunks outcome elapsed) \<longleftrightarrow> (\<forall>rr. outcome = Inr rr \<longrightarrow> is_object (response_of rr))"
proof (cases outcome)
  case (Inl e)
  then show ?thesis by (cases e) auto
next
  case (Inr rr)
  then show ?thesis using attr_get_ok [of "response_of rr" "''content''" "JStr []"]
    by (cases "attr_get (response_of rr) ''content'' (JStr [])") (auto simp: Let_def)
qed

text \<open>The chunks that tell the client of a failed routing, and the last chunk of an answer.\<close>

fun tells :: "http_error \<Rightarrow> chunk \<Rightarrow> bool" where
  "tells (HTTPException status detail) c \<longleftrightarrow>
     ch_delta c = [(''content'', JStr (''LeRouter could not complete this request. Provider routing failed with HTTP '' @
       show_int status @ '': '' @ compact_http_error_detail detail @ ''.''))] \<and>
     jget (JObj (ch_lerouter c)) ''status'' = JStr ''error'' \<and> jget (JObj (ch_lerouter c)) ''status_code'' = JInt status \<and>
     jget (JObj (ch_lerouter c)) ''detail'' = detail"
| "tells (Raised e) c \<longleftrightarrow>
     ch_delta c = [(''content'', JStr ''LeRouter could not complete this request because an internal routing error occurred.'')] \<and>
     jget (JObj (ch_lerouter c)) ''status'' = JStr ''error'' \<and> jget (JObj (ch_lerouter c)) ''detail'' = JStr (exception_name e)"

lemma closing_told:
  "\<exists>told. closing_chunks (Inl e) elapsed = Inr [told, done_chunk ''stop''] \<and> tells e told \<and> ch_finish told = None"
  by (cases e) (simp_all add: error_chunk_def error_text_def)

lemma heartbeat_nth: "i < length beats \<Longrightarrow> heartbeat_chunks beats ! i = status_chunk (status_steps ! min i 5) (elapsed_ms (beats ! i))"
proof -
  assume i: "i < length beats"
  have "length status_steps - 1 = 5" by (simp add: status_steps_def)
  with i show ?thesis unfolding heartbeat_chunks_def by (simp add: nth_enumerate_eq)
qed

definition ends_once :: "chunk list \<Rightarrow> bool" where
  "ends_once chunks \<longleftrightarrow> (\<exists>reason. reason \<noteq> [] \<and> map ch_finish chunks = replicate (length chunks - 1) None @ [Some reason])"

lemma closed_ends_once:
  assumes "closing_chunks outcome elapsed = Inr closing"
  shows "ends_once ((opening_chunk # heartbeat_chunks beats) @ closing)"
proof -
  obtain reason where r: "reason \<noteq> []" "map ch_finish closing = replicate (length closing - 1) None @ [Some reason]"
    "closing \<noteq> []" using closing_finish [OF assms] by blast
  have n: "length ((opening_chunk # heartbeat_chunks beats) @ closing) - 1 = Suc (length beats) + (length closing - 1)"
    using r(3) heartbeat_parts(3) [of beats] by (cases closing) simp_all
  have "map ch_finish ((opening_chunk # heartbeat_chunks beats) @ closing) =
      replicate (length ((opening_chunk # heartbeat_chunks beats) @ closing) - 1) None @ [Some reason]"
    unfolding n replicate_add by (simp add: r(2) heartbeat_parts opening_parts)
  with r(1) show ?thesis unfolding ends_once_def by blast
qed

text \<open>
  Property C20. A stream opens with the assistant role and sends one status chunk per heartbeat, in
  the order of the routing stages. What follows depends on the routing task. An HTTP error or any other exception
  is told to the client in one chunk, with the status and detail of the error, and the stream is
  closed. A result whose response is an object is closed after at most one chunk with the answer.
  A closed stream carries exactly one finish reason, on its last chunk. A result whose response is no object, and
  the cancellation of the task, break the stream after the heartbeats.
\<close>

theorem stream_closes_once:
  assumes "stream_chunks beats outcome seconds = (chunks, broken)"
  shows "hd chunks = opening_chunk \<and> length beats < length chunks \<and>
    (\<forall>i<length beats. chunks ! Suc i = status_chunk (status_steps ! min i 5) (elapsed_ms (beats ! i))) \<and>
    (broken = None \<longrightarrow> ends_once chunks) \<and>
    (case outcome of
       Cancelled \<Rightarrow> broken = Some BrokenByCancel \<and> length chunks = length beats + 1
     | Finished (Inl e) \<Rightarrow> broken = None \<and>
         (\<exists>told. drop (length beats + 1) chunks = [told, done_chunk ''stop''] \<and> tells e told)
     | Finished (Inr rr) \<Rightarrow>
         if is_object (response_of rr) then broken = None \<and> length chunks \<in> {length beats + 2, length beats + 3}
         else broken \<noteq> None \<and> length chunks = length beats + 1)"
proof -
  let ?open = "opening_chunk # heartbeat_chunks beats"
  have beat: "(?open @ closing) ! Suc i = status_chunk (status_steps ! min i 5) (elapsed_ms (beats ! i))"
    if "i < length beats" for i closing
    using that by (simp add: nth_append heartbeat_parts(3) heartbeat_nth)
  show ?thesis
  proof (cases outcome)
    case Cancelled
    with assms have "chunks = ?open @ []" "broken = Some BrokenByCancel" by (simp_all add: stream_chunks_def)
    then show ?thesis using beat [of _ "[]"] Cancelled by (simp add: heartbeat_parts(3))
  next
    case (Finished result)
    show ?thesis
    proof (cases result)
      case (Inl e)
      obtain told where t: "closing_chunks (Inl e) (elapsed_ms seconds) = Inr [told, done_chunk ''stop'']" "tells e told"
        using closing_told by blast
      then have c: "chunks = ?open @ [told, done_chunk ''stop'']" "broken = None"
        using assms Finished Inl by (simp_all add: stream_chunks_def)
      then show ?thesis using beat [of _ "[told, done_chunk ''stop'']"] closed_ends_once [OF t(1), of beats] t(2) Finished Inl
        by (simp add: heartbeat_parts(3))
    next
      case (Inr rr)
      note ok = closing_ok [of "Inr rr" "elapsed_ms seconds"]
      show ?thesis
      proof (cases "closing_chunks (Inr rr) (elapsed_ms seconds)")
        case (Inl e)
        then have c: "chunks = ?open @ []" "broken = Some (BrokenBy e)" "\<not> is_object (response_of rr)"
          using assms Finished Inr ok by (simp_all add: stream_chunks_def del: closing_chunks.simps)
        then show ?thesis using beat [of _ "[]"] Finished Inr by (simp add: heartbeat_parts(3))
      next
        case closing: (Inr closing)
        then have c: "chunks = ?open @ closing" "broken = None" "is_object (response_of rr)"
          using assms Finished Inr ok by (simp_all add: stream_chunks_def del: closing_chunks.simps)
        have "closing \<noteq> []" "length closing \<le> 2" using closing_finish [OF closing] by blast+
        then have "length closing \<in> {1, 2}" by (cases closing; cases "tl closing") auto
        then show ?thesis using beat [of _ closing] closed_ends_once [OF closing, of beats] c Finished Inr
          by (auto simp: heartbeat_parts(3))
      qed
    qed
  qed
qed

lemma stream_closes_once_witness:
  "\<exists>chunks told. stream_chunks [Fin 2] (Finished (Inl (HTTPException 502 (JStr ''no'')))) (Fin 3) = (chunks, None) \<and>
     hd chunks = opening_chunk \<and> drop 2 chunks = [told, done_chunk ''stop''] \<and>
     jget (JObj (ch_lerouter told)) ''status_code'' = JInt 502"
proof -
  obtain chunks where c: "stream_chunks [Fin 2] (Finished (Inl (HTTPException 502 (JStr ''no'')))) (Fin 3) = (chunks, None)"
    by (simp add: stream_chunks_def)
  note sound = stream_closes_once [OF c]
  obtain told where "drop 2 chunks = [told, done_chunk ''stop'']" "tells (HTTPException 502 (JStr ''no'')) told"
    using sound by (auto simp del: tells.simps simp: numeral_2_eq_2)
  moreover have "hd chunks = opening_chunk" using sound by blast
  ultimately show ?thesis using c unfolding tells.simps by blast
qed

text \<open>Property C19. The stream gives the same answer as the chat completion of the same route result: the deltas it sends add up
  to the completion's message (role, tool calls and content, where an empty content is not sent), and
  its last chunk carries the completion's finish reason.\<close>

theorem stream_mirrors_completion:
  assumes "openai_compatible_response hex now request_model route_result = Inr completion"
    "stream_chunks beats (Finished (Inr route_result)) seconds = (chunks, broken)"
  shows "\<exists>choice reason. broken = None \<and> jget completion ''choices'' = JArr [choice] \<and>
    jget choice ''finish_reason'' = JStr reason \<and> ch_finish (last chunks) = Some reason \<and>
    jget (JObj (concat (map ch_delta chunks))) ''role'' = jget (jget choice ''message'') ''role'' \<and>
    jget (JObj (concat (map ch_delta chunks))) ''tool_calls'' = jget (jget choice ''message'') ''tool_calls'' \<and>
    jor (jget (JObj (concat (map ch_delta chunks))) ''content'') (JStr []) = jor (jget (jget choice ''message'') ''content'') (JStr [])"
proof -
  let ?r = "response_of route_result"
  obtain content where c: "attr_get ?r ''content'' (JStr []) = Inr content"
    using assms(1) by (auto simp: openai_compatible_response_def Let_def)
  define calls where "calls = jor (jget ?r ''tool_calls'') (JArr [])"
  define metadata where "metadata = completed_metadata route_result ?r (elapsed_ms seconds)"
  have chunks: "broken = None" "chunks = opening_chunk # heartbeat_chunks beats @
      (if final_delta content calls \<noteq> [] then [\<lparr>ch_delta = final_delta content calls, ch_finish = None, ch_lerouter = metadata\<rparr>] else []) @
      [done_chunk (completion_finish ?r)]"
    using assms(2) c by (auto simp: stream_chunks_def calls_def metadata_def Let_def)
  have deltas: "concat (map ch_delta chunks) = (''role'', JStr ''assistant'') # final_delta content calls"
    by (simp add: chunks heartbeat_parts opening_parts done_chunk_def)
  have last: "ch_finish (last chunks) = Some (completion_finish ?r)" by (simp add: chunks done_chunk_def)
  define choice where "choice = JObj [(''index'', JInt 0),
      (''message'', JObj ([(''role'', JStr ''assistant''), (''content'', content)] @ (if truthy calls then [(''tool_calls'', calls)] else []))),
      (''finish_reason'', JStr (completion_finish ?r))]"
  have completion: "jget completion ''choices'' = JArr [choice]"
    using assms(1) c by (auto simp: openai_compatible_response_def choice_def calls_def Let_def)
  have "jget (JObj (concat (map ch_delta chunks))) ''role'' = jget (jget choice ''message'') ''role''"
    "jget (JObj (concat (map ch_delta chunks))) ''tool_calls'' = jget (jget choice ''message'') ''tool_calls''"
    "jor (jget (JObj (concat (map ch_delta chunks))) ''content'') (JStr []) = jor (jget (jget choice ''message'') ''content'') (JStr [])"
    unfolding deltas by (simp_all add: choice_def final_delta_def jor_def)
  then show ?thesis using chunks(1) completion last by (intro exI [of _ choice]) (auto simp: choice_def)
qed

definition small_route :: json where
  "small_route = JObj [(''route_id'', JStr ''r1''), (''response'', JObj [(''content'', JStr ''hello''), (''provider'', JStr ''anthropic''),
     (''finish_reason'', JStr ''max_tokens'')])]"

lemma stream_mirrors_completion_witness:
  "\<exists>completion chunks choice. openai_compatible_response ''00'' 7 ''auto'' small_route = Inr completion \<and>
     stream_chunks [Fin 2] (Finished (Inr small_route)) (Fin 3) = (chunks, None) \<and> jget completion ''choices'' = JArr [choice] \<and>
     jget (JObj (concat (map ch_delta chunks))) ''role'' = jget (jget choice ''message'') ''role''"
proof -
  obtain completion where a: "openai_compatible_response ''00'' 7 ''auto'' small_route = Inr completion"
    by (simp add: openai_compatible_response_def response_of_def small_route_def jor_def Let_def)
  obtain chunks where b: "stream_chunks [Fin 2] (Finished (Inr small_route)) (Fin 3) = (chunks, None)"
    by (simp add: stream_chunks_def response_of_def small_route_def jor_def Let_def)
  show ?thesis using a b stream_mirrors_completion [OF a b] by blast
qed

section \<open>The signed selection\<close>

definition selected_candidate :: "json \<Rightarrow> json" where
  "selected_candidate route_result =
     hd (ranked_of (jor (jget route_result ''pipeline'') (JObj [])) (jor (jget route_result ''best_model'') (JObj [])))"

lemma selection_parts:
  assumes "route_selection_response mac route_result execution = Inr answer"
  obtains token where "issue_accounting_token mac (selection_claim route_result (selected_candidate route_result) execution) = Inr token"
    "jget answer ''accounting_token'' = JStr token"
    "text_at answer ''user_id'' = strip (text_at route_result ''user_id'')"
    "jget answer ''routing_call_id'' = JStr (strip (text_at route_result ''routing_call_id''))"
    "text_at answer ''route_id'' = text_at route_result ''route_id''"
    "strip (text_at answer ''selected_model_id'') = strip (text_at (selected_candidate route_result) ''model_id'')"
    "jget answer ''max_tokens'' = execution_tokens execution"
proof -
  define best where "best = jor (jget route_result ''best_model'') (JObj [])"
  define ranked where "ranked = ranked_of (jor (jget route_result ''pipeline'') (JObj [])) best"
  define primary where "primary = (\<lambda>token. [(''rank'', JInt 1), (''user_id'', JStr (strip (text_at route_result ''user_id''))),
    (''routing_call_id'', JStr (strip (text_at route_result ''routing_call_id''))), (''accounting_token'', JStr token)])"
  have cand: "selected_candidate route_result = hd ranked" by (simp add: selected_candidate_def ranked_def best_def)
  have user: "strip (text_at route_result ''user_id'') \<noteq> []" and ids: "ranked_ids ranked \<noteq> []"
    "hd (ranked_ids ranked) = strip (text_at best ''model_id'')" and obj: "is_object (hd ranked)"
    using assms by (auto simp: route_selection_response_def check_selection_def Let_def best_def ranked_def simp del: jget.simps split: if_splits)
  have "ranked \<noteq> []" using ids(1) by (auto simp: ranked_ids_def)
  then have head: "hd (ranked_ids ranked) = strip (text_at (hd ranked) ''model_id'')" using obj by (cases ranked) (auto simp: ranked_ids_def)
  obtain token rest where t: "issue_accounting_token mac (selection_claim route_result (hd ranked) execution) = Inr token"
    "answer = selection_answer route_result ranked execution (primary token @ rest)"
    using assms by (auto simp: route_selection_response_def check_selection_def execution_candidate_def Let_def best_def ranked_def primary_def
        simp del: jget.simps split: if_splits)
  note ans = t(2) selection_answer_def Let_def
  show thesis
  proof (rule that [of token])
    show "issue_accounting_token mac (selection_claim route_result (selected_candidate route_result) execution) = Inr token"
      using t(1) cand by simp
    show "jget answer ''accounting_token'' = JStr token" "jget answer ''max_tokens'' = execution_tokens execution"
      "jget answer ''routing_call_id'' = JStr (strip (text_at route_result ''routing_call_id''))"
      by (simp_all add: ans primary_def)
    show "text_at answer ''user_id'' = strip (text_at route_result ''user_id'')" "text_at answer ''route_id'' = text_at route_result ''route_id''"
      using user by (simp_all add: ans text_at_def jor_def)
    have "text_at answer ''selected_model_id'' = text_at best ''model_id''" by (simp add: ans text_at_def best_def)
    then show "strip (text_at answer ''selected_model_id'') = strip (text_at (selected_candidate route_result) ''model_id'')"
      using ids(2) head cand by simp
  qed
qed

text \<open>
  Property C18. A client that executes the selected model itself holds a claim that the report endpoint will
  accept for this selection and no other, provided the token has at most 8192 characters (issuing does not
  bound its length, verification does), the claim holds no infinite or undefined number, and a workflow
  execution has a positive token limit and a positive money limit. Then the token in the answer verifies, and the
  verified claim names the user, the call, the route and the selected model of the answer, and for a workflow
  call the reservation that was made and the token limit that the answer states.
\<close>

theorem selection_claim_verifies:
  assumes "route_selection_response mac route_result execution = Inr answer"
    "prepare_claim (selection_claim route_result (selected_candidate route_result) execution) = Inr claim" "json_finite (JObj claim)"
    "\<And>ex. execution = Some ex \<Longrightarrow> 0 < ex_max_output_tokens ex \<and> Fin 0 < ex_call_limit_usd ex"
    "loads (dumps_sorted (JObj claim)) = Some (sorted_json (JObj claim))"
    "jget answer ''accounting_token'' = JStr token" "length token \<le> 8192"
  shows "\<exists>c. verify_accounting_token mac loads token = Inr c \<and> text_of c ''user_id'' = text_at answer ''user_id'' \<and>
    text_of c ''route_id'' = strip (text_at answer ''route_id'') \<and> jget answer ''routing_call_id'' = JStr (text_of c ''routing_call_id'') \<and>
    text_of c ''model_id'' = strip (text_at answer ''selected_model_id'') \<and>
    (\<forall>ex. execution = Some ex \<longrightarrow> text_of c ''reservation_id'' = strip (ex_reservation_id ex) \<and>
       map_of c ''max_output_tokens'' = Some (jget answer ''max_tokens''))"
proof -
  let ?q = "selection_claim route_result (selected_candidate route_result) execution"
  obtain t where s: "issue_accounting_token mac ?q = Inr t" "jget answer ''accounting_token'' = JStr t"
    "text_at answer ''user_id'' = strip (text_at route_result ''user_id'')"
    "jget answer ''routing_call_id'' = JStr (strip (text_at route_result ''routing_call_id''))"
    "text_at answer ''route_id'' = text_at route_result ''route_id''"
    "strip (text_at answer ''selected_model_id'') = strip (text_at (selected_candidate route_result) ''model_id'')"
    "jget answer ''max_tokens'' = execution_tokens execution"
    using selection_parts [OF assms(1)] by metis
  have token: "token = token_of mac (dumps_sorted (JObj claim))"
    using s(1,2) assms(2,6) by (simp add: issue_accounting_token_def)
  have q: "cq_execution ?q = execution" "cq_user_id ?q = text_at route_result ''user_id''" "cq_route_id ?q = text_at route_result ''route_id''"
    "cq_model_id ?q = strip (text_at (selected_candidate route_result) ''model_id'')"
    "cq_routing_call_id ?q = strip (text_at route_result ''routing_call_id'')" by (simp_all add: selection_claim_def)
  obtain c P P' where c: "verify_claim (sorted_dict claim) = Inr c" "map_of c = (map_of claim)(''model_profile'' \<mapsto> JObj P')"
    using verify_prepared [OF assms(2,3)] assms(4) q(1) by metis
  have v: "verify_accounting_token mac loads token = Inr c"
    using verify_token [of mac claim loads] assms(5,7) c(1) token by simp
  obtain w Q where cl: "claim = claim_of ?q Q (Some w)" using prepared_claim [OF assms(2)] by metis
  have entries: "map_of c ''user_id'' = Some (JStr (strip (cq_user_id ?q)))" "map_of c ''route_id'' = Some (JStr (strip (cq_route_id ?q)))"
    "map_of c ''model_id'' = Some (JStr (strip (cq_model_id ?q)))" "map_of c ''routing_call_id'' = Some (JStr (strip (cq_routing_call_id ?q)))"
    by (simp_all add: c(2) cl claim_of_def)
  have workflow: "map_of c ''reservation_id'' = Some (JStr (strip (ex_reservation_id ex)))"
    "map_of c ''max_output_tokens'' = Some (JInt (ex_max_output_tokens ex))" if "execution = Some ex" for ex
    using that q(1) by (simp_all add: c(2) cl claim_of_def)
  show ?thesis
    using v entries [THEN text_of_JStr] workflow workflow(1) [THEN text_of_JStr] s(3-7) q(2-5)
    by (intro exI [of _ c]) (auto simp: execution_tokens_def)
qed

definition small_selection :: json where
  "small_selection = JObj [(''user_id'', JStr ''u1''), (''route_id'', JStr ''r1''), (''route_name'', JStr ''main''), (''routing_call_id'', JStr ''c1''),
     (''best_model'', JObj [(''model_id'', JStr ''m''), (''provider'', JStr ''acme''), (''input_price_per_million'', JFloat (Fin 2)),
        (''output_price_per_million'', JFloat (Fin (5 / 2))), (''supports_tools'', JBool True), (''request_weight'', JFloat (Fin 3))])]"

lemma small_selection_prepared:
  "prepare_claim (selection_claim small_selection (selected_candidate small_selection) (cq_execution sample_request)) = Inr sample_claim"
  by code_simp

lemma small_selection_checked: "is_ok (check_selection small_selection)" "is_object (selected_candidate small_selection)"
  by code_simp+

lemma selection_claim_verifies_witness:
  "\<exists>answer token c. route_selection_response rev small_selection (cq_execution sample_request) = Inr answer \<and>
     jget answer ''accounting_token'' = JStr token \<and> verify_accounting_token rev sample_loads token = Inr c \<and>
     text_of c ''user_id'' = text_at answer ''user_id'' \<and> text_of c ''model_id'' = strip (text_at answer ''selected_model_id'')"
proof -
  let ?text = "dumps_sorted (JObj sample_claim)" and ?ex = "cq_execution sample_request"
  obtain ranked where r: "check_selection small_selection = Inr ranked" using small_selection_checked(1) by (rule is_okE)
  then have hd: "hd ranked = selected_candidate small_selection"
    by (auto simp: check_selection_def selected_candidate_def Let_def simp del: jget.simps split: if_splits)
  have issue: "issue_accounting_token rev (selection_claim small_selection (selected_candidate small_selection) ?ex) = Inr (token_of rev ?text)"
    using small_selection_prepared by (simp add: issue_accounting_token_def)
  then obtain answer where a: "route_selection_response rev small_selection ?ex = Inr answer"
    using r hd small_selection_checked(2) by (simp add: route_selection_response_def execution_candidate_def Let_def)
  then have t: "jget answer ''accounting_token'' = JStr (token_of rev ?text)" using issue by (auto elim: selection_parts)
  have "length (token_of rev ?text) \<le> 8192"
    using base64_length [of ?text] base64_length [of "rev ?text"] sample_length by (simp add: token_of_def)
  moreover have "sample_loads ?text = Some (sorted_json (JObj sample_claim))" by (simp add: sample_loads_def)
  ultimately show ?thesis
    using selection_claim_verifies [OF a small_selection_prepared sample_finite sample_limits _ t] a t by blast
qed

end
