(* ===== verification/Workflow_Rank.thy ===== *)
theory Workflow_Rank
  imports Budget_State
begin

text \<open>
  The ranking of candidates for a call of a workflow (\<^verbatim>\<open>src/frontend/lerouter_modal_api.py\<close>): the
  predictions of the two predictor services, the target of the call under every scope above it, and
  the candidates that the workflow budget authorises, best first. The services are functions from a
  request to an answer; of two that fail, an argument says whose failure is seen first.
\<close>

section \<open>Predictions\<close>

record workflow_prediction =
  wp_output_tokens :: pyfloat
  wp_length :: json
  wp_horizon :: json

definition gather :: "bool \<Rightarrow> 'a http \<Rightarrow> 'b http \<Rightarrow> ('a \<times> 'b) http" where
  "gather left_first a b =
     (case (a, b) of
        (Inr x, Inr y) \<Rightarrow> Inr (x, y)
      | (Inl e, Inr y) \<Rightarrow> Inl e
      | (Inr x, Inl e) \<Rightarrow> Inl e
      | (Inl d, Inl e) \<Rightarrow> Inl (if left_first then d else e))"

definition length_request :: "json list \<Rightarrow> json" where
  "length_request messages = JObj [(''verbosity_multiplier'', JFloat (Fin 1)), (''prompt'', JStr (messages_text messages))]"

definition horizon_request :: "json \<Rightarrow> json list \<Rightarrow> json list \<Rightarrow> json \<Rightarrow> json" where
  "horizon_request run scopes messages workflow_events =
     JObj [(''workflow_run_id'', jget run ''id''), (''root_goal'', jget run ''goal''), (''messages'', JArr messages),
       (''events'', workflow_events),
       (''scopes'', JArr (map (\<lambda>s. JObj [(''scope_id'', jget s ''id''), (''name'', jget s ''name''), (''goal'', jget s ''goal'')]) scopes))]"

definition predicted_length :: "json \<Rightarrow> pyfloat option http" where
  "predicted_length answer =
     (if \<not> is_object answer then Inl (Raised (AttributeError ''object has no attribute get''))
      else lift (finite_profile_number (first_present answer [''predicted_tokens'', ''predicted_tokens_rounded'']) True))"

fun is_array :: "json \<Rightarrow> bool" where
  "is_array (JArr xs) = True"
| "is_array _ = False"

text \<open>A service whose address is not configured is \<open>None\<close>.\<close>

definition workflow_predictions :: "bool \<Rightarrow> (json \<Rightarrow> json http) option \<Rightarrow> (json \<Rightarrow> json http) option \<Rightarrow> json \<Rightarrow> json list \<Rightarrow>
    json list \<Rightarrow> json \<Rightarrow> workflow_prediction http" where
  "workflow_predictions left_first length_predictor horizon_predictor run scopes messages workflow_events =
     (case (length_predictor, horizon_predictor) of
        (None, _) \<Rightarrow> refuse 503 ''length_predictor_required'' []
      | (Some _, None) \<Rightarrow> refuse 503 ''workflow_horizon_predictor_required'' []
      | (Some predict_length, Some predict_horizon) \<Rightarrow>
          rbind (gather left_first (predict_length (length_request messages))
            (predict_horizon (horizon_request run scopes messages workflow_events))) (\<lambda>(length_result, horizon_result).
          rbind (predicted_length length_result) (\<lambda>n. case n of
            None \<Rightarrow> refuse 502 ''invalid_length_prediction'' []
          | Some predicted_tokens \<Rightarrow>
              if \<not> is_array (jget horizon_result ''predictions'') then refuse 502 ''invalid_workflow_horizon_prediction'' []
              else Inr \<lparr>wp_output_tokens = predicted_tokens, wp_length = length_result, wp_horizon = horizon_result\<rparr>)))"

definition output_length_prediction :: "(json \<Rightarrow> json http) option \<Rightarrow> json list \<Rightarrow> (pyfloat \<times> json) http" where
  "output_length_prediction length_predictor messages =
     (case length_predictor of
        None \<Rightarrow> refuse 503 ''length_predictor_required'' []
      | Some predict_length \<Rightarrow>
          rbind (predict_length (length_request messages)) (\<lambda>answer.
          rbind (predicted_length answer) (\<lambda>n. case n of
            None \<Rightarrow> refuse 502 ''invalid_length_prediction'' []
          | Some predicted_tokens \<Rightarrow> Inr (predicted_tokens, answer))))"

section \<open>The target of the call\<close>

fun budget_checked :: "'a result \<Rightarrow> 'a http" where
  "budget_checked (Inl (WorkflowBudgetError m)) = refuse 409 ''workflow_budget_prediction_invalid'' [(''message'', JStr m)]"
| "budget_checked (Inl (KeyError k)) = refuse 409 ''workflow_budget_prediction_invalid'' [(''message'', JStr (str_repr k))]"
| "budget_checked (Inl e) = Inl (Raised e)"
| "budget_checked (Inr x) = Inr x"

fun array_items :: "json \<Rightarrow> json list" where
  "array_items (JArr xs) = xs"
| "array_items _ = []"

definition horizon_by_scope :: "json list \<Rightarrow> (string, json) dict" where
  "horizon_by_scope predictions =
     dict_of (map (\<lambda>item. (text_at item ''scope_id'', item))
       (filter (\<lambda>item. is_object item \<and> strip (text_at item ''scope_id'') \<noteq> []) predictions))"

record weighted_prediction = workflow_prediction +
  wp_target :: workflow_target
  wp_weight :: request_weight

definition apply_workflow_weighted_target :: "(pyfloat \<Rightarrow> pyfloat \<Rightarrow> pyfloat result) \<Rightarrow> (pyfloat \<Rightarrow> pyfloat result) \<Rightarrow> json list \<Rightarrow>
    json list \<Rightarrow> json \<Rightarrow> json \<Rightarrow> workflow_prediction \<Rightarrow> weighted_prediction http" where
  "apply_workflow_weighted_target powf expf scopes messages request_options route_schema predictions =
     (let horizon_predictions = jget (wp_horizon predictions) ''predictions''; config = jget (wp_horizon predictions) ''weight_config'' in
      if \<not> is_array horizon_predictions \<or> \<not> is_object config then refuse 502 ''invalid_workflow_horizon_prediction'' []
      else
      rbind (route_difficulty route_schema) (\<lambda>difficulty.
      rbind (budget_checked (workflow_request_weight powf expf (JInt (conservative_input_tokens messages request_options))
          (JFloat (wp_output_tokens predictions)) (JFloat difficulty) (jget config ''median_weighted_tokens'')
          (jget config ''output_token_weight'') (jget config ''request_size_beta'') (jget config ''request_difficulty_alpha'')
          (jget config ''request_weight_min'') (jget config ''request_weight_max''))) (\<lambda>weight.
      rbind (budget_checked (effective_scope_target scopes (horizon_by_scope (array_items horizon_predictions))
          (JFloat (rw_request_weight weight)))) (\<lambda>target.
      Inr \<lparr>wp_output_tokens = wp_output_tokens predictions, wp_length = wp_length predictions, wp_horizon = wp_horizon predictions,
        wp_target = target, wp_weight = weight\<rparr>))))"

section \<open>The limit of the caller\<close>

text \<open>
  \<open>authorize_candidate\<close> reads the caller's limit only when the call is funded, and compares it as it
  is: an error of that reading takes the place of the refusal that a limit of zero meets there.
\<close>

definition zero_limit_refused :: "'a result \<Rightarrow> bool" where
  "zero_limit_refused a = (case a of Inl e \<Rightarrow> e = WorkflowBudgetError ''caller max_tokens must be positive'' | Inr _ \<Rightarrow> False)"

definition authorize_with :: "(int option \<Rightarrow> authorization result) \<Rightarrow> json \<Rightarrow> authorization result" where
  "authorize_with authorize caller_max_tokens =
     (let instead = (\<lambda>e. if zero_limit_refused (authorize (Some 0)) then Inl e else authorize (Some 0)) in
      case caller_max_tokens of
        JNull \<Rightarrow> authorize None
      | JBool b \<Rightarrow> authorize (Some (if b then 1 else 0))
      | JInt n \<Rightarrow> authorize (Some n)
      | JFloat (Fin r) \<Rightarrow>
          if r \<le> 0 then authorize (Some 0)
          else if r < 1 then instead (WorkflowBudgetError ''workflow call limit cannot fund any output tokens'')
          else authorize (Some (trunc r))
      | JFloat PInf \<Rightarrow> instead OverflowError
      | JFloat NInf \<Rightarrow> authorize (Some 0)
      | JFloat NaN \<Rightarrow> instead (ValueError ''cannot convert float NaN to integer'')
      | _ \<Rightarrow> instead (TypeError ''unorderable types''))"

section \<open>The ranking\<close>

record ranked_candidate =
  rc_candidate :: json
  rc_quality_utility :: pyfloat
  rc_predicted_cost_usd :: pyfloat
  rc_budget_penalty :: pyfloat
  rc_final_score :: pyfloat
  rc_authorization :: authorization
  rc_request_weight :: pyfloat

datatype verdict = Ranked ranked_candidate | Failed json

definition supported_providers :: "json \<Rightarrow> string set" where
  "supported_providers request_options = set (map (\<lambda>v. lower (py_str v)) (array_items (jget request_options ''workflow_supported_providers'')))"

definition failure :: "json \<Rightarrow> string \<Rightarrow> json" where
  "failure candidate reason = JObj [(''model_id'', JStr (text_at candidate ''model_id'')), (''reason'', JStr reason)]"

definition authorize_ranked :: "int \<Rightarrow> json \<Rightarrow> weighted_prediction \<Rightarrow> json \<Rightarrow> (pyfloat \<times> authorization) result" where
  "authorize_ranked input_tokens request_options predictions candidate =
     rbind (predicted_provider_cost input_tokens (JFloat (wp_output_tokens predictions)) (jget candidate ''input_price_per_million'')
       (jget candidate ''output_price_per_million'')) (\<lambda>cost.
     rbind (authorize_with (authorize_candidate (JFloat (wt_available_usd (wp_target predictions)))
         (JFloat (wt_effective_target_usd (wp_target predictions))) (JFloat cost) input_tokens (jget candidate ''input_price_per_million'')
         (jget candidate ''output_price_per_million'')) (jget request_options ''max_tokens'')) (\<lambda>a.
     Inr (cost, a)))"

definition scored_candidate :: "weighted_prediction \<Rightarrow> json \<Rightarrow> pyfloat \<Rightarrow> pyfloat \<Rightarrow> authorization \<Rightarrow> ranked_candidate" where
  "scored_candidate predictions candidate quality cost a =
     (let effective_target = wt_effective_target_usd (wp_target predictions);
          over_target = pmax (Fin 0) (cost - effective_target);
          penalty = fdiv over_target (pmax effective_target tolerance) in
      \<lparr>rc_candidate = candidate, rc_quality_utility = quality, rc_predicted_cost_usd = cost, rc_budget_penalty = penalty,
       rc_final_score = quality - penalty, rc_authorization = a, rc_request_weight = rw_request_weight (wp_weight predictions)\<rparr>)"

definition rank_candidate :: "int \<Rightarrow> json \<Rightarrow> weighted_prediction \<Rightarrow> json \<Rightarrow> verdict result" where
  "rank_candidate input_tokens request_options predictions candidate =
     (let provider = executable_provider_for_model candidate; supported = supported_providers request_options in
      if supported \<noteq> {} \<and> provider \<notin> supported
      then Inr (Failed (failure candidate (''local SDK does not support provider '' @ provider)))
      else case authorize_ranked input_tokens request_options predictions candidate of
        Inl (WorkflowBudgetError m) \<Rightarrow> Inr (Failed (failure candidate m))
      | Inl e \<Rightarrow> Inl e
      | Inr (cost, a) \<Rightarrow> rbind (number_at candidate ''biencoder_score'') (\<lambda>quality.
          Inr (Ranked (scored_candidate predictions candidate quality cost a))))"

definition rank_key :: "ranked_candidate \<Rightarrow> pyfloat \<times> pyfloat" where
  "rank_key c = (- not_nan (rc_final_score c), not_nan (rc_predicted_cost_usd c))"

definition rank_less :: "pyfloat \<times> pyfloat \<Rightarrow> pyfloat \<times> pyfloat \<Rightarrow> bool" where
  "rank_less = tuple_lt feq (<) (<)"

fun ranked_part :: "verdict list \<Rightarrow> ranked_candidate list" where
  "ranked_part [] = []"
| "ranked_part (Ranked c # vs) = c # ranked_part vs"
| "ranked_part (Failed f # vs) = ranked_part vs"

fun failed_part :: "verdict list \<Rightarrow> json list" where
  "failed_part [] = []"
| "failed_part (Ranked c # vs) = failed_part vs"
| "failed_part (Failed f # vs) = f # failed_part vs"

definition workflow_rank_candidates :: "json list \<Rightarrow> json list \<Rightarrow> json \<Rightarrow> weighted_prediction \<Rightarrow> ranked_candidate list http" where
  "workflow_rank_candidates candidates messages request_options predictions =
     rbind (lift (rmap (rank_candidate (conservative_input_tokens messages request_options) request_options predictions) candidates))
       (\<lambda>verdicts.
     let ranked = sort_by rank_less rank_key (ranked_part verdicts) in
     if ranked = [] then refuse 409 ''workflow_budget_exhausted'' [(''candidate_failures'', JArr (failed_part verdicts))]
     else Inr ranked)"

text \<open>The entry of a ranked candidate: the candidate with the values added.\<close>

definition authorization_json :: "authorization \<Rightarrow> json" where
  "authorization_json a =
     JObj [(''call_limit_usd'', JFloat (au_call_limit_usd a)), (''input_reserve_usd'', JFloat (au_input_reserve_usd a)),
       (''max_output_tokens'', JInt (au_max_output_tokens a))]"

definition enriched :: "json \<Rightarrow> ranked_candidate \<Rightarrow> json" where
  "enriched predictions_json c =
     JObj (foldl (\<lambda>d (k, v). dict_set k v d) (case rc_candidate c of JObj kvs \<Rightarrow> kvs | _ \<Rightarrow> [])
       [(''quality_utility'', JFloat (rc_quality_utility c)), (''predicted_provider_cost_usd'', JFloat (rc_predicted_cost_usd c)),
        (''workflow_budget_penalty'', JFloat (rc_budget_penalty c)), (''final_score'', JFloat (rc_final_score c)),
        (''workflow_authorization'', authorization_json (rc_authorization c)), (''workflow_predictions'', predictions_json),
        (''request_weight'', JFloat (rc_request_weight c))])"

end
