(* ===== verification/Workflow_Rank_Props.thy ===== *)
theory Workflow_Rank_Props
  imports Workflow_Rank Workflow_Props
begin

text \<open>
  The ranking of a workflow call is exact: it holds the candidates the budget authorises and no other,
  best first, each with an authorisation within what every scope has left.
\<close>

interpretation rank_order: key_order rank_less "\<lambda>k. fst k \<noteq> NaN \<and> snd k \<noteq> NaN"
  using key_order_tuple [OF key_order_pyfloat key_order_pyfloat feq_iff_not_less] by (simp add: rank_less_def)

lemma not_nan_ne [simp]: "not_nan x \<noteq> NaN" "- not_nan x \<noteq> NaN"
  by (cases x; simp add: not_nan_def uminus_pyfloat_def)+

lemma rank_key_ok: "fst (rank_key c) \<noteq> NaN \<and> snd (rank_key c) \<noteq> NaN"
  by (simp add: rank_key_def)

section \<open>Authorisation of one candidate\<close>

lemma authorize_with_Inr:
  assumes "authorize_with f v = Inr a"
  obtains caller where "f caller = Inr a" "\<And>n. v = JInt n \<Longrightarrow> caller = Some n"
proof (cases "\<exists>n. v = JInt n")
  case True
  then show ?thesis using assms that by (auto simp: authorize_with_def Let_def)
next
  case False
  then have "\<exists>caller. f caller = Inr a" using assms
    by (auto simp: authorize_with_def Let_def split: json.splits pyfloat.splits if_splits)
  then show ?thesis using that False by blast
qed

lemma less_Fin_le: "x < Fin r \<Longrightarrow> x \<le> Fin r"
  by (cases x) auto

lemma authorized_bounds:
  assumes "authorize_candidate (JFloat available) target cost n i out caller = Inr a"
  shows "au_call_limit_usd a \<le> available" "1 \<le> au_max_output_tokens a"
    "caller = Some m \<Longrightarrow> au_max_output_tokens a \<le> m"
  using assms by (auto simp: authorize_candidate_def Let_def pmin_def cap_tokens_def less_Fin_le split: if_splits option.splits)

definition authorised :: "int \<Rightarrow> json \<Rightarrow> weighted_prediction \<Rightarrow> json \<Rightarrow> bool" where
  "authorised input_tokens request_options predictions candidate =
     ((supported_providers request_options = {} \<or> executable_provider_for_model candidate \<in> supported_providers request_options) \<and>
      is_ok (authorize_ranked input_tokens request_options predictions candidate))"

lemma rank_candidate_Ranked:
  assumes "rank_candidate n options predictions candidate = Inr (Ranked c)"
  shows "authorised n options predictions candidate" "rc_candidate c = candidate"
    "authorize_ranked n options predictions candidate = Inr (rc_predicted_cost_usd c, rc_authorization c)"
  using assms by (auto simp: rank_candidate_def authorised_def scored_candidate_def Let_def
      split: if_splits sum.splits py_error.splits)

lemma rank_candidate_Failed:
  assumes "rank_candidate n options predictions candidate = Inr (Failed f)"
  shows "\<not> authorised n options predictions candidate"
  using assms by (auto simp: rank_candidate_def authorised_def Let_def split: if_splits sum.splits py_error.splits)

lemma ranked_part_exact:
  assumes "rmap (rank_candidate n options predictions) candidates = Inr verdicts"
  shows "map rc_candidate (ranked_part verdicts) = filter (authorised n options predictions) candidates \<and>
    (\<forall>c\<in>set (ranked_part verdicts). authorize_ranked n options predictions (rc_candidate c) = Inr (rc_predicted_cost_usd c, rc_authorization c))"
  using assms
proof (induction candidates arbitrary: verdicts)
  case (Cons x xs)
  from Cons.prems obtain v vs where v: "rank_candidate n options predictions x = Inr v" "verdicts = v # vs"
    "rmap (rank_candidate n options predictions) xs = Inr vs" by auto
  show ?case
  proof (cases v)
    case (Ranked c)
    with rank_candidate_Ranked v(1) Cons.IH [OF v(3)] v(2) show ?thesis by simp
  next
    case (Failed f)
    with rank_candidate_Failed v(1) Cons.IH [OF v(3)] v(2) show ?thesis by simp
  qed
qed simp

lemma authorize_ranked_bounds:
  assumes "authorize_ranked n options predictions candidate = Inr (cost, a)"
  shows "au_call_limit_usd a \<le> wt_available_usd (wp_target predictions)" "1 \<le> au_max_output_tokens a"
    "jget options ''max_tokens'' = JInt m \<Longrightarrow> au_max_output_tokens a \<le> m"
proof -
  let ?f = "authorize_candidate (JFloat (wt_available_usd (wp_target predictions)))
      (JFloat (wt_effective_target_usd (wp_target predictions))) (JFloat cost) n (jget candidate ''input_price_per_million'')
      (jget candidate ''output_price_per_million'')"
  have "authorize_with ?f (jget options ''max_tokens'') = Inr a"
    using assms by (auto simp: authorize_ranked_def simp del: jget.simps)
  then obtain caller where c: "?f caller = Inr a" "\<And>m. jget options ''max_tokens'' = JInt m \<Longrightarrow> caller = Some m"
    by (rule authorize_with_Inr) blast
  show "au_call_limit_usd a \<le> wt_available_usd (wp_target predictions)" "1 \<le> au_max_output_tokens a"
    "jget options ''max_tokens'' = JInt m \<Longrightarrow> au_max_output_tokens a \<le> m"
    using authorized_bounds [OF c(1)] c(2) by blast+
qed

section \<open>The order\<close>

text \<open>The first of two candidates may stand before the second: its score is not worse, and of equal scores it is not dearer.\<close>

definition ranks_before :: "ranked_candidate \<Rightarrow> ranked_candidate \<Rightarrow> bool" where
  "ranks_before a b \<longleftrightarrow> \<not> not_nan (rc_final_score a) < not_nan (rc_final_score b) \<and>
     (not_nan (rc_final_score a) = not_nan (rc_final_score b) \<longrightarrow>
        \<not> not_nan (rc_predicted_cost_usd b) < not_nan (rc_predicted_cost_usd a))"

lemma negated_less: "x \<noteq> NaN \<Longrightarrow> y \<noteq> NaN \<Longrightarrow> - x < - y \<longleftrightarrow> y < (x :: pyfloat)"
  by (cases x; cases y) (auto simp: uminus_pyfloat_def)

lemma negated_eq: "- x = - y \<longleftrightarrow> x = (y :: pyfloat)"
  by (cases x; cases y) (auto simp: uminus_pyfloat_def)

lemma not_less_self: "\<not> (x :: pyfloat) < x"
  by (cases x) auto

lemma rank_less_before: "\<not> rank_less (rank_key b) (rank_key a) \<longleftrightarrow> ranks_before a b"
  unfolding rank_less_def tuple_lt_def rank_key_def ranks_before_def feq_def
  by (auto simp: negated_eq negated_less not_less_self)

text \<open>The score of a ranked candidate: its quality less what its cost exceeds the target by, in parts of the target.\<close>

definition scored_by :: "int \<Rightarrow> weighted_prediction \<Rightarrow> ranked_candidate \<Rightarrow> bool" where
  "scored_by n predictions c \<longleftrightarrow> (\<exists>quality ip op tokens ni.
     let target = wt_effective_target_usd (wp_target predictions) in
     number_at (rc_candidate c) ''biencoder_score'' = Inr quality \<and>
     finite_positive (jget (rc_candidate c) ''input_price_per_million'') ''input_price_per_million'' = Inr ip \<and>
     finite_positive (jget (rc_candidate c) ''output_price_per_million'') ''output_price_per_million'' = Inr op \<and>
     wp_output_tokens predictions = tokens \<and> float_of_int n = Inr ni \<and>
     rc_predicted_cost_usd c = fdiv (ni * ip + tokens * op) (Fin 1000000) \<and>
     rc_final_score c = quality - fdiv (pmax (Fin 0) (rc_predicted_cost_usd c - target)) (pmax target tolerance))"

lemma rank_candidate_scored:
  assumes "rank_candidate n options predictions candidate = Inr (Ranked c)"
  shows "scored_by n predictions c"
proof -
  obtain quality where q: "number_at candidate ''biencoder_score'' = Inr quality"
    "c = scored_candidate predictions candidate quality (rc_predicted_cost_usd c) (rc_authorization c)"
    using assms by (auto simp: rank_candidate_def scored_candidate_def Let_def simp del: jget.simps
      split: if_splits sum.splits py_error.splits)
  have cost: "predicted_provider_cost n (JFloat (wp_output_tokens predictions)) (jget candidate ''input_price_per_million'')
       (jget candidate ''output_price_per_million'') = Inr (rc_predicted_cost_usd c)"
    using rank_candidate_Ranked(3) [OF assms] rank_candidate_Ranked(2) [OF assms] by (auto simp: authorize_ranked_def)
  have score: "rc_final_score c = quality -
      fdiv (pmax (Fin 0) (rc_predicted_cost_usd c - wt_effective_target_usd (wp_target predictions)))
        (pmax (wt_effective_target_usd (wp_target predictions)) tolerance)"
    by (subst q(2)) (simp add: scored_candidate_def Let_def)
  show ?thesis using cost q(1) score unfolding scored_by_def Let_def rank_candidate_Ranked(2) [OF assms]
    by (auto simp: predicted_provider_cost_def times_int_def simp del: jget.simps)
qed

lemma ranked_part_scored:
  assumes "rmap (rank_candidate n options predictions) candidates = Inr verdicts"
  shows "\<forall>c\<in>set (ranked_part verdicts). scored_by n predictions c"
  using assms
proof (induction candidates arbitrary: verdicts)
  case (Cons x xs)
  from Cons.prems obtain v vs where v: "rank_candidate n options predictions x = Inr v" "verdicts = v # vs"
    "rmap (rank_candidate n options predictions) xs = Inr vs" by auto
  with Cons.IH [OF v(3)] rank_candidate_scored show ?case by (cases v) auto
qed simp

text \<open>
  Property C7. The ranking of a workflow call is exact: it holds each candidate that the workflow budget
  authorises and whose provider the client supports, and no other, with the best score first and the
  cheaper of equal scores first. The score is the router's quality less the part of the target by which the
  predicted cost exceeds it, and the cost is that of the input and the predicted output at the candidate's
  prices per million tokens. Each is authorised for a positive number of tokens, at most as many as the
  caller asked for, and for no more money than the workflow has available.
\<close>

theorem workflow_ranking_exact:
  assumes "workflow_rank_candidates candidates messages options predictions = Inr ranked"
  shows "ranked \<noteq> [] \<and> sorted_wrt ranks_before ranked \<and>
    mset (map rc_candidate ranked) =
      mset (filter (authorised (conservative_input_tokens messages options) options predictions) candidates) \<and>
    (\<forall>c\<in>set ranked. scored_by (conservative_input_tokens messages options) predictions c \<and>
       au_call_limit_usd (rc_authorization c) \<le> wt_available_usd (wp_target predictions) \<and>
       1 \<le> au_max_output_tokens (rc_authorization c) \<and>
       (\<forall>n. jget options ''max_tokens'' = JInt n \<longrightarrow> au_max_output_tokens (rc_authorization c) \<le> n))"
proof -
  let ?n = "conservative_input_tokens messages options"
  obtain verdicts where v: "rmap (rank_candidate ?n options predictions) candidates = Inr verdicts"
    "ranked = sort_by rank_less rank_key (ranked_part verdicts)" "ranked \<noteq> []"
    using assms by (auto simp: workflow_rank_candidates_def Let_def split: if_splits)
  note e = conjunct1 [OF ranked_part_exact [OF v(1)]] conjunct2 [OF ranked_part_exact [OF v(1)]]
  have "sorted_wrt (\<lambda>a b. \<not> rank_less (rank_key b) (rank_key a)) ranked"
    unfolding v(2) by (rule rank_order.sorted_sort_by) (simp add: rank_key_ok)
  then have "sorted_wrt ranks_before ranked" by (simp add: rank_less_before)
  moreover have "mset (map rc_candidate ranked) = mset (filter (authorised ?n options predictions) candidates)"
    unfolding v(2) mset_map mset_sort_by e(1) [symmetric] by simp
  moreover have "scored_by ?n predictions c \<and> au_call_limit_usd (rc_authorization c) \<le> wt_available_usd (wp_target predictions) \<and>
       1 \<le> au_max_output_tokens (rc_authorization c) \<and>
       (\<forall>n. jget options ''max_tokens'' = JInt n \<longrightarrow> au_max_output_tokens (rc_authorization c) \<le> n)" if "c \<in> set ranked" for c
  proof -
    have "authorize_ranked ?n options predictions (rc_candidate c) = Inr (rc_predicted_cost_usd c, rc_authorization c)"
      using e(2) that v(2) by simp
    moreover have "scored_by ?n predictions c" using ranked_part_scored [OF v(1)] that v(2) by simp
    ultimately show ?thesis using authorize_ranked_bounds [of ?n options predictions "rc_candidate c"] by blast
  qed
  ultimately show ?thesis using v(3) by blast
qed

definition sample_prediction :: weighted_prediction where
  "sample_prediction = \<lparr>wp_output_tokens = Fin 1000, wp_length = JNull, wp_horizon = JNull,
     wp_target = \<lparr>wt_effective_target_usd = Fin 1, wt_available_usd = Fin 4, wt_scope_targets = []\<rparr>,
     wp_weight = \<lparr>rw_difficulty = Fin 1, rw_input_length_tokens = Fin 1, rw_output_length_tokens = Fin 1,
        rw_output_token_weight = Fin 1, rw_weighted_tokens = Fin 1, rw_median_weighted_tokens = Fin 1, rw_size_factor = Fin 1,
        rw_request_size_beta = Fin 1, rw_request_difficulty_alpha = Fin 1, rw_unclipped_request_weight = Fin 1,
        rw_request_weight_min = Fin 1, rw_request_weight_max = Fin 1, rw_request_weight = Fin 1\<rparr>\<rparr>"

definition ranked_sample :: "json \<Rightarrow> json \<Rightarrow> json" where
  "ranked_sample name score = JObj [(''model_id'', name), (''provider'', JStr ''openai''), (''input_price_per_million'', JInt 1),
     (''output_price_per_million'', JInt 2), (''biencoder_score'', score)]"

lemma sample_tokens: "conservative_input_tokens [] (JObj [(''max_tokens'', JInt 64)]) = 83"
  by code_simp

lemma candidate_is_ranked:
  assumes "supported_providers options = {}" "is_ok (authorize_ranked n options predictions candidate)"
    "is_ok (number_at candidate ''biencoder_score'')"
  obtains c where "rank_candidate n options predictions candidate = Inr (Ranked c)"
proof -
  obtain ca where ca: "authorize_ranked n options predictions candidate = Inr ca" using assms(2) by (auto simp: is_ok_iff)
  obtain q where "number_at candidate ''biencoder_score'' = Inr q" using assms(3) by (auto simp: is_ok_iff)
  then show thesis using that ca assms(1) by (cases ca) (simp add: rank_candidate_def Let_def)
qed

lemma sample_authorized:
  "is_ok (authorize_ranked 83 (JObj [(''max_tokens'', JInt 64)]) sample_prediction (ranked_sample (JStr ''a'') (JInt 0)))"
  "is_ok (authorize_ranked 83 (JObj [(''max_tokens'', JInt 64)]) sample_prediction (ranked_sample (JStr ''b'') (JInt 1)))"
  "is_ok (number_at (ranked_sample (JStr ''a'') (JInt 0)) ''biencoder_score'')"
  "is_ok (number_at (ranked_sample (JStr ''b'') (JInt 1)) ''biencoder_score'')"
  by code_simp+

lemma sample_supported: "supported_providers (JObj [(''max_tokens'', JInt 64)]) = {}"
  by (simp add: supported_providers_def)

lemma workflow_ranking_exact_witness:
  "\<exists>ranked. workflow_rank_candidates [ranked_sample (JStr ''a'') (JInt 0), ranked_sample (JStr ''b'') (JInt 1)] []
     (JObj [(''max_tokens'', JInt 64)]) sample_prediction = Inr ranked \<and>
     sorted_wrt ranks_before ranked"
proof -
  obtain c d where cd: "rank_candidate 83 (JObj [(''max_tokens'', JInt 64)]) sample_prediction (ranked_sample (JStr ''a'') (JInt 0)) = Inr (Ranked c)"
    "rank_candidate 83 (JObj [(''max_tokens'', JInt 64)]) sample_prediction (ranked_sample (JStr ''b'') (JInt 1)) = Inr (Ranked d)"
    using candidate_is_ranked [OF sample_supported sample_authorized(1,3)] candidate_is_ranked [OF sample_supported sample_authorized(2,4)]
    by metis
  define ranked where "ranked = sort_by rank_less rank_key [c, d]"
  have "length ranked = 2" by (simp only: ranked_def length_sort_by) simp
  then have r: "workflow_rank_candidates [ranked_sample (JStr ''a'') (JInt 0), ranked_sample (JStr ''b'') (JInt 1)] []
     (JObj [(''max_tokens'', JInt 64)]) sample_prediction = Inr ranked"
    unfolding workflow_rank_candidates_def sample_tokens Let_def
    by (auto simp: cd ranked_def [symmetric] simp del: sort_by.simps)
  show ?thesis using r workflow_ranking_exact [OF r] by blast
qed

end
