(* ===== verification/Spec2Isabelle.thy ===== *)
theory Spec2Isabelle
  imports Policy_Agent Cache_Props Routing_Props Compaction_Props Gateway_Props Ids Privacy_Props Span_Props Sdk_Props Sdk_Threads Workflow_Props Exporter_Props Workflow_Store_Props Accounting_Props Settlement_Props Selection_Props Workflow_Rank_Props
begin

text \<open>
  A verification library of PromptRail: the Python control plane that prepares, bounds and accounts
  for every model call of an agent run (\<^verbatim>\<open>src/src/promptrail\<close>), and the routing service LeRouter
  (\<^verbatim>\<open>src/frontend\<close>) that meters calls against budgets and signs what it allowed.

  \<^bold>\<open>The control plane.\<close> A policy agent turns documents into an operating policy (\<^verbatim>\<open>policy.py\<close>); the
  controller (\<^verbatim>\<open>controller.py\<close>) holds the runs, allocates a budget to each call, reserves it and settles
  it; the cache coordinator (\<^verbatim>\<open>cache.py\<close>) finds the prompt prefix a provider still holds; the compactor
  (\<^verbatim>\<open>compaction.py\<close>) shortens tool outputs outside that prefix; the router (\<^verbatim>\<open>routing.py\<close>) ranks models
  and plans a provider under the deadline; the gateway (\<^verbatim>\<open>gateway.py\<close>) composes all of these into one
  preparation, and releases the reservation when any of them fails. The telemetry side observes the runs:
  context (\<^verbatim>\<open>context/runtime.py\<close>), span processor (\<^verbatim>\<open>tracing/\<close>), client (\<^verbatim>\<open>sdk.py\<close>), privacy policy
  (\<^verbatim>\<open>privacy/policy.py\<close>) and exporter (\<^verbatim>\<open>exporter/\<close>).

  \<^bold>\<open>LeRouter.\<close> A payload's messages become a routing text (\<open>Messages\<close>), candidate models get prices
  (\<open>Pricing\<close>) and providers (\<open>Providers\<close>), the budget of the user scores them (\<open>Budget_State\<close>) or the
  budget of the workflow authorises and ranks them (\<open>Workflow_Rank\<close>), a workflow call is reserved against every scope above it (\<open>Workflow_Store\<close>), and the accounting token
  (\<open>Accounting\<close>) carries the claim that settles the reservation. A call is executed by a provider
  (\<open>Provider_Calls\<close>, \<open>Provider_Answers\<close>) or left to the client, who receives the signed selection
  (\<open>Selection\<close>) and reports the usage, which is recorded once and debited from the budget (\<open>Usage\<close>).

  \<^bold>\<open>The theories.\<close>
  \<^item> \<open>Py_Prelude\<close>, \<open>Py_Float\<close>, \<open>Py_Str\<close>, \<open>Py_Json\<close>, \<open>Py_Any\<close>, \<open>Py_Url\<close>: what the code uses of Python:
    dictionaries as association lists in insertion order, results as sums with \<open>rbind\<close>, stable sorting,
    binary64 floats with rounding to even, Latin-1 strings, JSON values and their texts. \<open>Py_Rounding\<close>
    bounds how far the float operations of a price are from its exact value.
  \<^item> \<open>Models\<close> (\<^verbatim>\<open>models.py\<close>, \<^verbatim>\<open>errors.py\<close>), \<open>Policy_Agent\<close> (\<^verbatim>\<open>policy.py\<close>,
    \<^verbatim>\<open>budgeting.py\<close>), \<open>Cache\<close>, \<open>Routing\<close>, \<open>Compaction\<close>, \<open>Controller\<close>, \<open>Gateway\<close> with their \<open>_Props\<close>
    theories. The theorems show that each call's cost is counted once, that a grant stays within every limit,
    that a failed preparation leaves no reservation, that a claimed cache prefix is one the provider was
    observed to hold, that compaction only touches what may be compacted, and that a provider plan meets its deadline.
  \<^item> \<open>Ids\<close>, \<open>Privacy\<close>, \<open>Config\<close>, \<open>Runtime_Context\<close>, \<open>Canonical\<close>, \<open>Classifier\<close>, \<open>Span_Processor\<close>, \<open>Sdk\<close>,
    \<open>Exporter\<close> and their \<open>_Props\<close>: nesting of run scopes, the registry of spans (each trace's run is ended
    once, under its own identifier), the lifecycle of runs, and an account of every event the exporter was given.
    \<open>Sdk_Threads\<close> interleaves the threads that start and end runs and shut the client down: each part
    under \<^verbatim>\<open>_runs_lock\<close> and each emission after it is a step of its own.
  \<^item> \<open>Http\<close>, \<open>Providers\<close>, \<open>Messages\<close>, \<open>Pricing\<close>, \<open>Budget_State\<close>, \<open>Workflow_Budget\<close>
    (\<^verbatim>\<open>workflow_budget.py\<close>), \<open>Workflow_Store\<close>, \<open>Accounting\<close> with \<open>Workflow_Props\<close>,
    \<open>Workflow_Store_Props\<close>, \<open>Accounting_Props\<close>, and \<open>Workflow_Rank\<close>, \<open>Usage\<close>, \<open>Provider_Calls\<close>,
    \<open>Provider_Answers\<close>, \<open>Selection\<close> with \<open>Workflow_Rank_Props\<close>, \<open>Usage_Props\<close>, \<open>Settlement_Props\<close>,
    \<open>Selection_Props\<close>: the ledger of workflow scopes refines an abstract account, a ranking holds exactly what is authorised,
    reservations never exceed a scope's maximum, a signed claim is read back as it was issued, a report
    settles only the call it was signed for, a call is counted once whatever is retried, and an execution
    uses the answer of the model ranked first.

  \<^bold>\<open>Conventions.\<close> A raise is \<open>Inl\<close> of an error value, an operation that changes state returns the new
  state with its result, and a critical section of the code is one step. Clock readings (microseconds as
  \<open>int\<close>, the performance counter as a float), fresh identifiers, digests, keyed hashes, \<^verbatim>\<open>json.loads\<close>,
  the iteration order of a set, \<^verbatim>\<open>math.exp\<close> and the power function, the generators, provider services and the document database
  are arguments; what is relied on (OpenTelemetry puts a span into the trace of its parent, for one) is stated as hypotheses or as the \<open>assumes\<close> of a locale, which
  the model's own definitions interpret. A transaction is one step that keeps the old state when it fails.
  A float sum is a fold from the left; negative zero is merged with zero, and an integer too large for a float
  becomes an infinity except where the code handles the overflow. Logging is left out.
  The retries of the usage transaction count down its eight attempts. Loops over data are structural recursion. Three that are not (water filling in the compactor, the exporter's
  retry loop and the walk up the workflow scopes) carry fuel, and for each a theorem or lemma shows that the fuel
  given by its caller is never used up.

  \<^bold>\<open>Not modelled.\<close> The HTTP clients (\<^verbatim>\<open>clients.py\<close>), the framework middleware (\<^verbatim>\<open>langchain.py\<close>),
  integrations, propagation and the historical import move data through third-party libraries. Of LeRouter, pool
  storage, calls to its workers, jobs and the endpoints that only compose these are effects
  on services outside the repository. The installer, the demo and the web pages are not part of the control plane.
\<close>

end
